(* ===== verification/NRM_Prelude.thy ===== *)
theory NRM_Prelude
  imports Main "HOL-Library.Signed_Division" "HOL-Library.Multiset" "HOL-Library.Sublist"
begin

text \<open>
  The shared vocabulary of the development.

  \<^item> \<open>fault\<close> and \<open>'a exec\<close>: what a C function does besides returning.  A NULL dereference,
    a failed \<open>assert\<close>, an access outside an object, a read of the wrong member of a union, a
    use after \<open>free\<close>, a read of an uninitialised variable, a loop that never ends and a call of \<open>exit\<close> (with
    its status) are values (\<open>Inl\<close>), so every one of
    them is a branch of the model; \<open>Inr\<close> is a normal return.
  \<^item> The error codes of include/nrm/utils/error.h, returned negated, and \<open>nrm_strerror\<close> of
    src/utils/error.c.
  \<^item> The fixed-width integer conversions of the platform (LP64): \<open>s64\<close>, \<open>s32\<close>,
    \<open>u64\<close>, \<open>u32\<close> reduce a mathematical integer to the range of the C type.  Truncating
    division and remainder are \<open>sdiv\<close> and \<open>smod\<close> of HOL-Library.
  \<^item> Generic lemmas on lists and association lists that the components share.
\<close>

named_theorems exec_simps \<open>rewriting of the exec combinators\<close>
named_theorems cint_simps \<open>fixed-width conversions inside their range\<close>
named_theorems alist_simps \<open>association lists in insertion order\<close>


section \<open>Executions that may fault\<close>

datatype fault =
    NullDeref
  | AssertFail
  | OutOfBounds
  | WrongUnion
  | UseAfterFree
  | Diverges
  | Uninit
  | Exits int

type_synonym 'a exec = "fault + 'a"

definition bindE :: "'a exec \<Rightarrow> ('a \<Rightarrow> 'b exec) \<Rightarrow> 'b exec" where
  "bindE m f = (case m of Inl e \<Rightarrow> Inl e | Inr x \<Rightarrow> f x)"

definition assertE :: "bool \<Rightarrow> unit exec" where
  "assertE b = (if b then Inr () else Inl AssertFail)"

definition derefE :: "'a option \<Rightarrow> 'a exec" where
  "derefE p = (case p of None \<Rightarrow> Inl NullDeref | Some x \<Rightarrow> Inr x)"

fun foldE :: "('a \<Rightarrow> 's \<Rightarrow> 's exec) \<Rightarrow> 'a list \<Rightarrow> 's \<Rightarrow> 's exec" where
  "foldE f [] s = Inr s"
| "foldE f (x # xs) s = bindE (f x s) (foldE f xs)"

fun mapE :: "('a \<Rightarrow> 'b exec) \<Rightarrow> 'a list \<Rightarrow> 'b list exec" where
  "mapE f [] = Inr []"
| "mapE f (x # xs) = bindE (f x) (\<lambda>y. bindE (mapE f xs) (\<lambda>ys. Inr (y # ys)))"

definition returns :: "'a exec \<Rightarrow> bool" where
  "returns m \<longleftrightarrow> (case m of Inl _ \<Rightarrow> False | Inr _ \<Rightarrow> True)"

lemma bindE_Inr [simp, exec_simps]: "bindE (Inr x) f = f x"
  by (simp add: bindE_def)

lemma bindE_Inl [simp, exec_simps]: "bindE (Inl e) f = Inl e"
  by (simp add: bindE_def)

lemma bindE_eq_Inr: "bindE m f = Inr y \<longleftrightarrow> (\<exists>x. m = Inr x \<and> f x = Inr y)"
  by (cases m) auto

lemma bindE_eq_InrE [elim]:
  assumes "bindE m f = Inr y"
  obtains x where "m = Inr x" and "f x = Inr y"
  using assms by (auto simp: bindE_eq_Inr)

lemma bindE_assoc: "bindE (bindE m f) g = bindE m (\<lambda>x. bindE (f x) g)"
  by (cases m) auto

lemma assertE_simps [simp, exec_simps]:
  "assertE True = Inr ()" "assertE False = Inl AssertFail"
  by (simp_all add: assertE_def)

lemma assertE_eq_Inr [simp]: "assertE b = Inr u \<longleftrightarrow> b"
  by (simp add: assertE_def)

lemma derefE_simps [simp, exec_simps]:
  "derefE None = Inl NullDeref" "derefE (Some x) = Inr x"
  by (simp_all add: derefE_def)

lemma derefE_eq_Inr [simp]: "derefE p = Inr x \<longleftrightarrow> p = Some x"
  by (cases p) auto

lemma returns_simps [simp, exec_simps]: "returns (Inr x)" "\<not> returns (Inl e)"
  by (simp_all add: returns_def)

lemma returns_iff: "returns m \<longleftrightarrow> (\<exists>x. m = Inr x)"
  by (cases m) auto

lemma foldE_append: "foldE f (xs @ ys) s = bindE (foldE f xs s) (foldE f ys)"
proof (induction xs arbitrary: s)
  case (Cons x xs)
  then show ?case by (cases "f x s") auto
qed simp

lemma foldE_map: "foldE f (map h xs) s = foldE (\<lambda>x. f (h x)) xs s"
proof (induction xs arbitrary: s)
  case (Cons x xs)
  then have "foldE f (map h xs) = foldE (\<lambda>x. f (h x)) xs" by auto
  then show ?case by simp
qed simp

lemma foldE_concat:
  "foldE (\<lambda>x. foldE (g x) (ys x)) xs s = foldE (\<lambda>(x, y). g x y) (concat (map (\<lambda>x. map (Pair x) (ys x)) xs)) s"
proof (induction xs arbitrary: s)
  case (Cons x xs)
  then have "foldE (\<lambda>x. foldE (g x) (ys x)) xs = foldE (\<lambda>(x, y). g x y) (concat (map (\<lambda>x. map (Pair x) (ys x)) xs))"
    by auto
  then show ?case by (simp add: foldE_append foldE_map)
qed simp

lemma foldE_cong:
  "(\<And>x s. x \<in> set xs \<Longrightarrow> f x s = g x s) \<Longrightarrow> foldE f xs s = foldE g xs s"
proof (induction xs arbitrary: s)
  case (Cons x xs)
  have "foldE f xs = foldE g xs" using Cons by auto
  then show ?case using Cons.prems by simp
qed simp

lemma foldE_pure: "(\<And>x s. x \<in> set xs \<Longrightarrow> f x s = Inr (g x s)) \<Longrightarrow> foldE f xs s = Inr (fold g xs s)"
  by (induction xs arbitrary: s) auto

lemma foldE_invariant:
  assumes "foldE f xs s = Inr t" and "P s"
    and "\<And>x s t. x \<in> set xs \<Longrightarrow> P s \<Longrightarrow> f x s = Inr t \<Longrightarrow> P t"
  shows "P t"
  using assms
proof (induction xs arbitrary: s)
  case Nil
  then show ?case by simp
next
  case (Cons x xs)
  from Cons.prems(1) obtain u where u: "f x s = Inr u" and rest: "foldE f xs u = Inr t"
    by auto
  have "P u" using Cons.prems(2) Cons.prems(3) [of x s u] u by simp
  with rest show ?case
    using Cons.IH Cons.prems(3) by (meson list.set_intros(2))
qed

lemma mapE_pure: "(\<And>x. x \<in> set xs \<Longrightarrow> f x = Inr (g x)) \<Longrightarrow> mapE f xs = Inr (map g xs)"
  by (induction xs) auto

lemma mapE_length: "mapE f xs = Inr ys \<Longrightarrow> length ys = length xs"
  by (induction xs arbitrary: ys) (auto simp: bindE_eq_Inr)


section \<open>Error codes\<close>

definition NRM_SUCCESS :: int where [simp]: "NRM_SUCCESS = 0"
definition NRM_FAILURE :: int where [simp]: "NRM_FAILURE = 1"
definition NRM_ENOMEM :: int where [simp]: "NRM_ENOMEM = 2"
definition NRM_EINVAL :: int where [simp]: "NRM_EINVAL = 3"
definition NRM_EDOM :: int where [simp]: "NRM_EDOM = 4"
definition NRM_ENOTSUP :: int where [simp]: "NRM_ENOTSUP = 5"
definition NRM_EBUSY :: int where [simp]: "NRM_EBUSY = 6"
definition NRM_EPERM :: int where [simp]: "NRM_EPERM = 7"
definition NRM_ENOTFOUND :: int where [simp]: "NRM_ENOTFOUND = 8"
definition NRM_ERROR_MAX :: int where [simp]: "NRM_ERROR_MAX = 9"

text \<open>
  The designated initialisers of \<open>nrm_error_strings\<close>: the table is written in a different
  order from the codes, each entry placed at the index its designator names.
\<close>

definition nrm_error_strings :: "(int \<times> string) list" where
  "nrm_error_strings =
     [(NRM_SUCCESS, ''Success''),
      (NRM_FAILURE, ''Generic error''),
      (NRM_ENOMEM, ''Not enough memory''),
      (NRM_EINVAL, ''Invalid argument''),
      (NRM_EDOM, ''Value out of bound''),
      (NRM_EBUSY, ''Underlying resource is not available for operation''),
      (NRM_ENOTSUP, ''Operation not supported''),
      (NRM_EPERM, ''Insufficient permissions''),
      (NRM_ENOTFOUND, ''Value not found'')]"

definition nrm_strerror :: "int \<Rightarrow> string option" where
  "nrm_strerror err =
     (if err < 0 \<or> err \<ge> NRM_ERROR_MAX then Some ''Unknown error''
      else map_of nrm_error_strings err)"

text \<open>The text \<open>nrm_perror\<close> prints, with glibc's rendering of a NULL string.\<close>

definition nrm_perror :: "string \<Rightarrow> int \<Rightarrow> string" where
  "nrm_perror msg nrm_errno =
     msg @ '':'' @ (case nrm_strerror nrm_errno of None \<Rightarrow> ''(null)'' | Some s \<Rightarrow> s) @ [CHR 10]"


section \<open>Fixed-width integers\<close>

definition s64 :: "int \<Rightarrow> int" where
  "s64 x = (x + 2 ^ 63) mod 2 ^ 64 - 2 ^ 63"

definition s32 :: "int \<Rightarrow> int" where
  "s32 x = (x + 2 ^ 31) mod 2 ^ 32 - 2 ^ 31"

definition u64 :: "int \<Rightarrow> int" where
  "u64 x = x mod 2 ^ 64"

definition u32 :: "int \<Rightarrow> int" where
  "u32 x = x mod 2 ^ 32"

definition in_s64 :: "int \<Rightarrow> bool" where
  "in_s64 x \<longleftrightarrow> - (2 ^ 63) \<le> x \<and> x < 2 ^ 63"

definition in_s32 :: "int \<Rightarrow> bool" where
  "in_s32 x \<longleftrightarrow> - (2 ^ 31) \<le> x \<and> x < 2 ^ 31"

lemma s64_id [cint_simps]: "in_s64 x \<Longrightarrow> s64 x = x"
  by (simp add: s64_def in_s64_def)

lemma s32_id [cint_simps]: "in_s32 x \<Longrightarrow> s32 x = x"
  by (simp add: s32_def in_s32_def)

lemma u32_id [cint_simps]: "0 \<le> x \<Longrightarrow> x < 2 ^ 32 \<Longrightarrow> u32 x = x"
  by (simp add: u32_def)

lemma u64_id [cint_simps]: "0 \<le> x \<Longrightarrow> x < 2 ^ 64 \<Longrightarrow> u64 x = x"
  by (simp add: u64_def)

lemma s64_range: "in_s64 (s64 x)"
  using pos_mod_bound [of "2 ^ 64" "x + 2 ^ 63"] pos_mod_sign [of "2 ^ 64" "x + 2 ^ 63"]
  by (simp add: s64_def in_s64_def)

lemma s32_range: "in_s32 (s32 x)"
  using pos_mod_bound [of "2 ^ 32" "x + 2 ^ 31"] pos_mod_sign [of "2 ^ 32" "x + 2 ^ 31"]
  by (simp add: s32_def in_s32_def)

lemma u32_range: "0 \<le> u32 x" "u32 x < 2 ^ 32"
  by (simp_all add: u32_def)


text \<open>The digits \<open>printf\<close> writes for an unsigned decimal conversion.\<close>

fun dec_nat :: "nat \<Rightarrow> string" where
  "dec_nat n = (if n < 10 then [char_of (48 + n)] else dec_nat (n div 10) @ [char_of (48 + n mod 10)])"

declare dec_nat.simps [simp del]

lemma dec_nat_nonempty: "dec_nat n \<noteq> []"
  by (subst dec_nat.simps) simp

lemma set_dec_nat: "set (dec_nat n) \<subseteq> {c. 48 \<le> (of_char c :: nat) \<and> (of_char c :: nat) < 58}"
proof (induction n rule: dec_nat.induct)
  case (1 n)
  then show ?case by (subst dec_nat.simps) auto
qed


section \<open>Lists\<close>

lemma list_update_append_last [simp]: "(xs @ [x])[length xs := y] = xs @ [y]"
  by (induction xs) auto

lemma take_list_update_ge: "n \<le> i \<Longrightarrow> take n (xs[i := y]) = take n xs"
  by simp

lemma take_Suc_update: "i < length xs \<Longrightarrow> take (Suc i) (xs[i := y]) = take i xs @ [y]"
  by (simp add: take_Suc_conv_app_nth)

definition remove_nth :: "nat \<Rightarrow> 'a list \<Rightarrow> 'a list" where
  "remove_nth i xs = take i xs @ drop (Suc i) xs"

lemma length_remove_nth: "i < length xs \<Longrightarrow> length (remove_nth i xs) = length xs - 1"
  by (simp add: remove_nth_def)

lemma mset_remove_nth: "i < length xs \<Longrightarrow> add_mset (xs ! i) (mset (remove_nth i xs)) = mset xs"
proof -
  assume "i < length xs"
  then have "mset xs = mset (take i xs @ xs ! i # drop (Suc i) xs)"
    by (simp add: id_take_nth_drop [symmetric])
  then show ?thesis by (simp add: remove_nth_def)
qed


section \<open>Association lists in insertion order\<close>

text \<open>
  A table that is iterated in insertion order: lookup is \<open>map_of\<close>, insertion of a fresh key
  appends, an update in place keeps the position.
\<close>

fun alist_update :: "'k \<Rightarrow> ('v \<Rightarrow> 'v) \<Rightarrow> ('k \<times> 'v) list \<Rightarrow> ('k \<times> 'v) list" where
  "alist_update k f [] = []"
| "alist_update k f ((k', v) # xs) =
     (if k' = k then (k', f v) # xs else (k', v) # alist_update k f xs)"

fun alist_delete :: "'k \<Rightarrow> ('k \<times> 'v) list \<Rightarrow> ('k \<times> 'v) list" where
  "alist_delete k [] = []"
| "alist_delete k ((k', v) # xs) = (if k' = k then xs else (k', v) # alist_delete k xs)"

lemma map_fst_alist_update [simp, alist_simps]: "map fst (alist_update k f xs) = map fst xs"
  by (induction xs) auto

lemma map_of_alist_update [alist_simps]:
  "map_of (alist_update k f xs) = (map_of xs)(k := map_option f (map_of xs k))"
  by (induction xs) auto

lemma alist_update_absent: "k \<notin> fst ` set xs \<Longrightarrow> alist_update k f xs = xs"
  by (induction xs) auto

lemma set_alist_update: "(k', v') \<in> set (alist_update k f xs) \<Longrightarrow>
    (k', v') \<in> set xs \<or> (k' = k \<and> (\<exists>v. (k, v) \<in> set xs \<and> v' = f v))"
  by (induction xs) (auto split: if_splits)

lemma map_fst_alist_delete [alist_simps]: "map fst (alist_delete k xs) = remove1 k (map fst xs)"
  by (induction xs) auto

lemma map_of_alist_delete [alist_simps]:
  "distinct (map fst xs) \<Longrightarrow> map_of (alist_delete k xs) = (map_of xs)(k := None)"
proof (induction xs)
  case Nil
  then show ?case by simp
next
  case (Cons p xs)
  have "map_of xs (fst p) = None" using Cons.prems by (simp add: map_of_eq_None_iff)
  then show ?case using Cons by (cases p) (auto simp: fun_eq_iff)
qed

lemma alist_delete_absent: "k \<notin> fst ` set xs \<Longrightarrow> alist_delete k xs = xs"
  by (induction xs) auto

lemma set_alist_delete: "p \<in> set (alist_delete k xs) \<Longrightarrow> p \<in> set xs"
  by (induction xs) (auto split: if_splits)

lemma map_of_append_fresh [alist_simps]:
  "map_of xs k = None \<Longrightarrow> map_of (xs @ [(k, v)]) = (map_of xs)(k \<mapsto> v)"
  by (auto simp: fun_eq_iff map_add_def split: option.splits)

lemma fst_mem_iff_map_of: "k \<in> fst ` set xs \<longleftrightarrow> map_of xs k \<noteq> None"
  by (metis map_of_eq_None_iff)

end
