(* ===== verification/NRM_Double.thy ===== *)
theory NRM_Double
  imports NRM_Prelude Complex_Main "HOL-Library.Log_Nat"
begin

text \<open>
  The C type \<open>double\<close> as the sources use it: IEEE 754 binary64 with round to nearest, ties to
  even.  A finite value is carried as the rational number it denotes, so comparison is exact and
  an arithmetic operation is the exact result followed by \<open>rnd\<close>, which is executable.
  Overflow gives an infinity, gradual underflow is kept, and every comparison with NaN is false.
  The two zeros are identified: they compare equal, and the only operation of the sources that
  tells them apart, a division by zero, is taken with a positive zero.

  \<open>is_double\<close> says which rationals are values of the type.  The transcendental functions of
  libm (\<open>exp\<close>, \<open>log\<close>) are not modelled here; the component that calls them takes them
  as arguments.
\<close>

datatype double = DNaN | DNInf | DPInf | DFin rat


section \<open>Comparison\<close>

fun dlt :: "double \<Rightarrow> double \<Rightarrow> bool" where
  "dlt DNaN _ = False"
| "dlt _ DNaN = False"
| "dlt DNInf y = (y \<noteq> DNInf)"
| "dlt _ DNInf = False"
| "dlt DPInf _ = False"
| "dlt (DFin a) DPInf = True"
| "dlt (DFin a) (DFin b) = (a < b)"

definition deq :: "double \<Rightarrow> double \<Rightarrow> bool" where
  "deq x y \<longleftrightarrow> x \<noteq> DNaN \<and> x = y"

definition dle :: "double \<Rightarrow> double \<Rightarrow> bool" where
  "dle x y \<longleftrightarrow> dlt x y \<or> deq x y"

lemma dlt_irrefl [simp]: "\<not> dlt x x"
  by (cases x) auto

lemma dlt_NaN [simp]: "\<not> dlt x DNaN" "\<not> dlt DNaN x"
  by (cases x; simp)+

lemma dlt_trans: "dlt x y \<Longrightarrow> dlt y z \<Longrightarrow> dlt x z"
  by (cases x; cases y; cases z) auto

lemma dlt_asym: "dlt x y \<Longrightarrow> \<not> dlt y x"
  by (cases x; cases y) auto

lemma dlt_total: "x \<noteq> DNaN \<Longrightarrow> y \<noteq> DNaN \<Longrightarrow> dlt x y \<or> x = y \<or> dlt y x"
  by (cases x; cases y) auto

lemma dle_refl: "x \<noteq> DNaN \<Longrightarrow> dle x x"
  by (simp add: dle_def deq_def)

lemma dle_trans: "dle x y \<Longrightarrow> dle y z \<Longrightarrow> dle x z"
  by (auto simp: dle_def deq_def intro: dlt_trans)

lemma not_dlt: "x \<noteq> DNaN \<Longrightarrow> y \<noteq> DNaN \<Longrightarrow> \<not> dlt x y \<longleftrightarrow> dle y x"
  using dlt_total [of x y] dlt_asym [of y x] by (auto simp: dle_def deq_def)

lemma dle_not_NaN: "dle x y \<Longrightarrow> x \<noteq> DNaN \<and> y \<noteq> DNaN"
  by (auto simp: dle_def deq_def)

lemma dle_dlt_trans: "dle x y \<Longrightarrow> dlt y z \<Longrightarrow> dlt x z"
  by (auto simp: dle_def deq_def intro: dlt_trans)

lemma dlt_dle_trans: "dlt x y \<Longrightarrow> dle y z \<Longrightarrow> dlt x z"
  by (auto simp: dle_def deq_def intro: dlt_trans)

lemma dle_antisym: "dle x y \<Longrightarrow> dle y x \<Longrightarrow> x = y"
  using dlt_asym by (auto simp: dle_def deq_def)


section \<open>Rounding\<close>

text \<open>\<open>ilog2 x\<close> is the exponent of the leading bit of a positive rational.\<close>

definition ilog2 :: "rat \<Rightarrow> int" where
  "ilog2 x = (let (p, q) = quotient_of x; k = bitlen p - bitlen q
              in if 2 powi k \<le> x then k else k - 1)"

definition round_half_even :: "rat \<Rightarrow> int" where
  "round_half_even y =
     (let f = \<lfloor>y\<rfloor>; d = y - of_int f
      in if d < 1 / 2 then f else if d > 1 / 2 then f + 1 else if even f then f else f + 1)"

definition ulp_exp :: "rat \<Rightarrow> int" where
  "ulp_exp x = max (ilog2 x - 52) (- 1074)"

definition rnd_mag :: "rat \<Rightarrow> rat" where
  "rnd_mag x = of_int (round_half_even (x / 2 powi ulp_exp x)) * 2 powi ulp_exp x"

definition rnd :: "rat \<Rightarrow> double" where
  "rnd x =
     (if x = 0 then DFin 0
      else let m = rnd_mag \<bar>x\<bar>
           in if m \<ge> 2 ^ 1024 then (if x < 0 then DNInf else DPInf) else DFin (sgn x * m))"

definition DBL_MAX :: double where
  "DBL_MAX = DFin (2 ^ 1024 - 2 ^ 971)"

definition is_double :: "double \<Rightarrow> bool" where
  "is_double x \<longleftrightarrow>
     (case x of DFin r \<Rightarrow> r = 0 \<or> (\<bar>r\<bar> < 2 ^ 1024 \<and> r / 2 powi ulp_exp \<bar>r\<bar> \<in> \<int>) | _ \<Rightarrow> True)"


section \<open>Arithmetic\<close>

fun dneg :: "double \<Rightarrow> double" where
  "dneg DNaN = DNaN"
| "dneg DNInf = DPInf"
| "dneg DPInf = DNInf"
| "dneg (DFin a) = DFin (- a)"

fun dadd :: "double \<Rightarrow> double \<Rightarrow> double" where
  "dadd DNaN _ = DNaN"
| "dadd _ DNaN = DNaN"
| "dadd DPInf DNInf = DNaN"
| "dadd DNInf DPInf = DNaN"
| "dadd DPInf _ = DPInf"
| "dadd _ DPInf = DPInf"
| "dadd DNInf _ = DNInf"
| "dadd _ DNInf = DNInf"
| "dadd (DFin a) (DFin b) = rnd (a + b)"

definition dsub :: "double \<Rightarrow> double \<Rightarrow> double" where
  "dsub x y = dadd x (dneg y)"

definition dinf :: "bool \<Rightarrow> double" where
  "dinf neg = (if neg then DNInf else DPInf)"

fun dmul :: "double \<Rightarrow> double \<Rightarrow> double" where
  "dmul DNaN _ = DNaN"
| "dmul _ DNaN = DNaN"
| "dmul (DFin a) (DFin b) = rnd (a * b)"
| "dmul (DFin a) DPInf = (if a = 0 then DNaN else dinf (a < 0))"
| "dmul (DFin a) DNInf = (if a = 0 then DNaN else dinf (a > 0))"
| "dmul DPInf (DFin b) = (if b = 0 then DNaN else dinf (b < 0))"
| "dmul DNInf (DFin b) = (if b = 0 then DNaN else dinf (b > 0))"
| "dmul DPInf DPInf = DPInf"
| "dmul DNInf DNInf = DPInf"
| "dmul _ _ = DNInf"

fun ddiv :: "double \<Rightarrow> double \<Rightarrow> double" where
  "ddiv DNaN _ = DNaN"
| "ddiv _ DNaN = DNaN"
| "ddiv (DFin a) (DFin b) =
     (if b = 0 then (if a = 0 then DNaN else dinf (a < 0)) else rnd (a / b))"
| "ddiv (DFin a) _ = DFin 0"
| "ddiv DPInf (DFin b) = dinf (b < 0)"
| "ddiv DNInf (DFin b) = dinf (\<not> b < 0)"
| "ddiv _ _ = DNaN"

fun dfabs :: "double \<Rightarrow> double" where
  "dfabs DNaN = DNaN"
| "dfabs (DFin a) = DFin \<bar>a\<bar>"
| "dfabs _ = DPInf"

text \<open>
  \<open>fmin\<close> and \<open>fmax\<close> treat a NaN argument as missing.
\<close>

definition dfmin :: "double \<Rightarrow> double \<Rightarrow> double" where
  "dfmin x y = (if x = DNaN then y else if y = DNaN then x else if dlt x y then x else y)"

definition dfmax :: "double \<Rightarrow> double \<Rightarrow> double" where
  "dfmax x y = (if x = DNaN then y else if y = DNaN then x else if dlt x y then y else x)"

definition d_of_int :: "int \<Rightarrow> double" where
  "d_of_int n = rnd (of_int n)"

text \<open>
  Conversion to \<open>int64_t\<close> truncates; out of range and NaN are undefined behaviour in C and
  give the most negative value on the platforms the sources target.
\<close>

definition int64_of_d :: "double \<Rightarrow> int" where
  "int64_of_d x =
     (case x of
        DFin a \<Rightarrow> (let t = (if a < 0 then \<lceil>a\<rceil> else \<lfloor>a\<rfloor>) in if in_s64 t then t else - (2 ^ 63))
      | _ \<Rightarrow> - (2 ^ 63))"


section \<open>Facts about rounding\<close>

lemma ilog2_bounds:
  assumes "0 < x"
  shows "2 powi ilog2 x \<le> x" and "x < 2 powi (ilog2 x + 1)"
proof -
  obtain p q where pq: "quotient_of x = (p, q)" by (cases "quotient_of x")
  have q: "0 < q" and x: "x = of_int p / of_int q"
    using pq quotient_of_denom_pos quotient_of_div by auto
  have p: "0 < p" using assms q x by (simp add: zero_less_divide_iff)
  let ?k = "bitlen p - bitlen q"
  have bp: "2 ^ nat (bitlen p - 1) \<le> p" "p < 2 ^ nat (bitlen p)" using bitlen_bounds [OF p] by auto
  have bq: "2 ^ nat (bitlen q - 1) \<le> q" "q < 2 ^ nat (bitlen q)" using bitlen_bounds [OF q] by auto
  have pos: "1 \<le> bitlen p" "1 \<le> bitlen q"
    using p q bitlen_eq_zero_iff [of p] bitlen_eq_zero_iff [of q] bitlen_nonneg [of p] bitlen_nonneg [of q]
    by linarith+
  have pw: "(of_int (2 ^ nat m) :: rat) = 2 powi m" if "0 \<le> m" for m
    using that by (simp add: power_int_def)
  have P: "2 powi (bitlen p - 1) \<le> (of_int p :: rat)" "(of_int p :: rat) < 2 powi bitlen p"
    using bp pos pw [of "bitlen p - 1"] pw [of "bitlen p"]
    by (metis diff_ge_0_iff_ge of_int_le_iff, metis bitlen_nonneg of_int_less_iff)
  have Q: "2 powi (bitlen q - 1) \<le> (of_int q :: rat)" "(of_int q :: rat) < 2 powi bitlen q"
    using bq pos pw [of "bitlen q - 1"] pw [of "bitlen q"]
    by (metis diff_ge_0_iff_ge of_int_le_iff, metis bitlen_nonneg of_int_less_iff)
  have e1: "2 powi (?k + 1) * 2 powi (bitlen q - 1) = (2 powi bitlen p :: rat)"
    by (simp add: power_int_add [symmetric])
  have e2: "2 powi (?k - 1) * 2 powi bitlen q = (2 powi (bitlen p - 1) :: rat)"
    by (simp add: power_int_add [symmetric] algebra_simps)
  have qr: "(0::rat) < of_int q" using q by simp
  have up: "x < 2 powi (?k + 1)"
  proof -
    have "of_int p < 2 powi (?k + 1) * (2 powi (bitlen q - 1) :: rat)" using P(2) e1 by simp
    also have "\<dots> \<le> 2 powi (?k + 1) * of_int q" using Q(1) by (simp add: mult_left_mono)
    finally show ?thesis using qr x by (simp add: pos_divide_less_eq)
  qed
  have lo: "2 powi (?k - 1) \<le> x"
  proof -
    have "2 powi (?k - 1) * of_int q \<le> 2 powi (?k - 1) * (2 powi bitlen q :: rat)"
      using Q(2) by (simp add: mult_left_mono)
    also have "\<dots> \<le> of_int p" using P(1) e2 by simp
    finally show ?thesis using qr x by (simp add: pos_le_divide_eq)
  qed
  show "2 powi ilog2 x \<le> x" "x < 2 powi (ilog2 x + 1)"
    using up lo by (auto simp: ilog2_def pq Let_def)
qed

lemma round_half_even_of_int [simp]: "round_half_even (of_int n) = n"
  by (simp add: round_half_even_def)

lemma round_half_even_0 [simp]: "round_half_even 0 = 0"
  using round_half_even_of_int [of 0] by simp

lemma round_half_even_mono: "x \<le> y \<Longrightarrow> round_half_even x \<le> round_half_even y"
proof -
  assume le: "x \<le> y"
  have bounds: "\<lfloor>z\<rfloor> \<le> round_half_even z" "round_half_even z \<le> \<lfloor>z\<rfloor> + 1" for z
    by (auto simp: round_half_even_def Let_def)
  show ?thesis
  proof (cases "\<lfloor>x\<rfloor> = \<lfloor>y\<rfloor>")
    case True
    then show ?thesis using le by (auto simp: round_half_even_def Let_def)
  next
    case False
    then have "\<lfloor>x\<rfloor> + 1 \<le> \<lfloor>y\<rfloor>" using floor_mono [OF le] by linarith
    then show ?thesis using bounds [of x] bounds [of y] by linarith
  qed
qed

lemma rnd_0 [simp]: "rnd 0 = DFin 0"
  by (simp add: rnd_def)

lemma rnd_mag_representable:
  "x / 2 powi ulp_exp x \<in> \<int> \<Longrightarrow> rnd_mag x = x"
  by (auto simp: rnd_mag_def elim!: Ints_cases)
     (metis nonzero_divide_eq_eq power_int_not_zero zero_neq_numeral)

lemma rnd_representable:
  assumes "is_double (DFin r)"
  shows "rnd r = DFin r"
proof (cases "r = 0")
  case False
  with assms have lt: "\<bar>r\<bar> < 2 ^ 1024" and i: "r / 2 powi ulp_exp \<bar>r\<bar> \<in> \<int>"
    by (auto simp: is_double_def)
  have "\<bar>r\<bar> / 2 powi ulp_exp \<bar>r\<bar> \<in> \<int>"
    using i by (cases "r < 0") (auto simp: abs_if)
  then have "rnd_mag \<bar>r\<bar> = \<bar>r\<bar>" by (rule rnd_mag_representable)
  with False lt show ?thesis
    by (simp add: rnd_def Let_def sgn_mult_abs)
qed simp

text \<open>Gradual underflow: a difference of at least the smallest subnormal is not rounded to zero.\<close>

lemma rnd_mag_pos:
  assumes "2 powi (- 1074) \<le> x"
  shows "0 < rnd_mag x"
proof -
  have x: "0 < x" using assms by (rule order_less_le_trans [rotated]) simp
  have "2 powi ulp_exp x \<le> x"
  proof (cases "ulp_exp x = - 1074")
    case True
    with assms show ?thesis by simp
  next
    case False
    then have "ulp_exp x \<le> ilog2 x" by (simp add: ulp_exp_def max_def split: if_splits)
    then have "2 powi ulp_exp x \<le> (2 powi ilog2 x :: rat)" by (simp add: power_int_increasing)
    with ilog2_bounds(1) [OF x] show ?thesis by simp
  qed
  then have "1 \<le> x / 2 powi ulp_exp x" by (simp add: pos_le_divide_eq)
  then have "1 \<le> round_half_even (x / 2 powi ulp_exp x)"
    using round_half_even_mono [of "of_int 1"] round_half_even_of_int [of 1] by fastforce
  then show ?thesis by (simp add: rnd_mag_def)
qed

lemma powi_two_diff: "2 powi e / 2 powi c = (2 powi (e - c) :: rat)"
  by (simp add: power_int_diff)

lemma is_double_multiple:
  assumes "is_double (DFin r)"
  shows "r / 2 powi (- 1074) \<in> \<int>"
proof (cases "r = 0")
  case False
  let ?e = "ulp_exp \<bar>r\<bar>"
  from assms False obtain n :: int where n: "r / 2 powi ?e = of_int n"
    by (auto simp: is_double_def elim: Ints_cases)
  have e: "0 \<le> ?e - (- 1074)" by (simp add: ulp_exp_def)
  have nz: "(2 powi ?e :: rat) \<noteq> 0" by simp
  have "r / 2 powi (- 1074) = (r / 2 powi ?e) * (2 powi ?e / 2 powi (- 1074))"
    using nz by (metis nonzero_divide_eq_eq times_divide_eq_right)
  also have "\<dots> = of_int n * 2 powi (?e - (- 1074))"
    by (simp only: n powi_two_diff)
  also have "(2 powi (?e - (- 1074)) :: rat) = of_int (2 ^ nat (?e - (- 1074)))"
    using e by (simp only: power_int_def of_int_power of_int_numeral if_True)
  finally show ?thesis by (metis Ints_mult Ints_of_int)
qed simp

lemma rnd_diff_eq_0:
  assumes "is_double (DFin a)" and "is_double (DFin b)" and "rnd (a - b) = DFin 0"
  shows "a = b"
proof (rule ccontr)
  assume ne: "a \<noteq> b"
  let ?t = "2 powi (- 1074) :: rat"
  have t: "0 < ?t" by (rule zero_less_power_int) simp
  have "(a - b) / ?t \<in> \<int>"
    unfolding diff_divide_distrib
    by (intro Ints_diff is_double_multiple assms)
  then obtain n :: int where n: "(a - b) / ?t = of_int n" by (rule Ints_cases)
  have eq: "a - b = of_int n * ?t" using n t by (metis nonzero_divide_eq_eq less_irrefl)
  have "n \<noteq> 0" using eq ne by auto
  then have "1 \<le> \<bar>of_int n :: rat\<bar>" by linarith
  then have "1 * ?t \<le> \<bar>of_int n\<bar> * ?t" by (rule mult_right_mono) (rule less_imp_le [OF t])
  then have "?t \<le> \<bar>a - b\<bar>" unfolding eq abs_mult using t by (simp only: abs_of_pos mult_1)
  then have "0 < rnd_mag \<bar>a - b\<bar>" by (rule rnd_mag_pos)
  with assms(3) ne show False
    by (auto simp: rnd_def Let_def sgn_if split: if_splits)
qed

lemma dfabs_dsub_self [simp]: "dfabs (dsub (DFin a) (DFin a)) = DFin 0"
  by (simp add: dsub_def)


lemma is_double_of_int:
  assumes "\<bar>n\<bar> < 2 ^ 53"
  shows "is_double (DFin (of_int n))"
proof (cases "n = 0")
  case False
  let ?x = "\<bar>of_int n :: rat\<bar>"
  have x: "0 < ?x" using False by simp
  have "2 powi ilog2 ?x \<le> ?x" by (rule ilog2_bounds(1) [OF x])
  also have b: "?x < 2 powi 53"
    using assms by (metis of_int_abs of_int_less_iff of_int_numeral of_int_power power_int_numeral)
  finally have lt: "2 powi ilog2 ?x < (2 :: rat) powi 53" .
  have "ilog2 ?x < 53"
  proof (rule ccontr)
    assume "\<not> ilog2 ?x < 53"
    then have "(2 :: rat) powi 53 \<le> 2 powi ilog2 ?x" by (intro power_int_increasing) simp_all
    with lt show False by simp
  qed
  then have "ulp_exp ?x \<le> 0" by (simp add: ulp_exp_def)
  then obtain k :: nat where k: "ulp_exp ?x = - int k" by (metis nonneg_int_cases neg_le_0_iff_le minus_minus)
  have "of_int n / 2 powi ulp_exp ?x = (of_int (n * 2 ^ k) :: rat)"
    by (simp add: k power_int_minus divide_simps)
  then have "of_int n / 2 powi ulp_exp ?x \<in> (\<int> :: rat set)" by (metis Ints_of_int)
  moreover have "?x < 2 ^ 1024"
    using b by (rule order_less_trans) (simp add: power_strict_increasing)
  ultimately show ?thesis by (simp add: is_double_def)
qed (simp add: is_double_def)

end
