(* ===== verification/NRM_Vector.thy ===== *)
theory NRM_Vector
  imports NRM_Double
begin

text \<open>
  Growable arrays: the UT_array macros of include/internal/utarray.h that the library uses and the
  \<open>nrm_vector_t\<close> API of src/utils/vectors.c on top of them.

  The array is modelled with its 32-bit counters \<open>i\<close> (next free slot) and \<open>n\<close> (slots),
  and its buffer \<open>d\<close> as a list of slots (\<open>None\<close> is memory that was never written).
  A write outside the buffer is a fault.  \<open>alloc b\<close> says whether the allocator grants a request
  of \<open>b\<close> bytes.  The doubling loop of \<open>utarray_reserve\<close> is a \<open>partial_function\<close>: on
  32-bit counters it need not end.  An iterator is the index of the slot it points to.

  The lemmas show that a well-formed vector behaves as the list \<open>vec_list\<close> of its elements;
  the locale \<open>growable_array\<close> is the contract its clients use, interpreted on
  \<open>nrm_vector_push_back\<close>.  The components above this one carry vectors as those lists.
\<close>

record 'a ut_array =
  ua_i :: nat
  ua_n :: nat
  ua_sz :: nat
  ua_d :: "'a option list"

record 'a nrm_vector =
  vec_array :: "'a ut_array"
  vec_icd_sz :: nat


section \<open>The UT_array macros\<close>

definition sizeof_ut_array :: nat where "sizeof_ut_array = 48"
definition sizeof_nrm_vector :: nat where "sizeof_nrm_vector = 40"

definition utarray_init :: "nat \<Rightarrow> 'a ut_array" where
  "utarray_init sz = \<lparr>ua_i = 0, ua_n = 0, ua_sz = sz, ua_d = []\<rparr>"

partial_function (option) utarray_grow :: "nat \<Rightarrow> nat \<Rightarrow> nat option" where
  "utarray_grow need n =
     (if need > n then utarray_grow need (if n \<noteq> 0 then (2 * n) mod 2 ^ 32 else 8) else Some n)"

text \<open>\<open>need\<close> is the value of \<open>i + by\<close>, computed by the caller in the type of the macro argument.\<close>

definition utarray_reserve :: "(nat \<Rightarrow> bool) \<Rightarrow> nat \<Rightarrow> 'a ut_array \<Rightarrow> (bool \<times> 'a ut_array) exec" where
  "utarray_reserve alloc need a =
     (if need > ua_n a then
        (case utarray_grow need (ua_n a) of
           None \<Rightarrow> Inl Diverges
         | Some n' \<Rightarrow>
             (if alloc (n' * ua_sz a)
              then Inr (True, a\<lparr>ua_n := n', ua_d := take n' (ua_d a) @ replicate (n' - length (ua_d a)) None\<rparr>)
              else Inr (False, a\<lparr>ua_n := n'\<rparr>)))
      else Inr (True, a))"

definition utarray_write :: "nat \<Rightarrow> 'a \<Rightarrow> 'a ut_array \<Rightarrow> 'a ut_array exec" where
  "utarray_write j x a =
     (if j < length (ua_d a) then Inr (a\<lparr>ua_d := (ua_d a)[j := Some x]\<rparr>) else Inl OutOfBounds)"

definition utarray_read :: "nat \<Rightarrow> 'a ut_array \<Rightarrow> 'a exec" where
  "utarray_read j a = (if j < length (ua_d a) then derefE ((ua_d a) ! j) else Inl OutOfBounds)"

definition utarray_push_back :: "(nat \<Rightarrow> bool) \<Rightarrow> 'a \<Rightarrow> 'a ut_array \<Rightarrow> (bool \<times> 'a ut_array) exec" where
  "utarray_push_back alloc x a =
     bindE (utarray_reserve alloc ((ua_i a + 1) mod 2 ^ 32) a) (\<lambda>(ok, a).
       if \<not> ok then Inr (False, a)
       else bindE (utarray_write (ua_i a) x a) (\<lambda>a.
              Inr (True, a\<lparr>ua_i := (ua_i a + 1) mod 2 ^ 32\<rparr>)))"

definition utarray_pop_back :: "'a ut_array \<Rightarrow> 'a ut_array" where
  "utarray_pop_back a = a\<lparr>ua_i := (ua_i a + 2 ^ 32 - 1) mod 2 ^ 32\<rparr>"

definition utarray_len :: "'a ut_array \<Rightarrow> nat" where
  "utarray_len a = ua_i a"

definition utarray_eltptr :: "nat \<Rightarrow> 'a ut_array \<Rightarrow> nat option" where
  "utarray_eltptr j a = (if j < ua_i a then Some j else None)"

definition utarray_front :: "'a ut_array \<Rightarrow> nat option" where
  "utarray_front a = (if ua_i a \<noteq> 0 then Some 0 else None)"

definition utarray_next :: "nat \<Rightarrow> 'a ut_array \<Rightarrow> nat option" where
  "utarray_next e a = (if ua_i a \<noteq> e + 1 then Some (e + 1) else None)"

definition utarray_back :: "'a ut_array \<Rightarrow> nat option" where
  "utarray_back a = (if ua_i a \<noteq> 0 then Some (ua_i a - 1) else None)"

definition utarray_clear :: "'a ut_array \<Rightarrow> 'a ut_array" where
  "utarray_clear a = (if ua_i a > 0 then a\<lparr>ua_i := 0\<rparr> else a)"

definition utarray_fill :: "nat \<Rightarrow> nat \<Rightarrow> 'a \<Rightarrow> 'a ut_array \<Rightarrow> 'a ut_array exec" where
  "utarray_fill lo hi z a =
     (if hi \<le> length (ua_d a)
      then Inr (a\<lparr>ua_d := take lo (ua_d a) @ replicate (hi - lo) (Some z) @ drop hi (ua_d a)\<rparr>)
      else Inl OutOfBounds)"

text \<open>
  \<open>num\<close> has type \<open>size_t\<close> at the only call, so it is compared after truncation to 32 bits
  but reserved and cleared with its 64-bit value; \<open>z\<close> is the all-zero element.
\<close>

definition utarray_resize :: "(nat \<Rightarrow> bool) \<Rightarrow> 'a \<Rightarrow> nat \<Rightarrow> 'a ut_array \<Rightarrow> (bool \<times> 'a ut_array) exec" where
  "utarray_resize alloc z num a =
     (if ua_i a > num mod 2 ^ 32 then Inr (True, a\<lparr>ua_i := num mod 2 ^ 32\<rparr>)
      else if ua_i a < num mod 2 ^ 32 then
        bindE (utarray_reserve alloc num a) (\<lambda>(ok, a).
          if \<not> ok then Inr (False, a)
          else bindE (utarray_fill (ua_i a) num z a) (\<lambda>a. Inr (True, a\<lparr>ua_i := num mod 2 ^ 32\<rparr>)))
      else Inr (True, a\<lparr>ua_i := num mod 2 ^ 32\<rparr>))"

definition utarray_concat :: "(nat \<Rightarrow> bool) \<Rightarrow> 'a ut_array \<Rightarrow> 'a ut_array \<Rightarrow> (bool \<times> 'a ut_array) exec" where
  "utarray_concat alloc dst src =
     (if utarray_len src = 0 then Inr (True, dst)
      else bindE (utarray_reserve alloc ((ua_i dst + utarray_len src) mod 2 ^ 32) dst) (\<lambda>(ok, a).
        if \<not> ok then Inr (False, a)
        else if ua_i a + ua_i src \<le> length (ua_d a) \<and> ua_i src \<le> length (ua_d src)
        then Inr (True, a\<lparr>ua_d := take (ua_i a) (ua_d a) @ take (ua_i src) (ua_d src)
                                   @ drop (ua_i a + ua_i src) (ua_d a),
                          ua_i := (ua_i a + ua_i src) mod 2 ^ 32\<rparr>)
        else Inl OutOfBounds))"

definition utarray_erase1 :: "nat \<Rightarrow> 'a ut_array \<Rightarrow> 'a ut_array" where
  "utarray_erase1 pos a =
     (if ua_i a > pos + 1
      then a\<lparr>ua_d := take pos (ua_d a) @ take (ua_i a - (pos + 1)) (drop (pos + 1) (ua_d a))
                     @ drop (ua_i a - 1) (ua_d a),
             ua_i := (ua_i a + 2 ^ 32 - 1) mod 2 ^ 32\<rparr>
      else a\<lparr>ua_i := (ua_i a + 2 ^ 32 - 1) mod 2 ^ 32\<rparr>)"

text \<open>
  \<open>qsort\<close> and \<open>bsearch\<close> of the C library, by the comparison function's sign: a stable
  sort, and the halving search between two bounds.
\<close>

fun qsort_insert :: "('a \<Rightarrow> 'a \<Rightarrow> int) \<Rightarrow> 'a \<Rightarrow> 'a list \<Rightarrow> 'a list" where
  "qsort_insert cmp x [] = [x]"
| "qsort_insert cmp x (y # ys) = (if cmp x y \<le> 0 then x # y # ys else y # qsort_insert cmp x ys)"

fun qsort_list :: "('a \<Rightarrow> 'a \<Rightarrow> int) \<Rightarrow> 'a list \<Rightarrow> 'a list" where
  "qsort_list cmp [] = []"
| "qsort_list cmp (x # xs) = qsort_insert cmp x (qsort_list cmp xs)"

definition utarray_sort :: "('a \<Rightarrow> 'a \<Rightarrow> int) \<Rightarrow> 'a ut_array \<Rightarrow> 'a ut_array exec" where
  "utarray_sort cmp a =
     bindE (mapE (\<lambda>j. utarray_read j a) [0 ..< ua_i a]) (\<lambda>xs.
       Inr (a\<lparr>ua_d := map Some (qsort_list cmp xs) @ drop (ua_i a) (ua_d a)\<rparr>))"

function bsearch_loop :: "('k \<Rightarrow> 'a \<Rightarrow> int) \<Rightarrow> 'k \<Rightarrow> 'a ut_array \<Rightarrow> nat \<Rightarrow> nat \<Rightarrow> nat option exec" where
  "bsearch_loop cmp key a l u =
     (if l < u then
        bindE (utarray_read ((l + u) div 2) a) (\<lambda>x.
          if cmp key x < 0 then bsearch_loop cmp key a l ((l + u) div 2)
          else if cmp key x > 0 then bsearch_loop cmp key a ((l + u) div 2 + 1) u
          else Inr (Some ((l + u) div 2)))
      else Inr None)"
  by pat_completeness auto
termination
  by (relation "measure (\<lambda>(cmp, key, a, l, u). u - l)") auto

declare bsearch_loop.simps [simp del]

definition utarray_find :: "('k \<Rightarrow> 'a \<Rightarrow> int) \<Rightarrow> 'k \<Rightarrow> 'a ut_array \<Rightarrow> nat option exec" where
  "utarray_find cmp key a = bsearch_loop cmp key a 0 (ua_i a)"


section \<open>The nrm_vector API\<close>

definition nrm_vector_create :: "(nat \<Rightarrow> bool) \<Rightarrow> bool \<Rightarrow> nat \<Rightarrow> int \<times> 'a nrm_vector option" where
  "nrm_vector_create alloc vector_nonnull element_size =
     (if \<not> vector_nonnull \<or> element_size = 0 then (- NRM_EINVAL, None)
      else if \<not> alloc sizeof_nrm_vector then (- NRM_ENOMEM, None)
      else if \<not> alloc sizeof_ut_array then (- NRM_ENOMEM, None)
      else (NRM_SUCCESS, Some \<lparr>vec_array = utarray_init element_size, vec_icd_sz = element_size\<rparr>))"

definition nrm_vector_destroy :: "'a nrm_vector option option \<Rightarrow> 'a nrm_vector option option exec" where
  "nrm_vector_destroy vector =
     (case vector of None \<Rightarrow> Inr None | Some v \<Rightarrow> bindE (derefE v) (\<lambda>_. Inr (Some None)))"

definition nrm_vector_copy ::
  "(nat \<Rightarrow> bool) \<Rightarrow> bool \<Rightarrow> 'a nrm_vector option \<Rightarrow> (int \<times> 'a nrm_vector option) exec" where
  "nrm_vector_copy alloc dst_nonnull src =
     (case src of
        None \<Rightarrow> Inr (- NRM_EINVAL, None)
      | Some s \<Rightarrow>
          if \<not> dst_nonnull then Inr (- NRM_EINVAL, None)
          else (case nrm_vector_create alloc True (vec_icd_sz s) of
                  (ret, None) \<Rightarrow> Inr (ret, None)
                | (ret, Some v) \<Rightarrow>
                    bindE (utarray_concat alloc (vec_array v) (vec_array s)) (\<lambda>(ok, a).
                      if ok then Inr (NRM_SUCCESS, Some (v\<lparr>vec_array := a\<rparr>))
                      else Inr (- NRM_ENOMEM, None))))"

definition nrm_vector_resize ::
  "(nat \<Rightarrow> bool) \<Rightarrow> 'a \<Rightarrow> 'a nrm_vector option \<Rightarrow> nat \<Rightarrow> (int \<times> 'a nrm_vector option) exec" where
  "nrm_vector_resize alloc z vector newlen =
     (case vector of
        None \<Rightarrow> Inr (- NRM_EINVAL, None)
      | Some v \<Rightarrow>
          bindE (utarray_resize alloc z newlen (vec_array v)) (\<lambda>(ok, a).
            Inr (if ok then NRM_SUCCESS else - NRM_ENOMEM, Some (v\<lparr>vec_array := a\<rparr>))))"

definition nrm_vector_length :: "'a nrm_vector option \<Rightarrow> bool \<Rightarrow> int \<times> nat option" where
  "nrm_vector_length vector length_nonnull =
     (case vector of
        None \<Rightarrow> (- NRM_EINVAL, None)
      | Some v \<Rightarrow> if \<not> length_nonnull then (- NRM_EINVAL, None)
                  else (NRM_SUCCESS, Some (utarray_len (vec_array v))))"

text \<open>The pointer written to \<open>*out\<close> is the slot index; \<open>None\<close> is NULL.\<close>

definition nrm_vector_get :: "'a nrm_vector option \<Rightarrow> nat \<Rightarrow> bool \<Rightarrow> int \<times> nat option" where
  "nrm_vector_get vector index out_nonnull =
     (case vector of
        None \<Rightarrow> (- NRM_EINVAL, None)
      | Some v \<Rightarrow>
          if \<not> out_nonnull then (- NRM_EINVAL, None)
          else (case utarray_eltptr index (vec_array v) of
                  None \<Rightarrow> (- NRM_EDOM, None)
                | Some p \<Rightarrow> (NRM_SUCCESS, Some p)))"

partial_function (option) vector_find_loop ::
  "('k \<Rightarrow> 'a \<Rightarrow> int) \<Rightarrow> 'k \<Rightarrow> 'a ut_array \<Rightarrow> nat option \<Rightarrow> nat option exec option" where
  "vector_find_loop cmp key a elt =
     (case elt of
        None \<Rightarrow> Some (Inr None)
      | Some e \<Rightarrow>
          (case utarray_read e a of
             Inl f \<Rightarrow> Some (Inl f)
           | Inr x \<Rightarrow> if cmp key x = 0 then Some (Inr (Some e))
                      else vector_find_loop cmp key a (utarray_next e a)))"

definition nrm_vector_find ::
  "'a nrm_vector option \<Rightarrow> 'k option \<Rightarrow> ('k \<Rightarrow> 'a \<Rightarrow> int) option \<Rightarrow> (int \<times> nat option) exec" where
  "nrm_vector_find vector key cmp =
     (case (vector, cmp, key) of
        (Some v, Some c, Some k) \<Rightarrow>
          (case vector_find_loop c k (vec_array v) (utarray_front (vec_array v)) of
             None \<Rightarrow> Inl Diverges
           | Some r \<Rightarrow> bindE r (\<lambda>elt. case elt of
                 None \<Rightarrow> Inr (- NRM_FAILURE, None)
               | Some e \<Rightarrow> Inr (NRM_SUCCESS, Some e)))
      | _ \<Rightarrow> Inr (- NRM_EINVAL, None))"

definition nrm_vector_sort_double_cmp :: "double \<Rightarrow> double \<Rightarrow> int" where
  "nrm_vector_sort_double_cmp d1 d2 = (if dlt d1 d2 then - 1 else if dlt d2 d1 then 1 else 0)"

definition nrm_vector_sort ::
  "'a nrm_vector option \<Rightarrow> ('a \<Rightarrow> 'a \<Rightarrow> int) option \<Rightarrow> (int \<times> 'a nrm_vector option) exec" where
  "nrm_vector_sort vector cmp =
     (case (vector, cmp) of
        (Some v, Some c) \<Rightarrow>
          bindE (utarray_sort c (vec_array v)) (\<lambda>a. Inr (NRM_SUCCESS, Some (v\<lparr>vec_array := a\<rparr>)))
      | _ \<Rightarrow> Inr (- NRM_EINVAL, vector))"

definition nrm_vector_bsearch ::
  "'a nrm_vector option \<Rightarrow> 'k option \<Rightarrow> ('k \<Rightarrow> 'a \<Rightarrow> int) option \<Rightarrow> (int \<times> nat option) exec" where
  "nrm_vector_bsearch vector key cmp =
     (case (vector, cmp, key) of
        (Some v, Some c, Some k) \<Rightarrow>
          bindE (utarray_find c k (vec_array v)) (\<lambda>elt. case elt of
              None \<Rightarrow> Inr (- NRM_FAILURE, None)
            | Some e \<Rightarrow> Inr (NRM_SUCCESS, Some e))
      | _ \<Rightarrow> Inr (- NRM_EINVAL, None))"

definition nrm_vector_push_back ::
  "(nat \<Rightarrow> bool) \<Rightarrow> 'a nrm_vector option \<Rightarrow> 'a option \<Rightarrow> (int \<times> 'a nrm_vector option) exec" where
  "nrm_vector_push_back alloc vector element =
     (case (vector, element) of
        (Some v, Some x) \<Rightarrow>
          bindE (utarray_push_back alloc x (vec_array v)) (\<lambda>(ok, a).
            Inr (if ok then NRM_SUCCESS else - NRM_ENOMEM, Some (v\<lparr>vec_array := a\<rparr>)))
      | _ \<Rightarrow> Inr (- NRM_EINVAL, vector))"

text \<open>The element copied to \<open>*out\<close> is the third component.\<close>

definition nrm_vector_pop_back ::
  "'a nrm_vector option \<Rightarrow> bool \<Rightarrow> (int \<times> 'a nrm_vector option \<times> 'a option) exec" where
  "nrm_vector_pop_back vector out_nonnull =
     (case vector of
        None \<Rightarrow> Inr (- NRM_EINVAL, None, None)
      | Some v \<Rightarrow>
          if \<not> out_nonnull then Inr (- NRM_EINVAL, vector, None)
          else (case utarray_back (vec_array v) of
                  None \<Rightarrow> Inr (- NRM_EDOM, vector, None)
                | Some e \<Rightarrow>
                    bindE (utarray_read e (vec_array v)) (\<lambda>x.
                      Inr (NRM_SUCCESS, Some (v\<lparr>vec_array := utarray_pop_back (vec_array v)\<rparr>), Some x))))"

definition nrm_vector_take ::
  "'a nrm_vector option \<Rightarrow> nat \<Rightarrow> bool \<Rightarrow> (int \<times> 'a nrm_vector option \<times> 'a option) exec" where
  "nrm_vector_take vector position out_nonnull =
     (case vector of
        None \<Rightarrow> Inr (- NRM_EINVAL, None, None)
      | Some v \<Rightarrow>
          (case utarray_eltptr position (vec_array v) of
             None \<Rightarrow> Inr (- NRM_EDOM, vector, None)
           | Some e \<Rightarrow>
               bindE (if out_nonnull then map_sum id Some (utarray_read e (vec_array v)) else Inr None) (\<lambda>out.
                 Inr (NRM_SUCCESS, Some (v\<lparr>vec_array := utarray_erase1 position (vec_array v)\<rparr>), out))))"

definition nrm_vector_clear :: "'a nrm_vector option \<Rightarrow> int \<times> 'a nrm_vector option" where
  "nrm_vector_clear vector =
     (case vector of
        None \<Rightarrow> (- NRM_EINVAL, None)
      | Some v \<Rightarrow> (NRM_SUCCESS, Some (v\<lparr>vec_array := utarray_clear (vec_array v)\<rparr>)))"

definition nrm_vector_iterator_begin :: "'a nrm_vector \<Rightarrow> nat option" where
  "nrm_vector_iterator_begin v = utarray_front (vec_array v)"

definition nrm_vector_iterator_next :: "'a nrm_vector \<Rightarrow> nat \<Rightarrow> nat option" where
  "nrm_vector_iterator_next v it = utarray_next it (vec_array v)"

definition nrm_vector_iterator_get :: "nat \<Rightarrow> nat" where
  "nrm_vector_iterator_get it = it"

text \<open>The slots \<open>nrm_vector_foreach\<close> visits, in order, from the iterator \<open>it\<close> on.\<close>

partial_function (option) nrm_vector_foreach :: "'a nrm_vector \<Rightarrow> nat option \<Rightarrow> nat list option" where
  "nrm_vector_foreach v it =
     (case it of
        None \<Rightarrow> Some []
      | Some e \<Rightarrow> Option.bind (nrm_vector_foreach v (nrm_vector_iterator_next v e)) (\<lambda>es. Some (e # es)))"


section \<open>Well-formed arrays and the list they hold\<close>

definition ua_wf :: "'a ut_array \<Rightarrow> bool" where
  "ua_wf a \<longleftrightarrow> ua_i a \<le> ua_n a \<and> ua_n a < 2 ^ 32 \<and> length (ua_d a) = ua_n a \<and> 0 < ua_sz a
     \<and> (\<forall>j < ua_i a. ua_d a ! j \<noteq> None)"

definition ua_list :: "'a ut_array \<Rightarrow> 'a list" where
  "ua_list a = map the (take (ua_i a) (ua_d a))"

definition vec_wf :: "'a nrm_vector \<Rightarrow> bool" where
  "vec_wf v \<longleftrightarrow> ua_wf (vec_array v) \<and> vec_icd_sz v = ua_sz (vec_array v)"

definition vec_list :: "'a nrm_vector \<Rightarrow> 'a list" where
  "vec_list v = ua_list (vec_array v)"

lemmas ua_defs = ua_wf_def ua_list_def utarray_len_def utarray_eltptr_def utarray_front_def
  utarray_back_def utarray_next_def

lemma length_ua_list: "ua_wf a \<Longrightarrow> length (ua_list a) = ua_i a"
  by (simp add: ua_defs)

lemma nth_ua_list: "ua_wf a \<Longrightarrow> j < ua_i a \<Longrightarrow> ua_d a ! j = Some (ua_list a ! j)"
  by (simp add: ua_defs)

lemma take_ua_d: "ua_wf a \<Longrightarrow> take (ua_i a) (ua_d a) = map Some (ua_list a)"
  by (rule nth_equalityI) (simp_all add: length_ua_list nth_ua_list ua_wf_def)

lemma utarray_read_ok: "ua_wf a \<Longrightarrow> j < ua_i a \<Longrightarrow> utarray_read j a = Inr (ua_list a ! j)"
  by (simp add: utarray_read_def nth_ua_list) (simp add: ua_wf_def)

lemma ua_wfI:
  assumes "take (ua_i a) (ua_d a) = map Some xs" and "length xs = ua_i a"
    and "ua_i a \<le> ua_n a" and "ua_n a < 2 ^ 32" and "length (ua_d a) = ua_n a" and "0 < ua_sz a"
  shows "ua_wf a" and "ua_list a = xs"
proof -
  have "ua_d a ! j = Some (xs ! j)" if "j < ua_i a" for j
    using that assms(1,2) by (metis nth_map nth_take)
  then show "ua_wf a" using assms by (simp add: ua_wf_def)
  show "ua_list a = xs" using assms(1) by (simp add: ua_list_def comp_def)
qed

lemma utarray_init_wf: "0 < sz \<Longrightarrow> ua_wf (utarray_init sz)" "ua_list (utarray_init sz) = []"
  by (simp_all add: utarray_init_def ua_defs)


section \<open>Growing\<close>

lemma utarray_grow_terminates:
  assumes "need \<le> 2 ^ 31" and "n < 2 ^ 32"
  shows "\<exists>m. utarray_grow need n = Some m \<and> need \<le> m \<and> n \<le> m \<and> m < 2 ^ 32"
  using assms
proof (induction "need - n" arbitrary: n rule: less_induct)
  case less
  show ?case
  proof (cases "need > n")
    case False
    with less.prems show ?thesis by (subst utarray_grow.simps) simp
  next
    case True
    let ?n' = "if n \<noteq> 0 then (2 * n) mod 2 ^ 32 else 8"
    have bigger: "n < ?n'" and small: "?n' < 2 ^ 32" using True less.prems by auto
    have "need - ?n' < need - n" using True bigger by simp
    from less.hyps [OF this less.prems(1) small] bigger True show ?thesis
      by (subst utarray_grow.simps) auto
  qed
qed

definition grow_sizes :: "nat set" where
  "grow_sizes = insert 0 ((\<lambda>k. 2 ^ k) ` {3..31})"

lemma grow_sizes_closed: "n \<in> grow_sizes \<Longrightarrow> (if n \<noteq> 0 then (2 * n) mod 2 ^ 32 else 8) \<in> grow_sizes"
proof -
  assume n: "n \<in> grow_sizes"
  show ?thesis
  proof (cases "n = 0")
    case True
    have "(8::nat) = 2 ^ 3" by simp
    with True show ?thesis by (auto simp: grow_sizes_def intro!: image_eqI [of _ _ 3])
  next
    case False
    with n obtain k where k: "n = 2 ^ k" "3 \<le> k" "k \<le> 31" by (auto simp: grow_sizes_def)
    show ?thesis
    proof (cases "k = 31")
      case True
      with k show ?thesis by (simp add: grow_sizes_def)
    next
      case neq: False
      then have lt: "Suc k \<le> 31" using k by simp
      then have "(2::nat) ^ Suc k < 2 ^ 32" by (intro power_strict_increasing) auto
      then have "(2 * n) mod 2 ^ 32 = 2 ^ Suc k" using k by simp
      with False lt k show ?thesis by (auto simp: grow_sizes_def intro!: image_eqI [of _ _ "Suc k"])
    qed
  qed
qed

lemma grow_sizes_bound: "n \<in> grow_sizes \<Longrightarrow> n \<le> 2 ^ 31"
  using power_increasing [of _ 31 "2::nat"] by (auto simp: grow_sizes_def)

lemma utarray_grow_diverges:
  assumes "2 ^ 31 < need" and "n \<in> grow_sizes"
  shows "utarray_grow need n = None"
proof (cases "utarray_grow need n")
  case (Some r)
  have "2 ^ 31 < need \<longrightarrow> n \<notin> grow_sizes"
  proof (rule utarray_grow.raw_induct [where P = "\<lambda>need n r. 2 ^ 31 < need \<longrightarrow> n \<notin> grow_sizes", OF _ Some])
    fix f :: "nat \<Rightarrow> nat \<Rightarrow> nat option" and need n r
    assume IH: "\<And>need n r. f need n = Some r \<Longrightarrow> 2 ^ 31 < need \<longrightarrow> n \<notin> grow_sizes"
      and eq: "(if n < need then f need (if n \<noteq> 0 then 2 * n mod 2 ^ 32 else 8) else Some n) = Some r"
    show "2 ^ 31 < need \<longrightarrow> n \<notin> grow_sizes"
    proof (intro impI notI)
      assume need: "2 ^ 31 < need" and n: "n \<in> grow_sizes"
      from grow_sizes_bound [OF n] need have "n < need" by simp
      with eq have "f need (if n \<noteq> 0 then 2 * n mod 2 ^ 32 else 8) = Some r" by simp
      from IH [OF this] need grow_sizes_closed [OF n] show False by blast
    qed
  qed
  with assms show ?thesis by simp
qed

lemma utarray_reserve_ok:
  assumes wf: "ua_wf a" and need: "need \<le> 2 ^ 31" and alloc: "\<And>b. alloc b"
  obtains a' where "utarray_reserve alloc need a = Inr (True, a')" and "ua_wf a'" and "need \<le> ua_n a'"
    and "ua_list a' = ua_list a" and "ua_i a' = ua_i a" and "ua_sz a' = ua_sz a"
proof (cases "need > ua_n a")
  case False
  then show ?thesis using that [of a] wf by (simp add: utarray_reserve_def)
next
  case True
  obtain m where m: "utarray_grow need (ua_n a) = Some m" "need \<le> m" "ua_n a \<le> m" "m < 2 ^ 32"
    using utarray_grow_terminates [OF need, of "ua_n a"] wf by (auto simp: ua_wf_def)
  let ?a = "a\<lparr>ua_n := m, ua_d := take m (ua_d a) @ replicate (m - length (ua_d a)) None\<rparr>"
  have tk: "take (ua_i ?a) (ua_d ?a) = map Some (ua_list a)"
    using wf m by (simp add: take_ua_d [symmetric] ua_wf_def min_def)
  have "ua_wf ?a" "ua_list ?a = ua_list a"
    using ua_wfI [OF tk] wf m by (simp_all add: length_ua_list ua_wf_def)
  then show ?thesis using that [of ?a] m alloc True by (simp add: utarray_reserve_def)
qed

lemma utarray_push_back_ok:
  assumes wf: "ua_wf a" and room: "ua_i a < 2 ^ 31" and alloc: "\<And>b. alloc b"
  obtains a' where "utarray_push_back alloc x a = Inr (True, a')" and "ua_wf a'"
    and "ua_list a' = ua_list a @ [x]" and "ua_sz a' = ua_sz a"
proof -
  have need: "(ua_i a + 1) mod 2 ^ 32 \<le> 2 ^ 31" using room by simp
  obtain b where b: "utarray_reserve alloc ((ua_i a + 1) mod 2 ^ 32) a = Inr (True, b)" "ua_wf b"
      "(ua_i a + 1) mod 2 ^ 32 \<le> ua_n b" "ua_list b = ua_list a" "ua_i b = ua_i a" "ua_sz b = ua_sz a"
    by (rule utarray_reserve_ok [OF wf need alloc])
  have lt: "ua_i b < length (ua_d b)" using b room by (simp add: ua_wf_def)
  let ?a = "b\<lparr>ua_d := (ua_d b)[ua_i b := Some x], ua_i := (ua_i b + 1) mod 2 ^ 32\<rparr>"
  have "take (ua_i ?a) (ua_d ?a) = take (ua_i b) (ua_d b) @ [Some x]"
    using lt b room by (simp add: take_Suc_update)
  then have tk: "take (ua_i ?a) (ua_d ?a) = map Some (ua_list a @ [x])"
    using take_ua_d [OF b(2)] b by simp
  have "ua_wf ?a" "ua_list ?a = ua_list a @ [x]"
    using ua_wfI [OF tk] b lt room by (simp_all add: length_ua_list [OF wf] ua_wf_def)
  then show ?thesis using that [of ?a] b lt by (simp add: utarray_push_back_def utarray_write_def)
qed


section \<open>The contract of a growable array\<close>

text \<open>
  What the clients of a vector rely on: a bounded number of appends always succeeds, keeps the
  array well formed and appends to the list it holds.
\<close>

locale growable_array =
  fixes invar :: "'v \<Rightarrow> bool"
    and contents :: "'v \<Rightarrow> 'a list"
    and push :: "'a \<Rightarrow> 'v \<Rightarrow> 'v exec"
    and capacity :: nat
  assumes push_ok: "invar v \<Longrightarrow> length (contents v) < capacity \<Longrightarrow>
      \<exists>v'. push x v = Inr v' \<and> invar v' \<and> contents v' = contents v @ [x]"
begin

lemma push_all:
  "invar v \<Longrightarrow> length (contents v) + length xs \<le> capacity \<Longrightarrow>
     \<exists>v'. foldE push xs v = Inr v' \<and> invar v' \<and> contents v' = contents v @ xs"
proof (induction xs arbitrary: v)
  case Nil
  then show ?case by simp
next
  case (Cons x xs)
  from Cons.prems push_ok [of v x] obtain w
    where w: "push x v = Inr w" "invar w" "contents w = contents v @ [x]" by auto
  have "length (contents w) + length xs \<le> capacity" using Cons.prems w by simp
  from Cons.IH [OF w(2) this] w show ?case by auto
qed

lemma push_all_from_empty:
  assumes "invar v" and "contents v = []" and "length xs \<le> capacity"
  shows "\<exists>v'. foldE push xs v = Inr v' \<and> invar v' \<and> contents v' = xs"
  using push_all [OF assms(1), of xs] assms by simp

end

definition vec_push :: "'a \<Rightarrow> 'a nrm_vector \<Rightarrow> 'a nrm_vector exec" where
  "vec_push x v = bindE (nrm_vector_push_back (\<lambda>_. True) (Some v) (Some x)) (\<lambda>(_, v'). derefE v')"

lemma nrm_vector_push_back_ok:
  assumes "vec_wf v" and "length (vec_list v) < 2 ^ 31" and "\<And>b. alloc b"
  obtains v' where "nrm_vector_push_back alloc (Some v) (Some x) = Inr (NRM_SUCCESS, Some v')"
    and "vec_wf v'" and "vec_list v' = vec_list v @ [x]"
proof -
  have wf: "ua_wf (vec_array v)" using assms(1) by (simp add: vec_wf_def)
  have "ua_i (vec_array v) < 2 ^ 31"
    using assms(2) length_ua_list [OF wf] by (simp add: vec_list_def)
  from utarray_push_back_ok [OF wf this assms(3), where x = x] obtain a' where a':
    "utarray_push_back alloc x (vec_array v) = Inr (True, a')" "ua_wf a'"
    "ua_list a' = ua_list (vec_array v) @ [x]" "ua_sz a' = ua_sz (vec_array v)" .
  show ?thesis
    using that [of "v\<lparr>vec_array := a'\<rparr>"] a' assms(1)
    by (simp add: nrm_vector_push_back_def vec_wf_def vec_list_def)
qed

interpretation vec: growable_array vec_wf vec_list vec_push "2 ^ 31"
proof unfold_locales
  fix v :: "'a nrm_vector" and x
  assume wf: "vec_wf v" and room: "length (vec_list v) < 2 ^ 31"
  obtain v' where "nrm_vector_push_back (\<lambda>_. True) (Some v) (Some x) = Inr (NRM_SUCCESS, Some v')"
      "vec_wf v'" "vec_list v' = vec_list v @ [x]"
    by (rule nrm_vector_push_back_ok [OF wf room]) simp
  then show "\<exists>v'. vec_push x v = Inr v' \<and> vec_wf v' \<and> vec_list v' = vec_list v @ [x]"
    by (simp add: vec_push_def)
qed


section \<open>Sorting and searching\<close>

locale comparator =
  fixes carrier :: "'a set" and cmp :: "'a \<Rightarrow> 'a \<Rightarrow> int"
  assumes cmp_total: "x \<in> carrier \<Longrightarrow> y \<in> carrier \<Longrightarrow> cmp x y \<le> 0 \<or> cmp y x \<le> 0"
    and cmp_trans: "x \<in> carrier \<Longrightarrow> y \<in> carrier \<Longrightarrow> z \<in> carrier \<Longrightarrow>
      cmp x y \<le> 0 \<Longrightarrow> cmp y z \<le> 0 \<Longrightarrow> cmp x z \<le> 0"
begin

lemma sorted_qsort_insert:
  "x \<in> carrier \<Longrightarrow> set ys \<subseteq> carrier \<Longrightarrow> sorted_wrt (\<lambda>a b. cmp a b \<le> 0) ys \<Longrightarrow>
     sorted_wrt (\<lambda>a b. cmp a b \<le> 0) (qsort_insert cmp x ys) \<and> set (qsort_insert cmp x ys) = insert x (set ys)"
proof (induction ys)
  case Nil
  then show ?case by simp
next
  case (Cons y ys)
  have IH: "sorted_wrt (\<lambda>a b. cmp a b \<le> 0) (qsort_insert cmp x ys)"
    "set (qsort_insert cmp x ys) = insert x (set ys)"
    using Cons by auto
  show ?case
  proof (cases "cmp x y \<le> 0")
    case True
    have "cmp x z \<le> 0" if "z \<in> set ys" for z
      using that True Cons.prems cmp_trans [of x y z] by auto
    with True Cons.prems show ?thesis by auto
  next
    case False
    then have "cmp y x \<le> 0" using Cons.prems cmp_total [of x y] by auto
    with False IH Cons.prems show ?thesis by auto
  qed
qed

lemma sorted_qsort_list:
  "set xs \<subseteq> carrier \<Longrightarrow>
     sorted_wrt (\<lambda>a b. cmp a b \<le> 0) (qsort_list cmp xs) \<and> set (qsort_list cmp xs) = set xs"
proof (induction xs)
  case Nil
  then show ?case by simp
next
  case (Cons x xs)
  then have "sorted_wrt (\<lambda>a b. cmp a b \<le> 0) (qsort_list cmp xs)" "set (qsort_list cmp xs) = set xs"
    by auto
  with Cons.prems show ?case using sorted_qsort_insert [of x "qsort_list cmp xs"] by auto
qed

end

lemma mset_qsort_insert [simp]: "mset (qsort_insert cmp x ys) = add_mset x (mset ys)"
  by (induction ys) auto

lemma mset_qsort_list [simp]: "mset (qsort_list cmp xs) = mset xs"
  by (induction xs) auto

lemma length_qsort_list [simp]: "length (qsort_list cmp xs) = length xs"
  by (metis mset_qsort_list size_mset)

lemma set_qsort_list [simp]: "set (qsort_list cmp xs) = set xs"
  by (metis mset_qsort_list set_mset_mset)

lemma double_cmp_le: "x \<noteq> DNaN \<Longrightarrow> y \<noteq> DNaN \<Longrightarrow> nrm_vector_sort_double_cmp x y \<le> 0 \<longleftrightarrow> dle x y"
  using dlt_asym [of x y] by (auto simp: nrm_vector_sort_double_cmp_def not_dlt dle_def deq_def)

interpretation dcmp: comparator "{d. d \<noteq> DNaN}" nrm_vector_sort_double_cmp
proof unfold_locales
  fix x y :: double
  assume "x \<in> {d. d \<noteq> DNaN}" "y \<in> {d. d \<noteq> DNaN}"
  then show "nrm_vector_sort_double_cmp x y \<le> 0 \<or> nrm_vector_sort_double_cmp y x \<le> 0"
    by (simp add: nrm_vector_sort_double_cmp_def dlt_asym)
next
  fix x y z :: double
  assume "x \<in> {d. d \<noteq> DNaN}" "y \<in> {d. d \<noteq> DNaN}" "z \<in> {d. d \<noteq> DNaN}"
    "nrm_vector_sort_double_cmp x y \<le> 0" "nrm_vector_sort_double_cmp y z \<le> 0"
  then show "nrm_vector_sort_double_cmp x z \<le> 0"
    using dle_trans [of x y z] by (simp add: double_cmp_le)
qed

lemma sorted_doubles:
  assumes "\<forall>d \<in> set ds. d \<noteq> DNaN"
  shows "sorted_wrt dle (qsort_list nrm_vector_sort_double_cmp ds)"
proof -
  have sub: "set ds \<subseteq> {d. d \<noteq> DNaN}" using assms by auto
  have "sorted_wrt (\<lambda>a b. nrm_vector_sort_double_cmp a b \<le> 0) (qsort_list nrm_vector_sort_double_cmp ds)"
    using dcmp.sorted_qsort_list [OF sub] by simp
  then show ?thesis
    by (rule sorted_wrt_mono_rel [rotated]) (use sub double_cmp_le in auto)
qed


lemma utarray_sort_ok:
  assumes wf: "ua_wf a"
  obtains a' where "utarray_sort cmp a = Inr a'" and "ua_wf a'"
    and "ua_list a' = qsort_list cmp (ua_list a)" and "ua_sz a' = ua_sz a"
proof -
  have rd: "mapE (\<lambda>j. utarray_read j a) [0 ..< ua_i a] = Inr (map (\<lambda>j. ua_list a ! j) [0 ..< ua_i a])"
    by (rule mapE_pure) (simp add: utarray_read_ok [OF wf])
  have "map (\<lambda>j. ua_list a ! j) [0 ..< ua_i a] = ua_list a"
    by (metis length_ua_list [OF wf] map_nth)
  with rd have rd': "mapE (\<lambda>j. utarray_read j a) [0 ..< ua_i a] = Inr (ua_list a)" by simp
  let ?a = "a\<lparr>ua_d := map Some (qsort_list cmp (ua_list a)) @ drop (ua_i a) (ua_d a)\<rparr>"
  have tk: "take (ua_i ?a) (ua_d ?a) = map Some (qsort_list cmp (ua_list a))"
    by (simp add: length_ua_list [OF wf])
  have "ua_wf ?a" "ua_list ?a = qsort_list cmp (ua_list a)"
    using ua_wfI [OF tk] wf by (simp_all add: length_ua_list [OF wf] ua_wf_def)
  then show ?thesis using that [of ?a] rd' by (simp add: utarray_sort_def)
qed

text \<open>The outcome of a search between two positions.\<close>

definition search_result :: "(nat \<Rightarrow> int) \<Rightarrow> nat \<Rightarrow> nat \<Rightarrow> nat option \<Rightarrow> bool" where
  "search_result f l u r \<longleftrightarrow>
     (case r of Some e \<Rightarrow> l \<le> e \<and> e < u \<and> f e = 0 | None \<Rightarrow> \<forall>e. l \<le> e \<longrightarrow> e < u \<longrightarrow> f e \<noteq> 0)"

lemma search_result_left:
  assumes "search_result f l m r" and "m \<le> u" and "\<And>e. m \<le> e \<Longrightarrow> e < u \<Longrightarrow> f e \<noteq> 0"
  shows "search_result f l u r"
  using assms by (auto simp: search_result_def not_less split: option.splits)

lemma search_result_right:
  assumes "search_result f (m + 1) u r" and "l \<le> m" and "\<And>e. e \<le> m \<Longrightarrow> f e \<noteq> 0"
  shows "search_result f l u r"
proof -
  have "f e \<noteq> 0" if "r = None" "e < u" for e
    using assms that by (cases "e \<le> m") (auto simp: search_result_def)
  then show ?thesis using assms(1,2) by (auto simp: search_result_def split: option.splits)
qed

lemma bsearch_loop_correct:
  assumes wf: "ua_wf a"
    and mono: "\<And>i j. i \<le> j \<Longrightarrow> j < ua_i a \<Longrightarrow> sgn (cmp key (ua_list a ! j)) \<le> sgn (cmp key (ua_list a ! i))"
  shows "u \<le> ua_i a \<Longrightarrow>
     \<exists>r. bsearch_loop cmp key a l u = Inr r \<and> search_result (\<lambda>e. cmp key (ua_list a ! e)) l u r"
proof (induction "u - l" arbitrary: l u rule: less_induct)
  case less
  show ?case
  proof (cases "l < u")
    case False
    then show ?thesis by (subst bsearch_loop.simps) (auto simp: search_result_def)
  next
    case True
    let ?m = "(l + u) div 2"
    have m: "l \<le> ?m" "?m < u" "?m < ua_i a" using True less.prems by auto
    have rd: "utarray_read ?m a = Inr (ua_list a ! ?m)" by (rule utarray_read_ok [OF wf m(3)])
    consider (lt) "cmp key (ua_list a ! ?m) < 0" | (gt) "cmp key (ua_list a ! ?m) > 0"
      | (eq) "cmp key (ua_list a ! ?m) = 0" by linarith
    then show ?thesis
    proof cases
      case lt
      have "cmp key (ua_list a ! e) \<noteq> 0" if "?m \<le> e" "e < u" for e
        using mono [OF that(1)] that less.prems lt by (auto simp: sgn_if split: if_splits)
      moreover have "?m - l < u - l" "?m \<le> ua_i a" using True m by auto
      ultimately show ?thesis
        using less.hyps [of ?m l] True rd lt m search_result_left [of _ l ?m _ u]
        by (subst bsearch_loop.simps) auto
    next
      case gt
      have "cmp key (ua_list a ! e) \<noteq> 0" if "e \<le> ?m" for e
        using mono [OF that m(3)] gt by (auto simp: sgn_if split: if_splits)
      moreover have "u - (?m + 1) < u - l" using True m by auto
      ultimately show ?thesis
        using less.hyps [of u "?m + 1"] less.prems True rd gt m search_result_right [of _ ?m u _ l]
        by (subst bsearch_loop.simps) auto
    next
      case eq
      then show ?thesis using True rd m by (subst bsearch_loop.simps) (auto simp: search_result_def)
    qed
  qed
qed


lemma vector_find_loop_correct:
  assumes wf: "ua_wf a"
  shows "e < ua_i a \<Longrightarrow> \<exists>r. vector_find_loop cmp key a (Some e) = Some (Inr r) \<and>
     (case r of
        Some j \<Rightarrow> e \<le> j \<and> j < ua_i a \<and> cmp key (ua_list a ! j) = 0
                    \<and> (\<forall>k. e \<le> k \<longrightarrow> k < j \<longrightarrow> cmp key (ua_list a ! k) \<noteq> 0)
      | None \<Rightarrow> \<forall>k. e \<le> k \<longrightarrow> k < ua_i a \<longrightarrow> cmp key (ua_list a ! k) \<noteq> 0)"
proof (induction "ua_i a - e" arbitrary: e rule: less_induct)
  case less
  have rd: "utarray_read e a = Inr (ua_list a ! e)" by (rule utarray_read_ok [OF wf less.prems])
  consider (hit) "cmp key (ua_list a ! e) = 0"
    | (last) "cmp key (ua_list a ! e) \<noteq> 0" "ua_i a = e + 1"
    | (more) "cmp key (ua_list a ! e) \<noteq> 0" "e + 1 < ua_i a"
    using less.prems by linarith
  then show ?case
  proof cases
    case hit
    then show ?thesis using rd less.prems by (subst vector_find_loop.simps) auto
  next
    case last
    then have "cmp key (ua_list a ! k) \<noteq> 0" if "e \<le> k" "k < ua_i a" for k
      using that by (metis Suc_eq_plus1 le_antisym less_Suc_eq_le)
    with last show ?thesis using rd
      by (intro exI [of _ None], subst vector_find_loop.simps)
         (simp add: utarray_next_def vector_find_loop.simps [of cmp key a None])
  next
    case more
    have dec: "ua_i a - (e + 1) < ua_i a - e" using less.prems by simp
    from less.hyps [OF dec more(2)] obtain r where
      r: "vector_find_loop cmp key a (Some (e + 1)) = Some (Inr r)" and
      post: "case r of
        Some j \<Rightarrow> e + 1 \<le> j \<and> j < ua_i a \<and> cmp key (ua_list a ! j) = 0
                    \<and> (\<forall>k. e + 1 \<le> k \<longrightarrow> k < j \<longrightarrow> cmp key (ua_list a ! k) \<noteq> 0)
      | None \<Rightarrow> \<forall>k. e + 1 \<le> k \<longrightarrow> k < ua_i a \<longrightarrow> cmp key (ua_list a ! k) \<noteq> 0" by blast
    have "vector_find_loop cmp key a (Some e) = Some (Inr r)"
      using rd more r by (subst vector_find_loop.simps) (simp add: utarray_next_def)
    then show ?thesis using post more(1)
      by (intro exI [of _ r] conjI) (auto split: option.splits, (metis Suc_leI le_neq_implies_less)+)
  qed
qed

lemma nrm_vector_foreach_from:
  "e \<le> ua_i (vec_array v) \<Longrightarrow>
     nrm_vector_foreach v (if e = ua_i (vec_array v) then None else Some e) = Some [e ..< ua_i (vec_array v)]"
proof (induction "ua_i (vec_array v) - e" arbitrary: e rule: less_induct)
  case less
  show ?case
  proof (cases "e = ua_i (vec_array v)")
    case True
    then show ?thesis by (subst nrm_vector_foreach.simps) simp
  next
    case False
    with less.prems have lt: "e < ua_i (vec_array v)" by simp
    with less.hyps [of "e + 1"]
    have "nrm_vector_foreach v (nrm_vector_iterator_next v e) = Some [e + 1 ..< ua_i (vec_array v)]"
      by (auto simp: nrm_vector_iterator_next_def utarray_next_def)
    with False lt show ?thesis
      by (subst nrm_vector_foreach.simps) (simp add: upt_conv_Cons)
  qed
qed


section \<open>The API on well-formed vectors\<close>

lemma vec_wf_array: "vec_wf v \<Longrightarrow> ua_wf (vec_array v)"
  by (simp add: vec_wf_def)

lemma length_vec_list: "vec_wf v \<Longrightarrow> length (vec_list v) = ua_i (vec_array v)"
  by (simp add: vec_list_def vec_wf_def length_ua_list)

text \<open>The macro visits every element once, in order, and ends.\<close>

lemma nrm_vector_foreach_elements:
  assumes "vec_wf v"
  shows "\<exists>its. nrm_vector_foreach v (nrm_vector_iterator_begin v) = Some its
     \<and> map (\<lambda>it. utarray_read (nrm_vector_iterator_get it) (vec_array v)) its = map Inr (vec_list v)"
proof -
  have wf: "ua_wf (vec_array v)" using assms by (rule vec_wf_array)
  have "nrm_vector_iterator_begin v = (if 0 = ua_i (vec_array v) then None else Some 0)"
    by (auto simp: nrm_vector_iterator_begin_def utarray_front_def)
  then have "nrm_vector_foreach v (nrm_vector_iterator_begin v) = Some [0 ..< ua_i (vec_array v)]"
    using nrm_vector_foreach_from [of 0 v] by simp
  moreover have "map (\<lambda>it. utarray_read (nrm_vector_iterator_get it) (vec_array v)) [0 ..< ua_i (vec_array v)] = map Inr (vec_list v)"
    using wf by (auto simp: nrm_vector_iterator_get_def utarray_read_def vec_list_def ua_list_def ua_wf_def list_eq_iff_nth_eq)
  ultimately show ?thesis by blast
qed

lemma vec_wf_update:
  "vec_wf v \<Longrightarrow> ua_wf a \<Longrightarrow> ua_sz a = ua_sz (vec_array v) \<Longrightarrow> vec_wf (v\<lparr>vec_array := a\<rparr>)"
  by (simp add: vec_wf_def)

lemma vec_list_update [simp]: "vec_list (v\<lparr>vec_array := a\<rparr>) = ua_list a"
  by (simp add: vec_list_def)

lemma nrm_vector_create_ok:
  assumes "0 < sz" and "\<And>b. alloc b"
  obtains v where "nrm_vector_create alloc True sz = (NRM_SUCCESS, Some v)" and "vec_wf v"
    and "vec_list v = []" and "vec_icd_sz v = sz"
  using that [of "\<lparr>vec_array = utarray_init sz, vec_icd_sz = sz\<rparr>"] assms utarray_init_wf [of sz]
  by (simp add: nrm_vector_create_def vec_wf_def vec_list_def utarray_init_def)

lemma nrm_vector_get_eq:
  "vec_wf v \<Longrightarrow> nrm_vector_get (Some v) index True =
     (if index < length (vec_list v) then (NRM_SUCCESS, Some index) else (- NRM_EDOM, None))"
  by (simp add: nrm_vector_get_def utarray_eltptr_def length_vec_list)

lemma pop_index: "0 < i \<Longrightarrow> i < 2 ^ 32 \<Longrightarrow> (i + 2 ^ 32 - 1) mod 2 ^ 32 = i - (1::nat)"
proof -
  assume "0 < i" "i < 2 ^ 32"
  then have "i + 2 ^ 32 - 1 = (i - 1) + 2 ^ 32" by simp
  also have "\<dots> mod 2 ^ 32 = i - 1" using \<open>i < 2 ^ 32\<close> by (subst mod_add_self2) simp
  finally show ?thesis .
qed

lemma utarray_pop_back_ok:
  assumes wf: "ua_wf a" and ne: "ua_list a \<noteq> []"
  shows "ua_wf (utarray_pop_back a)" and "ua_list (utarray_pop_back a) = butlast (ua_list a)"
proof -
  have i: "0 < ua_i a" "ua_i a < 2 ^ 32"
    using ne length_ua_list [OF wf, symmetric] wf by (simp_all add: ua_wf_def)
  let ?a = "utarray_pop_back a"
  have ia: "ua_i ?a = ua_i a - 1" using pop_index [OF i] by (simp add: utarray_pop_back_def)
  have "take (ua_i a - 1) (ua_d a) = take (ua_i a - 1) (take (ua_i a) (ua_d a))" by (simp add: min_def)
  also have "\<dots> = map Some (butlast (ua_list a))"
    by (simp add: take_ua_d [OF wf] take_map butlast_conv_take length_ua_list [OF wf])
  finally have tk: "take (ua_i ?a) (ua_d ?a) = map Some (butlast (ua_list a))"
    by (simp add: ia) (simp add: utarray_pop_back_def)
  show "ua_wf ?a" "ua_list ?a = butlast (ua_list a)"
    using ua_wfI [OF tk] wf ia length_ua_list [OF wf] by (auto simp: utarray_pop_back_def ua_wf_def)
qed

lemma nrm_vector_pop_back_ok:
  assumes wf: "vec_wf v" and ne: "vec_list v \<noteq> []"
  obtains v' where "nrm_vector_pop_back (Some v) True = Inr (NRM_SUCCESS, Some v', Some (last (vec_list v)))"
    and "vec_wf v'" and "vec_list v' = butlast (vec_list v)"
proof -
  let ?a = "vec_array v"
  have a: "ua_wf ?a" by (rule vec_wf_array [OF wf])
  have i: "ua_i ?a \<noteq> 0" using ne length_vec_list [OF wf, symmetric] by simp
  have "utarray_read (ua_i ?a - 1) ?a = Inr (last (vec_list v))"
    using utarray_read_ok [OF a, of "ua_i ?a - 1"] i ne
    by (simp add: last_conv_nth length_vec_list [OF wf]) (simp add: vec_list_def)
  moreover have "vec_wf (v\<lparr>vec_array := utarray_pop_back ?a\<rparr>)"
    using utarray_pop_back_ok(1) [OF a] ne wf
    by (intro vec_wf_update) (simp_all add: vec_list_def utarray_pop_back_def)
  ultimately show ?thesis
    using that [of "v\<lparr>vec_array := utarray_pop_back ?a\<rparr>"] i utarray_pop_back_ok(2) [OF a] ne
    by (simp add: nrm_vector_pop_back_def utarray_back_def) (simp add: vec_list_def)
qed

lemma utarray_erase1_ok:
  assumes wf: "ua_wf a" and pos: "pos < ua_i a"
  shows "ua_wf (utarray_erase1 pos a)" and "ua_list (utarray_erase1 pos a) = remove_nth pos (ua_list a)"
proof -
  have i: "0 < ua_i a" "ua_i a < 2 ^ 32" using pos wf by (auto simp: ua_wf_def)
  have len: "ua_i a \<le> length (ua_d a)" using wf by (simp add: ua_wf_def)
  let ?a = "utarray_erase1 pos a"
  have ia: "ua_i ?a = ua_i a - 1" using pop_index [OF i] by (simp add: utarray_erase1_def)
  have "take (ua_i ?a) (ua_d ?a) = remove_nth pos (take (ua_i a) (ua_d a))"
  proof (cases "ua_i a > pos + 1")
    case True
    then show ?thesis using len
      by (simp add: ia) (auto simp: utarray_erase1_def remove_nth_def take_drop min_def)
  next
    case False
    with pos have "ua_i a = Suc pos" by simp
    then show ?thesis by (simp add: ia) (simp add: utarray_erase1_def remove_nth_def min_def)
  qed
  then have tk: "take (ua_i ?a) (ua_d ?a) = map Some (remove_nth pos (ua_list a))"
    by (simp add: take_ua_d [OF wf] remove_nth_def take_map drop_map)
  have fields: "ua_n ?a = ua_n a" "ua_sz ?a = ua_sz a" by (simp_all add: utarray_erase1_def)
  have lr: "length (remove_nth pos (ua_list a)) = ua_i ?a"
    using pos length_ua_list [OF wf] ia by (simp add: length_remove_nth)
  have "length (ua_d ?a) = ua_n ?a" using wf pos by (simp add: utarray_erase1_def ua_wf_def min_def) linarith
  moreover have "ua_i ?a \<le> ua_n ?a" "ua_n ?a < 2 ^ 32" "0 < ua_sz ?a"
    using wf unfolding ia fields ua_wf_def by auto
  ultimately show "ua_wf ?a" "ua_list ?a = remove_nth pos (ua_list a)"
    using ua_wfI [OF tk lr] by blast+
qed

lemma nrm_vector_take_ok:
  assumes wf: "vec_wf v" and pos: "pos < length (vec_list v)"
  obtains v' where "nrm_vector_take (Some v) pos True = Inr (NRM_SUCCESS, Some v', Some (vec_list v ! pos))"
    and "vec_wf v'" and "vec_list v' = remove_nth pos (vec_list v)"
proof -
  let ?a = "vec_array v" and ?b = "utarray_erase1 pos (vec_array v)"
  have a: "ua_wf ?a" by (rule vec_wf_array [OF wf])
  have p: "pos < ua_i ?a" using pos length_vec_list [OF wf] by simp
  have "vec_wf (v\<lparr>vec_array := ?b\<rparr>)"
    using utarray_erase1_ok(1) [OF a p] wf by (intro vec_wf_update) (simp_all add: utarray_erase1_def)
  then show ?thesis
    using that [of "v\<lparr>vec_array := ?b\<rparr>"] p utarray_erase1_ok(2) [OF a p] utarray_read_ok [OF a p]
    by (simp add: nrm_vector_take_def utarray_eltptr_def) (simp add: vec_list_def)
qed

lemma nrm_vector_clear_ok:
  assumes "vec_wf v"
  shows "\<exists>v'. nrm_vector_clear (Some v) = (NRM_SUCCESS, Some v') \<and> vec_wf v' \<and> vec_list v' = []
     \<and> vec_icd_sz v' = vec_icd_sz v"
  using assms by (auto simp: nrm_vector_clear_def utarray_clear_def vec_wf_def vec_list_def ua_wf_def ua_list_def)

lemma nrm_vector_sort_ok:
  assumes wf: "vec_wf v"
  obtains v' where "nrm_vector_sort (Some v) (Some cmp) = Inr (NRM_SUCCESS, Some v')" and "vec_wf v'"
    and "vec_list v' = qsort_list cmp (vec_list v)"
proof -
  obtain a where a: "utarray_sort cmp (vec_array v) = Inr a" "ua_wf a"
      "ua_list a = qsort_list cmp (ua_list (vec_array v))" "ua_sz a = ua_sz (vec_array v)"
    by (rule utarray_sort_ok [OF vec_wf_array [OF wf]])
  show ?thesis
    using that [of "v\<lparr>vec_array := a\<rparr>"] a vec_wf_update [OF wf a(2,4)]
    by (simp add: nrm_vector_sort_def) (simp add: vec_list_def)
qed

lemma nrm_vector_resize_ok:
  assumes wf: "vec_wf v" and len: "newlen \<le> 2 ^ 31" and alloc: "\<And>b. alloc b"
  obtains v' where "nrm_vector_resize alloc z (Some v) newlen = Inr (NRM_SUCCESS, Some v')" and "vec_wf v'"
    and "vec_list v' = take newlen (vec_list v) @ replicate (newlen - length (vec_list v)) z"
proof -
  let ?a = "vec_array v"
  have a: "ua_wf ?a" by (rule vec_wf_array [OF wf])
  have m: "newlen mod 2 ^ 32 = newlen" using len by simp
  show ?thesis
  proof (cases "ua_i ?a < newlen")
    case False
    let ?b = "?a\<lparr>ua_i := newlen\<rparr>"
    have tk: "take (ua_i ?b) (ua_d ?b) = map Some (take newlen (ua_list ?a))"
      using False take_ua_d [OF a] by (metis min.absorb1 not_less take_map take_take ut_array.select_convs(1,4) ut_array.surjective ut_array.update_convs(1))
    have b: "ua_wf ?b" "ua_list ?b = take newlen (ua_list ?a)"
      using ua_wfI [OF tk] a False length_ua_list [OF a] by (simp_all add: ua_wf_def)
    then show ?thesis
      using that [of "v\<lparr>vec_array := ?b\<rparr>"] False m vec_wf_update [OF wf b(1)] length_ua_list [OF a]
      by (auto simp: nrm_vector_resize_def utarray_resize_def vec_list_def)
  next
    case True
    obtain c where c: "utarray_reserve alloc newlen ?a = Inr (True, c)" "ua_wf c" "newlen \<le> ua_n c"
        "ua_list c = ua_list ?a" "ua_i c = ua_i ?a" "ua_sz c = ua_sz ?a"
      by (rule utarray_reserve_ok [OF a len alloc])
    let ?b = "c\<lparr>ua_d := take (ua_i c) (ua_d c) @ replicate (newlen - ua_i c) (Some z) @ drop newlen (ua_d c),
               ua_i := newlen\<rparr>"
    have d: "length (ua_d c) = ua_n c" "ua_i c \<le> ua_n c" using c(2) by (simp_all add: ua_wf_def)
    have tk: "take (ua_i ?b) (ua_d ?b) = map Some (ua_list ?a @ replicate (newlen - ua_i c) z)"
      using True c d take_ua_d [OF c(2)] length_ua_list [OF a] by simp
    have b: "ua_wf ?b" "ua_list ?b = ua_list ?a @ replicate (newlen - ua_i c) z"
      using ua_wfI [OF tk] c True length_ua_list [OF a] d by (simp_all add: ua_wf_def)
    then show ?thesis
      using that [of "v\<lparr>vec_array := ?b\<rparr>"] True m c d vec_wf_update [OF wf b(1)] length_ua_list [OF a]
      by (simp add: nrm_vector_resize_def utarray_resize_def utarray_fill_def vec_list_def)
  qed
qed


section \<open>Properties\<close>

text \<open>
  The vector of src/utils/vectors.c refines a list: on a well-formed vector with fewer than
  \<open>2 ^ 31\<close> elements and memory available, \<open>nrm_vector_push_back\<close> returns success,
  leaves a well-formed vector and appends the element to the list it holds, and
  \<open>nrm_vector_pop_back\<close> on the result gives back that element and the original list.
\<close>

theorem nrm_vector_push_pop:
  assumes "vec_wf v" and "length (vec_list v) < 2 ^ 31" and "\<And>b. alloc b"
  shows "\<exists>v' v''. nrm_vector_push_back alloc (Some v) (Some x) = Inr (NRM_SUCCESS, Some v')
     \<and> vec_wf v' \<and> vec_list v' = vec_list v @ [x]
     \<and> nrm_vector_pop_back (Some v') True = Inr (NRM_SUCCESS, Some v'', Some x)
     \<and> vec_wf v'' \<and> vec_list v'' = vec_list v"
proof -
  obtain v' where v': "nrm_vector_push_back alloc (Some v) (Some x) = Inr (NRM_SUCCESS, Some v')"
      "vec_wf v'" "vec_list v' = vec_list v @ [x]"
    by (rule nrm_vector_push_back_ok [OF assms])
  obtain v'' where "nrm_vector_pop_back (Some v') True = Inr (NRM_SUCCESS, Some v'', Some (last (vec_list v')))"
      "vec_wf v''" "vec_list v'' = butlast (vec_list v')"
    by (rule nrm_vector_pop_back_ok [OF v'(2)]) (simp add: v'(3))
  with v' show ?thesis by auto
qed

definition vec_nil :: "nat nrm_vector" where
  "vec_nil = \<lparr>vec_array = utarray_init 8, vec_icd_sz = 8\<rparr>"

lemma vec_nil_ok [simp]: "vec_wf vec_nil" "vec_list vec_nil = []"
  by (simp_all add: vec_nil_def vec_wf_def vec_list_def utarray_init_wf) (simp add: utarray_init_def)

theorem nrm_vector_push_pop_witness:
  "\<exists>v' v''. nrm_vector_push_back (\<lambda>_. True) (Some vec_nil) (Some 7) = Inr (NRM_SUCCESS, Some v')
     \<and> vec_wf v' \<and> vec_list v' = [7]
     \<and> nrm_vector_pop_back (Some v') True = Inr (NRM_SUCCESS, Some v'', Some 7)
     \<and> vec_wf v'' \<and> vec_list v'' = []"
  using nrm_vector_push_pop [of vec_nil "\<lambda>_. True" 7] by simp

text \<open>
  Removing an element by position: on every position inside the vector
  \<open>nrm_vector_take\<close> returns success, copies out the element at that position and leaves a
  well-formed vector holding the others in order; outside it returns \<open>-NRM_EDOM\<close> and changes
  nothing.
\<close>

theorem nrm_vector_take_removes:
  assumes "vec_wf v"
  shows "\<exists>v'. nrm_vector_take (Some v) pos True =
        (if pos < length (vec_list v) then Inr (NRM_SUCCESS, Some v', Some (vec_list v ! pos))
         else Inr (- NRM_EDOM, Some v, None))
     \<and> (pos < length (vec_list v) \<longrightarrow>
          vec_wf v' \<and> vec_list v' = remove_nth pos (vec_list v)
          \<and> add_mset (vec_list v ! pos) (mset (vec_list v')) = mset (vec_list v))"
proof (cases "pos < length (vec_list v)")
  case True
  obtain v' where "nrm_vector_take (Some v) pos True = Inr (NRM_SUCCESS, Some v', Some (vec_list v ! pos))"
      "vec_wf v'" "vec_list v' = remove_nth pos (vec_list v)"
    by (rule nrm_vector_take_ok [OF assms True])
  with True mset_remove_nth [OF True] show ?thesis by auto
next
  case False
  then show ?thesis
    by (simp add: nrm_vector_take_def utarray_eltptr_def length_vec_list [OF assms])
qed

definition vec_246 :: "nat nrm_vector" where
  "vec_246 = \<lparr>vec_array = \<lparr>ua_i = 3, ua_n = 8, ua_sz = 8,
      ua_d = [Some 2, Some 4, Some 6, None, None, None, None, None]\<rparr>, vec_icd_sz = 8\<rparr>"

lemma vec_246_ok: "vec_wf vec_246" "vec_list vec_246 = [2, 4, 6]"
  by (auto simp: vec_246_def vec_wf_def vec_list_def ua_defs numeral_3_eq_3 less_Suc_eq nth_Cons')

theorem nrm_vector_take_removes_witness:
  "\<exists>v'. nrm_vector_take (Some vec_246) 1 True = Inr (NRM_SUCCESS, Some v', Some 4)
     \<and> vec_wf v' \<and> vec_list v' = [2, 6]"
  using nrm_vector_take_removes [OF vec_246_ok(1), of 1] by (auto simp: vec_246_ok(2) remove_nth_def)

text \<open>
  Searching a vector that is ordered for the key (the sign of \<open>cmp key\<close> never increases
  along it): \<open>nrm_vector_bsearch\<close> always returns; with success it gives the position of an
  element that compares equal, and with \<open>-NRM_FAILURE\<close> no element does.
\<close>

theorem nrm_vector_bsearch_correct:
  assumes "vec_wf v"
    and "\<And>i j. i \<le> j \<Longrightarrow> j < length (vec_list v) \<Longrightarrow>
      sgn (cmp key (vec_list v ! j)) \<le> sgn (cmp key (vec_list v ! i))"
  shows "(\<exists>e. nrm_vector_bsearch (Some v) (Some key) (Some cmp) = Inr (NRM_SUCCESS, Some e)
            \<and> e < length (vec_list v) \<and> cmp key (vec_list v ! e) = 0)
       \<or> (nrm_vector_bsearch (Some v) (Some key) (Some cmp) = Inr (- NRM_FAILURE, None)
            \<and> (\<forall>x \<in> set (vec_list v). cmp key x \<noteq> 0))"
proof -
  let ?a = "vec_array v"
  have a: "ua_wf ?a" by (rule vec_wf_array [OF assms(1)])
  have len: "ua_i ?a = length (vec_list v)" by (simp add: length_vec_list [OF assms(1)])
  obtain r where "bsearch_loop cmp key ?a 0 (ua_i ?a) = Inr r"
    "search_result (\<lambda>e. cmp key (ua_list ?a ! e)) 0 (ua_i ?a) r"
    using bsearch_loop_correct [OF a, of cmp key "ua_i ?a" 0] assms(2) len
    by (auto simp: vec_list_def)
  then show ?thesis
    by (cases r)
       (auto simp: search_result_def nrm_vector_bsearch_def utarray_find_def vec_list_def length_ua_list [OF a] in_set_conv_nth)
qed

definition int_cmp :: "nat \<Rightarrow> nat \<Rightarrow> int" where
  "int_cmp k x = int k - int x"

theorem nrm_vector_bsearch_correct_witness:
  "(\<exists>e. nrm_vector_bsearch (Some vec_246) (Some 4) (Some int_cmp) = Inr (NRM_SUCCESS, Some e)
            \<and> e < length (vec_list vec_246) \<and> int_cmp 4 (vec_list vec_246 ! e) = 0)
       \<or> (nrm_vector_bsearch (Some vec_246) (Some 4) (Some int_cmp) = Inr (- NRM_FAILURE, None)
            \<and> (\<forall>x \<in> set (vec_list vec_246). int_cmp 4 x \<noteq> 0))"
proof (rule nrm_vector_bsearch_correct)
  show "vec_wf vec_246" by (rule vec_246_ok)
  show "sgn (int_cmp 4 (vec_list vec_246 ! j)) \<le> sgn (int_cmp 4 (vec_list vec_246 ! i))"
    if "i \<le> j" "j < length (vec_list vec_246)" for i j
    using that by (auto simp: vec_246_ok int_cmp_def less_Suc_eq numeral_3_eq_3 sgn_if nth_Cons')
qed

text \<open>
  C36. The doubling loop of \<open>utarray_reserve\<close> runs on 32-bit counters: it ends for every request
  of at most \<open>2 ^ 31\<close> slots, but pushing onto a vector that holds \<open>2 ^ 31\<close> elements in
  exactly filled slots never returns, whatever the allocator does.
\<close>

theorem nrm_vector_push_back_diverges:
  assumes "ua_i (vec_array v) = 2 ^ 31" and "ua_n (vec_array v) = 2 ^ 31"
  shows "nrm_vector_push_back alloc (Some v) (Some x) = Inl Diverges"
proof -
  have "(2::nat) ^ 31 \<in> grow_sizes" by (auto simp: grow_sizes_def intro!: image_eqI [of _ _ 31])
  then have "utarray_grow (2 ^ 31 + 1) (2 ^ 31) = None" by (intro utarray_grow_diverges) auto
  then show ?thesis
    using assms
    by (simp add: nrm_vector_push_back_def utarray_push_back_def utarray_reserve_def)
qed

theorem nrm_vector_push_back_diverges_witness:
  "nrm_vector_push_back (\<lambda>_. True)
     (Some \<lparr>vec_array = \<lparr>ua_i = 2 ^ 31, ua_n = 2 ^ 31, ua_sz = 8, ua_d = replicate (2 ^ 31) (Some 0)\<rparr>,
           vec_icd_sz = 8\<rparr>) (Some (1::nat)) = Inl Diverges"
  by (rule nrm_vector_push_back_diverges)
     (simp_all only: nrm_vector.select_convs ut_array.select_convs)

text \<open>
  A failed growth is not undone: \<open>utarray_reserve\<close> has already enlarged the slot count when
  \<open>realloc\<close> fails.  On a full vector \<open>nrm_vector_push_back\<close> then returns
  \<open>-NRM_ENOMEM\<close> with the elements unchanged, and the next push, even with memory available
  again, writes past the end of the buffer.
\<close>

theorem nrm_vector_push_after_enomem:
  assumes "vec_wf v" and "ua_i (vec_array v) = ua_n (vec_array v)"
    and "ua_n (vec_array v) < 2 ^ 30" and "\<And>b. \<not> alloc b"
  shows "\<exists>v'. nrm_vector_push_back alloc (Some v) (Some x) = Inr (- NRM_ENOMEM, Some v')
     \<and> vec_list v' = vec_list v
     \<and> nrm_vector_push_back alloc' (Some v') (Some y) = Inl OutOfBounds"
proof -
  let ?a = "vec_array v"
  have wf: "ua_wf ?a" by (rule vec_wf_array [OF assms(1)])
  obtain m where m: "utarray_grow (ua_i ?a + 1) (ua_n ?a) = Some m" "ua_i ?a + 1 \<le> m" "m < 2 ^ 32"
    using utarray_grow_terminates [of "ua_i ?a + 1" "ua_n ?a"] assms(2,3) by auto
  have "utarray_push_back alloc x ?a = Inr (False, ?a\<lparr>ua_n := m\<rparr>)"
    using m assms by (simp add: utarray_push_back_def utarray_reserve_def)
  moreover have "utarray_push_back alloc' y (?a\<lparr>ua_n := m\<rparr>) = Inl OutOfBounds"
    using m assms wf
    by (simp add: utarray_push_back_def utarray_reserve_def utarray_write_def ua_wf_def)
  ultimately show ?thesis
    by (simp add: nrm_vector_push_back_def) (simp add: vec_list_def ua_list_def)
qed

theorem nrm_vector_push_after_enomem_witness:
  "\<exists>v'. nrm_vector_push_back (\<lambda>_. False) (Some vec_nil) (Some 1) = Inr (- NRM_ENOMEM, Some v')
     \<and> vec_list v' = vec_list vec_nil
     \<and> nrm_vector_push_back (\<lambda>_. True) (Some v') (Some 2) = Inl OutOfBounds"
  by (rule nrm_vector_push_after_enomem) (simp_all add: vec_nil_def utarray_init_def vec_wf_def ua_wf_def)

end
