(* ===== verification/NRM_Ringbuffer.thy ===== *)
theory NRM_Ringbuffer
  imports NRM_Vector
begin

text \<open>
  Ring buffers: the macros of include/internal/utringbuffer.h and the \<open>nrm_ringbuffer_t\<close> API of
  src/utils/ringbuffer.c.  The record keeps the write index \<open>i\<close>, the capacity \<open>n\<close>, the
  flag \<open>f\<close> that is set once the buffer has wrapped, and the \<open>n\<close> slots.  A pointer to an
  element is the index of its slot.

  A well-formed ring buffer stands for the list \<open>ring_list\<close> of its elements, oldest first; the
  contract \<open>bounded_log\<close> (a push keeps the most recent \<open>n\<close> elements) is interpreted on
  \<open>nrm_ringbuffer_push_back\<close>.
\<close>

record 'a ut_ringbuffer =
  rb_i :: nat
  rb_n :: nat
  rb_f :: bool
  rb_d :: "'a option list"


section \<open>The utringbuffer macros\<close>

text \<open>\<open>n\<close> is an \<open>unsigned\<close>, the requested size a \<open>size_t\<close>.\<close>

definition utringbuffer_init :: "nat \<Rightarrow> 'a ut_ringbuffer" where
  "utringbuffer_init sz =
     (let n = sz mod 2 ^ 32 in \<lparr>rb_i = 0, rb_n = n, rb_f = False, rb_d = replicate n None\<rparr>)"

definition utringbuffer_clear :: "'a ut_ringbuffer \<Rightarrow> 'a ut_ringbuffer" where
  "utringbuffer_clear a = a\<lparr>rb_i := 0, rb_f := False\<rparr>"

definition utringbuffer_push_back :: "'a \<Rightarrow> 'a ut_ringbuffer \<Rightarrow> 'a ut_ringbuffer exec" where
  "utringbuffer_push_back x a =
     (if rb_i a < length (rb_d a)
      then let a = a\<lparr>rb_d := (rb_d a)[rb_i a := Some x]\<rparr>;
               i = (rb_i a + 1) mod 2 ^ 32
           in Inr (if i = rb_n a then a\<lparr>rb_i := 0, rb_f := True\<rparr> else a\<lparr>rb_i := i\<rparr>)
      else Inl OutOfBounds)"

definition utringbuffer_len :: "'a ut_ringbuffer \<Rightarrow> nat" where
  "utringbuffer_len a = (if rb_f a then rb_n a else rb_i a)"

definition utringbuffer_empty :: "'a ut_ringbuffer \<Rightarrow> bool" where
  "utringbuffer_empty a \<longleftrightarrow> rb_i a = 0 \<and> \<not> rb_f a"

definition utringbuffer_full :: "'a ut_ringbuffer \<Rightarrow> bool" where
  "utringbuffer_full a \<longleftrightarrow> rb_f a"

definition utringbuffer_real_idx :: "'a ut_ringbuffer \<Rightarrow> nat \<Rightarrow> nat" where
  "utringbuffer_real_idx a j = (if rb_f a then (j + rb_i a) mod rb_n a else j)"

definition utringbuffer_eltptr :: "'a ut_ringbuffer \<Rightarrow> nat \<Rightarrow> nat option" where
  "utringbuffer_eltptr a j =
     (if j < utringbuffer_len a then Some (utringbuffer_real_idx a j) else None)"

definition utringbuffer_back :: "'a ut_ringbuffer \<Rightarrow> nat option" where
  "utringbuffer_back a =
     (if utringbuffer_empty a then None else utringbuffer_eltptr a (utringbuffer_len a - 1))"

definition ring_read :: "'a ut_ringbuffer \<Rightarrow> nat \<Rightarrow> 'a exec" where
  "ring_read a p = (if p < length (rb_d a) then derefE (rb_d a ! p) else Inl OutOfBounds)"


section \<open>The nrm_ringbuffer API\<close>

definition nrm_ringbuffer_create ::
  "bool \<Rightarrow> bool \<Rightarrow> nat \<Rightarrow> nat \<Rightarrow> int \<times> 'a ut_ringbuffer option" where
  "nrm_ringbuffer_create malloc_ok ringbuffer_nonnull sz element_size =
     (if \<not> ringbuffer_nonnull \<or> element_size = 0 \<or> sz = 0 then (- NRM_EINVAL, None)
      else if \<not> malloc_ok then (- NRM_ENOMEM, None)
      else (NRM_SUCCESS, Some (utringbuffer_init sz)))"

definition nrm_ringbuffer_destroy :: "'a ut_ringbuffer option option \<Rightarrow> 'a ut_ringbuffer option option exec" where
  "nrm_ringbuffer_destroy ringbuffer =
     (case ringbuffer of None \<Rightarrow> Inr None | Some r \<Rightarrow> bindE (derefE r) (\<lambda>_. Inr (Some None)))"

definition nrm_ringbuffer_length :: "'a ut_ringbuffer option \<Rightarrow> bool \<Rightarrow> int \<times> nat option" where
  "nrm_ringbuffer_length rb length_nonnull =
     (case rb of
        None \<Rightarrow> (- NRM_EINVAL, None)
      | Some a \<Rightarrow> if \<not> length_nonnull then (- NRM_EINVAL, None)
                  else (NRM_SUCCESS, Some (utringbuffer_len a)))"

definition nrm_ringbuffer_get :: "'a ut_ringbuffer option \<Rightarrow> nat \<Rightarrow> bool \<Rightarrow> int \<times> nat option" where
  "nrm_ringbuffer_get rb index out_nonnull =
     (case rb of
        None \<Rightarrow> (- NRM_EINVAL, None)
      | Some a \<Rightarrow>
          if \<not> out_nonnull then (- NRM_EINVAL, None)
          else (case utringbuffer_eltptr a index of
                  None \<Rightarrow> (- NRM_EDOM, None)
                | Some p \<Rightarrow> (NRM_SUCCESS, Some p)))"

definition nrm_ringbuffer_back :: "'a ut_ringbuffer option \<Rightarrow> bool \<Rightarrow> int \<times> nat option" where
  "nrm_ringbuffer_back rb out_nonnull =
     (case rb of
        None \<Rightarrow> (- NRM_EINVAL, None)
      | Some a \<Rightarrow>
          if \<not> out_nonnull then (- NRM_EINVAL, None)
          else (case utringbuffer_back a of
                  None \<Rightarrow> (- NRM_EDOM, None)
                | Some p \<Rightarrow> (NRM_SUCCESS, Some p)))"

definition nrm_ringbuffer_push_back ::
  "'a ut_ringbuffer option \<Rightarrow> 'a option \<Rightarrow> (int \<times> 'a ut_ringbuffer option) exec" where
  "nrm_ringbuffer_push_back rb element =
     (case (rb, element) of
        (Some a, Some x) \<Rightarrow> bindE (utringbuffer_push_back x a) (\<lambda>a. Inr (NRM_SUCCESS, Some a))
      | _ \<Rightarrow> Inr (- NRM_EINVAL, rb))"

definition nrm_ringbuffer_isempty :: "'a ut_ringbuffer option \<Rightarrow> bool" where
  "nrm_ringbuffer_isempty rb = (case rb of None \<Rightarrow> True | Some a \<Rightarrow> utringbuffer_empty a)"

definition nrm_ringbuffer_isfull :: "'a ut_ringbuffer option \<Rightarrow> bool" where
  "nrm_ringbuffer_isfull rb = (case rb of None \<Rightarrow> False | Some a \<Rightarrow> utringbuffer_full a)"

definition nrm_ringbuffer_clear :: "'a ut_ringbuffer option \<Rightarrow> int \<times> 'a ut_ringbuffer option" where
  "nrm_ringbuffer_clear rb =
     (case rb of None \<Rightarrow> (- NRM_EINVAL, None) | Some a \<Rightarrow> (0, Some (utringbuffer_clear a)))"


section \<open>Well-formed rings and the list they hold\<close>

definition ring_wf :: "'a ut_ringbuffer \<Rightarrow> bool" where
  "ring_wf a \<longleftrightarrow> 0 < rb_n a \<and> rb_n a < 2 ^ 32 \<and> rb_i a < rb_n a \<and> length (rb_d a) = rb_n a
     \<and> (\<forall>j < utringbuffer_len a. rb_d a ! j \<noteq> None)"

definition ring_list :: "'a ut_ringbuffer \<Rightarrow> 'a list" where
  "ring_list a =
     map the (if rb_f a then drop (rb_i a) (rb_d a) @ take (rb_i a) (rb_d a) else take (rb_i a) (rb_d a))"

definition keep_last :: "nat \<Rightarrow> 'a list \<Rightarrow> 'a list" where
  "keep_last n xs = drop (length xs - n) xs"

lemma length_keep_last [simp]: "length (keep_last n xs) = min n (length xs)"
  by (simp add: keep_last_def)

lemma keep_last_short [simp]: "length xs \<le> n \<Longrightarrow> keep_last n xs = xs"
  by (simp add: keep_last_def)

lemma keep_last_snoc: "keep_last n (keep_last n xs @ [x]) = keep_last n (xs @ [x])"
  by (cases "length xs \<le> n") (auto simp: keep_last_def Suc_diff_le)

lemma keep_last_append: "keep_last n (keep_last n xs @ ys) = keep_last n (xs @ ys)"
proof (induction ys rule: rev_induct)
  case Nil
  show ?case by (simp add: keep_last_def)
next
  case (snoc y ys)
  have "keep_last n (keep_last n xs @ ys @ [y]) = keep_last n (keep_last n (keep_last n xs @ ys) @ [y])"
    using keep_last_snoc [of n "keep_last n xs @ ys" y] by simp
  also have "\<dots> = keep_last n (xs @ ys @ [y])" using snoc.IH keep_last_snoc [of n "xs @ ys" y] by simp
  finally show ?case .
qed

lemma length_ring_list: "ring_wf a \<Longrightarrow> length (ring_list a) = utringbuffer_len a"
  by (auto simp: ring_wf_def ring_list_def utringbuffer_len_def)

lemma ring_list_nth:
  assumes wf: "ring_wf a" and j: "j < utringbuffer_len a"
  shows "ring_read a (utringbuffer_real_idx a j) = Inr (ring_list a ! j)"
proof (cases "rb_f a")
  case False
  then show ?thesis using wf j
    by (auto simp: ring_read_def utringbuffer_real_idx_def ring_list_def ring_wf_def utringbuffer_len_def derefE_def
        split: option.splits)
next
  case True
  let ?p = "(j + rb_i a) mod rb_n a"
  have p: "?p < rb_n a" using wf by (simp add: ring_wf_def)
  have jn: "j < rb_n a" "rb_i a < rb_n a" "length (rb_d a) = rb_n a"
    using True j wf by (simp_all add: utringbuffer_len_def ring_wf_def)
  have "?p = (if j + rb_i a < rb_n a then j + rb_i a else j + rb_i a - rb_n a)"
    using jn by (simp add: mod_if)
  then have "(drop (rb_i a) (rb_d a) @ take (rb_i a) (rb_d a)) ! j = rb_d a ! ?p"
    using jn by (auto simp: nth_append add.commute)
  moreover have "rb_d a ! ?p \<noteq> None" using wf True p by (simp add: ring_wf_def utringbuffer_len_def)
  ultimately show ?thesis
    using True jn p
    by (auto simp: ring_read_def utringbuffer_real_idx_def ring_list_def simp del: map_append)
qed

locale bounded_log =
  fixes invar :: "'r \<Rightarrow> bool"
    and contents :: "'r \<Rightarrow> 'a list"
    and capacity :: "'r \<Rightarrow> nat"
    and push :: "'a \<Rightarrow> 'r \<Rightarrow> 'r exec"
  assumes push_keeps: "invar r \<Longrightarrow>
      \<exists>r'. push x r = Inr r' \<and> invar r' \<and> capacity r' = capacity r
        \<and> contents r' = keep_last (capacity r) (contents r @ [x])"
begin

lemma push_all_keeps:
  "invar r \<Longrightarrow> contents r = keep_last (capacity r) ys \<Longrightarrow>
     \<exists>r'. foldE push xs r = Inr r' \<and> invar r' \<and> capacity r' = capacity r
       \<and> contents r' = keep_last (capacity r) (ys @ xs)"
proof (induction xs arbitrary: r ys)
  case Nil
  then show ?case by simp
next
  case (Cons x xs)
  from push_keeps [OF Cons.prems(1), of x] obtain r1 where r1: "push x r = Inr r1" "invar r1"
    "capacity r1 = capacity r" "contents r1 = keep_last (capacity r) (contents r @ [x])" by auto
  have "contents r1 = keep_last (capacity r1) (ys @ [x])"
    using r1 Cons.prems(2) by (simp add: keep_last_append)
  from Cons.IH [OF r1(2) this] r1 show ?case by auto
qed

end

lemma utringbuffer_push_back_ok:
  assumes wf: "ring_wf a"
  obtains a' where "utringbuffer_push_back x a = Inr a'" and "ring_wf a'" and "rb_n a' = rb_n a"
    and "ring_list a' = keep_last (rb_n a) (ring_list a @ [x])"
proof -
  let ?d = "(rb_d a)[rb_i a := Some x]"
  let ?a = "if rb_i a + 1 = rb_n a then a\<lparr>rb_d := ?d, rb_i := 0, rb_f := True\<rparr>
            else a\<lparr>rb_d := ?d, rb_i := rb_i a + 1\<rparr>"
  have i: "rb_i a < rb_n a" "length (rb_d a) = rb_n a" "rb_n a < 2 ^ 32" "0 < rb_n a"
    using wf by (simp_all add: ring_wf_def)
  have eq: "utringbuffer_push_back x a = Inr ?a"
    using i by (simp add: utringbuffer_push_back_def Let_def)
  have old: "rb_d a ! j \<noteq> None" if "j < utringbuffer_len a" for j
    using that wf by (simp add: ring_wf_def)
  have wf': "ring_wf ?a"
    using i old by (auto simp: ring_wf_def utringbuffer_len_def nth_list_update less_Suc_eq split: if_splits)
  have len: "length (ring_list a) = utringbuffer_len a" by (rule length_ring_list [OF wf])
  have "ring_list ?a = keep_last (rb_n a) (ring_list a @ [x])"
  proof (cases "rb_f a")
    case False
    have "length (ring_list a @ [x]) \<le> rb_n a" using False i len by (simp add: utringbuffer_len_def)
    moreover have "ring_list ?a = ring_list a @ [x]"
      using False i by (auto simp: ring_list_def upd_conv_take_nth_drop)
    ultimately show ?thesis by simp
  next
    case True
    let ?i = "rb_i a" and ?ds = "rb_d a"
    have split: "?ds = take ?i ?ds @ ?ds ! ?i # drop (Suc ?i) ?ds"
      using i by (simp add: id_take_nth_drop)
    have dr: "drop ?i ?ds = ?ds ! ?i # drop (Suc ?i) ?ds" using i by (simp add: Cons_nth_drop_Suc)
    have "keep_last (rb_n a) (ring_list a @ [x]) = tl (ring_list a) @ [x]"
      using True i len by (simp add: keep_last_def utringbuffer_len_def drop_Suc)
    also have "\<dots> = map the (drop (Suc ?i) ?ds @ take ?i ?ds @ [Some x])"
      using True by (simp add: ring_list_def dr)
    also have "\<dots> = ring_list ?a"
      using True i by (auto simp: ring_list_def upd_conv_take_nth_drop)
    finally show ?thesis by simp
  qed
  then show ?thesis using that [of ?a] eq wf' by auto
qed

definition ring_push :: "'a \<Rightarrow> 'a ut_ringbuffer \<Rightarrow> 'a ut_ringbuffer exec" where
  "ring_push x a = bindE (nrm_ringbuffer_push_back (Some a) (Some x)) (\<lambda>(_, r). derefE r)"

interpretation ring: bounded_log ring_wf ring_list rb_n ring_push
proof unfold_locales
  fix r :: "'a ut_ringbuffer" and x
  assume wf: "ring_wf r"
  obtain r' where "utringbuffer_push_back x r = Inr r'" "ring_wf r'" "rb_n r' = rb_n r"
      "ring_list r' = keep_last (rb_n r) (ring_list r @ [x])"
    by (rule utringbuffer_push_back_ok [OF wf])
  then show "\<exists>r'. ring_push x r = Inr r' \<and> ring_wf r' \<and> rb_n r' = rb_n r
      \<and> ring_list r' = keep_last (rb_n r) (ring_list r @ [x])"
    by (simp add: ring_push_def nrm_ringbuffer_push_back_def)
qed

lemma utringbuffer_init_ok:
  "0 < sz \<Longrightarrow> sz < 2 ^ 32 \<Longrightarrow>
     ring_wf (utringbuffer_init sz) \<and> ring_list (utringbuffer_init sz) = [] \<and> rb_n (utringbuffer_init sz) = sz"
  by (simp add: utringbuffer_init_def ring_wf_def ring_list_def utringbuffer_len_def Let_def)


section \<open>Properties\<close>

text \<open>
  C37. A ring buffer created with a non-zero 32-bit size and then given any sequence of pushes
  holds exactly the last \<open>sz\<close> elements pushed, oldest first: every push succeeds,
  \<open>nrm_ringbuffer_length\<close> is the number kept, \<open>nrm_ringbuffer_get\<close> at each position
  below it points at the corresponding element and beyond it returns \<open>-NRM_EDOM\<close>, and
  \<open>nrm_ringbuffer_isfull\<close> tells whether \<open>sz\<close> elements were pushed.
\<close>

theorem nrm_ringbuffer_keeps_last:
  assumes "0 < sz" and "sz < 2 ^ 32" and "0 < element_size"
  shows "\<exists>r r'. nrm_ringbuffer_create True True sz element_size = (NRM_SUCCESS, Some r)
     \<and> foldE ring_push xs r = Inr r'
     \<and> nrm_ringbuffer_length (Some r') True = (NRM_SUCCESS, Some (min sz (length xs)))
     \<and> (\<forall>j < min sz (length xs). \<exists>p. nrm_ringbuffer_get (Some r') j True = (NRM_SUCCESS, Some p)
          \<and> ring_read r' p = Inr (keep_last sz xs ! j))
     \<and> (\<forall>j \<ge> min sz (length xs). nrm_ringbuffer_get (Some r') j True = (- NRM_EDOM, None))
     \<and> (nrm_ringbuffer_isfull (Some r') \<longleftrightarrow> sz \<le> length xs)"
proof -
  let ?r = "utringbuffer_init sz :: 'a ut_ringbuffer"
  have init: "ring_wf ?r" "ring_list ?r = []" "rb_n ?r = sz"
    using utringbuffer_init_ok [OF assms(1,2)] by auto
  obtain r' where r': "foldE ring_push xs ?r = Inr r'" "ring_wf r'" "ring_list r' = keep_last sz xs" "rb_n r' = sz"
    using ring.push_all_keeps [OF init(1), of "[]" xs] init by auto
  have len: "utringbuffer_len r' = min sz (length xs)"
    using length_ring_list [OF r'(2)] r'(3) by simp
  have "\<exists>p. nrm_ringbuffer_get (Some r') j True = (NRM_SUCCESS, Some p)
          \<and> ring_read r' p = Inr (keep_last sz xs ! j)" if "j < min sz (length xs)" for j
    using that ring_list_nth [OF r'(2), of j] r'(3) len
    by (simp add: nrm_ringbuffer_get_def utringbuffer_eltptr_def)
  moreover have "nrm_ringbuffer_get (Some r') j True = (- NRM_EDOM, None)" if "min sz (length xs) \<le> j" for j
    using that len by (auto simp: nrm_ringbuffer_get_def utringbuffer_eltptr_def)
  moreover have "nrm_ringbuffer_isfull (Some r') \<longleftrightarrow> sz \<le> length xs"
    using len r'(2,4) by (auto simp: nrm_ringbuffer_isfull_def utringbuffer_full_def utringbuffer_len_def ring_wf_def
        split: if_splits)
  ultimately show ?thesis
    using r'(1) assms len by (auto simp: nrm_ringbuffer_create_def nrm_ringbuffer_length_def)
qed

theorem nrm_ringbuffer_keeps_last_witness:
  "\<exists>r r'. nrm_ringbuffer_create True True 2 8 = (NRM_SUCCESS, Some r)
     \<and> foldE ring_push [1, 2, 3 :: nat] r = Inr r'
     \<and> nrm_ringbuffer_length (Some r') True = (NRM_SUCCESS, Some 2)"
  using nrm_ringbuffer_keeps_last [of 2 8 "[1, 2, 3 :: nat]"] by auto

end
