(* ===== verification/NRM_Hash.thy ===== *)
theory NRM_Hash
  imports NRM_Prelude
begin

text \<open>
  The hash tables of src/utils/hashes.c, which map the bytes of a uuid to a pointer.

  uthash keeps its elements in a doubly linked list in insertion order beside the buckets; the model
  is that list.  A NULL table is the empty one: the first \<open>HASH_ADD_KEYPTR\<close> creates the table and
  the last \<open>HASH_DEL\<close> sets the head back to NULL.  \<open>HASH_FIND\<close> compares the key bytes and
  their length.  Keys are the contents of the uuid strings, values what the \<open>void *\<close> points to.

  The contract \<open>keyed_store\<close> is what the other components rely on (lookup after insertion,
  duplicates refused, iteration in insertion order); it is interpreted on the operations here.
\<close>

type_synonym 'v nrm_hash = "(string \<times> 'v) list"
type_synonym 'v hash_iter = "(string \<times> 'v) list"


section \<open>uthash\<close>

definition HASH_FIND :: "'v nrm_hash \<Rightarrow> string \<Rightarrow> (string \<times> 'v) option" where
  "HASH_FIND head key = find (\<lambda>e. fst e = key) head"

definition HASH_ADD_KEYPTR :: "'v nrm_hash \<Rightarrow> string \<Rightarrow> 'v \<Rightarrow> 'v nrm_hash" where
  "HASH_ADD_KEYPTR head key v = head @ [(key, v)]"

definition HASH_DEL :: "'v nrm_hash \<Rightarrow> string \<Rightarrow> 'v nrm_hash" where
  "HASH_DEL head key = alist_delete key head"

definition HASH_COUNT :: "'v nrm_hash \<Rightarrow> nat" where
  "HASH_COUNT head = length head"


section \<open>Operations\<close>

text \<open>A new element has neither a key nor a value.\<close>

definition nrm_hash_create_element :: "bool \<Rightarrow> int \<times> (string option \<times> 'v option) option" where
  "nrm_hash_create_element malloc_ok = (if \<not> malloc_ok then (- NRM_ENOMEM, None) else (NRM_SUCCESS, Some (None, None)))"

declare nrm_hash_create_element_def [simp]

definition nrm_hash_add :: "bool \<Rightarrow> 'v nrm_hash \<Rightarrow> string \<Rightarrow> 'v \<Rightarrow> int \<times> 'v nrm_hash" where
  "nrm_hash_add malloc_ok hash_table uuid ptr =
     (case HASH_FIND hash_table uuid of
        Some _ \<Rightarrow> (- NRM_FAILURE, hash_table)
      | None \<Rightarrow>
          (case nrm_hash_create_element malloc_ok :: int \<times> (string option \<times> 'v option) option of
             (err, None) \<Rightarrow> (err, hash_table)
           | (err, Some _) \<Rightarrow> (NRM_SUCCESS, HASH_ADD_KEYPTR hash_table uuid ptr)))"

text \<open>
  \<open>nrm_hash_remove\<close> looks up \<open>&uuid\<close>, the address of its own parameter, for the length of
  the uuid: the key bytes are those of the pointer variable and the memory behind it, \<open>raw\<close>.  The
  second result is the value stored to \<open>*ptr\<close>: \<open>Some ()\<close> is the address of an element that
  was freed, never what the element held.
\<close>

definition nrm_hash_remove ::
  "string \<Rightarrow> 'v nrm_hash \<Rightarrow> string option \<Rightarrow> int \<times> unit option option \<times> 'v nrm_hash" where
  "nrm_hash_remove raw hash_table uuid =
     (case uuid of
        None \<Rightarrow> (- NRM_EINVAL, None, hash_table)
      | Some u \<Rightarrow>
          if hash_table = [] then (- NRM_EINVAL, None, hash_table)
          else (case HASH_FIND hash_table (take (length u) raw) of
                  None \<Rightarrow> (NRM_SUCCESS, Some None, hash_table)
                | Some (k, _) \<Rightarrow> (NRM_SUCCESS, Some (Some ()), HASH_DEL hash_table k)))"

fun hash_del_all :: "'v hash_iter \<Rightarrow> 'v nrm_hash \<Rightarrow> 'v nrm_hash" where
  "hash_del_all [] head = head"
| "hash_del_all ((k, _) # it) head = hash_del_all it (HASH_DEL head k)"

definition nrm_hash_destroy :: "'v nrm_hash option \<Rightarrow> 'v nrm_hash option" where
  "nrm_hash_destroy hash_table =
     (case hash_table of
        None \<Rightarrow> None
      | Some h \<Rightarrow> (let h' = hash_del_all h h in Some []))"

definition nrm_hash_find :: "'v nrm_hash \<Rightarrow> string option \<Rightarrow> bool \<Rightarrow> int \<times> 'v option" where
  "nrm_hash_find hash_table uuid ptr_nonnull =
     (case uuid of
        None \<Rightarrow> (- NRM_EINVAL, None)
      | Some u \<Rightarrow>
          if hash_table = [] \<or> \<not> ptr_nonnull then (- NRM_EINVAL, None)
          else (case HASH_FIND hash_table u of
                  None \<Rightarrow> (- NRM_ENOTFOUND, None)
                | Some (_, v) \<Rightarrow> (NRM_SUCCESS, Some v)))"

definition nrm_hash_size :: "'v nrm_hash \<Rightarrow> int \<times> nat option" where
  "nrm_hash_size hash_table =
     (if hash_table = [] then (- NRM_EINVAL, None)
      else (NRM_SUCCESS, Some (HASH_COUNT hash_table)))"

text \<open>An iterator is the element it points at and those after it; NULL is the empty list.\<close>

definition nrm_hash_iterator_begin :: "'v nrm_hash \<Rightarrow> 'v hash_iter" where
  "nrm_hash_iterator_begin hash_table = hash_table"

definition nrm_hash_iterator_next :: "'v hash_iter \<Rightarrow> 'v hash_iter exec" where
  "nrm_hash_iterator_next iterator = (case iterator of [] \<Rightarrow> Inl NullDeref | _ # it \<Rightarrow> Inr it)"

definition nrm_hash_iterator_get :: "'v hash_iter \<Rightarrow> 'v option" where
  "nrm_hash_iterator_get iterator = (case iterator of [] \<Rightarrow> None | (_, v) # _ \<Rightarrow> Some v)"

definition nrm_hash_iterator_get_uuid :: "'v hash_iter \<Rightarrow> string option" where
  "nrm_hash_iterator_get_uuid iterator = (case iterator of [] \<Rightarrow> None | (k, _) # _ \<Rightarrow> Some k)"

text \<open>
  The \<open>nrm_hash_foreach\<close> macro: the body sees the iterator, the loop stops when it is NULL.
  \<open>fuel\<close> bounds the number of turns.
\<close>

fun nrm_hash_foreach ::
  "nat \<Rightarrow> ('v hash_iter \<Rightarrow> 's \<Rightarrow> 's exec) \<Rightarrow> 'v hash_iter \<Rightarrow> 's \<Rightarrow> 's exec" where
  "nrm_hash_foreach fuel body iter s =
     (if iter = [] then Inr s
      else case fuel of
             0 \<Rightarrow> Inl Diverges
           | Suc n \<Rightarrow>
               bindE (body iter s) (\<lambda>s.
               bindE (nrm_hash_iterator_next iter) (\<lambda>it. nrm_hash_foreach n body it s)))"

declare nrm_hash_foreach.simps [simp del]


section \<open>The contract of a keyed store\<close>

definition hash_wf :: "'v nrm_hash \<Rightarrow> bool" where
  "hash_wf h \<longleftrightarrow> distinct (map fst h)"

lemma hash_wf_Nil [simp]: "hash_wf []"
  by (simp add: hash_wf_def)

lemma HASH_FIND_map_of: "HASH_FIND h k = map_option (\<lambda>v. (k, v)) (map_of h k)"
  by (induction h) (auto simp: HASH_FIND_def)

lemma nrm_hash_find_map_of:
  "nrm_hash_find h (Some u) True =
     (if h = [] then (- NRM_EINVAL, None)
      else case map_of h u of None \<Rightarrow> (- NRM_ENOTFOUND, None) | Some v \<Rightarrow> (NRM_SUCCESS, Some v))"
  by (auto simp: nrm_hash_find_def HASH_FIND_map_of split: option.splits)

lemma snd_nrm_hash_find: "snd (nrm_hash_find h (Some u) True) = map_of h u"
  by (auto simp: nrm_hash_find_map_of split: option.splits)

lemma nrm_hash_add_map_of:
  "nrm_hash_add True h u v =
     (if map_of h u = None then (NRM_SUCCESS, h @ [(u, v)]) else (- NRM_FAILURE, h))"
  by (auto simp: nrm_hash_add_def HASH_FIND_map_of HASH_ADD_KEYPTR_def split: option.splits)

lemma hash_wf_add: "hash_wf h \<Longrightarrow> hash_wf (snd (nrm_hash_add ok h u v))"
  by (auto simp: nrm_hash_add_def HASH_ADD_KEYPTR_def HASH_FIND_map_of hash_wf_def map_of_eq_None_iff
      split: option.splits)

lemma hash_wf_remove: "hash_wf h \<Longrightarrow> hash_wf (snd (snd (nrm_hash_remove raw h u)))"
  by (auto simp: nrm_hash_remove_def HASH_DEL_def hash_wf_def alist_simps split: option.splits)

lemma hash_del_all_empty: "hash_del_all h h = []"
  by (induction h) (auto simp: HASH_DEL_def)

lemma nrm_hash_foreach_all:
  "length it \<le> fuel \<Longrightarrow>
     nrm_hash_foreach fuel (\<lambda>i s. bindE (derefE (nrm_hash_iterator_get i)) (\<lambda>v. f v s)) it s
       = foldE f (map snd it) s"
proof (induction it arbitrary: fuel s)
  case Nil
  then show ?case by (simp add: nrm_hash_foreach.simps)
next
  case (Cons e it)
  then obtain n where "fuel = Suc n" by (cases fuel) auto
  with Cons show ?case
    by (cases e; cases "f (snd e) s")
      (simp_all add: nrm_hash_foreach.simps [of "Suc n"] nrm_hash_iterator_get_def nrm_hash_iterator_next_def)
qed

locale keyed_store =
  fixes invar :: "'t \<Rightarrow> bool"
    and entries :: "'t \<Rightarrow> (string \<times> 'v) list"
    and empty :: 't
    and add :: "'t \<Rightarrow> string \<Rightarrow> 'v \<Rightarrow> int \<times> 't"
    and lookup :: "'t \<Rightarrow> string \<Rightarrow> 'v option"
  assumes empty_invar: "invar empty" and empty_entries: "entries empty = []"
    and invar_distinct: "invar t \<Longrightarrow> distinct (map fst (entries t))"
    and add_invar: "invar t \<Longrightarrow> invar (snd (add t k v))"
    and add_fresh: "invar t \<Longrightarrow> lookup t k = None \<Longrightarrow>
      fst (add t k v) = NRM_SUCCESS \<and> entries (snd (add t k v)) = entries t @ [(k, v)]"
    and add_present: "invar t \<Longrightarrow> lookup t k \<noteq> None \<Longrightarrow> add t k v = (- NRM_FAILURE, t)"
    and lookup_entries: "invar t \<Longrightarrow> lookup t k = map_of (entries t) k"
begin

lemma lookup_add:
  assumes "invar t"
  shows "lookup (snd (add t k v)) k' =
    (if k' = k \<and> lookup t k = None then Some v else lookup t k')"
proof (cases "lookup t k")
  case None
  then have "entries (snd (add t k v)) = entries t @ [(k, v)]" using add_fresh assms by blast
  then show ?thesis
    using None assms by (auto simp: lookup_entries add_invar map_of_append_fresh simp del: map_of_append)
next
  case (Some w)
  then show ?thesis using add_present [OF assms, of k v] by auto
qed

lemma add_all:
  assumes "invar t" and "distinct (map fst (entries t @ kvs))"
  shows "invar (foldl (\<lambda>t (k, v). snd (add t k v)) t kvs)
     \<and> entries (foldl (\<lambda>t (k, v). snd (add t k v)) t kvs) = entries t @ kvs"
  using assms
proof (induction kvs arbitrary: t)
  case Nil
  then show ?case by simp
next
  case (Cons p kvs)
  obtain k v where p: "p = (k, v)" by (cases p)
  have "lookup t k = None"
    using Cons.prems p by (auto simp: lookup_entries map_of_eq_None_iff)
  with Cons.prems p have e: "entries (snd (add t k v)) = entries t @ [(k, v)]" "invar (snd (add t k v))"
    using add_fresh add_invar by blast+
  with Cons.IH [of "snd (add t k v)"] Cons.prems p show ?case by simp
qed

lemma first_add_wins:
  "invar t \<Longrightarrow> lookup t k = None \<Longrightarrow>
     lookup (snd (add (snd (add t k v)) k w)) k = Some v"
  by (simp add: lookup_add add_invar)

end

interpretation hs: keyed_store hash_wf "\<lambda>h. h" "[]" "nrm_hash_add True" "\<lambda>h u. snd (nrm_hash_find h (Some u) True)"
proof unfold_locales
  show "hash_wf (snd (nrm_hash_add True t k v))" if "hash_wf t" for t k and v :: 'a
    by (rule hash_wf_add [OF that])
qed (simp_all add: snd_nrm_hash_find nrm_hash_add_map_of hash_wf_def)


section \<open>Properties\<close>

text \<open>
  A table that starts NULL and receives any sequence of additions under distinct uuids holds
  them all: \<open>nrm_hash_find\<close> returns each pointer under its uuid and \<open>-NRM_ENOTFOUND\<close> for
  any other, \<open>nrm_hash_size\<close> is their number, the iteration visits the pointers in the order of
  insertion, and one more addition under a uuid that is present returns \<open>-NRM_FAILURE\<close> and
  changes nothing.
\<close>

theorem nrm_hash_holds_additions:
  assumes dist: "distinct (map fst kvs)" and ne: "kvs \<noteq> []"
  shows "let h = foldl (\<lambda>t (k, v). snd (nrm_hash_add True t k v)) [] kvs in
     (\<forall>(k, v) \<in> set kvs. nrm_hash_find h (Some k) True = (NRM_SUCCESS, Some v)
        \<and> nrm_hash_add True h k w = (- NRM_FAILURE, h))
   \<and> (\<forall>k. k \<notin> fst ` set kvs \<longrightarrow> nrm_hash_find h (Some k) True = (- NRM_ENOTFOUND, None))
   \<and> nrm_hash_size h = (NRM_SUCCESS, Some (length kvs))
   \<and> nrm_hash_foreach (length kvs) (\<lambda>i s. bindE (derefE (nrm_hash_iterator_get i)) (\<lambda>v. Inr (s @ [v])))
       (nrm_hash_iterator_begin h) [] = Inr (map snd kvs)"
proof -
  have "foldl (\<lambda>t (k, v). snd (nrm_hash_add True t k v)) [] kvs = kvs"
    using hs.add_all [of "[]" kvs] dist by simp
  moreover have "foldE (\<lambda>v s. Inr (s @ [v])) vs s = Inr (s @ vs)" for vs s :: "'a list"
    by (induction vs arbitrary: s) simp_all
  moreover have "nrm_hash_find kvs (Some k) True = (NRM_SUCCESS, Some v)
      \<and> nrm_hash_add True kvs k w = (- NRM_FAILURE, kvs)" if "(k, v) \<in> set kvs" for k v
    using that dist ne map_of_is_SomeI [OF dist that] by (simp add: nrm_hash_find_map_of nrm_hash_add_map_of)
  moreover have "nrm_hash_find kvs (Some k) True = (- NRM_ENOTFOUND, None)" if "k \<notin> fst ` set kvs" for k
  proof -
    have "map_of kvs k = None" using that by (simp add: map_of_eq_None_iff)
    then show ?thesis using ne by (simp add: nrm_hash_find_map_of)
  qed
  ultimately show ?thesis
    using ne nrm_hash_foreach_all [of kvs "length kvs" "\<lambda>v s. Inr (s @ [v])" "[]"]
    by (auto simp: nrm_hash_size_def HASH_COUNT_def nrm_hash_iterator_begin_def)
qed

theorem nrm_hash_holds_additions_witness:
  "let h = foldl (\<lambda>t (k, v). snd (nrm_hash_add True t k v)) [] [(''b'', 1 :: nat), (''a'', 2)] in
   nrm_hash_find h (Some ''a'') True = (NRM_SUCCESS, Some 2)
   \<and> nrm_hash_size h = (NRM_SUCCESS, Some 2)"
  using nrm_hash_holds_additions [of "[(''b'', 1 :: nat), (''a'', 2)]" 0] by (simp add: Let_def)

text \<open>
  \<open>nrm_hash_remove\<close> does not remove the element under the uuid it is given: unless the bytes
  of its own pointer variable happen to spell a key of the table, it reports success, stores NULL to
  \<open>*ptr\<close> and leaves the table as it was, so the element can still be found.
\<close>

theorem nrm_hash_remove_keeps:
  assumes "hash_wf h" and "map_of h u = Some v" and "take (length u) raw \<notin> fst ` set h"
  shows "nrm_hash_remove raw h (Some u) = (NRM_SUCCESS, Some None, h)
     \<and> nrm_hash_find h (Some u) True = (NRM_SUCCESS, Some v)"
proof -
  have "h \<noteq> []" using assms(2) by auto
  moreover have "map_of h (take (length u) raw) = None" using assms(3) by (simp add: map_of_eq_None_iff)
  ultimately show ?thesis using assms(2)
    by (simp add: nrm_hash_remove_def HASH_FIND_map_of nrm_hash_find_map_of)
qed

theorem nrm_hash_remove_keeps_witness:
  "nrm_hash_remove [char_of (0 :: nat), char_of (1 :: nat)] [(''a'', 1 :: nat)] (Some ''a'')
     = (NRM_SUCCESS, Some None, [(''a'', 1)])"
proof -
  have "take 1 [char_of (0 :: nat), char_of (1 :: nat)] \<notin> fst ` set [(''a'', 1 :: nat)]" by code_simp
  then show ?thesis
    using nrm_hash_remove_keeps [of "[(''a'', 1 :: nat)]" "''a''" 1 "[char_of (0 :: nat), char_of (1 :: nat)]"]
    by (simp add: hash_wf_def)
qed

end
