(* ===== verification/NRM_Uthash.thy ===== *)
theory NRM_Uthash
  imports NRM_Hash "HOL-Library.Word"
begin

unbundle bit_operations_syntax

text \<open>
  The hash table under src/utils/hashes.c: the uthash macros of include/internal/uthash.h that it uses,
  with buckets, the hash function and the doubling of the bucket array.

  A table is the array of buckets, the counters of \<open>UT_hash_table\<close> (32-bit, they wrap) and the
  elements in application order; a NULL head is \<open>None\<close>.  A chain is the list of its elements from
  \<open>hh_head\<close> on.  Memory that cannot be had ends the process: \<open>uthash_fatal\<close> is \<open>exit(-1)\<close>.

  The theorems show that the macros implement the insertion-ordered list of NRM_Hash.
\<close>

record 'v ut_hash_handle =
  hh_key :: string
  hh_keylen :: "32 word"
  hh_hashv :: "32 word"
  hh_elmt :: 'v

record 'v ut_hash_bucket =
  bk_chain :: "'v ut_hash_handle list"
  bk_count :: "32 word"
  bk_expand_mult :: "32 word"

record 'v ut_hash_table =
  tb_buckets :: "'v ut_hash_bucket list"
  tb_num_buckets :: "32 word"
  tb_log2_num_buckets :: "32 word"
  tb_num_items :: "32 word"
  tb_ideal_chain_maxlen :: "32 word"
  tb_nonideal_items :: "32 word"
  tb_ineff_expands :: "32 word"
  tb_noexpand :: bool
  tb_order :: "'v ut_hash_handle list"


section \<open>The hash function\<close>

text \<open>
  The nine lines of the mixing macro are three rounds of the same three statements with other shifts: subtract
  the two other words, then exclude-or the shift of the word that follows.
\<close>

type_synonym jen_state = "32 word \<times> 32 word \<times> 32 word"

fun jen_a :: "nat \<Rightarrow> jen_state \<Rightarrow> jen_state" where
  "jen_a s (a, b, c) = ((a - b - c) XOR drop_bit s c, b, c)"

fun jen_b :: "nat \<Rightarrow> jen_state \<Rightarrow> jen_state" where
  "jen_b s (a, b, c) = (a, (b - c - a) XOR push_bit s a, c)"

fun jen_c :: "nat \<Rightarrow> jen_state \<Rightarrow> jen_state" where
  "jen_c s (a, b, c) = (a, b, (c - a - b) XOR drop_bit s b)"

definition HASH_JEN_MIX :: "jen_state \<Rightarrow> jen_state" where
  "HASH_JEN_MIX st = jen_c 15 (jen_b 10 (jen_a 3 (jen_c 5 (jen_b 16 (jen_a 12 (jen_c 13 (jen_b 8 (jen_a 13 st))))))))"

text \<open>The byte \<open>i\<close> of the key shifted by \<open>s\<close> bits; beyond the end the \<open>switch\<close> adds nothing.\<close>

definition jen_byte :: "string \<Rightarrow> nat \<Rightarrow> nat \<Rightarrow> 32 word" where
  "jen_byte key i s = (if i < length key then push_bit s (of_nat (of_char (key ! i))) else 0)"

definition jen_word :: "string \<Rightarrow> nat \<Rightarrow> 32 word" where
  "jen_word key i = jen_byte key i 0 + jen_byte key (i + 1) 8 + jen_byte key (i + 2) 16 + jen_byte key (i + 3) 24"

fun jen_add :: "string \<Rightarrow> jen_state \<Rightarrow> jen_state" where
  "jen_add key (i, j, h) = (i + jen_word key 0, j + jen_word key 4, h + jen_word key 8)"

fun jen_loop :: "string \<Rightarrow> jen_state \<Rightarrow> string \<times> jen_state" where
  "jen_loop key st =
     (if length key \<ge> 12 then jen_loop (drop 12 key) (HASH_JEN_MIX (jen_add key st)) else (key, st))"

declare jen_loop.simps [simp del]

text \<open>
  The tail of at most 11 bytes: bytes 0 to 3 go to the first word, 4 to 7 to the second, 8 to 10, shifted
  by one byte more, to the hash value, to which the length was added.
\<close>

fun jen_tail :: "nat \<Rightarrow> string \<times> jen_state \<Rightarrow> jen_state" where
  "jen_tail len (rest, i, j, h) =
     (i + jen_word rest 0, j + jen_word rest 4,
      h + of_nat len + jen_byte rest 8 8 + jen_byte rest 9 16 + jen_byte rest 10 24)"

definition HASH_JEN :: "string \<Rightarrow> 32 word" where
  "HASH_JEN key =
     snd (snd (HASH_JEN_MIX (jen_tail (length key)
       (jen_loop (take (unat (of_nat (length key) :: 32 word)) key) (0x9e3779b9, 0x9e3779b9, 0xfeedbeef)))))"


section \<open>Buckets\<close>

definition HASH_TO_BKT :: "32 word \<Rightarrow> 32 word \<Rightarrow> nat" where
  "HASH_TO_BKT hashv num_bkts = unat (hashv AND (num_bkts - 1))"

definition empty_bucket :: "'v ut_hash_bucket" where
  "empty_bucket = \<lparr>bk_chain = [], bk_count = 0, bk_expand_mult = 0\<rparr>"

text \<open>\<open>memcmp\<close> of the element's key bytes with the key looked for, when the lengths agree.\<close>

definition HASH_FIND_IN_BKT :: "'v ut_hash_bucket \<Rightarrow> string \<Rightarrow> 32 word \<Rightarrow> 'v ut_hash_handle option" where
  "HASH_FIND_IN_BKT b key hashval =
     find (\<lambda>e. hh_hashv e = hashval \<and> unat (hh_keylen e) = length key \<and> take (length key) (hh_key e) = key) (bk_chain b)"

definition UT_HASH_FIND :: "'v ut_hash_table option \<Rightarrow> string \<Rightarrow> 'v ut_hash_handle option exec" where
  "UT_HASH_FIND head key =
     (case head of
        None \<Rightarrow> Inr None
      | Some t \<Rightarrow>
          (let bkt = HASH_TO_BKT (HASH_JEN key) (tb_num_buckets t) in
           if bkt < length (tb_buckets t)
           then Inr (HASH_FIND_IN_BKT (tb_buckets t ! bkt) key (HASH_JEN key))
           else Inl OutOfBounds))"

definition sizeof_ut_hash_table :: nat where "sizeof_ut_hash_table = 64"
definition sizeof_ut_hash_bucket :: nat where "sizeof_ut_hash_bucket = 16"
definition HASH_INITIAL_NUM_BUCKETS :: nat where "HASH_INITIAL_NUM_BUCKETS = 32"
definition HASH_INITIAL_NUM_BUCKETS_LOG2 :: nat where "HASH_INITIAL_NUM_BUCKETS_LOG2 = 5"
definition HASH_BKT_CAPACITY_THRESH :: "32 word" where "HASH_BKT_CAPACITY_THRESH = 10"

definition HASH_MAKE_TABLE :: "(nat \<Rightarrow> bool) \<Rightarrow> 'v ut_hash_handle \<Rightarrow> 'v ut_hash_table exec" where
  "HASH_MAKE_TABLE alloc e =
     (if \<not> alloc sizeof_ut_hash_table then Inl (Exits (-1))
      else if \<not> alloc (HASH_INITIAL_NUM_BUCKETS * sizeof_ut_hash_bucket) then Inl (Exits (-1))
      else Inr \<lparr>tb_buckets = replicate HASH_INITIAL_NUM_BUCKETS empty_bucket,
             tb_num_buckets = of_nat HASH_INITIAL_NUM_BUCKETS,
             tb_log2_num_buckets = of_nat HASH_INITIAL_NUM_BUCKETS_LOG2, tb_num_items = 0, tb_ideal_chain_maxlen = 0,
             tb_nonideal_items = 0, tb_ineff_expands = 0, tb_noexpand = False, tb_order = [e]\<rparr>)"

text \<open>
  Doubling the buckets: the elements of every old chain, from its head on, go to the front of their new
  chain.  \<open>expand_place\<close> is the body of the inner loop.
\<close>

definition expand_place ::
  "32 word \<Rightarrow> 32 word \<Rightarrow> 'v ut_hash_handle \<Rightarrow> 'v ut_hash_bucket list \<times> 32 word \<Rightarrow> ('v ut_hash_bucket list \<times> 32 word) exec" where
  "expand_place num_bkts ideal e = (\<lambda>(bs, nonideal).
     let i = HASH_TO_BKT (hh_hashv e) num_bkts in
     if i < length bs then
       let b = bs ! i;
           count = bk_count b + 1;
           over = ideal < count;
           mult = (if over \<and> bk_expand_mult b * ideal < count then bk_expand_mult b + 1 else bk_expand_mult b)
       in Inr (bs[i := \<lparr>bk_chain = e # bk_chain b, bk_count = count, bk_expand_mult = mult\<rparr>],
               if over then nonideal + 1 else nonideal)
     else Inl OutOfBounds)"

definition HASH_EXPAND_BUCKETS :: "(nat \<Rightarrow> bool) \<Rightarrow> 'v ut_hash_table \<Rightarrow> 'v ut_hash_table exec" where
  "HASH_EXPAND_BUCKETS alloc t =
     (if \<not> alloc (sizeof_ut_hash_bucket * unat (tb_num_buckets t) * 2) then Inl (Exits (-1))
      else
        let num = tb_num_buckets t * 2;
            ideal = drop_bit (unat (tb_log2_num_buckets t + 1)) (tb_num_items t)
                      + (if tb_num_items t AND (num - 1) \<noteq> 0 then 1 else 0)
        in bindE (foldE (expand_place num ideal)
                    (concat (map bk_chain (take (unat (tb_num_buckets t)) (tb_buckets t))))
                    (replicate (unat (tb_num_buckets t) * 2) empty_bucket, 0)) (\<lambda>(bs, nonideal).
           let ineff = (if drop_bit 1 (tb_num_items t) < nonideal then tb_ineff_expands t + 1 else 0)
           in Inr (t\<lparr>tb_buckets := bs, tb_num_buckets := num, tb_log2_num_buckets := tb_log2_num_buckets t + 1,
                tb_ideal_chain_maxlen := ideal, tb_nonideal_items := nonideal, tb_ineff_expands := ineff,
                tb_noexpand := (tb_noexpand t \<or> 1 < ineff)\<rparr>)))"

definition HASH_ADD_TO_BKT :: "(nat \<Rightarrow> bool) \<Rightarrow> nat \<Rightarrow> 'v ut_hash_handle \<Rightarrow> 'v ut_hash_table \<Rightarrow> 'v ut_hash_table exec" where
  "HASH_ADD_TO_BKT alloc bkt e t =
     (if bkt < length (tb_buckets t) then
        let b = tb_buckets t ! bkt;
            b = b\<lparr>bk_chain := e # bk_chain b, bk_count := bk_count b + 1\<rparr>;
            t = t\<lparr>tb_buckets := (tb_buckets t)[bkt := b]\<rparr>
        in if (bk_expand_mult b + 1) * HASH_BKT_CAPACITY_THRESH \<le> bk_count b \<and> \<not> tb_noexpand t
           then HASH_EXPAND_BUCKETS alloc t else Inr t
      else Inl OutOfBounds)"

definition HASH_ADD_TO_TABLE :: "(nat \<Rightarrow> bool) \<Rightarrow> 'v ut_hash_handle \<Rightarrow> 'v ut_hash_table \<Rightarrow> 'v ut_hash_table exec" where
  "HASH_ADD_TO_TABLE alloc e t =
     (let t = t\<lparr>tb_num_items := tb_num_items t + 1\<rparr>
      in HASH_ADD_TO_BKT alloc (HASH_TO_BKT (hh_hashv e) (tb_num_buckets t)) e t)"

definition UT_HASH_ADD_KEYPTR ::
  "(nat \<Rightarrow> bool) \<Rightarrow> 'v ut_hash_table option \<Rightarrow> string \<Rightarrow> 'v \<Rightarrow> 'v ut_hash_table option exec" where
  "UT_HASH_ADD_KEYPTR alloc head key v =
     (let e = \<lparr>hh_key = key, hh_keylen = of_nat (length key), hh_hashv = HASH_JEN key, hh_elmt = v\<rparr> in
      bindE (case head of
               None \<Rightarrow> HASH_MAKE_TABLE alloc e
             | Some t \<Rightarrow> Inr (t\<lparr>tb_order := tb_order t @ [e]\<rparr>)) (\<lambda>t.
      bindE (HASH_ADD_TO_TABLE alloc e t) (\<lambda>t. Inr (Some t))))"

definition HASH_DEL_IN_BKT :: "'v ut_hash_handle \<Rightarrow> 'v ut_hash_bucket \<Rightarrow> 'v ut_hash_bucket" where
  "HASH_DEL_IN_BKT e b = b\<lparr>bk_chain := remove1 e (bk_chain b), bk_count := bk_count b - 1\<rparr>"

text \<open>The last element frees the table: it is the one with neither a predecessor nor a successor.\<close>

definition HASH_DELETE_HH :: "'v ut_hash_table option \<Rightarrow> 'v ut_hash_handle \<Rightarrow> 'v ut_hash_table option exec" where
  "HASH_DELETE_HH head e =
     bindE (derefE head) (\<lambda>t.
     if tb_order t = [e] then Inr None
     else
       let i = HASH_TO_BKT (hh_hashv e) (tb_num_buckets t) in
       if i < length (tb_buckets t)
       then Inr (Some (t\<lparr>tb_order := remove1 e (tb_order t),
              tb_buckets := (tb_buckets t)[i := HASH_DEL_IN_BKT e (tb_buckets t ! i)],
              tb_num_items := tb_num_items t - 1\<rparr>))
       else Inl OutOfBounds)"

definition UT_HASH_COUNT :: "'v ut_hash_table option \<Rightarrow> 32 word" where
  "UT_HASH_COUNT head = (case head of None \<Rightarrow> 0 | Some t \<Rightarrow> tb_num_items t)"

definition HASH_CLEAR :: "'v ut_hash_table option \<Rightarrow> 'v ut_hash_table option" where
  "HASH_CLEAR head = None"

text \<open>\<open>HASH_ITER\<close>: the elements in the order of the loop, which fetches the successor before the body runs.\<close>

definition HASH_ITER :: "'v ut_hash_table option \<Rightarrow> 'v ut_hash_handle list" where
  "HASH_ITER head = (case head of None \<Rightarrow> [] | Some t \<Rightarrow> tb_order t)"

text \<open>
  The integrity check of debug builds: every bucket's count is the length of its chain, and both the chains
  together and the application order have \<open>num_items\<close> elements.  (Its checks of the back pointers have
  no counterpart on lists.)
\<close>

definition HASH_FSCK :: "'v ut_hash_table option \<Rightarrow> bool" where
  "HASH_FSCK head =
     (case head of
        None \<Rightarrow> True
      | Some t \<Rightarrow>
          list_all (\<lambda>b. bk_count b = of_nat (length (bk_chain b))) (take (unat (tb_num_buckets t)) (tb_buckets t))
          \<and> sum_list (map (\<lambda>b. of_nat (length (bk_chain b))) (take (unat (tb_num_buckets t)) (tb_buckets t))) = tb_num_items t
          \<and> of_nat (length (tb_order t)) = tb_num_items t)"


section \<open>The invariant\<close>

definition chains :: "'v ut_hash_bucket list \<Rightarrow> 'v ut_hash_handle list" where
  "chains bs = concat (map bk_chain bs)"

definition buckets_ok :: "nat \<Rightarrow> 'v ut_hash_bucket list \<Rightarrow> bool" where
  "buckets_ok k bs \<longleftrightarrow> length bs = 2 ^ k
     \<and> (\<forall>i < length bs. bk_count (bs ! i) = of_nat (length (bk_chain (bs ! i)))
          \<and> (\<forall>e \<in> set (bk_chain (bs ! i)). HASH_TO_BKT (hh_hashv e) (2 ^ k) = i))"

definition handle_ok :: "'v ut_hash_handle \<Rightarrow> bool" where
  "handle_ok e \<longleftrightarrow> length (hh_key e) < 2 ^ 32 \<and> hh_keylen e = of_nat (length (hh_key e)) \<and> hh_hashv e = HASH_JEN (hh_key e)"

definition items_ok :: "'v ut_hash_handle list \<Rightarrow> bool" where
  "items_ok es \<longleftrightarrow> distinct (map hh_key es) \<and> (\<forall>e \<in> set es. handle_ok e)"

definition table_ok :: "'v ut_hash_table \<Rightarrow> bool" where
  "table_ok t \<longleftrightarrow> (\<exists>k \<le> 31. tb_num_buckets t = 2 ^ k \<and> buckets_ok k (tb_buckets t))
     \<and> mset (chains (tb_buckets t)) = mset (tb_order t) \<and> items_ok (tb_order t)
     \<and> tb_num_items t = of_nat (length (tb_order t))"

definition ut_ok :: "'v ut_hash_table option \<Rightarrow> bool" where
  "ut_ok head = (case head of None \<Rightarrow> True | Some t \<Rightarrow> table_ok t \<and> tb_order t \<noteq> [])"

definition entry :: "'v ut_hash_handle \<Rightarrow> string \<times> 'v" where
  "entry e = (hh_key e, hh_elmt e)"

text \<open>The abstraction: the list of NRM_Hash.\<close>

definition ut_list :: "'v ut_hash_table option \<Rightarrow> 'v nrm_hash" where
  "ut_list head = map entry (HASH_ITER head)"


section \<open>Bucket arithmetic\<close>

lemma HASH_TO_BKT_mod: "k < 32 \<Longrightarrow> HASH_TO_BKT h (2 ^ k) = unat h mod 2 ^ k"
  by (simp add: HASH_TO_BKT_def mask_eq_exp_minus_1 [symmetric] take_bit_eq_mask [symmetric] unsigned_take_bit_eq)
    (simp add: take_bit_eq_mod)

lemma HASH_TO_BKT_less: "k < 32 \<Longrightarrow> HASH_TO_BKT h (2 ^ k) < 2 ^ k"
  by (simp add: HASH_TO_BKT_mod)

lemma unat_pow2: "k < 32 \<Longrightarrow> unat (2 ^ k :: 32 word) = 2 ^ k"
proof -
  assume "k < 32"
  then have "(2 :: nat) ^ k < 2 ^ 32" by (intro power_strict_increasing) simp_all
  then have "take_bit 32 (2 ^ k :: nat) = 2 ^ k" by (simp only: take_bit_nat_eq_self)
  moreover have "unat (of_nat (2 ^ k) :: 32 word) = take_bit 32 (2 ^ k)" by (simp only: unsigned_of_nat) simp
  ultimately show ?thesis by simp
qed

lemma mset_chains_update:
  assumes "i < length bs"
  shows "mset (chains (bs[i := b])) + mset (bk_chain (bs ! i)) = mset (chains bs) + mset (bk_chain b)"
proof -
  have "bs = take i bs @ bs ! i # drop (Suc i) bs" using assms by (rule id_take_nth_drop)
  then have "mset (chains bs) = mset (chains (take i bs)) + mset (bk_chain (bs ! i)) + mset (chains (drop (Suc i) bs))"
    unfolding chains_def by (metis (no_types, lifting) concat.simps(2) concat_append list.simps(9) map_append mset_append union_assoc)
  moreover have "chains (bs[i := b]) = chains (take i bs) @ bk_chain b @ chains (drop (Suc i) bs)"
    using assms by (simp add: upd_conv_take_nth_drop chains_def)
  ultimately show ?thesis by simp
qed

lemma buckets_ok_update:
  assumes "buckets_ok k bs" and "i < length bs" and "bk_count b = of_nat (length (bk_chain b))"
    and "\<forall>e \<in> set (bk_chain b). HASH_TO_BKT (hh_hashv e) (2 ^ k) = i"
  shows "buckets_ok k (bs[i := b])"
  using assms by (simp add: buckets_ok_def nth_list_update)

lemma buckets_ok_count: "buckets_ok k bs \<Longrightarrow> i < length bs \<Longrightarrow> bk_count (bs ! i) = of_nat (length (bk_chain (bs ! i)))"
  by (simp add: buckets_ok_def)

lemma buckets_ok_home:
  "buckets_ok k bs \<Longrightarrow> i < length bs \<Longrightarrow> e \<in> set (bk_chain (bs ! i)) \<Longrightarrow> HASH_TO_BKT (hh_hashv e) (2 ^ k) = i"
  unfolding buckets_ok_def by blast

lemma table_okI:
  assumes "k \<le> 31" and "tb_num_buckets t = 2 ^ k" and "buckets_ok k (tb_buckets t)"
    and "mset (chains (tb_buckets t)) = mset (tb_order t)" and "items_ok (tb_order t)"
    and "tb_num_items t = of_nat (length (tb_order t))"
  shows "table_ok t"
  unfolding table_ok_def using assms by blast

lemma buckets_ok_empty: "buckets_ok k (replicate (2 ^ k) empty_bucket)"
  by (simp add: buckets_ok_def empty_bucket_def)

lemma chains_empty [simp]: "chains (replicate n empty_bucket) = []"
  by (simp add: chains_def empty_bucket_def)

lemma in_chains: "e \<in> set (chains bs) \<longleftrightarrow> (\<exists>i < length bs. e \<in> set (bk_chain (bs ! i)))"
  by (simp add: chains_def) (metis in_set_conv_nth)

lemma chain_of_element:
  assumes "buckets_ok k bs" and "e \<in> set (chains bs)"
  shows "e \<in> set (bk_chain (bs ! HASH_TO_BKT (hh_hashv e) (2 ^ k)))"
  using assms by (auto simp: in_chains buckets_ok_def)


section \<open>Looking up\<close>

lemma find_unique:
  assumes "\<And>x y. x \<in> set xs \<Longrightarrow> y \<in> set xs \<Longrightarrow> P x \<Longrightarrow> P y \<Longrightarrow> x = y"
  shows "find P xs = Some e \<longleftrightarrow> e \<in> set xs \<and> P e"
  using assms by (induction xs) auto

lemma items_ok_unique:
  "items_ok es \<Longrightarrow> x \<in> set es \<Longrightarrow> y \<in> set es \<Longrightarrow> hh_key x = hh_key y \<Longrightarrow> x = y"
  by (auto simp: items_ok_def distinct_map dest: inj_onD)

lemma handle_ok_keylen: "handle_ok e \<Longrightarrow> unat (hh_keylen e) = length (hh_key e)"
proof -
  assume e: "handle_ok e"
  then have "take_bit 32 (length (hh_key e)) = length (hh_key e)" by (simp only: handle_ok_def take_bit_nat_eq_self)
  moreover have "unat (of_nat (length (hh_key e)) :: 32 word) = take_bit 32 (length (hh_key e))"
    by (simp only: unsigned_of_nat) simp
  ultimately show ?thesis using e by (simp only: handle_ok_def)
qed

lemma handle_ok_matches:
  assumes "handle_ok e"
  shows "(hh_hashv e = HASH_JEN key \<and> unat (hh_keylen e) = length key \<and> take (length key) (hh_key e) = key)
     \<longleftrightarrow> hh_key e = key"
proof
  assume key: "hh_key e = key"
  have "hh_hashv e = HASH_JEN key" using assms key unfolding handle_ok_def by blast
  then show "hh_hashv e = HASH_JEN key \<and> unat (hh_keylen e) = length key \<and> take (length key) (hh_key e) = key"
    using key handle_ok_keylen [OF assms] by simp
next
  assume m: "hh_hashv e = HASH_JEN key \<and> unat (hh_keylen e) = length key \<and> take (length key) (hh_key e) = key"
  then have "length (hh_key e) = length key" using handle_ok_keylen [OF assms] by (simp only:)
  with m show "hh_key e = key" by (metis order_refl take_all)
qed

lemma table_find:
  assumes t: "table_ok t"
  obtains r where "UT_HASH_FIND (Some t) key = Inr r"
    and "\<And>e. r = Some e \<longleftrightarrow> e \<in> set (tb_order t) \<and> hh_key e = key"
proof -
  obtain k where k: "k \<le> 31" "tb_num_buckets t = 2 ^ k" "buckets_ok k (tb_buckets t)"
    and m: "mset (chains (tb_buckets t)) = mset (tb_order t)" and items: "items_ok (tb_order t)"
    using t by (auto simp: table_ok_def)
  let ?i = "HASH_TO_BKT (HASH_JEN key) (2 ^ k)"
  let ?P = "\<lambda>e. hh_hashv e = HASH_JEN key \<and> unat (hh_keylen e) = length key \<and> take (length key) (hh_key e) = key"
  have i: "?i < length (tb_buckets t)" using k HASH_TO_BKT_less [of k] by (simp add: buckets_ok_def)
  have set: "set (chains (tb_buckets t)) = set (tb_order t)" using m by (metis set_mset_mset)
  have sub: "set (bk_chain (tb_buckets t ! ?i)) \<subseteq> set (tb_order t)"
    unfolding set [symmetric] using i in_chains by blast
  have P: "?P e \<longleftrightarrow> hh_key e = key" if "e \<in> set (tb_order t)" for e
    using that items by (intro handle_ok_matches) (simp add: items_ok_def)
  have u: "find ?P (bk_chain (tb_buckets t ! ?i)) = Some e \<longleftrightarrow> e \<in> set (bk_chain (tb_buckets t ! ?i)) \<and> ?P e" for e
  proof (rule find_unique)
    fix x y assume "x \<in> set (bk_chain (tb_buckets t ! ?i))" "y \<in> set (bk_chain (tb_buckets t ! ?i))" "?P x" "?P y"
    then show "x = y" using sub P by (intro items_ok_unique [OF items]) auto
  qed
  have in_chain: "e \<in> set (bk_chain (tb_buckets t ! ?i))" if "e \<in> set (tb_order t)" "?P e" for e
    using chain_of_element [OF k(3), of e] that set by simp
  show thesis
  proof (rule that)
    show "UT_HASH_FIND (Some t) key = Inr (find ?P (bk_chain (tb_buckets t ! ?i)))"
      using i k(2) by (simp add: UT_HASH_FIND_def HASH_FIND_IN_BKT_def Let_def)
    show "find ?P (bk_chain (tb_buckets t ! ?i)) = Some e \<longleftrightarrow> e \<in> set (tb_order t) \<and> hh_key e = key" for e
      unfolding u using sub P in_chain by blast
  qed
qed

lemma HASH_FIND_entries:
  assumes "items_ok es"
  shows "HASH_FIND (map entry es) key = Some (k, v) \<longleftrightarrow> (\<exists>e \<in> set es. hh_key e = key \<and> entry e = (k, v))"
proof -
  have "HASH_FIND (map entry es) key = Some p \<longleftrightarrow> p \<in> set (map entry es) \<and> fst p = key" for p
    unfolding HASH_FIND_def
  proof (rule find_unique)
    fix x y assume "x \<in> set (map entry es)" "y \<in> set (map entry es)" "fst x = key" "fst y = key"
    then obtain e f where "e \<in> set es" "f \<in> set es" "x = entry e" "y = entry f" "hh_key e = hh_key f"
      by (auto simp: entry_def)
    then show "x = y" using items_ok_unique [OF assms] by metis
  qed
  then show ?thesis by (auto simp: entry_def)
qed

lemma UT_HASH_FIND_refines:
  assumes "ut_ok head"
  shows "\<exists>r. UT_HASH_FIND head key = Inr r \<and> map_option entry r = HASH_FIND (ut_list head) key
     \<and> (\<forall>e. r = Some e \<longrightarrow> e \<in> set (HASH_ITER head) \<and> hh_key e = key)"
proof (cases head)
  case None
  then show ?thesis by (simp add: UT_HASH_FIND_def ut_list_def HASH_ITER_def HASH_FIND_def)
next
  case (Some t)
  then have t: "table_ok t" "items_ok (tb_order t)" using assms by (auto simp: ut_ok_def table_ok_def)
  from table_find [OF t(1)] obtain r where r: "UT_HASH_FIND (Some t) key = Inr r"
    "\<And>e. r = Some e \<longleftrightarrow> e \<in> set (tb_order t) \<and> hh_key e = key" by metis
  have "map_option entry r = HASH_FIND (map entry (tb_order t)) key"
  proof (cases r)
    case None
    then have "\<not> (\<exists>e \<in> set (tb_order t). hh_key e = key)" using r(2) by auto
    then have "HASH_FIND (map entry (tb_order t)) key \<noteq> Some (a, b)" for a b
      using HASH_FIND_entries [OF t(2)] by blast
    then show ?thesis using None by (cases "HASH_FIND (map entry (tb_order t)) key") auto
  next
    case (Some e)
    then show ?thesis using r(2) HASH_FIND_entries [OF t(2), of key "hh_key e" "hh_elmt e"]
      by (auto simp: entry_def)
  qed
  then show ?thesis using r Some by (auto simp: ut_list_def HASH_ITER_def)
qed


section \<open>Adding\<close>

lemma expand_place_ok:
  assumes "k \<le> 31" and "buckets_ok k bs"
  obtains bs' n' where "expand_place (2 ^ k) ideal e (bs, n) = Inr (bs', n')" and "buckets_ok k bs'"
    and "mset (chains bs') = add_mset e (mset (chains bs))"
proof -
  let ?i = "HASH_TO_BKT (hh_hashv e) (2 ^ k)"
  have i: "?i < length bs" using assms HASH_TO_BKT_less [of k] by (simp add: buckets_ok_def)
  obtain b n' where b: "expand_place (2 ^ k) ideal e (bs, n) = Inr (bs[?i := b], n')"
    "bk_chain b = e # bk_chain (bs ! ?i)" "bk_count b = bk_count (bs ! ?i) + 1"
    using i by (auto simp: expand_place_def Let_def)
  have "buckets_ok k (bs[?i := b])"
    using assms(2) i b by (intro buckets_ok_update) (auto simp: buckets_ok_def)
  moreover have "mset (chains (bs[?i := b])) = add_mset e (mset (chains bs))"
    using mset_chains_update [OF i, of b] b(2) by simp
  ultimately show thesis using that b(1) by blast
qed

lemma expand_fold_ok:
  assumes "k \<le> 31" and "buckets_ok k bs"
  shows "\<exists>bs' n'. foldE (expand_place (2 ^ k) ideal) es (bs, n) = Inr (bs', n') \<and> buckets_ok k bs'
     \<and> mset (chains bs') = mset es + mset (chains bs)"
  using assms(2)
proof (induction es arbitrary: bs n)
  case Nil
  then show ?case by simp
next
  case (Cons e es)
  from expand_place_ok [OF assms(1) Cons.prems, of ideal e n] obtain bs' n'
    where "expand_place (2 ^ k) ideal e (bs, n) = Inr (bs', n')" "buckets_ok k bs'"
      "mset (chains bs') = add_mset e (mset (chains bs))" .
  with Cons.IH [of bs' n'] show ?case by auto
qed

text \<open>An allocator cannot hand out 64 GiB at once, the size of the buckets beyond the range of \<open>num_buckets\<close>.\<close>

definition alloc_bounded :: "(nat \<Rightarrow> bool) \<Rightarrow> bool" where
  "alloc_bounded alloc \<longleftrightarrow> (\<forall>b. alloc b \<longrightarrow> b < 2 ^ 36)"

definition exits_or :: "('a \<Rightarrow> bool) \<Rightarrow> 'a exec \<Rightarrow> bool" where
  "exits_or P m = (case m of Inl f \<Rightarrow> f = Exits (-1) | Inr x \<Rightarrow> P x)"

lemma exits_or_simps [simp]: "exits_or P (Inl f) \<longleftrightarrow> f = Exits (-1)" "exits_or P (Inr x) \<longleftrightarrow> P x"
  by (simp_all add: exits_or_def)

lemma exits_or_bind: "exits_or P m \<Longrightarrow> (\<And>x. P x \<Longrightarrow> exits_or Q (f x)) \<Longrightarrow> exits_or Q (bindE m f)"
  by (cases m) simp_all

lemma HASH_EXPAND_BUCKETS_ok:
  assumes alloc: "alloc_bounded alloc" and t: "table_ok t"
  shows "exits_or (\<lambda>t'. table_ok t' \<and> tb_order t' = tb_order t) (HASH_EXPAND_BUCKETS alloc t)"
proof (cases "alloc (sizeof_ut_hash_bucket * unat (tb_num_buckets t) * 2)")
  case False
  then show ?thesis by (simp add: HASH_EXPAND_BUCKETS_def)
next
  case True
  obtain k where k: "k \<le> 31" "tb_num_buckets t = 2 ^ k" "buckets_ok k (tb_buckets t)"
    using t by (auto simp: table_ok_def)
  then have num: "unat (tb_num_buckets t) = 2 ^ k" by (simp add: unat_pow2)
  have "sizeof_ut_hash_bucket * 2 ^ k * 2 < 2 ^ 36" using True alloc num unfolding alloc_bounded_def by metis
  then have "(2 :: nat) ^ k < 2 ^ 31" by (simp add: sizeof_ut_hash_bucket_def)
  then have k': "Suc k \<le> 31" using power_less_imp_less_exp [of "2 :: nat" k 31] by simp
  let ?ideal = "drop_bit (unat (tb_log2_num_buckets t + 1)) (tb_num_items t)
      + (if tb_num_items t AND (tb_num_buckets t * 2 - 1) \<noteq> 0 then 1 else 0)"
  have "buckets_ok (Suc k) (replicate (2 ^ k * 2) empty_bucket)"
    using buckets_ok_empty [of "Suc k"] by (simp add: mult.commute)
  from expand_fold_ok [OF k' this, of ?ideal "chains (tb_buckets t)" 0] obtain bs n
    where fold: "foldE (expand_place (2 ^ Suc k) ?ideal) (chains (tb_buckets t)) (replicate (2 ^ k * 2) empty_bucket, 0) = Inr (bs, n)"
      and bs: "buckets_ok (Suc k) bs" "mset (chains bs) = mset (chains (tb_buckets t))" by auto
  have len: "length (tb_buckets t) = 2 ^ k" using k(3) by (simp add: buckets_ok_def)
  have two: "tb_num_buckets t * 2 = 2 ^ Suc k" using k(2) by simp
  have "HASH_EXPAND_BUCKETS alloc t = Inr (t\<lparr>tb_buckets := bs, tb_num_buckets := 2 ^ Suc k,
      tb_log2_num_buckets := tb_log2_num_buckets t + 1, tb_ideal_chain_maxlen := ?ideal, tb_nonideal_items := n,
      tb_ineff_expands := (if drop_bit 1 (tb_num_items t) < n then tb_ineff_expands t + 1 else 0),
      tb_noexpand := (tb_noexpand t \<or> 1 < (if drop_bit 1 (tb_num_items t) < n then tb_ineff_expands t + 1 else 0))\<rparr>)"
    using True fold
    by (simp only: HASH_EXPAND_BUCKETS_def num two Let_def chains_def [symmetric] take_all len order_refl
        bindE_Inr prod.case simp_thms if_False)
  moreover have "mset (chains (tb_buckets t)) = mset (tb_order t)" "items_ok (tb_order t)"
    "tb_num_items t = of_nat (length (tb_order t))" using t by (simp_all add: table_ok_def)
  ultimately show ?thesis using bs by (simp only: exits_or_simps) (intro conjI table_okI [OF k'], simp_all)
qed

lemma HASH_ADD_TO_TABLE_ok:
  assumes alloc: "alloc_bounded alloc" and k: "k \<le> 31" "tb_num_buckets t = 2 ^ k" "buckets_ok k (tb_buckets t)"
    and m: "mset (tb_order t) = add_mset e (mset (chains (tb_buckets t)))" and items: "items_ok (tb_order t)"
    and n: "tb_num_items t + 1 = of_nat (length (tb_order t))"
  shows "exits_or (\<lambda>t'. table_ok t' \<and> tb_order t' = tb_order t) (HASH_ADD_TO_TABLE alloc e t)"
proof -
  let ?i = "HASH_TO_BKT (hh_hashv e) (2 ^ k)"
  let ?b0 = "tb_buckets t ! ?i"
  let ?b = "?b0\<lparr>bk_chain := e # bk_chain ?b0, bk_count := bk_count ?b0 + 1\<rparr>"
  let ?t = "t\<lparr>tb_num_items := tb_num_items t + 1, tb_buckets := (tb_buckets t)[?i := ?b]\<rparr>"
  have i: "?i < length (tb_buckets t)" using k HASH_TO_BKT_less [of k] by (simp add: buckets_ok_def)
  have "buckets_ok k ((tb_buckets t)[?i := ?b])"
    using k(3) i by (intro buckets_ok_update) (auto simp: buckets_ok_def)
  moreover have "mset (chains ((tb_buckets t)[?i := ?b])) = mset (tb_order t)"
    using mset_chains_update [OF i, of ?b] m by simp
  ultimately have ok: "table_ok ?t" using k items n by (intro table_okI [OF k(1)]) simp_all
  have "HASH_ADD_TO_TABLE alloc e t = HASH_EXPAND_BUCKETS alloc ?t \<or> HASH_ADD_TO_TABLE alloc e t = Inr ?t"
    using i k(2) by (simp add: HASH_ADD_TO_TABLE_def HASH_ADD_TO_BKT_def Let_def)
  then show ?thesis using HASH_EXPAND_BUCKETS_ok [OF alloc ok] ok by auto
qed

lemma items_ok_snoc:
  assumes "ut_ok head" "handle_ok e" "HASH_FIND (ut_list head) (hh_key e) = None"
  shows "items_ok (HASH_ITER head @ [e])"
proof -
  have "items_ok (HASH_ITER head)" using assms(1) by (auto simp: ut_ok_def table_ok_def HASH_ITER_def items_ok_def split: option.splits)
  moreover have "hh_key e \<notin> hh_key ` set (HASH_ITER head)" using assms(3) by (auto simp: HASH_FIND_def find_None_iff ut_list_def entry_def)
  ultimately show ?thesis using assms(2) by (auto simp: items_ok_def)
qed

lemma first_add_ok:
  assumes alloc: "alloc_bounded alloc" and e: "items_ok [e]"
  shows "exits_or (\<lambda>t'. table_ok t' \<and> tb_order t' = [e]) (bindE (HASH_MAKE_TABLE alloc e) (HASH_ADD_TO_TABLE alloc e))"
proof (cases "HASH_MAKE_TABLE alloc e")
  case (Inl f)
  then have "f = Exits (-1)" by (auto simp: HASH_MAKE_TABLE_def split: if_splits)
  then show ?thesis using Inl by simp
next
  case (Inr t)
  then have t: "tb_num_buckets t = 2 ^ 5" "tb_buckets t = replicate (2 ^ 5) empty_bucket" "tb_order t = [e]" "tb_num_items t = 0"
    by (auto simp: HASH_MAKE_TABLE_def HASH_INITIAL_NUM_BUCKETS_def split: if_splits)
  have "exits_or (\<lambda>t'. table_ok t' \<and> tb_order t' = tb_order t) (HASH_ADD_TO_TABLE alloc e t)"
    using e t(3,4) by (intro HASH_ADD_TO_TABLE_ok [OF alloc _ t(1)])
      (simp_all only: t(2) buckets_ok_empty chains_empty append_Nil, simp_all)
  then show ?thesis using Inr t(3) by simp
qed

lemma next_add_ok:
  assumes alloc: "alloc_bounded alloc" and t: "table_ok t" and e: "items_ok (tb_order t @ [e])"
  shows "exits_or (\<lambda>t'. table_ok t' \<and> tb_order t' = tb_order t @ [e]) (HASH_ADD_TO_TABLE alloc e (t\<lparr>tb_order := tb_order t @ [e]\<rparr>))"
proof -
  let ?t = "t\<lparr>tb_order := tb_order t @ [e]\<rparr>"
  obtain k where k: "k \<le> 31" "tb_num_buckets t = 2 ^ k" "buckets_ok k (tb_buckets t)" using t by (auto simp: table_ok_def)
  have "exits_or (\<lambda>t'. table_ok t' \<and> tb_order t' = tb_order ?t) (HASH_ADD_TO_TABLE alloc e ?t)"
    using k t e by (intro HASH_ADD_TO_TABLE_ok [OF alloc k(1)]) (simp_all add: table_ok_def)
  then show ?thesis by simp
qed

lemma UT_HASH_ADD_KEYPTR_ok:
  assumes alloc: "alloc_bounded alloc" and head: "ut_ok head" and key: "length key < 2 ^ 32"
    and fresh: "HASH_FIND (ut_list head) key = None"
  shows "exits_or (\<lambda>head'. ut_ok head' \<and> ut_list head' = HASH_ADD_KEYPTR (ut_list head) key v)
    (UT_HASH_ADD_KEYPTR alloc head key v)"
proof -
  define e where "e = \<lparr>hh_key = key, hh_keylen = of_nat (length key), hh_hashv = HASH_JEN key, hh_elmt = v\<rparr>"
  have e: "handle_ok e" "entry e = (key, v)" "hh_key e = key" using key by (simp_all add: e_def handle_ok_def entry_def)
  have items: "items_ok (HASH_ITER head @ [e])" using items_ok_snoc [OF head e(1)] fresh e(3) by simp
  have fin: "exits_or (\<lambda>head'. ut_ok head' \<and> ut_list head' = HASH_ADD_KEYPTR (ut_list head) key v) (bindE x (\<lambda>t. Inr (Some t)))"
    if "exits_or (\<lambda>t'. table_ok t' \<and> tb_order t' = HASH_ITER head @ [e]) x" for x
    using that by (rule exits_or_bind) (use e in \<open>simp add: ut_ok_def ut_list_def HASH_ITER_def HASH_ADD_KEYPTR_def\<close>)
  show ?thesis
  proof (cases head)
    case None
    then have "exits_or (\<lambda>t'. table_ok t' \<and> tb_order t' = HASH_ITER head @ [e]) (bindE (HASH_MAKE_TABLE alloc e) (HASH_ADD_TO_TABLE alloc e))"
      using first_add_ok [OF alloc, of e] items by (simp add: HASH_ITER_def)
    from fin [OF this] show ?thesis using None by (simp add: UT_HASH_ADD_KEYPTR_def Let_def e_def bindE_assoc)
  next
    case (Some t)
    then have "exits_or (\<lambda>t'. table_ok t' \<and> tb_order t' = HASH_ITER head @ [e]) (HASH_ADD_TO_TABLE alloc e (t\<lparr>tb_order := tb_order t @ [e]\<rparr>))"
      using next_add_ok [OF alloc, of t e] head items by (simp add: ut_ok_def HASH_ITER_def)
    from fin [OF this] show ?thesis using Some by (simp add: UT_HASH_ADD_KEYPTR_def Let_def e_def)
  qed
qed


section \<open>Deleting\<close>

lemma entries_remove:
  "items_ok es \<Longrightarrow> e \<in> set es \<Longrightarrow> map entry (remove1 e es) = alist_delete (hh_key e) (map entry es)"
proof (induction es)
  case (Cons d es)
  then show ?case
    using items_ok_unique [OF Cons.prems(1), of d e] by (auto simp: entry_def items_ok_def)
qed simp

lemma items_ok_remove1: "items_ok es \<Longrightarrow> items_ok (remove1 e es)"
proof -
  assume es: "items_ok es"
  then have "distinct (map hh_key (remove1 e es))"
    unfolding items_ok_def by (metis distinct_map distinct_remove1 inj_on_subset set_remove1_subset)
  then show ?thesis using es set_remove1_subset [of e es] by (auto simp: items_ok_def)
qed

text \<open>A handle leaves its bucket and the list of all handles; the rest of the table is as before.\<close>

lemma delete_from_buckets:
  assumes k: "buckets_ok k bs" and e: "e \<in> set es" and m: "mset (chains bs) = mset es" and i: "i = HASH_TO_BKT (hh_hashv e) (2 ^ k)"
    and len: "i < length bs"
  shows "buckets_ok k (bs[i := HASH_DEL_IN_BKT e (bs ! i)])" "mset (chains (bs[i := HASH_DEL_IN_BKT e (bs ! i)])) = mset (remove1 e es)"
proof -
  let ?b = "HASH_DEL_IN_BKT e (bs ! i)"
  have "set (chains bs) = set es" using m by (metis set_mset_mset)
  then have inb: "e \<in> set (bk_chain (bs ! i))" using chain_of_element [OF k, of e] e i by simp
  then have pos: "1 \<le> length (bk_chain (bs ! i))" by (cases "bk_chain (bs ! i)") auto
  show "buckets_ok k (bs[i := ?b])"
  proof (rule buckets_ok_update [OF k len])
    show "bk_count ?b = of_nat (length (bk_chain ?b))"
      using buckets_ok_count [OF k len] inb pos by (simp add: HASH_DEL_IN_BKT_def length_remove1 of_nat_diff)
    show "\<forall>d \<in> set (bk_chain ?b). HASH_TO_BKT (hh_hashv d) (2 ^ k) = i"
      using buckets_ok_home [OF k len] set_remove1_subset [of e] by (simp add: HASH_DEL_IN_BKT_def) blast
  qed
  have "mset (bk_chain (bs ! i)) = add_mset e (mset (bk_chain ?b))" using inb by (simp add: HASH_DEL_IN_BKT_def)
  then have "add_mset e (mset (chains (bs[i := ?b]))) = mset es" using mset_chains_update [OF len, of ?b] m by simp
  then show "mset (chains (bs[i := ?b])) = mset (remove1 e es)" unfolding mset_remove1 by (metis add_mset_remove_trivial)
qed

lemma HASH_DELETE_HH_ok:
  assumes head: "ut_ok head" and e: "e \<in> set (HASH_ITER head)"
  shows "\<exists>head'. HASH_DELETE_HH head e = Inr head' \<and> ut_ok head' \<and> ut_list head' = HASH_DEL (ut_list head) (hh_key e)
     \<and> HASH_ITER head' = remove1 e (HASH_ITER head)"
proof -
  obtain t where t: "head = Some t" using e by (auto simp: HASH_ITER_def split: option.splits)
  then have ok: "table_ok t" and e': "e \<in> set (tb_order t)" and items: "items_ok (tb_order t)"
    using head e by (auto simp: ut_ok_def HASH_ITER_def table_ok_def)
  obtain k where k: "k \<le> 31" "tb_num_buckets t = 2 ^ k" "buckets_ok k (tb_buckets t)" using ok by (auto simp: table_ok_def)
  define i where "i = HASH_TO_BKT (hh_hashv e) (2 ^ k)"
  let ?t = "t\<lparr>tb_order := remove1 e (tb_order t), tb_buckets := (tb_buckets t)[i := HASH_DEL_IN_BKT e (tb_buckets t ! i)], tb_num_items := tb_num_items t - 1\<rparr>"
  have i: "i < length (tb_buckets t)" using k HASH_TO_BKT_less [of k] by (simp add: buckets_ok_def i_def)
  have m: "mset (chains (tb_buckets t)) = mset (tb_order t)" using ok by (simp add: table_ok_def)
  note b = delete_from_buckets [OF k(3) e' m i_def i]
  have one: "1 \<le> length (tb_order t)" using e' by (cases "tb_order t") auto
  have num: "tb_num_items t - 1 = of_nat (length (remove1 e (tb_order t)))"
    using ok e' one by (simp add: table_ok_def length_remove1 of_nat_diff)
  have tok: "table_ok ?t"
    using k(2) b items_ok_remove1 [OF items] num by (intro table_okI [OF k(1)]) simp_all
  have ent: "map entry (remove1 e (tb_order t)) = HASH_DEL (ut_list head) (hh_key e)"
    using entries_remove [OF items e'] t by (simp add: ut_list_def HASH_ITER_def HASH_DEL_def)
  show ?thesis
  proof (cases "tb_order t = [e]")
    case True
    then show ?thesis using t ent by (simp add: HASH_DELETE_HH_def ut_ok_def ut_list_def HASH_ITER_def)
  next
    case False
    then have "remove1 e (tb_order t) \<noteq> []" using e' by (cases "tb_order t") auto
    moreover have "HASH_DELETE_HH head e = Inr (Some ?t)" using False t i k(2) by (simp add: HASH_DELETE_HH_def Let_def i_def)
    ultimately show ?thesis using tok ent t by (simp add: ut_ok_def ut_list_def HASH_ITER_def)
  qed
qed


section \<open>The functions of hashes.c over the macros\<close>

definition ut_hash_add ::
  "(nat \<Rightarrow> bool) \<Rightarrow> bool \<Rightarrow> 'v ut_hash_table option \<Rightarrow> string \<Rightarrow> 'v \<Rightarrow> (int \<times> 'v ut_hash_table option) exec" where
  "ut_hash_add alloc malloc_ok head uuid ptr =
     bindE (UT_HASH_FIND head uuid) (\<lambda>r.
     case r of
       Some _ \<Rightarrow> Inr (- NRM_FAILURE, head)
     | None \<Rightarrow>
         if \<not> malloc_ok then Inr (- NRM_ENOMEM, head)
         else bindE (UT_HASH_ADD_KEYPTR alloc head uuid ptr) (\<lambda>head. Inr (NRM_SUCCESS, head)))"

definition ut_hash_remove ::
  "string \<Rightarrow> 'v ut_hash_table option \<Rightarrow> string option \<Rightarrow> (int \<times> unit option option \<times> 'v ut_hash_table option) exec" where
  "ut_hash_remove raw head uuid =
     (case uuid of
        None \<Rightarrow> Inr (- NRM_EINVAL, None, head)
      | Some u \<Rightarrow>
          if head = None then Inr (- NRM_EINVAL, None, head)
          else bindE (UT_HASH_FIND head (take (length u) raw)) (\<lambda>r.
               case r of
                 None \<Rightarrow> Inr (NRM_SUCCESS, Some None, head)
               | Some e \<Rightarrow> bindE (HASH_DELETE_HH head e) (\<lambda>head. Inr (NRM_SUCCESS, Some (Some ()), head))))"

definition ut_hash_find :: "'v ut_hash_table option \<Rightarrow> string option \<Rightarrow> bool \<Rightarrow> (int \<times> 'v option) exec" where
  "ut_hash_find head uuid ptr_nonnull =
     (case uuid of
        None \<Rightarrow> Inr (- NRM_EINVAL, None)
      | Some u \<Rightarrow>
          if head = None \<or> \<not> ptr_nonnull then Inr (- NRM_EINVAL, None)
          else bindE (UT_HASH_FIND head u) (\<lambda>r.
               case r of
                 None \<Rightarrow> Inr (- NRM_ENOTFOUND, None)
               | Some e \<Rightarrow> Inr (NRM_SUCCESS, Some (hh_elmt e))))"

definition ut_hash_size :: "'v ut_hash_table option \<Rightarrow> int \<times> nat option" where
  "ut_hash_size head =
     (if head = None then (- NRM_EINVAL, None) else (NRM_SUCCESS, Some (unat (UT_HASH_COUNT head))))"

definition ut_hash_destroy :: "'v ut_hash_table option \<Rightarrow> 'v ut_hash_table option exec" where
  "ut_hash_destroy head = foldE (\<lambda>e head. HASH_DELETE_HH head e) (HASH_ITER head) head"

text \<open>A sequence of calls on one table, on the macros and on the insertion-ordered list.\<close>

datatype 'v hash_call =
    CAdd bool string 'v
  | CRemove string "string option"
  | CFind "string option"
  | CSize
  | CDestroy

datatype 'v hash_answer = RCode int | RRemoved int "unit option option" | RFound int "'v option" | RSize int "nat option"

fun ut_call :: "(nat \<Rightarrow> bool) \<Rightarrow> 'v hash_call \<Rightarrow> 'v ut_hash_table option \<Rightarrow> ('v hash_answer \<times> 'v ut_hash_table option) exec" where
  "ut_call alloc (CAdd ok k v) head = bindE (ut_hash_add alloc ok head k v) (\<lambda>(r, head). Inr (RCode r, head))"
| "ut_call alloc (CRemove raw k) head = bindE (ut_hash_remove raw head k) (\<lambda>(r, p, head). Inr (RRemoved r p, head))"
| "ut_call alloc (CFind k) head = bindE (ut_hash_find head k True) (\<lambda>(r, p). Inr (RFound r p, head))"
| "ut_call alloc CSize head = (case ut_hash_size head of (r, n) \<Rightarrow> Inr (RSize r n, head))"
| "ut_call alloc CDestroy head = bindE (ut_hash_destroy head) (\<lambda>head. Inr (RCode 0, head))"

fun list_call :: "'v hash_call \<Rightarrow> 'v nrm_hash \<Rightarrow> 'v hash_answer \<times> 'v nrm_hash" where
  "list_call (CAdd ok k v) h = (case nrm_hash_add ok h k v of (r, h) \<Rightarrow> (RCode r, h))"
| "list_call (CRemove raw k) h = (case nrm_hash_remove raw h k of (r, p, h) \<Rightarrow> (RRemoved r p, h))"
| "list_call (CFind k) h = (case nrm_hash_find h k True of (r, p) \<Rightarrow> (RFound r p, h))"
| "list_call CSize h = (case nrm_hash_size h of (r, n) \<Rightarrow> (RSize r n, h))"
| "list_call CDestroy h = (RCode 0, the (nrm_hash_destroy (Some h)))"

fun ut_calls ::
  "(nat \<Rightarrow> bool) \<Rightarrow> 'v hash_call list \<Rightarrow> 'v ut_hash_table option \<Rightarrow> ('v hash_answer list \<times> 'v ut_hash_table option) exec" where
  "ut_calls alloc [] head = Inr ([], head)"
| "ut_calls alloc (c # cs) head =
     bindE (ut_call alloc c head) (\<lambda>(r, head).
     bindE (ut_calls alloc cs head) (\<lambda>(rs, head). Inr (r # rs, head)))"

fun list_calls :: "'v hash_call list \<Rightarrow> 'v nrm_hash \<Rightarrow> 'v hash_answer list \<times> 'v nrm_hash" where
  "list_calls [] h = ([], h)"
| "list_calls (c # cs) h = (let (r, h) = list_call c h; (rs, h) = list_calls cs h in (r # rs, h))"

fun call_key_ok :: "'v hash_call \<Rightarrow> bool" where
  "call_key_ok (CAdd _ k _) \<longleftrightarrow> length k < 2 ^ 32"
| "call_key_ok _ \<longleftrightarrow> True"


lemma ut_list_None: "ut_ok head \<Longrightarrow> ut_list head = [] \<longleftrightarrow> head = None"
  by (auto simp: ut_ok_def ut_list_def HASH_ITER_def split: option.splits)

lemma ut_find_cases:
  assumes "ut_ok head"
  obtains "UT_HASH_FIND head key = Inr None" and "HASH_FIND (ut_list head) key = None"
  | e where "UT_HASH_FIND head key = Inr (Some e)" and "HASH_FIND (ut_list head) key = Some (key, hh_elmt e)"
    and "e \<in> set (HASH_ITER head)" and "hh_key e = key"
proof -
  obtain r where r: "UT_HASH_FIND head key = Inr r" "map_option entry r = HASH_FIND (ut_list head) key"
    "\<forall>e. r = Some e \<longrightarrow> e \<in> set (HASH_ITER head) \<and> hh_key e = key"
    using UT_HASH_FIND_refines [OF assms] by blast
  show thesis
  proof (cases r)
    case None
    then show thesis using r that(1) by simp
  next
    case (Some e)
    then show thesis using r that(2) [of e] by (simp add: entry_def)
  qed
qed

lemma ut_count: "ut_ok head \<Longrightarrow> UT_HASH_COUNT head = of_nat (length (ut_list head))"
  by (auto simp: UT_HASH_COUNT_def ut_ok_def table_ok_def ut_list_def HASH_ITER_def split: option.splits)

lemma unat_count: "ut_ok head \<Longrightarrow> length (ut_list head) < 2 ^ 32 \<Longrightarrow> unat (UT_HASH_COUNT head) = length (ut_list head)"
proof -
  assume "ut_ok head" and "length (ut_list head) < 2 ^ 32"
  moreover have "unat (of_nat (length (ut_list head)) :: 32 word) = take_bit 32 (length (ut_list head))"
    by (simp only: unsigned_of_nat) simp
  ultimately show ?thesis by (simp only: ut_count take_bit_nat_eq_self)
qed

lemma ut_destroy:
  fixes head :: "'v ut_hash_table option"
  shows "ut_ok head \<Longrightarrow> ut_hash_destroy head = Inr None"
proof -
  have "foldE (\<lambda>e head. HASH_DELETE_HH head e) es head = Inr None" if "ut_ok head" "HASH_ITER head = es"
    for es and head :: "'v ut_hash_table option"
    using that
  proof (induction es arbitrary: head)
    case Nil
    then show ?case by (cases head) (auto simp: ut_ok_def HASH_ITER_def)
  next
    case (Cons e es)
    then obtain head' where "HASH_DELETE_HH head e = Inr head'" "ut_ok head'" "HASH_ITER head' = es"
      using HASH_DELETE_HH_ok [of head e] by auto
    then show ?case using Cons.IH [of head'] by simp
  qed
  then show "ut_ok head \<Longrightarrow> ?thesis" by (simp add: ut_hash_destroy_def)
qed

definition call_matches :: "'v hash_answer \<times> 'v nrm_hash \<Rightarrow> 'v hash_answer \<times> 'v ut_hash_table option \<Rightarrow> bool" where
  "call_matches p = (\<lambda>(r, head). ut_ok head \<and> fst p = r \<and> snd p = ut_list head)"

lemma ut_add_call:
  assumes alloc: "alloc_bounded alloc" and head: "ut_ok head" and key: "length k < 2 ^ 32"
  shows "exits_or (call_matches (list_call (CAdd ok k v) (ut_list head))) (ut_call alloc (CAdd ok k v) head)"
  using head
proof (cases rule: ut_find_cases [where key = k])
  case 1
  show ?thesis
  proof (cases ok)
    case True
    have "exits_or (call_matches (list_call (CAdd ok k v) (ut_list head)))
       (bindE (UT_HASH_ADD_KEYPTR alloc head k v) (\<lambda>head. Inr (RCode NRM_SUCCESS, head)))"
      by (rule exits_or_bind [OF UT_HASH_ADD_KEYPTR_ok [OF alloc head key 1(2)]])
        (use 1 True in \<open>auto simp: call_matches_def nrm_hash_add_def\<close>)
    then show ?thesis using 1 True by (simp add: ut_hash_add_def bindE_assoc)
  next
    case False
    then show ?thesis using 1 head by (simp add: ut_hash_add_def nrm_hash_add_def call_matches_def)
  qed
next
  case (2 e)
  then show ?thesis using head by (simp add: ut_hash_add_def nrm_hash_add_def call_matches_def)
qed

lemma ut_remove_call:
  assumes head: "ut_ok head"
  shows "exits_or (call_matches (list_call (CRemove raw k) (ut_list head))) (ut_call alloc (CRemove raw k) head)"
proof (cases "k = None \<or> head = None")
  case True
  then show ?thesis using head ut_list_None [OF head]
    by (auto simp: ut_hash_remove_def nrm_hash_remove_def call_matches_def split: option.split)
next
  case False
  then obtain u where u: "k = Some u" "head \<noteq> None" "ut_list head \<noteq> []" using ut_list_None [OF head] by auto
  from head show ?thesis
  proof (cases rule: ut_find_cases [where key = "take (length u) raw"])
    case 1
    then show ?thesis using u head by (simp add: ut_hash_remove_def nrm_hash_remove_def call_matches_def)
  next
    case (2 e)
    then show ?thesis using u HASH_DELETE_HH_ok [OF head 2(3)]
      by (auto simp: ut_hash_remove_def nrm_hash_remove_def call_matches_def)
  qed
qed

lemma ut_find_call:
  assumes head: "ut_ok head"
  shows "exits_or (call_matches (list_call (CFind k) (ut_list head))) (ut_call alloc (CFind k) head)"
proof (cases "k = None \<or> head = None")
  case True
  then show ?thesis using head ut_list_None [OF head]
    by (auto simp: ut_hash_find_def nrm_hash_find_def call_matches_def split: option.split)
next
  case False
  then obtain u where u: "k = Some u" "head \<noteq> None" "ut_list head \<noteq> []" using ut_list_None [OF head] by auto
  from head show ?thesis
    by (cases rule: ut_find_cases [where key = u])
      (use u head in \<open>simp_all add: ut_hash_find_def nrm_hash_find_def call_matches_def\<close>)
qed

lemma ut_call_refines:
  assumes alloc: "alloc_bounded alloc" and head: "ut_ok head" and len: "length (ut_list head) < 2 ^ 32"
    and key: "call_key_ok c"
  shows "exits_or (call_matches (list_call c (ut_list head))) (ut_call alloc c head)"
proof (cases c)
  case (CAdd ok k v)
  then show ?thesis using ut_add_call [OF alloc head] key by simp
next
  case (CRemove raw k)
  then show ?thesis using ut_remove_call [OF head] by simp
next
  case (CFind k)
  then show ?thesis using ut_find_call [OF head] by simp
next
  case CSize
  then show ?thesis using head ut_list_None [OF head] unat_count [OF head len]
    by (cases "head = None") (simp_all add: ut_hash_size_def nrm_hash_size_def HASH_COUNT_def call_matches_def)
next
  case CDestroy
  then show ?thesis using ut_destroy [OF head]
    by (simp add: call_matches_def nrm_hash_destroy_def ut_ok_def ut_list_def HASH_ITER_def)
qed

lemma length_alist_delete: "length (alist_delete k xs) \<le> length xs"
  by (induction xs) (auto simp: le_SucI)

lemma list_call_length: "length (snd (list_call c h)) \<le> Suc (length h)"
proof (cases c)
  case (CRemove raw k)
  then show ?thesis using length_alist_delete [of _ h]
    by (auto simp: nrm_hash_remove_def HASH_DEL_def le_SucI split: option.split)
qed (auto simp: nrm_hash_add_def HASH_ADD_KEYPTR_def nrm_hash_find_def nrm_hash_size_def nrm_hash_destroy_def
    split: option.split)

lemma ut_calls_refine:
  assumes alloc: "alloc_bounded alloc"
  shows "ut_ok head \<Longrightarrow> length (ut_list head) + length cs < 2 ^ 32 \<Longrightarrow> list_all call_key_ok cs \<Longrightarrow>
    exits_or (\<lambda>(rs, head'). ut_ok head' \<and> list_calls cs (ut_list head) = (rs, ut_list head')) (ut_calls alloc cs head)"
proof (induction cs arbitrary: head)
  case Nil
  then show ?case by simp
next
  case (Cons c cs)
  have step: "exits_or (call_matches (list_call c (ut_list head))) (ut_call alloc c head)"
    using Cons.prems by (intro ut_call_refines [OF alloc]) simp_all
  show ?case unfolding ut_calls.simps
  proof (rule exits_or_bind [OF step])
    fix p assume "call_matches (list_call c (ut_list head)) p"
    then obtain r head1 where p: "p = (r, head1)" "ut_ok head1" "list_call c (ut_list head) = (r, ut_list head1)"
      by (auto simp: call_matches_def prod_eq_iff)
    have "exits_or (\<lambda>(rs, head'). ut_ok head' \<and> list_calls cs (ut_list head1) = (rs, ut_list head')) (ut_calls alloc cs head1)"
      using Cons.prems list_call_length [of c "ut_list head"] p by (intro Cons.IH) simp_all
    then show "exits_or (\<lambda>(rs, head'). ut_ok head' \<and> list_calls (c # cs) (ut_list head) = (rs, ut_list head'))
       (case p of (r, head) \<Rightarrow> bindE (ut_calls alloc cs head) (\<lambda>(rs, head). Inr (r # rs, head)))"
      unfolding p(1) prod.case by (rule exits_or_bind) (use p in auto)
  qed
qed

lemma sum_chains: "sum_list (map (\<lambda>b. of_nat (length (bk_chain b))) bs) = (of_nat (length (chains bs)) :: 32 word)"
  by (induction bs) (simp_all add: chains_def)

lemma ut_fsck: "ut_ok head \<Longrightarrow> HASH_FSCK head"
proof (cases head)
  case (Some t)
  assume "ut_ok head"
  then obtain k where t: "table_ok t" and k: "k \<le> 31" "tb_num_buckets t = 2 ^ k" "buckets_ok k (tb_buckets t)"
    using Some by (auto simp: ut_ok_def table_ok_def)
  have all: "take (unat (tb_num_buckets t)) (tb_buckets t) = tb_buckets t"
    using k by (simp add: unat_pow2 buckets_ok_def)
  have "sum_list (map (\<lambda>b. of_nat (length (bk_chain b))) (tb_buckets t)) = (of_nat (length (chains (tb_buckets t))) :: 32 word)"
    by (rule sum_chains)
  moreover have "length (chains (tb_buckets t)) = length (tb_order t)"
    using t unfolding table_ok_def by (metis size_mset)
  moreover have "list_all (\<lambda>b. bk_count b = of_nat (length (bk_chain b))) (tb_buckets t)"
    using buckets_ok_count [OF k(3)] by (simp add: list_all_length)
  ultimately show ?thesis using t Some all by (simp add: HASH_FSCK_def table_ok_def)
qed (simp add: HASH_FSCK_def)


section \<open>Properties\<close>

text \<open>
  C20. uthash implements the insertion-ordered list.  Any sequence of fewer than \<open>2 ^ 32\<close> additions, removals, look-ups,
  sizes and destructions on a table that starts NULL, over an allocator that gives no block of \<open>2 ^ 36\<close> bytes or more, with buckets, the hash function and the doubling of the
  buckets, either ends the process with \<open>exit(-1)\<close> because memory ran out, or answers every call
  as the list does, leaves a table whose elements in application order are that list, and the integrity check
  of the debug build accepts it: no bucket is left out of range and no element is lost by an expansion.
\<close>

theorem uthash_refines_list:
  assumes "alloc_bounded alloc" and "length cs < 2 ^ 32" and "list_all call_key_ok cs"
  shows "ut_calls alloc cs None = Inl (Exits (-1))
     \<or> (\<exists>rs head. ut_calls alloc cs None = Inr (rs, head) \<and> list_calls cs [] = (rs, ut_list head) \<and> HASH_FSCK head)"
proof -
  have e: "ut_list None = []" by (simp add: ut_list_def HASH_ITER_def)
  have "exits_or (\<lambda>(rs, head'). ut_ok head' \<and> list_calls cs (ut_list None) = (rs, ut_list head')) (ut_calls alloc cs None)"
    using assms by (intro ut_calls_refine) (simp_all add: ut_ok_def ut_list_def HASH_ITER_def)
  then show ?thesis unfolding e by (cases "ut_calls alloc cs None") (auto simp: ut_fsck)
qed


theorem uthash_refines_list_witness:
  "let cs = [CAdd True ''a'' (1 :: nat), CAdd True ''b'' 2, CFind (Some ''b''), CRemove ''a'' (Some ''x''), CSize] in
   \<exists>head. ut_calls (\<lambda>b. b < 4096) cs None = Inr ([RCode 0, RCode 0, RFound 0 (Some 2), RRemoved 0 (Some (Some ())), RSize 0 (Some 1)], head)
     \<and> ut_list head = [(''b'', 2)] \<and> HASH_FSCK head"
proof -
  let ?cs = "[CAdd True ''a'' (1 :: nat), CAdd True ''b'' 2, CFind (Some ''b''), CRemove ''a'' (Some ''x''), CSize]"
  have "ut_calls (\<lambda>b. b < 4096) ?cs None \<noteq> Inl (Exits (-1))"
    by code_simp
  moreover have "list_calls ?cs [] = ([RCode 0, RCode 0, RFound 0 (Some 2), RRemoved 0 (Some (Some ())), RSize 0 (Some 1)], [(''b'', 2)])"
    by code_simp
  moreover have "alloc_bounded (\<lambda>b. b < 4096)" by (simp add: alloc_bounded_def)
  ultimately show ?thesis using uthash_refines_list [of "\<lambda>b. b < 4096" ?cs] unfolding Let_def by auto
qed

end
