(* ===== verification/NRM_Alloc.thy ===== *)
theory NRM_Alloc
  imports NRM_Prelude
begin

text \<open>
  The allocation macros (include/nrm/utils/alloc.h): one block of memory for several objects, such as a role
  and its data, laid out as the fields of an anonymous structure.

  The macros are modelled by what the preprocessor makes of them: a macro that does not exist is \<open>None\<close>, so is a field that the
  structure does not have.  A type is its size and its alignment, and the layout is that of the platform's C: each field at the
  next multiple of its alignment, the whole rounded up to the largest one.
\<close>

record ctype =
  ty_size :: nat
  ty_align :: nat

section \<open>The preprocessor\<close>

datatype pp_arg = PType ctype | PNum nat | PUnderscore

definition PP_ARG_N :: "pp_arg list \<Rightarrow> pp_arg option" where
  "PP_ARG_N args = (if 36 < length args then Some (args ! 36) else None)"

definition VA_NARG :: "pp_arg list \<Rightarrow> pp_arg option" where
  "VA_NARG args = PP_ARG_N (args @ map PNum (rev [1..<37]) @ [PUnderscore])"

definition PLUS_1 :: "nat \<Rightarrow> nat option" where
  "PLUS_1 n = (if n \<le> 36 then Some (n + 1) else None)"

text \<open>\<open>NRM_DECL_1\<close> to \<open>NRM_DECL_36\<close>, by their number: the fields with the number in their name.\<close>

fun NRM_DECL :: "nat \<Rightarrow> nat \<Rightarrow> pp_arg list \<Rightarrow> (nat \<times> ctype) list option" where
  "NRM_DECL (Suc 0) N (PType t # _) = Some [(N, t)]"
| "NRM_DECL (Suc (Suc k)) N (PType t # args) =
     (if Suc (Suc k) > 36 then None
      else case PLUS_1 N of None \<Rightarrow> None | Some N' \<Rightarrow> map_option ((#) (N, t)) (NRM_DECL (Suc k) N' args))"
| "NRM_DECL _ _ _ = None"

definition NRM_STRUCT_DECL :: "ctype list \<Rightarrow> (nat \<times> ctype) list option" where
  "NRM_STRUCT_DECL ts =
     (case VA_NARG (map PType ts) of Some (PNum k) \<Rightarrow> NRM_DECL k 1 (map PType ts @ [PNum 0]) | _ \<Rightarrow> None)"


section \<open>The layout\<close>

definition align_up :: "nat \<Rightarrow> nat \<Rightarrow> nat" where
  "align_up n a = (n + a - 1) div a * a"

fun field_offsets :: "nat \<Rightarrow> (nat \<times> ctype) list \<Rightarrow> (nat \<times> nat) list" where
  "field_offsets off [] = []"
| "field_offsets off ((N, t) # fs) = (N, align_up off (ty_align t)) # field_offsets (align_up off (ty_align t) + ty_size t) fs"

fun fields_end :: "nat \<Rightarrow> (nat \<times> ctype) list \<Rightarrow> nat" where
  "fields_end off [] = off"
| "fields_end off ((N, t) # fs) = fields_end (align_up off (ty_align t) + ty_size t) fs"

definition struct_size :: "(nat \<times> ctype) list \<Rightarrow> nat" where
  "struct_size fs = align_up (fields_end 0 fs) (fold (\<lambda>(_, t). max (ty_align t)) fs 1)"

definition NRM_SIZEOF_ALIGNED :: "ctype list \<Rightarrow> nat option" where
  "NRM_SIZEOF_ALIGNED ts = map_option struct_size (NRM_STRUCT_DECL ts)"

definition NRM_OFFSETOF_ALIGNED :: "nat \<Rightarrow> ctype list \<Rightarrow> nat option" where
  "NRM_OFFSETOF_ALIGNED N ts = (case NRM_STRUCT_DECL ts of None \<Rightarrow> None | Some fs \<Rightarrow> map_of (field_offsets 0 fs) N)"

text \<open>\<open>calloc\<close> gives the address of a zeroed block of that size, or NULL.\<close>

definition NRM_INNER_MALLOC :: "(nat \<Rightarrow> nat option) \<Rightarrow> ctype list \<Rightarrow> nat option option" where
  "NRM_INNER_MALLOC calloc ts = map_option calloc (NRM_SIZEOF_ALIGNED ts)"

definition NRM_INNER_MALLOC_GET_FIELD :: "nat \<Rightarrow> nat \<Rightarrow> ctype list \<Rightarrow> nat option" where
  "NRM_INNER_MALLOC_GET_FIELD ptr N ts = map_option ((+) ptr) (NRM_OFFSETOF_ALIGNED N ts)"


section \<open>Lemmas\<close>

lemma align_up_ge:
  assumes "0 < a"
  shows "n \<le> align_up n a"
proof -
  have "(n + a - 1) div a * a + (n + a - 1) mod a = n + a - 1" by simp
  moreover have "(n + a - 1) mod a < a" using assms by simp
  ultimately show ?thesis unfolding align_up_def by linarith
qed

lemma align_up_dvd: "a dvd align_up n a"
  by (simp add: align_up_def)

lemma align_up_0 [simp]: "0 < a \<Longrightarrow> align_up 0 a = 0"
  by (simp add: align_up_def)

text \<open>Up to 36 types are counted right and become fields named from 1 on, in the order given.\<close>

lemma VA_NARG_counts: "0 < length ts \<Longrightarrow> length ts \<le> 36 \<Longrightarrow> VA_NARG (map PType ts) = Some (PNum (length ts))"
  by (simp add: VA_NARG_def PP_ARG_N_def nth_append rev_nth)

lemma NRM_DECL_names:
  "ts \<noteq> [] \<Longrightarrow> 0 < N \<Longrightarrow> N + length ts \<le> 37 \<Longrightarrow> NRM_DECL (length ts) N (map PType ts @ rest) = Some (enumerate N ts)"
proof (induction ts arbitrary: N)
  case (Cons t ts)
  then show ?case by (cases ts) (simp_all add: PLUS_1_def)
qed simp

lemma NRM_STRUCT_DECL_fields: "ts \<noteq> [] \<Longrightarrow> length ts \<le> 36 \<Longrightarrow> NRM_STRUCT_DECL ts = Some (enumerate 1 ts)"
  using NRM_DECL_names [of ts 1 "[PNum 0]"] VA_NARG_counts [of ts] by (simp add: NRM_STRUCT_DECL_def)

lemma NRM_STRUCT_DECL_too_many:
  assumes "36 < length ts"
  shows "NRM_STRUCT_DECL ts = None"
  using assms by (simp add: NRM_STRUCT_DECL_def VA_NARG_def PP_ARG_N_def nth_append)

text \<open>Offsets by position: aligned, in order and inside.\<close>

lemma offsets_none: "map_of (field_offsets start (enumerate N ts)) k = None \<longleftrightarrow> \<not> (N \<le> k \<and> k < N + length ts)"
  by (induction ts arbitrary: N start) auto

lemma fields_end_ge: "\<forall>t \<in> set ts. 0 < ty_align t \<Longrightarrow> start \<le> fields_end start (enumerate N ts)"
proof (induction ts arbitrary: start N)
  case (Cons t ts)
  have "start \<le> align_up start (ty_align t) + ty_size t" using align_up_ge [of "ty_align t" start] Cons.prems by simp
  also have "\<dots> \<le> fields_end \<dots> (enumerate (Suc N) ts)" using Cons by simp
  finally show ?case by simp
qed simp

lemma offsets_inside:
  assumes "map_of (field_offsets start (enumerate N ts)) (N + n) = Some off" and "\<forall>t \<in> set ts. 0 < ty_align t"
  shows "ty_align (ts ! n) dvd off \<and> start \<le> off \<and> off + ty_size (ts ! n) \<le> fields_end start (enumerate N ts)"
  using assms
proof (induction ts arbitrary: n N start)
  case (Cons t ts)
  let ?off = "align_up start (ty_align t)"
  have ge: "start \<le> ?off" using Cons.prems(2) by (simp add: align_up_ge)
  show ?case
  proof (cases n)
    case 0
    then show ?thesis using Cons.prems ge align_up_dvd [of "ty_align t" start] fields_end_ge [of ts "?off + ty_size t" "Suc N"] by simp
  next
    case (Suc k)
    then show ?thesis using Cons.IH [of "?off + ty_size t" "Suc N" k] Cons.prems ge by auto
  qed
qed simp

lemma offsets_ordered:
  assumes "map_of (field_offsets start (enumerate N ts)) (N + m) = Some a" "map_of (field_offsets start (enumerate N ts)) (N + n) = Some b"
    and "m < n" and "\<forall>t \<in> set ts. 0 < ty_align t"
  shows "a + ty_size (ts ! m) \<le> b"
  using assms
proof (induction ts arbitrary: m n N start)
  case (Cons t ts)
  let ?off = "align_up start (ty_align t) + ty_size t"
  obtain k where k: "n = Suc k" using Cons.prems(3) by (cases n) auto
  show ?case
  proof (cases m)
    case 0
    then show ?thesis using Cons.prems k offsets_inside [of ?off "Suc N" ts k b] by simp
  next
    case (Suc j)
    then show ?thesis using Cons.IH [of ?off "Suc N" j k] Cons.prems k by simp
  qed
qed simp

lemma struct_size_ge: "fields_end 0 fs \<le> struct_size fs"
proof -
  have "a \<le> fold (\<lambda>(_, t). max (ty_align t)) fs a" for a :: nat
    by (induction fs arbitrary: a) (auto intro: le_trans [OF max.cobounded2])
  from this [of 1] show ?thesis unfolding struct_size_def by (intro align_up_ge) simp
qed


section \<open>Properties\<close>

text \<open>
  C40. Objects allocated together do not overlap: for up to 36 types, a block of the size that \<open>NRM_INNER_MALLOC\<close> asks for, at an address that
  is aligned for all of them, holds every object: \<open>NRM_INNER_MALLOC_GET_FIELD\<close> gives the n-th type an aligned address inside the block, after
  the end of all objects before it, with the first at the address of the block itself (so the block can be freed through it).
  There is no other field, and with more than 36 types there is no such structure.
\<close>

theorem nrm_inner_malloc_fields:
  assumes al: "\<forall>t \<in> set ts. 0 < ty_align t \<and> ty_align t dvd p" and ts: "ts \<noteq> []"
  shows "if length ts \<le> 36 then
      \<exists>size. (\<forall>calloc. NRM_INNER_MALLOC calloc ts = Some (calloc size)) \<and> NRM_INNER_MALLOC_GET_FIELD p 1 ts = Some p
        \<and> (\<forall>N. NRM_INNER_MALLOC_GET_FIELD p N ts \<noteq> None \<longleftrightarrow> 1 \<le> N \<and> N \<le> length ts)
        \<and> (\<forall>n q. NRM_INNER_MALLOC_GET_FIELD p (Suc n) ts = Some q \<longrightarrow>
             ty_align (ts ! n) dvd q \<and> p \<le> q \<and> q + ty_size (ts ! n) \<le> p + size
           \<and> (\<forall>m < n. \<forall>q'. NRM_INNER_MALLOC_GET_FIELD p (Suc m) ts = Some q' \<longrightarrow> q' + ty_size (ts ! m) \<le> q))
    else NRM_SIZEOF_ALIGNED ts = None"
proof (cases "length ts \<le> 36")
  case True
  let ?fs = "enumerate 1 ts"
  have s: "NRM_STRUCT_DECL ts = Some ?fs" using NRM_STRUCT_DECL_fields [OF ts True] .
  have off: "NRM_INNER_MALLOC_GET_FIELD p N ts = map_option ((+) p) (map_of (field_offsets 0 ?fs) N)" for N
    by (simp add: NRM_INNER_MALLOC_GET_FIELD_def NRM_OFFSETOF_ALIGNED_def s)
  have pos: "\<forall>t \<in> set ts. 0 < ty_align t" using al by blast
  have "NRM_INNER_MALLOC_GET_FIELD p 1 ts = Some p" unfolding off using ts al by (cases ts) simp_all
  moreover have "NRM_INNER_MALLOC_GET_FIELD p N ts \<noteq> None \<longleftrightarrow> 1 \<le> N \<and> N \<le> length ts" for N using offsets_none [of 0 1 ts N] by (auto simp: off)
  moreover have "ty_align (ts ! n) dvd q \<and> p \<le> q \<and> q + ty_size (ts ! n) \<le> p + struct_size ?fs
      \<and> (\<forall>m < n. \<forall>q'. NRM_INNER_MALLOC_GET_FIELD p (Suc m) ts = Some q' \<longrightarrow> q' + ty_size (ts ! m) \<le> q)"
    if q: "NRM_INNER_MALLOC_GET_FIELD p (Suc n) ts = Some q" for n q
  proof -
    obtain a where a: "map_of (field_offsets 0 ?fs) (1 + n) = Some a" "q = p + a" using q by (auto simp: off)
    have "n < length ts" using offsets_none [of 0 1 ts "1 + n"] a(1) by auto
    then have "ty_align (ts ! n) dvd p" using al by simp
    then show ?thesis
      using offsets_inside [OF a(1) pos] struct_size_ge [of ?fs] offsets_ordered [OF _ a(1) _ pos] a(2) by (auto simp: off)
  qed
  ultimately show ?thesis using True by (auto simp: NRM_INNER_MALLOC_def NRM_SIZEOF_ALIGNED_def s)
qed (use NRM_STRUCT_DECL_too_many [of ts] in \<open>simp add: NRM_SIZEOF_ALIGNED_def\<close>)

theorem nrm_inner_malloc_fields_witness:
  "\<exists>size. NRM_INNER_MALLOC Some [\<lparr>ty_size = 12, ty_align = 4\<rparr>, \<lparr>ty_size = 24, ty_align = 8\<rparr>] = Some (Some size)
     \<and> (\<exists>q. NRM_INNER_MALLOC_GET_FIELD 64 2 [\<lparr>ty_size = 12, ty_align = 4\<rparr>, \<lparr>ty_size = 24, ty_align = 8\<rparr>] = Some q
          \<and> 8 dvd q \<and> 64 + 12 \<le> q \<and> q + 24 \<le> 64 + size)"
proof -
  let ?ts = "[\<lparr>ty_size = 12, ty_align = 4\<rparr>, \<lparr>ty_size = 24, ty_align = 8\<rparr>]"
  have "\<forall>t \<in> set ?ts. 0 < ty_align t \<and> ty_align t dvd 64" by simp
  from nrm_inner_malloc_fields [OF this] obtain size where size: "\<And>calloc. NRM_INNER_MALLOC calloc ?ts = Some (calloc size)"
    "NRM_INNER_MALLOC_GET_FIELD 64 1 ?ts = Some 64" "\<And>N. NRM_INNER_MALLOC_GET_FIELD 64 N ?ts \<noteq> None \<longleftrightarrow> 1 \<le> N \<and> N \<le> length ?ts"
    and f: "\<And>n q. NRM_INNER_MALLOC_GET_FIELD 64 (Suc n) ?ts = Some q \<Longrightarrow>
             ty_align (?ts ! n) dvd q \<and> q + ty_size (?ts ! n) \<le> 64 + size
           \<and> (\<forall>m < n. \<forall>q'. NRM_INNER_MALLOC_GET_FIELD 64 (Suc m) ?ts = Some q' \<longrightarrow> q' + ty_size (?ts ! m) \<le> q)"
    by (auto split: if_splits)
  obtain q where q: "NRM_INNER_MALLOC_GET_FIELD 64 (Suc 1) ?ts = Some q" using size(3) [of "Suc 1"] by auto
  have "8 dvd q" "q + 24 \<le> 64 + size" "64 + 12 \<le> q" using f [OF q] size(2) by auto
  then show ?thesis using size(1) [of Some] q by (auto simp: numeral_2_eq_2)
qed

end
