(* ===== verification/NRM_Bitmap.thy ===== *)
theory NRM_Bitmap
  imports NRM_Prelude "HOL-Library.Word"
begin

text \<open>
  The bitmaps of src/utils/bitmaps.c: 2048 bits kept in 32 words of 64 bits.

  The mask is a list of \<open>64 word\<close>; every operation is the code's arithmetic on it (division
  and remainder by the word width, shifts, bitwise or).  \<open>bitmap_set\<close> is the set of indices a
  mask stands for.  The contract \<open>index_set\<close> says what insertion, membership and clearing do to
  that set, is interpreted on the code's operations, and gives the round trip between bitmaps and
  the arrays of int32 the wire format carries.

  \<open>nrm_bitmap_to_string\<close> is modelled down to its buffer: \<open>snprintf\<close> writes at an offset
  with a limit, and a write past the allocation is a fault.
\<close>

unbundle bit_operations_syntax

definition NRM_BITMAP_MAX :: nat where "NRM_BITMAP_MAX = 2048"
definition NRM_BITMAP_NBITS :: nat where "NRM_BITMAP_NBITS = 64"
definition NRM_BITMAP_SIZE :: nat where "NRM_BITMAP_SIZE = NRM_BITMAP_MAX div 8 div 8"

lemmas bitmap_consts = NRM_BITMAP_MAX_def NRM_BITMAP_NBITS_def NRM_BITMAP_SIZE_def

record nrm_bitmap =
  mask :: "64 word list"

definition NRM_BITMAP_NTH :: "nat \<Rightarrow> nat" where
  "NRM_BITMAP_NTH i = i div NRM_BITMAP_NBITS"

definition NRM_BITMAP_ITH :: "nat \<Rightarrow> nat" where
  "NRM_BITMAP_ITH i = i mod NRM_BITMAP_NBITS"


section \<open>Operations\<close>

definition nrm_bitmap_isset :: "nrm_bitmap option \<Rightarrow> nat \<Rightarrow> int" where
  "nrm_bitmap_isset bitmap i =
     (case bitmap of
        None \<Rightarrow> -1
      | Some b \<Rightarrow>
          if i \<ge> NRM_BITMAP_MAX then -1
          else if mask b ! NRM_BITMAP_NTH i AND push_bit (NRM_BITMAP_ITH i) 1 \<noteq> 0 then 1 else 0)"

definition nrm_bitmap_set :: "nrm_bitmap option \<Rightarrow> nat \<Rightarrow> int \<times> nrm_bitmap option" where
  "nrm_bitmap_set bitmap i =
     (case bitmap of
        None \<Rightarrow> (-1, None)
      | Some b \<Rightarrow>
          if i \<ge> NRM_BITMAP_MAX then (-1, Some b)
          else (0, Some (b\<lparr>mask := (mask b)[NRM_BITMAP_NTH i :=
                   mask b ! NRM_BITMAP_NTH i OR push_bit (NRM_BITMAP_ITH i) 1]\<rparr>)))"

text \<open>The relaxed atomic or-fetch has the same effect on the mask as the plain update.\<close>

definition nrm_bitmap_set_atomic :: "nrm_bitmap option \<Rightarrow> nat \<Rightarrow> int \<times> nrm_bitmap option" where
  "nrm_bitmap_set_atomic bitmap i =
     (case bitmap of
        None \<Rightarrow> (-1, None)
      | Some b \<Rightarrow>
          if i \<ge> NRM_BITMAP_MAX then (-1, Some b)
          else (0, Some (b\<lparr>mask := (mask b)[NRM_BITMAP_NTH i :=
                   mask b ! NRM_BITMAP_NTH i OR push_bit (NRM_BITMAP_ITH i) 1]\<rparr>)))"

text \<open>The inner loop of \<open>nrm_bitmap_nset\<close>: test the low bit, shift right.\<close>

fun nset_bits :: "nat \<Rightarrow> 64 word \<Rightarrow> int \<Rightarrow> int" where
  "nset_bits 0 b nset = nset"
| "nset_bits (Suc n) b nset = nset_bits n (drop_bit 1 b) (nset + (if b AND 1 \<noteq> 0 then 1 else 0))"

fun nset_words :: "64 word list \<Rightarrow> int \<Rightarrow> int" where
  "nset_words [] nset = nset"
| "nset_words (w # ws) nset = nset_words ws (nset_bits NRM_BITMAP_NBITS w nset)"

definition nrm_bitmap_nset :: "nrm_bitmap option \<Rightarrow> int" where
  "nrm_bitmap_nset bitmap =
     (case bitmap of None \<Rightarrow> -1 | Some b \<Rightarrow> nset_words (take NRM_BITMAP_SIZE (mask b)) 0)"

definition nrm_bitmap_copy ::
  "nrm_bitmap option \<Rightarrow> nrm_bitmap option \<Rightarrow> (int \<times> nrm_bitmap) exec" where
  "nrm_bitmap_copy dest src =
     bindE (derefE dest) (\<lambda>d. bindE (derefE src) (\<lambda>s. Inr (0, d\<lparr>mask := mask s\<rparr>)))"

text \<open>\<open>memcmp\<close> on the bytes of a little-endian machine.\<close>

definition word_bytes :: "64 word \<Rightarrow> nat list" where
  "word_bytes w = map (\<lambda>k. unat (take_bit 8 (drop_bit (8 * k) w))) [0..<8]"

fun memcmp :: "nat list \<Rightarrow> nat list \<Rightarrow> int" where
  "memcmp (x # xs) (y # ys) = (if x < y then -1 else if y < x then 1 else memcmp xs ys)"
| "memcmp _ _ = 0"

definition nrm_bitmap_cmp :: "nrm_bitmap option \<Rightarrow> nrm_bitmap option \<Rightarrow> int exec" where
  "nrm_bitmap_cmp one two =
     bindE (derefE one) (\<lambda>a. bindE (derefE two) (\<lambda>b.
       Inr (memcmp (concat (map word_bytes (mask a))) (concat (map word_bytes (mask b))))))"

definition nrm_bitmap_reset :: "nrm_bitmap option \<Rightarrow> (int \<times> nrm_bitmap) exec" where
  "nrm_bitmap_reset bitmap =
     bindE (derefE bitmap) (\<lambda>b. Inr (0, b\<lparr>mask := replicate NRM_BITMAP_SIZE 0\<rparr>))"

text \<open>
  The loop of \<open>nrm_bitmap_to_array\<close>; \<open>items\<close> is the block that \<open>calloc\<close> returned,
  and a store outside it is a fault.
\<close>

function to_array_loop ::
  "nrm_bitmap option \<Rightarrow> nat \<Rightarrow> nat \<Rightarrow> nat \<Rightarrow> int list \<Rightarrow> int list exec" where
  "to_array_loop bm sz i k items =
     (if i < NRM_BITMAP_MAX \<and> k < sz
      then if nrm_bitmap_isset bm i \<noteq> 0
           then if k < length items then to_array_loop bm sz (i + 1) (k + 1) (items[k := s32 (int i)])
                else Inl OutOfBounds
           else to_array_loop bm sz (i + 1) k items
      else Inr items)"
  by pat_completeness auto
termination
  by (relation "measure (\<lambda>(bm, sz, i, k, items). NRM_BITMAP_MAX - i)") auto

declare to_array_loop.simps [simp del]

definition nrm_bitmap_to_array ::
  "bool \<Rightarrow> nrm_bitmap option \<Rightarrow> (int \<times> nat \<times> int list option) exec" where
  "nrm_bitmap_to_array calloc_ok bm =
     (let sz = nat (u64 (nrm_bitmap_nset bm)) in
      if \<not> calloc_ok then Inr (- NRM_ENOMEM, sz, None)
      else bindE (to_array_loop bm sz 0 0 (replicate sz 0)) (\<lambda>items. Inr (0, sz, Some items)))"

text \<open>The int32 items become \<open>unsigned int\<close> indices, so a negative one is out of range.\<close>

fun from_array_loop :: "int list \<Rightarrow> nrm_bitmap option \<Rightarrow> nrm_bitmap option" where
  "from_array_loop [] bm = bm"
| "from_array_loop (x # xs) bm = from_array_loop xs (snd (nrm_bitmap_set bm (nat (u32 x))))"

definition nrm_bitmap_from_array :: "nrm_bitmap option \<Rightarrow> int list \<Rightarrow> (int \<times> nrm_bitmap option) exec" where
  "nrm_bitmap_from_array bm items =
     bindE (nrm_bitmap_reset bm) (\<lambda>(_, b). Inr (0, from_array_loop items (Some b)))"


section \<open>Printing\<close>

text \<open>
  The buffer of \<open>nrm_bitmap_to_string\<close> with \<open>bufsize\<close> bytes (as \<open>size_t\<close>), the
  offset \<open>cur\<close> and the running \<open>sz\<close>.  \<open>snprintf(cur, n, s)\<close> writes at most
  \<open>n - 1\<close> characters and a terminating zero and returns the length it would have needed.
  For an index \<open>i\<close> from 1 to 2047, \<open>log10f(i) >= k\<close> says that \<open>i\<close> has more than
  \<open>k\<close> digits, and for 0 the logarithm is minus infinity.  \<open>moves\<close> says whether
  \<open>realloc\<close> (assumed to succeed) returns another block: \<open>cur\<close> still points into the old one.
\<close>

definition snprintf_at :: "char list \<Rightarrow> nat \<Rightarrow> nat \<Rightarrow> string \<Rightarrow> (char list \<times> nat) exec" where
  "snprintf_at buf cur n s =
     (if n = 0 then Inr (buf, length s)
      else let out = take (n - 1) s @ [char_of (0 :: nat)] in
        if cur + length out \<le> length buf
        then Inr (take cur buf @ out @ drop (cur + length out) buf, length s)
        else Inl OutOfBounds)"

function to_string_loop ::
  "bool \<Rightarrow> nrm_bitmap option \<Rightarrow> nat \<Rightarrow> nat \<Rightarrow> nat \<Rightarrow> char list \<Rightarrow> nat \<Rightarrow> nat \<Rightarrow> char list exec" where
  "to_string_loop moves bm nbits i printed buf cur sz =
     (if i < NRM_BITMAP_MAX \<and> printed < nbits
      then if nrm_bitmap_isset bm i \<noteq> 0
           then let room = nat (u64 (int (length buf) - int sz));
                    small = (0 < i \<and> room < length (dec_nat i))
                in if small \<and> moves then Inl UseAfterFree
                   else let buf = (if small then buf @ replicate (length buf) (char_of (0 :: nat)) else buf) in
                     (case snprintf_at buf cur (nat (u64 (int (length buf) - int sz)))
                          (if printed \<noteq> 0 then CHR '','' # dec_nat i else dec_nat i) of
                        Inl e \<Rightarrow> Inl e
                      | Inr (buf, used) \<Rightarrow>
                          to_string_loop moves bm nbits (i + 1) (printed + 1) buf (cur + used) (sz + used))
           else to_string_loop moves bm nbits (i + 1) printed buf cur sz
      else Inr buf)"
  by pat_completeness auto
termination
  by (relation "measure (\<lambda>(moves, bm, nbits, i, printed, buf, cur, sz). NRM_BITMAP_MAX - i)") auto

declare to_string_loop.simps [simp del]

definition c_string :: "char list \<Rightarrow> string" where
  "c_string buf = takeWhile (\<lambda>c. c \<noteq> char_of (0 :: nat)) buf"

definition nrm_bitmap_to_string :: "bool \<Rightarrow> bool \<Rightarrow> nrm_bitmap option \<Rightarrow> string option exec" where
  "nrm_bitmap_to_string calloc_ok moves bitmap =
     (case bitmap of
        None \<Rightarrow> Inr None
      | Some b \<Rightarrow>
          bindE (assertE calloc_ok) (\<lambda>_.
          bindE (to_string_loop moves (Some b) (nat (u64 (nrm_bitmap_nset (Some b)))) 0 0
                   (replicate 256 (char_of (0 :: nat))) 0 1) (\<lambda>buf.
          Inr (Some (c_string buf)))))"


section \<open>The set a bitmap stands for\<close>

definition bitmap_wf :: "nrm_bitmap \<Rightarrow> bool" where
  "bitmap_wf b \<longleftrightarrow> length (mask b) = NRM_BITMAP_SIZE"

definition bitmap_mem :: "nrm_bitmap \<Rightarrow> nat \<Rightarrow> bool" where
  "bitmap_mem b i \<longleftrightarrow> i < NRM_BITMAP_MAX \<and> bit (mask b ! (i div 64)) (i mod 64)"

definition bitmap_elems :: "nrm_bitmap \<Rightarrow> nat list" where
  "bitmap_elems b = filter (bitmap_mem b) [0..<NRM_BITMAP_MAX]"

definition nrm_bitmap_empty :: nrm_bitmap where
  "nrm_bitmap_empty = \<lparr>mask = replicate NRM_BITMAP_SIZE 0\<rparr>"

locale index_set =
  fixes invar :: "'s \<Rightarrow> bool"
    and mem :: "'s \<Rightarrow> nat \<Rightarrow> bool"
    and bound :: nat
    and empty :: 's
    and insert_index :: "'s \<Rightarrow> nat \<Rightarrow> 's"
  assumes empty_invar: "invar empty"
    and empty_mem: "\<not> mem empty i"
    and insert_invar: "invar s \<Longrightarrow> invar (insert_index s i)"
    and insert_mem: "invar s \<Longrightarrow> mem (insert_index s i) j \<longleftrightarrow> mem s j \<or> (j = i \<and> i < bound)"
    and mem_ext: "invar s \<Longrightarrow> invar t \<Longrightarrow> (\<And>i. mem s i \<longleftrightarrow> mem t i) \<Longrightarrow> s = t"
    and mem_bound: "mem s i \<Longrightarrow> i < bound"
begin

lemma foldl_insert_invar: "invar s \<Longrightarrow> invar (foldl insert_index s xs)"
  by (induction xs arbitrary: s) (simp_all add: insert_invar)

lemma foldl_insert_mem:
  "invar s \<Longrightarrow> mem (foldl insert_index s xs) j \<longleftrightarrow> mem s j \<or> (j \<in> set xs \<and> j < bound)"
  by (induction xs arbitrary: s) (auto simp: insert_invar insert_mem)

lemma rebuild:
  assumes "invar s" and "\<And>i. i \<in> set xs \<longleftrightarrow> mem s i"
  shows "foldl insert_index empty xs = s"
  using assms mem_bound
  by (intro mem_ext) (auto simp: foldl_insert_invar empty_invar foldl_insert_mem empty_mem)

lemma insert_idem: "invar s \<Longrightarrow> mem s i \<Longrightarrow> insert_index s i = s"
  by (rule mem_ext) (auto simp: insert_invar insert_mem)

lemma insert_commute:
  "invar s \<Longrightarrow> insert_index (insert_index s i) j = insert_index (insert_index s j) i"
  by (rule mem_ext) (auto simp: insert_invar insert_mem)

end

definition bitmap_add :: "nrm_bitmap \<Rightarrow> nat \<Rightarrow> nrm_bitmap" where
  "bitmap_add b i = the (snd (nrm_bitmap_set (Some b) i))"

lemma nrm_bitmap_set_Some:
  "nrm_bitmap_set (Some b) i = ((if i < NRM_BITMAP_MAX then 0 else -1), Some (bitmap_add b i))"
  by (simp add: nrm_bitmap_set_def bitmap_add_def)

lemma nrm_bitmap_set_atomic_eq: "nrm_bitmap_set_atomic bm i = nrm_bitmap_set bm i"
  by (simp add: nrm_bitmap_set_atomic_def nrm_bitmap_set_def)

lemma nrm_bitmap_isset_Some:
  "i < NRM_BITMAP_MAX \<Longrightarrow> nrm_bitmap_isset (Some b) i = (if bitmap_mem b i then 1 else 0)"
  by (simp add: nrm_bitmap_isset_def bitmap_mem_def NRM_BITMAP_NTH_def NRM_BITMAP_ITH_def
      NRM_BITMAP_NBITS_def bit_iff_and_push_bit_not_eq_0)

lemma div64_bound: "i < NRM_BITMAP_MAX \<Longrightarrow> i div 64 < NRM_BITMAP_SIZE"
  by (simp add: bitmap_consts less_mult_imp_div_less)

lemma bitmap_mem_add:
  assumes wf: "bitmap_wf b"
  shows "bitmap_mem (bitmap_add b i) j \<longleftrightarrow> bitmap_mem b j \<or> (j = i \<and> i < NRM_BITMAP_MAX)"
proof (cases "i < NRM_BITMAP_MAX \<and> j < NRM_BITMAP_MAX")
  case False
  then show ?thesis by (auto simp: bitmap_mem_def bitmap_add_def nrm_bitmap_set_def)
next
  case True
  have split: "j = i \<longleftrightarrow> j div 64 = i div 64 \<and> j mod 64 = i mod 64"
    by (metis div_mult_mod_eq)
  have len: "i div 64 < length (mask b)" "j div 64 < length (mask b)"
    using True wf div64_bound by (simp_all add: bitmap_wf_def)
  have "bit (push_bit (i mod 64) (1 :: 64 word)) (j mod 64) \<longleftrightarrow> i mod 64 = j mod 64"
    by (auto simp: bit_exp_iff possible_bit_word)
  then show ?thesis
    using True len split
    by (auto simp: bitmap_mem_def bitmap_add_def nrm_bitmap_set_def NRM_BITMAP_NTH_def NRM_BITMAP_ITH_def
        NRM_BITMAP_NBITS_def nth_list_update bit_or_iff)
qed

lemma bitmap_wf_add: "bitmap_wf b \<Longrightarrow> bitmap_wf (bitmap_add b i)"
  by (simp add: bitmap_wf_def bitmap_add_def nrm_bitmap_set_def)

lemma bitmap_ext:
  assumes a: "bitmap_wf a" and b: "bitmap_wf b" and eq: "\<And>i. bitmap_mem a i \<longleftrightarrow> bitmap_mem b i"
  shows "a = b"
proof -
  have "mask a ! k = mask b ! k" if k: "k < NRM_BITMAP_SIZE" for k
  proof (rule bit_word_eqI)
    fix n :: nat assume "n < LENGTH(64)"
    then have n: "n < 64" by simp
    have "64 * k + n < NRM_BITMAP_MAX" using k n by (simp add: bitmap_consts)
    with eq [of "64 * k + n"] n show "bit (mask a ! k) n \<longleftrightarrow> bit (mask b ! k) n"
      by (simp add: bitmap_mem_def)
  qed
  then have "mask a = mask b" using a b by (auto simp: bitmap_wf_def intro: nth_equalityI)
  then show ?thesis by simp
qed

interpretation bm: index_set bitmap_wf bitmap_mem NRM_BITMAP_MAX nrm_bitmap_empty bitmap_add
proof unfold_locales
  show "bitmap_wf nrm_bitmap_empty" by (simp add: bitmap_wf_def nrm_bitmap_empty_def)
  show "\<not> bitmap_mem nrm_bitmap_empty i" for i
    by (auto simp: bitmap_mem_def nrm_bitmap_empty_def dest: div64_bound)
qed (simp_all add: bitmap_wf_add bitmap_mem_add bitmap_ext, simp add: bitmap_mem_def)

lemma set_bitmap_elems: "i \<in> set (bitmap_elems b) \<longleftrightarrow> bitmap_mem b i"
  by (auto simp: bitmap_elems_def bitmap_mem_def)

lemma bitmap_elems_bound: "i \<in> set (bitmap_elems b) \<Longrightarrow> i < NRM_BITMAP_MAX"
  by (simp add: bitmap_elems_def)


section \<open>Counting\<close>

lemma nset_bits_count:
  "nset_bits n b c = c + int (card {i. i < n \<and> bit b i})"
proof (induction n arbitrary: b c)
  case 0
  then show ?case by simp
next
  case (Suc n)
  have "{i. i < Suc n \<and> bit b i}
      = (if bit b 0 then {0} else {}) \<union> Suc ` {i. i < n \<and> bit (drop_bit 1 b) i}"
    by (auto simp: bit_drop_bit_eq image_iff less_Suc_eq_0_disj)
  then have "card {i. i < Suc n \<and> bit b i}
      = (if bit b 0 then 1 else 0) + card {i. i < n \<and> bit (drop_bit 1 b) i}"
    by (auto simp: card_image)
  moreover have "(b AND 1 \<noteq> 0) \<longleftrightarrow> bit b 0"
    using bit_iff_and_push_bit_not_eq_0 [of b 0] by simp
  ultimately show ?case by (simp add: Suc.IH)
qed

lemma nset_words_count: "nset_words ws c = c + (\<Sum>w \<leftarrow> ws. int (card {i. i < 64 \<and> bit w i}))"
  by (induction ws arbitrary: c) (simp_all add: nset_bits_count NRM_BITMAP_NBITS_def)

lemma filter_bits_words:
  "length (filter (\<lambda>i. bit (ws ! (i div 64)) (i mod 64)) [0..<64 * length ws])
     = (\<Sum>w \<leftarrow> ws. card {i. i < 64 \<and> bit (w :: 64 word) i})"
proof (induction ws rule: rev_induct)
  case Nil
  then show ?case by simp
next
  case (snoc w ws)
  let ?n = "64 * length ws"
  have "[0..<64 * length (ws @ [w])] = [0..<?n] @ map (\<lambda>i. ?n + i) [0..<64]"
    by (simp add: map_add_upt upt_add_eq_append [of 0, simplified] add.commute)
      (metis add.commute upt_add_eq_append zero_le)
  moreover have "filter (\<lambda>i. bit ((ws @ [w]) ! (i div 64)) (i mod 64)) [0..<?n]
      = filter (\<lambda>i. bit (ws ! (i div 64)) (i mod 64)) [0..<?n]"
    by (rule filter_cong) (auto simp: nth_append)
  moreover have "length (filter (\<lambda>i. bit ((ws @ [w]) ! (i div 64)) (i mod 64)) (map (\<lambda>i. ?n + i) [0..<64]))
      = card {i. i < 64 \<and> bit w i}"
  proof -
    have "filter (\<lambda>i. bit ((ws @ [w]) ! (i div 64)) (i mod 64)) (map (\<lambda>i. ?n + i) [0..<64])
        = map (\<lambda>i. ?n + i) (filter (\<lambda>i. bit w i) [0..<64])"
      by (auto simp: filter_map o_def nth_append intro!: filter_cong)
    moreover have "length (filter (bit w) [0..<64]) = card {i. i < 64 \<and> bit w i}"
      by (simp add: distinct_length_filter Int_def Collect_conj_eq [symmetric] conj_commute)
    ultimately show ?thesis by simp
  qed
  ultimately show ?case using snoc.IH by simp
qed

lemma sum_list_int: "int (\<Sum>x \<leftarrow> xs. f x) = (\<Sum>x \<leftarrow> xs. int (f x))"
  by (induction xs) simp_all

lemma nrm_bitmap_nset_elems:
  assumes "bitmap_wf b"
  shows "nrm_bitmap_nset (Some b) = int (length (bitmap_elems b))"
proof -
  have "bitmap_elems b = filter (\<lambda>i. bit (mask b ! (i div 64)) (i mod 64)) [0..<NRM_BITMAP_MAX]"
    by (auto simp: bitmap_elems_def bitmap_mem_def intro: filter_cong)
  moreover have "NRM_BITMAP_MAX = 64 * length (mask b)" using assms by (simp add: bitmap_wf_def bitmap_consts)
  ultimately show ?thesis
    using assms filter_bits_words [of "mask b"]
    by (simp add: nrm_bitmap_nset_def nset_words_count bitmap_wf_def o_def sum_list_int)
qed

lemma bitmap_elems_length: "length (bitmap_elems b) \<le> NRM_BITMAP_MAX"
  unfolding bitmap_elems_def using length_filter_le [of "bitmap_mem b" "[0..<NRM_BITMAP_MAX]"] by simp

lemma nset_size_t: "bitmap_wf b \<Longrightarrow> nat (u64 (nrm_bitmap_nset (Some b))) = length (bitmap_elems b)"
  using bitmap_elems_length [of b] by (simp add: nrm_bitmap_nset_elems u64_def bitmap_consts)


section \<open>Arrays\<close>

lemma s32_index: "i < NRM_BITMAP_MAX \<Longrightarrow> s32 (int i) = int i"
  by (simp add: s32_def bitmap_consts)

lemma to_array_loop_elems:
  assumes "k + length (filter (bitmap_mem b) [i..<NRM_BITMAP_MAX]) = sz" and "length items = sz"
  shows "to_array_loop (Some b) sz i k items
     = Inr (take k items @ map int (filter (bitmap_mem b) [i..<NRM_BITMAP_MAX]))"
  using assms
proof (induction "Some b" sz i k items rule: to_array_loop.induct)
  case (1 sz i k items)
  show ?case
  proof (cases "i < NRM_BITMAP_MAX \<and> k < sz")
    case False
    then have "filter (bitmap_mem b) [i..<NRM_BITMAP_MAX] = []" and "sz = k"
      using 1(3) by auto
    then show ?thesis using False 1(4) by (subst to_array_loop.simps) auto
  next
    case True
    then have upt: "[i..<NRM_BITMAP_MAX] = i # [Suc i..<NRM_BITMAP_MAX]" by (simp add: upt_conv_Cons)
    show ?thesis
    proof (cases "bitmap_mem b i")
      case mem: True
      have "to_array_loop (Some b) sz (i + 1) (k + 1) (items[k := s32 (int i)])
          = Inr (take (k + 1) (items[k := s32 (int i)]) @ map int (filter (bitmap_mem b) [i + 1..<NRM_BITMAP_MAX]))"
        using 1 True mem upt by (intro 1(1)) (auto simp: nrm_bitmap_isset_Some)
      then show ?thesis
        using True mem upt 1(4)
        by (subst to_array_loop.simps) (simp add: nrm_bitmap_isset_Some s32_index take_Suc_update)
    next
      case mem: False
      have "to_array_loop (Some b) sz (i + 1) k items
          = Inr (take k items @ map int (filter (bitmap_mem b) [i + 1..<NRM_BITMAP_MAX]))"
        using 1 True mem upt by (intro 1(2)) (auto simp: nrm_bitmap_isset_Some)
      then show ?thesis
        using True mem upt by (subst to_array_loop.simps) (simp add: nrm_bitmap_isset_Some)
    qed
  qed
qed

lemma nrm_bitmap_to_array_ok:
  assumes wf: "bitmap_wf b"
  shows "nrm_bitmap_to_array True (Some b)
     = Inr (0, length (bitmap_elems b), Some (map int (bitmap_elems b)))"
  using to_array_loop_elems [where k = 0 and i = 0 and b = b]
  by (simp add: nrm_bitmap_to_array_def nset_size_t [OF wf] bitmap_elems_def)

lemma from_array_loop_foldl:
  "from_array_loop xs (Some b) = Some (foldl bitmap_add b (map (\<lambda>x. nat (u32 x)) xs))"
  by (induction xs arbitrary: b) (simp_all add: nrm_bitmap_set_Some)

lemma nrm_bitmap_from_array_Some:
  "nrm_bitmap_from_array (Some b) xs
     = Inr (0, Some (foldl bitmap_add nrm_bitmap_empty (map (\<lambda>x. nat (u32 x)) xs)))"
  by (cases b) (simp add: nrm_bitmap_from_array_def nrm_bitmap_reset_def from_array_loop_foldl
      nrm_bitmap_empty_def)

lemma nrm_bitmap_from_array_mem:
  "\<exists>b'. nrm_bitmap_from_array (Some b) xs = Inr (0, Some b') \<and> bitmap_wf b'
     \<and> (\<forall>i. bitmap_mem b' i \<longleftrightarrow> i < NRM_BITMAP_MAX \<and> int i \<in> u32 ` set xs)"
proof -
  have "i \<in> (\<lambda>x. nat (u32 x)) ` set xs \<longleftrightarrow> int i \<in> u32 ` set xs" for i
    by (auto simp: image_iff u32_range intro!: bexI)
  then show ?thesis
    by (auto simp: nrm_bitmap_from_array_Some bm.foldl_insert_invar bm.foldl_insert_mem bm.empty_invar bm.empty_mem)
qed

lemma u32_index: "i < NRM_BITMAP_MAX \<Longrightarrow> nat (u32 (int i)) = i"
  by (simp add: u32_def bitmap_consts)

lemma nrm_bitmap_from_array_elems:
  assumes wf: "bitmap_wf b"
  shows "nrm_bitmap_from_array (Some b0) (map int (bitmap_elems b)) = Inr (0, Some b)"
proof -
  have "map (\<lambda>x. nat (u32 x)) (map int (bitmap_elems b)) = bitmap_elems b"
    by (auto simp: u32_index bitmap_elems_bound intro: map_idI)
  then show ?thesis
    using bm.rebuild [OF wf, of "bitmap_elems b"] by (simp add: nrm_bitmap_from_array_Some set_bitmap_elems)
qed


section \<open>Comparing\<close>

lemma memcmp_eq_0: "length xs = length ys \<Longrightarrow> memcmp xs ys = 0 \<longleftrightarrow> xs = ys"
  by (induction xs ys rule: memcmp.induct) auto

lemma word_bytes_inj: "word_bytes v = word_bytes w \<Longrightarrow> v = w"
proof (rule bit_word_eqI)
  fix n assume eq: "word_bytes v = word_bytes w" and n: "n < LENGTH(64)"
  have "n div 8 < 8" using n by simp
  then have "take_bit 8 (drop_bit (8 * (n div 8)) v) = take_bit 8 (drop_bit (8 * (n div 8)) w)"
    using eq by (simp add: word_bytes_def word_unat_eq_iff [of "take_bit 8 _"])
  then have "bit (take_bit 8 (drop_bit (8 * (n div 8)) v)) (n mod 8)
      = bit (take_bit 8 (drop_bit (8 * (n div 8)) w)) (n mod 8)" by simp
  then show "bit v n = bit w n" by (simp add: bit_take_bit_iff bit_drop_bit_eq)
qed

lemma concat_word_bytes_inj:
  "length xs = length ys \<Longrightarrow> concat (map word_bytes xs) = concat (map word_bytes ys) \<Longrightarrow> xs = ys"
proof (induction xs ys rule: list_induct2)
  case (Cons x xs y ys)
  have "length (word_bytes x) = length (word_bytes y)" by (simp add: word_bytes_def)
  then show ?case using Cons word_bytes_inj by (auto simp: append_eq_append_conv)
qed simp

lemma nrm_bitmap_cmp_0:
  assumes "bitmap_wf a" and "bitmap_wf b"
  shows "\<exists>r. nrm_bitmap_cmp (Some a) (Some b) = Inr r \<and> (r = 0 \<longleftrightarrow> a = b)"
proof -
  have len: "length (mask a) = length (mask b)" using assms by (simp add: bitmap_wf_def)
  have "length (concat (map word_bytes ws)) = 8 * length ws" for ws
    by (induction ws) (simp_all add: word_bytes_def)
  then have "memcmp (concat (map word_bytes (mask a))) (concat (map word_bytes (mask b))) = 0 \<longleftrightarrow> mask a = mask b"
    using len by (simp add: memcmp_eq_0) (metis concat_word_bytes_inj)
  then show ?thesis by (cases a; cases b) (simp add: nrm_bitmap_cmp_def)
qed


section \<open>The printed form\<close>

text \<open>The text the code means to print: the indices separated by commas.\<close>

fun csv :: "nat list \<Rightarrow> string" where
  "csv [] = []"
| "csv (x # xs) = dec_nat x @ concat (map (\<lambda>i. CHR '','' # dec_nat i) xs)"

abbreviation csv_item :: "bool \<Rightarrow> nat \<Rightarrow> string" where
  "csv_item first i \<equiv> (if first then dec_nat i else CHR '','' # dec_nat i)"

lemma csv_snoc: "csv (xs @ [i]) = csv xs @ csv_item (xs = []) i"
  by (cases xs) simp_all

lemma csv_eq_Nil [simp]: "csv xs = [] \<longleftrightarrow> xs = []"
  by (cases xs) (simp_all add: dec_nat_nonempty)

abbreviation NUL :: char where "NUL \<equiv> char_of (0 :: nat)"

abbreviation printed_buf :: "string \<Rightarrow> char list" where
  "printed_buf t \<equiv> t @ replicate (256 - length t) NUL"

lemma snprintf_at_fits:
  assumes "length t + length s \<le> 254"
  shows "snprintf_at (printed_buf t) (length t) (255 - length t) s = Inr (printed_buf (t @ s), length s)"
proof -
  have "replicate (Suc (255 - (length t + length s))) NUL = NUL # replicate (255 - (length t + length s)) NUL"
    by (rule replicate_Suc)
  moreover have "Suc (255 - (length t + length s)) = 256 - (length t + length s)" using assms by simp
  ultimately show ?thesis using assms by (simp add: snprintf_at_def)
qed

lemma room_eq: "n \<le> 254 \<Longrightarrow> nat (u64 (256 - int (Suc n))) = 255 - n"
  by (simp add: u64_def)

lemma to_string_step:
  assumes i: "i < NRM_BITMAP_MAX" "k < nbits" and mem: "bitmap_mem b i"
    and fits: "length t + length (csv_item (k = 0) i) \<le> 254"
  shows "to_string_loop moves (Some b) nbits i k (printed_buf t) (length t) (Suc (length t))
    = (let t' = t @ csv_item (k = 0) i in
       to_string_loop moves (Some b) nbits (Suc i) (Suc k) (printed_buf t') (length t') (Suc (length t')))"
proof -
  have len: "length (printed_buf t) = 256" using fits by (simp split: if_splits)
  have room: "nat (u64 (int (length (printed_buf t)) - int (Suc (length t)))) = 255 - length t"
    using fits room_eq [of "length t"] len by (simp split: if_splits)
  have digits: "\<not> 255 - length t < length (dec_nat i)" using fits by (simp split: if_splits)
  have out: "(if k \<noteq> 0 then CHR '','' # dec_nat i else dec_nat i) = csv_item (k = 0) i" by simp
  show ?thesis
    using i mem digits snprintf_at_fits [OF fits]
    by (subst to_string_loop.simps)
      (simp only: room out nrm_bitmap_isset_Some Let_def if_True if_False simp_thms one_neq_zero not_False_eq_True
        split: sum.splits, simp)
qed


lemma to_string_skip:
  assumes "i < NRM_BITMAP_MAX" and "\<not> bitmap_mem b i"
  shows "to_string_loop moves (Some b) nbits i k buf cur sz
    = (if k < nbits then to_string_loop moves (Some b) nbits (Suc i) k buf cur sz else Inr buf)"
  using assms by (subst to_string_loop.simps) (simp add: nrm_bitmap_isset_Some)

lemma to_string_done: "\<not> k < nbits \<Longrightarrow> to_string_loop moves bm nbits i k buf cur sz = Inr buf"
  by (subst to_string_loop.simps) simp

abbreviation elems_below :: "nrm_bitmap \<Rightarrow> nat \<Rightarrow> nat list" where
  "elems_below b i \<equiv> filter (bitmap_mem b) [0..<i]"

lemma elems_below_count:
  assumes "bitmap_mem b i"
  shows "length (elems_below b i) < length (bitmap_elems b)"
proof -
  have i: "i < NRM_BITMAP_MAX" using assms by (simp add: bitmap_mem_def)
  have "[0..<NRM_BITMAP_MAX] = [0..<i] @ i # [Suc i..<NRM_BITMAP_MAX]"
    using i upt_add_eq_append [of 0 i "NRM_BITMAP_MAX - i"] by (simp add: upt_conv_Cons)
  then show ?thesis using assms by (simp add: bitmap_elems_def)
qed

lemma to_string_prefix:
  assumes "i \<le> NRM_BITMAP_MAX" and "length (csv (elems_below b i)) \<le> 254"
  shows "to_string_loop moves (Some b) (length (bitmap_elems b)) 0 0 (replicate 256 NUL) 0 1
    = to_string_loop moves (Some b) (length (bitmap_elems b)) i (length (elems_below b i))
        (printed_buf (csv (elems_below b i))) (length (csv (elems_below b i))) (Suc (length (csv (elems_below b i))))"
  using assms
proof (induction i)
  case 0
  then show ?case by simp
next
  case (Suc i)
  let ?xs = "elems_below b i"
  show ?case
  proof (cases "bitmap_mem b i")
    case True
    have csv: "csv (elems_below b (Suc i)) = csv ?xs @ csv_item (?xs = []) i"
      using True csv_snoc [of ?xs i] by simp
    then have fits: "length (csv ?xs) + length (csv_item (length ?xs = 0) i) \<le> 254"
      using Suc.prems(2) by simp
    have "to_string_loop moves (Some b) (length (bitmap_elems b)) 0 0 (replicate 256 NUL) 0 1
        = to_string_loop moves (Some b) (length (bitmap_elems b)) i (length ?xs) (printed_buf (csv ?xs))
            (length (csv ?xs)) (Suc (length (csv ?xs)))"
      using Suc.prems(1) fits by (intro Suc.IH) simp_all
    also note to_string_step [OF _ elems_below_count [OF True] True fits]
    finally show ?thesis using Suc.prems(1) True csv by (simp add: Let_def)
  next
    case False
    then have "to_string_loop moves (Some b) (length (bitmap_elems b)) 0 0 (replicate 256 NUL) 0 1
        = to_string_loop moves (Some b) (length (bitmap_elems b)) i (length ?xs) (printed_buf (csv ?xs))
            (length (csv ?xs)) (Suc (length (csv ?xs)))"
      using Suc.prems by (intro Suc.IH) simp_all
    with False Suc.prems(1) show ?thesis by (simp add: to_string_skip to_string_done)
  qed
qed

lemma csv_no_NUL: "NUL \<notin> set (csv xs)"
proof -
  have digit: "NUL \<notin> set (dec_nat n)" for n using set_dec_nat [of n] by auto
  moreover have "NUL \<noteq> CHR '',''" by code_simp
  ultimately show ?thesis by (induction xs rule: csv.induct) auto
qed

lemma c_string_printed: "NUL \<notin> set t \<Longrightarrow> length t < 256 \<Longrightarrow> c_string (printed_buf t) = t"
  by (induction t) (auto simp: c_string_def takeWhile_append2 intro: takeWhile_append2 [THEN trans])

lemma bitmap_string_short:
  assumes wf: "bitmap_wf b" and short: "length (csv (bitmap_elems b)) \<le> 254"
  shows "nrm_bitmap_to_string True moves (Some b) = Inr (Some (csv (bitmap_elems b)))"
proof -
  have "to_string_loop moves (Some b) (length (bitmap_elems b)) 0 0 (replicate 256 NUL) 0 1
      = Inr (printed_buf (csv (bitmap_elems b)))"
    using to_string_prefix [of NRM_BITMAP_MAX b moves] short
    by (simp add: bitmap_elems_def [symmetric] to_string_done)
  moreover have "c_string (printed_buf (csv (bitmap_elems b))) = csv (bitmap_elems b)"
    using short by (intro c_string_printed csv_no_NUL) simp
  ultimately show ?thesis by (simp add: nrm_bitmap_to_string_def nset_size_t [OF wf])
qed

lemma csv_88: "length (csv [0..<88]) = 253"
  by code_simp


section \<open>Properties\<close>

text \<open>
  A bitmap and the int32 array that represents it on the wire determine each other:
  \<open>nrm_bitmap_to_array\<close> returns the indices that are set, in increasing order, with their
  number, and \<open>nrm_bitmap_from_array\<close> on that array rebuilds the very same mask, whatever the
  destination held before.
\<close>

theorem nrm_bitmap_array_roundtrip:
  assumes "bitmap_wf b"
  shows "\<exists>items. nrm_bitmap_to_array True (Some b) = Inr (0, length items, Some items)
     \<and> sorted_wrt (<) items \<and> (\<forall>i. int i \<in> set items \<longleftrightarrow> bitmap_mem b i)
     \<and> nrm_bitmap_from_array (Some b0) items = Inr (0, Some b)"
proof -
  have "sorted_wrt (<) (map int (bitmap_elems b))"
    by (simp add: bitmap_elems_def sorted_wrt_map sorted_wrt_filter)
  moreover have "int i \<in> set (map int (bitmap_elems b)) \<longleftrightarrow> bitmap_mem b i" for i
    using set_bitmap_elems [of i b] by auto
  ultimately show ?thesis
    using nrm_bitmap_to_array_ok [OF assms] nrm_bitmap_from_array_elems [OF assms, of b0]
    by (intro exI [of _ "map int (bitmap_elems b)"]) simp
qed

theorem nrm_bitmap_array_roundtrip_witness:
  "let b = \<lparr>mask = 5 # replicate 31 0\<rparr> in
   \<exists>items. nrm_bitmap_to_array True (Some b) = Inr (0, length items, Some items)
     \<and> nrm_bitmap_from_array (Some nrm_bitmap_empty) items = Inr (0, Some b)"
  using nrm_bitmap_array_roundtrip [of "\<lparr>mask = 5 # replicate 31 0\<rparr>" nrm_bitmap_empty]
  by (auto simp: Let_def bitmap_wf_def bitmap_consts)

text \<open>
  \<open>nrm_bitmap_to_string\<close> prints the indices that are set, separated by commas, as long as
  the whole text has at most 254 characters: no reallocation and no truncation happens.
\<close>

theorem nrm_bitmap_to_string_short:
  assumes "bitmap_wf b" and "length (csv (bitmap_elems b)) \<le> 254"
  shows "nrm_bitmap_to_string True moves (Some b) = Inr (Some (csv (bitmap_elems b)))"
  using assms by (rule bitmap_string_short)

theorem nrm_bitmap_to_string_short_witness:
  "nrm_bitmap_to_string True True (Some \<lparr>mask = replicate 32 0\<rparr>) = Inr (Some [])"
proof -
  let ?b = "\<lparr>mask = replicate 32 0\<rparr>"
  have "bitmap_elems ?b = []"
    using bm.empty_mem by (simp add: bitmap_elems_def nrm_bitmap_empty_def bitmap_consts)
  then show ?thesis
    using nrm_bitmap_to_string_short [of ?b True] by (simp add: bitmap_wf_def bitmap_consts)
qed

text \<open>
  C38. A bitmap with the indices 0 to 89 set (the cpus of any machine with 90 or more) makes
  \<open>nrm_bitmap_to_string\<close> write past its buffer: the room test compares a logarithm with the
  remaining bytes, misses the comma and the terminating byte, \<open>snprintf\<close> truncates, the
  remaining size wraps around below zero and the next item lands outside the allocation.
\<close>

theorem nrm_bitmap_to_string_overflow:
  assumes wf: "bitmap_wf b" and low: "\<forall>i < 90. bitmap_mem b i"
  shows "nrm_bitmap_to_string True moves (Some b) = Inl OutOfBounds"
proof -
  have below: "elems_below b 88 = [0..<88]" using low by (simp add: filter_id_conv)
  have more: "89 < length (bitmap_elems b)"
    using elems_below_count [of b 89] low by (simp add: filter_id_conv)
  define t where "t = csv [0..<88]"
  have len: "length t = 253" unfolding t_def by (rule csv_88)
  let ?buf = "t @ [CHR '','', NUL, NUL]"
  have buf: "printed_buf t = t @ [NUL, NUL, NUL]" by (simp add: len numeral_eq_Suc)
  have dec: "dec_nat 88 = ''88''" "dec_nat 89 = ''89''" by code_simp+
  have s1: "snprintf_at (t @ [NUL, NUL, NUL]) 253 2 '',88'' = Inr (?buf, 3)"
    by (simp add: snprintf_at_def len)
  have s2: "snprintf_at ?buf 256 18446744073709551615 '',89'' = Inl OutOfBounds"
    by (simp add: snprintf_at_def len)
  have "to_string_loop moves (Some b) (length (bitmap_elems b)) 89 89 ?buf 256 257 = Inl OutOfBounds"
    using more low s2
    by (subst to_string_loop.simps) (simp add: nrm_bitmap_isset_Some bitmap_consts len dec u64_def)
  moreover have "to_string_loop moves (Some b) (length (bitmap_elems b)) 88 88 (t @ [NUL, NUL, NUL]) 253 254
      = to_string_loop moves (Some b) (length (bitmap_elems b)) 89 89 ?buf 256 257"
    using more low s1
    by (subst to_string_loop.simps) (simp add: nrm_bitmap_isset_Some bitmap_consts len dec u64_def)
  ultimately have "to_string_loop moves (Some b) (length (bitmap_elems b)) 0 0 (replicate 256 NUL) 0 1
      = Inl OutOfBounds"
    using to_string_prefix [of 88 b moves] unfolding below t_def [symmetric] buf
    by (simp add: len bitmap_consts)
  then show ?thesis by (simp add: nrm_bitmap_to_string_def nset_size_t [OF wf])
qed

theorem nrm_bitmap_to_string_overflow_witness:
  "nrm_bitmap_to_string True False (Some \<lparr>mask = replicate 32 (- 1)\<rparr>) = Inl OutOfBounds"
  by (rule nrm_bitmap_to_string_overflow)
    (auto simp: bitmap_wf_def bitmap_consts bitmap_mem_def possible_bit_word)

end
