(* ===== verification/NRM_Scope.thy ===== *)
theory NRM_Scope
  imports NRM_Bitmap
begin

text \<open>
  Scopes (src/utils/scopes.c), sensors (src/sensor.c) and slices (src/slices.c): the named objects of
  the daemon's state.  A scope names sets of cpus, numa nodes and gpus, one bitmap each.

  The uuid fields hold the contents of the reference-counted strings of NRM_String; names are
  not NULL.  A pointer to an object is an option; \<open>&s->maps[type]\<close> on a NULL \<open>s\<close> is a
  NULL dereference, and an index past the three maps leaves the object.
\<close>

definition NRM_SCOPE_TYPE_CPU :: nat where "NRM_SCOPE_TYPE_CPU = 0"
definition NRM_SCOPE_TYPE_NUMA :: nat where "NRM_SCOPE_TYPE_NUMA = 1"
definition NRM_SCOPE_TYPE_GPU :: nat where "NRM_SCOPE_TYPE_GPU = 2"
definition NRM_SCOPE_TYPE_MAX :: nat where "NRM_SCOPE_TYPE_MAX = 3"

lemmas scope_consts = NRM_SCOPE_TYPE_CPU_def NRM_SCOPE_TYPE_NUMA_def NRM_SCOPE_TYPE_GPU_def NRM_SCOPE_TYPE_MAX_def

record nrm_scope =
  scope_uuid :: string
  maps :: "nrm_bitmap list"

record nrm_sensor =
  sensor_uuid :: string

record nrm_slice =
  slice_uuid :: string


section \<open>Scopes\<close>

definition nrm_scope_create :: "string \<Rightarrow> nrm_scope" where
  "nrm_scope_create name = \<lparr>scope_uuid = name, maps = replicate NRM_SCOPE_TYPE_MAX nrm_bitmap_empty\<rparr>"

definition scope_map :: "nrm_scope option \<Rightarrow> nat \<Rightarrow> nrm_bitmap exec" where
  "scope_map s type =
     bindE (derefE s) (\<lambda>s. if type < length (maps s) then Inr (maps s ! type) else Inl OutOfBounds)"

definition nrm_scope_add :: "nrm_scope option \<Rightarrow> nat \<Rightarrow> nat \<Rightarrow> (int \<times> nrm_scope) exec" where
  "nrm_scope_add s type num =
     bindE (scope_map s type) (\<lambda>m.
     case nrm_bitmap_set (Some m) num of (err, m') \<Rightarrow>
       Inr (err, (the s)\<lparr>maps := (maps (the s))[type := the m']\<rparr>))"

definition nrm_scope_add_atomic :: "nrm_scope option \<Rightarrow> nat \<Rightarrow> nat \<Rightarrow> (int \<times> nrm_scope) exec" where
  "nrm_scope_add_atomic s type num =
     bindE (scope_map s type) (\<lambda>m.
     case nrm_bitmap_set_atomic (Some m) num of (err, m') \<Rightarrow>
       Inr (err, (the s)\<lparr>maps := (maps (the s))[type := the m']\<rparr>))"

definition nrm_scope_length :: "nrm_scope option \<Rightarrow> nat \<Rightarrow> nat exec" where
  "nrm_scope_length s type =
     bindE (scope_map s type) (\<lambda>m. Inr (nat (u64 (nrm_bitmap_nset (Some m)))))"

text \<open>The object is gone after the call; NULL is not tested for.\<close>

definition nrm_scope_destroy :: "nrm_scope option \<Rightarrow> int exec" where
  "nrm_scope_destroy s = bindE (derefE s) (\<lambda>_. Inr 0)"

fun scope_copy_maps :: "nrm_scope \<Rightarrow> nat list \<Rightarrow> nrm_scope \<Rightarrow> nrm_scope exec" where
  "scope_copy_maps s [] ret = Inr ret"
| "scope_copy_maps s (i # is) ret =
     bindE (scope_map (Some ret) i) (\<lambda>d.
     bindE (scope_map (Some s) i) (\<lambda>m.
     bindE (nrm_bitmap_copy (Some d) (Some m)) (\<lambda>(_, d).
     scope_copy_maps s is (ret\<lparr>maps := (maps ret)[i := d]\<rparr>))))"

definition nrm_scope_dup :: "nrm_scope option \<Rightarrow> nrm_scope exec" where
  "nrm_scope_dup s =
     bindE (derefE s) (\<lambda>s. scope_copy_maps s [0..<NRM_SCOPE_TYPE_MAX] (nrm_scope_create (scope_uuid s)))"

fun scope_cmp_maps :: "nrm_scope option \<Rightarrow> nrm_scope option \<Rightarrow> nat list \<Rightarrow> int exec" where
  "scope_cmp_maps one two [] = Inr 0"
| "scope_cmp_maps one two (i # is) =
     bindE (scope_map one i) (\<lambda>a.
     bindE (scope_map two i) (\<lambda>b.
     bindE (nrm_bitmap_cmp (Some a) (Some b)) (\<lambda>r.
     if r \<noteq> 0 then Inr 1 else scope_cmp_maps one two is)))"

definition nrm_scope_cmp :: "nrm_scope option \<Rightarrow> nrm_scope option \<Rightarrow> int exec" where
  "nrm_scope_cmp one two = scope_cmp_maps one two [0..<NRM_SCOPE_TYPE_MAX]"

text \<open>
  The format of \<open>nrm_scope_snprintf\<close>, cut at its four \<open>%s\<close>.  The buffer receives at most
  \<open>bufsize - 1\<close> characters of the text; the result is the code returned and what was written.
\<close>

definition scope_format :: "string list" where
  "scope_format = [''name: '', '': {\"cpu\": ['', ''], \"numa\": ['', ''], \"gpu\": ['', '']}'']"

definition sizeof_scope_format :: nat where
  "sizeof_scope_format = length (concat scope_format) + 4 * 2 + 1"

definition scope_text :: "string \<Rightarrow> string list \<Rightarrow> string" where
  "scope_text uuid scopes =
     concat (map2 (\<lambda>f s. f @ s) scope_format (uuid # scopes @ [[]]))"

definition nrm_scope_snprintf :: "bool \<Rightarrow> nat \<Rightarrow> nrm_scope option \<Rightarrow> (int \<times> string option) exec" where
  "nrm_scope_snprintf moves bufsize s =
     bindE (mapE (\<lambda>i. bindE (scope_map s i) (\<lambda>m.
              bindE (nrm_bitmap_to_string True moves (Some m)) derefE)) [0..<NRM_SCOPE_TYPE_MAX]) (\<lambda>scopes.
     let len = sum_list (map length scopes) in
     if bufsize < len + sizeof_scope_format - 6 then Inr (-1, None)
     else Inr (0, Some (take (bufsize - 1) (scope_text (scope_uuid (the s)) scopes))))"

definition nrm_scope_uuid :: "nrm_scope option \<Rightarrow> string exec" where
  "nrm_scope_uuid scope = bindE (derefE scope) (\<lambda>s. Inr (scope_uuid s))"

text \<open>\<open>cpu\<close> and \<open>node\<close> are what \<open>getcpu\<close> reports.\<close>

definition nrm_scope_threadshared :: "nat \<Rightarrow> nat \<Rightarrow> nrm_scope option \<Rightarrow> (int \<times> nrm_scope) exec" where
  "nrm_scope_threadshared cpu node s =
     bindE (nrm_scope_add_atomic s NRM_SCOPE_TYPE_CPU cpu) (\<lambda>(_, s).
     bindE (nrm_scope_add_atomic (Some s) NRM_SCOPE_TYPE_NUMA node) (\<lambda>(_, s). Inr (0, s)))"

definition nrm_scope_threadprivate :: "nat \<Rightarrow> nat \<Rightarrow> nrm_scope option \<Rightarrow> (int \<times> nrm_scope) exec" where
  "nrm_scope_threadprivate cpu node s =
     bindE (nrm_scope_add s NRM_SCOPE_TYPE_CPU cpu) (\<lambda>(_, s).
     bindE (nrm_scope_add (Some s) NRM_SCOPE_TYPE_NUMA node) (\<lambda>(_, s). Inr (0, s)))"


section \<open>Sensors and slices\<close>

definition nrm_sensor_create :: "string \<Rightarrow> nrm_sensor" where
  "nrm_sensor_create name = \<lparr>sensor_uuid = name\<rparr>"

definition nrm_sensor_uuid :: "nrm_sensor option \<Rightarrow> string exec" where
  "nrm_sensor_uuid sensor = bindE (derefE sensor) (\<lambda>s. Inr (sensor_uuid s))"

text \<open>The destroy functions take the address of the pointer and leave NULL in it.\<close>

definition nrm_sensor_destroy :: "nrm_sensor option option \<Rightarrow> nrm_sensor option option" where
  "nrm_sensor_destroy sensor =
     (case sensor of None \<Rightarrow> None | Some None \<Rightarrow> Some None | Some (Some _) \<Rightarrow> Some None)"

definition nrm_slice_create :: "string \<Rightarrow> nrm_slice" where
  "nrm_slice_create name = \<lparr>slice_uuid = name\<rparr>"

definition nrm_slice_uuid :: "nrm_slice option \<Rightarrow> string exec" where
  "nrm_slice_uuid sl = bindE (derefE sl) (\<lambda>s. Inr (slice_uuid s))"

definition nrm_slice_destroy :: "nrm_slice option option \<Rightarrow> nrm_slice option option" where
  "nrm_slice_destroy sl =
     (case sl of None \<Rightarrow> None | Some None \<Rightarrow> Some None | Some (Some _) \<Rightarrow> Some None)"


section \<open>Well-formed scopes\<close>

definition scope_wf :: "nrm_scope \<Rightarrow> bool" where
  "scope_wf s \<longleftrightarrow> length (maps s) = NRM_SCOPE_TYPE_MAX \<and> (\<forall>m \<in> set (maps s). bitmap_wf m)"

lemma scope_wf_create: "scope_wf (nrm_scope_create name)"
  by (simp add: scope_wf_def nrm_scope_create_def bm.empty_invar)

lemma scope_map_wf: "scope_wf s \<Longrightarrow> type < NRM_SCOPE_TYPE_MAX \<Longrightarrow>
    scope_map (Some s) type = Inr (maps s ! type) \<and> bitmap_wf (maps s ! type)"
  by (simp add: scope_map_def scope_wf_def)

lemma nrm_scope_add_ok:
  assumes "scope_wf s" and "type < NRM_SCOPE_TYPE_MAX"
  shows "nrm_scope_add (Some s) type num =
    Inr (if num < NRM_BITMAP_MAX then 0 else -1, s\<lparr>maps := (maps s)[type := bitmap_add (maps s ! type) num]\<rparr>)"
  using scope_map_wf [OF assms] by (simp add: nrm_scope_add_def nrm_bitmap_set_Some)

lemma scope_wf_add:
  assumes "scope_wf s" and "nrm_scope_add (Some s) type num = Inr (err, s')"
  shows "scope_wf s'"
  using assms
  by (auto simp: nrm_scope_add_def nrm_bitmap_set_Some scope_map_def scope_wf_def bitmap_wf_add
      split: if_splits dest!: set_update_subset_insert [THEN subsetD])

lemma scope_cases:
  assumes "scope_wf s"
  obtains a b c where "maps s = [a, b, c]" and "bitmap_wf a" and "bitmap_wf b" and "bitmap_wf c"
proof -
  have "length (maps s) = 3" using assms by (simp add: scope_wf_def scope_consts)
  then obtain a b c where "maps s = [a, b, c]" by (auto simp: numeral_eq_Suc length_Suc_conv)
  then show ?thesis using that assms by (auto simp: scope_wf_def)
qed

lemma upt_scope_types: "[0..<NRM_SCOPE_TYPE_MAX] = [0, 1, 2]"
  by (simp add: scope_consts upt_rec)

lemma nrm_scope_dup_ok: "scope_wf s \<Longrightarrow> nrm_scope_dup (Some s) = Inr s"
  by (erule scope_cases)
    (simp add: nrm_scope_dup_def upt_scope_types scope_map_def nrm_scope_create_def scope_consts
      nrm_bitmap_copy_def numeral_eq_Suc)

lemma nrm_scope_cmp_ok:
  assumes "scope_wf s" and "scope_wf t"
  shows "nrm_scope_cmp (Some s) (Some t) = Inr (if maps s = maps t then 0 else 1)"
proof -
  obtain a b c where s: "maps s = [a, b, c]" "bitmap_wf a" "bitmap_wf b" "bitmap_wf c"
    by (rule scope_cases [OF assms(1)])
  obtain x y z where t: "maps t = [x, y, z]" "bitmap_wf x" "bitmap_wf y" "bitmap_wf z"
    by (rule scope_cases [OF assms(2)])
  obtain p q r where "nrm_bitmap_cmp (Some a) (Some x) = Inr p" "p = 0 \<longleftrightarrow> a = x"
    "nrm_bitmap_cmp (Some b) (Some y) = Inr q" "q = 0 \<longleftrightarrow> b = y"
    "nrm_bitmap_cmp (Some c) (Some z) = Inr r" "r = 0 \<longleftrightarrow> c = z"
    using nrm_bitmap_cmp_0 s t by metis
  then show ?thesis using s(1) t(1)
    by (auto simp: nrm_scope_cmp_def upt_scope_types scope_map_def numeral_eq_Suc)
qed


section \<open>Properties\<close>

text \<open>
  Scopes behave as triples of sets with a name that does not take part in the comparison:
  \<open>nrm_scope_cmp\<close> of two scopes is 0 exactly when they contain the same cpus, numa nodes and
  gpus, \<open>nrm_scope_dup\<close> gives a scope equal to its argument, and \<open>nrm_scope_length\<close> counts
  the members of a type.
\<close>

theorem nrm_scope_sets:
  assumes s: "scope_wf s" and t: "scope_wf t" and type: "type < NRM_SCOPE_TYPE_MAX"
  shows "(nrm_scope_cmp (Some s) (Some t) = Inr 0 \<longleftrightarrow>
      (\<forall>k < NRM_SCOPE_TYPE_MAX. \<forall>i. bitmap_mem (maps s ! k) i \<longleftrightarrow> bitmap_mem (maps t ! k) i))
    \<and> nrm_scope_dup (Some s) = Inr s
    \<and> nrm_scope_length (Some s) type = Inr (card {i. bitmap_mem (maps s ! type) i})"
proof (intro conjI)
  have "maps s = maps t \<longleftrightarrow> (\<forall>k < NRM_SCOPE_TYPE_MAX. maps s ! k = maps t ! k)"
    using s t by (auto simp: scope_wf_def intro: nth_equalityI)
  moreover have "maps s ! k = maps t ! k \<longleftrightarrow> (\<forall>i. bitmap_mem (maps s ! k) i \<longleftrightarrow> bitmap_mem (maps t ! k) i)"
    if "k < NRM_SCOPE_TYPE_MAX" for k
    using bitmap_ext scope_map_wf [OF s that] scope_map_wf [OF t that] by metis
  ultimately show "nrm_scope_cmp (Some s) (Some t) = Inr 0 \<longleftrightarrow>
      (\<forall>k < NRM_SCOPE_TYPE_MAX. \<forall>i. bitmap_mem (maps s ! k) i \<longleftrightarrow> bitmap_mem (maps t ! k) i)"
    using nrm_scope_cmp_ok [OF s t] by simp
  show "nrm_scope_dup (Some s) = Inr s" by (rule nrm_scope_dup_ok [OF s])
  let ?m = "maps s ! type"
  have "distinct (bitmap_elems ?m)" by (simp add: bitmap_elems_def)
  moreover have "set (bitmap_elems ?m) = {i. bitmap_mem ?m i}" using set_bitmap_elems by blast
  ultimately have "length (bitmap_elems ?m) = card {i. bitmap_mem ?m i}" using distinct_card by fastforce
  then show "nrm_scope_length (Some s) type = Inr (card {i. bitmap_mem ?m i})"
    using scope_map_wf [OF s type] by (simp add: nrm_scope_length_def nset_size_t)
qed

theorem nrm_scope_sets_witness:
  "nrm_scope_cmp (Some (nrm_scope_create ''a'')) (Some (nrm_scope_create ''b'')) = Inr 0
   \<and> nrm_scope_dup (Some (nrm_scope_create ''a'')) = Inr (nrm_scope_create ''a'')"
  using nrm_scope_sets [OF scope_wf_create [of "''a''"] scope_wf_create [of "''b''"], of 0]
  by (simp add: nrm_scope_create_def scope_consts)

text \<open>
  When \<open>nrm_scope_snprintf\<close> returns 0 on a scope whose lists are short enough to print, the
  whole text is in the buffer only if the uuid fits in what is left: the test before the call leaves
  the uuid out of the count, so a longer uuid gives a truncated text and still the code 0.
\<close>

theorem nrm_scope_snprintf_truncates:
  assumes s: "scope_wf s" and m: "maps s = [a, b, c]"
    and short: "\<forall>m \<in> {a, b, c}. length (csv (bitmap_elems m)) \<le> 254"
    and scopes: "scopes = [csv (bitmap_elems a), csv (bitmap_elems b), csv (bitmap_elems c)]"
    and fits: "sum_list (map length scopes) + sizeof_scope_format - 6 \<le> bufsize"
  shows "nrm_scope_snprintf moves bufsize (Some s) = Inr (0, Some (take (bufsize - 1) (scope_text (scope_uuid s) scopes)))
    \<and> (take (bufsize - 1) (scope_text (scope_uuid s) scopes) = scope_text (scope_uuid s) scopes \<longleftrightarrow>
      length (scope_uuid s) + sum_list (map length scopes) + sizeof_scope_format - 8 \<le> bufsize)"
proof (intro conjI)
  have wf: "bitmap_wf a" "bitmap_wf b" "bitmap_wf c" using s m by (auto simp: scope_wf_def)
  then have "mapE (\<lambda>i. bindE (scope_map (Some s) i) (\<lambda>m.
        bindE (nrm_bitmap_to_string True moves (Some m)) derefE)) [0..<NRM_SCOPE_TYPE_MAX] = Inr scopes"
    using short by (simp add: upt_scope_types scope_map_def m numeral_eq_Suc scopes bitmap_string_short)
  then show "nrm_scope_snprintf moves bufsize (Some s) = Inr (0, Some (take (bufsize - 1) (scope_text (scope_uuid s) scopes)))"
    using fits by (simp add: nrm_scope_snprintf_def)
  have len: "length (scope_text (scope_uuid s) scopes) + 1
      = length (scope_uuid s) + sum_list (map length scopes) + sizeof_scope_format - 8"
    by (simp add: scope_text_def scope_format_def sizeof_scope_format_def scopes)
  have "0 < bufsize" using fits by (simp add: sizeof_scope_format_def scope_format_def)
  then show "take (bufsize - 1) (scope_text (scope_uuid s) scopes) = scope_text (scope_uuid s) scopes \<longleftrightarrow>
      length (scope_uuid s) + sum_list (map length scopes) + sizeof_scope_format - 8 \<le> bufsize"
    using len take_all_iff [of "bufsize - 1" "scope_text (scope_uuid s) scopes"]
    by (metis One_nat_def Suc_eq_plus1 Suc_le_mono Suc_pred' take_all_iff)
qed

theorem nrm_scope_snprintf_truncates_witness:
  "nrm_scope_snprintf True 45 (Some (nrm_scope_create ''nrm.scope.package.0''))
     = Inr (0, Some (take 44 (scope_text ''nrm.scope.package.0'' [[], [], []])))
   \<and> take 44 (scope_text ''nrm.scope.package.0'' [[], [], []]) \<noteq> scope_text ''nrm.scope.package.0'' [[], [], []]"
proof -
  let ?s = "nrm_scope_create ''nrm.scope.package.0''"
  have e: "bitmap_elems nrm_bitmap_empty = []" by (simp add: bitmap_elems_def bm.empty_mem)
  have m: "maps ?s = [nrm_bitmap_empty, nrm_bitmap_empty, nrm_bitmap_empty]"
    by (simp add: nrm_scope_create_def scope_consts numeral_eq_Suc)
  have u: "scope_uuid ?s = ''nrm.scope.package.0''" by (simp add: nrm_scope_create_def)
  have size: "sizeof_scope_format = 51" by (simp add: sizeof_scope_format_def scope_format_def)
  show ?thesis
    using nrm_scope_snprintf_truncates [OF scope_wf_create m, of "[[], [], []]" 45 True]
    by (simp add: e u size)
qed

end
