(* ===== verification/NRM_Actuator.thy ===== *)
theory NRM_Actuator
  imports NRM_Vector
begin

text \<open>
  Actuators: src/actuator.c and its two kinds, src/actuators/discrete.c and
  src/actuators/continuous.c.

  The \<open>union\<close> of choices and limits is a datatype; the function table of an actuator is the tag
  \<open>actuator_ops\<close>, dispatched by the generic functions.  An operation of one kind on data of the
  other reads the wrong member of the union.  The \<open>data\<close> and \<open>ops\<close> pointers are never NULL,
  since both constructors set them, and every allocation succeeds.  The vector of choices is carried as
  the list it holds; \<open>vector_set_choices\<close> is the code's sequence of vector calls, and is shown
  to leave exactly that list.

  The contract \<open>value_corrector\<close> (a corrected value is valid, a valid value stays) is what the
  server relies on before it forwards an action; both kinds are instances.
\<close>

definition NRM_ACTUATOR_TYPE_DISCRETE :: int where "NRM_ACTUATOR_TYPE_DISCRETE = 0"
definition NRM_ACTUATOR_TYPE_CONTINUOUS :: int where "NRM_ACTUATOR_TYPE_CONTINUOUS = 1"
definition NRM_ACTUATOR_TYPE_MAX :: int where "NRM_ACTUATOR_TYPE_MAX = 2"

lemmas actuator_consts =
  NRM_ACTUATOR_TYPE_DISCRETE_def NRM_ACTUATOR_TYPE_CONTINUOUS_def NRM_ACTUATOR_TYPE_MAX_def

datatype actuator_u = Choices "double list" | Limits double double

datatype actuator_ops = DiscreteOps | ContinuousOps

record nrm_actuator =
  act_type :: int
  act_uuid :: string
  act_clientid :: "string option"
  act_value :: double
  act_u :: actuator_u
  act_ops :: actuator_ops


section \<open>Discrete actuators\<close>

definition nrm_actuator_discrete_create :: "string \<Rightarrow> nrm_actuator" where
  "nrm_actuator_discrete_create name =
     \<lparr>act_type = NRM_ACTUATOR_TYPE_DISCRETE, act_uuid = name, act_clientid = None, act_value = DFin 0,
      act_u = Choices [], act_ops = DiscreteOps\<rparr>"

definition nrm_actuator_discrete_destroy :: "nrm_actuator option option \<Rightarrow> nrm_actuator option option exec" where
  "nrm_actuator_discrete_destroy actuator =
     (case actuator of
        None \<Rightarrow> Inr None
      | Some None \<Rightarrow> Inr (Some None)
      | Some (Some a) \<Rightarrow> (case act_u a of Choices _ \<Rightarrow> Inr (Some None) | Limits _ _ \<Rightarrow> Inl WrongUnion))"

definition actuator_choices :: "nrm_actuator \<Rightarrow> double list exec" where
  "actuator_choices a = (case act_u a of Choices cs \<Rightarrow> Inr cs | Limits _ _ \<Rightarrow> Inl WrongUnion)"

definition actuator_limits :: "nrm_actuator \<Rightarrow> (double \<times> double) exec" where
  "actuator_limits a = (case act_u a of Choices _ \<Rightarrow> Inl WrongUnion | Limits lo hi \<Rightarrow> Inr (lo, hi))"

text \<open>The vector calls of \<open>nrm_actuator_discrete_set_choices\<close>: resize, clear, append each, sort.\<close>

definition vector_set_choices :: "double nrm_vector \<Rightarrow> double list \<Rightarrow> double nrm_vector exec" where
  "vector_set_choices v choices =
     bindE (nrm_vector_resize (\<lambda>_. True) (DFin 0) (Some v) (length choices)) (\<lambda>(_, r).
     bindE (derefE (snd (nrm_vector_clear r))) (\<lambda>v.
     bindE (foldE vec_push choices v) (\<lambda>v.
     bindE (nrm_vector_sort (Some v) (Some nrm_vector_sort_double_cmp)) (\<lambda>(_, r). derefE r))))"

definition nrm_actuator_discrete_set_choices ::
  "nrm_actuator option \<Rightarrow> double list option \<Rightarrow> (int \<times> nrm_actuator option) exec" where
  "nrm_actuator_discrete_set_choices actuator choices =
     (case (actuator, choices) of
        (Some a, Some cs) \<Rightarrow>
          if length cs = 0 then Inr (- NRM_EINVAL, actuator)
          else bindE (actuator_choices a) (\<lambda>_.
               Inr (0, Some (a\<lparr>act_u := Choices (qsort_list nrm_vector_sort_double_cmp cs)\<rparr>)))
      | _ \<Rightarrow> Inr (- NRM_EINVAL, actuator))"

definition nrm_actuator_discrete_list_choices ::
  "nrm_actuator option \<Rightarrow> bool \<Rightarrow> (int \<times> double list option) exec" where
  "nrm_actuator_discrete_list_choices actuator choices_nonnull =
     (case actuator of
        None \<Rightarrow> Inr (- NRM_EINVAL, None)
      | Some a \<Rightarrow>
          if \<not> choices_nonnull then Inr (- NRM_EINVAL, None)
          else bindE (actuator_choices a) (\<lambda>cs. Inr (NRM_SUCCESS, Some cs)))"

text \<open>The loop over the choices, with the running \<open>ret\<close> and \<open>dst\<close>.\<close>

fun nearest_loop :: "double \<Rightarrow> double list \<Rightarrow> double \<times> double \<Rightarrow> double \<times> double" where
  "nearest_loop value [] (ret, dst) = (ret, dst)"
| "nearest_loop value (d # ds) (ret, dst) =
     (if dlt (dfabs (dsub value d)) dst
      then nearest_loop value ds (d, dfabs (dsub value d))
      else nearest_loop value ds (ret, dst))"

definition nrm_actuator_discrete_corrected_value ::
  "nrm_actuator option \<Rightarrow> double option \<Rightarrow> (int \<times> double option) exec" where
  "nrm_actuator_discrete_corrected_value actuator value =
     (case (actuator, value) of
        (Some a, Some v) \<Rightarrow>
          bindE (actuator_choices a) (\<lambda>cs.
          if length cs = 0 then Inr (- NRM_EINVAL, Some v)
          else let lo = cs ! 0; hi = cs ! (length cs - 1) in
            if dlt v lo then Inr (0, Some lo)
            else if dlt hi v then Inr (0, Some hi)
            else Inr (0, Some (fst (nearest_loop v cs (v, DBL_MAX)))))
      | _ \<Rightarrow> Inr (- NRM_EINVAL, value))"

text \<open>The index at which the search loop of \<open>nrm_actuator_discrete_validate_value\<close> stops.\<close>

fun validate_loop :: "double \<Rightarrow> double list \<Rightarrow> nat \<Rightarrow> nat" where
  "validate_loop value [] i = i"
| "validate_loop value (d # ds) i = (if deq d value then i else validate_loop value ds (i + 1))"

definition nrm_actuator_discrete_validate_value :: "nrm_actuator option \<Rightarrow> double \<Rightarrow> int exec" where
  "nrm_actuator_discrete_validate_value actuator value =
     bindE (derefE actuator) (\<lambda>a.
     bindE (actuator_choices a) (\<lambda>cs.
     Inr (if validate_loop value cs 0 = length cs then - NRM_EDOM else 0)))"


section \<open>Continuous actuators\<close>

definition nrm_actuator_continuous_create :: "string \<Rightarrow> nrm_actuator" where
  "nrm_actuator_continuous_create name =
     \<lparr>act_type = NRM_ACTUATOR_TYPE_CONTINUOUS, act_uuid = name, act_clientid = None, act_value = DFin 0,
      act_u = Limits (DFin 0) (DFin 0), act_ops = ContinuousOps\<rparr>"

definition nrm_actuator_continuous_destroy :: "nrm_actuator option option \<Rightarrow> nrm_actuator option option exec" where
  "nrm_actuator_continuous_destroy actuator =
     (case actuator of None \<Rightarrow> Inr None | Some None \<Rightarrow> Inr (Some None) | Some (Some _) \<Rightarrow> Inr (Some None))"

definition nrm_actuator_continuous_set_limits ::
  "nrm_actuator option \<Rightarrow> double \<Rightarrow> double \<Rightarrow> int \<times> nrm_actuator option" where
  "nrm_actuator_continuous_set_limits actuator lo hi =
     (case actuator of
        None \<Rightarrow> (- NRM_EINVAL, None)
      | Some a \<Rightarrow> (0, Some (a\<lparr>act_u := Limits lo hi\<rparr>)))"

definition nrm_actuator_continuous_corrected_value ::
  "nrm_actuator option \<Rightarrow> double option \<Rightarrow> (int \<times> double option) exec" where
  "nrm_actuator_continuous_corrected_value actuator value =
     (case (actuator, value) of
        (Some a, Some v) \<Rightarrow>
          bindE (actuator_limits a) (\<lambda>(lo, hi).
          if dlt v lo then Inr (0, Some lo)
          else if dlt hi v then Inr (0, Some hi)
          else Inr (0, Some v))
      | _ \<Rightarrow> Inr (- NRM_EINVAL, value))"

definition nrm_actuator_continuous_validate_value :: "nrm_actuator option \<Rightarrow> double \<Rightarrow> int exec" where
  "nrm_actuator_continuous_validate_value actuator value =
     (case actuator of
        None \<Rightarrow> Inr (- NRM_EINVAL)
      | Some a \<Rightarrow>
          bindE (actuator_limits a) (\<lambda>(lo, hi).
          Inr (if dlt value lo \<or> dlt hi value then - NRM_EDOM else 0)))"


section \<open>The generic interface\<close>

definition nrm_actuator_uuid :: "nrm_actuator option \<Rightarrow> string exec" where
  "nrm_actuator_uuid actuator =
     (case actuator of None \<Rightarrow> Inl AssertFail | Some a \<Rightarrow> Inr (act_uuid a))"

definition nrm_actuator_clientid :: "nrm_actuator option \<Rightarrow> string option exec" where
  "nrm_actuator_clientid actuator =
     (case actuator of None \<Rightarrow> Inl AssertFail | Some a \<Rightarrow> Inr (act_clientid a))"

definition nrm_actuator_set_clientid :: "nrm_actuator option \<Rightarrow> string option \<Rightarrow> (int \<times> nrm_actuator) exec" where
  "nrm_actuator_set_clientid actuator clientid =
     (case actuator of None \<Rightarrow> Inl AssertFail | Some a \<Rightarrow> Inr (0, a\<lparr>act_clientid := clientid\<rparr>))"

definition nrm_actuator_value :: "nrm_actuator option \<Rightarrow> double exec" where
  "nrm_actuator_value actuator =
     (case actuator of None \<Rightarrow> Inl AssertFail | Some a \<Rightarrow> Inr (act_value a))"

definition nrm_actuator_set_value :: "nrm_actuator option \<Rightarrow> double \<Rightarrow> (int \<times> nrm_actuator) exec" where
  "nrm_actuator_set_value actuator value =
     (case actuator of None \<Rightarrow> Inl AssertFail | Some a \<Rightarrow> Inr (0, a\<lparr>act_value := value\<rparr>))"

definition nrm_actuator_destroy :: "nrm_actuator option option \<Rightarrow> nrm_actuator option option exec" where
  "nrm_actuator_destroy actuator =
     (case actuator of
        None \<Rightarrow> Inr None
      | Some None \<Rightarrow> Inr (Some None)
      | Some (Some a) \<Rightarrow>
          (case act_ops a of
             DiscreteOps \<Rightarrow> nrm_actuator_discrete_destroy actuator
           | ContinuousOps \<Rightarrow> nrm_actuator_continuous_destroy actuator))"

definition nrm_actuator_validate_value :: "nrm_actuator option \<Rightarrow> double \<Rightarrow> int exec" where
  "nrm_actuator_validate_value actuator value =
     (case actuator of
        None \<Rightarrow> Inl AssertFail
      | Some a \<Rightarrow>
          (case act_ops a of
             DiscreteOps \<Rightarrow> nrm_actuator_discrete_validate_value actuator value
           | ContinuousOps \<Rightarrow> nrm_actuator_continuous_validate_value actuator value))"

definition nrm_actuator_corrected_value ::
  "nrm_actuator option \<Rightarrow> double option \<Rightarrow> (int \<times> double option) exec" where
  "nrm_actuator_corrected_value actuator value =
     (case actuator of
        None \<Rightarrow> Inl AssertFail
      | Some a \<Rightarrow>
          (case act_ops a of
             DiscreteOps \<Rightarrow> nrm_actuator_discrete_corrected_value actuator value
           | ContinuousOps \<Rightarrow> nrm_actuator_continuous_corrected_value actuator value))"

definition nrm_actuator_type_table :: "(int \<times> string) list" where
  "nrm_actuator_type_table =
     [(NRM_ACTUATOR_TYPE_DISCRETE, ''DISCRETE''), (NRM_ACTUATOR_TYPE_CONTINUOUS, ''CONTINUOUS'')]"

definition nrm_actuator_type_t2s :: "int \<Rightarrow> string" where
  "nrm_actuator_type_t2s type =
     (if type < 0 \<or> type > NRM_ACTUATOR_TYPE_MAX then ''UNKNOWN''
      else case find (\<lambda>e. fst e = type) nrm_actuator_type_table of
             Some e \<Rightarrow> snd e
           | None \<Rightarrow> ''UNKNOWN'')"

fun type_s2t_loop :: "string \<Rightarrow> (int \<times> string) list \<Rightarrow> int \<Rightarrow> int" where
  "type_s2t_loop str [] i = -1"
| "type_s2t_loop str (e # es) i = (if str = snd e then i else type_s2t_loop str es (i + 1))"

definition nrm_actuator_type_s2t :: "string \<Rightarrow> int" where
  "nrm_actuator_type_s2t str = type_s2t_loop str nrm_actuator_type_table 0"


section \<open>Well-formed actuators\<close>

definition finite_double :: "double \<Rightarrow> bool" where
  "finite_double d \<longleftrightarrow> is_double d \<and> (\<exists>r. d = DFin r)"

definition actuator_wf :: "nrm_actuator \<Rightarrow> bool" where
  "actuator_wf a \<longleftrightarrow>
     (case act_ops a of
        DiscreteOps \<Rightarrow> act_type a = NRM_ACTUATOR_TYPE_DISCRETE \<and>
          (case act_u a of Choices cs \<Rightarrow> sorted_wrt dle cs \<and> (\<forall>c \<in> set cs. finite_double c) | _ \<Rightarrow> False)
      | ContinuousOps \<Rightarrow> act_type a = NRM_ACTUATOR_TYPE_CONTINUOUS \<and>
          (case act_u a of Limits lo hi \<Rightarrow> finite_double lo \<and> finite_double hi | _ \<Rightarrow> False))"

text \<open>The weaker condition that the function table, the type and the union member agree.\<close>

definition actuator_shape :: "nrm_actuator \<Rightarrow> bool" where
  "actuator_shape a \<longleftrightarrow>
     (act_ops a = DiscreteOps \<and> act_type a = NRM_ACTUATOR_TYPE_DISCRETE \<and> (\<exists>cs. act_u a = Choices cs))
     \<or> (act_ops a = ContinuousOps \<and> act_type a = NRM_ACTUATOR_TYPE_CONTINUOUS \<and> (\<exists>lo hi. act_u a = Limits lo hi))"

lemma actuator_wf_shape: "actuator_wf a \<Longrightarrow> actuator_shape a"
  by (auto simp: actuator_wf_def actuator_shape_def split: actuator_ops.splits actuator_u.splits)

lemma actuator_shape_update:
  "actuator_shape a \<Longrightarrow> actuator_shape (a\<lparr>act_value := v\<rparr>)"
  "actuator_shape a \<Longrightarrow> actuator_shape (a\<lparr>act_clientid := c\<rparr>)"
  by (simp_all add: actuator_shape_def)

lemma finite_not_NaN: "finite_double d \<Longrightarrow> d \<noteq> DNaN"
  by (auto simp: finite_double_def)

lemma actuator_wf_create:
  "actuator_wf (nrm_actuator_discrete_create name)" "actuator_wf (nrm_actuator_continuous_create name)"
  by (simp_all add: actuator_wf_def nrm_actuator_discrete_create_def nrm_actuator_continuous_create_def
      finite_double_def is_double_def)

lemma sorted_choices:
  "\<forall>c \<in> set cs. finite_double c \<Longrightarrow> sorted_wrt dle (qsort_list nrm_vector_sort_double_cmp cs)"
  by (rule sorted_doubles) (use finite_not_NaN in auto)

lemma actuator_wf_set_choices:
  assumes "actuator_wf a" and "\<forall>c \<in> set cs. finite_double c"
    and "nrm_actuator_discrete_set_choices (Some a) (Some cs) = Inr (0, Some a')"
  shows "actuator_wf a'"
  using assms sorted_choices [OF assms(2)]
  by (auto simp: nrm_actuator_discrete_set_choices_def actuator_choices_def actuator_wf_def
      split: actuator_u.splits actuator_ops.splits if_splits)

lemma actuator_wf_cong:
  "act_ops a = act_ops b \<Longrightarrow> act_type a = act_type b \<Longrightarrow> act_u a = act_u b \<Longrightarrow> actuator_wf a \<longleftrightarrow> actuator_wf b"
  by (simp only: actuator_wf_def)

lemma actuator_wf_set_value:
  "actuator_wf a \<Longrightarrow> actuator_wf (a\<lparr>act_value := v\<rparr>)"
  "actuator_wf a \<Longrightarrow> actuator_wf (a\<lparr>act_clientid := c\<rparr>)"
  by (erule actuator_wf_cong [THEN iffD2, rotated 3], simp_all)+


section \<open>Correction gives a valid value\<close>

lemma validate_loop_found: "validate_loop v ds i = i + length (takeWhile (\<lambda>d. \<not> deq d v) ds)"
  by (induction ds arbitrary: i) auto

lemma validate_loop_end: "validate_loop v cs 0 = length cs \<longleftrightarrow> (\<forall>c \<in> set cs. \<not> deq c v)"
proof -
  have "length (takeWhile P xs) = length xs \<longleftrightarrow> (\<forall>x \<in> set xs. P x)" for P and xs :: "double list"
    by (induction xs) auto
  then show ?thesis by (simp add: validate_loop_found)
qed

lemma nearest_loop_spec:
  assumes "nearest_loop v ds (ret, dst) = (r, k)"
  shows "((r, k) = (ret, dst) \<or> (r \<in> set ds \<and> k = dfabs (dsub v r) \<and> dlt k dst))
     \<and> (\<forall>d \<in> set ds. \<not> dlt (dfabs (dsub v d)) k)"
  using assms
proof (induction ds arbitrary: ret dst)
  case Nil
  then show ?case by simp
next
  case (Cons d ds)
  let ?D = "dfabs (dsub v d)"
  show ?case
  proof (cases "dlt ?D dst")
    case True
    then have "nearest_loop v ds (d, ?D) = (r, k)" using Cons.prems by simp
    from Cons.IH [OF this] have IH: "(r, k) = (d, ?D) \<or> (r \<in> set ds \<and> k = dfabs (dsub v r) \<and> dlt k ?D)"
      "\<forall>e \<in> set ds. \<not> dlt (dfabs (dsub v e)) k" by auto
    from IH(1) have "k = ?D \<or> dlt k ?D" by auto
    then have "\<not> dlt ?D k" "dlt k dst" using True by (metis dlt_asym dlt_irrefl dlt_trans)+
    then show ?thesis using IH by auto
  next
    case False
    then have "nearest_loop v ds (ret, dst) = (r, k)" using Cons.prems by simp
    from Cons.IH [OF this] show ?thesis using False dlt_trans [of ?D k dst] by auto
  qed
qed

text \<open>
  An actuator is ready when it has choices, or limits in order.  Not every value can then be corrected: on a discrete
  actuator the search starts from the distance \<open>DBL_MAX\<close>, and NaN, or a value between the choices that is at
  least that far from each of them, is left as it is.  \<open>correctable\<close> says which values are corrected.
\<close>

definition actuator_ready :: "nrm_actuator \<Rightarrow> bool" where
  "actuator_ready a \<longleftrightarrow> actuator_wf a \<and> (case act_u a of Choices cs \<Rightarrow> cs \<noteq> [] | Limits lo hi \<Rightarrow> dle lo hi)"

definition correctable :: "nrm_actuator \<Rightarrow> double \<Rightarrow> bool" where
  "correctable a v \<longleftrightarrow> actuator_ready a \<and>
     (case act_u a of
        Choices cs \<Rightarrow> dlt v (hd cs) \<or> dlt (last cs) v \<or> (\<exists>c \<in> set cs. dlt (dfabs (dsub v c)) DBL_MAX)
      | Limits lo hi \<Rightarrow> True)"

lemmas correctable_defs = correctable_def actuator_ready_def

definition act_valid :: "nrm_actuator \<Rightarrow> double \<Rightarrow> bool" where
  "act_valid a v \<longleftrightarrow> nrm_actuator_validate_value (Some a) v = Inr 0"

definition act_correct :: "nrm_actuator \<Rightarrow> double \<Rightarrow> double" where
  "act_correct a v =
     (case nrm_actuator_corrected_value (Some a) (Some v) of Inr (_, Some w) \<Rightarrow> w | _ \<Rightarrow> v)"

lemma act_valid_discrete:
  "act_ops a = DiscreteOps \<Longrightarrow> act_u a = Choices cs \<Longrightarrow> act_valid a v \<longleftrightarrow> v \<noteq> DNaN \<and> v \<in> set cs"
  by (auto simp: act_valid_def nrm_actuator_validate_value_def nrm_actuator_discrete_validate_value_def
      actuator_choices_def validate_loop_end deq_def)

lemma act_valid_continuous:
  "act_ops a = ContinuousOps \<Longrightarrow> act_u a = Limits lo hi \<Longrightarrow> act_valid a v \<longleftrightarrow> \<not> dlt v lo \<and> \<not> dlt hi v"
  by (auto simp: act_valid_def nrm_actuator_validate_value_def nrm_actuator_continuous_validate_value_def
      actuator_limits_def)

lemma discrete_corrected:
  assumes "act_ops a = DiscreteOps" and "act_u a = Choices cs" and "cs \<noteq> []"
  shows "nrm_actuator_corrected_value (Some a) (Some v) = Inr (0, Some
    (if dlt v (hd cs) then hd cs else if dlt (last cs) v then last cs else fst (nearest_loop v cs (v, DBL_MAX))))"
  using assms
  by (simp add: nrm_actuator_corrected_value_def nrm_actuator_discrete_corrected_value_def actuator_choices_def
      Let_def hd_conv_nth last_conv_nth)

lemma continuous_corrected:
  assumes "act_ops a = ContinuousOps" and "act_u a = Limits lo hi"
  shows "nrm_actuator_corrected_value (Some a) (Some v)
    = Inr (0, Some (if dlt v lo then lo else if dlt hi v then hi else v))"
  using assms
  by (simp add: nrm_actuator_corrected_value_def nrm_actuator_continuous_corrected_value_def actuator_limits_def)

lemma actuator_kinds:
  assumes "actuator_wf a"
  obtains (disc) cs where "act_ops a = DiscreteOps" and "act_u a = Choices cs" and "sorted_wrt dle cs"
      and "\<forall>c \<in> set cs. finite_double c"
  | (cont) lo hi where "act_ops a = ContinuousOps" and "act_u a = Limits lo hi"
      and "finite_double lo" and "finite_double hi"
  using assms by (auto simp: actuator_wf_def split: actuator_ops.splits actuator_u.splits)

lemma nearest_member:
  assumes "\<exists>c \<in> set cs. dlt (dfabs (dsub v c)) DBL_MAX"
  shows "fst (nearest_loop v cs (v, DBL_MAX)) \<in> set cs
    \<and> (\<forall>c \<in> set cs. \<not> dlt (dfabs (dsub v c)) (dfabs (dsub v (fst (nearest_loop v cs (v, DBL_MAX))))))"
proof -
  obtain r k where rk: "nearest_loop v cs (v, DBL_MAX) = (r, k)" by (cases "nearest_loop v cs (v, DBL_MAX)")
  from nearest_loop_spec [OF rk] assms have "r \<in> set cs" "k = dfabs (dsub v r)"
    "\<forall>c \<in> set cs. \<not> dlt (dfabs (dsub v c)) k" by auto
  then show ?thesis by (simp add: rk)
qed

lemma dist_zero:
  assumes "finite_double v" and "finite_double d" and "\<not> dlt (DFin 0) (dfabs (dsub v d))" and "dsub v d \<noteq> DNaN"
  shows "d = v"
proof -
  obtain a b where ab: "v = DFin a" "d = DFin b" "is_double (DFin a)" "is_double (DFin b)"
    using assms(1,2) by (auto simp: finite_double_def)
  have "rnd (a - b) = DFin 0"
    using assms(3,4) ab(1,2) by (cases "rnd (a - b)") (auto simp: dsub_def)
  then show ?thesis using rnd_diff_eq_0 [OF ab(3,4)] ab(1,2) by simp
qed

lemma dsub_finite_not_NaN: "finite_double v \<Longrightarrow> finite_double d \<Longrightarrow> dsub v d \<noteq> DNaN"
  by (auto simp: finite_double_def dsub_def rnd_def Let_def split: if_splits)

lemma nearest_fixed:
  assumes fin: "\<forall>c \<in> set cs. finite_double c" and v: "v \<in> set cs"
  shows "fst (nearest_loop v cs (v, DBL_MAX)) = v"
proof -
  have zero: "dfabs (dsub v v) = DFin 0" using fin v by (auto simp: finite_double_def)
  moreover have "dlt (DFin 0) DBL_MAX" by (simp add: DBL_MAX_def)
  ultimately have "\<exists>c \<in> set cs. dlt (dfabs (dsub v c)) DBL_MAX" using v by force
  from nearest_member [OF this] zero v fin show ?thesis
    by (intro dist_zero dsub_finite_not_NaN) (auto simp: dest: bspec)
qed

locale value_corrector =
  fixes ready :: "'a \<Rightarrow> double \<Rightarrow> bool"
    and valid :: "'a \<Rightarrow> double \<Rightarrow> bool"
    and correct :: "'a \<Rightarrow> double \<Rightarrow> double"
  assumes correct_valid: "ready a v \<Longrightarrow> valid a (correct a v)"
    and valid_fixed: "ready a v \<Longrightarrow> valid a v \<Longrightarrow> correct a v = v"
begin

lemma valid_iff_fixed: "ready a v \<Longrightarrow> valid a v \<longleftrightarrow> correct a v = v"
  using correct_valid valid_fixed by metis

lemma correct_idem: "ready a v \<Longrightarrow> ready a (correct a v) \<Longrightarrow> correct a (correct a v) = correct a v"
  using correct_valid valid_fixed by blast

end

lemma sorted_hd_last:
  assumes "sorted_wrt dle cs" and "v \<in> set cs" and "v \<noteq> DNaN"
  shows "\<not> dlt v (hd cs)" and "\<not> dlt (last cs) v"
proof -
  obtain i where i: "i < length cs" "cs ! i = v" using assms(2) by (auto simp: in_set_conv_nth)
  have ne: "cs \<noteq> []" using assms(2) by auto
  have "i = 0 \<or> dle (cs ! 0) v" using sorted_wrt_nth_less [OF assms(1), of 0 i] i by auto
  then show "\<not> dlt v (hd cs)" using i ne dlt_asym by (auto simp: hd_conv_nth dle_def deq_def)
  have "i = length cs - 1 \<or> dle v (cs ! (length cs - 1))"
    using sorted_wrt_nth_less [OF assms(1), of i "length cs - 1"] i by (cases "i = length cs - 1") auto
  then show "\<not> dlt (last cs) v" using i ne dlt_asym by (auto simp: last_conv_nth dle_def deq_def)
qed

interpretation act: value_corrector correctable act_valid act_correct
proof unfold_locales
  fix a v
  assume r: "correctable a v"
  then have "actuator_wf a" by (simp add: correctable_defs)
  then show "act_valid a (act_correct a v)"
  proof (cases rule: actuator_kinds)
    case (disc cs)
    have ne: "cs \<noteq> []" and ex: "dlt v (hd cs) \<or> dlt (last cs) v \<or> (\<exists>c \<in> set cs. dlt (dfabs (dsub v c)) DBL_MAX)"
      using r disc(2) by (simp_all add: correctable_defs)
    have w: "act_correct a v
        = (if dlt v (hd cs) then hd cs else if dlt (last cs) v then last cs else fst (nearest_loop v cs (v, DBL_MAX)))"
      using disc ne by (simp add: act_correct_def discrete_corrected)
    have "act_correct a v \<in> set cs" unfolding w using ne ex nearest_member [of cs v] by auto
    then show ?thesis using disc finite_not_NaN by (auto simp: act_valid_discrete)
  next
    case (cont lo hi)
    then have "dle lo hi" using r by (simp add: correctable_defs)
    then have "\<not> dlt hi lo" using dle_dlt_trans dlt_irrefl by blast
    then show ?thesis
      using cont by (simp add: act_correct_def continuous_corrected act_valid_continuous)
  qed
next
  fix a v
  assume r: "correctable a v" and valid: "act_valid a v"
  then have "actuator_wf a" by (simp add: correctable_defs)
  then show "act_correct a v = v"
  proof (cases rule: actuator_kinds)
    case (disc cs)
    then have "v \<in> set cs" "v \<noteq> DNaN" "cs \<noteq> []" using valid by (auto simp: act_valid_discrete)
    then show ?thesis
      using sorted_hd_last [OF disc(3)] nearest_fixed [OF disc(4)] disc
      by (simp add: act_correct_def discrete_corrected)
  next
    case (cont lo hi)
    then show ?thesis using valid by (simp add: act_correct_def continuous_corrected act_valid_continuous)
  qed
qed


section \<open>The vector of choices\<close>

lemma vector_set_choices_ok:
  assumes wf: "vec_wf v" and len: "length cs \<le> 2 ^ 31"
  shows "\<exists>v'. vector_set_choices v cs = Inr v' \<and> vec_wf v'
     \<and> vec_list v' = qsort_list nrm_vector_sort_double_cmp cs"
proof -
  obtain v1 where v1: "nrm_vector_resize (\<lambda>_. True) (DFin 0) (Some v) (length cs) = Inr (NRM_SUCCESS, Some v1)" "vec_wf v1"
    by (rule nrm_vector_resize_ok [OF wf len]) simp_all
  obtain v2 where v2: "nrm_vector_clear (Some v1) = (NRM_SUCCESS, Some v2)" "vec_wf v2" "vec_list v2 = []"
    using nrm_vector_clear_ok [OF v1(2)] by auto
  obtain v3 where v3: "foldE vec_push cs v2 = Inr v3" "vec_wf v3" "vec_list v3 = cs"
    using vec.push_all_from_empty [OF v2(2,3) len] by auto
  obtain v4 where v4: "nrm_vector_sort (Some v3) (Some nrm_vector_sort_double_cmp) = Inr (NRM_SUCCESS, Some v4)"
      "vec_wf v4" "vec_list v4 = qsort_list nrm_vector_sort_double_cmp (vec_list v3)"
    by (rule nrm_vector_sort_ok [OF v3(2)])
  show ?thesis using v1(1) v2(1) v3 v4 by (simp add: vector_set_choices_def)
qed


lemma ready_corrected:
  assumes ready: "actuator_ready a"
  shows "nrm_actuator_corrected_value (Some a) (Some v) = Inr (0, Some (act_correct a v))"
proof -
  have "actuator_wf a" using ready by (simp add: actuator_ready_def)
  then show ?thesis
  proof (cases rule: actuator_kinds)
    case (disc cs)
    then have "cs \<noteq> []" using ready by (auto simp: actuator_ready_def)
    then show ?thesis using disc by (simp add: act_correct_def discrete_corrected)
  next
    case (cont lo hi)
    then show ?thesis by (simp add: act_correct_def continuous_corrected)
  qed
qed

lemma corrected_act_correct:
  "correctable a v \<Longrightarrow> nrm_actuator_corrected_value (Some a) (Some v) = Inr (0, Some (act_correct a v))"
  by (simp add: correctable_def ready_corrected)

lemma correct_nearest:
  assumes ready: "correctable a v" and a: "act_ops a = DiscreteOps" "act_u a = Choices cs"
    and r: "\<not> dlt v (hd cs)" "\<not> dlt (last cs) v"
  shows "\<forall>c \<in> set cs. \<not> dlt (dfabs (dsub v c)) (dfabs (dsub v (act_correct a v)))"
proof -
  have ex: "\<exists>c \<in> set cs. dlt (dfabs (dsub v c)) DBL_MAX" using ready a r by (simp add: correctable_def)
  then have "cs \<noteq> []" by auto
  then show ?thesis using nearest_member [OF ex] a r by (simp add: act_correct_def discrete_corrected)
qed

lemma nearest_stuck: "\<forall>c \<in> set cs. \<not> dlt (dfabs (dsub v c)) dst \<Longrightarrow> nearest_loop v cs (ret, dst) = (ret, dst)"
  by (induction cs) auto

lemma not_correctable:
  assumes ready: "actuator_ready a" and stuck: "\<not> correctable a v"
  shows "act_correct a v = v" and "nrm_actuator_validate_value (Some a) v = Inr (- NRM_EDOM)"
proof -
  have "actuator_wf a" using ready by (simp add: actuator_ready_def)
  then have "act_correct a v = v \<and> nrm_actuator_validate_value (Some a) v = Inr (- NRM_EDOM)"
  proof (cases rule: actuator_kinds)
    case (disc cs)
    have ne: "cs \<noteq> []" and far: "\<not> dlt v (hd cs)" "\<not> dlt (last cs) v" "\<forall>c \<in> set cs. \<not> dlt (dfabs (dsub v c)) DBL_MAX"
      using ready stuck disc(2) by (simp_all add: correctable_defs)
    have "act_correct a v = v" using ne far disc by (simp add: act_correct_def discrete_corrected nearest_stuck)
    moreover have "\<not> deq c v" if "c \<in> set cs" for c
    proof
      assume "deq c v"
      then have "dfabs (dsub v c) = DFin 0" using disc(4) that by (auto simp: deq_def finite_double_def)
      then show False using far(3) that by (auto simp: DBL_MAX_def dest!: bspec [OF _ that])
    qed
    ultimately show ?thesis
      using disc by (simp add: nrm_actuator_validate_value_def nrm_actuator_discrete_validate_value_def actuator_choices_def
          validate_loop_end)
  next
    case (cont lo hi)
    then show ?thesis using ready stuck by (simp add: correctable_def)
  qed
  then show "act_correct a v = v" and "nrm_actuator_validate_value (Some a) v = Inr (- NRM_EDOM)" by auto
qed

lemma correctable_NaN:
  assumes "actuator_ready a"
  shows "correctable a DNaN \<longleftrightarrow> act_ops a = ContinuousOps"
proof -
  have "actuator_wf a" using assms by (simp add: actuator_ready_def)
  then show ?thesis using assms by (cases rule: actuator_kinds) (simp_all add: correctable_def dsub_def)
qed


section \<open>Properties\<close>

text \<open>
  C21. What correcting a value gives.  On an actuator with at least one choice, the choices being finite and sorted, or with finite limits in
  order, \<open>nrm_actuator_corrected_value\<close> returns 0 for every value.  When the value is \<open>correctable\<close>, the result is one that
  \<open>nrm_actuator_validate_value\<close> accepts, an acceptable value is left as it is, and for a discrete actuator and a value within its range no
  choice is nearer, by the distance the code computes in double precision.  Every value is correctable
  on a continuous actuator, NaN included, which validation accepts there.  On a discrete actuator NaN is not
  correctable, nor is a value between the choices at a distance of at least \<open>DBL_MAX\<close> from each: such a value comes back unchanged, with
  the return code 0 all the same, and validation refuses it with \<open>-NRM_EDOM\<close>.
\<close>

theorem nrm_actuator_corrected_is_valid:
  assumes ready: "actuator_ready a"
  shows "(\<exists>w. nrm_actuator_corrected_value (Some a) (Some v) = Inr (0, Some w)
     \<and> (if correctable a v
        then nrm_actuator_validate_value (Some a) w = Inr 0
          \<and> (nrm_actuator_validate_value (Some a) v = Inr 0 \<longleftrightarrow> w = v)
          \<and> (\<forall>cs. act_ops a = DiscreteOps \<and> act_u a = Choices cs \<and> \<not> dlt v (hd cs) \<and> \<not> dlt (last cs) v \<longrightarrow>
               (\<forall>c \<in> set cs. \<not> dlt (dfabs (dsub v c)) (dfabs (dsub v w))))
        else w = v \<and> nrm_actuator_validate_value (Some a) w = Inr (- NRM_EDOM)))
     \<and> (correctable a DNaN \<longleftrightarrow> act_ops a = ContinuousOps)"
proof (cases "correctable a v")
  case True
  show ?thesis
    using True ready_corrected [OF ready, of v] act.correct_valid [OF True] act.valid_iff_fixed [OF True] correct_nearest [OF True]
      correctable_NaN [OF ready]
    by (auto simp: act_valid_def)
next
  case False
  then show ?thesis
    using ready_corrected [OF ready, of v] not_correctable [OF ready False] correctable_NaN [OF ready] by simp
qed

text \<open>An actuator with the choices 1 and 3, for the witnesses.\<close>

definition two_choices :: nrm_actuator where
  "two_choices = (nrm_actuator_discrete_create ''a'')\<lparr>act_u := Choices [DFin 1, DFin 3]\<rparr>"

lemma two_choices_ready: "actuator_ready (two_choices\<lparr>act_clientid := c\<rparr>)"
proof -
  have "is_double (DFin 1)" "is_double (DFin 3)" using is_double_of_int [of 1] is_double_of_int [of 3] by simp_all
  then show ?thesis
    by (simp add: actuator_ready_def two_choices_def nrm_actuator_discrete_create_def actuator_wf_def finite_double_def dle_def)
qed

lemma two_choices_correctable: "correctable (two_choices\<lparr>act_clientid := c\<rparr>) (DFin 1)"
  using two_choices_ready [of c]
  by (simp add: correctable_def) (simp add: two_choices_def DBL_MAX_def)

theorem nrm_actuator_corrected_is_valid_witness:
  "(\<exists>w. nrm_actuator_corrected_value (Some two_choices) (Some (DFin 1)) = Inr (0, Some w)
       \<and> nrm_actuator_validate_value (Some two_choices) w = Inr 0)
   \<and> nrm_actuator_corrected_value (Some two_choices) (Some DNaN) = Inr (0, Some DNaN)
   \<and> nrm_actuator_validate_value (Some two_choices) DNaN = Inr (- NRM_EDOM)"
proof -
  have same: "two_choices\<lparr>act_clientid := None\<rparr> = two_choices"
    by (simp add: two_choices_def nrm_actuator_discrete_create_def)
  note ready = two_choices_ready [of None, unfolded same] and corr = two_choices_correctable [of None, unfolded same]
  have "act_ops two_choices = DiscreteOps" by (simp add: two_choices_def nrm_actuator_discrete_create_def)
  then show ?thesis
    using nrm_actuator_corrected_is_valid [OF ready, of "DFin 1"] nrm_actuator_corrected_is_valid [OF ready, of DNaN] corr
    by auto
qed

text \<open>
  The vector calls of \<open>nrm_actuator_discrete_set_choices\<close> (resize, clear, one append per
  choice, sort) leave in the vector exactly the list the actuator model carries: the given choices in
  increasing order, whatever the vector held before, for up to \<open>2 ^ 31\<close> finite choices.
\<close>

theorem vector_set_choices_refines:
  assumes wf: "vec_wf v" and len: "length cs \<le> 2 ^ 31" and ne: "cs \<noteq> []" and fin: "\<forall>c \<in> set cs. finite_double c"
    and a: "act_u a = Choices old"
  shows "\<exists>v' a'. vector_set_choices v cs = Inr v'
     \<and> nrm_actuator_discrete_set_choices (Some a) (Some cs) = Inr (0, Some a')
     \<and> act_u a' = Choices (vec_list v') \<and> sorted_wrt dle (vec_list v') \<and> mset (vec_list v') = mset cs"
  using vector_set_choices_ok [OF wf len] sorted_choices [OF fin] ne a
  by (auto simp: nrm_actuator_discrete_set_choices_def actuator_choices_def)

theorem vector_set_choices_refines_witness:
  "\<exists>v' a'. vector_set_choices \<lparr>vec_array = utarray_init 8, vec_icd_sz = 8\<rparr> [DFin 0] = Inr v'
     \<and> nrm_actuator_discrete_set_choices (Some two_choices) (Some [DFin 0]) = Inr (0, Some a')
     \<and> act_u a' = Choices (vec_list v')"
proof -
  have "vec_wf \<lparr>vec_array = utarray_init 8, vec_icd_sz = 8\<rparr>"
    by (simp add: vec_wf_def utarray_init_wf) (simp add: utarray_init_def)
  then show ?thesis
    using vector_set_choices_refines [of "\<lparr>vec_array = utarray_init 8, vec_icd_sz = 8\<rparr>" "[DFin 0]"
        two_choices "[DFin 1, DFin 3]"]
    by (fastforce simp: finite_double_def is_double_def two_choices_def)
qed

end
