(* ===== verification/NRM_State.thy ===== *)
theory NRM_State
  imports NRM_Scope NRM_Actuator NRM_Hash
begin

text \<open>
  The daemon's state (src/state.c): four tables of named objects.

  The removals go through \<open>nrm_hash_remove\<close>, which hands back NULL or the address of an element
  that was just freed; \<open>destroyed\<close> is what destroying such a pointer does.  \<open>raw\<close> is the
  memory that lookup compares with the keys (see NRM_Hash).  Listing appends a copy of every object, in the
  order of the table, to the vector.
\<close>

record nrm_state =
  st_actuators :: "nrm_actuator nrm_hash"
  st_scopes :: "nrm_scope nrm_hash"
  st_sensors :: "nrm_sensor nrm_hash"
  st_slices :: "nrm_slice nrm_hash"

definition nrm_state_create :: nrm_state where
  "nrm_state_create = \<lparr>st_actuators = [], st_scopes = [], st_sensors = [], st_slices = []\<rparr>"


section \<open>Removal\<close>

text \<open>
  The local pointer starts NULL; \<open>nrm_hash_remove\<close> leaves it alone on an error, and stores NULL or
  the freed element otherwise.  The destroy functions that take the address of the pointer return at
  once when it is NULL.
\<close>

definition destroyed :: "unit option option \<Rightarrow> unit exec" where
  "destroyed p = (case p of Some (Some _) \<Rightarrow> Inl UseAfterFree | _ \<Rightarrow> Inr ())"

definition nrm_state_remove_actuator :: "string \<Rightarrow> nrm_state \<Rightarrow> string \<Rightarrow> (int \<times> nrm_state) exec" where
  "nrm_state_remove_actuator raw state uuid =
     (case nrm_hash_remove raw (st_actuators state) (Some uuid) of (_, p, h) \<Rightarrow>
        bindE (destroyed p) (\<lambda>_. Inr (0, state\<lparr>st_actuators := h\<rparr>)))"

definition nrm_state_remove_scope :: "string \<Rightarrow> nrm_state \<Rightarrow> string \<Rightarrow> (int \<times> nrm_state) exec" where
  "nrm_state_remove_scope raw state uuid =
     (case nrm_hash_remove raw (st_scopes state) (Some uuid) of (_, p, h) \<Rightarrow>
        (case p of
           Some (Some _) \<Rightarrow> Inl UseAfterFree
         | _ \<Rightarrow> bindE (nrm_scope_destroy None) (\<lambda>_. Inr (0, state\<lparr>st_scopes := h\<rparr>))))"

definition nrm_state_remove_sensor :: "string \<Rightarrow> nrm_state \<Rightarrow> string \<Rightarrow> (int \<times> nrm_state) exec" where
  "nrm_state_remove_sensor raw state uuid =
     (case nrm_hash_remove raw (st_sensors state) (Some uuid) of (_, p, h) \<Rightarrow>
        bindE (destroyed p) (\<lambda>_. Inr (0, state\<lparr>st_sensors := h\<rparr>)))"

definition nrm_state_remove_slice :: "string \<Rightarrow> nrm_state \<Rightarrow> string \<Rightarrow> (int \<times> nrm_state) exec" where
  "nrm_state_remove_slice raw state uuid =
     (case nrm_hash_remove raw (st_slices state) (Some uuid) of (_, p, h) \<Rightarrow>
        bindE (destroyed p) (\<lambda>_. Inr (0, state\<lparr>st_slices := h\<rparr>)))"


section \<open>Listing\<close>

definition list_table :: "'v nrm_hash \<Rightarrow> 'v list \<Rightarrow> 'v list exec" where
  "list_table h vec =
     nrm_hash_foreach (length h) (\<lambda>i vec. bindE (derefE (nrm_hash_iterator_get i)) (\<lambda>v. Inr (vec @ [v])))
       (nrm_hash_iterator_begin h) vec"

definition nrm_state_list_actuators :: "nrm_state \<Rightarrow> nrm_actuator list \<Rightarrow> (int \<times> nrm_actuator list) exec" where
  "nrm_state_list_actuators state vec = bindE (list_table (st_actuators state) vec) (\<lambda>v. Inr (0, v))"

definition nrm_state_list_scopes :: "nrm_state \<Rightarrow> nrm_scope list \<Rightarrow> (int \<times> nrm_scope list) exec" where
  "nrm_state_list_scopes state vec = bindE (list_table (st_scopes state) vec) (\<lambda>v. Inr (0, v))"

definition nrm_state_list_sensors :: "nrm_state \<Rightarrow> nrm_sensor list \<Rightarrow> (int \<times> nrm_sensor list) exec" where
  "nrm_state_list_sensors state vec = bindE (list_table (st_sensors state) vec) (\<lambda>v. Inr (0, v))"

definition nrm_state_list_slices :: "nrm_state \<Rightarrow> nrm_slice list \<Rightarrow> (int \<times> nrm_slice list) exec" where
  "nrm_state_list_slices state vec = bindE (list_table (st_slices state) vec) (\<lambda>v. Inr (0, v))"


section \<open>Addition\<close>

text \<open>The result of \<open>nrm_hash_add\<close> is not looked at.\<close>

definition nrm_state_add_actuator :: "nrm_state \<Rightarrow> nrm_actuator option \<Rightarrow> (int \<times> nrm_state) exec" where
  "nrm_state_add_actuator state actuator =
     bindE (nrm_actuator_uuid actuator) (\<lambda>uuid.
     Inr (0, state\<lparr>st_actuators := snd (nrm_hash_add True (st_actuators state) uuid (the actuator))\<rparr>))"

definition nrm_state_add_scope :: "nrm_state \<Rightarrow> nrm_scope option \<Rightarrow> (int \<times> nrm_state) exec" where
  "nrm_state_add_scope state scope =
     bindE (derefE scope) (\<lambda>s.
     Inr (0, state\<lparr>st_scopes := snd (nrm_hash_add True (st_scopes state) (scope_uuid s) s)\<rparr>))"

definition nrm_state_add_sensor :: "nrm_state \<Rightarrow> nrm_sensor option \<Rightarrow> (int \<times> nrm_state) exec" where
  "nrm_state_add_sensor state sensor =
     bindE (derefE sensor) (\<lambda>s.
     Inr (0, state\<lparr>st_sensors := snd (nrm_hash_add True (st_sensors state) (sensor_uuid s) s)\<rparr>))"

definition nrm_state_add_slice :: "nrm_state \<Rightarrow> nrm_slice option \<Rightarrow> (int \<times> nrm_state) exec" where
  "nrm_state_add_slice state sl =
     bindE (derefE sl) (\<lambda>s.
     Inr (0, state\<lparr>st_slices := snd (nrm_hash_add True (st_slices state) (slice_uuid s) s)\<rparr>))"

text \<open>Every object is destroyed, then its table, then the state; the pointer is reset.\<close>

definition nrm_state_destroy :: "nrm_state option option \<Rightarrow> nrm_state option option exec" where
  "nrm_state_destroy state =
     (case state of
        None \<Rightarrow> Inr None
      | Some None \<Rightarrow> Inr (Some None)
      | Some (Some s) \<Rightarrow>
          bindE (foldE (\<lambda>e _. bindE (nrm_actuator_destroy (Some (Some (snd e)))) (\<lambda>_. Inr ())) (st_actuators s) ()) (\<lambda>_.
          let hs = (nrm_hash_destroy (Some (st_actuators s)), map (\<lambda>e. nrm_sensor_destroy (Some (Some (snd e)))) (st_sensors s),
                    nrm_hash_destroy (Some (st_sensors s)), map (\<lambda>e. nrm_slice_destroy (Some (Some (snd e)))) (st_slices s),
                    nrm_hash_destroy (Some (st_slices s))) in
          bindE (foldE (\<lambda>e _. bindE (nrm_scope_destroy (Some (snd e))) (\<lambda>_. Inr ())) (st_scopes s) ()) (\<lambda>_.
          Inr (Some None))))"


section \<open>The invariant of the state\<close>

definition table_wf :: "('v \<Rightarrow> string) \<Rightarrow> ('v \<Rightarrow> bool) \<Rightarrow> 'v nrm_hash \<Rightarrow> bool" where
  "table_wf uuid ok h \<longleftrightarrow> hash_wf h \<and> (\<forall>(k, v) \<in> set h. uuid v = k \<and> ok v)"

definition state_wf :: "nrm_state \<Rightarrow> bool" where
  "state_wf s \<longleftrightarrow> table_wf act_uuid actuator_shape (st_actuators s) \<and> table_wf scope_uuid scope_wf (st_scopes s)
     \<and> table_wf sensor_uuid (\<lambda>_. True) (st_sensors s) \<and> table_wf slice_uuid (\<lambda>_. True) (st_slices s)"

lemma table_wf_add:
  assumes "table_wf uuid ok h" and "ok v"
  shows "table_wf uuid ok (snd (nrm_hash_add True h (uuid v) v))"
  using assms hash_wf_add [of h True "uuid v" v]
  by (auto simp: table_wf_def nrm_hash_add_map_of split: if_splits)

lemma table_wf_update:
  assumes "table_wf uuid ok h" and "\<And>v. uuid v = k \<Longrightarrow> ok v \<Longrightarrow> uuid (f v) = k \<and> ok (f v)"
  shows "table_wf uuid ok (alist_update k f h)"
  using assms by (auto simp: table_wf_def hash_wf_def dest!: set_alist_update)

lemma table_wf_lookup: "table_wf uuid ok h \<Longrightarrow> map_of h k = Some v \<Longrightarrow> uuid v = k \<and> ok v"
  by (auto simp: table_wf_def dest: map_of_SomeD)

lemma nrm_hash_remove_cases:
  obtains (freed) c h' where "nrm_hash_remove raw h (Some u) = (c, Some (Some ()), h')"
  | (missed) c p where "nrm_hash_remove raw h (Some u) = (c, p, h)" and "p = None \<or> p = Some None"
proof (cases "h = [] \<or> HASH_FIND h (take (length u) raw) = None")
  case True
  then show ?thesis using missed by (cases "h = []") (auto simp: nrm_hash_remove_def)
next
  case False
  then obtain k v where "HASH_FIND h (take (length u) raw) = Some (k, v)" by auto
  with False show ?thesis using freed by (simp add: nrm_hash_remove_def)
qed

lemma state_wf_create: "state_wf nrm_state_create"
  by (simp add: state_wf_def nrm_state_create_def table_wf_def)

lemma state_wf_add:
  "state_wf s \<Longrightarrow> actuator_shape a \<Longrightarrow> nrm_state_add_actuator s (Some a) = Inr (0, s') \<Longrightarrow> state_wf s'"
  "state_wf s \<Longrightarrow> scope_wf c \<Longrightarrow> nrm_state_add_scope s (Some c) = Inr (0, s') \<Longrightarrow> state_wf s'"
  "state_wf s \<Longrightarrow> nrm_state_add_sensor s (Some n) = Inr (0, s') \<Longrightarrow> state_wf s'"
  "state_wf s \<Longrightarrow> nrm_state_add_slice s (Some l) = Inr (0, s') \<Longrightarrow> state_wf s'"
  by (auto simp: state_wf_def nrm_state_add_actuator_def nrm_actuator_uuid_def nrm_state_add_scope_def
      nrm_state_add_sensor_def nrm_state_add_slice_def table_wf_add)

lemma list_table_ok: "list_table h vec = Inr (vec @ map snd h)"
proof -
  have "foldE (\<lambda>v s. Inr (s @ [v])) vs s = Inr (s @ vs)" for vs s :: "'a list"
    by (induction vs arbitrary: s) simp_all
  then show ?thesis
    using nrm_hash_foreach_all [of h "length h" "\<lambda>v s. Inr (s @ [v])" vec]
    by (simp add: list_table_def nrm_hash_iterator_begin_def)
qed

lemma nrm_state_destroy_ok:
  assumes "state_wf s"
  shows "nrm_state_destroy (Some (Some s)) = Inr (Some None)"
proof -
  have "nrm_actuator_destroy (Some (Some a)) = Inr (Some None)" if "actuator_shape a" for a
    using that by (auto simp: nrm_actuator_destroy_def nrm_actuator_discrete_destroy_def
        nrm_actuator_continuous_destroy_def actuator_shape_def)
  then have "foldE (\<lambda>e _. bindE (nrm_actuator_destroy (Some (Some (snd e)))) (\<lambda>_. Inr ())) (st_actuators s) ()
      = Inr (fold (\<lambda>_ _. ()) (st_actuators s) ())"
    using assms by (intro foldE_pure) (auto simp: state_wf_def table_wf_def)
  moreover have "foldE (\<lambda>e _. bindE (nrm_scope_destroy (Some (snd e))) (\<lambda>_. Inr ())) (st_scopes s) ()
      = Inr (fold (\<lambda>_ _. ()) (st_scopes s) ())"
    by (intro foldE_pure) (simp add: nrm_scope_destroy_def)
  ultimately show ?thesis by (simp add: nrm_state_destroy_def)
qed


lemma remove_unchanged:
  "nrm_state_remove_actuator raw s uuid = Inr r \<Longrightarrow> r = (0, s)"
  "nrm_state_remove_sensor raw s uuid = Inr r \<Longrightarrow> r = (0, s)"
  "nrm_state_remove_slice raw s uuid = Inr r \<Longrightarrow> r = (0, s)"
  "nrm_state_remove_scope raw s uuid = Inr r \<Longrightarrow> r = (0, s)"
proof -
  show "r = (0, s)" if "nrm_state_remove_actuator raw s uuid = Inr r"
    using that
  proof (cases rule: nrm_hash_remove_cases [of raw "st_actuators s" uuid])
    case (missed c p)
    then show ?thesis using that by (elim disjE) (simp_all add: nrm_state_remove_actuator_def destroyed_def)
  qed (simp add: nrm_state_remove_actuator_def destroyed_def)
  show "r = (0, s)" if "nrm_state_remove_sensor raw s uuid = Inr r"
    using that
  proof (cases rule: nrm_hash_remove_cases [of raw "st_sensors s" uuid])
    case (missed c p)
    then show ?thesis using that by (elim disjE) (simp_all add: nrm_state_remove_sensor_def destroyed_def)
  qed (simp add: nrm_state_remove_sensor_def destroyed_def)
  show "r = (0, s)" if "nrm_state_remove_slice raw s uuid = Inr r"
    using that
  proof (cases rule: nrm_hash_remove_cases [of raw "st_slices s" uuid])
    case (missed c p)
    then show ?thesis using that by (elim disjE) (simp_all add: nrm_state_remove_slice_def destroyed_def)
  qed (simp add: nrm_state_remove_slice_def destroyed_def)
  show "r = (0, s)" if "nrm_state_remove_scope raw s uuid = Inr r"
    using that
  proof (cases rule: nrm_hash_remove_cases [of raw "st_scopes s" uuid])
    case (missed c p)
    then show ?thesis
      using that by (elim disjE) (simp_all add: nrm_state_remove_scope_def nrm_scope_destroy_def)
  qed (simp add: nrm_state_remove_scope_def)
qed

lemma remove_scope_faults: "nrm_state_remove_scope raw s uuid \<in> {Inl NullDeref, Inl UseAfterFree}"
proof (cases rule: nrm_hash_remove_cases [of raw "st_scopes s" uuid])
  case (freed c h')
  then show ?thesis by (simp add: nrm_state_remove_scope_def)
next
  case (missed c p)
  then show ?thesis by (elim disjE) (simp_all add: nrm_state_remove_scope_def nrm_scope_destroy_def)
qed


section \<open>Properties\<close>

text \<open>
  Objects added to a table are listed in the order of their addition, and only the first object
  under a uuid is kept: \<open>nrm_state_add_sensor\<close> returns 0 whether or not the uuid was present,
  and the list afterwards gains the sensor exactly when it was not.
\<close>

theorem nrm_state_add_lists:
  "\<exists>s'. nrm_state_add_sensor s (Some n) = Inr (0, s')
     \<and> nrm_state_list_sensors s' vec = Inr (0, vec @ map snd (st_sensors s)
         @ (if map_of (st_sensors s) (sensor_uuid n) = None then [n] else []))
     \<and> nrm_state_list_scopes s' = nrm_state_list_scopes s"
  by (auto simp: nrm_state_add_sensor_def nrm_state_list_sensors_def nrm_state_list_scopes_def list_table_ok
      nrm_hash_add_map_of fun_eq_iff)

text \<open>
  No removal that returns removes anything: when \<open>nrm_state_remove_actuator\<close>,
  \<open>nrm_state_remove_sensor\<close> or \<open>nrm_state_remove_slice\<close> returns, it returns 0 and the
  state is what it was.
\<close>

theorem nrm_state_remove_keeps:
  "(\<forall>r. nrm_state_remove_actuator raw s uuid = Inr r \<longrightarrow> r = (0, s))
   \<and> (\<forall>r. nrm_state_remove_sensor raw s uuid = Inr r \<longrightarrow> r = (0, s))
   \<and> (\<forall>r. nrm_state_remove_slice raw s uuid = Inr r \<longrightarrow> r = (0, s))"
  using remove_unchanged by blast

theorem nrm_state_remove_keeps_witness:
  "nrm_state_remove_sensor [] (nrm_state_create\<lparr>st_sensors := [(''s'', \<lparr>sensor_uuid = ''s''\<rparr>)]\<rparr>) ''s''
     = Inr (0, nrm_state_create\<lparr>st_sensors := [(''s'', \<lparr>sensor_uuid = ''s''\<rparr>)]\<rparr>)"
proof -
  let ?s = "nrm_state_create\<lparr>st_sensors := [(''s'', \<lparr>sensor_uuid = ''s''\<rparr>)]\<rparr>"
  obtain r where r: "nrm_state_remove_sensor [] ?s ''s'' = Inr r"
    by (auto simp: nrm_state_remove_sensor_def nrm_hash_remove_def HASH_FIND_def destroyed_def)
  with nrm_state_remove_keeps [of "[]" ?s "''s''"] show ?thesis by auto
qed

end
