(* ===== verification/NRM_Time.thy ===== *)
theory NRM_Time
  imports NRM_Double
begin

text \<open>
  Time stamps (src/utils/timers.c) and the number parsers (src/utils/parsers.c).

  \<open>nrm_time_t\<close> is a \<open>struct timespec\<close> of two 64-bit integers.  The arithmetic is the code's,
  reduced to 64 bits; division and remainder truncate.  The clock itself is an argument of the
  components that read it.  \<open>strtol\<close> and \<open>strtoull\<close> of the C library are modelled (blanks,
  sign, digits, saturation with \<open>ERANGE\<close>), the conversion of \<open>strtod\<close> is an argument.
\<close>

record nrm_time =
  tv_sec :: int
  tv_nsec :: int


section \<open>Time stamps\<close>

definition nrm_time_gettime :: "nrm_time \<Rightarrow> nrm_time" where
  "nrm_time_gettime clock = clock"

definition nrm_time_diff :: "nrm_time \<Rightarrow> nrm_time \<Rightarrow> int" where
  "nrm_time_diff start end' =
     s64 (s64 (tv_nsec end' - tv_nsec start) + s64 (1000000000 * s64 (tv_sec end' - tv_sec start)))"

definition nrm_time_tons :: "nrm_time \<Rightarrow> int" where
  "nrm_time_tons now = s64 (tv_nsec now + s64 (1000000000 * tv_sec now))"

definition nrm_time_fromns :: "int \<Rightarrow> nrm_time" where
  "nrm_time_fromns ns = \<lparr>tv_sec = ns sdiv 1000000000, tv_nsec = ns smod 1000000000\<rparr>"

definition nrm_time_fromfreq :: "double \<Rightarrow> nrm_time" where
  "nrm_time_fromfreq freq = nrm_time_fromns (int64_of_d (ddiv (DFin 1000000000) freq))"


section \<open>Number parsers\<close>

definition is_space :: "char \<Rightarrow> bool" where
  "is_space c \<longleftrightarrow> (of_char c :: nat) \<in> {9, 10, 11, 12, 13, 32}"

definition is_digit :: "char \<Rightarrow> bool" where
  "is_digit c \<longleftrightarrow> 48 \<le> (of_char c :: nat) \<and> (of_char c :: nat) \<le> 57"

definition digits_value :: "string \<Rightarrow> int" where
  "digits_value ds = foldl (\<lambda>a c. 10 * a + (int (of_char c) - 48)) 0 ds"

text \<open>
  The subject sequence of base 10: whether there is a minus sign and the digits.  No digits means that
  \<open>endptr\<close> is the start of the string.
\<close>

definition subject :: "string \<Rightarrow> bool \<times> string" where
  "subject s =
     (case dropWhile is_space s of
        [] \<Rightarrow> (False, [])
      | c # cs \<Rightarrow>
          if c = CHR ''-'' then (True, takeWhile is_digit cs)
          else if c = CHR ''+'' then (False, takeWhile is_digit cs)
          else (False, takeWhile is_digit (c # cs)))"

text \<open>The value, whether \<open>errno\<close> was set, and whether \<open>endptr\<close> is still the start.\<close>

definition strtol :: "string \<Rightarrow> int \<times> bool \<times> bool" where
  "strtol s =
     (case subject s of (neg, ds) \<Rightarrow>
        let v = (if neg then - digits_value ds else digits_value ds) in
        if v < - (2 ^ 63) then (- (2 ^ 63), True, ds = [])
        else if v > 2 ^ 63 - 1 then (2 ^ 63 - 1, True, ds = [])
        else (v, False, ds = []))"

definition strtoull :: "string \<Rightarrow> int \<times> bool \<times> bool" where
  "strtoull s =
     (case subject s of (neg, ds) \<Rightarrow>
        let v = digits_value ds in
        if v > 2 ^ 64 - 1 then (2 ^ 64 - 1, True, ds = [])
        else (if neg then u64 (- v) else v, False, ds = []))"

definition nrm_parse_int :: "string \<Rightarrow> int \<times> int option" where
  "nrm_parse_int str =
     (case strtol str of (ret, errno, _) \<Rightarrow>
        if errno then (- NRM_EINVAL, None)
        else if ret < - (2 ^ 31) \<or> ret > 2 ^ 31 - 1 then (- NRM_EDOM, None)
        else (0, Some ret))"

definition nrm_parse_uint :: "string \<Rightarrow> int \<times> int option" where
  "nrm_parse_uint str =
     (case strtol str of (ret, errno, _) \<Rightarrow>
        if errno then (- NRM_EINVAL, None)
        else if ret < 0 \<or> ret > 2 ^ 31 - 1 then (- NRM_EDOM, None)
        else (0, Some ret))"

definition nrm_parse_double :: "(string \<Rightarrow> double \<times> bool \<times> bool) \<Rightarrow> string \<Rightarrow> int \<times> double option" where
  "nrm_parse_double strtod str =
     (case strtod str of (ret, errno, nothing) \<Rightarrow>
        if errno then (- NRM_EINVAL, None)
        else if deq ret (DFin 0) \<and> nothing then (- NRM_EINVAL, None)
        else (0, Some ret))"

definition nrm_parse_llu :: "string \<Rightarrow> int \<times> int option" where
  "nrm_parse_llu str =
     (case strtoull str of (ret, errno, nothing) \<Rightarrow>
        if errno then (- NRM_EINVAL, None)
        else if ret = 0 \<and> nothing then (- NRM_EINVAL, None)
        else (0, Some ret))"


section \<open>Facts about time\<close>

definition time_wf :: "nrm_time \<Rightarrow> bool" where
  "time_wf t \<longleftrightarrow> 0 \<le> tv_nsec t \<and> tv_nsec t < 1000000000 \<and> 0 \<le> tv_sec t
     \<and> in_s64 (tv_nsec t + 1000000000 * tv_sec t)"

lemma time_parts_in_s64:
  assumes "time_wf t"
  shows "in_s64 (tv_sec t)" "in_s64 (tv_nsec t)" "in_s64 (1000000000 * tv_sec t)"
  using assms by (auto simp: time_wf_def in_s64_def)

lemma nrm_time_tons_wf: "time_wf t \<Longrightarrow> nrm_time_tons t = tv_nsec t + 1000000000 * tv_sec t"
  using time_parts_in_s64 [of t] by (simp add: nrm_time_tons_def s64_id time_wf_def)

lemma sdiv_nonneg: "0 \<le> a \<Longrightarrow> 0 < b \<Longrightarrow> a sdiv b = a div (b :: int)"
  by (simp add: signed_divide_int_def sgn_if)

lemma smod_nonneg: "0 \<le> a \<Longrightarrow> 0 < b \<Longrightarrow> a smod b = a mod (b :: int)"
  by (cases "a = 0") (simp_all add: signed_modulo_int_def sgn_if)

lemma sdiv_smod: "0 < b \<Longrightarrow> b * (a sdiv b) + a smod b = (a :: int)"
proof -
  assume b: "0 < b"
  show ?thesis
  proof (cases "0 \<le> a")
    case True
    then show ?thesis using b by (simp add: sdiv_nonneg smod_nonneg)
  next
    case False
    then have "a sdiv b = - ((- a) div b)" "a smod b = - ((- a) mod b)"
      using b by (simp_all add: signed_divide_int_def signed_modulo_int_def sgn_if)
    then have "b * (a sdiv b) + a smod b = - (b * ((- a) div b) + (- a) mod b)"
      by (simp only: mult_minus_right minus_add_distrib)
    then show ?thesis by (simp only: mult_div_mod_eq minus_minus)
  qed
qed

lemma sdiv_abs_le:
  fixes a b :: int
  assumes "0 < b"
  shows "\<bar>b * (a sdiv b)\<bar> \<le> \<bar>a\<bar>"
proof -
  have "b * (\<bar>a\<bar> div b) \<le> \<bar>a\<bar>" using assms pos_mod_sign [of b "\<bar>a\<bar>"]
    by (metis add.commute le_add_same_cancel2 mult_div_mod_eq)
  moreover have "\<bar>a sdiv b\<bar> = \<bar>a\<bar> div b"
    using assms by (simp add: signed_divide_int_def abs_mult sgn_if pos_imp_zdiv_nonneg_iff)
  ultimately show ?thesis using assms by (simp add: abs_mult)
qed

lemma nrm_time_fromns_wf: "0 \<le> ns \<Longrightarrow> in_s64 ns \<Longrightarrow> time_wf (nrm_time_fromns ns)"
  by (simp add: time_wf_def nrm_time_fromns_def sdiv_nonneg smod_nonneg pos_imp_zdiv_nonneg_iff)


section \<open>Facts about digits\<close>

lemma digits_value_snoc: "digits_value (ds @ [c]) = 10 * digits_value ds + (int (of_char c) - 48)"
  by (simp add: digits_value_def)

lemma digits_value_dec_nat: "digits_value (dec_nat n) = int n"
proof (induction n rule: dec_nat.induct)
  case (1 n)
  show ?case
  proof (cases "n < 10")
    case True
    then show ?thesis by (subst dec_nat.simps) (simp add: digits_value_def)
  next
    case False
    then have "digits_value (dec_nat n) = 10 * int (n div 10) + (int (of_char (char_of (48 + n mod 10))) - 48)"
      using 1 by (subst dec_nat.simps) (simp add: digits_value_snoc)
    also have "\<dots> = 10 * int (n div 10) + int (n mod 10)" by simp
    also have "\<dots> = int n" by (metis of_nat_add of_nat_mult of_nat_numeral mult_div_mod_eq)
    finally show ?thesis .
  qed
qed

lemma dec_nat_digits: "c \<in> set (dec_nat n) \<Longrightarrow> is_digit c"
  using set_dec_nat [of n] by (auto simp: is_digit_def)

lemma digit_not_space: "is_digit c \<Longrightarrow> \<not> is_space c"
  by (auto simp: is_digit_def is_space_def)

lemma digit_not_sign: "is_digit c \<Longrightarrow> c \<noteq> CHR ''-'' \<and> c \<noteq> CHR ''+''"
  by (auto simp: is_digit_def)

definition dec_int :: "int \<Rightarrow> string" where
  "dec_int v = (if v < 0 then CHR ''-'' # dec_nat (nat (- v)) else dec_nat (nat v))"

lemma subject_dec_nat: "subject (dec_nat n) = (False, dec_nat n)"
proof -
  obtain c cs where c: "dec_nat n = c # cs" using dec_nat_nonempty [of n] by (cases "dec_nat n") auto
  have "is_digit c" using dec_nat_digits [of c n] c by simp
  moreover have "takeWhile is_digit (dec_nat n) = dec_nat n" by (simp add: takeWhile_eq_all_conv dec_nat_digits)
  ultimately show ?thesis
    using c digit_not_space [of c] digit_not_sign [of c] by (simp add: subject_def)
qed

lemma subject_dec_int: "subject (dec_int v) = (v < 0, dec_nat (nat \<bar>v\<bar>))"
proof (cases "v < 0")
  case True
  have "\<not> is_space CHR ''-''" by code_simp
  moreover have "takeWhile is_digit (dec_nat n) = dec_nat n" for n
    by (simp add: takeWhile_eq_all_conv dec_nat_digits)
  ultimately show ?thesis using True by (simp add: dec_int_def subject_def)
next
  case False
  then show ?thesis by (simp add: dec_int_def subject_dec_nat)
qed

lemma strtol_dec_int: "in_s64 v \<Longrightarrow> strtol (dec_int v) = (v, False, False)"
  by (auto simp: strtol_def subject_dec_int digits_value_dec_nat in_s64_def dec_nat_nonempty Let_def)

lemma strtol_dec_int_range:
  "\<not> in_s64 v \<Longrightarrow> fst (snd (strtol (dec_int v)))"
  by (auto simp: strtol_def subject_dec_int digits_value_dec_nat in_s64_def Let_def)


lemma time_diff_wf: "time_wf s \<Longrightarrow> time_wf t \<Longrightarrow> nrm_time_diff s t = nrm_time_tons t - nrm_time_tons s"
proof -
  assume s: "time_wf s" and t: "time_wf t"
  then have "in_s64 (tv_nsec t - tv_nsec s)" "in_s64 (tv_sec t - tv_sec s)" "in_s64 (1000000000 * (tv_sec t - tv_sec s))"
    "in_s64 (tv_nsec t - tv_nsec s + 1000000000 * (tv_sec t - tv_sec s))"
    by (auto simp: time_wf_def in_s64_def)
  then show ?thesis using s t by (simp add: nrm_time_diff_def s64_id nrm_time_tons_wf)
qed


text \<open>
  Time stamps are ordered by their seconds and then by their nanoseconds, so the library's lemmas on orders, maxima and sorting apply to
  them.  On normalised time stamps it is the order of the counts of nanoseconds, by which the code compares.
\<close>

instantiation nrm_time_ext :: (linorder) linorder
begin

definition less_eq_nrm_time_ext :: "'a nrm_time_scheme \<Rightarrow> 'a nrm_time_scheme \<Rightarrow> bool" where
  "less_eq_nrm_time_ext s t \<longleftrightarrow> tv_sec s < tv_sec t \<or> tv_sec s = tv_sec t \<and> (tv_nsec s < tv_nsec t
     \<or> tv_nsec s = tv_nsec t \<and> nrm_time.more s \<le> nrm_time.more t)"

definition less_nrm_time_ext :: "'a nrm_time_scheme \<Rightarrow> 'a nrm_time_scheme \<Rightarrow> bool" where
  "less_nrm_time_ext s t \<longleftrightarrow> s \<le> t \<and> \<not> t \<le> s"

instance
  by standard (auto simp: less_eq_nrm_time_ext_def less_nrm_time_ext_def)

end

lemma time_le: "(s :: nrm_time) \<le> t \<longleftrightarrow> tv_sec s < tv_sec t \<or> tv_sec s = tv_sec t \<and> tv_nsec s \<le> tv_nsec t"
  by (auto simp: less_eq_nrm_time_ext_def)

lemma nrm_time_tons_le:
  assumes "time_wf s" "time_wf t"
  shows "nrm_time_tons s \<le> nrm_time_tons t \<longleftrightarrow> s \<le> t"
proof -
  have "tv_nsec s + 1000000000 * tv_sec s \<le> tv_nsec t + 1000000000 * tv_sec t \<longleftrightarrow> s \<le> t"
    using assms by (auto simp: time_wf_def time_le)
  then show ?thesis using assms by (simp add: nrm_time_tons_wf)
qed

lemma nrm_time_tons_less: "time_wf s \<Longrightarrow> time_wf t \<Longrightarrow> nrm_time_tons s < nrm_time_tons t \<longleftrightarrow> s < t"
  using nrm_time_tons_le [of t s] by (metis linorder_not_le)

lemma nrm_time_diff_sign: "time_wf s \<Longrightarrow> time_wf t \<Longrightarrow> 0 \<le> nrm_time_diff s t \<longleftrightarrow> s \<le> t"
  by (simp add: time_diff_wf nrm_time_tons_le)


section \<open>Properties\<close>

text \<open>
  Nanosecond counts and time stamps convert into each other without loss:
  \<open>nrm_time_tons\<close> inverts \<open>nrm_time_fromns\<close> on every 64-bit count (negative ones too, where
  the division truncates), \<open>nrm_time_fromns\<close> inverts \<open>nrm_time_tons\<close> on every normalised
  time stamp, and \<open>nrm_time_diff\<close> of two normalised time stamps is the difference of their
  counts.
\<close>

theorem nrm_time_roundtrip:
  assumes "in_s64 ns" and s: "time_wf s" and t: "time_wf t"
  shows "nrm_time_tons (nrm_time_fromns ns) = ns
    \<and> nrm_time_fromns (nrm_time_tons t) = t
    \<and> nrm_time_diff s t = nrm_time_tons t - nrm_time_tons s"
proof (intro conjI)
  have split: "1000000000 * (ns sdiv 1000000000) + ns smod 1000000000 = ns"
    by (rule sdiv_smod) simp
  have "in_s64 (1000000000 * (ns sdiv 1000000000))"
    using sdiv_abs_le [of 1000000000 ns] assms(1) split
    by (cases "0 \<le> ns") (auto simp: in_s64_def sdiv_nonneg signed_divide_int_def sgn_if abs_if split: if_splits)
  then show "nrm_time_tons (nrm_time_fromns ns) = ns"
    using assms(1) split by (simp add: nrm_time_tons_def nrm_time_fromns_def s64_id add.commute)
  have "0 \<le> tv_nsec t + 1000000000 * tv_sec t" using t by (simp add: time_wf_def)
  then show "nrm_time_fromns (nrm_time_tons t) = t"
    using t by (cases t) (simp add: nrm_time_tons_wf nrm_time_fromns_def sdiv_nonneg smod_nonneg time_wf_def)
  show "nrm_time_diff s t = nrm_time_tons t - nrm_time_tons s" by (rule time_diff_wf [OF s t])
qed

theorem nrm_time_roundtrip_witness:
  "nrm_time_tons (nrm_time_fromns (- 1500000000)) = - 1500000000
   \<and> nrm_time_fromns (nrm_time_tons \<lparr>tv_sec = 2, tv_nsec = 5\<rparr>) = \<lparr>tv_sec = 2, tv_nsec = 5\<rparr>
   \<and> nrm_time_diff \<lparr>tv_sec = 1, tv_nsec = 7\<rparr> \<lparr>tv_sec = 2, tv_nsec = 5\<rparr> = 999999998"
  using nrm_time_roundtrip [of "- 1500000000" "\<lparr>tv_sec = 1, tv_nsec = 7\<rparr>" "\<lparr>tv_sec = 2, tv_nsec = 5\<rparr>"]
  by (simp add: in_s64_def time_wf_def nrm_time_tons_wf)

text \<open>
  \<open>nrm_parse_int\<close> reads back every printed integer of its range; a printed integer outside
  it is refused, with \<open>-NRM_EDOM\<close> as long as it fits a long and \<open>-NRM_EINVAL\<close> beyond.
  \<open>nrm_parse_uint\<close> accepts only up to \<open>INT_MAX\<close>: the upper half of the unsigned range is
  refused with \<open>-NRM_EDOM\<close>.
\<close>

theorem nrm_parse_int_roundtrip:
  "nrm_parse_int (dec_int v) =
     (if in_s32 v then (0, Some v) else if in_s64 v then (- NRM_EDOM, None) else (- NRM_EINVAL, None))
   \<and> nrm_parse_uint (dec_int v) =
     (if 0 \<le> v \<and> in_s32 v then (0, Some v) else if in_s64 v then (- NRM_EDOM, None) else (- NRM_EINVAL, None))"
proof (cases "in_s64 v")
  case True
  then show ?thesis
    by (auto simp: nrm_parse_int_def nrm_parse_uint_def strtol_dec_int in_s32_def)
next
  case False
  then have "\<not> in_s32 v" by (auto simp: in_s32_def in_s64_def)
  then show ?thesis
    using False strtol_dec_int_range [OF False]
    by (cases "strtol (dec_int v)") (auto simp: nrm_parse_int_def nrm_parse_uint_def)
qed

text \<open>
  A string without a number is an error for \<open>nrm_parse_llu\<close> but the number 0 for
  \<open>nrm_parse_int\<close> and \<open>nrm_parse_uint\<close>, which never look at the end pointer.
\<close>

theorem nrm_parse_no_digits:
  assumes "snd (subject str) = []"
  shows "nrm_parse_int str = (0, Some 0) \<and> nrm_parse_uint str = (0, Some 0)
    \<and> nrm_parse_llu str = (- NRM_EINVAL, None)"
  using assms
  by (auto simp: nrm_parse_int_def nrm_parse_uint_def nrm_parse_llu_def strtol_def strtoull_def digits_value_def
      u64_def split: prod.splits if_splits)

theorem nrm_parse_no_digits_witness:
  "nrm_parse_int ''ten'' = (0, Some 0) \<and> nrm_parse_llu ''ten'' = (- NRM_EINVAL, None)"
proof -
  have "snd (subject ''ten'') = []" by code_simp
  then show ?thesis using nrm_parse_no_digits [of "''ten''"] by simp
qed

end
