(* ===== verification/NRM_Eventbase.thy ===== *)
theory NRM_Eventbase
  imports NRM_Time NRM_Scope NRM_Hash
begin

text \<open>
  Time series (src/timeserie.c) and the event base (src/eventbase.c), the daemon's store of sensor
  values.

  The event base is a table of sensors, each a table of scopes, each a table of time slices keyed by
  the start of a period of \<open>TIMESLICE_PERIOD\<close> nanoseconds, each a vector of events.  The tables are
  the insertion-ordered tables of NRM_Hash; a found element is updated in place
  (\<open>alist_update\<close>).  The clock that \<open>nrm_eventbase_pull_timeserie\<close> reads is the argument
  \<open>now\<close>; allocations succeed.

  \<open>eb_content\<close> is the multiset of events held for a sensor and a scope.  The contract
  \<open>event_store\<close> says that a push adds one event there and nothing elsewhere; it is interpreted on
  the code's push, and gives what a pull returns after any history of pushes.
\<close>

record nrm_event =
  ev_time :: nrm_time
  ev_value :: double

record nrm_timeserie =
  ts_sensor_uuid :: string
  ts_scope :: nrm_scope
  ts_events :: "nrm_event list"
  ts_start :: nrm_time


section \<open>Time series\<close>

definition nrm_timeserie_create ::
  "bool \<Rightarrow> bool \<Rightarrow> string option \<Rightarrow> nrm_scope option \<Rightarrow> int \<times> nrm_timeserie option" where
  "nrm_timeserie_create calloc_ok ts_nonnull uuid scope =
     (case (uuid, scope) of
        (Some u, Some sc) \<Rightarrow>
          if \<not> ts_nonnull then (- NRM_EINVAL, None)
          else if \<not> calloc_ok then (- NRM_ENOMEM, None)
          else (0, Some \<lparr>ts_sensor_uuid = u, ts_scope = sc, ts_events = [], ts_start = nrm_time_fromns 0\<rparr>)
      | _ \<Rightarrow> (- NRM_EINVAL, None))"

text \<open>The pointer is not reset: only the object it points at is gone.\<close>

definition nrm_timeserie_destroy :: "nrm_timeserie option option \<Rightarrow> unit exec" where
  "nrm_timeserie_destroy ts =
     (case ts of None \<Rightarrow> Inr () | Some t \<Rightarrow> bindE (derefE t) (\<lambda>_. Inr ()))"

definition nrm_timeserie_add_event ::
  "nrm_timeserie option \<Rightarrow> nrm_time \<Rightarrow> double \<Rightarrow> int \<times> nrm_timeserie option" where
  "nrm_timeserie_add_event ts time val =
     (case ts of
        None \<Rightarrow> (- NRM_EINVAL, None)
      | Some t \<Rightarrow>
          let t = t\<lparr>ts_events := ts_events t @ [\<lparr>ev_time = time, ev_value = val\<rparr>]\<rparr> in
          (0, Some (if nrm_time_tons (ts_start t) < nrm_time_tons time then t\<lparr>ts_start := time\<rparr> else t)))"

fun add_events_loop :: "nrm_event list \<Rightarrow> nrm_timeserie option \<Rightarrow> nrm_timeserie option" where
  "add_events_loop [] ts = ts"
| "add_events_loop (e # es) ts = add_events_loop es (snd (nrm_timeserie_add_event ts (ev_time e) (ev_value e)))"

definition nrm_timeserie_add_events ::
  "nrm_timeserie option \<Rightarrow> nrm_event list \<Rightarrow> int \<times> nrm_timeserie option" where
  "nrm_timeserie_add_events ts events =
     (case ts of None \<Rightarrow> (- NRM_EINVAL, None) | Some t \<Rightarrow> (0, add_events_loop events (Some t)))"

definition nrm_timeserie_get_events :: "nrm_timeserie option \<Rightarrow> nrm_event list option" where
  "nrm_timeserie_get_events ts = (case ts of None \<Rightarrow> None | Some t \<Rightarrow> Some (ts_events t))"


section \<open>The event base\<close>

definition TIMESLICE_PERIOD :: int where "TIMESLICE_PERIOD = 1000"

record nrm_eb_scopebase =
  sc_uuid :: string
  sc_slices :: "(int \<times> nrm_event list) list"

record nrm_eb_sensorbase =
  sb_uuid :: string
  sb_scopes :: "nrm_eb_scopebase nrm_hash"

record nrm_eventbase =
  maxperiods :: nat
  eb_sensors :: "nrm_eb_sensorbase nrm_hash"

definition nrm_eb_time2key :: "nrm_time \<Rightarrow> int" where
  "nrm_eb_time2key t = (let key = nrm_time_tons t in s64 (key - (key smod TIMESLICE_PERIOD)))"

definition nrm_eventbase_create :: "nat \<Rightarrow> nrm_eventbase" where
  "nrm_eventbase_create n = \<lparr>maxperiods = n, eb_sensors = []\<rparr>"

definition nrm_eventbase_get_maxperiods :: "nrm_eventbase option \<Rightarrow> nat exec" where
  "nrm_eventbase_get_maxperiods eb = bindE (derefE eb) (\<lambda>e. Inr (maxperiods e))"

definition nrm_eventbase_destroy :: "nrm_eventbase option option \<Rightarrow> nrm_eventbase option option" where
  "nrm_eventbase_destroy eventbase =
     (case eventbase of None \<Rightarrow> None | Some None \<Rightarrow> Some None | Some (Some _) \<Rightarrow> Some None)"

definition nrm_eventbase_add_event :: "nrm_event list \<Rightarrow> nrm_time \<Rightarrow> double \<Rightarrow> nrm_event list" where
  "nrm_eventbase_add_event events time val = events @ [\<lparr>ev_time = time, ev_value = val\<rparr>]"

definition nrm_eventbase_add_timeslice :: "nrm_eb_scopebase \<Rightarrow> int \<Rightarrow> nrm_eb_scopebase" where
  "nrm_eventbase_add_timeslice sc key = sc\<lparr>sc_slices := sc_slices sc @ [(key, [])]\<rparr>"

definition nrm_eventbase_add_scope :: "nrm_eb_sensorbase \<Rightarrow> nrm_scope \<Rightarrow> nrm_eb_sensorbase" where
  "nrm_eventbase_add_scope sb scope =
     sb\<lparr>sb_scopes := snd (nrm_hash_add True (sb_scopes sb) (scope_uuid scope)
          \<lparr>sc_uuid = scope_uuid scope, sc_slices = []\<rparr>)\<rparr>"

text \<open>\<open>nrm_string_incref\<close> of a NULL uuid faults.\<close>

definition nrm_eventbase_add_sensor :: "nrm_eventbase \<Rightarrow> string option \<Rightarrow> nrm_eventbase exec" where
  "nrm_eventbase_add_sensor eb uuid =
     bindE (derefE uuid) (\<lambda>u.
     Inr (eb\<lparr>eb_sensors := snd (nrm_hash_add True (eb_sensors eb) u \<lparr>sb_uuid = u, sb_scopes = []\<rparr>)\<rparr>))"

text \<open>
  The three levels of \<open>nrm_eventbase_push_event\<close>, innermost first: find or add the time slice and
  append; find or add the scope; find or add the sensor.
\<close>

definition push_in_scope :: "nrm_time \<Rightarrow> double \<Rightarrow> nrm_eb_scopebase \<Rightarrow> nrm_eb_scopebase" where
  "push_in_scope time val sc =
     (let key = nrm_time_tons time; key = s64 (key - (key smod TIMESLICE_PERIOD));
          sc = (if sc_slices sc = [] then nrm_eventbase_add_timeslice sc key
                else case find (\<lambda>e. fst e = key) (sc_slices sc) of
                       None \<Rightarrow> nrm_eventbase_add_timeslice sc key
                     | Some _ \<Rightarrow> sc)
      in sc\<lparr>sc_slices := alist_update key (\<lambda>es. nrm_eventbase_add_event es time val) (sc_slices sc)\<rparr>)"

definition push_in_sensor :: "nrm_scope \<Rightarrow> nrm_time \<Rightarrow> double \<Rightarrow> nrm_eb_sensorbase \<Rightarrow> nrm_eb_sensorbase exec" where
  "push_in_sensor scope time val sb =
     bindE (if sb_scopes sb = [] then Inr (nrm_eventbase_add_scope sb scope)
            else let err = fst (nrm_hash_find (sb_scopes sb) (Some (scope_uuid scope)) True) in
              bindE (assertE (err = 0 \<or> err = - NRM_ENOTFOUND)) (\<lambda>_.
              Inr (if err = - NRM_ENOTFOUND then nrm_eventbase_add_scope sb scope else sb))) (\<lambda>sb.
     Inr (sb\<lparr>sb_scopes := alist_update (scope_uuid scope) (push_in_scope time val) (sb_scopes sb)\<rparr>))"

definition nrm_eventbase_push_event ::
  "nrm_eventbase option \<Rightarrow> string option \<Rightarrow> nrm_scope option \<Rightarrow> nrm_time \<Rightarrow> double \<Rightarrow>
   (int \<times> nrm_eventbase option) exec" where
  "nrm_eventbase_push_event eb uuid scope time value =
     (case (eb, scope) of
        (Some e, Some sc) \<Rightarrow>
          bindE (if eb_sensors e = [] then nrm_eventbase_add_sensor e uuid
                 else let err = fst (nrm_hash_find (eb_sensors e) uuid True) in
                   bindE (assertE (err = 0 \<or> err = - NRM_ENOTFOUND)) (\<lambda>_.
                   if err = - NRM_ENOTFOUND then nrm_eventbase_add_sensor e uuid else Inr e)) (\<lambda>e.
          bindE (derefE (map_of (eb_sensors e) (the uuid))) (\<lambda>sb.
          bindE (push_in_sensor sc time value sb) (\<lambda>sb.
          Inr (0, Some (e\<lparr>eb_sensors := alist_update (the uuid) (\<lambda>_. sb) (eb_sensors e)\<rparr>)))))
      | _ \<Rightarrow> Inr (- NRM_EINVAL, eb))"

fun pull_slices :: "int \<Rightarrow> int \<Rightarrow> (int \<times> nrm_event list) list \<Rightarrow> nrm_timeserie option \<Rightarrow> nrm_timeserie option" where
  "pull_slices ksince know [] ts = ts"
| "pull_slices ksince know ((key, es) # rest) ts =
     pull_slices ksince know rest
       (if key \<ge> ksince \<and> key < know then snd (nrm_timeserie_add_events ts es) else ts)"

text \<open>
  The code ignores the result of \<open>nrm_timeserie_create\<close>: after a failure \<open>ret\<close> is never
  initialised.
\<close>

definition nrm_eventbase_pull_timeserie ::
  "nrm_time \<Rightarrow> nrm_eventbase option \<Rightarrow> string option \<Rightarrow> nrm_scope option \<Rightarrow> nrm_time \<Rightarrow>
   (int \<times> nrm_timeserie option) exec" where
  "nrm_eventbase_pull_timeserie now eb uuid scope since =
     (case eb of
        None \<Rightarrow> Inr (- NRM_EINVAL, None)
      | Some e \<Rightarrow>
          (case snd (nrm_timeserie_create True True uuid scope) of
             None \<Rightarrow> Inl Uninit
           | Some ret \<Rightarrow>
               (case snd (nrm_hash_find (eb_sensors e) uuid True) of
                  None \<Rightarrow> Inr (0, Some ret)
                | Some sb \<Rightarrow>
                    bindE (derefE scope) (\<lambda>s.
                    case snd (nrm_hash_find (sb_scopes sb) (Some (scope_uuid s)) True) of
                      None \<Rightarrow> Inr (0, Some ret)
                    | Some sc \<Rightarrow>
                        Inr (0, pull_slices (nrm_eb_time2key since) (nrm_eb_time2key (nrm_time_gettime now))
                                  (sc_slices sc) (Some ret))))))"

definition nrm_eventbase_tick :: "nrm_eventbase option \<Rightarrow> nrm_time \<Rightarrow> int \<times> nrm_eventbase option" where
  "nrm_eventbase_tick eb time = (0, eb)"


section \<open>Find or add\<close>

text \<open>What all three levels of a push do to their table.\<close>

definition alist_upsert :: "'k \<Rightarrow> 'v \<Rightarrow> ('v \<Rightarrow> 'v) \<Rightarrow> ('k \<times> 'v) list \<Rightarrow> ('k \<times> 'v) list" where
  "alist_upsert k d f xs = (if map_of xs k = None then xs @ [(k, f d)] else alist_update k f xs)"

lemma alist_update_snoc_fresh: "map_of xs k = None \<Longrightarrow> alist_update k f (xs @ [(k, v)]) = xs @ [(k, f v)]"
  by (induction xs) (auto split: if_splits)

lemma alist_update_const: "map_of xs k = Some v \<Longrightarrow> alist_update k (\<lambda>_. f v) xs = alist_update k f xs"
  by (induction xs) (auto split: if_splits)

lemma map_of_upsert:
  "map_of (alist_upsert k d f xs) = (map_of xs)(k \<mapsto> f (case map_of xs k of None \<Rightarrow> d | Some v \<Rightarrow> v))"
  by (auto simp: alist_upsert_def alist_simps simp del: map_of_append split: option.splits)

lemma distinct_upsert: "distinct (map fst xs) \<Longrightarrow> distinct (map fst (alist_upsert k d f xs))"
  by (auto simp: alist_upsert_def map_of_eq_None_iff)

lemma upsert_all:
  assumes "\<forall>(k', v) \<in> set xs. P k' v" and "P k (f d)" and "\<And>v. P k v \<Longrightarrow> P k (f v)"
  shows "\<forall>(k', v) \<in> set (alist_upsert k d f xs). P k' v"
  using assms by (auto simp: alist_upsert_def dest!: set_alist_update)

lemma upsert_values:
  assumes "distinct (map fst xs)" and "g d = {#}" and "\<And>v. g (f v) = add_mset e (g v)"
  shows "(\<Sum>(k', v) \<leftarrow> alist_upsert k d f xs. g v) = add_mset e (\<Sum>(k', v) \<leftarrow> xs. g v)"
proof -
  have "(\<Sum>(k', v) \<leftarrow> alist_update k f xs. g v) = add_mset e (\<Sum>(k', v) \<leftarrow> xs. g v)" if "map_of xs k \<noteq> None"
    using that assms(3) by (induction xs) (auto split: if_splits)
  then show ?thesis using assms(2,3) by (auto simp: alist_upsert_def)
qed


section \<open>The content of the event base\<close>

definition slices_mset :: "(int \<times> nrm_event list) list \<Rightarrow> nrm_event multiset" where
  "slices_mset sl = (\<Sum>(k, es) \<leftarrow> sl. mset es)"

definition sc_wf :: "nrm_eb_scopebase \<Rightarrow> bool" where
  "sc_wf sc \<longleftrightarrow> distinct (map fst (sc_slices sc)) \<and>
     (\<forall>(k, es) \<in> set (sc_slices sc). \<forall>e \<in> set es. nrm_eb_time2key (ev_time e) = k)"

definition sb_wf :: "nrm_eb_sensorbase \<Rightarrow> bool" where
  "sb_wf sb \<longleftrightarrow> hash_wf (sb_scopes sb) \<and> (\<forall>(u, sc) \<in> set (sb_scopes sb). sc_uuid sc = u \<and> sc_wf sc)"

definition eb_wf :: "nrm_eventbase \<Rightarrow> bool" where
  "eb_wf eb \<longleftrightarrow> hash_wf (eb_sensors eb) \<and> (\<forall>(u, sb) \<in> set (eb_sensors eb). sb_uuid sb = u \<and> sb_wf sb)"

definition sb_content :: "nrm_eb_sensorbase \<Rightarrow> string \<Rightarrow> nrm_event multiset" where
  "sb_content sb c = (case map_of (sb_scopes sb) c of None \<Rightarrow> {#} | Some sc \<Rightarrow> slices_mset (sc_slices sc))"

definition eb_content :: "nrm_eventbase \<Rightarrow> string \<times> string \<Rightarrow> nrm_event multiset" where
  "eb_content eb = (\<lambda>(s, c). case map_of (eb_sensors eb) s of None \<Rightarrow> {#} | Some sb \<Rightarrow> sb_content sb c)"

lemma find_fst_None: "find (\<lambda>e. fst e = k) xs = None \<longleftrightarrow> map_of xs k = None"
  by (induction xs) auto

lemma push_in_scope_eq:
  "push_in_scope t v sc = sc\<lparr>sc_slices :=
     alist_upsert (nrm_eb_time2key t) [] (\<lambda>es. es @ [\<lparr>ev_time = t, ev_value = v\<rparr>]) (sc_slices sc)\<rparr>"
proof -
  let ?k = "nrm_eb_time2key t"
  have k: "s64 (nrm_time_tons t - nrm_time_tons t smod TIMESLICE_PERIOD) = ?k"
    by (simp add: nrm_eb_time2key_def Let_def)
  show ?thesis
  proof (cases "map_of (sc_slices sc) ?k")
    case None
    then have "find (\<lambda>e. fst e = ?k) (sc_slices sc) = None" by (simp only: find_fst_None)
    then show ?thesis using None
      by (simp add: push_in_scope_def k Let_def nrm_eventbase_add_timeslice_def nrm_eventbase_add_event_def
          alist_upsert_def alist_update_snoc_fresh)
  next
    case (Some es)
    then have "sc_slices sc \<noteq> []" "find (\<lambda>e. fst e = ?k) (sc_slices sc) \<noteq> None"
      using find_fst_None [of ?k "sc_slices sc"] by auto
    then show ?thesis using Some
      by (auto simp: push_in_scope_def k Let_def nrm_eventbase_add_event_def alist_upsert_def)
  qed
qed

lemma push_in_scope_wf: "sc_wf sc \<Longrightarrow> sc_wf (push_in_scope t v sc)"
  using upsert_all [where P = "\<lambda>k es. \<forall>e \<in> set es. nrm_eb_time2key (ev_time e) = k" and xs = "sc_slices sc"
      and k = "nrm_eb_time2key t" and d = "[]" and f = "\<lambda>es. es @ [\<lparr>ev_time = t, ev_value = v\<rparr>]"]
  by (simp add: sc_wf_def push_in_scope_eq distinct_upsert)

lemma push_in_scope_content:
  "sc_wf sc \<Longrightarrow> slices_mset (sc_slices (push_in_scope t v sc))
     = add_mset \<lparr>ev_time = t, ev_value = v\<rparr> (slices_mset (sc_slices sc))"
  unfolding slices_mset_def push_in_scope_eq
  by (simp add: upsert_values sc_wf_def)

lemma hash_find_code:
  "h \<noteq> [] \<Longrightarrow> fst (nrm_hash_find h (Some u) True) = (if map_of h u = None then - NRM_ENOTFOUND else 0)"
  by (auto simp: nrm_hash_find_map_of split: option.splits)

lemma push_in_sensor_eq:
  "push_in_sensor scope t v sb = Inr (sb\<lparr>sb_scopes :=
     alist_upsert (scope_uuid scope) \<lparr>sc_uuid = scope_uuid scope, sc_slices = []\<rparr> (push_in_scope t v) (sb_scopes sb)\<rparr>)"
  by (cases "sb_scopes sb = []")
    (auto simp: push_in_sensor_def Let_def hash_find_code nrm_eventbase_add_scope_def nrm_hash_add_map_of
      alist_upsert_def alist_update_snoc_fresh)

lemma push_in_sensor_ok:
  assumes "sb_wf sb"
  obtains sb' where "push_in_sensor scope t v sb = Inr sb'" and "sb_wf sb'" and "sb_uuid sb' = sb_uuid sb"
    and "sb_content sb' = (sb_content sb)(scope_uuid scope :=
      add_mset \<lparr>ev_time = t, ev_value = v\<rparr> (sb_content sb (scope_uuid scope)))"
proof -
  let ?d = "\<lparr>sc_uuid = scope_uuid scope, sc_slices = []\<rparr>"
  let ?sb = "sb\<lparr>sb_scopes := alist_upsert (scope_uuid scope) ?d (push_in_scope t v) (sb_scopes sb)\<rparr>"
  have d: "sc_wf ?d" "slices_mset (sc_slices ?d) = {#}" by (simp_all add: sc_wf_def slices_mset_def)
  have uuid: "sc_uuid (push_in_scope t v sc) = sc_uuid sc" for sc by (simp add: push_in_scope_eq)
  have wf: "sb_wf ?sb"
    using assms d uuid push_in_scope_wf
      upsert_all [where P = "\<lambda>u sc. sc_uuid sc = u \<and> sc_wf sc" and xs = "sb_scopes sb"
        and k = "scope_uuid scope" and d = ?d and f = "push_in_scope t v"]
    by (simp add: sb_wf_def hash_wf_def distinct_upsert)
  have sc: "map_of (sb_scopes sb) c = Some sc \<Longrightarrow> sc_wf sc" for c sc
    using assms map_of_SomeD by (fastforce simp: sb_wf_def)
  have "sb_content ?sb = (sb_content sb)(scope_uuid scope :=
      add_mset \<lparr>ev_time = t, ev_value = v\<rparr> (sb_content sb (scope_uuid scope)))"
    using d sc by (auto simp: sb_content_def map_of_upsert fun_eq_iff push_in_scope_content split: option.splits)
  with wf show ?thesis using that [of ?sb] push_in_sensor_eq by simp
qed

lemma push_event_eq:
  assumes "push_in_sensor sc t v (case map_of (eb_sensors e) u of None \<Rightarrow> \<lparr>sb_uuid = u, sb_scopes = []\<rparr> | Some sb \<Rightarrow> sb) = Inr sb'"
  shows "nrm_eventbase_push_event (Some e) (Some u) (Some sc) t v
    = Inr (0, Some (e\<lparr>eb_sensors := alist_upsert u \<lparr>sb_uuid = u, sb_scopes = []\<rparr> (\<lambda>_. sb') (eb_sensors e)\<rparr>))"
proof (cases "map_of (eb_sensors e) u")
  case None
  then have "map_of (eb_sensors e @ [(u, \<lparr>sb_uuid = u, sb_scopes = []\<rparr>)]) u = Some \<lparr>sb_uuid = u, sb_scopes = []\<rparr>"
    by (simp add: map_of_append_fresh del: map_of_append)
  then show ?thesis using None assms
    by (cases "eb_sensors e = []")
      (simp_all add: nrm_eventbase_push_event_def Let_def hash_find_code nrm_eventbase_add_sensor_def
        nrm_hash_add_map_of alist_upsert_def alist_update_snoc_fresh)
next
  case (Some sb)
  then have "eb_sensors e \<noteq> []" by auto
  then show ?thesis using Some assms
    by (simp add: nrm_eventbase_push_event_def Let_def hash_find_code alist_upsert_def)
qed

lemma push_event_ok:
  assumes "eb_wf e"
  shows "\<exists>e'. nrm_eventbase_push_event (Some e) (Some u) (Some sc) t v = Inr (0, Some e') \<and> eb_wf e'
     \<and> eb_content e' = (eb_content e)((u, scope_uuid sc) :=
         add_mset \<lparr>ev_time = t, ev_value = v\<rparr> (eb_content e (u, scope_uuid sc)))"
proof -
  let ?d = "\<lparr>sb_uuid = u, sb_scopes = []\<rparr>"
  let ?sb = "case map_of (eb_sensors e) u of None \<Rightarrow> ?d | Some sb \<Rightarrow> sb"
  have d: "sb_wf ?d" "sb_content ?d c = {#}" for c by (simp_all add: sb_wf_def sb_content_def)
  have sb: "sb_wf ?sb" "sb_uuid ?sb = u"
    using assms d(1) map_of_SomeD by (fastforce simp: eb_wf_def split: option.splits)+
  obtain sb' where sb': "push_in_sensor sc t v ?sb = Inr sb'" "sb_wf sb'" "sb_uuid sb' = sb_uuid ?sb"
      "sb_content sb' = (sb_content ?sb)(scope_uuid sc :=
        add_mset \<lparr>ev_time = t, ev_value = v\<rparr> (sb_content ?sb (scope_uuid sc)))"
    by (rule push_in_sensor_ok [OF sb(1)])
  let ?e = "e\<lparr>eb_sensors := alist_upsert u ?d (\<lambda>_. sb') (eb_sensors e)\<rparr>"
  have "eb_wf ?e"
    using assms sb' sb
      upsert_all [where P = "\<lambda>u sb. sb_uuid sb = u \<and> sb_wf sb" and xs = "eb_sensors e"
        and k = u and d = ?d and f = "\<lambda>_. sb'"]
    by (simp add: eb_wf_def hash_wf_def distinct_upsert)
  moreover have "eb_content ?e = (eb_content e)((u, scope_uuid sc) :=
      add_mset \<lparr>ev_time = t, ev_value = v\<rparr> (eb_content e (u, scope_uuid sc)))"
    using sb'(4) d(2) by (auto simp: eb_content_def map_of_upsert fun_eq_iff split: option.splits)
  ultimately show ?thesis using push_event_eq [OF sb'(1)] by auto
qed


locale event_store =
  fixes invar :: "'s \<Rightarrow> bool"
    and content :: "'s \<Rightarrow> 'k \<Rightarrow> 'e multiset"
    and push :: "'k \<times> 'e \<Rightarrow> 's \<Rightarrow> 's exec"
  assumes push_ok: "invar s \<Longrightarrow>
      \<exists>s'. push (k, e) s = Inr s' \<and> invar s' \<and> content s' = (content s)(k := add_mset e (content s k))"
begin

lemma push_all:
  "invar s \<Longrightarrow> \<exists>s'. foldE push kes s = Inr s' \<and> invar s'
     \<and> content s' k = content s k + mset (map snd (filter (\<lambda>(k', e). k' = k) kes))"
proof (induction kes arbitrary: s)
  case Nil
  then show ?case by simp
next
  case (Cons ke kes)
  obtain k' e where ke: "ke = (k', e)" by (cases ke)
  from push_ok [OF Cons.prems] obtain s1 where s1: "push (k', e) s = Inr s1" "invar s1"
    "content s1 = (content s)(k' := add_mset e (content s k'))" by blast
  from Cons.IH [OF s1(2)] obtain s' where "foldE push kes s1 = Inr s'" "invar s'"
    "content s' k = content s1 k + mset (map snd (filter (\<lambda>(k', e). k' = k) kes))" by blast
  with s1 ke show ?case by auto
qed

end

definition eb_push :: "(string \<times> string) \<times> nrm_event \<Rightarrow> nrm_eventbase \<Rightarrow> nrm_eventbase exec" where
  "eb_push = (\<lambda>((s, c), e) eb.
     bindE (nrm_eventbase_push_event (Some eb) (Some s) (Some (nrm_scope_create c)) (ev_time e) (ev_value e))
       (\<lambda>(_, r). derefE r))"

interpretation ebs: event_store eb_wf eb_content eb_push
proof unfold_locales
  fix eb and k :: "string \<times> string" and e :: nrm_event
  assume wf: "eb_wf eb"
  obtain s c where k: "k = (s, c)" by (cases k)
  show "\<exists>s'. eb_push (k, e) eb = Inr s' \<and> eb_wf s' \<and> eb_content s' = (eb_content eb)(k := add_mset e (eb_content eb k))"
    using push_event_ok [OF wf, of s "nrm_scope_create c" "ev_time e" "ev_value e"] k
    by (cases e) (auto simp: eb_push_def nrm_scope_create_def)
qed


section \<open>Pulling\<close>

lemma add_events_loop_events:
  "\<exists>t'. add_events_loop es (Some t) = Some t' \<and> ts_events t' = ts_events t @ es
     \<and> ts_sensor_uuid t' = ts_sensor_uuid t \<and> ts_scope t' = ts_scope t
     \<and> nrm_time_tons (ts_start t') = foldl max (nrm_time_tons (ts_start t)) (map (nrm_time_tons \<circ> ev_time) es)"
proof (induction es arbitrary: t)
  case Nil
  then show ?case by simp
next
  case (Cons e es)
  obtain t1 where t: "snd (nrm_timeserie_add_event (Some t) (ev_time e) (ev_value e)) = Some t1"
    "ts_events t1 = ts_events t @ [e]" "ts_sensor_uuid t1 = ts_sensor_uuid t" "ts_scope t1 = ts_scope t"
    "nrm_time_tons (ts_start t1) = max (nrm_time_tons (ts_start t)) (nrm_time_tons (ev_time e))"
    by (auto simp: nrm_timeserie_add_event_def Let_def split: if_splits)
  from Cons.IH [of t1] show ?case by (simp add: t)
qed

lemma pull_slices_events:
  "\<exists>t'. pull_slices lo hi sl (Some t) = Some t'
     \<and> ts_events t' = ts_events t @ concat (map snd (filter (\<lambda>(k, es). lo \<le> k \<and> k < hi) sl))
     \<and> ts_sensor_uuid t' = ts_sensor_uuid t \<and> ts_scope t' = ts_scope t"
proof (induction sl arbitrary: t)
  case Nil
  then show ?case by simp
next
  case (Cons p sl)
  obtain k es where p: "p = (k, es)" by (cases p)
  obtain t1 where t1: "add_events_loop es (Some t) = Some t1" "ts_events t1 = ts_events t @ es"
    "ts_sensor_uuid t1 = ts_sensor_uuid t" "ts_scope t1 = ts_scope t"
    using add_events_loop_events [of es t] by blast
  show ?case
    using Cons.IH [of t1] Cons.IH [of t] t1 p by (auto simp: nrm_timeserie_add_events_def)
qed

lemma filter_slices_mset:
  assumes "\<forall>(k, es) \<in> set sl. \<forall>e \<in> set es. key e = k"
  shows "mset (concat (map snd (filter (\<lambda>(k, es). P k) sl))) = filter_mset (\<lambda>e. P (key e)) (slices_mset sl)"
  using assms
proof (induction sl)
  case Nil
  then show ?case by (simp add: slices_mset_def)
next
  case (Cons p sl)
  obtain k es where p: "p = (k, es)" by (cases p)
  have "filter_mset (\<lambda>e. P (key e)) (mset es) = (if P k then mset es else {#})"
    using Cons.prems p by (auto simp: filter_mset_eq_conv)
  then show ?case using Cons p by (auto simp: slices_mset_def)
qed

lemma pull_ok:
  assumes wf: "eb_wf eb"
  shows "\<exists>ts. nrm_eventbase_pull_timeserie now (Some eb) (Some u) (Some sc) since = Inr (0, Some ts)
     \<and> ts_sensor_uuid ts = u \<and> ts_scope ts = sc
     \<and> mset (ts_events ts) = filter_mset (\<lambda>e. nrm_eb_time2key since \<le> nrm_eb_time2key (ev_time e)
           \<and> nrm_eb_time2key (ev_time e) < nrm_eb_time2key now) (eb_content eb (u, scope_uuid sc))"
proof -
  let ?t0 = "\<lparr>ts_sensor_uuid = u, ts_scope = sc, ts_events = [], ts_start = nrm_time_fromns 0\<rparr>"
  note defs = nrm_eventbase_pull_timeserie_def nrm_timeserie_create_def snd_nrm_hash_find eb_content_def
    sb_content_def nrm_time_gettime_def
  show ?thesis
  proof (cases "map_of (eb_sensors eb) u")
    case None
    then show ?thesis by (simp add: defs)
  next
    case (Some sb)
    then have sb: "sb_wf sb" using wf map_of_SomeD by (fastforce simp: eb_wf_def)
    show ?thesis
    proof (cases "map_of (sb_scopes sb) (scope_uuid sc)")
      case None
      then show ?thesis using Some by (simp add: defs)
    next
      case (Some b)
      then have "sc_wf b" using sb map_of_SomeD by (fastforce simp: sb_wf_def)
      then have keys: "\<forall>(k, es) \<in> set (sc_slices b). \<forall>e \<in> set es. nrm_eb_time2key (ev_time e) = k"
        by (simp add: sc_wf_def)
      obtain ts where ts: "pull_slices (nrm_eb_time2key since) (nrm_eb_time2key now) (sc_slices b) (Some ?t0) = Some ts"
        "ts_events ts = concat (map snd (filter (\<lambda>(k, es). nrm_eb_time2key since \<le> k \<and> k < nrm_eb_time2key now) (sc_slices b)))"
        "ts_sensor_uuid ts = u" "ts_scope ts = sc"
        using pull_slices_events [of "nrm_eb_time2key since" "nrm_eb_time2key now" "sc_slices b" ?t0] by auto
      show ?thesis
        using ts Some \<open>map_of (eb_sensors eb) u = Some sb\<close>
          filter_slices_mset [OF keys, of "\<lambda>k. nrm_eb_time2key since \<le> k \<and> k < nrm_eb_time2key now"]
        by (simp add: defs)
    qed
  qed
qed


section \<open>Properties\<close>

text \<open>
  C16. The event base loses and invents nothing: after any history of pushes into a new event base,
  every one of which returns 0, a pull for a sensor and a scope returns exactly the events pushed for
  that sensor and scope whose period starts at or after the period of \<open>since\<close> and before the
  period of the current time, each as often as it was pushed.
\<close>

theorem nrm_eventbase_pull_returns_pushed:
  "\<exists>eb ts. foldE eb_push pushes (nrm_eventbase_create n) = Inr eb
     \<and> nrm_eventbase_pull_timeserie now (Some eb) (Some u) (Some sc) since = Inr (0, Some ts)
     \<and> ts_sensor_uuid ts = u \<and> ts_scope ts = sc
     \<and> mset (ts_events ts) = mset (map snd (filter (\<lambda>(k, e). k = (u, scope_uuid sc)
          \<and> nrm_eb_time2key since \<le> nrm_eb_time2key (ev_time e)
          \<and> nrm_eb_time2key (ev_time e) < nrm_eb_time2key now) pushes))"
proof -
  let ?k = "(u, scope_uuid sc)"
  have init: "eb_wf (nrm_eventbase_create n)" "eb_content (nrm_eventbase_create n) ?k = {#}"
    by (simp_all add: nrm_eventbase_create_def eb_wf_def eb_content_def)
  from ebs.push_all [OF init(1), of pushes ?k] obtain eb where eb: "foldE eb_push pushes (nrm_eventbase_create n) = Inr eb"
    "eb_wf eb" "eb_content eb ?k = mset (map snd (filter (\<lambda>(k, e). k = ?k) pushes))" using init(2) by auto
  have "filter_mset P (mset (map snd (filter (\<lambda>(k, e). k = ?k) pushes)))
      = mset (map snd (filter (\<lambda>(k, e). k = ?k \<and> P e) pushes))" for P
    by (induction pushes) auto
  with pull_ok [OF eb(2), of now u sc since] eb show ?thesis by auto
qed

text \<open>
  The \<open>start\<close> field of a time series ends up as the latest event time, not the earliest:
  after \<open>nrm_timeserie_add_events\<close> on a new series it is the maximum of zero and the times
  added.
\<close>

theorem nrm_timeserie_start_is_latest:
  assumes "nrm_timeserie_create True True (Some u) (Some sc) = (0, Some t)"
  shows "\<exists>t'. nrm_timeserie_add_events (Some t) es = (0, Some t') \<and> ts_events t' = es
     \<and> nrm_time_tons (ts_start t') = foldl max 0 (map (nrm_time_tons \<circ> ev_time) es)"
proof -
  have t: "ts_events t = []" "nrm_time_tons (ts_start t) = 0"
    using assms by (auto simp: nrm_timeserie_create_def nrm_time_fromns_def nrm_time_tons_def s64_def)
  then show ?thesis
    using add_events_loop_events [of es t] by (auto simp: nrm_timeserie_add_events_def)
qed

theorem nrm_timeserie_start_is_latest_witness:
  "\<exists>t t'. nrm_timeserie_create True True (Some ''s'') (Some (nrm_scope_create ''c'')) = (0, Some t)
     \<and> nrm_timeserie_add_events (Some t) [\<lparr>ev_time = \<lparr>tv_sec = 0, tv_nsec = 5\<rparr>, ev_value = DFin 0\<rparr>,
          \<lparr>ev_time = \<lparr>tv_sec = 0, tv_nsec = 9\<rparr>, ev_value = DFin 0\<rparr>] = (0, Some t')
     \<and> nrm_time_tons (ts_start t') = 9"
proof -
  obtain t where t: "nrm_timeserie_create True True (Some ''s'') (Some (nrm_scope_create ''c'')) = (0, Some t)"
    by (simp add: nrm_timeserie_create_def)
  show ?thesis
    using nrm_timeserie_start_is_latest [OF t, of "[\<lparr>ev_time = \<lparr>tv_sec = 0, tv_nsec = 5\<rparr>, ev_value = DFin 0\<rparr>,
          \<lparr>ev_time = \<lparr>tv_sec = 0, tv_nsec = 9\<rparr>, ev_value = DFin 0\<rparr>]"] t
    by (auto simp: nrm_time_tons_def s64_def)
qed

text \<open>For normalised time stamps the start is the greatest of them in their own order.\<close>

lemma add_events_loop_start:
  assumes "time_wf (ts_start t)" "\<forall>e \<in> set es. time_wf (ev_time e)"
  shows "\<exists>t'. add_events_loop es (Some t) = Some t' \<and> ts_start t' = foldl max (ts_start t) (map ev_time es)"
  using assms
proof (induction es arbitrary: t)
  case (Cons e es)
  obtain t1 where t: "snd (nrm_timeserie_add_event (Some t) (ev_time e) (ev_value e)) = Some t1" "ts_start t1 = max (ts_start t) (ev_time e)"
    using Cons.prems by (auto simp: nrm_timeserie_add_event_def Let_def nrm_time_tons_less max_def split: if_splits)
  then have "time_wf (ts_start t1)" using Cons.prems by (auto simp: max_def)
  with Cons.IH [of t1] Cons.prems t show ?case by simp
qed simp

theorem nrm_timeserie_start_is_max:
  assumes "nrm_timeserie_create True True (Some u) (Some sc) = (0, Some t)" and "\<forall>e \<in> set es. time_wf (ev_time e)"
  shows "\<exists>t'. nrm_timeserie_add_events (Some t) es = (0, Some t') \<and> ts_start t' = Max (insert (nrm_time_fromns 0) (ev_time ` set es))"
proof -
  have "ts_start t = nrm_time_fromns 0" "time_wf (nrm_time_fromns 0)"
    using assms(1) nrm_time_fromns_wf [of 0] by (auto simp: nrm_timeserie_create_def in_s64_def)
  moreover have "foldl max x xs = Max (insert x (set xs))" for x :: nrm_time and xs
  proof (induction xs arbitrary: x)
    case (Cons y xs)
    have "Max (insert x (insert y (set xs))) = max x (max y (Max (insert y (set xs))))"
      by (cases "xs = []") (simp_all add: max.left_idem)
    then show ?case using Cons [of "max x y"] by (cases "xs = []") (simp_all add: max.assoc)
  qed simp
  ultimately show ?thesis using add_events_loop_start [of t es] assms(2) by (auto simp: nrm_timeserie_add_events_def)
qed

end
