(* ===== verification/NRM_Message.thy ===== *)
theory NRM_Message
  imports NRM_Eventbase NRM_Actuator
begin

text \<open>
  The messages of the system (src/messages.c over src/msg.proto): building them from the objects,
  rebuilding the objects from them, framing them for the sockets, and the control messages between a
  broker and the API.

  A protobuf message is a record with the fields of msg.proto; a \<open>oneof\<close> is a datatype whose
  first constructor is the unset case.  The C code keeps the member in a \<open>union\<close> and decides by the
  separate \<open>type\<close> field which member to read: reading a member that is not the one set is
  \<open>WrongUnion\<close>, reading it when none is set gives NULL.  Strings in a message may be NULL
  (\<open>None\<close>) only where the code stores NULL, the client id of an actuator.

  Serialisation belongs to protobuf-c: \<open>pack\<close> and \<open>unpack\<close> are arguments, and what the code
  relies on is \<open>pb_roundtrip\<close>: unpacking a packed message gives it back with proto3's default, the
  empty string, for a string that was NULL.  A zmq message is its list of frames.  Allocations
  succeed.
\<close>

section \<open>Message data\<close>

definition NRM_MSG_TYPE_ACK :: int where "NRM_MSG_TYPE_ACK = 0"
definition NRM_MSG_TYPE_LIST :: int where "NRM_MSG_TYPE_LIST = 1"
definition NRM_MSG_TYPE_ADD :: int where "NRM_MSG_TYPE_ADD = 2"
definition NRM_MSG_TYPE_REMOVE :: int where "NRM_MSG_TYPE_REMOVE = 3"
definition NRM_MSG_TYPE_EVENTS :: int where "NRM_MSG_TYPE_EVENTS = 4"
definition NRM_MSG_TYPE_ACTUATE :: int where "NRM_MSG_TYPE_ACTUATE = 5"
definition NRM_MSG_TYPE_EXIT :: int where "NRM_MSG_TYPE_EXIT = 6"
definition NRM_MSG_TYPE_TICK :: int where "NRM_MSG_TYPE_TICK = 7"
definition NRM_MSG_TYPE_MAX :: int where "NRM_MSG_TYPE_MAX = 8"

definition NRM_MSG_TARGET_TYPE_SLICE :: int where "NRM_MSG_TARGET_TYPE_SLICE = 0"
definition NRM_MSG_TARGET_TYPE_SENSOR :: int where "NRM_MSG_TARGET_TYPE_SENSOR = 1"
definition NRM_MSG_TARGET_TYPE_SCOPE :: int where "NRM_MSG_TARGET_TYPE_SCOPE = 2"
definition NRM_MSG_TARGET_TYPE_ACTUATOR :: int where "NRM_MSG_TARGET_TYPE_ACTUATOR = 3"

lemmas msg_types = NRM_MSG_TYPE_ACK_def NRM_MSG_TYPE_LIST_def NRM_MSG_TYPE_ADD_def NRM_MSG_TYPE_REMOVE_def
  NRM_MSG_TYPE_EVENTS_def NRM_MSG_TYPE_ACTUATE_def NRM_MSG_TYPE_EXIT_def NRM_MSG_TYPE_TICK_def NRM_MSG_TYPE_MAX_def
lemmas msg_targets = NRM_MSG_TARGET_TYPE_SLICE_def NRM_MSG_TARGET_TYPE_SENSOR_def
  NRM_MSG_TARGET_TYPE_SCOPE_def NRM_MSG_TARGET_TYPE_ACTUATOR_def

record nrm_msg_scope =
  ms_uuid :: string
  ms_cpus :: "int list"
  ms_numas :: "int list"
  ms_gpus :: "int list"

record nrm_msg_event =
  me_time :: int
  me_value :: double

record nrm_msg_timeserie =
  mt_sensor_uuid :: string
  mt_scope :: "nrm_msg_scope option"
  mt_start :: int
  mt_events :: "nrm_msg_event list"

record nrm_msg_sensor = msn_uuid :: string
record nrm_msg_slice = msl_uuid :: string

datatype actuator_data = ActNone | ActDiscrete "double list" | ActContinuous double double

record nrm_msg_actuator =
  ma_uuid :: string
  ma_clientid :: "string option"
  ma_value :: double
  ma_type :: int
  ma_data :: actuator_data

datatype add_data =
  AddNone | AddSlice nrm_msg_slice | AddSensor nrm_msg_sensor | AddScope nrm_msg_scope | AddActuator nrm_msg_actuator

record nrm_msg_add =
  add_type :: int
  add_data :: add_data

datatype list_data =
  ListNone | ListSlices "nrm_msg_slice list" | ListSensors "nrm_msg_sensor list"
  | ListScopes "nrm_msg_scope list" | ListActuators "nrm_msg_actuator list"

record nrm_msg_list =
  list_type :: int
  list_data :: list_data

record nrm_msg_remove =
  remove_type :: int
  remove_uuid :: string

record nrm_msg_actuate =
  actuate_uuid :: string
  actuate_value :: double

datatype msg_data =
  DataNone | DataList nrm_msg_list | DataAdd nrm_msg_add | DataRemove nrm_msg_remove
  | DataEvents "nrm_msg_timeserie list" | DataActuate nrm_msg_actuate

record nrm_msg =
  msg_type :: int
  msg_data :: msg_data

text \<open>Reading a member of a union: NULL when nothing was set.\<close>

definition msg_list :: "nrm_msg \<Rightarrow> nrm_msg_list option exec" where
  "msg_list m = (case msg_data m of DataNone \<Rightarrow> Inr None | DataList l \<Rightarrow> Inr (Some l) | _ \<Rightarrow> Inl WrongUnion)"

definition msg_add :: "nrm_msg \<Rightarrow> nrm_msg_add option exec" where
  "msg_add m = (case msg_data m of DataNone \<Rightarrow> Inr None | DataAdd l \<Rightarrow> Inr (Some l) | _ \<Rightarrow> Inl WrongUnion)"

definition msg_remove :: "nrm_msg \<Rightarrow> nrm_msg_remove option exec" where
  "msg_remove m = (case msg_data m of DataNone \<Rightarrow> Inr None | DataRemove l \<Rightarrow> Inr (Some l) | _ \<Rightarrow> Inl WrongUnion)"

definition msg_events :: "nrm_msg \<Rightarrow> nrm_msg_timeserie list option exec" where
  "msg_events m = (case msg_data m of DataNone \<Rightarrow> Inr None | DataEvents l \<Rightarrow> Inr (Some l) | _ \<Rightarrow> Inl WrongUnion)"

definition msg_actuate :: "nrm_msg \<Rightarrow> nrm_msg_actuate option exec" where
  "msg_actuate m = (case msg_data m of DataNone \<Rightarrow> Inr None | DataActuate l \<Rightarrow> Inr (Some l) | _ \<Rightarrow> Inl WrongUnion)"

definition add_slice :: "nrm_msg_add \<Rightarrow> nrm_msg_slice option exec" where
  "add_slice a = (case add_data a of AddNone \<Rightarrow> Inr None | AddSlice x \<Rightarrow> Inr (Some x) | _ \<Rightarrow> Inl WrongUnion)"

definition add_sensor :: "nrm_msg_add \<Rightarrow> nrm_msg_sensor option exec" where
  "add_sensor a = (case add_data a of AddNone \<Rightarrow> Inr None | AddSensor x \<Rightarrow> Inr (Some x) | _ \<Rightarrow> Inl WrongUnion)"

definition add_scope :: "nrm_msg_add \<Rightarrow> nrm_msg_scope option exec" where
  "add_scope a = (case add_data a of AddNone \<Rightarrow> Inr None | AddScope x \<Rightarrow> Inr (Some x) | _ \<Rightarrow> Inl WrongUnion)"

definition add_actuator :: "nrm_msg_add \<Rightarrow> nrm_msg_actuator option exec" where
  "add_actuator a = (case add_data a of AddNone \<Rightarrow> Inr None | AddActuator x \<Rightarrow> Inr (Some x) | _ \<Rightarrow> Inl WrongUnion)"

definition list_slices :: "nrm_msg_list \<Rightarrow> nrm_msg_slice list option exec" where
  "list_slices a = (case list_data a of ListNone \<Rightarrow> Inr None | ListSlices x \<Rightarrow> Inr (Some x) | _ \<Rightarrow> Inl WrongUnion)"

definition list_sensors :: "nrm_msg_list \<Rightarrow> nrm_msg_sensor list option exec" where
  "list_sensors a = (case list_data a of ListNone \<Rightarrow> Inr None | ListSensors x \<Rightarrow> Inr (Some x) | _ \<Rightarrow> Inl WrongUnion)"

definition list_scopes :: "nrm_msg_list \<Rightarrow> nrm_msg_scope list option exec" where
  "list_scopes a = (case list_data a of ListNone \<Rightarrow> Inr None | ListScopes x \<Rightarrow> Inr (Some x) | _ \<Rightarrow> Inl WrongUnion)"

definition list_actuators :: "nrm_msg_list \<Rightarrow> nrm_msg_actuator list option exec" where
  "list_actuators a = (case list_data a of ListNone \<Rightarrow> Inr None | ListActuators x \<Rightarrow> Inr (Some x) | _ \<Rightarrow> Inl WrongUnion)"

definition actuator_discrete :: "nrm_msg_actuator \<Rightarrow> double list exec" where
  "actuator_discrete m =
     (case ma_data m of ActNone \<Rightarrow> Inl NullDeref | ActDiscrete cs \<Rightarrow> Inr cs | _ \<Rightarrow> Inl WrongUnion)"

definition actuator_continuous :: "nrm_msg_actuator \<Rightarrow> (double \<times> double) exec" where
  "actuator_continuous m =
     (case ma_data m of ActNone \<Rightarrow> Inl NullDeref | ActContinuous lo hi \<Rightarrow> Inr (lo, hi) | _ \<Rightarrow> Inl WrongUnion)"

lemmas union_reads = msg_list_def msg_add_def msg_remove_def msg_events_def msg_actuate_def
  add_slice_def add_sensor_def add_scope_def add_actuator_def
  list_slices_def list_sensors_def list_scopes_def list_actuators_def
  actuator_discrete_def actuator_continuous_def


section \<open>Building messages\<close>

definition nrm_msg_create :: nrm_msg where
  "nrm_msg_create = \<lparr>msg_type = 0, msg_data = DataNone\<rparr>"

definition nrm_msg_fill :: "nrm_msg option \<Rightarrow> int \<Rightarrow> int \<times> nrm_msg option" where
  "nrm_msg_fill msg type =
     (case msg of
        None \<Rightarrow> (- NRM_EINVAL, None)
      | Some m \<Rightarrow> if type < 0 \<or> type \<ge> NRM_MSG_TYPE_MAX then (- NRM_EINVAL, msg)
                  else (0, Some (m\<lparr>msg_type := type\<rparr>)))"

definition nrm_msg_actuate_new :: "string \<Rightarrow> double \<Rightarrow> nrm_msg_actuate" where
  "nrm_msg_actuate_new uuid value = \<lparr>actuate_uuid = uuid, actuate_value = value\<rparr>"

definition nrm_msg_sensor_new :: "string \<Rightarrow> nrm_msg_sensor" where
  "nrm_msg_sensor_new uuid = \<lparr>msn_uuid = uuid\<rparr>"

definition nrm_msg_slice_new :: "string \<Rightarrow> nrm_msg_slice" where
  "nrm_msg_slice_new uuid = \<lparr>msl_uuid = uuid\<rparr>"

definition nrm_msg_add_new :: "int \<Rightarrow> nrm_msg_add" where
  "nrm_msg_add_new type = \<lparr>add_type = type, add_data = AddNone\<rparr>"

definition nrm_msg_actuator_discrete_new :: "nrm_actuator \<Rightarrow> double list exec" where
  "nrm_msg_actuator_discrete_new a = actuator_choices a"

definition nrm_msg_actuator_continuous_new :: "nrm_actuator \<Rightarrow> (double \<times> double) exec" where
  "nrm_msg_actuator_continuous_new a = actuator_limits a"

definition nrm_msg_actuator_new :: "nrm_actuator option \<Rightarrow> nrm_msg_actuator exec" where
  "nrm_msg_actuator_new actuator =
     bindE (derefE actuator) (\<lambda>a.
       let ret = \<lparr>ma_uuid = act_uuid a, ma_clientid = act_clientid a, ma_value = act_value a,
                  ma_type = act_type a, ma_data = ActNone\<rparr> in
       if ma_type ret = NRM_ACTUATOR_TYPE_DISCRETE
       then bindE (nrm_msg_actuator_discrete_new a) (\<lambda>cs. Inr (ret\<lparr>ma_data := ActDiscrete cs\<rparr>))
       else if ma_type ret = NRM_ACTUATOR_TYPE_CONTINUOUS
       then bindE (nrm_msg_actuator_continuous_new a) (\<lambda>(lo, hi). Inr (ret\<lparr>ma_data := ActContinuous lo hi\<rparr>))
       else Inr ret)"

text \<open>\<open>nrm_bitmap_to_array\<close> on one map of the scope.\<close>

definition scope_array :: "nrm_scope option \<Rightarrow> nat \<Rightarrow> int list exec" where
  "scope_array scope type =
     bindE (scope_map scope type) (\<lambda>m.
     bindE (nrm_bitmap_to_array True (Some m)) (\<lambda>(_, _, items). derefE items))"

definition nrm_msg_scope_new :: "nrm_scope option \<Rightarrow> nrm_msg_scope exec" where
  "nrm_msg_scope_new scope =
     bindE (derefE scope) (\<lambda>s.
     bindE (scope_array scope NRM_SCOPE_TYPE_CPU) (\<lambda>cpus.
     bindE (scope_array scope NRM_SCOPE_TYPE_NUMA) (\<lambda>numas.
     bindE (scope_array scope NRM_SCOPE_TYPE_GPU) (\<lambda>gpus.
     Inr \<lparr>ms_uuid = scope_uuid s, ms_cpus = cpus, ms_numas = numas, ms_gpus = gpus\<rparr>))))"

definition nrm_msg_event_new :: "nrm_event \<Rightarrow> nrm_msg_event" where
  "nrm_msg_event_new e = \<lparr>me_time = nrm_time_tons (ev_time e), me_value = ev_value e\<rparr>"

definition nrm_msg_timeserie_new :: "nrm_timeserie \<Rightarrow> nrm_msg_timeserie exec" where
  "nrm_msg_timeserie_new ts =
     bindE (nrm_msg_scope_new (Some (ts_scope ts))) (\<lambda>sc.
     Inr \<lparr>mt_sensor_uuid = ts_sensor_uuid ts, mt_scope = Some sc, mt_start = nrm_time_tons (ts_start ts),
          mt_events = map nrm_msg_event_new (ts_events ts)\<rparr>)"

text \<open>The list constructors take a NULL vector for an empty list.\<close>

definition nrm_msg_timeserielist_new :: "nrm_timeserie list option \<Rightarrow> nrm_msg_timeserie list exec" where
  "nrm_msg_timeserielist_new timeseries =
     (case timeseries of None \<Rightarrow> Inr [] | Some ts \<Rightarrow> mapE nrm_msg_timeserie_new ts)"

definition nrm_msg_actuatorlist_new :: "nrm_actuator list option \<Rightarrow> nrm_msg_actuator list exec" where
  "nrm_msg_actuatorlist_new actuators =
     (case actuators of None \<Rightarrow> Inr [] | Some xs \<Rightarrow> mapE (\<lambda>a. nrm_msg_actuator_new (Some a)) xs)"

definition nrm_msg_scopelist_new :: "nrm_scope list option \<Rightarrow> nrm_msg_scope list exec" where
  "nrm_msg_scopelist_new scopes =
     (case scopes of None \<Rightarrow> Inr [] | Some xs \<Rightarrow> mapE (\<lambda>s. nrm_msg_scope_new (Some s)) xs)"

definition nrm_msg_sensorlist_new :: "nrm_sensor list option \<Rightarrow> nrm_msg_sensor list" where
  "nrm_msg_sensorlist_new sensors =
     (case sensors of None \<Rightarrow> [] | Some xs \<Rightarrow> map (\<lambda>s. nrm_msg_sensor_new (sensor_uuid s)) xs)"

definition nrm_msg_slicelist_new :: "nrm_slice list option \<Rightarrow> nrm_msg_slice list" where
  "nrm_msg_slicelist_new slices =
     (case slices of None \<Rightarrow> [] | Some xs \<Rightarrow> map (\<lambda>s. nrm_msg_slice_new (slice_uuid s)) xs)"

definition nrm_msg_list_new :: "int \<Rightarrow> nrm_msg_list" where
  "nrm_msg_list_new type = \<lparr>list_type = type, list_data = ListNone\<rparr>"

definition nrm_msg_remove_new :: "int \<Rightarrow> string \<Rightarrow> nrm_msg_remove" where
  "nrm_msg_remove_new type uuid = \<lparr>remove_type = type, remove_uuid = uuid\<rparr>"

text \<open>The setters: a NULL message is \<open>-NRM_EINVAL\<close>, otherwise the data case is set.\<close>

definition msg_set :: "nrm_msg option \<Rightarrow> msg_data exec \<Rightarrow> (int \<times> nrm_msg option) exec" where
  "msg_set msg d =
     (case msg of
        None \<Rightarrow> Inr (- NRM_EINVAL, None)
      | Some m \<Rightarrow> bindE d (\<lambda>d. Inr (0, Some (m\<lparr>msg_data := d\<rparr>))))"

definition nrm_msg_set_events :: "nrm_msg option \<Rightarrow> nrm_timeserie list option \<Rightarrow> (int \<times> nrm_msg option) exec" where
  "nrm_msg_set_events msg ts = msg_set msg (bindE (nrm_msg_timeserielist_new ts) (\<lambda>l. Inr (DataEvents l)))"

definition nrm_msg_set_actuate :: "nrm_msg option \<Rightarrow> string \<Rightarrow> double \<Rightarrow> (int \<times> nrm_msg option) exec" where
  "nrm_msg_set_actuate msg uuid value = msg_set msg (Inr (DataActuate (nrm_msg_actuate_new uuid value)))"

definition nrm_msg_set_add_actuator :: "nrm_msg option \<Rightarrow> nrm_actuator option \<Rightarrow> (int \<times> nrm_msg option) exec" where
  "nrm_msg_set_add_actuator msg a =
     msg_set msg (bindE (nrm_msg_actuator_new a) (\<lambda>x.
       Inr (DataAdd ((nrm_msg_add_new NRM_MSG_TARGET_TYPE_ACTUATOR)\<lparr>add_data := AddActuator x\<rparr>))))"

definition nrm_msg_set_add_scope :: "nrm_msg option \<Rightarrow> nrm_scope option \<Rightarrow> (int \<times> nrm_msg option) exec" where
  "nrm_msg_set_add_scope msg s =
     msg_set msg (bindE (nrm_msg_scope_new s) (\<lambda>x.
       Inr (DataAdd ((nrm_msg_add_new NRM_MSG_TARGET_TYPE_SCOPE)\<lparr>add_data := AddScope x\<rparr>))))"

definition nrm_msg_set_add_sensor :: "nrm_msg option \<Rightarrow> nrm_sensor option \<Rightarrow> (int \<times> nrm_msg option) exec" where
  "nrm_msg_set_add_sensor msg s =
     msg_set msg (bindE (derefE s) (\<lambda>x.
       Inr (DataAdd ((nrm_msg_add_new NRM_MSG_TARGET_TYPE_SENSOR)\<lparr>add_data := AddSensor (nrm_msg_sensor_new (sensor_uuid x))\<rparr>))))"

definition nrm_msg_set_add_slice :: "nrm_msg option \<Rightarrow> nrm_slice option \<Rightarrow> (int \<times> nrm_msg option) exec" where
  "nrm_msg_set_add_slice msg s =
     msg_set msg (bindE (derefE s) (\<lambda>x.
       Inr (DataAdd ((nrm_msg_add_new NRM_MSG_TARGET_TYPE_SLICE)\<lparr>add_data := AddSlice (nrm_msg_slice_new (slice_uuid x))\<rparr>))))"

definition nrm_msg_set_list_actuators :: "nrm_msg option \<Rightarrow> nrm_actuator list option \<Rightarrow> (int \<times> nrm_msg option) exec" where
  "nrm_msg_set_list_actuators msg v =
     msg_set msg (bindE (nrm_msg_actuatorlist_new v) (\<lambda>l.
       Inr (DataList ((nrm_msg_list_new NRM_MSG_TARGET_TYPE_ACTUATOR)\<lparr>list_data := ListActuators l\<rparr>))))"

definition nrm_msg_set_list_scopes :: "nrm_msg option \<Rightarrow> nrm_scope list option \<Rightarrow> (int \<times> nrm_msg option) exec" where
  "nrm_msg_set_list_scopes msg v =
     msg_set msg (bindE (nrm_msg_scopelist_new v) (\<lambda>l.
       Inr (DataList ((nrm_msg_list_new NRM_MSG_TARGET_TYPE_SCOPE)\<lparr>list_data := ListScopes l\<rparr>))))"

definition nrm_msg_set_list_sensors :: "nrm_msg option \<Rightarrow> nrm_sensor list option \<Rightarrow> (int \<times> nrm_msg option) exec" where
  "nrm_msg_set_list_sensors msg v =
     msg_set msg (Inr (DataList ((nrm_msg_list_new NRM_MSG_TARGET_TYPE_SENSOR)\<lparr>list_data := ListSensors (nrm_msg_sensorlist_new v)\<rparr>)))"

definition nrm_msg_set_list_slices :: "nrm_msg option \<Rightarrow> nrm_slice list option \<Rightarrow> (int \<times> nrm_msg option) exec" where
  "nrm_msg_set_list_slices msg v =
     msg_set msg (Inr (DataList ((nrm_msg_list_new NRM_MSG_TARGET_TYPE_SLICE)\<lparr>list_data := ListSlices (nrm_msg_slicelist_new v)\<rparr>)))"

definition nrm_msg_set_remove :: "nrm_msg option \<Rightarrow> int \<Rightarrow> string \<Rightarrow> (int \<times> nrm_msg option) exec" where
  "nrm_msg_set_remove msg type uuid = msg_set msg (Inr (DataRemove (nrm_msg_remove_new type uuid)))"


text \<open>\<open>nrm_msg_create\<close> followed by \<open>nrm_msg_fill\<close>.\<close>

definition filled :: "int \<Rightarrow> nrm_msg option" where
  "filled type = snd (nrm_msg_fill (Some nrm_msg_create) type)"

lemma filled_eq:
  "0 \<le> t \<Longrightarrow> t < NRM_MSG_TYPE_MAX \<Longrightarrow> filled t = Some \<lparr>msg_type = t, msg_data = DataNone\<rparr>"
  by (simp add: filled_def nrm_msg_fill_def nrm_msg_create_def)

lemma filled_types [simp]:
  "filled NRM_MSG_TYPE_ACK = Some \<lparr>msg_type = NRM_MSG_TYPE_ACK, msg_data = DataNone\<rparr>"
  "filled NRM_MSG_TYPE_LIST = Some \<lparr>msg_type = NRM_MSG_TYPE_LIST, msg_data = DataNone\<rparr>"
  "filled NRM_MSG_TYPE_ADD = Some \<lparr>msg_type = NRM_MSG_TYPE_ADD, msg_data = DataNone\<rparr>"
  "filled NRM_MSG_TYPE_ACTUATE = Some \<lparr>msg_type = NRM_MSG_TYPE_ACTUATE, msg_data = DataNone\<rparr>"
  "filled NRM_MSG_TYPE_EVENTS = Some \<lparr>msg_type = NRM_MSG_TYPE_EVENTS, msg_data = DataNone\<rparr>"
  "filled NRM_MSG_TYPE_REMOVE = Some \<lparr>msg_type = NRM_MSG_TYPE_REMOVE, msg_data = DataNone\<rparr>"
  "filled NRM_MSG_TYPE_EXIT = Some \<lparr>msg_type = NRM_MSG_TYPE_EXIT, msg_data = DataNone\<rparr>"
  "filled NRM_MSG_TYPE_TICK = Some \<lparr>msg_type = NRM_MSG_TYPE_TICK, msg_data = DataNone\<rparr>"
  by (simp_all add: filled_eq msg_types)


section \<open>Destroying messages\<close>

text \<open>
  The destructors free what the \<open>type\<close> fields say is there.  A block of a message is named by the fields that lead to it, and a
  destructor gives the blocks it passes to \<open>free\<close>, in order; reading a field through the wrong member of a union is a fault.  A NULL argument is
  skipped, and so is a client id that is NULL.  An array is listed also when it is NULL because the vector it was made of was (nothing is
  allocated or freed then).  The lists of a message are one object with the array in it.
\<close>

datatype msg_step = Field string | Index nat

type_synonym msg_block = "msg_step list"

definition destroy_ptr :: "('a \<Rightarrow> msg_block list exec) \<Rightarrow> 'a option \<Rightarrow> msg_block list exec" where
  "destroy_ptr f msg = (case msg of None \<Rightarrow> Inr [] | Some m \<Rightarrow> f m)"

definition nrm_msg_actuate_destroy :: "msg_block \<Rightarrow> nrm_msg_actuate option \<Rightarrow> msg_block list exec" where
  "nrm_msg_actuate_destroy p = destroy_ptr (\<lambda>_. Inr [p @ [Field ''uuid''], p])"

definition nrm_msg_sensor_destroy :: "msg_block \<Rightarrow> nrm_msg_sensor option \<Rightarrow> msg_block list exec" where
  "nrm_msg_sensor_destroy p = destroy_ptr (\<lambda>_. Inr [p @ [Field ''uuid''], p])"

definition nrm_msg_slice_destroy :: "msg_block \<Rightarrow> nrm_msg_slice option \<Rightarrow> msg_block list exec" where
  "nrm_msg_slice_destroy p = destroy_ptr (\<lambda>_. Inr [p @ [Field ''uuid''], p])"

definition nrm_msg_actuator_destroy :: "msg_block \<Rightarrow> nrm_msg_actuator option \<Rightarrow> msg_block list exec" where
  "nrm_msg_actuator_destroy p = destroy_ptr (\<lambda>m.
     bindE (if ma_type m = NRM_ACTUATOR_TYPE_DISCRETE
            then bindE (actuator_discrete m) (\<lambda>_. Inr [p @ [Field ''discrete'', Field ''choices''], p @ [Field ''discrete'']])
            else if ma_type m = NRM_ACTUATOR_TYPE_CONTINUOUS
            then (case ma_data m of
                    ActDiscrete _ \<Rightarrow> Inl WrongUnion | ActNone \<Rightarrow> Inr [] | ActContinuous _ _ \<Rightarrow> Inr [p @ [Field ''continuous'']])
            else Inr []) (\<lambda>bs.
     Inr ([p @ [Field ''uuid'']] @ (if ma_clientid m = None then [] else [p @ [Field ''clientid'']]) @ bs @ [p])))"

definition nrm_msg_scope_destroy :: "msg_block \<Rightarrow> nrm_msg_scope option \<Rightarrow> msg_block list exec" where
  "nrm_msg_scope_destroy p = destroy_ptr (\<lambda>_.
     Inr [p @ [Field ''uuid''], p @ [Field ''cpus''], p @ [Field ''numas''], p @ [Field ''gpus''], p])"

definition nrm_msg_event_destroy :: "msg_block \<Rightarrow> nrm_msg_event option \<Rightarrow> msg_block list exec" where
  "nrm_msg_event_destroy p = destroy_ptr (\<lambda>_. Inr [p])"

text \<open>The loop of a list's destructor, and the end of it.\<close>

definition destroy_array :: "(msg_block \<Rightarrow> 'a option \<Rightarrow> msg_block list exec) \<Rightarrow> msg_block \<Rightarrow> 'a list \<Rightarrow> msg_block list exec" where
  "destroy_array f p xs = bindE (mapE (\<lambda>(i, x). f (p @ [Index i]) (Some x)) (enumerate 0 xs)) (\<lambda>bs. Inr (concat bs @ [p]))"

definition nrm_msg_timeserie_destroy :: "msg_block \<Rightarrow> nrm_msg_timeserie option \<Rightarrow> msg_block list exec" where
  "nrm_msg_timeserie_destroy p = destroy_ptr (\<lambda>m.
     bindE (nrm_msg_scope_destroy (p @ [Field ''scope'']) (mt_scope m)) (\<lambda>sc.
     bindE (destroy_array nrm_msg_event_destroy (p @ [Field ''events'']) (mt_events m)) (\<lambda>es.
     Inr ([p @ [Field ''sensor_uuid'']] @ sc @ es @ [p]))))"

definition nrm_msg_timeserielist_destroy :: "msg_block \<Rightarrow> nrm_msg_timeserie list option \<Rightarrow> msg_block list exec" where
  "nrm_msg_timeserielist_destroy p = destroy_ptr (\<lambda>_. Inr [p @ [Field ''series''], p])"

definition nrm_msg_actuatorlist_destroy :: "msg_block \<Rightarrow> nrm_msg_actuator list option \<Rightarrow> msg_block list exec" where
  "nrm_msg_actuatorlist_destroy p = destroy_ptr (\<lambda>xs.
     bindE (destroy_array nrm_msg_actuator_destroy (p @ [Field ''actuators'']) xs) (\<lambda>bs. Inr (bs @ [p])))"

definition nrm_msg_scopelist_destroy :: "msg_block \<Rightarrow> nrm_msg_scope list option \<Rightarrow> msg_block list exec" where
  "nrm_msg_scopelist_destroy p = destroy_ptr (\<lambda>xs.
     bindE (destroy_array nrm_msg_scope_destroy (p @ [Field ''scopes'']) xs) (\<lambda>bs. Inr (bs @ [p])))"

definition nrm_msg_sensorlist_destroy :: "msg_block \<Rightarrow> nrm_msg_sensor list option \<Rightarrow> msg_block list exec" where
  "nrm_msg_sensorlist_destroy p = destroy_ptr (\<lambda>xs.
     bindE (destroy_array nrm_msg_sensor_destroy (p @ [Field ''sensors'']) xs) (\<lambda>bs. Inr (bs @ [p])))"

definition nrm_msg_slicelist_destroy :: "msg_block \<Rightarrow> nrm_msg_slice list option \<Rightarrow> msg_block list exec" where
  "nrm_msg_slicelist_destroy p = destroy_ptr (\<lambda>xs.
     bindE (destroy_array nrm_msg_slice_destroy (p @ [Field ''slices'']) xs) (\<lambda>bs. Inr (bs @ [p])))"

definition nrm_msg_add_destroy :: "msg_block \<Rightarrow> nrm_msg_add option \<Rightarrow> msg_block list exec" where
  "nrm_msg_add_destroy p = destroy_ptr (\<lambda>m.
     bindE (if add_type m = NRM_MSG_TARGET_TYPE_SLICE then bindE (add_slice m) (nrm_msg_slice_destroy (p @ [Field ''slice'']))
            else if add_type m = NRM_MSG_TARGET_TYPE_SENSOR then bindE (add_sensor m) (nrm_msg_sensor_destroy (p @ [Field ''sensor'']))
            else if add_type m = NRM_MSG_TARGET_TYPE_SCOPE then bindE (add_scope m) (nrm_msg_scope_destroy (p @ [Field ''scope'']))
            else if add_type m = NRM_MSG_TARGET_TYPE_ACTUATOR
            then bindE (add_actuator m) (nrm_msg_actuator_destroy (p @ [Field ''actuator'']))
            else Inr []) (\<lambda>bs. Inr (bs @ [p])))"

definition nrm_msg_list_destroy :: "msg_block \<Rightarrow> nrm_msg_list option \<Rightarrow> msg_block list exec" where
  "nrm_msg_list_destroy p = destroy_ptr (\<lambda>m.
     bindE (if list_type m = NRM_MSG_TARGET_TYPE_SLICE then bindE (list_slices m) (nrm_msg_slicelist_destroy (p @ [Field ''slices'']))
            else if list_type m = NRM_MSG_TARGET_TYPE_SENSOR then bindE (list_sensors m) (nrm_msg_sensorlist_destroy (p @ [Field ''sensors'']))
            else if list_type m = NRM_MSG_TARGET_TYPE_SCOPE then bindE (list_scopes m) (nrm_msg_scopelist_destroy (p @ [Field ''scopes'']))
            else if list_type m = NRM_MSG_TARGET_TYPE_ACTUATOR
            then bindE (list_actuators m) (nrm_msg_actuatorlist_destroy (p @ [Field ''actuators'']))
            else Inr []) (\<lambda>bs. Inr (bs @ [p])))"

definition nrm_msg_remove_destroy :: "msg_block \<Rightarrow> nrm_msg_remove option \<Rightarrow> msg_block list exec" where
  "nrm_msg_remove_destroy p = destroy_ptr (\<lambda>_. Inr [p @ [Field ''uuid''], p])"

definition msg_frees :: "nrm_msg \<Rightarrow> msg_block list exec" where
  "msg_frees m =
     bindE (if msg_type m = NRM_MSG_TYPE_ACTUATE then bindE (msg_actuate m) (nrm_msg_actuate_destroy [Field ''actuate''])
            else if msg_type m = NRM_MSG_TYPE_ADD then bindE (msg_add m) (nrm_msg_add_destroy [Field ''add''])
            else if msg_type m = NRM_MSG_TYPE_LIST then bindE (msg_list m) (nrm_msg_list_destroy [Field ''list''])
            else if msg_type m = NRM_MSG_TYPE_EVENTS then bindE (msg_events m) (nrm_msg_timeserielist_destroy [Field ''events''])
            else if msg_type m = NRM_MSG_TYPE_REMOVE then bindE (msg_remove m) (nrm_msg_remove_destroy [Field ''remove''])
            else Inr []) (\<lambda>bs. Inr (bs @ [[]]))"

definition nrm_msg_destroy_created :: "nrm_msg option option \<Rightarrow> nrm_msg option option exec" where
  "nrm_msg_destroy_created msg =
     (case msg of
        None \<Rightarrow> Inr None
      | Some None \<Rightarrow> Inr (Some None)
      | Some (Some m) \<Rightarrow> bindE (msg_frees m) (\<lambda>_. Inr (Some None)))"

definition nrm_msg_destroy_received :: "nrm_msg option option \<Rightarrow> nrm_msg option option" where
  "nrm_msg_destroy_received msg =
     (case msg of None \<Rightarrow> None | Some None \<Rightarrow> Some None | Some (Some _) \<Rightarrow> Some None)"


section \<open>Objects from messages\<close>

definition nrm_actuator_continuous_create_frommsg :: "nrm_msg_actuator \<Rightarrow> nrm_actuator exec" where
  "nrm_actuator_continuous_create_frommsg msg =
     (let ret = nrm_actuator_continuous_create (ma_uuid msg);
          ret = (if ma_clientid msg \<noteq> None then ret\<lparr>act_clientid := ma_clientid msg\<rparr> else ret);
          ret = ret\<lparr>act_value := ma_value msg\<rparr>
      in bindE (actuator_continuous msg) (\<lambda>(lo, hi).
         derefE (snd (nrm_actuator_continuous_set_limits (Some ret) lo hi))))"

definition nrm_actuator_discrete_create_frommsg :: "nrm_msg_actuator \<Rightarrow> nrm_actuator exec" where
  "nrm_actuator_discrete_create_frommsg msg =
     (let ret = nrm_actuator_discrete_create (ma_uuid msg);
          ret = (if ma_clientid msg \<noteq> None then ret\<lparr>act_clientid := ma_clientid msg\<rparr> else ret);
          ret = ret\<lparr>act_value := ma_value msg\<rparr>
      in bindE (actuator_discrete msg) (\<lambda>cs.
         bindE (nrm_actuator_discrete_set_choices (Some ret) (Some cs)) (\<lambda>(_, r). derefE r)))"

definition nrm_actuator_create_frommsg :: "nrm_msg_actuator option \<Rightarrow> nrm_actuator option exec" where
  "nrm_actuator_create_frommsg msg =
     (case msg of
        None \<Rightarrow> Inr None
      | Some m \<Rightarrow>
          if ma_type m = NRM_ACTUATOR_TYPE_DISCRETE
          then bindE (nrm_actuator_discrete_create_frommsg m) (\<lambda>a. Inr (Some a))
          else if ma_type m = NRM_ACTUATOR_TYPE_CONTINUOUS
          then bindE (nrm_actuator_continuous_create_frommsg m) (\<lambda>a. Inr (Some a))
          else Inr None)"

text \<open>\<open>nrm_bitmap_from_array\<close> into one map of the scope.\<close>

definition scope_set_array :: "nat \<Rightarrow> int list \<Rightarrow> nrm_scope \<Rightarrow> nrm_scope exec" where
  "scope_set_array type items s =
     bindE (scope_map (Some s) type) (\<lambda>m.
     bindE (nrm_bitmap_from_array (Some m) items) (\<lambda>(_, m).
     bindE (derefE m) (\<lambda>m. Inr (s\<lparr>maps := (maps s)[type := m]\<rparr>))))"

definition scope_set_arrays :: "nrm_msg_scope \<Rightarrow> nrm_scope \<Rightarrow> nrm_scope exec" where
  "scope_set_arrays m s =
     bindE (scope_set_array NRM_SCOPE_TYPE_CPU (ms_cpus m) s) (\<lambda>s.
     bindE (scope_set_array NRM_SCOPE_TYPE_NUMA (ms_numas m) s) (\<lambda>s.
     scope_set_array NRM_SCOPE_TYPE_GPU (ms_gpus m) s))"

definition nrm_scope_create_frommsg :: "nrm_msg_scope option \<Rightarrow> nrm_scope option exec" where
  "nrm_scope_create_frommsg msg =
     (case msg of
        None \<Rightarrow> Inr None
      | Some m \<Rightarrow> bindE (scope_set_arrays m (nrm_scope_create (ms_uuid m))) (\<lambda>s. Inr (Some s)))"

definition nrm_sensor_create_frommsg :: "nrm_msg_sensor option \<Rightarrow> nrm_sensor option" where
  "nrm_sensor_create_frommsg msg =
     (case msg of None \<Rightarrow> None | Some m \<Rightarrow> Some (nrm_sensor_create (msn_uuid m)))"

definition nrm_slice_create_frommsg :: "nrm_msg_slice option \<Rightarrow> nrm_slice option" where
  "nrm_slice_create_frommsg msg =
     (case msg of None \<Rightarrow> None | Some m \<Rightarrow> Some (nrm_slice_create (msl_uuid m)))"

definition nrm_actuator_update_frommsg ::
  "nrm_actuator option \<Rightarrow> nrm_msg_actuator option \<Rightarrow> (int \<times> nrm_actuator option) exec" where
  "nrm_actuator_update_frommsg actuator msg =
     (case (actuator, msg) of
        (Some a, Some m) \<Rightarrow>
          let a = a\<lparr>act_uuid := ma_uuid m\<rparr>;
              a = (if ma_clientid m \<noteq> None then a\<lparr>act_clientid := ma_clientid m\<rparr> else a);
              a = a\<lparr>act_value := ma_value m\<rparr>
          in if ma_type m = NRM_ACTUATOR_TYPE_DISCRETE
             then bindE (actuator_discrete m) (\<lambda>cs.
                  bindE (nrm_actuator_discrete_set_choices (Some a) (Some cs)) (\<lambda>(_, r). Inr (0, r)))
             else if ma_type m = NRM_ACTUATOR_TYPE_CONTINUOUS
             then bindE (actuator_continuous m) (\<lambda>(lo, hi).
                  Inr (0, snd (nrm_actuator_continuous_set_limits (Some a) lo hi)))
             else Inr (0, Some a)
      | _ \<Rightarrow> Inr (- NRM_EINVAL, actuator))"

definition nrm_scope_update_frommsg ::
  "nrm_scope option \<Rightarrow> nrm_msg_scope option \<Rightarrow> (int \<times> nrm_scope option) exec" where
  "nrm_scope_update_frommsg scope msg =
     (case (scope, msg) of
        (Some s, Some m) \<Rightarrow> bindE (scope_set_arrays m s) (\<lambda>s. Inr (0, Some s))
      | _ \<Rightarrow> Inr (- NRM_EINVAL, scope))"

definition nrm_sensor_update_frommsg ::
  "nrm_sensor option \<Rightarrow> nrm_msg_sensor option \<Rightarrow> int \<times> nrm_sensor option" where
  "nrm_sensor_update_frommsg sensor msg =
     (if sensor = None \<or> msg = None then (- NRM_EINVAL, sensor) else (0, sensor))"

definition nrm_slice_update_frommsg ::
  "nrm_slice option \<Rightarrow> nrm_msg_slice option \<Rightarrow> int \<times> nrm_slice option" where
  "nrm_slice_update_frommsg sl msg =
     (if sl = None \<or> msg = None then (- NRM_EINVAL, sl) else (0, sl))"

definition nrm_msg_is_reply :: "nrm_msg option \<Rightarrow> int exec" where
  "nrm_msg_is_reply msg =
     bindE (derefE msg) (\<lambda>m.
     Inr (if msg_type m = NRM_MSG_TYPE_ACTUATE \<or> msg_type m = NRM_MSG_TYPE_TICK then 0 else 1))"


section \<open>Frames\<close>

text \<open>
  A zmq message is its list of frames, a frame its bytes.  \<open>zmsg_pop\<close> of an empty message is NULL.
  \<open>behind\<close> is the memory after the topic frame, which \<open>nrm_msg_pop_topic\<close> reads up to the
  first zero byte.
\<close>

type_synonym zmsg = "string list"

definition zmsg_pop :: "zmsg \<Rightarrow> string option \<times> zmsg" where
  "zmsg_pop zm = (case zm of [] \<Rightarrow> (None, []) | f # fs \<Rightarrow> (Some f, fs))"

definition nrm_msg_pop_packed_frames :: "(string \<Rightarrow> nrm_msg option) \<Rightarrow> zmsg \<Rightarrow> nrm_msg option exec" where
  "nrm_msg_pop_packed_frames unpack zm =
     (case zmsg_pop zm of (f, zm) \<Rightarrow>
        bindE (derefE f) (\<lambda>delim.
        bindE (assertE (length delim = 0)) (\<lambda>_.
        bindE (derefE (fst (zmsg_pop zm))) (\<lambda>body. Inr (unpack body)))))"

definition nrm_msg_push_packed_frames :: "(nrm_msg \<Rightarrow> string) \<Rightarrow> zmsg \<Rightarrow> nrm_msg option \<Rightarrow> zmsg exec" where
  "nrm_msg_push_packed_frames pack zm msg = bindE (derefE msg) (\<lambda>m. Inr (zm @ [[]] @ [pack m]))"

definition nrm_msg_pop_identity :: "zmsg \<Rightarrow> (string \<times> zmsg) exec" where
  "nrm_msg_pop_identity zm =
     (case zmsg_pop zm of (f, zm) \<Rightarrow> (case f of None \<Rightarrow> Inl AssertFail | Some identity \<Rightarrow> Inr (identity, zm)))"

definition nrm_msg_push_identity :: "zmsg \<Rightarrow> string option \<Rightarrow> zmsg exec" where
  "nrm_msg_push_identity zm uuid = bindE (derefE uuid) (\<lambda>u. Inr (zm @ [u]))"

definition nrm_msg_push_topic :: "zmsg \<Rightarrow> string \<Rightarrow> zmsg" where
  "nrm_msg_push_topic zm topic = zm @ [topic]"

definition nrm_msg_pop_topic :: "string \<Rightarrow> zmsg \<Rightarrow> (string \<times> zmsg) exec" where
  "nrm_msg_pop_topic behind zm =
     (case zmsg_pop zm of (f, zm) \<Rightarrow>
        bindE (derefE f) (\<lambda>t. Inr (takeWhile (\<lambda>c. c \<noteq> char_of (0 :: nat)) (t @ behind), zm)))"

text \<open>What the send functions hand to \<open>zmsg_send\<close>, and what the receive functions make of it.\<close>

definition nrm_msg_send :: "(nrm_msg \<Rightarrow> string) \<Rightarrow> nrm_msg option \<Rightarrow> zmsg exec" where
  "nrm_msg_send pack msg = nrm_msg_push_packed_frames pack [] msg"

definition nrm_msg_sendto :: "(nrm_msg \<Rightarrow> string) \<Rightarrow> nrm_msg option \<Rightarrow> string option \<Rightarrow> zmsg exec" where
  "nrm_msg_sendto pack msg uuid =
     bindE (nrm_msg_push_identity [] uuid) (\<lambda>zm. nrm_msg_push_packed_frames pack zm msg)"

definition nrm_msg_recv :: "(string \<Rightarrow> nrm_msg option) \<Rightarrow> zmsg \<Rightarrow> nrm_msg option exec" where
  "nrm_msg_recv unpack zm = nrm_msg_pop_packed_frames unpack zm"

definition nrm_msg_recvfrom :: "(string \<Rightarrow> nrm_msg option) \<Rightarrow> zmsg \<Rightarrow> (nrm_msg option \<times> string) exec" where
  "nrm_msg_recvfrom unpack zm =
     bindE (nrm_msg_pop_identity zm) (\<lambda>(uuid, zm).
     bindE (nrm_msg_pop_packed_frames unpack zm) (\<lambda>m. Inr (m, uuid)))"

definition nrm_msg_pub :: "(nrm_msg \<Rightarrow> string) \<Rightarrow> string \<Rightarrow> nrm_msg option \<Rightarrow> zmsg exec" where
  "nrm_msg_pub pack topic msg = nrm_msg_push_packed_frames pack (nrm_msg_push_topic [] topic) msg"

definition nrm_msg_sub :: "(string \<Rightarrow> nrm_msg option) \<Rightarrow> string \<Rightarrow> zmsg \<Rightarrow> (nrm_msg option \<times> string) exec" where
  "nrm_msg_sub unpack behind zm =
     bindE (nrm_msg_pop_topic behind zm) (\<lambda>(topic, zm).
     bindE (nrm_msg_pop_packed_frames unpack zm) (\<lambda>m. Inr (m, topic)))"


section \<open>Tables and control messages\<close>

definition nrm_msg_type_table :: "(int \<times> string) list" where
  "nrm_msg_type_table =
     [(NRM_MSG_TYPE_ACK, ''ACK''), (NRM_MSG_TYPE_LIST, ''LIST''), (NRM_MSG_TYPE_ADD, ''ADD''),
      (NRM_MSG_TYPE_REMOVE, ''REMOVE''), (NRM_MSG_TYPE_EVENTS, ''EVENTS''), (NRM_MSG_TYPE_ACTUATE, ''ACTUATE''),
      (NRM_MSG_TYPE_EXIT, ''EXIT''), (NRM_MSG_TYPE_TICK, ''TICK'')]"

definition nrm_msg_target_table :: "(int \<times> string) list" where
  "nrm_msg_target_table =
     [(NRM_MSG_TARGET_TYPE_ACTUATOR, ''ACTUATOR''), (NRM_MSG_TARGET_TYPE_SLICE, ''SLICE''),
      (NRM_MSG_TARGET_TYPE_SENSOR, ''SENSOR''), (NRM_MSG_TARGET_TYPE_SCOPE, ''SCOPE'')]"

definition nrm_msg_actuator_table :: "(int \<times> string) list" where
  "nrm_msg_actuator_table =
     [(NRM_ACTUATOR_TYPE_DISCRETE, ''DISCRETE''), (NRM_ACTUATOR_TYPE_CONTINUOUS, ''CONTINOUS'')]"

definition nrm_msg_type_t2s :: "int \<Rightarrow> (int \<times> string) list \<Rightarrow> string" where
  "nrm_msg_type_t2s type table =
     (if type < 0 then ''UNKNOWN''
      else case find (\<lambda>e. fst e = type) table of Some e \<Rightarrow> snd e | None \<Rightarrow> ''UNKNOWN'')"

definition NRM_CTRLMSG_TYPE_TERM :: int where "NRM_CTRLMSG_TYPE_TERM = 0"
definition NRM_CTRLMSG_TYPE_SEND :: int where "NRM_CTRLMSG_TYPE_SEND = 1"
definition NRM_CTRLMSG_TYPE_RECV :: int where "NRM_CTRLMSG_TYPE_RECV = 2"
definition NRM_CTRLMSG_TYPE_PUB :: int where "NRM_CTRLMSG_TYPE_PUB = 3"
definition NRM_CTRLMSG_TYPE_SUB :: int where "NRM_CTRLMSG_TYPE_SUB = 4"
definition NRM_CTRLMSG_TYPE_MAX :: int where "NRM_CTRLMSG_TYPE_MAX = 5"

lemmas ctrlmsg_types = NRM_CTRLMSG_TYPE_TERM_def NRM_CTRLMSG_TYPE_SEND_def NRM_CTRLMSG_TYPE_RECV_def
  NRM_CTRLMSG_TYPE_PUB_def NRM_CTRLMSG_TYPE_SUB_def NRM_CTRLMSG_TYPE_MAX_def

definition nrm_ctrlmsg_table :: "(int \<times> string) list" where
  "nrm_ctrlmsg_table =
     [(NRM_CTRLMSG_TYPE_TERM, ''$TERM''), (NRM_CTRLMSG_TYPE_SEND, ''SEND''), (NRM_CTRLMSG_TYPE_RECV, ''RECV''),
      (NRM_CTRLMSG_TYPE_PUB, ''PUB''), (NRM_CTRLMSG_TYPE_SUB, ''SUB'')]"

text \<open>The upper test lets \<open>NRM_CTRLMSG_TYPE_MAX\<close> through, one past the end of the table.\<close>

definition nrm_ctrlmsg_t2s :: "int \<Rightarrow> string option exec" where
  "nrm_ctrlmsg_t2s type =
     (if type < 0 \<or> type > NRM_CTRLMSG_TYPE_MAX then Inr None
      else if nat type < length nrm_ctrlmsg_table then Inr (Some (snd (nrm_ctrlmsg_table ! nat type)))
      else Inl OutOfBounds)"

fun ctrlmsg_s2t_loop :: "string \<Rightarrow> (int \<times> string) list \<Rightarrow> int \<Rightarrow> int" where
  "ctrlmsg_s2t_loop str [] i = -1"
| "ctrlmsg_s2t_loop str (e # es) i = (if str = snd e then i else ctrlmsg_s2t_loop str es (i + 1))"

definition nrm_ctrlmsg_s2t :: "string \<Rightarrow> int" where
  "nrm_ctrlmsg_s2t str = ctrlmsg_s2t_loop str nrm_ctrlmsg_table 0"

text \<open>The two pointers of a control message, by what they point to.\<close>

datatype ctrl_ptr = PNull | PMsg nrm_msg | PUuid string | PStr string

type_synonym ctrlmsg = "string \<times> ctrl_ptr \<times> ctrl_ptr"

definition nrm_ctrlmsg_send :: "int \<Rightarrow> ctrl_ptr \<Rightarrow> ctrl_ptr \<Rightarrow> ctrlmsg exec" where
  "nrm_ctrlmsg_send type p1 p2 =
     bindE (nrm_ctrlmsg_t2s type) (\<lambda>ts.
     case ts of None \<Rightarrow> Inl AssertFail | Some t \<Rightarrow> Inr (t, p1, p2))"

definition nrm_ctrlmsg_recv :: "ctrlmsg \<Rightarrow> int \<times> ctrl_ptr \<times> ctrl_ptr" where
  "nrm_ctrlmsg_recv m = (case m of (s, p, q) \<Rightarrow> (nrm_ctrlmsg_s2t s, p, q))"

definition ptr_of_msg :: "nrm_msg option \<Rightarrow> ctrl_ptr" where
  "ptr_of_msg m = (case m of None \<Rightarrow> PNull | Some m \<Rightarrow> PMsg m)"

definition ptr_of_uuid :: "string option \<Rightarrow> ctrl_ptr" where
  "ptr_of_uuid u = (case u of None \<Rightarrow> PNull | Some u \<Rightarrow> PUuid u)"

definition msg_of_ptr :: "ctrl_ptr \<Rightarrow> nrm_msg option exec" where
  "msg_of_ptr p = (case p of PNull \<Rightarrow> Inr None | PMsg m \<Rightarrow> Inr (Some m) | _ \<Rightarrow> Inl WrongUnion)"

definition uuid_of_ptr :: "ctrl_ptr \<Rightarrow> string option exec" where
  "uuid_of_ptr p = (case p of PNull \<Rightarrow> Inr None | PUuid u \<Rightarrow> Inr (Some u) | _ \<Rightarrow> Inl WrongUnion)"

definition str_of_ptr :: "ctrl_ptr \<Rightarrow> string option exec" where
  "str_of_ptr p = (case p of PNull \<Rightarrow> Inr None | PStr s \<Rightarrow> Inr (Some s) | _ \<Rightarrow> Inl WrongUnion)"

definition nrm_ctrlmsg_sendmsg :: "int \<Rightarrow> nrm_msg option \<Rightarrow> string option \<Rightarrow> ctrlmsg exec" where
  "nrm_ctrlmsg_sendmsg type msg to = nrm_ctrlmsg_send type (ptr_of_msg msg) (ptr_of_uuid to)"

definition nrm_ctrlmsg_pub :: "int \<Rightarrow> string \<Rightarrow> nrm_msg option \<Rightarrow> ctrlmsg exec" where
  "nrm_ctrlmsg_pub type topic msg =
     bindE (assertE (type = NRM_CTRLMSG_TYPE_PUB)) (\<lambda>_. nrm_ctrlmsg_send type (PStr topic) (ptr_of_msg msg))"

definition nrm_ctrlmsg_sub :: "int \<Rightarrow> string \<Rightarrow> ctrlmsg exec" where
  "nrm_ctrlmsg_sub type topic =
     bindE (assertE (type = NRM_CTRLMSG_TYPE_SUB)) (\<lambda>_. nrm_ctrlmsg_send type (PStr topic) PNull)"

definition nrm_ctrlmsg_recvmsg :: "ctrlmsg \<Rightarrow> (nrm_msg option \<times> int \<times> string option) exec" where
  "nrm_ctrlmsg_recvmsg m =
     (case nrm_ctrlmsg_recv m of (type, p, q) \<Rightarrow>
        bindE (msg_of_ptr p) (\<lambda>msg. bindE (uuid_of_ptr q) (\<lambda>from. Inr (msg, type, from))))"


section \<open>Objects survive the trip through a message\<close>

lemma qsort_insert_sorted:
  "\<forall>y \<in> set ys. cmp x y \<le> 0 \<Longrightarrow> qsort_insert cmp x ys = x # ys"
  by (cases ys) auto

lemma qsort_list_sorted:
  "sorted_wrt (\<lambda>a b. cmp a b \<le> 0) xs \<Longrightarrow> qsort_list cmp xs = xs"
  by (induction xs) (auto simp: qsort_insert_sorted)

lemma qsort_choices_sorted:
  assumes "sorted_wrt dle cs" and "\<forall>c \<in> set cs. finite_double c"
  shows "qsort_list nrm_vector_sort_double_cmp cs = cs"
  by (rule qsort_list_sorted, rule sorted_wrt_mono_rel [OF _ assms(1)])
    (use assms(2) finite_not_NaN double_cmp_le in auto)

definition scope_to_msg :: "nrm_scope \<Rightarrow> nrm_msg_scope" where
  "scope_to_msg s = \<lparr>ms_uuid = scope_uuid s, ms_cpus = map int (bitmap_elems (maps s ! 0)),
     ms_numas = map int (bitmap_elems (maps s ! 1)), ms_gpus = map int (bitmap_elems (maps s ! 2))\<rparr>"

text \<open>The message about one event.\<close>

definition event_msg :: "string \<Rightarrow> nrm_scope \<Rightarrow> nrm_time \<Rightarrow> double \<Rightarrow> nrm_msg" where
  "event_msg u sc t v = \<lparr>msg_type = NRM_MSG_TYPE_EVENTS, msg_data = DataEvents
     [\<lparr>mt_sensor_uuid = u, mt_scope = Some (scope_to_msg sc),
       mt_start = nrm_time_tons (if nrm_time_tons (nrm_time_fromns 0) < nrm_time_tons t then t else nrm_time_fromns 0),
       mt_events = [\<lparr>me_time = nrm_time_tons t, me_value = v\<rparr>]\<rparr>]\<rparr>"

lemma nrm_msg_scope_new_ok:
  assumes "scope_wf s"
  shows "nrm_msg_scope_new (Some s) = Inr (scope_to_msg s)"
proof -
  have "scope_array (Some s) k = Inr (map int (bitmap_elems (maps s ! k)))" if "k < 3" for k
    using scope_map_wf [OF assms, of k] that by (simp add: scope_array_def nrm_bitmap_to_array_ok scope_consts)
  then show ?thesis by (simp add: nrm_msg_scope_new_def scope_to_msg_def scope_consts)
qed

lemma nrm_scope_create_frommsg_ok:
  assumes "scope_wf s"
  shows "nrm_scope_create_frommsg (Some (scope_to_msg s)) = Inr (Some s)"
proof -
  obtain a b c where m: "maps s = [a, b, c]" "bitmap_wf a" "bitmap_wf b" "bitmap_wf c"
    by (rule scope_cases [OF assms])
  then show ?thesis
    by (cases s)
      (simp add: nrm_scope_create_frommsg_def scope_set_arrays_def scope_set_array_def scope_map_def scope_to_msg_def
        nrm_scope_create_def scope_consts nrm_bitmap_from_array_elems numeral_eq_Suc)
qed

lemma scope_wf_set_arrays:
  assumes "scope_wf s"
  shows "\<exists>s'. scope_set_arrays m s = Inr s' \<and> scope_wf s' \<and> scope_uuid s' = scope_uuid s"
proof -
  have step: "\<exists>s'. scope_set_array k items s = Inr s' \<and> scope_wf s' \<and> scope_uuid s' = scope_uuid s"
    if wf: "scope_wf s" and k: "k < NRM_SCOPE_TYPE_MAX" for k items s
  proof -
    obtain b where b: "nrm_bitmap_from_array (Some (maps s ! k)) items = Inr (0, Some b)" "bitmap_wf b"
      using nrm_bitmap_from_array_mem by blast
    have "scope_wf (s\<lparr>maps := (maps s)[k := b]\<rparr>)"
      using wf b(2) by (auto simp: scope_wf_def dest!: set_update_subset_insert [THEN subsetD])
    then show ?thesis using b scope_map_wf [OF wf k] by (simp add: scope_set_array_def)
  qed
  obtain s1 where s1: "scope_set_array NRM_SCOPE_TYPE_CPU (ms_cpus m) s = Inr s1" "scope_wf s1" "scope_uuid s1 = scope_uuid s"
    using step [OF assms, of NRM_SCOPE_TYPE_CPU "ms_cpus m"] by (auto simp: scope_consts)
  obtain s2 where s2: "scope_set_array NRM_SCOPE_TYPE_NUMA (ms_numas m) s1 = Inr s2" "scope_wf s2" "scope_uuid s2 = scope_uuid s1"
    using step [OF s1(2), of NRM_SCOPE_TYPE_NUMA "ms_numas m"] by (auto simp: scope_consts)
  from step [OF s2(2), of NRM_SCOPE_TYPE_GPU "ms_gpus m"] s1 s2 show ?thesis
    by (auto simp: scope_set_arrays_def scope_consts)
qed

lemma nrm_scope_create_frommsg_wf:
  "\<exists>s. nrm_scope_create_frommsg (Some m) = Inr (Some s) \<and> scope_wf s \<and> scope_uuid s = ms_uuid m"
  using scope_wf_set_arrays [OF scope_wf_create [of "ms_uuid m"], of m]
  by (auto simp: nrm_scope_create_frommsg_def nrm_scope_create_def)

lemma actuator_msg_ok:
  assumes "actuator_wf a"
  shows "\<exists>m. nrm_msg_actuator_new (Some a) = Inr m \<and> ma_uuid m = act_uuid a \<and> ma_clientid m = act_clientid a
    \<and> nrm_actuator_create_frommsg (Some m) = Inr (Some a)
    \<and> (\<forall>c. nrm_actuator_create_frommsg (Some (m\<lparr>ma_clientid := Some c\<rparr>)) = Inr (Some (a\<lparr>act_clientid := Some c\<rparr>)))"
  using assms
proof (cases rule: actuator_kinds)
  case (disc cs)
  then have "act_type a = NRM_ACTUATOR_TYPE_DISCRETE" using assms by (simp add: actuator_wf_def)
  moreover have "qsort_list nrm_vector_sort_double_cmp cs = cs" using disc by (simp add: qsort_choices_sorted)
  ultimately show ?thesis using disc(1,2)
    by (cases a; cases "cs = []"; cases "act_clientid a")
      (auto simp: Let_def nrm_msg_actuator_new_def nrm_msg_actuator_discrete_new_def actuator_choices_def
        nrm_actuator_create_frommsg_def nrm_actuator_discrete_create_frommsg_def actuator_discrete_def
        nrm_actuator_discrete_set_choices_def nrm_actuator_discrete_create_def actuator_consts)
next
  case (cont lo hi)
  then have "act_type a = NRM_ACTUATOR_TYPE_CONTINUOUS" using assms by (simp add: actuator_wf_def)
  then show ?thesis using cont(1,2)
    by (cases a; cases "act_clientid a")
      (auto simp: Let_def nrm_msg_actuator_new_def nrm_msg_actuator_continuous_new_def actuator_limits_def
        nrm_actuator_create_frommsg_def nrm_actuator_continuous_create_frommsg_def actuator_continuous_def
        nrm_actuator_continuous_set_limits_def nrm_actuator_continuous_create_def actuator_consts)
qed


definition actuator_msg_consistent :: "nrm_msg_actuator \<Rightarrow> bool" where
  "actuator_msg_consistent m \<longleftrightarrow>
     (if ma_type m = NRM_ACTUATOR_TYPE_DISCRETE then (\<exists>cs. ma_data m = ActDiscrete cs)
      else if ma_type m = NRM_ACTUATOR_TYPE_CONTINUOUS then (\<exists>lo hi. ma_data m = ActContinuous lo hi)
      else True)"

lemma create_frommsg_shape:
  assumes "nrm_actuator_create_frommsg (Some m) = Inr (Some a)"
  shows "actuator_shape a \<and> act_uuid a = ma_uuid m"
proof (cases "ma_type m = NRM_ACTUATOR_TYPE_DISCRETE")
  case True
  then obtain cs where cs: "actuator_discrete m = Inr cs"
    and a: "nrm_actuator_discrete_create_frommsg m = Inr a"
    using assms by (auto simp: nrm_actuator_create_frommsg_def nrm_actuator_discrete_create_frommsg_def Let_def
        bindE_eq_Inr)
  then show ?thesis
    by (cases "cs = []"; cases "ma_clientid m")
      (auto simp: nrm_actuator_discrete_create_frommsg_def Let_def nrm_actuator_discrete_set_choices_def
        actuator_choices_def nrm_actuator_discrete_create_def actuator_shape_def)
next
  case False
  then have "nrm_actuator_continuous_create_frommsg m = Inr a"
    using assms by (auto simp: nrm_actuator_create_frommsg_def bindE_eq_Inr split: if_splits)
  then show ?thesis
    by (cases "ma_clientid m")
      (auto simp: nrm_actuator_continuous_create_frommsg_def Let_def nrm_actuator_continuous_set_limits_def
        nrm_actuator_continuous_create_def actuator_shape_def bindE_eq_Inr)
qed

lemma create_frommsg_returns:
  assumes "actuator_msg_consistent m" and "ma_type m \<in> {NRM_ACTUATOR_TYPE_DISCRETE, NRM_ACTUATOR_TYPE_CONTINUOUS}"
  shows "\<exists>a. nrm_actuator_create_frommsg (Some m) = Inr (Some a)"
proof (cases "ma_type m = NRM_ACTUATOR_TYPE_DISCRETE")
  case True
  then obtain cs where "ma_data m = ActDiscrete cs" using assms by (auto simp: actuator_msg_consistent_def)
  with True show ?thesis
    by (cases "cs = []"; cases "ma_clientid m")
      (auto simp: nrm_actuator_create_frommsg_def nrm_actuator_discrete_create_frommsg_def Let_def
        nrm_actuator_discrete_set_choices_def actuator_choices_def nrm_actuator_discrete_create_def actuator_discrete_def)
next
  case False
  then obtain lo hi where "ma_data m = ActContinuous lo hi" "ma_type m = NRM_ACTUATOR_TYPE_CONTINUOUS"
    using assms by (auto simp: actuator_msg_consistent_def actuator_consts)
  then show ?thesis
    by (auto simp: nrm_actuator_create_frommsg_def nrm_actuator_continuous_create_frommsg_def Let_def
        nrm_actuator_continuous_set_limits_def actuator_continuous_def actuator_consts)
qed


section \<open>Messages whose data matches their type\<close>

definition add_consistent :: "nrm_msg_add \<Rightarrow> bool" where
  "add_consistent m \<longleftrightarrow>
     (case add_data m of
        AddNone \<Rightarrow> False
      | AddSlice _ \<Rightarrow> add_type m = NRM_MSG_TARGET_TYPE_SLICE
      | AddSensor _ \<Rightarrow> add_type m = NRM_MSG_TARGET_TYPE_SENSOR
      | AddScope _ \<Rightarrow> add_type m = NRM_MSG_TARGET_TYPE_SCOPE
      | AddActuator a \<Rightarrow> add_type m = NRM_MSG_TARGET_TYPE_ACTUATOR \<and> actuator_msg_consistent a)"

definition list_consistent :: "nrm_msg_list \<Rightarrow> bool" where
  "list_consistent m \<longleftrightarrow>
     (case list_data m of
        ListNone \<Rightarrow> False
      | ListSlices _ \<Rightarrow> list_type m = NRM_MSG_TARGET_TYPE_SLICE
      | ListSensors _ \<Rightarrow> list_type m = NRM_MSG_TARGET_TYPE_SENSOR
      | ListScopes _ \<Rightarrow> list_type m = NRM_MSG_TARGET_TYPE_SCOPE
      | ListActuators as \<Rightarrow> list_type m = NRM_MSG_TARGET_TYPE_ACTUATOR \<and> (\<forall>a \<in> set as. actuator_msg_consistent a))"

definition msg_consistent :: "nrm_msg \<Rightarrow> bool" where
  "msg_consistent m \<longleftrightarrow>
     (case msg_data m of
        DataNone \<Rightarrow> msg_type m \<in> {NRM_MSG_TYPE_ACK, NRM_MSG_TYPE_EXIT, NRM_MSG_TYPE_TICK}
      | DataList l \<Rightarrow> msg_type m = NRM_MSG_TYPE_LIST \<and> list_consistent l
      | DataAdd a \<Rightarrow> msg_type m = NRM_MSG_TYPE_ADD \<and> add_consistent a
      | DataRemove _ \<Rightarrow> msg_type m = NRM_MSG_TYPE_REMOVE
      | DataEvents _ \<Rightarrow> msg_type m = NRM_MSG_TYPE_EVENTS
      | DataActuate _ \<Rightarrow> msg_type m = NRM_MSG_TYPE_ACTUATE)"

lemma actuator_new_consistent:
  "nrm_msg_actuator_new (Some a) = Inr m \<Longrightarrow> actuator_msg_consistent m"
  by (auto simp: nrm_msg_actuator_new_def actuator_msg_consistent_def Let_def actuator_consts bindE_eq_Inr
      split: if_splits)

lemma actuatorlist_new_consistent:
  "mapE (\<lambda>a. nrm_msg_actuator_new (Some a)) as = Inr ms \<Longrightarrow> \<forall>m \<in> set ms. actuator_msg_consistent m"
  by (induction as arbitrary: ms) (auto simp: bindE_eq_Inr actuator_new_consistent)

text \<open>
  The blocks of a message, by the constructors that allocate them; the pointers of one message are all different, since every
  constructor stores what \<open>calloc\<close> or \<open>strdup\<close> gave it.
\<close>

definition uuid_blocks :: "msg_block \<Rightarrow> msg_block list" where
  "uuid_blocks p = [p, p @ [Field ''uuid'']]"

definition actuator_blocks :: "msg_block \<Rightarrow> nrm_msg_actuator \<Rightarrow> msg_block list" where
  "actuator_blocks p m = uuid_blocks p @ (if ma_clientid m = None then [] else [p @ [Field ''clientid'']])
     @ (if ma_type m = NRM_ACTUATOR_TYPE_DISCRETE then [p @ [Field ''discrete''], p @ [Field ''discrete'', Field ''choices'']]
        else if ma_type m = NRM_ACTUATOR_TYPE_CONTINUOUS then [p @ [Field ''continuous'']] else [])"

definition scope_blocks :: "msg_block \<Rightarrow> msg_block list" where
  "scope_blocks p = uuid_blocks p @ [p @ [Field ''cpus''], p @ [Field ''numas''], p @ [Field ''gpus'']]"

definition array_blocks :: "(msg_block \<Rightarrow> 'a \<Rightarrow> msg_block list) \<Rightarrow> msg_block \<Rightarrow> 'a list \<Rightarrow> msg_block list" where
  "array_blocks f p xs = p # concat (map (\<lambda>(i, x). f (p @ [Index i]) x) (enumerate 0 xs))"

definition timeserie_blocks :: "msg_block \<Rightarrow> nrm_msg_timeserie \<Rightarrow> msg_block list" where
  "timeserie_blocks p m = [p, p @ [Field ''sensor_uuid'']] @ (if mt_scope m = None then [] else scope_blocks (p @ [Field ''scope'']))
     @ array_blocks (\<lambda>p _. [p]) (p @ [Field ''events'']) (mt_events m)"

definition add_blocks :: "msg_block \<Rightarrow> nrm_msg_add \<Rightarrow> msg_block list" where
  "add_blocks p m = p # (case add_data m of
       AddNone \<Rightarrow> []
     | AddSlice _ \<Rightarrow> uuid_blocks (p @ [Field ''slice''])
     | AddSensor _ \<Rightarrow> uuid_blocks (p @ [Field ''sensor''])
     | AddScope _ \<Rightarrow> scope_blocks (p @ [Field ''scope''])
     | AddActuator a \<Rightarrow> actuator_blocks (p @ [Field ''actuator'']) a)"

definition list_blocks :: "msg_block \<Rightarrow> nrm_msg_list \<Rightarrow> msg_block list" where
  "list_blocks p m = p # (case list_data m of
       ListNone \<Rightarrow> []
     | ListSlices xs \<Rightarrow> (p @ [Field ''slices'']) # array_blocks (\<lambda>p _. uuid_blocks p) (p @ [Field ''slices'', Field ''slices'']) xs
     | ListSensors xs \<Rightarrow> (p @ [Field ''sensors'']) # array_blocks (\<lambda>p _. uuid_blocks p) (p @ [Field ''sensors'', Field ''sensors'']) xs
     | ListScopes xs \<Rightarrow> (p @ [Field ''scopes'']) # array_blocks (\<lambda>p _. scope_blocks p) (p @ [Field ''scopes'', Field ''scopes'']) xs
     | ListActuators xs \<Rightarrow> (p @ [Field ''actuators'']) # array_blocks actuator_blocks (p @ [Field ''actuators'', Field ''actuators'']) xs)"

definition msg_blocks :: "nrm_msg \<Rightarrow> msg_block list" where
  "msg_blocks m = [] # (case msg_data m of
       DataNone \<Rightarrow> []
     | DataActuate _ \<Rightarrow> uuid_blocks [Field ''actuate'']
     | DataRemove _ \<Rightarrow> uuid_blocks [Field ''remove'']
     | DataAdd a \<Rightarrow> add_blocks [Field ''add''] a
     | DataList l \<Rightarrow> list_blocks [Field ''list''] l
     | DataEvents es \<Rightarrow> [Field ''events''] # array_blocks timeserie_blocks [Field ''events'', Field ''series''] es)"

text \<open>The blocks of an object lie under it and are different.\<close>

definition tree_of :: "msg_block \<Rightarrow> msg_block list \<Rightarrow> bool" where
  "tree_of p bs \<longleftrightarrow> distinct bs \<and> (\<forall>b \<in> set bs. prefix p b)"

lemma tree_parts: "tree_of p (uuid_blocks p)" "tree_of p (scope_blocks p)" "tree_of p (actuator_blocks p a)"
  by (auto simp: tree_of_def uuid_blocks_def scope_blocks_def actuator_blocks_def)

lemma tree_disjoint:
  assumes "tree_of (p @ [Index i]) as" "tree_of (p @ [Index j]) bs" "i \<noteq> j"
  shows "set as \<inter> set bs = {}"
proof -
  have False if "prefix (p @ [Index i]) b" "prefix (p @ [Index j]) b" for b
    using that assms(3) by (auto simp: prefix_def)
  then show ?thesis using assms(1,2) by (auto simp: tree_of_def)
qed

lemma tree_array:
  assumes g: "\<And>p x. tree_of p (g p x)"
  shows "tree_of p (array_blocks g p xs)"
proof -
  let ?L = "\<lambda>k xs. concat (map (\<lambda>(i, x). g (p @ [Index i]) x) (enumerate k xs))"
  have under: "\<exists>i \<ge> k. \<exists>x. b \<in> set (g (p @ [Index i]) x)" if "b \<in> set (?L k xs)" for b k xs
    using that by (fastforce simp: in_set_enumerate_eq)
  have dist: "distinct (?L k xs)" for k
  proof (induction xs arbitrary: k)
    case (Cons x xs)
    have "set (g (p @ [Index k]) x) \<inter> set (?L (Suc k) xs) = {}"
    proof -
      have "b \<notin> set (?L (Suc k) xs)" if b: "b \<in> set (g (p @ [Index k]) x)" for b
      proof
        assume "b \<in> set (?L (Suc k) xs)"
        from under [OF this] obtain i y where "i \<ge> Suc k" "b \<in> set (g (p @ [Index i]) y)" by blast
        then show False using tree_disjoint [of p k "g (p @ [Index k]) x" i "g (p @ [Index i]) y"] g b by auto
      qed
      then show ?thesis by blast
    qed
    moreover have "distinct (g (p @ [Index k]) x)" using g [of "p @ [Index k]" x] by (simp add: tree_of_def)
    ultimately show ?case using Cons.IH [of "Suc k"] by simp
  qed simp
  have pre: "strict_prefix p b" if b: "b \<in> set (?L 0 xs)" for b
  proof -
    obtain i x where "b \<in> set (g (p @ [Index i]) x)" using under [OF b] by blast
    then have "prefix (p @ [Index i]) b" using g by (auto simp: tree_of_def)
    then show ?thesis by (auto simp: prefix_def strict_prefix_def)
  qed
  have "p \<notin> set (?L 0 xs)" using pre by auto
  then show ?thesis using dist [of 0] pre by (auto simp: tree_of_def array_blocks_def strict_prefix_def)
qed

lemma tree_sub:
  assumes "tree_of (p @ [s]) bs"
  shows "tree_of p (p # bs)"
  using assms by (fastforce simp: tree_of_def prefix_def)

lemma tree_msg: "distinct (msg_blocks m)"
proof -
  have ev: "tree_of p (timeserie_blocks p x)" for p x
  proof -
    have "tree_of (p @ [Field ''events'']) (array_blocks (\<lambda>p _. [p]) (p @ [Field ''events'']) (mt_events x))"
      by (rule tree_array) (simp add: tree_of_def)
    then show ?thesis using tree_parts(2) [of "p @ [Field ''scope'']"] by (fastforce simp: tree_of_def timeserie_blocks_def prefix_def)
  qed
  have arr: "tree_of p (p # (p @ [Field f]) # array_blocks g (p @ [Field f, Field f']) xs)" if "\<And>p x. tree_of p (g p x)"
    for p f f' xs and g :: "msg_block \<Rightarrow> 'x \<Rightarrow> msg_block list"
    using tree_sub [OF tree_sub, of p "Field f" "Field f'"] tree_array [of g "p @ [Field f, Field f']" xs] that by simp
  have l: "tree_of p (list_blocks p l)" for p l
    by (cases "list_data l") (simp_all add: list_blocks_def arr tree_parts tree_of_def [of p "[p]"])
  have a: "tree_of p (add_blocks p a)" for p a
    by (cases "add_data a") (auto simp: add_blocks_def tree_of_def [of p "[p]"] intro: tree_sub tree_parts)
  have e: "tree_of [Field ''events''] ([Field ''events''] # array_blocks timeserie_blocks [Field ''events'', Field ''series''] es)" for es
    using tree_sub [of "[Field ''events'']" "Field ''series''"] tree_array [of timeserie_blocks "[Field ''events'', Field ''series'']" es] ev by simp
  have "tree_of [] (msg_blocks m)"
    using tree_sub [of "[]", OF _] l [of "[Field ''list'']"] a [of "[Field ''add'']"] e tree_parts(1)
    by (cases "msg_data m") (fastforce simp: msg_blocks_def tree_of_def)+
  then show ?thesis by (simp add: tree_of_def)
qed

text \<open>Every destructor but that of the time series frees the blocks of its object, each once.\<close>

lemma uuid_destroys:
  "nrm_msg_sensor_destroy p (Some n) = Inr [p @ [Field ''uuid''], p]" "nrm_msg_slice_destroy p (Some l) = Inr [p @ [Field ''uuid''], p]"
  "nrm_msg_actuate_destroy p (Some a) = Inr [p @ [Field ''uuid''], p]" "nrm_msg_remove_destroy p (Some r) = Inr [p @ [Field ''uuid''], p]"
  by (simp_all add: nrm_msg_sensor_destroy_def nrm_msg_slice_destroy_def nrm_msg_actuate_destroy_def nrm_msg_remove_destroy_def destroy_ptr_def)

lemma actuator_destroys:
  "actuator_msg_consistent m \<Longrightarrow> \<exists>bs. nrm_msg_actuator_destroy p (Some m) = Inr bs \<and> mset bs = mset (actuator_blocks p m)"
  by (auto simp: actuator_msg_consistent_def nrm_msg_actuator_destroy_def destroy_ptr_def actuator_discrete_def actuator_blocks_def
      uuid_blocks_def split: if_splits)

lemma scope_destroys: "\<exists>bs. nrm_msg_scope_destroy p (Some sc) = Inr bs \<and> mset bs = mset (scope_blocks p)"
  by (simp add: nrm_msg_scope_destroy_def destroy_ptr_def scope_blocks_def uuid_blocks_def)

lemma array_destroys:
  assumes "\<And>p x. x \<in> set xs \<Longrightarrow> \<exists>bs. f p (Some x) = Inr bs \<and> mset bs = mset (g p x)"
  shows "\<exists>bs. destroy_array f p xs = Inr bs \<and> mset bs = mset (array_blocks g p xs)"
proof -
  have "\<exists>bss. mapE (\<lambda>(i, x). f (p @ [Index i]) (Some x)) (enumerate k xs) = Inr bss
      \<and> mset (concat bss) = mset (concat (map (\<lambda>(i, x). g (p @ [Index i]) x) (enumerate k xs)))" for k
    using assms
  proof (induction xs arbitrary: k)
    case (Cons x xs)
    obtain bs where bs: "f (p @ [Index k]) (Some x) = Inr bs" "mset bs = mset (g (p @ [Index k]) x)" using Cons.prems by fastforce
    obtain bss where "mapE (\<lambda>(i, x). f (p @ [Index i]) (Some x)) (enumerate (Suc k) xs) = Inr bss"
      "mset (concat bss) = mset (concat (map (\<lambda>(i, x). g (p @ [Index i]) x) (enumerate (Suc k) xs)))"
      using Cons.IH [of "Suc k"] Cons.prems by fastforce
    with bs show ?case by simp
  qed simp
  from this [of 0] show ?thesis by (auto simp: destroy_array_def array_blocks_def)
qed

lemma add_destroys:
  assumes "add_consistent a"
  shows "\<exists>bs. nrm_msg_add_destroy p (Some a) = Inr bs \<and> mset bs = mset (add_blocks p a)"
proof (cases "add_data a")
  case (AddActuator x)
  then have "actuator_msg_consistent x" using assms by (simp add: add_consistent_def)
  from actuator_destroys [OF this, of "p @ [Field ''actuator'']"] obtain bs where
    "nrm_msg_actuator_destroy (p @ [Field ''actuator'']) (Some x) = Inr bs" "mset bs = mset (actuator_blocks (p @ [Field ''actuator'']) x)" by blast
  then show ?thesis using assms AddActuator
    by (simp add: nrm_msg_add_destroy_def destroy_ptr_def add_consistent_def union_reads msg_targets add_blocks_def)
next
  case (AddScope x)
  then show ?thesis using assms scope_destroys [of "p @ [Field ''scope'']" x]
    by (auto simp: nrm_msg_add_destroy_def destroy_ptr_def add_consistent_def union_reads msg_targets add_blocks_def)
qed (use assms in \<open>auto simp: nrm_msg_add_destroy_def destroy_ptr_def add_consistent_def union_reads msg_targets add_blocks_def
      uuid_destroys uuid_blocks_def\<close>)

lemma list_destroys:
  assumes "list_consistent l"
  shows "\<exists>bs. nrm_msg_list_destroy p (Some l) = Inr bs \<and> mset bs = mset (list_blocks p l)"
proof -
  note d = nrm_msg_list_destroy_def destroy_ptr_def union_reads msg_targets list_blocks_def
  show ?thesis
  proof (cases "list_data l")
    case (ListSlices xs)
    then show ?thesis using assms array_destroys [of xs nrm_msg_slice_destroy "\<lambda>p _. uuid_blocks p" "p @ [Field ''slices'', Field ''slices'']"]
      by (auto simp: list_consistent_def d nrm_msg_slicelist_destroy_def uuid_destroys uuid_blocks_def)
  next
    case (ListSensors xs)
    then show ?thesis using assms array_destroys [of xs nrm_msg_sensor_destroy "\<lambda>p _. uuid_blocks p" "p @ [Field ''sensors'', Field ''sensors'']"]
      by (auto simp: list_consistent_def d nrm_msg_sensorlist_destroy_def uuid_destroys uuid_blocks_def)
  next
    case (ListScopes xs)
    then show ?thesis using assms array_destroys [of xs nrm_msg_scope_destroy "\<lambda>p _. scope_blocks p" "p @ [Field ''scopes'', Field ''scopes'']", OF scope_destroys]
      by (auto simp: list_consistent_def d nrm_msg_scopelist_destroy_def)
  next
    case (ListActuators xs)
    then have "\<And>x. x \<in> set xs \<Longrightarrow> actuator_msg_consistent x" using assms by (simp add: list_consistent_def)
    from array_destroys [of xs nrm_msg_actuator_destroy actuator_blocks "p @ [Field ''actuators'', Field ''actuators'']", OF actuator_destroys [OF this]] ListActuators
    show ?thesis using assms by (auto simp: list_consistent_def d nrm_msg_actuatorlist_destroy_def)
  qed (use assms in \<open>simp add: list_consistent_def\<close>)
qed

lemma frees_blocks:
  assumes "msg_consistent m" and "msg_type m \<noteq> NRM_MSG_TYPE_EVENTS"
  shows "\<exists>bs. msg_frees m = Inr bs \<and> mset bs = mset (msg_blocks m)"
proof (cases "msg_data m")
  case (DataList l)
  then show ?thesis using assms list_destroys [of l "[Field ''list'']"] by (auto simp: msg_consistent_def msg_frees_def msg_types union_reads msg_blocks_def)
next
  case (DataAdd a)
  then show ?thesis using assms add_destroys [of a "[Field ''add'']"] by (auto simp: msg_consistent_def msg_frees_def msg_types union_reads msg_blocks_def)
qed (use assms in \<open>auto simp: msg_consistent_def msg_frees_def msg_types union_reads msg_blocks_def uuid_destroys uuid_blocks_def\<close>)

lemma frees_events:
  "msg_frees \<lparr>msg_type = NRM_MSG_TYPE_EVENTS, msg_data = DataEvents es\<rparr> = Inr [[Field ''events'', Field ''series''], [Field ''events''], []]"
  by (simp add: msg_frees_def msg_types union_reads nrm_msg_timeserielist_destroy_def destroy_ptr_def)

lemma destroy_created_ok: "msg_consistent m \<Longrightarrow> nrm_msg_destroy_created (Some (Some m)) = Inr (Some None)"
proof (cases "msg_type m = NRM_MSG_TYPE_EVENTS")
  case True
  assume "msg_consistent m"
  with True obtain es where "m = \<lparr>msg_type = NRM_MSG_TYPE_EVENTS, msg_data = DataEvents es\<rparr>"
    by (cases m; cases "msg_data m") (auto simp: msg_consistent_def msg_types)
  then show ?thesis by (simp add: nrm_msg_destroy_created_def frees_events)
next
  case False
  assume "msg_consistent m"
  from frees_blocks [OF this False] show ?thesis by (auto simp: nrm_msg_destroy_created_def)
qed


section \<open>Properties\<close>

text \<open>
  What is sent is what is received: for a message that protobuf-c packs and unpacks to
  \<open>m'\<close>, the frames of \<open>nrm_msg_sendto\<close> give \<open>nrm_msg_recvfrom\<close> the message and
  the sender's identity, those of \<open>nrm_msg_send\<close> give \<open>nrm_msg_recv\<close> the message, and those
  of \<open>nrm_msg_pub\<close> give \<open>nrm_msg_sub\<close> the message and the topic, the last as long as the
  memory behind the topic frame starts with a zero byte.
\<close>

theorem nrm_msg_frames_roundtrip:
  assumes pb: "unpack (pack m) = Some m'" and nul: "char_of (0 :: nat) \<notin> set topic"
  shows "bindE (nrm_msg_sendto pack (Some m) (Some uuid)) (nrm_msg_recvfrom unpack) = Inr (Some m', uuid)
     \<and> bindE (nrm_msg_send pack (Some m)) (nrm_msg_recv unpack) = Inr (Some m')
     \<and> bindE (nrm_msg_pub pack topic (Some m)) (nrm_msg_sub unpack (char_of (0 :: nat) # rest)) = Inr (Some m', topic)"
proof -
  have "takeWhile (\<lambda>c. c \<noteq> char_of (0 :: nat)) (topic @ char_of (0 :: nat) # rest) = topic"
    using nul by (subst takeWhile_append2) auto
  then show ?thesis
    using pb
    by (simp add: nrm_msg_sendto_def nrm_msg_recvfrom_def nrm_msg_send_def nrm_msg_recv_def nrm_msg_pub_def
        nrm_msg_sub_def nrm_msg_push_identity_def nrm_msg_push_packed_frames_def nrm_msg_pop_identity_def
        nrm_msg_pop_packed_frames_def nrm_msg_push_topic_def nrm_msg_pop_topic_def zmsg_pop_def)
qed

theorem nrm_msg_frames_roundtrip_witness:
  "bindE (nrm_msg_sendto (\<lambda>_. ''packed'') (Some nrm_msg_create) (Some ''client''))
     (nrm_msg_recvfrom (\<lambda>_. Some nrm_msg_create)) = Inr (Some nrm_msg_create, ''client'')"
  using nrm_msg_frames_roundtrip [of "\<lambda>_. Some nrm_msg_create" "\<lambda>_. ''packed''" nrm_msg_create nrm_msg_create
      "[]" "''client''" "[]"] by simp

text \<open>
  C22. Objects survive the trip through a message: rebuilding a scope or an actuator of either kind
  from the message made of it gives the object back, with every cpu, node, gpu, choice, limit and value; the
  client id is the message's.
\<close>

theorem nrm_msg_objects_roundtrip:
  assumes s: "scope_wf s" and a: "actuator_wf a"
  shows "bindE (nrm_msg_scope_new (Some s)) (\<lambda>m. nrm_scope_create_frommsg (Some m)) = Inr (Some s)
     \<and> bindE (nrm_msg_actuator_new (Some a)) (\<lambda>m. nrm_actuator_create_frommsg (Some m)) = Inr (Some a)
     \<and> bindE (nrm_msg_actuator_new (Some a)) (\<lambda>m. nrm_actuator_create_frommsg (Some (m\<lparr>ma_clientid := Some c\<rparr>)))
         = Inr (Some (a\<lparr>act_clientid := Some c\<rparr>))"
  using nrm_msg_scope_new_ok [OF s] nrm_scope_create_frommsg_ok [OF s] actuator_msg_ok [OF a] by auto

theorem nrm_msg_objects_roundtrip_witness:
  "bindE (nrm_msg_actuator_new (Some (nrm_actuator_continuous_create ''a'')))
     (\<lambda>m. nrm_actuator_create_frommsg (Some m)) = Inr (Some (nrm_actuator_continuous_create ''a''))"
  using nrm_msg_objects_roundtrip [OF scope_wf_create actuator_wf_create(2) [of "''a''"]] by blast

text \<open>
  A message filled with a type and given data by the matching setter is destroyed without reading
  a wrong union member or NULL: lists of any objects, additions, removals, events and actions.
\<close>

theorem nrm_msg_destroy_created_safe:
  assumes m: "nrm_msg_fill (Some nrm_msg_create) t = (0, Some m)"
    and set: "(t = NRM_MSG_TYPE_ADD \<and> nrm_msg_set_add_actuator (Some m) (Some a) = Inr (0, Some m'))
      \<or> (t = NRM_MSG_TYPE_ADD \<and> nrm_msg_set_add_scope (Some m) (Some sc) = Inr (0, Some m'))
      \<or> (t = NRM_MSG_TYPE_LIST \<and> nrm_msg_set_list_actuators (Some m) as = Inr (0, Some m'))
      \<or> (t = NRM_MSG_TYPE_LIST \<and> nrm_msg_set_list_scopes (Some m) scs = Inr (0, Some m'))
      \<or> (t = NRM_MSG_TYPE_EVENTS \<and> nrm_msg_set_events (Some m) ts = Inr (0, Some m'))
      \<or> (t = NRM_MSG_TYPE_REMOVE \<and> nrm_msg_set_remove (Some m) k u = Inr (0, Some m'))
      \<or> (t = NRM_MSG_TYPE_ACTUATE \<and> nrm_msg_set_actuate (Some m) u v = Inr (0, Some m'))"
  shows "nrm_msg_destroy_created (Some (Some m')) = Inr (Some None)"
proof (rule destroy_created_ok)
  have "m = \<lparr>msg_type = t, msg_data = DataNone\<rparr>"
    using m by (auto simp: nrm_msg_fill_def nrm_msg_create_def split: if_splits)
  with set show "msg_consistent m'"
    by (elim disjE)
      (auto simp: msg_set_def bindE_eq_Inr msg_consistent_def msg_types add_consistent_def list_consistent_def
        msg_targets nrm_msg_set_add_actuator_def nrm_msg_set_add_scope_def nrm_msg_set_list_actuators_def
        nrm_msg_set_list_scopes_def nrm_msg_set_events_def nrm_msg_set_remove_def nrm_msg_set_actuate_def
        nrm_msg_add_new_def nrm_msg_list_new_def nrm_msg_actuatorlist_new_def
        dest: actuator_new_consistent actuatorlist_new_consistent split: option.splits)
qed

theorem nrm_msg_destroy_created_safe_witness:
  "\<exists>m m'. nrm_msg_fill (Some nrm_msg_create) NRM_MSG_TYPE_ACTUATE = (0, Some m)
     \<and> nrm_msg_set_actuate (Some m) ''a'' (DFin 1) = Inr (0, Some m')
     \<and> nrm_msg_destroy_created (Some (Some m')) = Inr (Some None)"
proof -
  obtain m where m: "nrm_msg_fill (Some nrm_msg_create) NRM_MSG_TYPE_ACTUATE = (0, Some m)"
    by (simp add: nrm_msg_fill_def msg_types)
  obtain m' where m': "nrm_msg_set_actuate (Some m) ''a'' (DFin 1) = Inr (0, Some m')"
    by (simp add: nrm_msg_set_actuate_def msg_set_def)
  from nrm_msg_destroy_created_safe [OF m] m' m show ?thesis by blast
qed

text \<open>
  C23. Destroying a message gives back its memory: a message whose data matches its tags is destroyed without a fault, and every
  block its constructors allocated is freed exactly once, whatever it is about and however long its lists are.  Messages with events are the exception:
  of those only the list itself is freed, and every time series in it, with its uuid, its scope and its events, is lost.
\<close>

theorem nrm_msg_destroy_gives_back:
  assumes "msg_consistent m"
  shows "nrm_msg_destroy_created (Some (Some m)) = Inr (Some None) \<and> distinct (msg_blocks m)
     \<and> (\<exists>bs. msg_frees m = Inr bs \<and> (case msg_data m of
          DataEvents es \<Rightarrow> mset (msg_blocks m) = mset bs
            + mset (concat (map (\<lambda>(i, x). timeserie_blocks [Field ''events'', Field ''series'', Index i] x) (enumerate 0 es)))
        | _ \<Rightarrow> mset (msg_blocks m) = mset bs))"
proof -
  have "\<exists>bs. msg_frees m = Inr bs \<and> (case msg_data m of
          DataEvents es \<Rightarrow> mset (msg_blocks m) = mset bs
            + mset (concat (map (\<lambda>(i, x). timeserie_blocks [Field ''events'', Field ''series'', Index i] x) (enumerate 0 es)))
        | _ \<Rightarrow> mset (msg_blocks m) = mset bs)"
  proof (cases "\<exists>es. msg_data m = DataEvents es")
    case True
    then obtain es where "m = \<lparr>msg_type = NRM_MSG_TYPE_EVENTS, msg_data = DataEvents es\<rparr>"
      using assms by (cases m) (auto simp: msg_consistent_def)
    then show ?thesis using frees_events [of es] by (simp add: msg_blocks_def array_blocks_def)
  next
    case False
    then have "msg_type m \<noteq> NRM_MSG_TYPE_EVENTS" using assms by (auto simp: msg_consistent_def msg_types split: msg_data.splits)
    from frees_blocks [OF assms this] False show ?thesis by (force split: msg_data.splits)
  qed
  then show ?thesis using destroy_created_ok [OF assms] tree_msg [of m] by blast
qed

theorem nrm_msg_destroy_gives_back_witness:
  "\<exists>bs. msg_frees \<lparr>msg_type = NRM_MSG_TYPE_LIST, msg_data = DataList \<lparr>list_type = NRM_MSG_TARGET_TYPE_SENSOR, list_data = ListSensors [\<lparr>msn_uuid = ''a''\<rparr>]\<rparr>\<rparr> = Inr bs
     \<and> length bs = 6"
proof -
  let ?m = "\<lparr>msg_type = NRM_MSG_TYPE_LIST, msg_data = DataList \<lparr>list_type = NRM_MSG_TARGET_TYPE_SENSOR, list_data = ListSensors [\<lparr>msn_uuid = ''a''\<rparr>]\<rparr>\<rparr>"
  have "msg_consistent ?m" by (simp add: msg_consistent_def list_consistent_def)
  from nrm_msg_destroy_gives_back [OF this] obtain bs where bs: "msg_frees ?m = Inr bs" "mset (msg_blocks ?m) = mset bs" by auto
  then have "length bs = length (msg_blocks ?m)" by (metis size_mset)
  then show ?thesis using bs(1) by (simp add: msg_blocks_def list_blocks_def array_blocks_def uuid_blocks_def)
qed

text \<open>
  Control messages carry their type: for the five types, what \<open>nrm_ctrlmsg__send\<close> puts on the
  pipe is read back by \<open>nrm_ctrlmsg__recv\<close> with the same type and pointers; a type outside is an
  assertion failure, except \<open>NRM_CTRLMSG_TYPE_MAX\<close> itself, which passes the range test and reads past
  the end of the table.
\<close>

theorem nrm_ctrlmsg_roundtrip:
  "(0 \<le> type \<and> type < NRM_CTRLMSG_TYPE_MAX \<longrightarrow>
      bindE (nrm_ctrlmsg_send type p q) (\<lambda>m. Inr (nrm_ctrlmsg_recv m)) = Inr (type, p, q))
   \<and> (type < 0 \<or> type > NRM_CTRLMSG_TYPE_MAX \<longrightarrow> nrm_ctrlmsg_send type p q = Inl AssertFail)
   \<and> nrm_ctrlmsg_send NRM_CTRLMSG_TYPE_MAX p q = Inl OutOfBounds"
proof -
  have "type \<in> {0, 1, 2, 3, 4}" if "0 \<le> type" "type < 5" using that by auto
  then show ?thesis
    by (auto simp: nrm_ctrlmsg_send_def nrm_ctrlmsg_t2s_def nrm_ctrlmsg_table_def ctrlmsg_types nrm_ctrlmsg_recv_def
        nrm_ctrlmsg_s2t_def)
qed

theorem nrm_ctrlmsg_roundtrip_witness:
  "bindE (nrm_ctrlmsg_send 1 PNull PNull) (\<lambda>m. Inr (nrm_ctrlmsg_recv m)) = Inr (1, PNull, PNull)"
  using nrm_ctrlmsg_roundtrip [of 1 PNull PNull] by (simp add: ctrlmsg_types)

end
