(* ===== verification/NRM_Server.thy ===== *)
theory NRM_Server
  imports NRM_State NRM_Message
begin

text \<open>
  The server (src/server.c): the daemon's side of the protocol.

  The record \<open>nrm_server\<close> holds the state, the messages handed to the role so far (the
  output trace, in order) and the state \<open>'u\<close> of the user who installed the callbacks.  The table
  of callbacks is passed beside it: a callback receives the whole server, as in C, and may call back
  into it.  \<open>event\<close> and \<open>actuate\<close> are called without a NULL test, the others are tested.
  \<open>raw\<close> is the memory \<open>nrm_hash_remove\<close> compares with the keys (NRM_Hash).  Log output is
  left out, allocations succeed.

  One turn of the reactor is \<open>server_handle\<close>: a message from a client, a signal or the timer.
  The reactor stops at the first handler that returns -1, as czmq documents for zloop.  The invariant
  \<open>server_wf\<close> is shown for every reachable server by rule induction over \<open>server_reach\<close>.
\<close>

datatype server_out = OSend nrm_msg "string option" | OPub string nrm_msg

record 'u nrm_server =
  srv_state :: nrm_state
  srv_out :: "server_out list"
  srv_user :: 'u

record 'u nrm_server_user_callbacks =
  cb_event :: "('u nrm_server \<Rightarrow> string \<Rightarrow> nrm_scope option \<Rightarrow> nrm_time \<Rightarrow> double \<Rightarrow> (int \<times> 'u nrm_server) exec) option"
  cb_actuate :: "('u nrm_server \<Rightarrow> nrm_actuator \<Rightarrow> double \<Rightarrow> (int \<times> 'u nrm_server) exec) option"
  cb_signal :: "('u nrm_server \<Rightarrow> int \<Rightarrow> (int \<times> 'u nrm_server) exec) option"
  cb_timer :: "('u nrm_server \<Rightarrow> (int \<times> 'u nrm_server) exec) option"
  cb_tick :: "('u nrm_server \<Rightarrow> (int \<times> 'u nrm_server) exec) option"

definition srv_send :: "nrm_msg option \<Rightarrow> string option \<Rightarrow> 'u nrm_server \<Rightarrow> 'u nrm_server exec" where
  "srv_send msg to s = bindE (derefE msg) (\<lambda>m. Inr (s\<lparr>srv_out := srv_out s @ [OSend m to]\<rparr>))"

definition srv_pub :: "string \<Rightarrow> nrm_msg option \<Rightarrow> 'u nrm_server \<Rightarrow> 'u nrm_server exec" where
  "srv_pub topic msg s = bindE (derefE msg) (\<lambda>m. Inr (s\<lparr>srv_out := srv_out s @ [OPub topic m]\<rparr>))"

definition send_ack :: "string option \<Rightarrow> 'u nrm_server \<Rightarrow> 'u nrm_server exec" where
  "send_ack to s = srv_send (filled NRM_MSG_TYPE_ACK) to s"


section \<open>Actuation\<close>

text \<open>
  Lines 45 to 54 and 421 to 430 of server.c, on the actuator \<open>uuid\<close> points at: correct the value,
  store it, and send the action to the client that owns the actuator.
\<close>

definition server_do_actuate :: "string \<Rightarrow> double \<Rightarrow> 'u nrm_server \<Rightarrow> 'u nrm_server exec" where
  "server_do_actuate uuid value s =
     (case map_of (st_actuators (srv_state s)) uuid of
        None \<Rightarrow> Inl UseAfterFree
      | Some a \<Rightarrow>
          bindE (nrm_actuator_corrected_value (Some a) (Some value)) (\<lambda>(_, v).
          bindE (derefE v) (\<lambda>value.
          bindE (nrm_actuator_set_value (Some a) value) (\<lambda>(_, a).
          let s = s\<lparr>srv_state := (srv_state s)\<lparr>st_actuators :=
                     alist_update uuid (\<lambda>_. a) (st_actuators (srv_state s))\<rparr>\<rparr> in
          bindE (nrm_msg_set_actuate (filled NRM_MSG_TYPE_ACTUATE) uuid value) (\<lambda>(_, action).
          bindE (nrm_actuator_clientid (Some a)) (\<lambda>cid.
          bindE (derefE cid) (\<lambda>cid.
          srv_send action (Some cid) s)))))))"

definition nrm_server_actuate_callback ::
  "'u nrm_server_user_callbacks \<Rightarrow> string option \<Rightarrow> nrm_msg_actuate option \<Rightarrow> 'u nrm_server \<Rightarrow> (int \<times> 'u nrm_server) exec" where
  "nrm_server_actuate_callback cb clientid msg s =
     bindE (derefE msg) (\<lambda>m.
       let uuid = actuate_uuid m in
       bindE (case snd (nrm_hash_find (st_actuators (srv_state s)) (Some uuid) True) of
                None \<Rightarrow> Inr s
              | Some a \<Rightarrow>
                  bindE (derefE (cb_actuate cb)) (\<lambda>actuate.
                  bindE (actuate s a (actuate_value m)) (\<lambda>(ret, s).
                  if ret = 0 then server_do_actuate uuid (actuate_value m) s else Inr s))) (\<lambda>s.
       bindE (send_ack clientid s) (\<lambda>s. Inr (0, s))))"

definition nrm_server_actuate :: "string option \<Rightarrow> double \<Rightarrow> 'u nrm_server \<Rightarrow> (int \<times> 'u nrm_server) exec" where
  "nrm_server_actuate uuid value s =
     (case snd (nrm_hash_find (st_actuators (srv_state s)) uuid True) of
        None \<Rightarrow> Inr (0, s)
      | Some _ \<Rightarrow> bindE (derefE uuid) (\<lambda>u. bindE (server_do_actuate u value s) (\<lambda>s. Inr (0, s))))"


section \<open>Events\<close>

definition server_event ::
  "'u nrm_server_user_callbacks \<Rightarrow> string \<Rightarrow> nrm_scope option \<Rightarrow> nrm_msg_event \<Rightarrow> 'u nrm_server \<Rightarrow> 'u nrm_server exec" where
  "server_event cb uuid scope e s =
     bindE (derefE (cb_event cb)) (\<lambda>event.
     bindE (event s uuid scope (nrm_time_fromns (me_time e)) (me_value e)) (\<lambda>(_, s). Inr s))"

definition server_timeserie ::
  "'u nrm_server_user_callbacks \<Rightarrow> nrm_msg_timeserie \<Rightarrow> 'u nrm_server \<Rightarrow> 'u nrm_server exec" where
  "server_timeserie cb ts s =
     bindE (nrm_scope_create_frommsg (mt_scope ts)) (\<lambda>scope.
     foldE (server_event cb (mt_sensor_uuid ts) scope) (mt_events ts) s)"

definition nrm_server_events_callback ::
  "'u nrm_server_user_callbacks \<Rightarrow> nrm_msg_timeserie list option \<Rightarrow> 'u nrm_server \<Rightarrow> (int \<times> 'u nrm_server) exec" where
  "nrm_server_events_callback cb msg s =
     bindE (derefE msg) (\<lambda>series. bindE (foldE (server_timeserie cb) series s) (\<lambda>s. Inr (0, s)))"


section \<open>Additions\<close>

text \<open>Each returns the reply; the error branch after the addition is dead, since it never fails.\<close>

definition nrm_server_add_actuator ::
  "string option \<Rightarrow> nrm_msg_actuator option \<Rightarrow> 'u nrm_server \<Rightarrow> (nrm_msg option \<times> 'u nrm_server) exec" where
  "nrm_server_add_actuator clientid msg s =
     bindE (nrm_actuator_create_frommsg msg) (\<lambda>actuator.
     bindE (nrm_actuator_set_clientid actuator clientid) (\<lambda>(_, actuator).
     bindE (nrm_state_add_actuator (srv_state s) (Some actuator)) (\<lambda>(err, st).
     let s = s\<lparr>srv_state := st\<rparr> in
     if err \<noteq> 0 then Inr (filled NRM_MSG_TYPE_ACK, s)
     else bindE (nrm_msg_set_add_actuator (filled NRM_MSG_TYPE_ADD) (Some actuator)) (\<lambda>(_, ret). Inr (ret, s)))))"

definition nrm_server_add_scope ::
  "nrm_msg_scope option \<Rightarrow> 'u nrm_server \<Rightarrow> (nrm_msg option \<times> 'u nrm_server) exec" where
  "nrm_server_add_scope msg s =
     bindE (nrm_scope_create_frommsg msg) (\<lambda>r.
     bindE (nrm_state_add_scope (srv_state s) r) (\<lambda>(err, st).
     let s = s\<lparr>srv_state := st\<rparr> in
     if err \<noteq> 0 then Inr (filled NRM_MSG_TYPE_ACK, s)
     else bindE (nrm_msg_set_add_scope (filled NRM_MSG_TYPE_ADD) r) (\<lambda>(_, ret). Inr (ret, s))))"

definition nrm_server_add_sensor ::
  "nrm_msg_sensor option \<Rightarrow> 'u nrm_server \<Rightarrow> (nrm_msg option \<times> 'u nrm_server) exec" where
  "nrm_server_add_sensor msg s =
     (let r = nrm_sensor_create_frommsg msg in
      bindE (nrm_state_add_sensor (srv_state s) r) (\<lambda>(err, st).
      let s = s\<lparr>srv_state := st\<rparr> in
      if err \<noteq> 0 then Inr (filled NRM_MSG_TYPE_ACK, s)
      else bindE (nrm_msg_set_add_sensor (filled NRM_MSG_TYPE_ADD) r) (\<lambda>(_, ret). Inr (ret, s))))"

definition nrm_server_add_slice ::
  "nrm_msg_slice option \<Rightarrow> 'u nrm_server \<Rightarrow> (nrm_msg option \<times> 'u nrm_server) exec" where
  "nrm_server_add_slice msg s =
     (let r = nrm_slice_create_frommsg msg in
      bindE (nrm_state_add_slice (srv_state s) r) (\<lambda>(err, st).
      let s = s\<lparr>srv_state := st\<rparr> in
      if err \<noteq> 0 then Inr (filled NRM_MSG_TYPE_ACK, s)
      else bindE (nrm_msg_set_add_slice (filled NRM_MSG_TYPE_ADD) r) (\<lambda>(_, ret). Inr (ret, s))))"

text \<open>The end of the three request handlers: no reply means a wrong target type.\<close>

definition server_reply ::
  "string option \<Rightarrow> nrm_msg option \<times> 'u nrm_server \<Rightarrow> (int \<times> 'u nrm_server) exec" where
  "server_reply clientid = (\<lambda>(ret, s).
     if ret = None then Inr (-1, s) else bindE (srv_send ret clientid s) (\<lambda>s. Inr (0, s)))"

definition nrm_server_add_callback ::
  "string option \<Rightarrow> nrm_msg_add option \<Rightarrow> 'u nrm_server \<Rightarrow> (int \<times> 'u nrm_server) exec" where
  "nrm_server_add_callback clientid msg s =
     bindE (derefE msg) (\<lambda>m.
     bindE (if add_type m = NRM_MSG_TARGET_TYPE_ACTUATOR
            then bindE (add_actuator m) (\<lambda>x. nrm_server_add_actuator clientid x s)
            else if add_type m = NRM_MSG_TARGET_TYPE_SLICE
            then bindE (add_slice m) (\<lambda>x. nrm_server_add_slice x s)
            else if add_type m = NRM_MSG_TARGET_TYPE_SENSOR
            then bindE (add_sensor m) (\<lambda>x. nrm_server_add_sensor x s)
            else if add_type m = NRM_MSG_TARGET_TYPE_SCOPE
            then bindE (add_scope m) (\<lambda>x. nrm_server_add_scope x s)
            else Inr (None, s)) (server_reply clientid))"


section \<open>Lists\<close>

definition nrm_server_list_actuators :: "'u nrm_server \<Rightarrow> nrm_msg option exec" where
  "nrm_server_list_actuators s =
     bindE (nrm_state_list_actuators (srv_state s) []) (\<lambda>(err, vec).
     if err \<noteq> 0 then Inr (filled NRM_MSG_TYPE_ACK)
     else bindE (nrm_msg_set_list_actuators (filled NRM_MSG_TYPE_LIST) (Some vec)) (\<lambda>(_, ret). Inr ret))"

definition nrm_server_list_scopes :: "'u nrm_server \<Rightarrow> nrm_msg option exec" where
  "nrm_server_list_scopes s =
     bindE (nrm_state_list_scopes (srv_state s) []) (\<lambda>(err, vec).
     if err \<noteq> 0 then Inr (filled NRM_MSG_TYPE_ACK)
     else bindE (nrm_msg_set_list_scopes (filled NRM_MSG_TYPE_LIST) (Some vec)) (\<lambda>(_, ret). Inr ret))"

definition nrm_server_list_sensors :: "'u nrm_server \<Rightarrow> nrm_msg option exec" where
  "nrm_server_list_sensors s =
     bindE (nrm_state_list_sensors (srv_state s) []) (\<lambda>(err, vec).
     if err \<noteq> 0 then Inr (filled NRM_MSG_TYPE_ACK)
     else bindE (nrm_msg_set_list_sensors (filled NRM_MSG_TYPE_LIST) (Some vec)) (\<lambda>(_, ret). Inr ret))"

definition nrm_server_list_slices :: "'u nrm_server \<Rightarrow> nrm_msg option exec" where
  "nrm_server_list_slices s =
     bindE (nrm_state_list_slices (srv_state s) []) (\<lambda>(err, vec).
     if err \<noteq> 0 then Inr (filled NRM_MSG_TYPE_ACK)
     else bindE (nrm_msg_set_list_slices (filled NRM_MSG_TYPE_LIST) (Some vec)) (\<lambda>(_, ret). Inr ret))"

definition nrm_server_list_callback ::
  "string option \<Rightarrow> nrm_msg_list option \<Rightarrow> 'u nrm_server \<Rightarrow> (int \<times> 'u nrm_server) exec" where
  "nrm_server_list_callback clientid msg s =
     bindE (derefE msg) (\<lambda>m.
     bindE (if list_type m = NRM_MSG_TARGET_TYPE_ACTUATOR then nrm_server_list_actuators s
            else if list_type m = NRM_MSG_TARGET_TYPE_SLICE then nrm_server_list_slices s
            else if list_type m = NRM_MSG_TARGET_TYPE_SENSOR then nrm_server_list_sensors s
            else if list_type m = NRM_MSG_TARGET_TYPE_SCOPE then nrm_server_list_scopes s
            else Inr None) (\<lambda>ret. server_reply clientid (ret, s)))"


section \<open>Removals\<close>

text \<open>The four instances of \<open>NRM_SERVER_REMOVE_FUNC\<close>.\<close>

definition server_remove ::
  "(string \<Rightarrow> nrm_state \<Rightarrow> string \<Rightarrow> (int \<times> nrm_state) exec) \<Rightarrow> string \<Rightarrow> string \<Rightarrow> 'u nrm_server \<Rightarrow>
   (nrm_msg option \<times> 'u nrm_server) exec" where
  "server_remove f raw uuid s =
     bindE (f raw (srv_state s) uuid) (\<lambda>(_, st). Inr (filled NRM_MSG_TYPE_ACK, s\<lparr>srv_state := st\<rparr>))"

definition nrm_server_remove_callback ::
  "string \<Rightarrow> string option \<Rightarrow> nrm_msg_remove option \<Rightarrow> 'u nrm_server \<Rightarrow> (int \<times> 'u nrm_server) exec" where
  "nrm_server_remove_callback raw clientid msg s =
     bindE (derefE msg) (\<lambda>m.
     bindE (if remove_type m = NRM_MSG_TARGET_TYPE_ACTUATOR
            then server_remove nrm_state_remove_actuator raw (remove_uuid m) s
            else if remove_type m = NRM_MSG_TARGET_TYPE_SLICE
            then server_remove nrm_state_remove_slice raw (remove_uuid m) s
            else if remove_type m = NRM_MSG_TARGET_TYPE_SENSOR
            then server_remove nrm_state_remove_sensor raw (remove_uuid m) s
            else if remove_type m = NRM_MSG_TARGET_TYPE_SCOPE
            then server_remove nrm_state_remove_scope raw (remove_uuid m) s
            else Inr (None, s)) (server_reply clientid))"


section \<open>Exit, tick, dispatch\<close>

definition nrm_server_exit_callback :: "string option \<Rightarrow> 'u nrm_server \<Rightarrow> (int \<times> 'u nrm_server) exec" where
  "nrm_server_exit_callback uuid s = bindE (send_ack uuid s) (\<lambda>s. Inr (-1, s))"

definition nrm_server_tick_callback ::
  "'u nrm_server_user_callbacks \<Rightarrow> string option \<Rightarrow> 'u nrm_server \<Rightarrow> (int \<times> 'u nrm_server) exec" where
  "nrm_server_tick_callback cb uuid s =
     bindE (case cb_tick cb of None \<Rightarrow> Inr (0, s) | Some tick \<Rightarrow> tick s) (\<lambda>(err, s).
     bindE (send_ack uuid s) (\<lambda>s. Inr (err, s)))"

definition nrm_server_role_callback ::
  "'u nrm_server_user_callbacks \<Rightarrow> string \<Rightarrow> nrm_msg option \<Rightarrow> string option \<Rightarrow> 'u nrm_server \<Rightarrow>
   (int \<times> 'u nrm_server) exec" where
  "nrm_server_role_callback cb raw msg uuid s =
     bindE (derefE msg) (\<lambda>m.
     if msg_type m = NRM_MSG_TYPE_ACTUATE then bindE (msg_actuate m) (\<lambda>x. nrm_server_actuate_callback cb uuid x s)
     else if msg_type m = NRM_MSG_TYPE_LIST then bindE (msg_list m) (\<lambda>x. nrm_server_list_callback uuid x s)
     else if msg_type m = NRM_MSG_TYPE_ADD then bindE (msg_add m) (\<lambda>x. nrm_server_add_callback uuid x s)
     else if msg_type m = NRM_MSG_TYPE_EVENTS then bindE (msg_events m) (\<lambda>x. nrm_server_events_callback cb x s)
     else if msg_type m = NRM_MSG_TYPE_REMOVE then bindE (msg_remove m) (\<lambda>x. nrm_server_remove_callback raw uuid x s)
     else if msg_type m = NRM_MSG_TYPE_EXIT then nrm_server_exit_callback uuid s
     else if msg_type m = NRM_MSG_TYPE_TICK then nrm_server_tick_callback cb uuid s
     else Inr (- NRM_EINVAL, s))"

definition nrm_server_signal_callback ::
  "'u nrm_server_user_callbacks \<Rightarrow> int \<Rightarrow> 'u nrm_server \<Rightarrow> (int \<times> 'u nrm_server) exec" where
  "nrm_server_signal_callback cb signalid s =
     (case cb_signal cb of None \<Rightarrow> Inr (-1, s) | Some f \<Rightarrow> f s signalid)"

definition nrm_server_timer_callback ::
  "'u nrm_server_user_callbacks \<Rightarrow> 'u nrm_server \<Rightarrow> (int \<times> 'u nrm_server) exec" where
  "nrm_server_timer_callback cb s = (case cb_timer cb of None \<Rightarrow> Inr (0, s) | Some f \<Rightarrow> f s)"

text \<open>\<open>role\<close> is what \<open>nrm_role_controller_create_fromparams\<close> returned, as a truth value.\<close>

definition nrm_server_create ::
  "bool \<Rightarrow> bool \<Rightarrow> bool \<Rightarrow> nrm_state option \<Rightarrow> string option \<Rightarrow> 'u \<Rightarrow> int \<times> 'u nrm_server option" where
  "nrm_server_create calloc_ok role server_nonnull state uri user =
     (case (state, uri) of
        (Some st, Some _) \<Rightarrow>
          if \<not> server_nonnull then (- NRM_EINVAL, None)
          else if \<not> calloc_ok then (- NRM_ENOMEM, None)
          else if \<not> role then (- NRM_EINVAL, None)
          else (0, Some \<lparr>srv_state = st, srv_out = [], srv_user = user\<rparr>)
      | _ \<Rightarrow> (- NRM_EINVAL, None))"

definition nrm_server_setcallbacks ::
  "'u nrm_server option \<Rightarrow> 'u nrm_server_user_callbacks \<Rightarrow> int \<times> 'u nrm_server_user_callbacks option" where
  "nrm_server_setcallbacks server callbacks =
     (case server of None \<Rightarrow> (- NRM_EINVAL, None) | Some _ \<Rightarrow> (0, Some callbacks))"

text \<open>The period handed to \<open>zloop_timer\<close>, an int of milliseconds.\<close>

definition nrm_server_settimer :: "'u nrm_server option \<Rightarrow> nrm_time \<Rightarrow> int \<times> int option" where
  "nrm_server_settimer server sleeptime =
     (case server of
        None \<Rightarrow> (- NRM_EINVAL, None)
      | Some _ \<Rightarrow> (0, Some (s32 (s64 (s64 (tv_sec sleeptime * 1000) + tv_nsec sleeptime sdiv 1000000)))))"

definition nrm_server_publish ::
  "string option \<Rightarrow> nrm_time \<Rightarrow> string option \<Rightarrow> nrm_scope option \<Rightarrow> double \<Rightarrow> 'u nrm_server option \<Rightarrow>
   (int \<times> 'u nrm_server option) exec" where
  "nrm_server_publish topic now uuid scope value server =
     (case (server, topic, uuid, scope) of
        (Some s, Some t, Some u, Some sc) \<Rightarrow>
          bindE (derefE (snd (nrm_timeserie_create True True uuid scope))) (\<lambda>ts.
          bindE (derefE (snd (nrm_timeserie_add_event (Some ts) now value))) (\<lambda>ts.
          bindE (nrm_msg_set_events (filled NRM_MSG_TYPE_EVENTS) (Some [ts])) (\<lambda>(_, msg).
          bindE (srv_pub t msg s) (\<lambda>s. Inr (0, Some s)))))
      | _ \<Rightarrow> Inr (- NRM_EINVAL, server))"

text \<open>The reactor: the events it sees, in order; a handler that returns -1 stops it.\<close>

datatype server_in = IMsg "nrm_msg option" "string option" | ISignal int | ITimer

definition server_handle ::
  "'u nrm_server_user_callbacks \<Rightarrow> string \<Rightarrow> server_in \<Rightarrow> 'u nrm_server \<Rightarrow> (int \<times> 'u nrm_server) exec" where
  "server_handle cb raw i s =
     (case i of
        IMsg msg uuid \<Rightarrow> nrm_server_role_callback cb raw msg uuid s
      | ISignal n \<Rightarrow> nrm_server_signal_callback cb n s
      | ITimer \<Rightarrow> nrm_server_timer_callback cb s)"

fun nrm_server_start ::
  "'u nrm_server_user_callbacks \<Rightarrow> string \<Rightarrow> server_in list \<Rightarrow> 'u nrm_server \<Rightarrow> 'u nrm_server exec" where
  "nrm_server_start cb raw [] s = Inr s"
| "nrm_server_start cb raw (i # is) s =
     bindE (server_handle cb raw i s) (\<lambda>(rc, s). if rc = -1 then Inr s else nrm_server_start cb raw is s)"

definition nrm_server_destroy :: "'u nrm_server option option \<Rightarrow> 'u nrm_server option option" where
  "nrm_server_destroy server =
     (case server of None \<Rightarrow> None | Some None \<Rightarrow> Some None | Some (Some _) \<Rightarrow> Some None)"

inductive server_reach ::
  "'u nrm_server_user_callbacks \<Rightarrow> string \<Rightarrow> 'u nrm_server \<Rightarrow> 'u nrm_server \<Rightarrow> bool"
  for cb raw s0 where
  start: "server_reach cb raw s0 s0"
| turn: "server_reach cb raw s0 s \<Longrightarrow> server_handle cb raw i s = Inr (rc, s') \<Longrightarrow> server_reach cb raw s0 s'"

inductive_cases server_reachE: "server_reach cb raw s0 s"


section \<open>The invariant of the server\<close>

definition server_wf :: "'u nrm_server \<Rightarrow> bool" where
  "server_wf s \<longleftrightarrow> state_wf (srv_state s)"

definition callbacks_ok :: "'u nrm_server_user_callbacks \<Rightarrow> bool" where
  "callbacks_ok cb \<longleftrightarrow>
     (\<forall>f s u sc t v r s'. cb_event cb = Some f \<longrightarrow> server_wf s \<longrightarrow> f s u sc t v = Inr (r, s') \<longrightarrow> server_wf s')
   \<and> (\<forall>f s a v r s'. cb_actuate cb = Some f \<longrightarrow> server_wf s \<longrightarrow> f s a v = Inr (r, s') \<longrightarrow> server_wf s')
   \<and> (\<forall>f s n r s'. cb_signal cb = Some f \<longrightarrow> server_wf s \<longrightarrow> f s n = Inr (r, s') \<longrightarrow> server_wf s')
   \<and> (\<forall>f s r s'. cb_timer cb = Some f \<longrightarrow> server_wf s \<longrightarrow> f s = Inr (r, s') \<longrightarrow> server_wf s')
   \<and> (\<forall>f s r s'. cb_tick cb = Some f \<longrightarrow> server_wf s \<longrightarrow> f s = Inr (r, s') \<longrightarrow> server_wf s')"

lemmas callbacks_okD = callbacks_ok_def [THEN iffD1]
lemmas callbacks_ok_event = callbacks_okD [THEN conjunct1, rule_format]
lemmas callbacks_ok_actuate = callbacks_okD [THEN conjunct2, THEN conjunct1, rule_format]
lemmas callbacks_ok_signal = callbacks_okD [THEN conjunct2, THEN conjunct2, THEN conjunct1, rule_format]
lemmas callbacks_ok_timer = callbacks_okD [THEN conjunct2, THEN conjunct2, THEN conjunct2, THEN conjunct1, rule_format]
lemmas callbacks_ok_tick = callbacks_okD [THEN conjunct2, THEN conjunct2, THEN conjunct2, THEN conjunct2, rule_format]

lemma srv_send_Some [simp]: "srv_send (Some m) to s = Inr (s\<lparr>srv_out := srv_out s @ [OSend m to]\<rparr>)"
  by (simp add: srv_send_def)

lemma send_ack_eq [simp]:
  "send_ack to s = Inr (s\<lparr>srv_out := srv_out s @ [OSend \<lparr>msg_type = NRM_MSG_TYPE_ACK, msg_data = DataNone\<rparr> to]\<rparr>)"
  by (simp add: send_ack_def)

lemma server_wf_out [simp]: "server_wf (s\<lparr>srv_out := out\<rparr>) \<longleftrightarrow> server_wf s"
  by (simp add: server_wf_def)

lemma srv_send_wf: "srv_send m to s = Inr s' \<Longrightarrow> server_wf s' \<longleftrightarrow> server_wf s"
  by (auto simp: srv_send_def bindE_eq_Inr)

lemma actuator_corrected_returns:
  assumes "actuator_shape a"
  shows "\<exists>c w. nrm_actuator_corrected_value (Some a) (Some v) = Inr (c, Some w)"
  using assms
  by (auto simp: actuator_shape_def nrm_actuator_corrected_value_def nrm_actuator_discrete_corrected_value_def
      nrm_actuator_continuous_corrected_value_def actuator_choices_def actuator_limits_def Let_def)

text \<open>What an actuation does, when the actuator is there and belongs to a client.\<close>

lemma do_actuate_eq:
  assumes a: "map_of (st_actuators (srv_state s)) uuid = Some a" and cid: "act_clientid a = Some c"
    and w: "nrm_actuator_corrected_value (Some a) (Some v) = Inr (rc, Some w)"
  shows "server_do_actuate uuid v s = Inr (s\<lparr>srv_state := (srv_state s)\<lparr>st_actuators :=
      alist_update uuid (\<lambda>_. a\<lparr>act_value := w\<rparr>) (st_actuators (srv_state s))\<rparr>,
      srv_out := srv_out s @ [OSend \<lparr>msg_type = NRM_MSG_TYPE_ACTUATE,
        msg_data = DataActuate \<lparr>actuate_uuid = uuid, actuate_value = w\<rparr>\<rparr> (Some c)]\<rparr>)"
  using a cid w
  by (simp add: server_do_actuate_def nrm_actuator_set_value_def nrm_msg_set_actuate_def msg_set_def
      nrm_msg_actuate_new_def nrm_actuator_clientid_def Let_def)

lemma do_actuate_wf:
  assumes wf: "server_wf s" and r: "server_do_actuate uuid v s = Inr s'"
  shows "server_wf s'"
proof -
  obtain a where a: "map_of (st_actuators (srv_state s)) uuid = Some a"
    using r by (auto simp: server_do_actuate_def split: option.splits)
  have tab: "table_wf act_uuid actuator_shape (st_actuators (srv_state s))"
    using wf by (simp add: server_wf_def state_wf_def)
  have shape: "actuator_shape a" "act_uuid a = uuid" using table_wf_lookup [OF tab a] by auto
  obtain c w where w: "nrm_actuator_corrected_value (Some a) (Some v) = Inr (c, Some w)"
    using actuator_corrected_returns [OF shape(1)] by blast
  obtain cid where cid: "act_clientid a = Some cid"
    using r a w by (auto simp: server_do_actuate_def nrm_actuator_set_value_def nrm_msg_set_actuate_def msg_set_def
        nrm_actuator_clientid_def Let_def bindE_eq_Inr)
  have "table_wf act_uuid actuator_shape (alist_update uuid (\<lambda>_. a\<lparr>act_value := w\<rparr>) (st_actuators (srv_state s)))"
    by (rule table_wf_update [OF tab]) (use shape actuator_shape_update in auto)
  then show ?thesis
    using wf r do_actuate_eq [OF a cid w] by (auto simp: server_wf_def state_wf_def)
qed

lemma actuate_callback_wf:
  assumes "callbacks_ok cb" and "server_wf s" and "nrm_server_actuate_callback cb cid m s = Inr (r, s')"
  shows "server_wf s'"
proof -
  obtain x where x: "m = Some x" using assms(3) by (cases m) (auto simp: nrm_server_actuate_callback_def)
  note r = assms(3) [unfolded x nrm_server_actuate_callback_def Let_def]
  show ?thesis
  proof (cases "snd (nrm_hash_find (st_actuators (srv_state s)) (Some (actuate_uuid x)) True)")
    case None
    with r assms(2) show ?thesis by auto
  next
    case (Some a)
    with r obtain ac ret t where ac: "cb_actuate cb = Some ac" "ac s a (actuate_value x) = Inr (ret, t)"
      by (auto simp: bindE_eq_Inr)
    have t: "server_wf t" by (rule callbacks_ok_actuate [OF assms(1) ac(1) assms(2) ac(2)])
    show ?thesis
      using r Some ac t do_actuate_wf [OF t, of "actuate_uuid x" "actuate_value x"]
      by (cases "ret = 0") (auto simp: bindE_eq_Inr)
  qed
qed

lemma events_callback_wf:
  assumes cb: "callbacks_ok cb" and wf: "server_wf s" and r: "nrm_server_events_callback cb m s = Inr (rc, s')"
  shows "server_wf s'"
proof -
  have ev: "server_wf t" if "server_wf s" "server_event cb u sc e s = Inr t" for u sc e and s t :: "'a nrm_server"
    using that callbacks_ok_event [OF cb] by (auto simp: server_event_def bindE_eq_Inr)
  have "server_wf t" if "server_wf s" "server_timeserie cb ts s = Inr t" for ts and s t :: "'a nrm_server"
    using that by (auto simp: server_timeserie_def bindE_eq_Inr intro: foldE_invariant [where P = server_wf] ev)
  then show ?thesis
    using r wf by (auto simp: nrm_server_events_callback_def bindE_eq_Inr intro: foldE_invariant [where P = server_wf])
qed

lemma server_reply_wf: "server_reply cid (m, s) = Inr (r, s') \<Longrightarrow> server_wf s \<Longrightarrow> server_wf s'"
  by (auto simp: server_reply_def bindE_eq_Inr srv_send_wf split: if_splits)

lemma list_callback_wf: "nrm_server_list_callback cid m s = Inr (r, s') \<Longrightarrow> server_wf s \<Longrightarrow> server_wf s'"
  by (auto simp: nrm_server_list_callback_def bindE_eq_Inr dest: server_reply_wf)

lemma server_add_wf:
  assumes wf: "server_wf s"
  shows "nrm_server_add_actuator cid a s = Inr (m, s') \<Longrightarrow> server_wf s'"
    and "nrm_server_add_scope c s = Inr (m, s') \<Longrightarrow> server_wf s'"
    and "nrm_server_add_sensor n s = Inr (m, s') \<Longrightarrow> server_wf s'"
    and "nrm_server_add_slice l s = Inr (m, s') \<Longrightarrow> server_wf s'"
proof -
  have st: "state_wf (srv_state s)" using wf by (simp add: server_wf_def)
  show "server_wf s'" if r: "nrm_server_add_actuator cid a s = Inr (m, s')"
  proof -
    obtain b where b: "nrm_actuator_create_frommsg a = Inr (Some b)"
      and s': "s' = s\<lparr>srv_state := (srv_state s)\<lparr>st_actuators :=
        snd (nrm_hash_add True (st_actuators (srv_state s)) (act_uuid b) (b\<lparr>act_clientid := cid\<rparr>))\<rparr>\<rparr>"
      using r by (auto simp: nrm_server_add_actuator_def nrm_actuator_set_clientid_def nrm_state_add_actuator_def
          nrm_actuator_uuid_def Let_def bindE_eq_Inr split: option.splits)
    have "actuator_shape b" using b create_frommsg_shape by (cases a) (auto simp: nrm_actuator_create_frommsg_def)
    then have "table_wf act_uuid actuator_shape (snd (nrm_hash_add True (st_actuators (srv_state s))
        (act_uuid (b\<lparr>act_clientid := cid\<rparr>)) (b\<lparr>act_clientid := cid\<rparr>)))"
      using st by (intro table_wf_add) (auto simp: state_wf_def actuator_shape_update)
    then show ?thesis using st s' by (simp add: server_wf_def state_wf_def)
  qed
  show "server_wf s'" if r: "nrm_server_add_scope c s = Inr (m, s')"
  proof (cases c)
    case None
    with r show ?thesis by (simp add: nrm_server_add_scope_def nrm_scope_create_frommsg_def nrm_state_add_scope_def)
  next
    case (Some x)
    then obtain sc where sc: "nrm_scope_create_frommsg c = Inr (Some sc)" "scope_wf sc"
      using nrm_scope_create_frommsg_wf [of x] by blast
    with r have "s' = s\<lparr>srv_state := (srv_state s)\<lparr>st_scopes :=
        snd (nrm_hash_add True (st_scopes (srv_state s)) (scope_uuid sc) sc)\<rparr>\<rparr>"
      by (auto simp: nrm_server_add_scope_def nrm_state_add_scope_def Let_def bindE_eq_Inr)
    with sc st show ?thesis by (simp add: server_wf_def state_wf_def table_wf_add)
  qed
  show "server_wf s'" if r: "nrm_server_add_sensor n s = Inr (m, s')"
    using r st
    by (auto simp: nrm_server_add_sensor_def nrm_state_add_sensor_def Let_def bindE_eq_Inr server_wf_def state_wf_def
        table_wf_add)
  show "server_wf s'" if r: "nrm_server_add_slice l s = Inr (m, s')"
    using r st
    by (auto simp: nrm_server_add_slice_def nrm_state_add_slice_def Let_def bindE_eq_Inr server_wf_def state_wf_def
        table_wf_add)
qed

lemma add_callback_wf: "nrm_server_add_callback cid m s = Inr (r, s') \<Longrightarrow> server_wf s \<Longrightarrow> server_wf s'"
  by (auto simp: nrm_server_add_callback_def bindE_eq_Inr dest!: server_reply_wf
      intro: server_add_wf split: if_splits)


lemma remove_callback_wf: "nrm_server_remove_callback raw cid m s = Inr (r, s') \<Longrightarrow> server_wf s \<Longrightarrow> server_wf s'"
proof -
  assume r: "nrm_server_remove_callback raw cid m s = Inr (r, s')" and wf: "server_wf s"
  have keep: "x = (0, srv_state s)"
    if "nrm_state_remove_actuator raw (srv_state s) u = Inr x \<or> nrm_state_remove_sensor raw (srv_state s) u = Inr x
      \<or> nrm_state_remove_slice raw (srv_state s) u = Inr x \<or> nrm_state_remove_scope raw (srv_state s) u = Inr x" for u x
    using that remove_unchanged by blast
  have srv: "server_wf t" if "server_remove f raw u s = Inr (p, t)"
    and "f \<in> {nrm_state_remove_actuator, nrm_state_remove_sensor, nrm_state_remove_slice, nrm_state_remove_scope}" for f u p t
    using that keep wf by (fastforce simp: server_remove_def bindE_eq_Inr server_wf_def)
  from r show ?thesis
    by (auto simp: nrm_server_remove_callback_def bindE_eq_Inr dest!: server_reply_wf intro: srv wf split: if_splits)
qed

lemma role_callback_wf:
  assumes cb: "callbacks_ok cb" and wf: "server_wf s" and r: "nrm_server_role_callback cb raw m u s = Inr (rc, s')"
  shows "server_wf s'"
proof -
  have tick: "server_wf t" if "nrm_server_tick_callback cb u s = Inr (rc, t)" for t
    using that wf callbacks_ok_tick [OF cb _ wf] by (auto simp: nrm_server_tick_callback_def bindE_eq_Inr split: option.splits)
  have exit: "server_wf t" if "nrm_server_exit_callback u s = Inr (rc, t)" for t
    using that wf by (auto simp: nrm_server_exit_callback_def)
  from r obtain x where x: "m = Some x" by (cases m) (auto simp: nrm_server_role_callback_def)
  from r wf show ?thesis
    unfolding nrm_server_role_callback_def x
    by (auto simp: bindE_eq_Inr intro: actuate_callback_wf [OF cb wf] list_callback_wf add_callback_wf
        events_callback_wf [OF cb wf] remove_callback_wf tick exit split: if_splits)
qed

lemma server_handle_wf:
  assumes "callbacks_ok cb" and "server_wf s" and "server_handle cb raw i s = Inr (rc, s')"
  shows "server_wf s'"
proof (cases i)
  case (IMsg m u)
  then show ?thesis using assms role_callback_wf by (auto simp: server_handle_def)
next
  case (ISignal n)
  then show ?thesis
    using assms callbacks_ok_signal [OF assms(1) _ assms(2)]
    by (auto simp: server_handle_def nrm_server_signal_callback_def split: option.splits)
next
  case ITimer
  then show ?thesis
    using assms callbacks_ok_timer [OF assms(1) _ assms(2)]
    by (auto simp: server_handle_def nrm_server_timer_callback_def split: option.splits)
qed

lemma server_start_reach:
  "nrm_server_start cb raw is s = Inr s' \<Longrightarrow> server_reach cb raw s0 s \<Longrightarrow> server_reach cb raw s0 s'"
  by (induction "is" arbitrary: s) (auto simp: bindE_eq_Inr intro: server_reach.turn split: if_splits)


definition all_callbacks ::
  "('u nrm_server \<Rightarrow> string \<Rightarrow> nrm_scope option \<Rightarrow> nrm_time \<Rightarrow> double \<Rightarrow> (int \<times> 'u nrm_server) exec) \<Rightarrow>
   ('u nrm_server \<Rightarrow> nrm_actuator \<Rightarrow> double \<Rightarrow> (int \<times> 'u nrm_server) exec) \<Rightarrow>
   ('u nrm_server \<Rightarrow> int \<Rightarrow> (int \<times> 'u nrm_server) exec) option \<Rightarrow> ('u nrm_server \<Rightarrow> (int \<times> 'u nrm_server) exec) \<Rightarrow>
   ('u nrm_server \<Rightarrow> (int \<times> 'u nrm_server) exec) \<Rightarrow> 'u nrm_server_user_callbacks" where
  "all_callbacks event actuate signal timer tick =
     \<lparr>cb_event = Some event, cb_actuate = Some actuate, cb_signal = signal, cb_timer = Some timer, cb_tick = Some tick\<rparr>"

text \<open>
  The contract between the server and whoever installs the callbacks, of which the one for signals may be
  missing: each keeps the invariant of the server it is given.  Then so does every turn of the reactor.
\<close>

locale server_user =
  fixes event :: "'u nrm_server \<Rightarrow> string \<Rightarrow> nrm_scope option \<Rightarrow> nrm_time \<Rightarrow> double \<Rightarrow> (int \<times> 'u nrm_server) exec"
    and actuate :: "'u nrm_server \<Rightarrow> nrm_actuator \<Rightarrow> double \<Rightarrow> (int \<times> 'u nrm_server) exec"
    and signal :: "('u nrm_server \<Rightarrow> int \<Rightarrow> (int \<times> 'u nrm_server) exec) option"
    and timer :: "'u nrm_server \<Rightarrow> (int \<times> 'u nrm_server) exec"
    and tick :: "'u nrm_server \<Rightarrow> (int \<times> 'u nrm_server) exec"
  assumes event_wf: "server_wf s \<Longrightarrow> event s u sc t v = Inr (r, s') \<Longrightarrow> server_wf s'"
    and actuate_wf: "server_wf s \<Longrightarrow> actuate s a v = Inr (r, s') \<Longrightarrow> server_wf s'"
    and signal_wf: "signal = Some f \<Longrightarrow> server_wf s \<Longrightarrow> f s n = Inr (r, s') \<Longrightarrow> server_wf s'"
    and timer_wf: "server_wf s \<Longrightarrow> timer s = Inr (r, s') \<Longrightarrow> server_wf s'"
    and tick_wf: "server_wf s \<Longrightarrow> tick s = Inr (r, s') \<Longrightarrow> server_wf s'"
begin

abbreviation table :: "'u nrm_server_user_callbacks" where
  "table \<equiv> all_callbacks event actuate signal timer tick"

lemma table_ok: "callbacks_ok table"
  unfolding callbacks_ok_def all_callbacks_def
  by (intro conjI allI impI)
    (auto intro: event_wf, auto intro: actuate_wf, auto intro: signal_wf, auto intro: timer_wf, auto intro: tick_wf)

lemma reach_wf: "server_reach table raw s0 s \<Longrightarrow> server_wf s0 \<Longrightarrow> server_wf s"
proof (induction rule: server_reach.induct)
  case (turn s i rc s')
  then show ?case using server_handle_wf [OF table_ok] by blast
qed

lemma start_wf: "nrm_server_start table raw is s0 = Inr s \<Longrightarrow> server_wf s0 \<Longrightarrow> server_wf s"
  by (rule reach_wf [OF server_start_reach [OF _ server_reach.start]])

end


section \<open>What the handlers send\<close>

lemma actuator_new_returns: "actuator_shape a \<Longrightarrow> \<exists>m. nrm_msg_actuator_new (Some a) = Inr m"
  by (auto simp: actuator_shape_def nrm_msg_actuator_new_def nrm_msg_actuator_discrete_new_def
      nrm_msg_actuator_continuous_new_def actuator_choices_def actuator_limits_def actuator_consts Let_def)

lemma mapE_returns:
  "(\<And>x. x \<in> set xs \<Longrightarrow> \<exists>y. f x = Inr y) \<Longrightarrow> \<exists>ys. mapE f xs = Inr ys \<and> list_all2 (\<lambda>x y. f x = Inr y) xs ys"
proof (induction xs)
  case (Cons x xs)
  then obtain ys where "mapE f xs = Inr ys" "list_all2 (\<lambda>x y. f x = Inr y) xs ys" by auto
  moreover obtain y where "f x = Inr y" using Cons.prems [of x] by auto
  ultimately show ?case by auto
qed simp

text \<open>The data of the reply to a list request.\<close>

definition listing :: "nrm_state \<Rightarrow> int \<Rightarrow> list_data \<Rightarrow> bool" where
  "listing st type d \<longleftrightarrow>
     (if type = NRM_MSG_TARGET_TYPE_SENSOR then d = ListSensors (map (\<lambda>(u, _). \<lparr>msn_uuid = u\<rparr>) (st_sensors st))
      else if type = NRM_MSG_TARGET_TYPE_SLICE then d = ListSlices (map (\<lambda>(u, _). \<lparr>msl_uuid = u\<rparr>) (st_slices st))
      else if type = NRM_MSG_TARGET_TYPE_SCOPE then d = ListScopes (map (\<lambda>(_, s). scope_to_msg s) (st_scopes st))
      else \<exists>ms. d = ListActuators ms \<and> list_all2 (\<lambda>(_, a) m. nrm_msg_actuator_new (Some a) = Inr m) (st_actuators st) ms)"

lemma list_sensors_reply:
  assumes "state_wf st"
  shows "\<exists>d. nrm_server_list_sensors \<lparr>srv_state = st, srv_out = out, srv_user = u\<rparr>
      = Inr (Some \<lparr>msg_type = NRM_MSG_TYPE_LIST, msg_data = DataList \<lparr>list_type = NRM_MSG_TARGET_TYPE_SENSOR, list_data = d\<rparr>\<rparr>)
    \<and> listing st NRM_MSG_TARGET_TYPE_SENSOR d"
  using assms
  by (auto simp: nrm_server_list_sensors_def nrm_state_list_sensors_def list_table_ok nrm_msg_set_list_sensors_def
      msg_set_def nrm_msg_list_new_def nrm_msg_sensorlist_new_def nrm_msg_sensor_new_def listing_def state_wf_def table_wf_def)

lemma list_slices_reply:
  assumes "state_wf st"
  shows "\<exists>d. nrm_server_list_slices \<lparr>srv_state = st, srv_out = out, srv_user = u\<rparr>
      = Inr (Some \<lparr>msg_type = NRM_MSG_TYPE_LIST, msg_data = DataList \<lparr>list_type = NRM_MSG_TARGET_TYPE_SLICE, list_data = d\<rparr>\<rparr>)
    \<and> listing st NRM_MSG_TARGET_TYPE_SLICE d"
  using assms
  by (auto simp: nrm_server_list_slices_def nrm_state_list_slices_def list_table_ok nrm_msg_set_list_slices_def
      msg_set_def nrm_msg_list_new_def nrm_msg_slicelist_new_def nrm_msg_slice_new_def listing_def state_wf_def table_wf_def
      msg_targets)

lemma list_scopes_reply:
  assumes "state_wf st"
  shows "\<exists>d. nrm_server_list_scopes \<lparr>srv_state = st, srv_out = out, srv_user = u\<rparr>
      = Inr (Some \<lparr>msg_type = NRM_MSG_TYPE_LIST, msg_data = DataList \<lparr>list_type = NRM_MSG_TARGET_TYPE_SCOPE, list_data = d\<rparr>\<rparr>)
    \<and> listing st NRM_MSG_TARGET_TYPE_SCOPE d"
proof -
  have "mapE (\<lambda>s. nrm_msg_scope_new (Some s)) (map snd (st_scopes st)) = Inr (map scope_to_msg (map snd (st_scopes st)))"
    using assms by (intro mapE_pure nrm_msg_scope_new_ok) (auto simp: state_wf_def table_wf_def)
  then show ?thesis
    by (auto simp: nrm_server_list_scopes_def nrm_state_list_scopes_def list_table_ok nrm_msg_set_list_scopes_def
        msg_set_def nrm_msg_list_new_def nrm_msg_scopelist_new_def listing_def msg_targets)
qed

lemma list_actuators_reply:
  assumes "state_wf st"
  shows "\<exists>d. nrm_server_list_actuators \<lparr>srv_state = st, srv_out = out, srv_user = u\<rparr>
      = Inr (Some \<lparr>msg_type = NRM_MSG_TYPE_LIST, msg_data = DataList \<lparr>list_type = NRM_MSG_TARGET_TYPE_ACTUATOR, list_data = d\<rparr>\<rparr>)
    \<and> listing st NRM_MSG_TARGET_TYPE_ACTUATOR d"
proof -
  obtain ms where "mapE (\<lambda>a. nrm_msg_actuator_new (Some a)) (map snd (st_actuators st)) = Inr ms"
    and "list_all2 (\<lambda>a m. nrm_msg_actuator_new (Some a) = Inr m) (map snd (st_actuators st)) ms"
    using assms mapE_returns [of "map snd (st_actuators st)" "\<lambda>a. nrm_msg_actuator_new (Some a)"] actuator_new_returns
    by (fastforce simp: state_wf_def table_wf_def)
  then show ?thesis
    by (auto simp: nrm_server_list_actuators_def nrm_state_list_actuators_def list_table_ok nrm_msg_set_list_actuators_def
        msg_set_def nrm_msg_list_new_def nrm_msg_actuatorlist_new_def listing_def msg_targets list_all2_map1 case_prod_unfold)
qed


lemma list_callback_reply:
  assumes wf: "server_wf s" and t: "list_type req \<in> {NRM_MSG_TARGET_TYPE_SLICE, NRM_MSG_TARGET_TYPE_SENSOR,
      NRM_MSG_TARGET_TYPE_SCOPE, NRM_MSG_TARGET_TYPE_ACTUATOR}"
  shows "\<exists>d. nrm_server_list_callback uuid (Some req) s = Inr (0, s\<lparr>srv_out := srv_out s @
      [OSend \<lparr>msg_type = NRM_MSG_TYPE_LIST, msg_data = DataList \<lparr>list_type = list_type req, list_data = d\<rparr>\<rparr> uuid]\<rparr>)
    \<and> listing (srv_state s) (list_type req) d"
proof -
  have st: "state_wf (srv_state s)" using wf by (simp add: server_wf_def)
  have s: "s = \<lparr>srv_state = srv_state s, srv_out = srv_out s, srv_user = srv_user s\<rparr>" by simp
  note replies = list_slices_reply [OF st, of "srv_out s" "srv_user s", folded s]
    list_sensors_reply [OF st, of "srv_out s" "srv_user s", folded s]
    list_scopes_reply [OF st, of "srv_out s" "srv_user s", folded s]
    list_actuators_reply [OF st, of "srv_out s" "srv_user s", folded s]
  from t consider "list_type req = NRM_MSG_TARGET_TYPE_SLICE" | "list_type req = NRM_MSG_TARGET_TYPE_SENSOR"
    | "list_type req = NRM_MSG_TARGET_TYPE_SCOPE" | "list_type req = NRM_MSG_TARGET_TYPE_ACTUATOR" by auto
  then show ?thesis
    by cases (use replies in \<open>auto simp: nrm_server_list_callback_def server_reply_def msg_targets\<close>)
qed

lemma actuate_callback_allowed:
  assumes a: "map_of (st_actuators (srv_state s)) (actuate_uuid x) = Some a" and owner: "act_clientid a = Some owner"
    and v: "correctable a (actuate_value x)"
    and cb: "cb_actuate cb = Some f" "f s a (actuate_value x) = Inr (0, t)" "st_actuators (srv_state t) = st_actuators (srv_state s)"
  shows "nrm_server_actuate_callback cb uuid (Some x) s = Inr (0, t\<lparr>srv_state := (srv_state t)\<lparr>st_actuators :=
      alist_update (actuate_uuid x) (\<lambda>_. a\<lparr>act_value := act_correct a (actuate_value x)\<rparr>) (st_actuators (srv_state t))\<rparr>,
      srv_out := srv_out t @ [OSend \<lparr>msg_type = NRM_MSG_TYPE_ACTUATE, msg_data = DataActuate
          \<lparr>actuate_uuid = actuate_uuid x, actuate_value = act_correct a (actuate_value x)\<rparr>\<rparr> (Some owner),
        OSend \<lparr>msg_type = NRM_MSG_TYPE_ACK, msg_data = DataNone\<rparr> uuid]\<rparr>)"
proof -
  have "map_of (st_actuators (srv_state t)) (actuate_uuid x) = Some a" using a cb(3) by simp
  note do = do_actuate_eq [OF this owner corrected_act_correct [OF v]]
  show ?thesis using a cb do by (simp add: nrm_server_actuate_callback_def Let_def snd_nrm_hash_find)
qed


text \<open>A handler that returns 0 has sent its answer last.\<close>

lemma server_reply_answers:
  "server_reply uuid (m, s) = Inr (0, s') \<Longrightarrow> \<exists>r. m = Some r \<and> s' = s\<lparr>srv_out := srv_out s @ [OSend r uuid]\<rparr>"
  by (cases m) (auto simp: server_reply_def)

lemma reply_types:
  "nrm_server_add_actuator cid a s = Inr (Some r, s') \<Longrightarrow> msg_type r \<in> {NRM_MSG_TYPE_ACK, NRM_MSG_TYPE_ADD}"
  "nrm_server_add_scope c s = Inr (Some r, s') \<Longrightarrow> msg_type r \<in> {NRM_MSG_TYPE_ACK, NRM_MSG_TYPE_ADD}"
  "nrm_server_add_sensor n s = Inr (Some r, s') \<Longrightarrow> msg_type r \<in> {NRM_MSG_TYPE_ACK, NRM_MSG_TYPE_ADD}"
  "nrm_server_add_slice l s = Inr (Some r, s') \<Longrightarrow> msg_type r \<in> {NRM_MSG_TYPE_ACK, NRM_MSG_TYPE_ADD}"
  "nrm_server_list_actuators s = Inr (Some r) \<Longrightarrow> msg_type r \<in> {NRM_MSG_TYPE_ACK, NRM_MSG_TYPE_LIST}"
  "nrm_server_list_scopes s = Inr (Some r) \<Longrightarrow> msg_type r \<in> {NRM_MSG_TYPE_ACK, NRM_MSG_TYPE_LIST}"
  "nrm_server_list_sensors s = Inr (Some r) \<Longrightarrow> msg_type r \<in> {NRM_MSG_TYPE_ACK, NRM_MSG_TYPE_LIST}"
  "nrm_server_list_slices s = Inr (Some r) \<Longrightarrow> msg_type r \<in> {NRM_MSG_TYPE_ACK, NRM_MSG_TYPE_LIST}"
  "server_remove f raw u s = Inr (Some r, s') \<Longrightarrow> msg_type r = NRM_MSG_TYPE_ACK"
  by (auto simp: nrm_server_add_actuator_def nrm_server_add_scope_def nrm_server_add_sensor_def nrm_server_add_slice_def
      nrm_server_list_actuators_def nrm_server_list_scopes_def nrm_server_list_sensors_def nrm_server_list_slices_def
      server_remove_def bindE_eq_Inr Let_def msg_set_def nrm_msg_set_add_actuator_def nrm_msg_set_add_scope_def
      nrm_msg_set_add_sensor_def nrm_msg_set_add_slice_def nrm_msg_set_list_actuators_def nrm_msg_set_list_scopes_def
      nrm_msg_set_list_sensors_def nrm_msg_set_list_slices_def split: if_splits)

definition answered :: "string option \<Rightarrow> 'u nrm_server \<Rightarrow> bool" where
  "answered uuid s \<longleftrightarrow> (\<exists>out r. srv_out s = out @ [OSend r uuid] \<and>
     msg_type r \<in> {NRM_MSG_TYPE_ACK, NRM_MSG_TYPE_LIST, NRM_MSG_TYPE_ADD})"

lemma add_callback_answers: "nrm_server_add_callback uuid m s = Inr (0, s') \<Longrightarrow> answered uuid s'"
  by (auto simp: nrm_server_add_callback_def bindE_eq_Inr answered_def dest!: server_reply_answers
      dest: reply_types split: if_splits)

lemma list_callback_answers: "nrm_server_list_callback uuid m s = Inr (0, s') \<Longrightarrow> answered uuid s'"
  by (auto simp: nrm_server_list_callback_def bindE_eq_Inr answered_def dest!: server_reply_answers
      dest: reply_types split: if_splits)

lemma remove_callback_answers: "nrm_server_remove_callback raw uuid m s = Inr (0, s') \<Longrightarrow> answered uuid s'"
  by (auto simp: nrm_server_remove_callback_def bindE_eq_Inr answered_def dest!: server_reply_answers
      dest: reply_types split: if_splits)

lemma ack_callback_answers:
  "nrm_server_actuate_callback cb uuid m s = Inr (rc, s') \<Longrightarrow> answered uuid s'"
  "nrm_server_tick_callback cb uuid s = Inr (rc, s') \<Longrightarrow> answered uuid s'"
  "nrm_server_exit_callback uuid s = Inr (rc, s') \<Longrightarrow> answered uuid s'"
  by (auto simp: nrm_server_actuate_callback_def nrm_server_tick_callback_def nrm_server_exit_callback_def Let_def
      bindE_eq_Inr answered_def)


text \<open>Dispatch on the message type.\<close>

lemma role_callback_dispatch:
  "nrm_server_role_callback cb raw (Some \<lparr>msg_type = NRM_MSG_TYPE_ADD, msg_data = DataAdd a\<rparr>) uuid s
     = nrm_server_add_callback uuid (Some a) s"
  "nrm_server_role_callback cb raw (Some \<lparr>msg_type = NRM_MSG_TYPE_LIST, msg_data = DataList l\<rparr>) uuid s
     = nrm_server_list_callback uuid (Some l) s"
  "nrm_server_role_callback cb raw (Some \<lparr>msg_type = NRM_MSG_TYPE_REMOVE, msg_data = DataRemove d\<rparr>) uuid s
     = nrm_server_remove_callback raw uuid (Some d) s"
  "nrm_server_role_callback cb raw (Some \<lparr>msg_type = NRM_MSG_TYPE_EVENTS, msg_data = DataEvents e\<rparr>) uuid s
     = nrm_server_events_callback cb (Some e) s"
  "nrm_server_role_callback cb raw (Some \<lparr>msg_type = NRM_MSG_TYPE_ACTUATE, msg_data = DataActuate x\<rparr>) uuid s
     = nrm_server_actuate_callback cb uuid (Some x) s"
  "nrm_server_role_callback cb raw (Some \<lparr>msg_type = NRM_MSG_TYPE_EXIT, msg_data = da\<rparr>) uuid s
     = nrm_server_exit_callback uuid s"
  "nrm_server_role_callback cb raw (Some \<lparr>msg_type = NRM_MSG_TYPE_TICK, msg_data = da\<rparr>) uuid s
     = nrm_server_tick_callback cb uuid s"
  by (simp_all add: nrm_server_role_callback_def msg_types union_reads)


lemma add_sensor_reply:
  "nrm_server_add_callback uuid (Some \<lparr>add_type = NRM_MSG_TARGET_TYPE_SENSOR, add_data = AddSensor n\<rparr>) s
     = Inr (0, s\<lparr>srv_state := (srv_state s)\<lparr>st_sensors := st_sensors (srv_state s) @
           (if map_of (st_sensors (srv_state s)) (msn_uuid n) = None then [(msn_uuid n, \<lparr>sensor_uuid = msn_uuid n\<rparr>)] else [])\<rparr>,
         srv_out := srv_out s @ [OSend \<lparr>msg_type = NRM_MSG_TYPE_ADD, msg_data = DataAdd
           \<lparr>add_type = NRM_MSG_TARGET_TYPE_SENSOR, add_data = AddSensor n\<rparr>\<rparr> uuid]\<rparr>)"
proof -
  have "n = \<lparr>msn_uuid = msn_uuid n\<rparr>" by simp
  then show ?thesis
    by (auto simp: msg_targets union_reads nrm_server_add_callback_def nrm_server_add_sensor_def
        nrm_sensor_create_frommsg_def nrm_sensor_create_def nrm_state_add_sensor_def Let_def nrm_msg_set_add_sensor_def
        msg_set_def nrm_msg_add_new_def nrm_msg_sensor_new_def server_reply_def nrm_hash_add_map_of)
qed


section \<open>Properties\<close>

text \<open>
  C12. A list request is answered with everything the state holds: for each of the four target
  types the server sends the requester exactly one message, of type LIST and with the target type of the request, whose data lists the objects
  of that table in the order they were added, changes nothing else, and returns 0.
\<close>

theorem nrm_server_list_replies:
  assumes wf: "server_wf s" and t: "list_type req \<in> {NRM_MSG_TARGET_TYPE_SLICE, NRM_MSG_TARGET_TYPE_SENSOR,
      NRM_MSG_TARGET_TYPE_SCOPE, NRM_MSG_TARGET_TYPE_ACTUATOR}"
  shows "\<exists>d. nrm_server_role_callback cb raw (Some \<lparr>msg_type = NRM_MSG_TYPE_LIST, msg_data = DataList req\<rparr>) uuid s
      = Inr (0, s\<lparr>srv_out := srv_out s @
          [OSend \<lparr>msg_type = NRM_MSG_TYPE_LIST, msg_data = DataList \<lparr>list_type = list_type req, list_data = d\<rparr>\<rparr> uuid]\<rparr>)
    \<and> listing (srv_state s) (list_type req) d"
  using list_callback_reply [OF wf t, of uuid] by (simp add: role_callback_dispatch)

text \<open>A server with one sensor, for the witnesses.\<close>

definition one_sensor :: "unit nrm_server" where
  "one_sensor = \<lparr>srv_state = nrm_state_create\<lparr>st_sensors := [(''s'', \<lparr>sensor_uuid = ''s''\<rparr>)]\<rparr>, srv_out = [], srv_user = ()\<rparr>"

definition no_callbacks :: "'u nrm_server_user_callbacks" where
  "no_callbacks = \<lparr>cb_event = None, cb_actuate = None, cb_signal = None, cb_timer = None, cb_tick = None\<rparr>"

theorem nrm_server_list_replies_witness:
  "nrm_server_role_callback no_callbacks [] (Some \<lparr>msg_type = NRM_MSG_TYPE_LIST, msg_data = DataList
       \<lparr>list_type = NRM_MSG_TARGET_TYPE_SENSOR, list_data = ListSensors []\<rparr>\<rparr>) (Some ''c'') one_sensor
     = Inr (0, one_sensor\<lparr>srv_out := [OSend \<lparr>msg_type = NRM_MSG_TYPE_LIST, msg_data = DataList
         \<lparr>list_type = NRM_MSG_TARGET_TYPE_SENSOR, list_data = ListSensors [\<lparr>msn_uuid = ''s''\<rparr>]\<rparr>\<rparr> (Some ''c'')]\<rparr>)"
proof -
  have "server_wf one_sensor"
    by (simp add: server_wf_def one_sensor_def state_wf_def nrm_state_create_def table_wf_def hash_wf_def)
  from nrm_server_list_replies [OF this, of "\<lparr>list_type = NRM_MSG_TARGET_TYPE_SENSOR, list_data = ListSensors []\<rparr>"
      no_callbacks "[]" "Some ''c''"]
  show ?thesis by (auto simp: listing_def one_sensor_def)
qed

text \<open>
  C11. An action the user allows reaches the owner with a legal value: if the actuator exists and
  belongs to a client, the requested value can be corrected and the actuate callback returns 0, then the
  server stores the corrected value, which \<open>nrm_actuator_validate_value\<close> accepts, sends exactly that value to the owner and
  then acknowledges the requester.  The callback may change anything but the table of actuators.
\<close>

theorem nrm_server_actuate_allowed:
  assumes a: "map_of (st_actuators (srv_state s)) (actuate_uuid x) = Some a" and owner: "act_clientid a = Some owner"
    and v: "correctable a (actuate_value x)"
    and cb: "cb_actuate cb = Some f" "f s a (actuate_value x) = Inr (0, t)" "st_actuators (srv_state t) = st_actuators (srv_state s)"
  shows "\<exists>w s'. nrm_server_role_callback cb raw (Some \<lparr>msg_type = NRM_MSG_TYPE_ACTUATE, msg_data = DataActuate x\<rparr>) uuid s = Inr (0, s')
     \<and> nrm_actuator_validate_value (Some a) w = Inr 0
     \<and> map_of (st_actuators (srv_state s')) = (map_of (st_actuators (srv_state s)))(actuate_uuid x \<mapsto> a\<lparr>act_value := w\<rparr>)
     \<and> srv_out s' = srv_out t @
         [OSend \<lparr>msg_type = NRM_MSG_TYPE_ACTUATE, msg_data = DataActuate (x\<lparr>actuate_value := w\<rparr>)\<rparr> (Some owner),
          OSend \<lparr>msg_type = NRM_MSG_TYPE_ACK, msg_data = DataNone\<rparr> uuid]"
proof -
  have "x\<lparr>actuate_value := w\<rparr> = \<lparr>actuate_uuid = actuate_uuid x, actuate_value = w\<rparr>" for w by (cases x) simp
  then show ?thesis
    using actuate_callback_allowed [OF assms, of uuid] act.correct_valid [OF v] a cb(3)
    by (auto simp: role_callback_dispatch alist_simps act_valid_def)
qed

text \<open>A server with the actuator of two choices, owned by the client \<open>o\<close>.\<close>

definition one_actuator :: "unit nrm_server" where
  "one_actuator = \<lparr>srv_state = nrm_state_create\<lparr>st_actuators := [(''a'', two_choices\<lparr>act_clientid := Some ''o''\<rparr>)]\<rparr>,
     srv_out = [], srv_user = ()\<rparr>"

definition allow_all :: "unit nrm_server_user_callbacks" where
  "allow_all = no_callbacks\<lparr>cb_actuate := Some (\<lambda>s a v. Inr (0, s))\<rparr>"

theorem nrm_server_actuate_allowed_witness:
  "\<exists>w s'. nrm_server_role_callback allow_all []
       (Some \<lparr>msg_type = NRM_MSG_TYPE_ACTUATE, msg_data = DataActuate \<lparr>actuate_uuid = ''a'', actuate_value = DFin 1\<rparr>\<rparr>)
       (Some ''c'') one_actuator = Inr (0, s')
     \<and> srv_out s' = [OSend \<lparr>msg_type = NRM_MSG_TYPE_ACTUATE, msg_data = DataActuate \<lparr>actuate_uuid = ''a'', actuate_value = w\<rparr>\<rparr> (Some ''o''),
          OSend \<lparr>msg_type = NRM_MSG_TYPE_ACK, msg_data = DataNone\<rparr> (Some ''c'')]"
proof -
  have "\<exists>w s'. nrm_server_role_callback allow_all []
       (Some \<lparr>msg_type = NRM_MSG_TYPE_ACTUATE, msg_data = DataActuate \<lparr>actuate_uuid = ''a'', actuate_value = DFin 1\<rparr>\<rparr>)
       (Some ''c'') one_actuator = Inr (0, s')
     \<and> srv_out s' = srv_out one_actuator @ [OSend \<lparr>msg_type = NRM_MSG_TYPE_ACTUATE, msg_data = DataActuate
         (\<lparr>actuate_uuid = ''a'', actuate_value = DFin 1\<rparr>\<lparr>actuate_value := w\<rparr>)\<rparr> (Some ''o''),
          OSend \<lparr>msg_type = NRM_MSG_TYPE_ACK, msg_data = DataNone\<rparr> (Some ''c'')]"
    using nrm_server_actuate_allowed [of one_actuator "\<lparr>actuate_uuid = ''a'', actuate_value = DFin 1\<rparr>"
        "two_choices\<lparr>act_clientid := Some ''o''\<rparr>" "''o''" allow_all "\<lambda>s a v. Inr (0, s)" one_actuator "[]" "Some ''c''"]
      two_choices_correctable [of "Some ''o''"]
    by (fastforce simp: one_actuator_def allow_all_def)
  then show ?thesis by (simp add: one_actuator_def)
qed


text \<open>
  No request is left without an answer: whatever the callbacks do, when the handler of a
  message of type ACTUATE, LIST, ADD, REMOVE or TICK returns 0, or that of EXIT returns at all, the last message handed
  to the role is a reply to the sender of type ACK, LIST or ADD.  Only EVENTS, which the client sends without
  waiting, is not answered.
\<close>

theorem nrm_server_answers:
  assumes r: "nrm_server_role_callback cb raw (Some m) uuid s = Inr (rc, s')"
    and rc: "rc = 0 \<and> msg_type m \<noteq> NRM_MSG_TYPE_EVENTS \<or> msg_type m = NRM_MSG_TYPE_EXIT"
  shows "\<exists>out r. srv_out s' = out @ [OSend r uuid] \<and>
    msg_type r \<in> {NRM_MSG_TYPE_ACK, NRM_MSG_TYPE_LIST, NRM_MSG_TYPE_ADD}"
proof -
  have "answered uuid s'"
    using r rc
    by (auto simp: nrm_server_role_callback_def bindE_eq_Inr msg_types dest: ack_callback_answers add_callback_answers
        list_callback_answers remove_callback_answers split: if_splits)
  then show ?thesis by (simp add: answered_def)
qed

theorem nrm_server_answers_witness:
  "\<exists>out r. srv_out (one_sensor\<lparr>srv_out := [OSend \<lparr>msg_type = NRM_MSG_TYPE_ACK, msg_data = DataNone\<rparr> (Some ''c'')]\<rparr>)
     = out @ [OSend r (Some ''c'')] \<and> msg_type r \<in> {NRM_MSG_TYPE_ACK, NRM_MSG_TYPE_LIST, NRM_MSG_TYPE_ADD}"
  by (rule nrm_server_answers [of no_callbacks "[]" "\<lparr>msg_type = NRM_MSG_TYPE_TICK, msg_data = DataNone\<rparr>" "Some ''c''" one_sensor 0])
    (simp_all add: nrm_server_role_callback_def nrm_server_tick_callback_def no_callbacks_def one_sensor_def msg_types)

text \<open>
  Adding a sensor or a scope: the server answers with an ADD message that carries the object
  back and returns 0; the object enters its table, at the end, exactly when its uuid is new, and the rest of
  the state is untouched.  A duplicate gets the same answer.
\<close>

theorem nrm_server_add_replies:
  "nrm_server_role_callback cb raw (Some \<lparr>msg_type = NRM_MSG_TYPE_ADD, msg_data = DataAdd
       \<lparr>add_type = NRM_MSG_TARGET_TYPE_SENSOR, add_data = AddSensor n\<rparr>\<rparr>) uuid s
     = Inr (0, s\<lparr>srv_state := (srv_state s)\<lparr>st_sensors := st_sensors (srv_state s) @
           (if map_of (st_sensors (srv_state s)) (msn_uuid n) = None then [(msn_uuid n, \<lparr>sensor_uuid = msn_uuid n\<rparr>)] else [])\<rparr>,
         srv_out := srv_out s @ [OSend \<lparr>msg_type = NRM_MSG_TYPE_ADD, msg_data = DataAdd
           \<lparr>add_type = NRM_MSG_TARGET_TYPE_SENSOR, add_data = AddSensor n\<rparr>\<rparr> uuid]\<rparr>)
   \<and> (\<exists>sc. nrm_scope_create_frommsg (Some c) = Inr (Some sc) \<and> scope_uuid sc = ms_uuid c \<and>
      nrm_server_role_callback cb raw (Some \<lparr>msg_type = NRM_MSG_TYPE_ADD, msg_data = DataAdd
       \<lparr>add_type = NRM_MSG_TARGET_TYPE_SCOPE, add_data = AddScope c\<rparr>\<rparr>) uuid s
     = Inr (0, s\<lparr>srv_state := (srv_state s)\<lparr>st_scopes := st_scopes (srv_state s) @
           (if map_of (st_scopes (srv_state s)) (ms_uuid c) = None then [(ms_uuid c, sc)] else [])\<rparr>,
         srv_out := srv_out s @ [OSend \<lparr>msg_type = NRM_MSG_TYPE_ADD, msg_data = DataAdd
           \<lparr>add_type = NRM_MSG_TARGET_TYPE_SCOPE, add_data = AddScope (scope_to_msg sc)\<rparr>\<rparr> uuid]\<rparr>))"
  (is "?sensor \<and> ?scope")
proof
  show ?sensor by (simp add: role_callback_dispatch add_sensor_reply)
next
  obtain sc where sc: "nrm_scope_create_frommsg (Some c) = Inr (Some sc)" "scope_wf sc" "scope_uuid sc = ms_uuid c"
    using nrm_scope_create_frommsg_wf by blast
  then show ?scope
    by (auto simp: role_callback_dispatch msg_targets union_reads nrm_server_add_callback_def
        nrm_server_add_scope_def nrm_state_add_scope_def Let_def nrm_msg_set_add_scope_def msg_set_def
        nrm_msg_add_new_def server_reply_def nrm_hash_add_map_of nrm_msg_scope_new_ok)
qed

text \<open>
  C15. What one message can do to the daemon: EXIT is acknowledged and ends the reactor; a LIST
  request with a target type outside the four also ends it, without a reply; a REMOVE request for a scope
  crashes it, whatever scope it names.  Messages that were waiting behind are not handled.
\<close>

theorem nrm_server_stops:
  "nrm_server_start cb raw (IMsg (Some \<lparr>msg_type = NRM_MSG_TYPE_EXIT, msg_data = d\<rparr>) uuid # rest) s
     = Inr (s\<lparr>srv_out := srv_out s @ [OSend \<lparr>msg_type = NRM_MSG_TYPE_ACK, msg_data = DataNone\<rparr> uuid]\<rparr>)
   \<and> nrm_server_start cb raw (IMsg (Some \<lparr>msg_type = NRM_MSG_TYPE_LIST, msg_data = DataList
       \<lparr>list_type = 4 + int k, list_data = l\<rparr>\<rparr>) uuid # rest) s = Inr s
   \<and> nrm_server_start cb raw (IMsg (Some \<lparr>msg_type = NRM_MSG_TYPE_REMOVE, msg_data = DataRemove
       \<lparr>remove_type = NRM_MSG_TARGET_TYPE_SCOPE, remove_uuid = u\<rparr>\<rparr>) uuid # rest) s \<in> {Inl NullDeref, Inl UseAfterFree}"
proof -
  have "nrm_state_remove_scope raw (srv_state s) u \<in> {Inl NullDeref, Inl UseAfterFree}" by (rule remove_scope_faults)
  then show ?thesis
    by (auto simp: server_handle_def role_callback_dispatch msg_targets union_reads
        nrm_server_exit_callback_def nrm_server_list_callback_def server_reply_def nrm_server_remove_callback_def
        server_remove_def)
qed

end
