(* ===== verification/NRM_Role.thy ===== *)
theory NRM_Role
  imports NRM_Message
begin

text \<open>
  Sockets and roles (src/net.c, src/roles/role.c, src/roles/client.c, src/roles/controller.c): the
  threads that sit between the API and the network.

  A role is a table of operations and its data, as in internal/roles.h; an operation that the table
  leaves NULL is \<open>None\<close>.  The data of a role holds both what the API thread and what the broker
  thread own, since they share it: the two directions of the pipe between them (\<open>down\<close> to the
  broker, \<open>up\<close> to the API) and the queues of the sockets.  A handler of the broker is one turn of its zloop; the
  messages of a socket keep their order.  A registered callback is kept by name (\<open>'f\<close>), and a call of it is
  recorded in the order it happens, with the message it gets: it runs in the broker's thread.

  czmq is a library: what a socket operation returns is an argument.  \<open>zsock_wait\<close> returns the byte
  that \<open>zsock_signal\<close> sent.  A receive on an empty pipe blocks and is \<open>Diverges\<close>.
\<close>

section \<open>Sockets\<close>

datatype zsock_type = ZMQ_DEALER | ZMQ_ROUTER | ZMQ_SUB | ZMQ_PUB

record zsock =
  zs_type :: zsock_type
  zs_immediate :: bool
  zs_unbounded :: bool
  zs_rcvhwm :: "int option"
  zs_sndhwm :: "int option"
  zs_sndtimeo :: "int option"
  zs_rcvtimeo :: "int option"
  zs_identity :: "string option"
  zs_subscribe :: "string list"

definition zsock_new :: "zsock_type \<Rightarrow> zsock" where
  "zsock_new t = \<lparr>zs_type = t, zs_immediate = False, zs_unbounded = False, zs_rcvhwm = None, zs_sndhwm = None,
     zs_sndtimeo = None, zs_rcvtimeo = None, zs_identity = None, zs_subscribe = []\<rparr>"

text \<open>
  \<open>transmit\<close> and \<open>timeout\<close> are the globals of nrm.c, \<open>ok\<close> says whether
  \<open>zsock_new\<close> succeeds, \<open>uuid\<close> is the fresh identity.  The socket is \<open>None\<close> when it is not assigned.
\<close>

definition nrm_net_rpc_client_init :: "bool \<Rightarrow> int \<Rightarrow> bool \<Rightarrow> string \<Rightarrow> int \<times> zsock option" where
  "nrm_net_rpc_client_init transmit timeout ok uuid =
     (if \<not> transmit then (0, None)
      else if \<not> ok then (1, None)
      else (0, Some ((zsock_new ZMQ_DEALER)\<lparr>zs_immediate := True, zs_unbounded := True, zs_sndtimeo := Some timeout,
              zs_rcvtimeo := Some timeout, zs_identity := Some uuid\<rparr>)))"

definition nrm_net_rpc_server_init :: "bool \<Rightarrow> int \<Rightarrow> bool \<Rightarrow> int \<times> zsock option" where
  "nrm_net_rpc_server_init transmit timeout ok =
     (if \<not> transmit then (0, None)
      else if \<not> ok then (1, None)
      else (0, Some ((zsock_new ZMQ_ROUTER)\<lparr>zs_immediate := True, zs_unbounded := True, zs_sndtimeo := Some timeout,
              zs_rcvtimeo := Some timeout\<rparr>)))"

definition nrm_net_sub_init :: "bool \<Rightarrow> bool \<Rightarrow> int \<times> zsock option" where
  "nrm_net_sub_init transmit ok =
     (if \<not> transmit then (0, None)
      else if \<not> ok then (1, None)
      else (0, Some ((zsock_new ZMQ_SUB)\<lparr>zs_rcvhwm := Some 0, zs_subscribe := [''null'']\<rparr>)))"

definition nrm_net_sub_set_topic :: "zsock option \<Rightarrow> string option \<Rightarrow> (int \<times> zsock) exec" where
  "nrm_net_sub_set_topic socket topic =
     bindE (derefE socket) (\<lambda>s. bindE (derefE topic) (\<lambda>t. Inr (0, s\<lparr>zs_subscribe := zs_subscribe s @ [t]\<rparr>)))"

definition nrm_net_pub_init :: "bool \<Rightarrow> bool \<Rightarrow> int \<times> zsock option" where
  "nrm_net_pub_init transmit ok =
     (if \<not> transmit then (0, None)
      else if \<not> ok then (1, None)
      else (0, Some ((zsock_new ZMQ_PUB)\<lparr>zs_sndhwm := Some 0\<rparr>)))"

text \<open>
  The events the socket monitor reports, in order; \<open>None\<close> is a receive that timed out.  The list may end before
  either: the loop waits for the next event.
\<close>

fun connect_wait_loop :: "string option list \<Rightarrow> int exec" where
  "connect_wait_loop [] = Inl Diverges"
| "connect_wait_loop (None # _) = Inr (- NRM_FAILURE)"
| "connect_wait_loop (Some ev # evs) = (if ev = ''CONNECTED'' then Inr 0 else connect_wait_loop evs)"

definition nrm_net_connect_and_wait :: "bool \<Rightarrow> bool \<Rightarrow> int \<Rightarrow> string option list \<Rightarrow> int exec" where
  "nrm_net_connect_and_wait transmit monitor_ok connect_err events =
     (if \<not> transmit then Inr 0
      else bindE (assertE monitor_ok) (\<lambda>_.
        if connect_err \<noteq> 0 then Inr connect_err else connect_wait_loop events))"

definition nrm_net_bind :: "bool \<Rightarrow> int \<Rightarrow> int \<Rightarrow> int" where
  "nrm_net_bind transmit bind_err errno = (if \<not> transmit then 0 else if bind_err = -1 then - errno else 0)"

definition nrm_net_bind_2 :: "bool \<Rightarrow> int \<Rightarrow> int \<Rightarrow> int" where
  "nrm_net_bind_2 transmit bind_err errno = (if \<not> transmit then 0 else if bind_err = -1 then - errno else 0)"


section \<open>Roles\<close>

record ('d, 'f) nrm_role_ops =
  op_send :: "('d \<Rightarrow> nrm_msg option \<Rightarrow> string option \<Rightarrow> (int \<times> 'd) exec) option"
  op_recv :: "('d \<Rightarrow> (nrm_msg option \<times> string option \<times> 'd) exec) option"
  op_pub :: "('d \<Rightarrow> string \<Rightarrow> nrm_msg option \<Rightarrow> (int \<times> 'd) exec) option"
  op_register_sub_cb :: "('d \<Rightarrow> 'f option \<Rightarrow> int \<times> 'd) option"
  op_sub :: "('d \<Rightarrow> string \<Rightarrow> (int \<times> 'd) exec) option"
  op_register_cmd_cb :: "('d \<Rightarrow> 'f option \<Rightarrow> int \<times> 'd) option"

record ('d, 'f) nrm_role =
  role_ops :: "('d, 'f) nrm_role_ops option"
  role_data :: 'd

text \<open>An operation of the table, when there is a role, a table and an entry.\<close>

definition role_op :: "(('d, 'f) nrm_role_ops \<Rightarrow> 'x option) \<Rightarrow> ('d, 'f) nrm_role option \<Rightarrow> (('d, 'f) nrm_role \<times> 'x) option" where
  "role_op sel role =
     (case role of
        None \<Rightarrow> None
      | Some r \<Rightarrow> (case role_ops r of None \<Rightarrow> None | Some ops \<Rightarrow> (case sel ops of None \<Rightarrow> None | Some f \<Rightarrow> Some (r, f))))"

definition nrm_role_send ::
  "('d, 'f) nrm_role option \<Rightarrow> nrm_msg option \<Rightarrow> string option \<Rightarrow> (int \<times> ('d, 'f) nrm_role option) exec" where
  "nrm_role_send role msg to =
     (case role_op op_send role of
        None \<Rightarrow> Inr (-1, role)
      | Some (r, f) \<Rightarrow> bindE (f (role_data r) msg to) (\<lambda>(rc, d). Inr (rc, Some (r\<lparr>role_data := d\<rparr>))))"

definition nrm_role_recv ::
  "('d, 'f) nrm_role option \<Rightarrow> (nrm_msg option \<times> string option \<times> ('d, 'f) nrm_role option) exec" where
  "nrm_role_recv role =
     (case role_op op_recv role of
        None \<Rightarrow> Inr (None, None, role)
      | Some (r, f) \<Rightarrow> bindE (f (role_data r)) (\<lambda>(m, from, d). Inr (m, from, Some (r\<lparr>role_data := d\<rparr>))))"

definition nrm_role_pub ::
  "('d, 'f) nrm_role option \<Rightarrow> string \<Rightarrow> nrm_msg option \<Rightarrow> (int \<times> ('d, 'f) nrm_role option) exec" where
  "nrm_role_pub role topic msg =
     (case role_op op_pub role of
        None \<Rightarrow> Inr (-1, role)
      | Some (r, f) \<Rightarrow> bindE (f (role_data r) topic msg) (\<lambda>(rc, d). Inr (rc, Some (r\<lparr>role_data := d\<rparr>))))"

definition nrm_role_register_sub_cb ::
  "('d, 'f) nrm_role option \<Rightarrow> 'f option \<Rightarrow> int \<times> ('d, 'f) nrm_role option" where
  "nrm_role_register_sub_cb role fn =
     (case role_op op_register_sub_cb role of
        None \<Rightarrow> (- NRM_ENOTSUP, role)
      | Some (r, f) \<Rightarrow> (case f (role_data r) fn of (rc, d) \<Rightarrow> (rc, Some (r\<lparr>role_data := d\<rparr>))))"

definition nrm_role_register_cmd_cb ::
  "('d, 'f) nrm_role option \<Rightarrow> 'f option \<Rightarrow> int \<times> ('d, 'f) nrm_role option" where
  "nrm_role_register_cmd_cb role fn =
     (case role_op op_register_cmd_cb role of
        None \<Rightarrow> (- NRM_ENOTSUP, role)
      | Some (r, f) \<Rightarrow> (case f (role_data r) fn of (rc, d) \<Rightarrow> (rc, Some (r\<lparr>role_data := d\<rparr>))))"

definition nrm_role_sub ::
  "('d, 'f) nrm_role option \<Rightarrow> string \<Rightarrow> (int \<times> ('d, 'f) nrm_role option) exec" where
  "nrm_role_sub role topic =
     (case role_op op_sub role of
        None \<Rightarrow> Inr (- NRM_ENOTSUP, role)
      | Some (r, f) \<Rightarrow> bindE (f (role_data r) topic) (\<lambda>(rc, d). Inr (rc, Some (r\<lparr>role_data := d\<rparr>))))"


section \<open>The client role\<close>

record 'f nrm_role_client =
  rc_down :: "ctrlmsg list"
  rc_up :: "ctrlmsg list"
  rc_rpc :: "zmsg list"
  rc_sub :: "zsock option"
  rc_sub_cb :: "'f option"
  rc_cmd_cb :: "'f option"
  rc_calls :: "('f \<times> nrm_msg option) list"

text \<open>
  One message from the pipe: a request is packed and sent and then destroyed, a subscription is set, TERM
  ends the loop, anything else is ignored.
\<close>

definition nrm_client_broker_pipe_handler ::
  "(nrm_msg \<Rightarrow> string) \<Rightarrow> ctrlmsg \<Rightarrow> 'f nrm_role_client \<Rightarrow> (int \<times> 'f nrm_role_client) exec" where
  "nrm_client_broker_pipe_handler pack m self =
     (case nrm_ctrlmsg_recv m of (type, p, q) \<Rightarrow>
        if type = NRM_CTRLMSG_TYPE_SEND then
          bindE (msg_of_ptr p) (\<lambda>msg.
          bindE (nrm_msg_send pack msg) (\<lambda>zm.
          bindE (nrm_msg_destroy_created (Some msg)) (\<lambda>_.
          Inr (0, self\<lparr>rc_rpc := rc_rpc self @ [zm]\<rparr>))))
        else if type = NRM_CTRLMSG_TYPE_SUB then
          bindE (str_of_ptr p) (\<lambda>s.
          bindE (nrm_net_sub_set_topic (rc_sub self) s) (\<lambda>(_, sock).
          Inr (0, self\<lparr>rc_sub := Some sock\<rparr>)))
        else if type = NRM_CTRLMSG_TYPE_TERM then Inr (-1, self)
        else Inr (0, self))"

definition nrm_client_broker_rpc_handler ::
  "(string \<Rightarrow> nrm_msg option) \<Rightarrow> zmsg \<Rightarrow> 'f nrm_role_client \<Rightarrow> (int \<times> 'f nrm_role_client) exec" where
  "nrm_client_broker_rpc_handler unpack zm self =
     bindE (nrm_msg_recv unpack zm) (\<lambda>msg.
     bindE (nrm_msg_is_reply msg) (\<lambda>reply.
     if reply \<noteq> 0
     then bindE (nrm_ctrlmsg_sendmsg NRM_CTRLMSG_TYPE_RECV msg None) (\<lambda>c. Inr (0, self\<lparr>rc_up := rc_up self @ [c]\<rparr>))
     else (case rc_cmd_cb self of
             Some fn \<Rightarrow> Inr (0, self\<lparr>rc_calls := rc_calls self @ [(fn, msg)]\<rparr>)
           | None \<Rightarrow> Inr (0, self))))"

definition nrm_client_broker_sub_handler ::
  "(string \<Rightarrow> nrm_msg option) \<Rightarrow> string \<Rightarrow> zmsg \<Rightarrow> 'f nrm_role_client \<Rightarrow> (int \<times> 'f nrm_role_client) exec" where
  "nrm_client_broker_sub_handler unpack behind zm self =
     bindE (nrm_msg_sub unpack behind zm) (\<lambda>(msg, _).
     case rc_sub_cb self of
       Some fn \<Rightarrow> Inr (0, self\<lparr>rc_calls := rc_calls self @ [(fn, msg)]\<rparr>)
     | None \<Rightarrow> Inr (0, self))"

text \<open>
  The start of the broker: the bytes it signals on the pipe, and the sub socket of a broker that reaches its
  loop.  The arguments are the results of the calls it makes, in order.
\<close>

record broker_env =
  be_calloc :: bool
  be_rpc_init :: "int \<times> zsock option"
  be_rpc_connect :: "int exec"
  be_sub_init :: "int \<times> zsock option"
  be_sub_connect :: "int exec"
  be_loop :: bool

definition nrm_client_broker_fn :: "broker_env \<Rightarrow> (int list \<times> zsock option option) exec" where
  "nrm_client_broker_fn env =
     (if \<not> be_calloc env then Inr ([0, NRM_ENOMEM], None)
      else if fst (be_rpc_init env) \<noteq> 0 then Inr ([0, - fst (be_rpc_init env) mod 256], None)
      else bindE (be_rpc_connect env) (\<lambda>err.
        if err \<noteq> 0 then Inr ([0, - err mod 256], None)
        else if fst (be_sub_init env) \<noteq> 0 then Inr ([0, - fst (be_sub_init env) mod 256], None)
        else bindE (be_sub_connect env) (\<lambda>err.
          if err \<noteq> 0 then Inr ([0, - err mod 256], None)
          else if \<not> be_loop env then Inr ([0, NRM_FAILURE], None)
          else Inr ([0, 0], Some (snd (be_sub_init env))))))"

definition nrm_role_client_new :: "zsock option \<Rightarrow> 'f nrm_role_client" where
  "nrm_role_client_new sub = \<lparr>rc_down = [], rc_up = [], rc_rpc = [], rc_sub = sub, rc_sub_cb = None, rc_cmd_cb = None, rc_calls = []\<rparr>"

text \<open>The API side: each operation writes to or reads from the pipe.\<close>

definition nrm_role_client_send ::
  "'f nrm_role_client \<Rightarrow> nrm_msg option \<Rightarrow> string option \<Rightarrow> (int \<times> 'f nrm_role_client) exec" where
  "nrm_role_client_send d msg to =
     bindE (nrm_ctrlmsg_sendmsg NRM_CTRLMSG_TYPE_SEND msg to) (\<lambda>c. Inr (0, d\<lparr>rc_down := rc_down d @ [c]\<rparr>))"

definition nrm_role_client_recv ::
  "'f nrm_role_client \<Rightarrow> (nrm_msg option \<times> string option \<times> 'f nrm_role_client) exec" where
  "nrm_role_client_recv d =
     (case rc_up d of
        [] \<Rightarrow> Inl Diverges
      | c # cs \<Rightarrow>
          bindE (nrm_ctrlmsg_recvmsg c) (\<lambda>(msg, type, from).
          bindE (assertE (type = NRM_CTRLMSG_TYPE_RECV)) (\<lambda>_. Inr (msg, from, d\<lparr>rc_up := cs\<rparr>))))"

definition nrm_role_client_register_sub_cb :: "'f nrm_role_client \<Rightarrow> 'f option \<Rightarrow> int \<times> 'f nrm_role_client" where
  "nrm_role_client_register_sub_cb d fn = (0, d\<lparr>rc_sub_cb := fn\<rparr>)"

definition nrm_role_client_register_cmd_cb :: "'f nrm_role_client \<Rightarrow> 'f option \<Rightarrow> int \<times> 'f nrm_role_client" where
  "nrm_role_client_register_cmd_cb d fn = (0, d\<lparr>rc_cmd_cb := fn\<rparr>)"

definition nrm_role_client_sub :: "'f nrm_role_client \<Rightarrow> string \<Rightarrow> (int \<times> 'f nrm_role_client) exec" where
  "nrm_role_client_sub d topic =
     bindE (nrm_ctrlmsg_sub NRM_CTRLMSG_TYPE_SUB topic) (\<lambda>c. Inr (0, d\<lparr>rc_down := rc_down d @ [c]\<rparr>))"

definition nrm_role_client_ops :: "('f nrm_role_client, 'f) nrm_role_ops" where
  "nrm_role_client_ops = \<lparr>op_send = Some nrm_role_client_send, op_recv = Some nrm_role_client_recv, op_pub = None,
     op_register_sub_cb = Some nrm_role_client_register_sub_cb, op_sub = Some nrm_role_client_sub,
     op_register_cmd_cb = Some nrm_role_client_register_cmd_cb\<rparr>"

text \<open>\<open>zactor_new\<close> consumes the first signal, \<open>zsock_wait\<close> returns the second.\<close>

definition nrm_role_client_create_fromparams ::
  "bool \<Rightarrow> bool \<Rightarrow> broker_env \<Rightarrow> ('f nrm_role_client, 'f) nrm_role option exec" where
  "nrm_role_client_create_fromparams malloc_ok zactor_ok env =
     (if \<not> malloc_ok \<or> \<not> zactor_ok then Inr None
      else bindE (nrm_client_broker_fn env) (\<lambda>(signals, sub).
        if signals ! 1 \<noteq> 0 then Inr None
        else Inr (Some \<lparr>role_ops = Some nrm_role_client_ops,
               role_data = nrm_role_client_new (case sub of None \<Rightarrow> None | Some s \<Rightarrow> s)\<rparr>)))"


section \<open>The controller role\<close>

record nrm_role_controller =
  ct_down :: "ctrlmsg list"
  ct_up :: "ctrlmsg list"
  ct_rpc :: "zmsg list"
  ct_pub :: "zmsg list"

definition nrm_controller_broker_rpc_handler ::
  "(string \<Rightarrow> nrm_msg option) \<Rightarrow> zmsg \<Rightarrow> nrm_role_controller \<Rightarrow> (int \<times> nrm_role_controller) exec" where
  "nrm_controller_broker_rpc_handler unpack zm self =
     bindE (nrm_msg_recvfrom unpack zm) (\<lambda>(msg, uuid).
     bindE (nrm_ctrlmsg_sendmsg NRM_CTRLMSG_TYPE_RECV msg (Some uuid)) (\<lambda>c.
     Inr (0, self\<lparr>ct_up := ct_up self @ [c]\<rparr>)))"

definition nrm_controller_broker_pipe_handler ::
  "(nrm_msg \<Rightarrow> string) \<Rightarrow> ctrlmsg \<Rightarrow> nrm_role_controller \<Rightarrow> (int \<times> nrm_role_controller) exec" where
  "nrm_controller_broker_pipe_handler pack m self =
     (case nrm_ctrlmsg_recv m of (type, p, q) \<Rightarrow>
        if type = NRM_CTRLMSG_TYPE_TERM then Inr (-1, self)
        else if type = NRM_CTRLMSG_TYPE_SEND then
          bindE (msg_of_ptr p) (\<lambda>msg.
          bindE (uuid_of_ptr q) (\<lambda>uuid.
          bindE (nrm_msg_sendto pack msg uuid) (\<lambda>zm.
          bindE (nrm_msg_destroy_created (Some msg)) (\<lambda>_.
          Inr (0, self\<lparr>ct_rpc := ct_rpc self @ [zm]\<rparr>)))))
        else if type = NRM_CTRLMSG_TYPE_PUB then
          bindE (str_of_ptr p) (\<lambda>s.
          bindE (msg_of_ptr q) (\<lambda>msg.
          bindE (derefE s) (\<lambda>topic.
          bindE (nrm_msg_pub pack topic msg) (\<lambda>zm.
          bindE (nrm_msg_destroy_created (Some msg)) (\<lambda>_.
          Inr (0, self\<lparr>ct_pub := ct_pub self @ [zm]\<rparr>))))))
        else Inr (0, self))"

text \<open>Every failure while the sockets are set up is an assertion.\<close>

definition nrm_controller_broker_fn :: "bool \<Rightarrow> int \<Rightarrow> int \<Rightarrow> int \<Rightarrow> int \<Rightarrow> bool \<Rightarrow> int list exec" where
  "nrm_controller_broker_fn calloc_ok rpc_init rpc_bind pub_init pub_bind loop_ok =
     (if \<not> calloc_ok then Inr [1]
      else bindE (assertE (rpc_init = 0)) (\<lambda>_. bindE (assertE (rpc_bind = 0)) (\<lambda>_.
           bindE (assertE (pub_init = 0)) (\<lambda>_. bindE (assertE (pub_bind = 0)) (\<lambda>_.
           bindE (assertE loop_ok) (\<lambda>_. Inr [0]))))))"

definition nrm_role_controller_send ::
  "nrm_role_controller \<Rightarrow> nrm_msg option \<Rightarrow> string option \<Rightarrow> (int \<times> nrm_role_controller) exec" where
  "nrm_role_controller_send d msg to =
     bindE (nrm_ctrlmsg_sendmsg NRM_CTRLMSG_TYPE_SEND msg to) (\<lambda>c. Inr (0, d\<lparr>ct_down := ct_down d @ [c]\<rparr>))"

definition nrm_role_controller_recv ::
  "nrm_role_controller \<Rightarrow> (nrm_msg option \<times> string option \<times> nrm_role_controller) exec" where
  "nrm_role_controller_recv d =
     (case ct_up d of
        [] \<Rightarrow> Inl Diverges
      | c # cs \<Rightarrow>
          bindE (nrm_ctrlmsg_recvmsg c) (\<lambda>(msg, type, from).
          bindE (assertE (type = NRM_CTRLMSG_TYPE_RECV)) (\<lambda>_. Inr (msg, from, d\<lparr>ct_up := cs\<rparr>))))"

text \<open>The loop is the list of its readers: the broker's pipe is registered with the callback.\<close>

definition nrm_role_controller_register_recvcallback :: "'f list \<Rightarrow> 'f \<Rightarrow> int \<times> 'f list" where
  "nrm_role_controller_register_recvcallback loop fn = (0, loop @ [fn])"

definition nrm_role_controller_pub ::
  "nrm_role_controller \<Rightarrow> string \<Rightarrow> nrm_msg option \<Rightarrow> (int \<times> nrm_role_controller) exec" where
  "nrm_role_controller_pub d topic msg =
     bindE (nrm_ctrlmsg_pub NRM_CTRLMSG_TYPE_PUB topic msg) (\<lambda>c. Inr (0, d\<lparr>ct_down := ct_down d @ [c]\<rparr>))"

definition nrm_role_controller_ops :: "(nrm_role_controller, 'f) nrm_role_ops" where
  "nrm_role_controller_ops = \<lparr>op_send = Some nrm_role_controller_send, op_recv = Some nrm_role_controller_recv,
     op_pub = Some nrm_role_controller_pub, op_register_sub_cb = None, op_sub = None, op_register_cmd_cb = None\<rparr>"

definition nrm_role_controller_create_fromparams ::
  "bool \<Rightarrow> bool \<Rightarrow> int list exec \<Rightarrow> (nrm_role_controller, 'f) nrm_role option exec" where
  "nrm_role_controller_create_fromparams malloc_ok zactor_ok broker =
     (if \<not> malloc_ok then Inr None
      else bindE broker (\<lambda>_.
        if \<not> zactor_ok then Inr None
        else Inr (Some \<lparr>role_ops = Some nrm_role_controller_ops,
                        role_data = \<lparr>ct_down = [], ct_up = [], ct_rpc = [], ct_pub = []\<rparr>\<rparr>)))"

text \<open>
  The two destructors; the first operand of \<open>nrm_role_controller_destroy\<close>'s test should be an or, so a NULL
  role is dereferenced.  \<open>nrm_role_destroy\<close> calls the one of the table.
\<close>

definition nrm_role_client_destroy :: "('d, 'f) nrm_role option option \<Rightarrow> ('d, 'f) nrm_role option option exec" where
  "nrm_role_client_destroy role =
     (case role of None \<Rightarrow> Inr None | Some None \<Rightarrow> Inr (Some None) | Some (Some _) \<Rightarrow> Inr (Some None))"

definition nrm_role_controller_destroy :: "('d, 'f) nrm_role option option \<Rightarrow> ('d, 'f) nrm_role option option exec" where
  "nrm_role_controller_destroy role =
     (case role of None \<Rightarrow> Inl NullDeref | Some None \<Rightarrow> Inl NullDeref | Some (Some _) \<Rightarrow> Inr (Some None))"

definition nrm_role_destroy ::
  "(('d, 'f) nrm_role option option \<Rightarrow> ('d, 'f) nrm_role option option exec) \<Rightarrow>
   ('d, 'f) nrm_role option option \<Rightarrow> ('d, 'f) nrm_role option option exec" where
  "nrm_role_destroy destroy role =
     bindE (derefE role) (\<lambda>r. case r of None \<Rightarrow> Inr role | Some _ \<Rightarrow> destroy role)"


section \<open>Turns of a broker's loop\<close>

text \<open>A zloop hands the waiting messages to the handler in order and ends at the first that returns -1.\<close>

fun zloop_run :: "('m \<Rightarrow> 's \<Rightarrow> (int \<times> 's) exec) \<Rightarrow> 'm list \<Rightarrow> 's \<Rightarrow> 's exec" where
  "zloop_run h [] s = Inr s"
| "zloop_run h (m # ms) s = bindE (h m s) (\<lambda>(rc, s). if rc = -1 then Inr s else zloop_run h ms s)"

text \<open>The client's broker empties its pipe.\<close>

definition client_broker_run :: "(nrm_msg \<Rightarrow> string) \<Rightarrow> 'f nrm_role_client \<Rightarrow> 'f nrm_role_client exec" where
  "client_broker_run pack d = zloop_run (nrm_client_broker_pipe_handler pack) (rc_down d) (d\<lparr>rc_down := []\<rparr>)"

definition controller_broker_run :: "(nrm_msg \<Rightarrow> string) \<Rightarrow> nrm_role_controller \<Rightarrow> nrm_role_controller exec" where
  "controller_broker_run pack d = zloop_run (nrm_controller_broker_pipe_handler pack) (ct_down d) (d\<lparr>ct_down := []\<rparr>)"

text \<open>Sending a list of requests, and receiving until the pipe is empty.\<close>

definition client_send_all :: "nrm_msg list \<Rightarrow> 'f nrm_role_client \<Rightarrow> 'f nrm_role_client exec" where
  "client_send_all ms d = foldE (\<lambda>m d. bindE (nrm_role_client_send d (Some m) None) (\<lambda>(_, d). Inr d)) ms d"

definition controller_send_all :: "(nrm_msg \<times> string) list \<Rightarrow> nrm_role_controller \<Rightarrow> nrm_role_controller exec" where
  "controller_send_all ms d = foldE (\<lambda>(m, to) d. bindE (nrm_role_controller_send d (Some m) (Some to)) (\<lambda>(_, d). Inr d)) ms d"

fun controller_recv_all :: "nat \<Rightarrow> nrm_role_controller \<Rightarrow> ((nrm_msg option \<times> string option) list \<times> nrm_role_controller) exec" where
  "controller_recv_all 0 d = Inr ([], d)"
| "controller_recv_all (Suc n) d =
     bindE (nrm_role_controller_recv d) (\<lambda>(m, from, d).
     bindE (controller_recv_all n d) (\<lambda>(ms, d). Inr ((m, from) # ms, d)))"

fun client_recv_all :: "nat \<Rightarrow> 'f nrm_role_client \<Rightarrow> (nrm_msg option list \<times> 'f nrm_role_client) exec" where
  "client_recv_all 0 d = Inr ([], d)"
| "client_recv_all (Suc n) d =
     bindE (nrm_role_client_recv d) (\<lambda>(m, _, d). bindE (client_recv_all n d) (\<lambda>(ms, d). Inr (m # ms, d)))"

lemma ctrl_strings:
  "nrm_ctrlmsg_t2s NRM_CTRLMSG_TYPE_SEND = Inr (Some ''SEND'')" "nrm_ctrlmsg_s2t ''SEND'' = NRM_CTRLMSG_TYPE_SEND"
  "nrm_ctrlmsg_t2s NRM_CTRLMSG_TYPE_RECV = Inr (Some ''RECV'')" "nrm_ctrlmsg_s2t ''RECV'' = NRM_CTRLMSG_TYPE_RECV"
  "nrm_ctrlmsg_t2s NRM_CTRLMSG_TYPE_PUB = Inr (Some ''PUB'')" "nrm_ctrlmsg_s2t ''PUB'' = NRM_CTRLMSG_TYPE_PUB"
  "nrm_ctrlmsg_t2s NRM_CTRLMSG_TYPE_SUB = Inr (Some ''SUB'')" "nrm_ctrlmsg_s2t ''SUB'' = NRM_CTRLMSG_TYPE_SUB"
  by (simp_all add: nrm_ctrlmsg_t2s_def nrm_ctrlmsg_s2t_def nrm_ctrlmsg_table_def ctrlmsg_types)

lemma client_send_eq:
  "nrm_role_client_send d (Some m) to = Inr (0, d\<lparr>rc_down := rc_down d @ [(''SEND'', PMsg m, ptr_of_uuid to)]\<rparr>)"
  by (simp add: nrm_role_client_send_def nrm_ctrlmsg_sendmsg_def nrm_ctrlmsg_send_def ctrl_strings ptr_of_msg_def)

lemma client_send_all_eq:
  "client_send_all ms d = Inr (d\<lparr>rc_down := rc_down d @ map (\<lambda>m. (''SEND'', PMsg m, PNull)) ms\<rparr>)"
  by (induction ms arbitrary: d) (simp_all add: client_send_all_def client_send_eq ptr_of_uuid_def)

lemma client_pipe_send_eq:
  assumes "msg_consistent m"
  shows "nrm_client_broker_pipe_handler pack (''SEND'', PMsg m, q) d = Inr (0, d\<lparr>rc_rpc := rc_rpc d @ [[[], pack m]]\<rparr>)"
  using destroy_created_ok [OF assms]
  by (simp add: nrm_client_broker_pipe_handler_def nrm_ctrlmsg_recv_def ctrl_strings msg_of_ptr_def nrm_msg_send_def
      nrm_msg_push_packed_frames_def)

lemma client_run_sends:
  "\<forall>m \<in> set ms. msg_consistent m \<Longrightarrow>
   zloop_run (nrm_client_broker_pipe_handler pack) (map (\<lambda>m. (''SEND'', PMsg m, PNull)) ms) d
     = Inr (d\<lparr>rc_rpc := rc_rpc d @ map (\<lambda>m. [[], pack m]) ms\<rparr>)"
  by (induction ms arbitrary: d) (simp_all add: client_pipe_send_eq)

lemma controller_rpc_eq:
  assumes "unpack (pack m) = Some m'"
  shows "nrm_controller_broker_rpc_handler unpack [ident, [], pack m] c
    = Inr (0, c\<lparr>ct_up := ct_up c @ [(''RECV'', PMsg m', PUuid ident)]\<rparr>)"
  using assms
  by (simp add: nrm_controller_broker_rpc_handler_def nrm_msg_recvfrom_def nrm_msg_pop_identity_def zmsg_pop_def
      nrm_msg_pop_packed_frames_def nrm_ctrlmsg_sendmsg_def nrm_ctrlmsg_send_def ctrl_strings ptr_of_msg_def ptr_of_uuid_def)

lemma controller_run_rpc:
  "\<forall>m \<in> set ms. unpack (pack m) = Some (canon m) \<Longrightarrow>
   zloop_run (nrm_controller_broker_rpc_handler unpack) (map (\<lambda>m. [ident, [], pack m]) ms) c
     = Inr (c\<lparr>ct_up := ct_up c @ map (\<lambda>m. (''RECV'', PMsg (canon m), PUuid ident)) ms\<rparr>)"
proof (induction ms arbitrary: c)
  case (Cons m ms)
  then show ?case using controller_rpc_eq [of unpack pack m "canon m" ident c] by simp
qed simp

lemma controller_recv_eq:
  "ct_up c = (''RECV'', PMsg m, PUuid u) # cs \<Longrightarrow> nrm_role_controller_recv c = Inr (Some m, Some u, c\<lparr>ct_up := cs\<rparr>)"
  by (simp add: nrm_role_controller_recv_def nrm_ctrlmsg_recvmsg_def nrm_ctrlmsg_recv_def ctrl_strings msg_of_ptr_def
      uuid_of_ptr_def)

lemma controller_recv_all_eq:
  "controller_recv_all (length ms) (c\<lparr>ct_up := map (\<lambda>m. (''RECV'', PMsg m, PUuid u)) ms\<rparr>)
     = Inr (map (\<lambda>m. (Some m, Some u)) ms, c\<lparr>ct_up := []\<rparr>)"
  by (induction ms) (simp_all add: controller_recv_eq)

lemma controller_send_eq:
  "nrm_role_controller_send d (Some m) (Some to) = Inr (0, d\<lparr>ct_down := ct_down d @ [(''SEND'', PMsg m, PUuid to)]\<rparr>)"
  by (simp add: nrm_role_controller_send_def nrm_ctrlmsg_sendmsg_def nrm_ctrlmsg_send_def ctrl_strings ptr_of_msg_def
      ptr_of_uuid_def)

lemma controller_send_all_eq:
  "controller_send_all ms d = Inr (d\<lparr>ct_down := ct_down d @ map (\<lambda>(m, to). (''SEND'', PMsg m, PUuid to)) ms\<rparr>)"
  by (induction ms arbitrary: d) (auto simp: controller_send_all_def controller_send_eq)

lemma controller_pipe_send_eq:
  assumes "msg_consistent m"
  shows "nrm_controller_broker_pipe_handler pack (''SEND'', PMsg m, PUuid to) d
    = Inr (0, d\<lparr>ct_rpc := ct_rpc d @ [[to, [], pack m]]\<rparr>)"
  using destroy_created_ok [OF assms]
  by (simp add: nrm_controller_broker_pipe_handler_def nrm_ctrlmsg_recv_def ctrl_strings msg_of_ptr_def uuid_of_ptr_def
      nrm_msg_sendto_def nrm_msg_push_identity_def nrm_msg_push_packed_frames_def ctrlmsg_types)

lemma controller_run_sends:
  "\<forall>(m, to) \<in> set ms. msg_consistent m \<Longrightarrow>
   zloop_run (nrm_controller_broker_pipe_handler pack) (map (\<lambda>(m, to). (''SEND'', PMsg m, PUuid to)) ms) d
     = Inr (d\<lparr>ct_rpc := ct_rpc d @ map (\<lambda>(m, to). [to, [], pack m]) ms\<rparr>)"
  by (induction ms arbitrary: d) (auto simp: controller_pipe_send_eq)

definition is_reply :: "nrm_msg \<Rightarrow> bool" where
  "is_reply m \<longleftrightarrow> msg_type m \<notin> {NRM_MSG_TYPE_ACTUATE, NRM_MSG_TYPE_TICK}"

lemma client_rpc_eq:
  assumes "unpack (pack m) = Some m'"
  shows "nrm_client_broker_rpc_handler unpack [[], pack m] d =
    Inr (0, if is_reply m' then d\<lparr>rc_up := rc_up d @ [(''RECV'', PMsg m', PNull)]\<rparr>
            else d\<lparr>rc_calls := rc_calls d @ (case rc_cmd_cb d of None \<Rightarrow> [] | Some f \<Rightarrow> [(f, Some m')])\<rparr>)"
  using assms
  by (auto simp: nrm_client_broker_rpc_handler_def nrm_msg_recv_def nrm_msg_pop_packed_frames_def zmsg_pop_def
      nrm_msg_is_reply_def is_reply_def nrm_ctrlmsg_sendmsg_def nrm_ctrlmsg_send_def ctrl_strings ptr_of_msg_def
      ptr_of_uuid_def split: option.splits)

lemma client_run_rpc:
  "\<forall>m \<in> set ms. unpack (pack m) = Some (canon m) \<Longrightarrow>
   zloop_run (nrm_client_broker_rpc_handler unpack) (map (\<lambda>m. [[], pack m]) ms) d
     = Inr (d\<lparr>rc_up := rc_up d @ map (\<lambda>m. (''RECV'', PMsg m, PNull)) (filter is_reply (map canon ms)),
         rc_calls := rc_calls d @ (case rc_cmd_cb d of None \<Rightarrow> []
            | Some f \<Rightarrow> map (\<lambda>m. (f, Some m)) (filter (\<lambda>m. \<not> is_reply m) (map canon ms)))\<rparr>)"
proof (induction ms arbitrary: d)
  case (Cons m ms)
  then show ?case using client_rpc_eq [of unpack pack m "canon m" d] by (auto split: option.splits)
qed (simp split: option.splits)

lemma client_recv_eq:
  "rc_up d = (''RECV'', PMsg m, PNull) # cs \<Longrightarrow> nrm_role_client_recv d = Inr (Some m, None, d\<lparr>rc_up := cs\<rparr>)"
  by (simp add: nrm_role_client_recv_def nrm_ctrlmsg_recvmsg_def nrm_ctrlmsg_recv_def ctrl_strings msg_of_ptr_def
      uuid_of_ptr_def)

lemma client_recv_all_eq:
  "rc_up d = map (\<lambda>m. (''RECV'', PMsg m, PNull)) ms \<Longrightarrow>
   client_recv_all (length ms) d = Inr (map Some ms, d\<lparr>rc_up := []\<rparr>)"
proof (induction ms arbitrary: d)
  case Nil
  then show ?case by (cases d) simp
next
  case (Cons m ms)
  then show ?case using Cons.IH [of "d\<lparr>rc_up := map (\<lambda>m. (''RECV'', PMsg m, PNull)) ms\<rparr>"] by (simp add: client_recv_eq)
qed


section \<open>Properties\<close>

text \<open>
  Requests arrive, in order and with the sender's identity: whatever list of messages a client
  sends, its broker turns them into frames without a fault; when the router puts the client's identity in front of each,
  the controller's broker passes them up, and receiving that many messages gives exactly them, in the order
  they were sent, each as protobuf-c unpacks it and each with the identity.
\<close>

theorem nrm_requests_in_order:
  assumes ok: "\<forall>m \<in> set ms. msg_consistent m \<and> unpack (pack m) = Some (canon m)"
    and idle: "rc_down d = []" "rc_rpc d = []" "ct_up c = []"
  shows "\<exists>d' c'. bindE (client_send_all ms d) (client_broker_run pack) = Inr d'
     \<and> zloop_run (nrm_controller_broker_rpc_handler unpack) (map (\<lambda>zm. ident # zm) (rc_rpc d')) c = Inr c'
     \<and> controller_recv_all (length ms) c' = Inr (map (\<lambda>m. (Some (canon m), Some ident)) ms, c)"
proof -
  have "bindE (client_send_all ms d) (client_broker_run pack) = Inr (d\<lparr>rc_down := [], rc_rpc := map (\<lambda>m. [[], pack m]) ms\<rparr>)"
    using ok idle client_run_sends [of ms pack "d\<lparr>rc_down := []\<rparr>"] by (simp add: client_send_all_eq client_broker_run_def)
  moreover have "zloop_run (nrm_controller_broker_rpc_handler unpack) (map (\<lambda>m. [ident, [], pack m]) ms) c
      = Inr (c\<lparr>ct_up := map (\<lambda>m. (''RECV'', PMsg m, PUuid ident)) (map canon ms)\<rparr>)"
    using ok idle controller_run_rpc [of ms unpack pack canon ident c] by (simp add: comp_def)
  ultimately show ?thesis
    using controller_recv_all_eq [of "map canon ms" ident c] idle by (simp add: comp_def)
qed

theorem nrm_requests_in_order_witness:
  "\<exists>d' c'. bindE (client_send_all [\<lparr>msg_type = NRM_MSG_TYPE_TICK, msg_data = DataNone\<rparr>]
         (nrm_role_client_new None :: unit nrm_role_client)) (client_broker_run (\<lambda>_. ''t'')) = Inr d'
     \<and> zloop_run (nrm_controller_broker_rpc_handler (\<lambda>_. Some \<lparr>msg_type = NRM_MSG_TYPE_TICK, msg_data = DataNone\<rparr>))
         (map (\<lambda>zm. ''me'' # zm) (rc_rpc d')) \<lparr>ct_down = [], ct_up = [], ct_rpc = [], ct_pub = []\<rparr> = Inr c'
     \<and> controller_recv_all 1 c' = Inr ([(Some \<lparr>msg_type = NRM_MSG_TYPE_TICK, msg_data = DataNone\<rparr>, Some ''me'')],
         \<lparr>ct_down = [], ct_up = [], ct_rpc = [], ct_pub = []\<rparr>)"
proof -
  let ?m = "\<lparr>msg_type = NRM_MSG_TYPE_TICK, msg_data = DataNone\<rparr>"
  have "\<forall>m \<in> set [?m]. msg_consistent m \<and> (\<lambda>_. Some ?m) ((\<lambda>_. ''t'') m) = Some (id m)"
    by (simp add: msg_consistent_def)
  then show ?thesis
    using nrm_requests_in_order [of "[?m]" "\<lambda>_. Some ?m" "\<lambda>_. ''t''" id "nrm_role_client_new None :: unit nrm_role_client"
      "\<lparr>ct_down = [], ct_up = [], ct_rpc = [], ct_pub = []\<rparr>" "''me''"]
    by (simp add: nrm_role_client_new_def)
qed

text \<open>
  Replies and commands are told apart: of the messages the controller sends to a client, the
  client's broker passes up exactly those that are replies, in order, where the API receives them, and hands
  the others (ACTUATE and TICK) in order to the command callback, or drops them when none is registered.
\<close>

theorem nrm_replies_in_order:
  assumes ok: "\<forall>m \<in> set ms. msg_consistent m \<and> unpack (pack m) = Some (canon m)"
    and idle: "ct_down c = []" "ct_rpc c = []" "rc_up d = []" "rc_calls d = []"
  shows "\<exists>c' d'. bindE (controller_send_all (map (\<lambda>m. (m, ident)) ms) c) (controller_broker_run pack) = Inr c'
     \<and> map hd (ct_rpc c') = replicate (length ms) ident
     \<and> zloop_run (nrm_client_broker_rpc_handler unpack) (map tl (ct_rpc c')) d = Inr d'
     \<and> rc_calls d' = (case rc_cmd_cb d of None \<Rightarrow> []
         | Some f \<Rightarrow> map (\<lambda>m. (f, Some m)) (filter (\<lambda>m. \<not> is_reply m) (map canon ms)))
     \<and> client_recv_all (length (filter is_reply (map canon ms))) d'
         = Inr (map Some (filter is_reply (map canon ms)), d'\<lparr>rc_up := []\<rparr>)"
proof -
  let ?r = "filter is_reply (map canon ms)"
  have "bindE (controller_send_all (map (\<lambda>m. (m, ident)) ms) c) (controller_broker_run pack)
      = Inr (c\<lparr>ct_down := [], ct_rpc := map (\<lambda>m. [ident, [], pack m]) ms\<rparr>)"
    using ok idle controller_run_sends [of "map (\<lambda>m. (m, ident)) ms" pack "c\<lparr>ct_down := []\<rparr>"]
    by (simp add: controller_send_all_eq controller_broker_run_def comp_def)
  moreover obtain d' where d': "zloop_run (nrm_client_broker_rpc_handler unpack) (map (\<lambda>m. [[], pack m]) ms) d = Inr d'"
    "d' = d\<lparr>rc_up := map (\<lambda>m. (''RECV'', PMsg m, PNull)) ?r, rc_calls := case rc_cmd_cb d of None \<Rightarrow> []
       | Some f \<Rightarrow> map (\<lambda>m. (f, Some m)) (filter (\<lambda>m. \<not> is_reply m) (map canon ms))\<rparr>"
    using ok idle client_run_rpc [of ms unpack pack canon d] by simp
  moreover have "client_recv_all (length ?r) d' = Inr (map Some ?r, d'\<lparr>rc_up := []\<rparr>)"
    by (rule client_recv_all_eq) (simp add: d'(2))
  moreover have "rc_calls d' = (case rc_cmd_cb d of None \<Rightarrow> []
      | Some f \<Rightarrow> map (\<lambda>m. (f, Some m)) (filter (\<lambda>m. \<not> is_reply m) (map canon ms)))"
    by (simp add: d'(2))
  ultimately show ?thesis using d'(1) by (simp add: comp_def map_replicate_const)
qed

theorem nrm_replies_in_order_witness:
  "\<exists>c' d'. bindE (controller_send_all [(\<lparr>msg_type = NRM_MSG_TYPE_ACK, msg_data = DataNone\<rparr>, ''me'')]
         \<lparr>ct_down = [], ct_up = [], ct_rpc = [], ct_pub = []\<rparr>) (controller_broker_run (\<lambda>_. ''a'')) = Inr c'
     \<and> zloop_run (nrm_client_broker_rpc_handler (\<lambda>_. Some \<lparr>msg_type = NRM_MSG_TYPE_ACK, msg_data = DataNone\<rparr>))
         (map tl (ct_rpc c')) (nrm_role_client_new None :: unit nrm_role_client) = Inr d'
     \<and> client_recv_all 1 d' = Inr ([Some \<lparr>msg_type = NRM_MSG_TYPE_ACK, msg_data = DataNone\<rparr>], d'\<lparr>rc_up := []\<rparr>)"
proof -
  let ?m = "\<lparr>msg_type = NRM_MSG_TYPE_ACK, msg_data = DataNone\<rparr>"
  have "\<forall>m \<in> set [?m]. msg_consistent m \<and> (\<lambda>_. Some ?m) ((\<lambda>_. ''a'') m) = Some (id m)"
    by (simp add: msg_consistent_def)
  moreover have "is_reply ?m" by (simp add: is_reply_def msg_types)
  ultimately show ?thesis
    using nrm_replies_in_order [of "[?m]" "\<lambda>_. Some ?m" "\<lambda>_. ''a''" id
      "\<lparr>ct_down = [], ct_up = [], ct_rpc = [], ct_pub = []\<rparr>" "nrm_role_client_new None :: unit nrm_role_client" "''me''"]
    by (auto simp: nrm_role_client_new_def)
qed

text \<open>
  A client role exists exactly when its broker is up: the creation returns a role if and only if
  the allocation, the actor and every step of the broker's start succeed; otherwise it returns NULL.  The
  error codes are those of net.c, within a byte, since they travel as one.
\<close>

theorem nrm_role_client_create_iff:
  assumes conn: "be_rpc_connect env = Inr e1" "be_sub_connect env = Inr e2"
    and byte: "\<forall>e \<in> {fst (be_rpc_init env), e1, fst (be_sub_init env), e2}. - 256 < e \<and> e < 256"
  shows "\<exists>role. nrm_role_client_create_fromparams malloc_ok zactor_ok env = Inr role
     \<and> (role \<noteq> None \<longleftrightarrow> malloc_ok \<and> zactor_ok \<and> be_calloc env \<and> fst (be_rpc_init env) = 0 \<and> e1 = 0
         \<and> fst (be_sub_init env) = 0 \<and> e2 = 0 \<and> be_loop env)"
proof -
  have "(- e) mod 256 = 0 \<longleftrightarrow> e = 0" if "- 256 < e" "e < 256" for e :: int
    using that by presburger
  then show ?thesis
    using conn byte by (auto simp: nrm_role_client_create_fromparams_def nrm_client_broker_fn_def)
qed

theorem nrm_role_client_create_iff_witness:
  "\<exists>role. nrm_role_client_create_fromparams True True
       \<lparr>be_calloc = True, be_rpc_init = (0, None), be_rpc_connect = Inr 0, be_sub_init = (0, None), be_sub_connect = Inr 0,
        be_loop = True\<rparr> = Inr role \<and> role \<noteq> (None :: (unit nrm_role_client, unit) nrm_role option)"
  using nrm_role_client_create_iff [of "\<lparr>be_calloc = True, be_rpc_init = (0, None), be_rpc_connect = Inr 0,
      be_sub_init = (0, None), be_sub_connect = Inr 0, be_loop = True\<rparr>" 0 0 True True] by auto

end
