(* ===== verification/NRM_Client.thy ===== *)
theory NRM_Client
  imports NRM_Role
begin

text \<open>
  The client API (src/client.c): every function of the library that talks to the daemon.

  A client holds its role and its two listeners.  A request is built, handed to the role under the
  lock, and its reply taken from the role under the lock again: \<open>client_send\<close> and
  \<open>client_recv\<close> are the two critical sections, each atomic, and nothing keeps another thread out between
  them.  A call of one thread alone is \<open>client_call\<close>.  The functions return their code, the
  client and the objects they change or build; log output is left out and allocations succeed.
\<close>

datatype client_fn = Client_sub_callback | Client_actuate_callback

record ('d, 'l) nrm_client =
  cl_role :: "('d, client_fn) nrm_role option"
  cl_user_fn :: "(string \<Rightarrow> nrm_time \<Rightarrow> nrm_scope option \<Rightarrow> double \<Rightarrow> 'l \<Rightarrow> 'l exec) option"
  cl_actuate_fn :: "(string \<Rightarrow> double \<Rightarrow> 'l \<Rightarrow> 'l exec) option"

definition nrm_client_create ::
  "bool \<Rightarrow> ('d, client_fn) nrm_role option \<Rightarrow> bool \<Rightarrow> string option \<Rightarrow> int \<times> ('d, 'l) nrm_client option" where
  "nrm_client_create calloc_ok role client_nonnull uri =
     (if \<not> client_nonnull \<or> uri = None then (- NRM_EINVAL, None)
      else if \<not> calloc_ok then (- NRM_ENOMEM, None)
      else if role = None then (- NRM_EINVAL, None)
      else (0, Some \<lparr>cl_role = role, cl_user_fn = None, cl_actuate_fn = None\<rparr>))"

definition client_send :: "nrm_msg option \<Rightarrow> ('d, 'l) nrm_client \<Rightarrow> ('d, 'l) nrm_client exec" where
  "client_send msg c = bindE (nrm_role_send (cl_role c) msg None) (\<lambda>(_, r). Inr (c\<lparr>cl_role := r\<rparr>))"

definition client_recv :: "('d, 'l) nrm_client \<Rightarrow> (nrm_msg option \<times> ('d, 'l) nrm_client) exec" where
  "client_recv c = bindE (nrm_role_recv (cl_role c)) (\<lambda>(m, _, r). Inr (m, c\<lparr>cl_role := r\<rparr>))"

definition client_call :: "nrm_msg option \<Rightarrow> ('d, 'l) nrm_client \<Rightarrow> (nrm_msg option \<times> ('d, 'l) nrm_client) exec" where
  "client_call msg c = bindE (client_send msg c) client_recv"

text \<open>The assertions on the three kinds of replies.\<close>

definition ack_reply :: "nrm_msg option \<Rightarrow> unit exec" where
  "ack_reply msg = bindE (derefE msg) (\<lambda>m. assertE (msg_type m = NRM_MSG_TYPE_ACK))"

definition add_reply :: "int \<Rightarrow> nrm_msg option \<Rightarrow> nrm_msg_add exec" where
  "add_reply target msg =
     bindE (derefE msg) (\<lambda>m.
     bindE (assertE (msg_type m = NRM_MSG_TYPE_ADD)) (\<lambda>_.
     bindE (msg_add m) (\<lambda>a. bindE (derefE a) (\<lambda>a.
     bindE (assertE (add_type a = target)) (\<lambda>_. Inr a)))))"

definition list_reply :: "int \<Rightarrow> nrm_msg option \<Rightarrow> nrm_msg_list exec" where
  "list_reply target msg =
     bindE (derefE msg) (\<lambda>m.
     bindE (assertE (msg_type m = NRM_MSG_TYPE_LIST)) (\<lambda>_.
     bindE (msg_list m) (\<lambda>l. bindE (derefE l) (\<lambda>l.
     bindE (assertE (list_type l = target)) (\<lambda>_. Inr l)))))"


section \<open>Actuation\<close>

definition nrm_client_actuate ::
  "('d, 'l) nrm_client option \<Rightarrow> nrm_actuator option \<Rightarrow> double \<Rightarrow> (int \<times> ('d, 'l) nrm_client option) exec" where
  "nrm_client_actuate client actuator value =
     (case (client, actuator) of
        (Some c, Some a) \<Rightarrow>
          bindE (nrm_actuator_validate_value (Some a) value) (\<lambda>err.
          if err \<noteq> 0 then Inr (err, client)
          else
            bindE (nrm_actuator_uuid actuator) (\<lambda>uuid.
            bindE (nrm_msg_set_actuate (filled NRM_MSG_TYPE_ACTUATE) uuid value) (\<lambda>(_, msg).
            bindE (client_call msg c) (\<lambda>(reply, c).
            bindE (ack_reply reply) (\<lambda>_. Inr (0, Some c))))))
      | _ \<Rightarrow> Inr (- NRM_EINVAL, client))"


section \<open>Additions\<close>

definition nrm_client_add_actuator ::
  "('d, 'l) nrm_client option \<Rightarrow> nrm_actuator option \<Rightarrow> (int \<times> ('d, 'l) nrm_client option \<times> nrm_actuator option) exec" where
  "nrm_client_add_actuator client actuator =
     (case (client, actuator) of
        (Some c, Some _) \<Rightarrow>
          bindE (nrm_msg_set_add_actuator (filled NRM_MSG_TYPE_ADD) actuator) (\<lambda>(_, msg).
          bindE (client_call msg c) (\<lambda>(reply, c).
          bindE (add_reply NRM_MSG_TARGET_TYPE_ACTUATOR reply) (\<lambda>add.
          bindE (add_actuator add) (\<lambda>x.
          bindE (nrm_actuator_update_frommsg actuator x) (\<lambda>(_, a). Inr (0, Some c, a))))))
      | _ \<Rightarrow> Inr (- NRM_EINVAL, client, actuator))"

definition nrm_client_add_scope ::
  "('d, 'l) nrm_client option \<Rightarrow> nrm_scope option \<Rightarrow> (int \<times> ('d, 'l) nrm_client option \<times> nrm_scope option) exec" where
  "nrm_client_add_scope client scope =
     (case (client, scope) of
        (Some c, Some _) \<Rightarrow>
          bindE (nrm_msg_set_add_scope (filled NRM_MSG_TYPE_ADD) scope) (\<lambda>(_, msg).
          bindE (client_call msg c) (\<lambda>(reply, c).
          bindE (add_reply NRM_MSG_TARGET_TYPE_SCOPE reply) (\<lambda>add.
          bindE (add_scope add) (\<lambda>x.
          bindE (nrm_scope_update_frommsg scope x) (\<lambda>(_, s). Inr (0, Some c, s))))))
      | _ \<Rightarrow> Inr (- NRM_EINVAL, client, scope))"

definition nrm_client_add_slice ::
  "('d, 'l) nrm_client option \<Rightarrow> nrm_slice option \<Rightarrow> (int \<times> ('d, 'l) nrm_client option \<times> nrm_slice option) exec" where
  "nrm_client_add_slice client sl =
     (case (client, sl) of
        (Some c, Some _) \<Rightarrow>
          bindE (nrm_msg_set_add_slice (filled NRM_MSG_TYPE_ADD) sl) (\<lambda>(_, msg).
          bindE (client_call msg c) (\<lambda>(reply, c).
          bindE (add_reply NRM_MSG_TARGET_TYPE_SLICE reply) (\<lambda>add.
          bindE (add_slice add) (\<lambda>x. Inr (0, Some c, snd (nrm_slice_update_frommsg sl x))))))
      | _ \<Rightarrow> Inr (- NRM_EINVAL, client, sl))"

definition nrm_client_add_sensor ::
  "('d, 'l) nrm_client option \<Rightarrow> nrm_sensor option \<Rightarrow> (int \<times> ('d, 'l) nrm_client option \<times> nrm_sensor option) exec" where
  "nrm_client_add_sensor client sensor =
     (case (client, sensor) of
        (Some c, Some _) \<Rightarrow>
          bindE (nrm_msg_set_add_sensor (filled NRM_MSG_TYPE_ADD) sensor) (\<lambda>(_, msg).
          bindE (client_call msg c) (\<lambda>(reply, c).
          bindE (add_reply NRM_MSG_TARGET_TYPE_SENSOR reply) (\<lambda>add.
          bindE (add_sensor add) (\<lambda>x. Inr (0, Some c, snd (nrm_sensor_update_frommsg sensor x))))))
      | _ \<Rightarrow> Inr (- NRM_EINVAL, client, sensor))"


section \<open>Lists and searches\<close>

text \<open>
  The vectors hold the pointers that the constructors return, so an entry may be NULL.  The search
  keeps the entries whose uuid compares equal.
\<close>

definition nrm_client_list_actuators ::
  "('d, 'l) nrm_client option \<Rightarrow> bool \<Rightarrow> (int \<times> ('d, 'l) nrm_client option \<times> nrm_actuator option list option) exec" where
  "nrm_client_list_actuators client nonnull =
     (case client of
        Some c \<Rightarrow>
          if \<not> nonnull then Inr (- NRM_EINVAL, client, None)
          else
            bindE (nrm_msg_set_list_actuators (filled NRM_MSG_TYPE_LIST) None) (\<lambda>(_, msg).
            bindE (client_call msg c) (\<lambda>(reply, c).
            bindE (list_reply NRM_MSG_TARGET_TYPE_ACTUATOR reply) (\<lambda>l.
            bindE (list_actuators l) (\<lambda>xs. bindE (derefE xs) (\<lambda>xs.
            bindE (mapE (\<lambda>x. nrm_actuator_create_frommsg (Some x)) xs) (\<lambda>ret. Inr (0, Some c, Some ret)))))))
      | None \<Rightarrow> Inr (- NRM_EINVAL, client, None))"

definition nrm_client_list_scopes ::
  "('d, 'l) nrm_client option \<Rightarrow> bool \<Rightarrow> (int \<times> ('d, 'l) nrm_client option \<times> nrm_scope option list option) exec" where
  "nrm_client_list_scopes client nonnull =
     (case client of
        Some c \<Rightarrow>
          if \<not> nonnull then Inr (- NRM_EINVAL, client, None)
          else
            bindE (nrm_msg_set_list_scopes (filled NRM_MSG_TYPE_LIST) None) (\<lambda>(_, msg).
            bindE (client_call msg c) (\<lambda>(reply, c).
            bindE (list_reply NRM_MSG_TARGET_TYPE_SCOPE reply) (\<lambda>l.
            bindE (list_scopes l) (\<lambda>xs. bindE (derefE xs) (\<lambda>xs.
            bindE (mapE (\<lambda>x. nrm_scope_create_frommsg (Some x)) xs) (\<lambda>ret. Inr (0, Some c, Some ret)))))))
      | None \<Rightarrow> Inr (- NRM_EINVAL, client, None))"

definition nrm_client_list_sensors ::
  "('d, 'l) nrm_client option \<Rightarrow> bool \<Rightarrow> (int \<times> ('d, 'l) nrm_client option \<times> nrm_sensor option list option) exec" where
  "nrm_client_list_sensors client nonnull =
     (case client of
        Some c \<Rightarrow>
          if \<not> nonnull then Inr (- NRM_EINVAL, client, None)
          else
            bindE (nrm_msg_set_list_sensors (filled NRM_MSG_TYPE_LIST) None) (\<lambda>(_, msg).
            bindE (client_call msg c) (\<lambda>(reply, c).
            bindE (list_reply NRM_MSG_TARGET_TYPE_SENSOR reply) (\<lambda>l.
            bindE (list_sensors l) (\<lambda>xs. bindE (derefE xs) (\<lambda>xs.
            Inr (0, Some c, Some (map (\<lambda>x. nrm_sensor_create_frommsg (Some x)) xs)))))))
      | None \<Rightarrow> Inr (- NRM_EINVAL, client, None))"

definition nrm_client_list_slices ::
  "('d, 'l) nrm_client option \<Rightarrow> bool \<Rightarrow> (int \<times> ('d, 'l) nrm_client option \<times> nrm_slice option list option) exec" where
  "nrm_client_list_slices client nonnull =
     (case client of
        Some c \<Rightarrow>
          if \<not> nonnull then Inr (- NRM_EINVAL, client, None)
          else
            bindE (nrm_msg_set_list_slices (filled NRM_MSG_TYPE_LIST) None) (\<lambda>(_, msg).
            bindE (client_call msg c) (\<lambda>(reply, c).
            bindE (list_reply NRM_MSG_TARGET_TYPE_SLICE reply) (\<lambda>l.
            bindE (list_slices l) (\<lambda>xs. bindE (derefE xs) (\<lambda>xs.
            Inr (0, Some c, Some (map (\<lambda>x. nrm_slice_create_frommsg (Some x)) xs)))))))
      | None \<Rightarrow> Inr (- NRM_EINVAL, client, None))"

datatype found =
  FoundActuators "nrm_actuator option list" | FoundScopes "nrm_scope option list"
  | FoundSensors "nrm_sensor option list" | FoundSlices "nrm_slice option list"

definition NRM_MSG_TARGET_TYPE_MAX :: int where "NRM_MSG_TARGET_TYPE_MAX = 4"

definition find_request :: "int \<Rightarrow> nrm_msg option exec" where
  "find_request type =
     (let msg = filled NRM_MSG_TYPE_LIST in
      bindE (if type = NRM_MSG_TARGET_TYPE_ACTUATOR then nrm_msg_set_list_actuators msg None
             else if type = NRM_MSG_TARGET_TYPE_SCOPE then nrm_msg_set_list_scopes msg None
             else if type = NRM_MSG_TARGET_TYPE_SENSOR then nrm_msg_set_list_sensors msg None
             else if type = NRM_MSG_TARGET_TYPE_SLICE then nrm_msg_set_list_slices msg None
             else Inl AssertFail) (\<lambda>(_, m). Inr m))"

definition find_results :: "int \<Rightarrow> string \<Rightarrow> nrm_msg_list \<Rightarrow> found exec" where
  "find_results type uuid l =
     (if type = NRM_MSG_TARGET_TYPE_ACTUATOR then
        bindE (list_actuators l) (\<lambda>xs. bindE (derefE xs) (\<lambda>xs.
        bindE (mapE (\<lambda>x. nrm_actuator_create_frommsg (Some x)) (filter (\<lambda>x. ma_uuid x = uuid) xs)) (\<lambda>r. Inr (FoundActuators r))))
      else if type = NRM_MSG_TARGET_TYPE_SCOPE then
        bindE (list_scopes l) (\<lambda>xs. bindE (derefE xs) (\<lambda>xs.
        bindE (mapE (\<lambda>x. nrm_scope_create_frommsg (Some x)) (filter (\<lambda>x. ms_uuid x = uuid) xs)) (\<lambda>r. Inr (FoundScopes r))))
      else if type = NRM_MSG_TARGET_TYPE_SENSOR then
        bindE (list_sensors l) (\<lambda>xs. bindE (derefE xs) (\<lambda>xs.
        Inr (FoundSensors (map (\<lambda>x. nrm_sensor_create_frommsg (Some x)) (filter (\<lambda>x. msn_uuid x = uuid) xs)))))
      else
        bindE (list_slices l) (\<lambda>xs. bindE (derefE xs) (\<lambda>xs.
        Inr (FoundSlices (map (\<lambda>x. nrm_slice_create_frommsg (Some x)) (filter (\<lambda>x. msl_uuid x = uuid) xs))))))"

definition nrm_client_find ::
  "('d, 'l) nrm_client option \<Rightarrow> int \<Rightarrow> string option \<Rightarrow> bool \<Rightarrow> (int \<times> ('d, 'l) nrm_client option \<times> found option) exec" where
  "nrm_client_find client type uuid results_nonnull =
     (case (client, uuid) of
        (Some c, Some u) \<Rightarrow>
          if type < 0 \<or> type \<ge> NRM_MSG_TARGET_TYPE_MAX then Inr (- NRM_EINVAL, client, None)
          else
            bindE (find_request type) (\<lambda>msg.
            bindE (list_reply type msg) (\<lambda>_.
            bindE (client_call msg c) (\<lambda>(reply, c).
            bindE (list_reply type reply) (\<lambda>l.
            bindE (find_results type u l) (\<lambda>r.
            if results_nonnull then Inr (0, Some c, Some r) else Inl NullDeref)))))
      | _ \<Rightarrow> Inr (- NRM_EINVAL, client, None))"


section \<open>Removals\<close>

text \<open>What the four removals share: the message names the target type and the uuid, the reply is an ACK.\<close>

definition client_remove :: "int \<Rightarrow> string \<Rightarrow> ('d, 'l) nrm_client \<Rightarrow> (int \<times> ('d, 'l) nrm_client option) exec" where
  "client_remove target uuid c =
     bindE (nrm_msg_set_remove (filled NRM_MSG_TYPE_REMOVE) target uuid) (\<lambda>(_, msg).
     bindE (client_call msg c) (\<lambda>(reply, c). bindE (ack_reply reply) (\<lambda>_. Inr (0, Some c))))"

definition nrm_client_remove_actuator ::
  "('d, 'l) nrm_client option \<Rightarrow> nrm_actuator option \<Rightarrow> (int \<times> ('d, 'l) nrm_client option) exec" where
  "nrm_client_remove_actuator client actuator =
     (case (client, actuator) of
        (Some c, Some a) \<Rightarrow> bindE (nrm_actuator_uuid (Some a)) (\<lambda>u. client_remove NRM_MSG_TARGET_TYPE_ACTUATOR u c)
      | _ \<Rightarrow> Inr (- NRM_EINVAL, client))"

definition nrm_client_remove_scope ::
  "('d, 'l) nrm_client option \<Rightarrow> nrm_scope option \<Rightarrow> (int \<times> ('d, 'l) nrm_client option) exec" where
  "nrm_client_remove_scope client scope =
     (case (client, scope) of
        (Some c, Some s) \<Rightarrow> client_remove NRM_MSG_TARGET_TYPE_SCOPE (scope_uuid s) c
      | _ \<Rightarrow> Inr (- NRM_EINVAL, client))"

definition nrm_client_remove_sensor ::
  "('d, 'l) nrm_client option \<Rightarrow> nrm_sensor option \<Rightarrow> (int \<times> ('d, 'l) nrm_client option) exec" where
  "nrm_client_remove_sensor client sensor =
     (case (client, sensor) of
        (Some c, Some s) \<Rightarrow> client_remove NRM_MSG_TARGET_TYPE_SENSOR (sensor_uuid s) c
      | _ \<Rightarrow> Inr (- NRM_EINVAL, client))"

definition nrm_client_remove_slice ::
  "('d, 'l) nrm_client option \<Rightarrow> nrm_slice option \<Rightarrow> (int \<times> ('d, 'l) nrm_client option) exec" where
  "nrm_client_remove_slice client sl =
     (case (client, sl) of
        (Some c, Some s) \<Rightarrow> client_remove NRM_MSG_TARGET_TYPE_SLICE (slice_uuid s) c
      | _ \<Rightarrow> Inr (- NRM_EINVAL, client))"


section \<open>Events, exit, tick\<close>

definition nrm_client_send_event ::
  "('d, 'l) nrm_client option \<Rightarrow> nrm_time \<Rightarrow> nrm_sensor option \<Rightarrow> nrm_scope option \<Rightarrow> double \<Rightarrow>
   (int \<times> ('d, 'l) nrm_client option) exec" where
  "nrm_client_send_event client time sensor scope value =
     (case (client, sensor, scope) of
        (Some c, Some n, Some _) \<Rightarrow>
          (case snd (nrm_timeserie_create True True (Some (sensor_uuid n)) scope) of
             None \<Rightarrow> Inl AssertFail
           | Some ts \<Rightarrow>
               bindE (derefE (snd (nrm_timeserie_add_event (Some ts) time value))) (\<lambda>ts.
               bindE (nrm_msg_set_events (filled NRM_MSG_TYPE_EVENTS) (Some [ts])) (\<lambda>(_, msg).
               bindE (client_send msg c) (\<lambda>c. Inr (0, Some c)))))
      | _ \<Rightarrow> Inr (- NRM_EINVAL, client))"

text \<open>The exit is not waited for, although the server acknowledges it.\<close>

definition nrm_client_send_exit :: "('d, 'l) nrm_client option \<Rightarrow> (int \<times> ('d, 'l) nrm_client option) exec" where
  "nrm_client_send_exit client =
     (case client of
        None \<Rightarrow> Inr (- NRM_EINVAL, client)
      | Some c \<Rightarrow> bindE (client_send (filled NRM_MSG_TYPE_EXIT) c) (\<lambda>c. Inr (0, Some c)))"

definition nrm_client_send_tick :: "('d, 'l) nrm_client option \<Rightarrow> (int \<times> ('d, 'l) nrm_client option) exec" where
  "nrm_client_send_tick client =
     (case client of
        None \<Rightarrow> Inr (- NRM_EINVAL, client)
      | Some c \<Rightarrow>
          bindE (client_call (filled NRM_MSG_TYPE_TICK) c) (\<lambda>(reply, c).
          bindE (ack_reply reply) (\<lambda>_. Inr (0, Some c))))"


section \<open>Listeners\<close>

definition client_sub_event ::
  "(string \<Rightarrow> nrm_time \<Rightarrow> nrm_scope option \<Rightarrow> double \<Rightarrow> 'l \<Rightarrow> 'l exec) \<Rightarrow> string \<Rightarrow> nrm_scope option \<Rightarrow> nrm_msg_event \<Rightarrow> 'l \<Rightarrow> 'l exec" where
  "client_sub_event fn uuid scope e l = fn uuid (nrm_time_fromns (me_time e)) scope (me_value e) l"

definition nrm_client_sub_callback :: "('d, 'l) nrm_client \<Rightarrow> nrm_msg option \<Rightarrow> 'l \<Rightarrow> (int \<times> 'l) exec" where
  "nrm_client_sub_callback self msg l =
     (case cl_user_fn self of
        None \<Rightarrow> Inr (0, l)
      | Some fn \<Rightarrow>
          bindE (derefE msg) (\<lambda>m. bindE (msg_events m) (\<lambda>ev. bindE (derefE ev) (\<lambda>series.
          bindE (foldE (\<lambda>ts l.
              bindE (nrm_scope_create_frommsg (mt_scope ts)) (\<lambda>scope.
              foldE (client_sub_event fn (mt_sensor_uuid ts) scope) (mt_events ts) l)) series l) (\<lambda>l. Inr (0, l))))))"

definition nrm_client_set_event_listener ::
  "('d, 'l) nrm_client option \<Rightarrow> (string \<Rightarrow> nrm_time \<Rightarrow> nrm_scope option \<Rightarrow> double \<Rightarrow> 'l \<Rightarrow> 'l exec) option \<Rightarrow>
   int \<times> ('d, 'l) nrm_client option" where
  "nrm_client_set_event_listener client fn =
     (case (client, fn) of
        (Some c, Some f) \<Rightarrow> (0, Some (c\<lparr>cl_user_fn := Some f\<rparr>))
      | _ \<Rightarrow> (- NRM_EINVAL, client))"

definition nrm_client_start_event_listener ::
  "('d, 'l) nrm_client option \<Rightarrow> string \<Rightarrow> (int \<times> ('d, 'l) nrm_client option) exec" where
  "nrm_client_start_event_listener client topic =
     (case client of
        None \<Rightarrow> Inr (- NRM_EINVAL, client)
      | Some c \<Rightarrow>
          bindE (nrm_role_sub (snd (nrm_role_register_sub_cb (cl_role c) (Some Client_sub_callback))) topic) (\<lambda>(_, r).
          Inr (0, Some (c\<lparr>cl_role := r\<rparr>))))"

definition nrm_client_actuate_callback :: "('d, 'l) nrm_client \<Rightarrow> nrm_msg option \<Rightarrow> 'l \<Rightarrow> (int \<times> 'l) exec" where
  "nrm_client_actuate_callback self msg l =
     (case cl_actuate_fn self of
        None \<Rightarrow> Inr (0, l)
      | Some fn \<Rightarrow>
          bindE (derefE msg) (\<lambda>m. bindE (msg_actuate m) (\<lambda>a. bindE (derefE a) (\<lambda>a.
          bindE (fn (actuate_uuid a) (actuate_value a) l) (\<lambda>l. Inr (0, l))))))"

definition nrm_client_set_actuate_listener ::
  "('d, 'l) nrm_client option \<Rightarrow> (string \<Rightarrow> double \<Rightarrow> 'l \<Rightarrow> 'l exec) option \<Rightarrow> int \<times> ('d, 'l) nrm_client option" where
  "nrm_client_set_actuate_listener client fn =
     (case (client, fn) of
        (Some c, Some f) \<Rightarrow> (0, Some (c\<lparr>cl_actuate_fn := Some f\<rparr>))
      | _ \<Rightarrow> (- NRM_EINVAL, client))"

definition nrm_client_start_actuate_listener ::
  "('d, 'l) nrm_client option \<Rightarrow> int \<times> ('d, 'l) nrm_client option" where
  "nrm_client_start_actuate_listener client =
     (case client of
        None \<Rightarrow> (- NRM_EINVAL, client)
      | Some c \<Rightarrow> (0, Some (c\<lparr>cl_role := snd (nrm_role_register_cmd_cb (cl_role c) (Some Client_actuate_callback))\<rparr>)))"

definition nrm_client_destroy :: "('d, 'l) nrm_client option option \<Rightarrow> ('d, 'l) nrm_client option option" where
  "nrm_client_destroy client =
     (case client of None \<Rightarrow> None | Some None \<Rightarrow> Some None | Some (Some _) \<Rightarrow> Some None)"

text \<open>The calls a client role recorded, executed on the client they were registered for.\<close>

fun run_calls :: "('d, 'l) nrm_client \<Rightarrow> (client_fn \<times> nrm_msg option) list \<Rightarrow> 'l \<Rightarrow> 'l exec" where
  "run_calls c [] l = Inr l"
| "run_calls c ((Client_sub_callback, m) # cs) l = bindE (nrm_client_sub_callback c m l) (\<lambda>(_, l). run_calls c cs l)"
| "run_calls c ((Client_actuate_callback, m) # cs) l = bindE (nrm_client_actuate_callback c m l) (\<lambda>(_, l). run_calls c cs l)"


section \<open>The client over a role that answers\<close>

text \<open>
  What a client relies on: after sending \<open>m\<close>, the next message the role gives back is the answer to it.
  \<open>serve m d = Some (r, d')\<close> says that a role in state \<open>d\<close> answers \<open>m\<close> with \<open>r\<close> and ends
  in \<open>d'\<close>.
\<close>

locale request_reply =
  fixes ops :: "('d, client_fn) nrm_role_ops" and serve :: "nrm_msg \<Rightarrow> 'd \<Rightarrow> (nrm_msg \<times> 'd) option"
  assumes send_recv: "serve m d = Some (r, d') \<Longrightarrow>
      \<exists>s g d1 from. op_send ops = Some s \<and> op_recv ops = Some g \<and> s d (Some m) None = Inr (0, d1) \<and> g d1 = Inr (Some r, from, d')"
begin

lemma call:
  assumes "cl_role c = Some \<lparr>role_ops = Some ops, role_data = d\<rparr>" and "serve m d = Some (r, d')"
  shows "client_call (Some m) c = Inr (Some r, c\<lparr>cl_role := Some \<lparr>role_ops = Some ops, role_data = d'\<rparr>\<rparr>)"
  using assms(1) send_recv [OF assms(2)]
  by (auto simp: client_call_def client_send_def client_recv_def nrm_role_send_def nrm_role_recv_def role_op_def)

lemma add_sensor:
  assumes "cl_role c = Some \<lparr>role_ops = Some ops, role_data = d\<rparr>"
    and "serve \<lparr>msg_type = NRM_MSG_TYPE_ADD, msg_data = DataAdd \<lparr>add_type = NRM_MSG_TARGET_TYPE_SENSOR,
        add_data = AddSensor \<lparr>msn_uuid = sensor_uuid n\<rparr>\<rparr>\<rparr> d
      = Some (\<lparr>msg_type = NRM_MSG_TYPE_ADD, msg_data = DataAdd \<lparr>add_type = NRM_MSG_TARGET_TYPE_SENSOR, add_data = AddSensor x\<rparr>\<rparr>, d')"
  shows "nrm_client_add_sensor (Some c) (Some n)
      = Inr (0, Some (c\<lparr>cl_role := Some \<lparr>role_ops = Some ops, role_data = d'\<rparr>\<rparr>), Some n)"
  using call [OF assms]
  by (simp add: nrm_client_add_sensor_def nrm_msg_set_add_sensor_def msg_set_def nrm_msg_add_new_def nrm_msg_sensor_new_def
      add_reply_def union_reads nrm_sensor_update_frommsg_def)

lemma list_sensors_all:
  assumes "cl_role c = Some \<lparr>role_ops = Some ops, role_data = d\<rparr>"
    and "serve \<lparr>msg_type = NRM_MSG_TYPE_LIST, msg_data = DataList \<lparr>list_type = NRM_MSG_TARGET_TYPE_SENSOR,
        list_data = ListSensors []\<rparr>\<rparr> d
      = Some (\<lparr>msg_type = NRM_MSG_TYPE_LIST, msg_data = DataList \<lparr>list_type = NRM_MSG_TARGET_TYPE_SENSOR, list_data = ListSensors xs\<rparr>\<rparr>, d')"
  shows "nrm_client_list_sensors (Some c) True
      = Inr (0, Some (c\<lparr>cl_role := Some \<lparr>role_ops = Some ops, role_data = d'\<rparr>\<rparr>), Some (map (\<lambda>x. Some \<lparr>sensor_uuid = msn_uuid x\<rparr>) xs))"
  using call [OF assms]
  by (simp add: nrm_client_list_sensors_def nrm_msg_set_list_sensors_def msg_set_def nrm_msg_list_new_def
      nrm_msg_sensorlist_new_def list_reply_def union_reads nrm_sensor_create_frommsg_def nrm_sensor_create_def)

lemma find_sensor:
  assumes "cl_role c = Some \<lparr>role_ops = Some ops, role_data = d\<rparr>"
    and "serve \<lparr>msg_type = NRM_MSG_TYPE_LIST, msg_data = DataList \<lparr>list_type = NRM_MSG_TARGET_TYPE_SENSOR,
        list_data = ListSensors []\<rparr>\<rparr> d
      = Some (\<lparr>msg_type = NRM_MSG_TYPE_LIST, msg_data = DataList \<lparr>list_type = NRM_MSG_TARGET_TYPE_SENSOR, list_data = ListSensors xs\<rparr>\<rparr>, d')"
  shows "nrm_client_find (Some c) NRM_MSG_TARGET_TYPE_SENSOR (Some u) True
      = Inr (0, Some (c\<lparr>cl_role := Some \<lparr>role_ops = Some ops, role_data = d'\<rparr>\<rparr>),
          Some (FoundSensors (map (\<lambda>x. Some \<lparr>sensor_uuid = u\<rparr>) (filter (\<lambda>x. msn_uuid x = u) xs))))"
proof -
  have req: "find_request NRM_MSG_TARGET_TYPE_SENSOR = Inr (Some \<lparr>msg_type = NRM_MSG_TYPE_LIST, msg_data = DataList
      \<lparr>list_type = NRM_MSG_TARGET_TYPE_SENSOR, list_data = ListSensors []\<rparr>\<rparr>)"
    by (simp add: find_request_def Let_def nrm_msg_set_list_sensors_def msg_set_def nrm_msg_list_new_def
        nrm_msg_sensorlist_new_def msg_targets)
  have res: "find_results NRM_MSG_TARGET_TYPE_SENSOR u \<lparr>list_type = NRM_MSG_TARGET_TYPE_SENSOR, list_data = ListSensors xs\<rparr>
      = Inr (FoundSensors (map (\<lambda>x. Some \<lparr>sensor_uuid = u\<rparr>) (filter (\<lambda>x. msn_uuid x = u) xs)))"
    by (simp add: find_results_def union_reads msg_targets nrm_sensor_create_frommsg_def nrm_sensor_create_def)
  have "0 \<le> NRM_MSG_TARGET_TYPE_SENSOR" "NRM_MSG_TARGET_TYPE_SENSOR < NRM_MSG_TARGET_TYPE_MAX"
    by (simp_all add: msg_targets NRM_MSG_TARGET_TYPE_MAX_def)
  then show ?thesis
    using call [OF assms] by (simp add: nrm_client_find_def req res list_reply_def union_reads)
qed

lemma actuate_ack:
  assumes "cl_role c = Some \<lparr>role_ops = Some ops, role_data = d\<rparr>" and "nrm_actuator_validate_value (Some a) v = Inr 0"
    and "serve \<lparr>msg_type = NRM_MSG_TYPE_ACTUATE, msg_data = DataActuate \<lparr>actuate_uuid = act_uuid a, actuate_value = v\<rparr>\<rparr> d
      = Some (\<lparr>msg_type = NRM_MSG_TYPE_ACK, msg_data = x\<rparr>, d')"
  shows "nrm_client_actuate (Some c) (Some a) v
      = Inr (0, Some (c\<lparr>cl_role := Some \<lparr>role_ops = Some ops, role_data = d'\<rparr>\<rparr>))"
  using call [OF assms(1,3)] assms(2)
  by (simp add: nrm_client_actuate_def nrm_actuator_uuid_def nrm_msg_set_actuate_def msg_set_def nrm_msg_actuate_new_def
      ack_reply_def)

lemma remove_ack:
  assumes "cl_role c = Some \<lparr>role_ops = Some ops, role_data = d\<rparr>"
    and "serve \<lparr>msg_type = NRM_MSG_TYPE_REMOVE, msg_data = DataRemove \<lparr>remove_type = t, remove_uuid = u\<rparr>\<rparr> d
      = Some (\<lparr>msg_type = NRM_MSG_TYPE_ACK, msg_data = x\<rparr>, d')"
  shows "client_remove t u c = Inr (0, Some (c\<lparr>cl_role := Some \<lparr>role_ops = Some ops, role_data = d'\<rparr>\<rparr>))"
  using call [OF assms]
  by (simp add: client_remove_def nrm_msg_set_remove_def nrm_msg_remove_new_def msg_set_def ack_reply_def)

end


section \<open>Properties\<close>

text \<open>
  A client never asks for an illegal value: when the actuator refuses the value,
  \<open>nrm_client_actuate\<close> returns the refusal's code and sends nothing, on any role and in any state.
  For a continuous actuator that is every value outside its limits, for a discrete one every value
  that is not a choice.
\<close>

theorem nrm_client_actuate_rejects:
  assumes wf: "actuator_wf a" and bad: "\<not> act_valid a v"
  shows "\<exists>err. err \<noteq> 0 \<and> nrm_client_actuate (Some c) (Some a) v = Inr (err, Some c)"
proof -
  have "\<exists>e. nrm_actuator_validate_value (Some a) v = Inr e"
    using wf by (cases rule: actuator_kinds)
      (auto simp: nrm_actuator_validate_value_def nrm_actuator_discrete_validate_value_def
        nrm_actuator_continuous_validate_value_def actuator_choices_def actuator_limits_def)
  then show ?thesis using bad by (auto simp: act_valid_def nrm_client_actuate_def)
qed

theorem nrm_client_actuate_rejects_witness:
  "\<exists>err. err \<noteq> 0 \<and> nrm_client_actuate (Some (\<lparr>cl_role = None, cl_user_fn = None, cl_actuate_fn = None\<rparr> :: (unit, unit) nrm_client))
     (Some (nrm_actuator_discrete_create ''a'')) (DFin 2) = Inr (err, Some \<lparr>cl_role = None, cl_user_fn = None, cl_actuate_fn = None\<rparr>)"
proof (rule nrm_client_actuate_rejects)
  show "actuator_wf (nrm_actuator_discrete_create ''a'')" by (rule actuator_wf_create)
  show "\<not> act_valid (nrm_actuator_discrete_create ''a'') (DFin 2)"
    by (simp add: nrm_actuator_discrete_create_def act_valid_discrete)
qed

text \<open>
  C31. The listener sees every published event: running the subscription callback on an EVENTS
  message of any number of series, each with any start time and a scope whose bits fit the bitmaps, calls the user's function
  once for each event of each series, in order, with the series' sensor, the
  scope rebuilt from the message and the event's time and value; without a listener nothing is called.
\<close>

theorem nrm_client_sub_callback_delivers:
  assumes wf: "\<forall>(u, s, start, es) \<in> set series. scope_wf s"
  shows "nrm_client_sub_callback c (Some \<lparr>msg_type = NRM_MSG_TYPE_EVENTS, msg_data = DataEvents
       (map (\<lambda>(u, s, start, es). \<lparr>mt_sensor_uuid = u, mt_scope = Some (scope_to_msg s), mt_start = start, mt_events = es\<rparr>) series)\<rparr>) l
     = (case cl_user_fn c of
          None \<Rightarrow> Inr (0, l)
        | Some fn \<Rightarrow> bindE (foldE (\<lambda>(u, s, e) l. fn u (nrm_time_fromns (me_time e)) (Some s) (me_value e) l)
            (concat (map (\<lambda>(u, s, start, es). map (\<lambda>e. (u, s, e)) es) series)) l) (\<lambda>l. Inr (0, l)))"
proof (cases "cl_user_fn c")
  case (Some fn)
  have one: "foldE (\<lambda>ts l. bindE (nrm_scope_create_frommsg (mt_scope ts)) (\<lambda>scope. foldE (client_sub_event fn (mt_sensor_uuid ts) scope) (mt_events ts) l))
        (map (\<lambda>(u, s, start, es). \<lparr>mt_sensor_uuid = u, mt_scope = Some (scope_to_msg s), mt_start = start, mt_events = es\<rparr>) series) l
      = foldE (\<lambda>x. foldE (client_sub_event fn (fst x) (Some (fst (snd x)))) (snd (snd (snd x)))) series l" for l
    unfolding foldE_map using wf by (intro foldE_cong) (auto simp: nrm_scope_create_frommsg_ok)
  have two: "foldE (\<lambda>x. foldE (client_sub_event fn (fst x) (Some (fst (snd x)))) (snd (snd (snd x)))) series l
      = foldE (\<lambda>(u, s, e) l. fn u (nrm_time_fromns (me_time e)) (Some s) (me_value e) l)
      (concat (map (\<lambda>(u, s, start, es). map (\<lambda>e. (u, s, e)) es) series)) l" for l
  proof -
    have "concat (map (\<lambda>(u, s, start, es). map (\<lambda>e. (u, s, e)) es) series)
        = map (\<lambda>(x, e). (fst x, fst (snd x), e)) (concat (map (\<lambda>x. map (Pair x) (snd (snd (snd x)))) series))"
      by (simp add: map_concat comp_def case_prod_unfold)
    then show ?thesis
      by (simp add: foldE_concat foldE_map client_sub_event_def [abs_def] case_prod_unfold)
  qed
  show ?thesis using Some by (simp add: nrm_client_sub_callback_def union_reads one two)
qed (simp add: nrm_client_sub_callback_def)

theorem nrm_client_sub_callback_delivers_witness:
  "nrm_client_sub_callback (\<lparr>cl_role = None, cl_user_fn = Some (\<lambda>u t s v l. Inr (l @ [(u, t, v)])), cl_actuate_fn = None\<rparr>
       :: (unit, (string \<times> nrm_time \<times> double) list) nrm_client)
     (Some \<lparr>msg_type = NRM_MSG_TYPE_EVENTS, msg_data = DataEvents
       [\<lparr>mt_sensor_uuid = ''s'', mt_scope = Some (scope_to_msg (nrm_scope_create ''c'')), mt_start = 7,
         mt_events = [\<lparr>me_time = 5, me_value = DFin 1\<rparr>, \<lparr>me_time = 7, me_value = DFin 2\<rparr>]\<rparr>]\<rparr>) []
   = Inr (0, [(''s'', \<lparr>tv_sec = 0, tv_nsec = 5\<rparr>, DFin 1), (''s'', \<lparr>tv_sec = 0, tv_nsec = 7\<rparr>, DFin 2)])"
proof -
  have wf: "\<forall>(u, s, start, es) \<in> set [(''s'', nrm_scope_create ''c'', 7 :: int, [\<lparr>me_time = 5, me_value = DFin 1\<rparr>, \<lparr>me_time = 7, me_value = DFin 2\<rparr>])]. scope_wf s"
    by (simp add: scope_wf_create)
  have t: "nrm_time_fromns 5 = \<lparr>tv_sec = 0, tv_nsec = 5\<rparr>" "nrm_time_fromns 7 = \<lparr>tv_sec = 0, tv_nsec = 7\<rparr>"
    by (simp_all add: nrm_time_fromns_def)
  show ?thesis
    using nrm_client_sub_callback_delivers [OF wf, of "\<lparr>cl_role = None, cl_user_fn = Some (\<lambda>u t s v l. Inr (l @ [(u, t, v)])), cl_actuate_fn = None\<rparr>
       :: (unit, (string \<times> nrm_time \<times> double) list) nrm_client" "[]"] t by simp
qed

end
