(* ===== verification/NRM_System.thy ===== *)
theory NRM_System
  imports NRM_Server NRM_Client
begin

text \<open>
  A client and the daemon, connected: the request goes from the API through the client's pipe, its
  broker, the sockets, the controller's broker and its pipe to the server's handler, and the messages the
  server sends come back the same way.

  \<open>settle\<close> runs every thread until nothing is left to do; the router socket puts the sender's identity
  in front of what it receives and routes what is sent by its first frame, as zmq documents, so messages for
  other clients leave the system.  \<open>system_ops\<close> is the client role's table with the network settled after
  each send.  A server that returned -1 handles nothing more.  \<open>serve\<close> is what the
  API sees of all this, and the interpretation of the locale \<open>request_reply\<close> shows that the whole path
  implements it.
\<close>

record 'u sys_env =
  se_pack :: "nrm_msg \<Rightarrow> string"
  se_unpack :: "string \<Rightarrow> nrm_msg option"
  se_cb :: "'u nrm_server_user_callbacks"
  se_raw :: string
  se_ident :: string

record 'u nrm_system =
  sys_client :: "client_fn nrm_role_client"
  sys_ctrl :: nrm_role_controller
  sys_server :: "'u nrm_server"
  sys_running :: bool

text \<open>The messages a handler of the server hands to the controller role.\<close>

definition controller_out :: "server_out list \<Rightarrow> nrm_role_controller \<Rightarrow> nrm_role_controller exec" where
  "controller_out = foldE (\<lambda>x d. case x of
      OSend m to \<Rightarrow> bindE (nrm_role_controller_send d (Some m) to) (\<lambda>(_, d). Inr d)
    | OPub t m \<Rightarrow> bindE (nrm_role_controller_pub d t (Some m)) (\<lambda>(_, d). Inr d))"

definition server_turn :: "'u sys_env \<Rightarrow> 'u nrm_system \<Rightarrow> 'u nrm_system exec" where
  "server_turn env sys =
     (if \<not> sys_running sys then Inr sys
      else
        bindE (nrm_role_controller_recv (sys_ctrl sys)) (\<lambda>(m, from, ct).
        bindE (nrm_server_role_callback (se_cb env) (se_raw env) m from (sys_server sys)) (\<lambda>(rc, srv).
        bindE (controller_out (drop (length (srv_out (sys_server sys))) (srv_out srv)) ct) (\<lambda>ct.
        Inr (sys\<lparr>sys_ctrl := ct, sys_server := srv, sys_running := (rc \<noteq> -1)\<rparr>)))))"

fun server_turns :: "nat \<Rightarrow> 'u sys_env \<Rightarrow> 'u nrm_system \<Rightarrow> 'u nrm_system exec" where
  "server_turns 0 env sys = Inr sys"
| "server_turns (Suc n) env sys = bindE (server_turn env sys) (server_turns n env)"

definition settle :: "'u sys_env \<Rightarrow> 'u nrm_system \<Rightarrow> 'u nrm_system exec" where
  "settle env sys =
     bindE (client_broker_run (se_pack env) (sys_client sys)) (\<lambda>cl.
     bindE (zloop_run (nrm_controller_broker_rpc_handler (se_unpack env)) (map (\<lambda>zm. se_ident env # zm) (rc_rpc cl)) (sys_ctrl sys)) (\<lambda>ct.
     bindE (server_turns (length (ct_up ct)) env (sys\<lparr>sys_ctrl := ct\<rparr>)) (\<lambda>sys.
     bindE (controller_broker_run (se_pack env) (sys_ctrl sys)) (\<lambda>ct.
     bindE (zloop_run (nrm_client_broker_rpc_handler (se_unpack env))
              (map tl (filter (\<lambda>zm. hd zm = se_ident env) (ct_rpc ct))) (cl\<lparr>rc_rpc := []\<rparr>)) (\<lambda>cl.
     Inr (sys\<lparr>sys_client := cl, sys_ctrl := ct\<lparr>ct_rpc := []\<rparr>\<rparr>))))))"

definition system_send ::
  "'u sys_env \<Rightarrow> 'u nrm_system \<Rightarrow> nrm_msg option \<Rightarrow> string option \<Rightarrow> (int \<times> 'u nrm_system) exec" where
  "system_send env sys msg to =
     bindE (nrm_role_client_send (sys_client sys) msg to) (\<lambda>(rc, cl).
     bindE (settle env (sys\<lparr>sys_client := cl\<rparr>)) (\<lambda>sys. Inr (rc, sys)))"

definition system_recv :: "'u nrm_system \<Rightarrow> (nrm_msg option \<times> string option \<times> 'u nrm_system) exec" where
  "system_recv sys = bindE (nrm_role_client_recv (sys_client sys)) (\<lambda>(m, from, cl). Inr (m, from, sys\<lparr>sys_client := cl\<rparr>))"

definition system_ops :: "'u sys_env \<Rightarrow> ('u nrm_system, client_fn) nrm_role_ops" where
  "system_ops env = \<lparr>op_send = Some (system_send env), op_recv = Some system_recv, op_pub = None,
     op_register_sub_cb = None, op_sub = None, op_register_cmd_cb = None\<rparr>"

text \<open>Nothing under way between the threads; replies may be waiting for the API.\<close>

definition quiet :: "'u nrm_system \<Rightarrow> bool" where
  "quiet sys \<longleftrightarrow> rc_down (sys_client sys) = [] \<and> rc_rpc (sys_client sys) = []
     \<and> ct_down (sys_ctrl sys) = [] \<and> ct_up (sys_ctrl sys) = [] \<and> ct_rpc (sys_ctrl sys) = []"

definition passes :: "'u sys_env \<Rightarrow> nrm_msg \<Rightarrow> bool" where
  "passes env m \<longleftrightarrow> msg_consistent m \<and> se_unpack env (se_pack env m) = Some m"

text \<open>
  The server's answer to one request, when the request and the messages it causes survive packing: the last of
  these is the reply, those before it are for other clients.
\<close>

definition for_other :: "'u sys_env \<Rightarrow> server_out \<Rightarrow> bool" where
  "for_other env x = (case x of OSend m (Some to) \<Rightarrow> to \<noteq> se_ident env \<and> passes env m | _ \<Rightarrow> False)"

definition respond :: "'u sys_env \<Rightarrow> nrm_msg \<Rightarrow> 'u nrm_system \<Rightarrow> (nrm_msg \<times> 'u nrm_system) option" where
  "respond env m sys =
     (if \<not> (quiet sys \<and> sys_running sys \<and> passes env m) then None
      else case nrm_server_role_callback (se_cb env) (se_raw env) (Some m) (Some (se_ident env)) (sys_server sys) of
        Inl _ \<Rightarrow> None
      | Inr (rc, srv) \<Rightarrow>
          (case rev (drop (length (srv_out (sys_server sys))) (srv_out srv)) of
             OSend r (Some to) # others \<Rightarrow>
               if to = se_ident env \<and> passes env r \<and> is_reply r \<and> list_all (for_other env) others
               then Some (r, sys\<lparr>sys_server := srv, sys_running := (rc \<noteq> -1)\<rparr>) else None
           | _ \<Rightarrow> None))"

definition serve :: "'u sys_env \<Rightarrow> nrm_msg \<Rightarrow> 'u nrm_system \<Rightarrow> (nrm_msg \<times> 'u nrm_system) option" where
  "serve env m sys = (if rc_up (sys_client sys) = [] then respond env m sys else None)"


section \<open>The path implements the answer\<close>

lemma controller_out_eq:
  "controller_out (map (\<lambda>(x, to). OSend x (Some to)) ms) d
     = Inr (d\<lparr>ct_down := ct_down d @ map (\<lambda>(m, to). (''SEND'', PMsg m, PUuid to)) ms\<rparr>)"
  by (induction ms arbitrary: d) (auto simp: controller_out_def controller_send_eq)

lemma for_others:
  "list_all (for_other env) os \<Longrightarrow>
   \<exists>ms. os = map (\<lambda>(x, to). OSend x (Some to)) ms \<and> (\<forall>(x, to) \<in> set ms. to \<noteq> se_ident env \<and> passes env x)"
proof (induction os)
  case (Cons x xs)
  then obtain ms where ms: "xs = map (\<lambda>(x, to). OSend x (Some to)) ms" "\<forall>(x, to) \<in> set ms. to \<noteq> se_ident env \<and> passes env x"
    by auto
  from Cons.prems obtain m to where "x = OSend m (Some to)" "to \<noteq> se_ident env" "passes env m"
    by (auto simp: for_other_def split: server_out.splits option.splits)
  with ms show ?case by (intro exI [of _ "(m, to) # ms"]) auto
qed simp

lemma respondE:
  assumes "respond env m sys = Some (r, sys')"
  obtains rc srv ms where "quiet sys" "sys_running sys" "passes env m" "passes env r" "is_reply r"
    "nrm_server_role_callback (se_cb env) (se_raw env) (Some m) (Some (se_ident env)) (sys_server sys) = Inr (rc, srv)"
    "drop (length (srv_out (sys_server sys))) (srv_out srv) = map (\<lambda>(x, to). OSend x (Some to)) (ms @ [(r, se_ident env)])"
    "\<forall>(x, to) \<in> set ms. to \<noteq> se_ident env \<and> passes env x"
    "sys' = sys\<lparr>sys_server := srv, sys_running := (rc \<noteq> -1)\<rparr>"
proof -
  obtain rc srv others where f: "quiet sys" "sys_running sys" "passes env m" "passes env r" "is_reply r"
    "nrm_server_role_callback (se_cb env) (se_raw env) (Some m) (Some (se_ident env)) (sys_server sys) = Inr (rc, srv)"
    "rev (drop (length (srv_out (sys_server sys))) (srv_out srv)) = OSend r (Some (se_ident env)) # others"
    "list_all (for_other env) others" "sys' = sys\<lparr>sys_server := srv, sys_running := (rc \<noteq> -1)\<rparr>"
    using assms
    by (auto simp: respond_def split: if_splits sum.splits prod.splits list.splits server_out.splits option.splits)
  have "list_all (for_other env) (rev others)" using f(8) by (simp add: list_all_iff)
  from for_others [OF this] obtain ms where ms: "rev others = map (\<lambda>(x, to). OSend x (Some to)) ms"
    "\<forall>(x, to) \<in> set ms. to \<noteq> se_ident env \<and> passes env x" by blast
  have "drop (length (srv_out (sys_server sys))) (srv_out srv) = rev (OSend r (Some (se_ident env)) # others)"
    using f(7) by (metis rev_rev_ident)
  with ms(1) have "drop (length (srv_out (sys_server sys))) (srv_out srv)
      = map (\<lambda>(x, to). OSend x (Some to)) (ms @ [(r, se_ident env)])" by simp
  from that [OF f(1-6) this ms(2) f(9)] show thesis .
qed

lemma own_frames:
  assumes "\<forall>(x, to) \<in> set ms. to \<noteq> i"
  shows "map tl (filter (\<lambda>zm. hd zm = i) (map (\<lambda>(m, to). [to, [], pack m]) (ms @ [(r, i)]))) = [[[], pack r]]"
  using assms by (induction ms) auto

lemma settle_responds:
  assumes s: "respond env m sys = Some (r, sys')"
  shows "settle env (sys\<lparr>sys_client := (sys_client sys)\<lparr>rc_down := [(''SEND'', PMsg m, PNull)]\<rparr>\<rparr>)
    = Inr (sys'\<lparr>sys_client := (sys_client sys)\<lparr>rc_up := rc_up (sys_client sys) @ [(''RECV'', PMsg r, PNull)]\<rparr>\<rparr>)"
proof -
  obtain rc srv ms where quiet: "quiet sys" and run: "sys_running sys" and m: "passes env m" and r: "passes env r" "is_reply r"
    and h: "nrm_server_role_callback (se_cb env) (se_raw env) (Some m) (Some (se_ident env)) (sys_server sys) = Inr (rc, srv)"
    and out: "drop (length (srv_out (sys_server sys))) (srv_out srv) = map (\<lambda>(x, to). OSend x (Some to)) (ms @ [(r, se_ident env)])"
    and others: "\<forall>(x, to) \<in> set ms. to \<noteq> se_ident env \<and> passes env x"
    and sys': "sys' = sys\<lparr>sys_server := srv, sys_running := (rc \<noteq> -1)\<rparr>"
    by (rule respondE [OF s])
  let ?ct = "(sys_ctrl sys)\<lparr>ct_up := [], ct_down := map (\<lambda>(m, to). (''SEND'', PMsg m, PUuid to)) (ms @ [(r, se_ident env)])\<rparr>"
  let ?cl = "(sys_client sys)\<lparr>rc_down := [], rc_rpc := [[[], se_pack env m]]\<rparr>"
  have cl: "client_broker_run (se_pack env) ((sys_client sys)\<lparr>rc_down := [(''SEND'', PMsg m, PNull)]\<rparr>) = Inr ?cl"
    using quiet m by (simp add: client_broker_run_def client_pipe_send_eq passes_def quiet_def)
  have ct: "zloop_run (nrm_controller_broker_rpc_handler (se_unpack env)) [[se_ident env, [], se_pack env m]] (sys_ctrl sys)
      = Inr ((sys_ctrl sys)\<lparr>ct_up := [(''RECV'', PMsg m, PUuid (se_ident env))]\<rparr>)"
    using quiet m controller_rpc_eq [of "se_unpack env" "se_pack env" m m "se_ident env" "sys_ctrl sys"]
    by (simp add: passes_def quiet_def)
  have turn: "server_turn env (sys\<lparr>sys_client := x, sys_ctrl := (sys_ctrl sys)\<lparr>ct_up := [(''RECV'', PMsg m, PUuid (se_ident env))]\<rparr>\<rparr>)
      = Inr (sys'\<lparr>sys_client := x, sys_ctrl := ?ct\<rparr>)" for x
    using quiet run h out sys' controller_out_eq [of "ms @ [(r, se_ident env)]" "(sys_ctrl sys)\<lparr>ct_up := []\<rparr>"]
    by (simp add: server_turn_def controller_recv_eq quiet_def)
  have sent: "controller_broker_run (se_pack env) ?ct
      = Inr ((sys_ctrl sys)\<lparr>ct_up := [], ct_down := [], ct_rpc := map (\<lambda>(m, to). [to, [], se_pack env m]) (ms @ [(r, se_ident env)])\<rparr>)"
    using quiet others r controller_run_sends [of "ms @ [(r, se_ident env)]" "se_pack env" "?ct\<lparr>ct_down := []\<rparr>"]
    by (fastforce simp: controller_broker_run_def quiet_def passes_def)
  have up: "zloop_run (nrm_client_broker_rpc_handler (se_unpack env)) [[[], se_pack env r]] (?cl\<lparr>rc_rpc := []\<rparr>)
      = Inr ((sys_client sys)\<lparr>rc_down := [], rc_rpc := [], rc_up := rc_up (sys_client sys) @ [(''RECV'', PMsg r, PNull)]\<rparr>)"
    using quiet r client_rpc_eq [of "se_unpack env" "se_pack env" r r "?cl\<lparr>rc_rpc := []\<rparr>"]
    by (simp add: passes_def quiet_def)
  have own: "map tl (filter (\<lambda>zm. hd zm = se_ident env) (map (\<lambda>(m, to). [to, [], se_pack env m]) (ms @ [(r, se_ident env)])))
      = [[[], se_pack env r]]"
    by (rule own_frames) (use others in auto)
  have clid: "(sys_client sys)\<lparr>rc_down := [], rc_rpc := [], rc_up := v\<rparr> = (sys_client sys)\<lparr>rc_up := v\<rparr>"
    and ctid: "(sys_ctrl sys)\<lparr>ct_up := [], ct_down := [], ct_rpc := []\<rparr> = sys_ctrl sys" for v
    using quiet by (cases "sys_client sys"; cases "sys_ctrl sys"; simp add: quiet_def)+
  show ?thesis
    using cl ct turn sent up own clid ctid sys'
    by (simp add: settle_def)
qed

lemma system_send_responds:
  assumes "respond env m sys = Some (r, sys')"
  shows "system_send env sys (Some m) None
    = Inr (0, sys'\<lparr>sys_client := (sys_client sys)\<lparr>rc_up := rc_up (sys_client sys) @ [(''RECV'', PMsg r, PNull)]\<rparr>\<rparr>)"
proof -
  have "quiet sys" by (rule respondE [OF assms])
  then show ?thesis
    using settle_responds [OF assms] by (simp add: system_send_def client_send_eq ptr_of_uuid_def quiet_def)
qed

interpretation sysrr: request_reply "system_ops env" "serve env"
proof
  fix m d r d' assume "serve env m d = Some (r, d')"
  then have s: "respond env m d = Some (r, d')" and u: "rc_up (sys_client d) = []"
    by (auto simp: serve_def split: if_splits)
  from s have c: "sys_client d' = sys_client d" by (auto elim: respondE)
  have "system_recv (d'\<lparr>sys_client := (sys_client d)\<lparr>rc_up := [(''RECV'', PMsg r, PNull)]\<rparr>\<rparr>) = Inr (Some r, None, d')"
    using c u by (cases d'; cases "sys_client d") (simp add: system_recv_def client_recv_eq)
  then show "\<exists>s g d1 from. op_send (system_ops env) = Some s \<and> op_recv (system_ops env) = Some g
      \<and> s d (Some m) None = Inr (0, d1) \<and> g d1 = Inr (Some r, from, d')"
    using system_send_responds [OF s] u by (auto simp: system_ops_def)
qed


section \<open>Answers to the requests of the API\<close>

abbreviation connected :: "'u sys_env \<Rightarrow> 'u nrm_system \<Rightarrow> ('u nrm_system, client_fn) nrm_role option" where
  "connected env sys \<equiv> Some \<lparr>role_ops = Some (system_ops env), role_data = sys\<rparr>"

definition add_sensor_msg :: "string \<Rightarrow> nrm_msg" where
  "add_sensor_msg u = \<lparr>msg_type = NRM_MSG_TYPE_ADD, msg_data = DataAdd \<lparr>add_type = NRM_MSG_TARGET_TYPE_SENSOR,
     add_data = AddSensor \<lparr>msn_uuid = u\<rparr>\<rparr>\<rparr>"

definition list_sensors_msg :: "string list \<Rightarrow> nrm_msg" where
  "list_sensors_msg us = \<lparr>msg_type = NRM_MSG_TYPE_LIST, msg_data = DataList \<lparr>list_type = NRM_MSG_TARGET_TYPE_SENSOR,
     list_data = ListSensors (map (\<lambda>u. \<lparr>msn_uuid = u\<rparr>) us)\<rparr>\<rparr>"

definition actuate_msg :: "string \<Rightarrow> double \<Rightarrow> nrm_msg" where
  "actuate_msg u v = \<lparr>msg_type = NRM_MSG_TYPE_ACTUATE, msg_data = DataActuate \<lparr>actuate_uuid = u, actuate_value = v\<rparr>\<rparr>"

definition ack_msg :: nrm_msg where
  "ack_msg = \<lparr>msg_type = NRM_MSG_TYPE_ACK, msg_data = DataNone\<rparr>"

definition tick_msg :: nrm_msg where
  "tick_msg = \<lparr>msg_type = NRM_MSG_TYPE_TICK, msg_data = DataNone\<rparr>"

lemmas api_msgs = add_sensor_msg_def list_sensors_msg_def actuate_msg_def ack_msg_def tick_msg_def

lemma api_consistent [simp]:
  "msg_consistent (add_sensor_msg u)" "msg_consistent (list_sensors_msg us)" "msg_consistent (actuate_msg u v)"
  "msg_consistent ack_msg" "msg_consistent tick_msg"
  by (simp_all add: api_msgs msg_consistent_def add_consistent_def list_consistent_def)

lemma api_replies [simp]: "is_reply (add_sensor_msg u)" "is_reply (list_sensors_msg us)" "is_reply ack_msg"
  by (simp_all add: api_msgs is_reply_def msg_types)

text \<open>The uuids of the sensors once \<open>u\<close> was added.\<close>

definition sensors_with :: "string \<Rightarrow> nrm_state \<Rightarrow> string list" where
  "sensors_with u st = map fst (st_sensors st) @ (if map_of (st_sensors st) u = None then [u] else [])"

lemma respondI:
  assumes "quiet sys" and "sys_running sys" and "passes env m" and "passes env r" and "is_reply r"
    and "nrm_server_role_callback (se_cb env) (se_raw env) (Some m) (Some (se_ident env)) (sys_server sys) = Inr (rc, srv)"
    and "srv_out srv = srv_out (sys_server sys) @ os @ [OSend r (Some (se_ident env))]" and "list_all (for_other env) os"
  shows "respond env m sys = Some (r, sys\<lparr>sys_server := srv, sys_running := (rc \<noteq> -1)\<rparr>)"
  using assms by (simp add: respond_def list_all_iff)

lemma respond_add_sensor:
  assumes "quiet sys" and "sys_running sys" and "passes env (add_sensor_msg u)"
  shows "\<exists>sys'. respond env (add_sensor_msg u) sys = Some (add_sensor_msg u, sys') \<and> quiet sys' \<and> sys_running sys'
    \<and> sys_client sys' = sys_client sys \<and> (server_wf (sys_server sys) \<longrightarrow> server_wf (sys_server sys'))
    \<and> map fst (st_sensors (srv_state (sys_server sys'))) = sensors_with u (srv_state (sys_server sys))"
proof -
  let ?s = "sys_server sys" and ?i = "Some (se_ident env)"
  obtain srv where r: "nrm_server_add_callback ?i (Some \<lparr>add_type = NRM_MSG_TARGET_TYPE_SENSOR, add_data = AddSensor \<lparr>msn_uuid = u\<rparr>\<rparr>) ?s
      = Inr (0, srv)" and o: "srv_out srv = srv_out ?s @ [OSend (add_sensor_msg u) ?i]"
    and st: "map fst (st_sensors (srv_state srv)) = sensors_with u (srv_state ?s)"
    by (auto simp: add_sensor_reply sensors_with_def add_sensor_msg_def)
  have "nrm_server_role_callback (se_cb env) (se_raw env) (Some (add_sensor_msg u)) ?i ?s = Inr (0, srv)"
    using r by (simp add: add_sensor_msg_def role_callback_dispatch)
  then have "respond env (add_sensor_msg u) sys = Some (add_sensor_msg u, sys\<lparr>sys_server := srv, sys_running := True\<rparr>)"
    using respondI [of sys env "add_sensor_msg u" "add_sensor_msg u" 0 srv "[]"] assms o
    by simp
  then show ?thesis using assms st add_callback_wf [OF r] by (simp add: quiet_def)
qed

lemma respond_list_sensors:
  assumes "quiet sys" and "sys_running sys" and wf: "server_wf (sys_server sys)"
    and "passes env (list_sensors_msg us)" and "passes env (list_sensors_msg (map fst (st_sensors (srv_state (sys_server sys)))))"
  shows "\<exists>sys'. respond env (list_sensors_msg us) sys
      = Some (list_sensors_msg (map fst (st_sensors (srv_state (sys_server sys)))), sys')
    \<and> quiet sys' \<and> sys_running sys' \<and> sys_client sys' = sys_client sys \<and> srv_state (sys_server sys') = srv_state (sys_server sys)
    \<and> srv_out (sys_server sys') = srv_out (sys_server sys)
        @ [OSend (list_sensors_msg (map fst (st_sensors (srv_state (sys_server sys))))) (Some (se_ident env))]"
proof -
  let ?s = "sys_server sys" and ?i = "Some (se_ident env)"
  let ?req = "\<lparr>list_type = NRM_MSG_TARGET_TYPE_SENSOR, list_data = ListSensors (map (\<lambda>u. \<lparr>msn_uuid = u\<rparr>) us)\<rparr>"
  let ?rep = "list_sensors_msg (map fst (st_sensors (srv_state ?s)))"
  obtain d where d: "nrm_server_list_callback ?i (Some ?req) ?s = Inr (0, ?s\<lparr>srv_out := srv_out ?s @
      [OSend \<lparr>msg_type = NRM_MSG_TYPE_LIST, msg_data = DataList \<lparr>list_type = NRM_MSG_TARGET_TYPE_SENSOR, list_data = d\<rparr>\<rparr> ?i]\<rparr>)"
    and l: "listing (srv_state ?s) NRM_MSG_TARGET_TYPE_SENSOR d"
    using list_callback_reply [OF wf, of ?req ?i] by auto
  have "\<lparr>msg_type = NRM_MSG_TYPE_LIST, msg_data = DataList \<lparr>list_type = NRM_MSG_TARGET_TYPE_SENSOR, list_data = d\<rparr>\<rparr> = ?rep"
    using l by (simp add: listing_def list_sensors_msg_def case_prod_unfold comp_def)
  with d have "nrm_server_role_callback (se_cb env) (se_raw env) (Some (list_sensors_msg us)) ?i ?s
      = Inr (0, ?s\<lparr>srv_out := srv_out ?s @ [OSend ?rep ?i]\<rparr>)"
    by (simp add: list_sensors_msg_def [of us] role_callback_dispatch)
  then have "respond env (list_sensors_msg us) sys = Some (?rep, sys\<lparr>sys_server := ?s\<lparr>srv_out := srv_out ?s @ [OSend ?rep ?i]\<rparr>, sys_running := True\<rparr>)"
    using respondI [of sys env "list_sensors_msg us" ?rep 0 _ "[]"] assms by simp
  then show ?thesis using assms by (simp add: quiet_def)
qed

lemma respond_tick:
  assumes "quiet sys" and "sys_running sys" and "cb_tick (se_cb env) = None" and "passes env tick_msg" and "passes env ack_msg"
  shows "\<exists>sys'. respond env tick_msg sys = Some (ack_msg, sys') \<and> sys_client sys' = sys_client sys"
proof -
  let ?s = "sys_server sys" and ?i = "Some (se_ident env)"
  have "nrm_server_role_callback (se_cb env) (se_raw env) (Some tick_msg) ?i ?s = Inr (0, ?s\<lparr>srv_out := srv_out ?s @ [OSend ack_msg ?i]\<rparr>)"
    using assms by (simp add: tick_msg_def ack_msg_def role_callback_dispatch nrm_server_tick_callback_def)
  then show ?thesis using respondI [of sys env tick_msg ack_msg 0 _ "[]"] assms by simp
qed

lemma respond_actuate:
  assumes "quiet sys" and "sys_running sys"
    and a: "map_of (st_actuators (srv_state (sys_server sys))) u = Some a" "act_clientid a = Some owner" "owner \<noteq> se_ident env"
    and v: "correctable a v" "act_valid a v"
    and cb: "cb_actuate (se_cb env) = Some f" "f (sys_server sys) a v = Inr (0, sys_server sys)"
    and "passes env (actuate_msg u v)" and "passes env ack_msg"
  shows "\<exists>sys'. respond env (actuate_msg u v) sys = Some (ack_msg, sys')
    \<and> map_of (st_actuators (srv_state (sys_server sys'))) u = Some (a\<lparr>act_value := v\<rparr>)
    \<and> srv_out (sys_server sys') = srv_out (sys_server sys) @ [OSend (actuate_msg u v) (Some owner), OSend ack_msg (Some (se_ident env))]"
proof -
  let ?s = "sys_server sys" and ?i = "Some (se_ident env)"
  have fixed: "act_correct a v = v" using act.valid_iff_fixed [OF v(1)] v(2) by simp
  obtain srv where r: "nrm_server_role_callback (se_cb env) (se_raw env) (Some (actuate_msg u v)) ?i ?s = Inr (0, srv)"
    and m: "map_of (st_actuators (srv_state srv)) u = Some (a\<lparr>act_value := v\<rparr>)"
    and o: "srv_out srv = srv_out ?s @ [OSend (actuate_msg u v) (Some owner), OSend ack_msg ?i]"
    using actuate_callback_allowed [of ?s "\<lparr>actuate_uuid = u, actuate_value = v\<rparr>" a owner "se_cb env" f ?s ?i] a v cb fixed
    by (simp add: actuate_msg_def ack_msg_def role_callback_dispatch alist_simps)
  have "respond env (actuate_msg u v) sys = Some (ack_msg, sys\<lparr>sys_server := srv, sys_running := True\<rparr>)"
    using respondI [of sys env "actuate_msg u v" ack_msg 0 srv "[OSend (actuate_msg u v) (Some owner)]"] assms r o
    by (simp add: for_other_def)
  then show ?thesis using m o by simp
qed


section \<open>Concrete systems\<close>

text \<open>A connected system around a server, with a serialisation of the messages it needs.\<close>

definition table_env :: "nrm_msg list \<Rightarrow> 'u nrm_server_user_callbacks \<Rightarrow> 'u sys_env" where
  "table_env ms cb = \<lparr>
     se_pack = (\<lambda>m. replicate (length (takeWhile (\<lambda>x. x \<noteq> m) ms)) (CHR ''x'')),
     se_unpack = (\<lambda>s. if length s < length ms then Some (ms ! length s) else None),
     se_cb = cb, se_raw = [], se_ident = ''me''\<rparr>"

definition fresh_system :: "'u nrm_server \<Rightarrow> 'u nrm_system" where
  "fresh_system s = \<lparr>sys_client = nrm_role_client_new None, sys_ctrl = \<lparr>ct_down = [], ct_up = [], ct_rpc = [], ct_pub = []\<rparr>,
     sys_server = s, sys_running = True\<rparr>"

lemma table_env_passes:
  assumes "m \<in> set ms"
  shows "se_unpack (table_env ms cb) (se_pack (table_env ms cb) m) = Some m"
proof -
  let ?n = "length (takeWhile (\<lambda>x. x \<noteq> m) ms)"
  have "takeWhile (\<lambda>x. x \<noteq> m) ms \<noteq> ms" using assms by (auto simp: takeWhile_eq_all_conv)
  then have "?n < length ms" using length_takeWhile_le [of "\<lambda>x. x \<noteq> m" ms] takeWhile_eq_take [of "\<lambda>x. x \<noteq> m" ms]
    by (metis nat_less_le take_all_iff)
  moreover from this have "ms ! ?n = m" using nth_length_takeWhile [of "\<lambda>x. x \<noteq> m" ms] by simp
  ultimately show ?thesis by (simp add: table_env_def)
qed

lemma fresh_system_simps [simp]:
  "quiet (fresh_system s)" "rc_up (sys_client (fresh_system s)) = []" "sys_running (fresh_system s)"
  "sys_server (fresh_system s) = s"
  by (simp_all add: fresh_system_def quiet_def nrm_role_client_new_def)

end
