(* ===== verification/NRM_Json.thy ===== *)
theory NRM_Json
  imports NRM_Message
begin

text \<open>
  The JSON conversions: of bitmaps, scopes, time stamps, actuators, sensors, slices and uuids (each in its own source file)
  and of every message (the pretty-printing part of src/messages.c).

  jansson is a parameter: the record \<open>jansson\<close> of the functions the sources call, over a type of values.
  What the code relies on is \<open>jansson_ok\<close>: a \<open>view\<close> of the values as JSON trees under which
  the constructors build, and the accessors read, what the documentation of jansson says.  Allocations succeed
  there.  The format strings of \<open>json_pack\<close> and \<open>json_unpack_ex\<close> become lists of keys with the
  conversion after the colon; the variables that \<open>json_unpack_ex\<close> stores to are the list it returns.
\<close>

section \<open>The library as a parameter\<close>

datatype json =
    JNull
  | JInt int
  | JReal double
  | JString string
  | JArray "json list"
  | JObject "(string \<times> json) list"

text \<open>The conversions \<open>s\<close>, \<open>s*\<close>, \<open>s?\<close>, \<open>o\<close>, \<open>o?\<close>, \<open>f\<close> and \<open>I\<close> of a packed object.\<close>

datatype 'j pack_arg =
    Pack_s "string option"
  | Pack_s_star "string option"
  | Pack_s_opt "string option"
  | Pack_o "'j option"
  | Pack_o_opt "'j option"
  | Pack_f double
  | Pack_I int

datatype unpack_kind = Unpack_s | Unpack_o | Unpack_f

text \<open>What was stored through the pointer of one key: nothing when the key is optional and absent.\<close>

datatype 'j unpacked = UMissing | UStr string | UObj 'j | UReal double

type_synonym unpack_spec = "(string \<times> bool \<times> unpack_kind) list"

record 'j jansson =
  json_array :: "'j option"
  json_array_append_new :: "'j option \<Rightarrow> 'j option \<Rightarrow> 'j option"
  json_integer :: "int \<Rightarrow> 'j option"
  json_real :: "double \<Rightarrow> 'j option"
  json_string :: "string \<Rightarrow> 'j option"
  json_is_array :: "'j option \<Rightarrow> bool"
  json_array_elements :: "'j \<Rightarrow> 'j list"
  json_integer_value :: "'j \<Rightarrow> int"
  json_real_value :: "'j \<Rightarrow> double"
  json_string_value :: "'j option \<Rightarrow> string option"
  json_pack :: "(string \<times> 'j pack_arg) list \<Rightarrow> 'j option"
  json_unpack_ex :: "'j option \<Rightarrow> unpack_spec \<Rightarrow> int \<times> 'j unpacked list"

definition plain :: "string \<Rightarrow> bool" where
  "plain s \<longleftrightarrow> list_all (\<lambda>c. 0 < (of_char c :: nat) \<and> (of_char c :: nat) < 128) s"

definition pack_view :: "('j \<Rightarrow> json) \<Rightarrow> 'j pack_arg \<Rightarrow> json option option" where
  "pack_view view a =
     (case a of
        Pack_s None \<Rightarrow> None
      | Pack_s (Some s) \<Rightarrow> if plain s then Some (Some (JString s)) else None
      | Pack_s_star None \<Rightarrow> Some None
      | Pack_s_star (Some s) \<Rightarrow> if plain s then Some (Some (JString s)) else None
      | Pack_s_opt None \<Rightarrow> Some (Some JNull)
      | Pack_s_opt (Some s) \<Rightarrow> if plain s then Some (Some (JString s)) else None
      | Pack_o None \<Rightarrow> None
      | Pack_o (Some j) \<Rightarrow> Some (Some (view j))
      | Pack_o_opt None \<Rightarrow> Some (Some JNull)
      | Pack_o_opt (Some j) \<Rightarrow> Some (Some (view j))
      | Pack_f d \<Rightarrow> if finite_double d then Some (Some (JReal d)) else None
      | Pack_I i \<Rightarrow> Some (Some (JInt i)))"

fun pack_object :: "('j \<Rightarrow> json) \<Rightarrow> (string \<times> 'j pack_arg) list \<Rightarrow> (string \<times> json) list option" where
  "pack_object view [] = Some []"
| "pack_object view ((k, a) # kas) =
     (case (pack_view view a, pack_object view kas) of
        (Some None, Some kvs) \<Rightarrow> Some kvs
      | (Some (Some v), Some kvs) \<Rightarrow> Some ((k, v) # kvs)
      | _ \<Rightarrow> None)"

definition unpack_one :: "(string \<times> json) list \<Rightarrow> string \<times> bool \<times> unpack_kind \<Rightarrow> json unpacked option" where
  "unpack_one kvs = (\<lambda>(key, optional, kind).
     case map_of kvs key of
       None \<Rightarrow> if optional then Some UMissing else None
     | Some v \<Rightarrow>
         (case kind of
            Unpack_s \<Rightarrow> (case v of JString s \<Rightarrow> Some (UStr s) | _ \<Rightarrow> None)
          | Unpack_f \<Rightarrow> (case v of JReal d \<Rightarrow> Some (UReal d) | _ \<Rightarrow> None)
          | Unpack_o \<Rightarrow> Some (UObj v)))"

definition jansson_ok :: "'j jansson \<Rightarrow> ('j \<Rightarrow> json) \<Rightarrow> bool" where
  "jansson_ok J view \<longleftrightarrow>
     (\<exists>a. json_array J = Some a \<and> view a = JArray [])
   \<and> (\<forall>a x xs. view a = JArray xs \<longrightarrow>
        (\<exists>b. json_array_append_new J (Some a) (Some x) = Some b \<and> view b = JArray (xs @ [view x])))
   \<and> (\<forall>i. in_s64 i \<longrightarrow> (\<exists>j. json_integer J i = Some j \<and> view j = JInt i))
   \<and> (\<forall>d. finite_double d \<longrightarrow> (\<exists>j. json_real J d = Some j \<and> view j = JReal d))
   \<and> (\<forall>s. plain s \<longrightarrow> (\<exists>j. json_string J s = Some j \<and> view j = JString s))
   \<and> (\<forall>j. json_is_array J j \<longleftrightarrow> (\<exists>a xs. j = Some a \<and> view a = JArray xs))
   \<and> (\<forall>a xs. view a = JArray xs \<longrightarrow> map view (json_array_elements J a) = xs)
   \<and> (\<forall>j. json_integer_value J j = (case view j of JInt i \<Rightarrow> i | _ \<Rightarrow> 0))
   \<and> (\<forall>j. json_real_value J j = (case view j of JReal d \<Rightarrow> d | _ \<Rightarrow> DFin 0))
   \<and> (\<forall>j. json_string_value J j = (case map_option view j of Some (JString s) \<Rightarrow> Some s | _ \<Rightarrow> None))
   \<and> (\<forall>kas kvs. distinct (map fst kas) \<longrightarrow> pack_object view kas = Some kvs \<longrightarrow>
        (\<exists>j. json_pack J kas = Some j \<and> view j = JObject kvs))
   \<and> (\<forall>j kvs spec us. view j = JObject kvs \<longrightarrow> map (unpack_one kvs) spec = map Some us \<longrightarrow>
        (\<exists>vs. json_unpack_ex J (Some j) spec = (0, vs) \<and> map (map_unpacked view) vs = us))
   \<and> (\<forall>spec. fst (json_unpack_ex J None spec) = -1)
   \<and> (\<forall>j spec. (\<nexists>kvs. view j = JObject kvs) \<longrightarrow> fst (json_unpack_ex J (Some j) spec) = -1)
   \<and> (\<forall>j kvs spec. view j = JObject kvs \<longrightarrow> None \<in> unpack_one kvs ` set spec \<longrightarrow>
        fst (json_unpack_ex J (Some j) spec) = -1)"


section \<open>Bitmaps and scopes\<close>

function bitmap_json_loop :: "'j jansson \<Rightarrow> nrm_bitmap option \<Rightarrow> nat \<Rightarrow> nat \<Rightarrow> nat \<Rightarrow> 'j option \<Rightarrow> 'j option" where
  "bitmap_json_loop J bm sz i printed ret =
     (if i < NRM_BITMAP_MAX \<and> printed < sz
      then if nrm_bitmap_isset bm i \<noteq> 0
           then bitmap_json_loop J bm sz (i + 1) (printed + 1)
                  (json_array_append_new J ret (json_integer J (int i)))
           else bitmap_json_loop J bm sz (i + 1) printed ret
      else ret)"
  by pat_completeness auto
termination
  by (relation "measure (\<lambda>(J, bm, sz, i, printed, ret). NRM_BITMAP_MAX - i)") auto

declare bitmap_json_loop.simps [simp del]

definition nrm_bitmap_to_json :: "'j jansson \<Rightarrow> nrm_bitmap option \<Rightarrow> 'j option" where
  "nrm_bitmap_to_json J bm = bitmap_json_loop J bm (nat (u64 (nrm_bitmap_nset bm))) 0 0 (json_array J)"

text \<open>The \<open>json_int_t\<close> of an element becomes the \<open>unsigned int\<close> argument of \<open>nrm_bitmap_set\<close>.\<close>

fun bitmap_from_json_loop :: "'j jansson \<Rightarrow> 'j list \<Rightarrow> nrm_bitmap option \<Rightarrow> nrm_bitmap option" where
  "bitmap_from_json_loop J [] bm = bm"
| "bitmap_from_json_loop J (v # vs) bm =
     bitmap_from_json_loop J vs (snd (nrm_bitmap_set bm (nat (u32 (json_integer_value J v)))))"

definition nrm_bitmap_from_json :: "'j jansson \<Rightarrow> nrm_bitmap option \<Rightarrow> 'j option \<Rightarrow> (int \<times> nrm_bitmap option) exec" where
  "nrm_bitmap_from_json J bm json =
     (if \<not> json_is_array J json then Inr (- NRM_EINVAL, bm)
      else bindE (nrm_bitmap_reset bm) (\<lambda>(_, b).
           bindE (derefE json) (\<lambda>a. Inr (0, bitmap_from_json_loop J (json_array_elements J a) (Some b)))))"

definition nrm_scope_to_json :: "'j jansson \<Rightarrow> nrm_scope option \<Rightarrow> 'j option exec" where
  "nrm_scope_to_json J scope =
     bindE (scope_map scope 0) (\<lambda>m0.
     bindE (scope_map scope 1) (\<lambda>m1.
     bindE (scope_map scope 2) (\<lambda>m2.
     bindE (derefE scope) (\<lambda>s.
     Inr (json_pack J [(''uuid'', Pack_s_star (Some (scope_uuid s))), (''cpu'', Pack_o (nrm_bitmap_to_json J (Some m0))),
           (''numa'', Pack_o (nrm_bitmap_to_json J (Some m1))), (''gpu'', Pack_o (nrm_bitmap_to_json J (Some m2)))])))))"

definition unpacked_obj :: "'j unpacked list \<Rightarrow> nat \<Rightarrow> 'j option" where
  "unpacked_obj us i = (if i < length us then case us ! i of UObj j \<Rightarrow> Some j | _ \<Rightarrow> None else None)"

definition unpacked_str :: "'j unpacked list \<Rightarrow> nat \<Rightarrow> string option" where
  "unpacked_str us i = (if i < length us then case us ! i of UStr s \<Rightarrow> Some s | _ \<Rightarrow> None else None)"

definition unpacked_real :: "'j unpacked list \<Rightarrow> nat \<Rightarrow> double option" where
  "unpacked_real us i = (if i < length us then case us ! i of UReal d \<Rightarrow> Some d | _ \<Rightarrow> None else None)"

definition scope_map_from_json :: "'j jansson \<Rightarrow> nat \<Rightarrow> 'j option \<Rightarrow> nrm_scope \<Rightarrow> nrm_scope exec" where
  "scope_map_from_json J i json s =
     bindE (scope_map (Some s) i) (\<lambda>m.
     bindE (nrm_bitmap_from_json J (Some m) json) (\<lambda>(_, m').
     bindE (derefE m') (\<lambda>m'. Inr (s\<lparr>maps := (maps s)[i := m']\<rparr>))))"

definition scope_unpack_spec :: unpack_spec where
  "scope_unpack_spec =
     [(''uuid'', True, Unpack_s), (''cpu'', True, Unpack_o), (''numa'', True, Unpack_o), (''gpu'', True, Unpack_o)]"

definition nrm_scope_from_json :: "'j jansson \<Rightarrow> nrm_scope option \<Rightarrow> 'j option \<Rightarrow> (int \<times> nrm_scope option) exec" where
  "nrm_scope_from_json J scope json =
     (case json_unpack_ex J json scope_unpack_spec of (err, us) \<Rightarrow>
        if err \<noteq> 0 then Inr (- NRM_EINVAL, scope)
        else bindE (derefE scope) (\<lambda>s.
          let s = (case unpacked_str us 0 of None \<Rightarrow> s | Some uuid \<Rightarrow> s\<lparr>scope_uuid := uuid\<rparr>) in
          bindE (scope_map_from_json J 0 (unpacked_obj us 1) s) (\<lambda>s.
          bindE (scope_map_from_json J 1 (unpacked_obj us 2) s) (\<lambda>s.
          bindE (scope_map_from_json J 2 (unpacked_obj us 3) s) (\<lambda>s. Inr (0, Some s))))))"


section \<open>Sensors, slices, uuids and time stamps\<close>

definition nrm_sensor_to_json :: "'j jansson \<Rightarrow> nrm_sensor option \<Rightarrow> 'j option exec" where
  "nrm_sensor_to_json J sensor = bindE (derefE sensor) (\<lambda>s. Inr (json_pack J [(''uuid'', Pack_s (Some (sensor_uuid s)))]))"

definition nrm_slice_to_json :: "'j jansson \<Rightarrow> nrm_slice option \<Rightarrow> 'j option exec" where
  "nrm_slice_to_json J sl = bindE (derefE sl) (\<lambda>s. Inr (json_pack J [(''uuid'', Pack_s (Some (slice_uuid s)))]))"

definition nrm_uuid_to_json :: "'j jansson \<Rightarrow> string option \<Rightarrow> 'j option" where
  "nrm_uuid_to_json J uuid = (case uuid of None \<Rightarrow> None | Some u \<Rightarrow> json_string J u)"

text \<open>The characters of the \<open>PRId64\<close> conversion, and what \<open>sscanf\<close> stores for it.\<close>

definition sscanf_int64 :: "string \<Rightarrow> int option" where
  "sscanf_int64 s = (case strtol s of (v, _, nothing) \<Rightarrow> if nothing then None else Some v)"

definition nrm_time_to_json :: "'j jansson \<Rightarrow> nrm_time \<Rightarrow> 'j exec" where
  "nrm_time_to_json J time =
     (let buf = dec_int (nrm_time_tons time) in
      bindE (assertE (length buf > 0)) (\<lambda>_.
      case json_string J buf of None \<Rightarrow> Inl AssertFail | Some msg \<Rightarrow> Inr msg))"

definition nrm_time_from_json :: "'j jansson \<Rightarrow> nrm_time \<Rightarrow> 'j option \<Rightarrow> (int \<times> nrm_time) exec" where
  "nrm_time_from_json J time json =
     (case json_string_value J json of
        None \<Rightarrow> Inr (-1, time)
      | Some s \<Rightarrow>
          (case sscanf_int64 s of None \<Rightarrow> Inl AssertFail | Some ns \<Rightarrow> Inr (0, nrm_time_fromns ns)))"


section \<open>Actuators\<close>

fun json_append_all :: "'j jansson \<Rightarrow> 'j option list \<Rightarrow> 'j option \<Rightarrow> 'j option" where
  "json_append_all J [] ret = ret"
| "json_append_all J (v # vs) ret = json_append_all J vs (json_array_append_new J ret v)"

definition nrm_vector_d_to_json :: "'j jansson \<Rightarrow> double list \<Rightarrow> 'j option" where
  "nrm_vector_d_to_json J vector = json_append_all J (map (json_real J) vector) (json_array J)"

text \<open>The vector is resized to the length of the array, cleared and filled.\<close>

definition nrm_vector_d_from_json :: "'j jansson \<Rightarrow> double list \<Rightarrow> 'j option \<Rightarrow> (int \<times> double list) exec" where
  "nrm_vector_d_from_json J vector json =
     (if \<not> json_is_array J json then Inr (- NRM_EINVAL, vector)
      else bindE (derefE json) (\<lambda>a. Inr (0, map (json_real_value J) (json_array_elements J a))))"

definition nrm_actuator_discrete_to_json :: "'j jansson \<Rightarrow> nrm_actuator \<Rightarrow> 'j option exec" where
  "nrm_actuator_discrete_to_json J a =
     bindE (actuator_choices a) (\<lambda>cs. Inr (json_pack J [(''choices'', Pack_o_opt (nrm_vector_d_to_json J cs))]))"

definition nrm_actuator_to_json :: "'j jansson \<Rightarrow> nrm_actuator option \<Rightarrow> 'j option exec" where
  "nrm_actuator_to_json J actuator =
     bindE (derefE actuator) (\<lambda>a.
     bindE (if act_type a = NRM_ACTUATOR_TYPE_DISCRETE then nrm_actuator_discrete_to_json J a else Inr None) (\<lambda>sub.
     Inr (json_pack J [(''uuid'', Pack_s (Some (act_uuid a))), (''clientid'', Pack_o_opt (nrm_uuid_to_json J (act_clientid a))),
           (''value'', Pack_f (act_value a)), (''type'', Pack_s (Some (nrm_actuator_type_t2s (act_type a)))),
           (''subtype'', Pack_o_opt sub)])))"

definition nrm_actuator_discrete_from_json :: "'j jansson \<Rightarrow> nrm_actuator \<Rightarrow> 'j option \<Rightarrow> (int \<times> nrm_actuator) exec" where
  "nrm_actuator_discrete_from_json J a json =
     (case json_unpack_ex J json [(''choices'', True, Unpack_o)] of (err, us) \<Rightarrow>
        if err \<noteq> 0 then Inr (- NRM_EINVAL, a)
        else bindE (actuator_choices a) (\<lambda>cs.
             bindE (nrm_vector_d_from_json J cs (unpacked_obj us 0)) (\<lambda>(_, cs).
             Inr (0, a\<lparr>act_u := Choices cs\<rparr>))))"

text \<open>
  The conversion of \<open>clientid\<close> is \<open>o\<close>, so a \<open>json_t *\<close> is stored in the \<open>char *\<close> variable, and
  \<open>nrm_uuid_create_fromchar\<close> reads the object as characters.  On an error the value may already be stored.
\<close>

definition actuator_unpack_spec :: unpack_spec where
  "actuator_unpack_spec =
     [(''uuid'', False, Unpack_s), (''clientid'', True, Unpack_o), (''type'', False, Unpack_s),
      (''value'', True, Unpack_f), (''subtype'', True, Unpack_o)]"

definition nrm_actuator_from_json :: "'j jansson \<Rightarrow> nrm_actuator option \<Rightarrow> 'j option \<Rightarrow> (int \<times> nrm_actuator option) exec" where
  "nrm_actuator_from_json J actuator json =
     bindE (derefE actuator) (\<lambda>a.
     case json_unpack_ex J json actuator_unpack_spec of (err, us) \<Rightarrow>
       let a = (case unpacked_real us 3 of None \<Rightarrow> a | Some d \<Rightarrow> a\<lparr>act_value := d\<rparr>) in
       if err \<noteq> 0 then Inr (- NRM_EINVAL, Some a)
       else bindE (derefE (unpacked_str us 0)) (\<lambda>uuid.
         if unpacked_obj us 1 \<noteq> None then Inl WrongUnion
         else bindE (derefE (unpacked_str us 2)) (\<lambda>type.
           let a = a\<lparr>act_uuid := uuid, act_type := nrm_actuator_type_s2t type\<rparr> in
           if act_type a = NRM_ACTUATOR_TYPE_DISCRETE
           then bindE (nrm_actuator_discrete_from_json J a (unpacked_obj us 4)) (\<lambda>(err, a). Inr (err, Some a))
           else Inr (- NRM_EINVAL, Some a))))"


section \<open>Messages\<close>

definition nrm_msg_bitmap_to_json :: "'j jansson \<Rightarrow> int list \<Rightarrow> 'j option" where
  "nrm_msg_bitmap_to_json J items = json_append_all J (map (json_integer J) items) (json_array J)"

definition nrm_msg_darray_to_json :: "'j jansson \<Rightarrow> double list \<Rightarrow> 'j option" where
  "nrm_msg_darray_to_json J items = json_append_all J (map (json_real J) items) (json_array J)"

definition nrm_msg_actuator_discrete_to_json :: "'j jansson \<Rightarrow> double list \<Rightarrow> 'j option" where
  "nrm_msg_actuator_discrete_to_json J choices = json_pack J [(''choices'', Pack_o (nrm_msg_darray_to_json J choices))]"

definition nrm_msg_actuator_continuous_to_json :: "'j jansson \<Rightarrow> double \<times> double \<Rightarrow> 'j option" where
  "nrm_msg_actuator_continuous_to_json J = (\<lambda>(lmin, lmax). json_pack J [(''min'', Pack_f lmin), (''max'', Pack_f lmax)])"

definition nrm_msg_actuator_to_json :: "'j jansson \<Rightarrow> nrm_msg_actuator \<Rightarrow> 'j option exec" where
  "nrm_msg_actuator_to_json J msg =
     bindE (if ma_type msg = NRM_ACTUATOR_TYPE_DISCRETE
            then bindE (actuator_discrete msg) (\<lambda>cs. Inr (nrm_msg_actuator_discrete_to_json J cs))
            else if ma_type msg = NRM_ACTUATOR_TYPE_CONTINUOUS
            then bindE (actuator_continuous msg) (\<lambda>lim. Inr (nrm_msg_actuator_continuous_to_json J lim))
            else Inr None) (\<lambda>sub.
     Inr (json_pack J [(''uuid'', Pack_s (Some (ma_uuid msg))), (''clientid'', Pack_s_opt (ma_clientid msg)),
           (''value'', Pack_f (ma_value msg)), (''type'', Pack_s (Some (nrm_msg_type_t2s (ma_type msg) nrm_msg_actuator_table))),
           (''data'', Pack_o sub)]))"

definition nrm_msg_actuatorlist_to_json :: "'j jansson \<Rightarrow> nrm_msg_actuator list \<Rightarrow> 'j option exec" where
  "nrm_msg_actuatorlist_to_json J msgs =
     bindE (mapE (nrm_msg_actuator_to_json J) msgs) (\<lambda>js. Inr (json_append_all J js (json_array J)))"

definition nrm_msg_scope_to_json :: "'j jansson \<Rightarrow> nrm_msg_scope \<Rightarrow> 'j option" where
  "nrm_msg_scope_to_json J msg =
     json_pack J [(''uuid'', Pack_s (Some (ms_uuid msg))), (''cpu'', Pack_o (nrm_msg_bitmap_to_json J (ms_cpus msg))),
       (''numa'', Pack_o (nrm_msg_bitmap_to_json J (ms_numas msg))), (''gpu'', Pack_o (nrm_msg_bitmap_to_json J (ms_gpus msg)))]"

definition nrm_msg_scopelist_to_json :: "'j jansson \<Rightarrow> nrm_msg_scope list \<Rightarrow> 'j option" where
  "nrm_msg_scopelist_to_json J msgs = json_append_all J (map (nrm_msg_scope_to_json J) msgs) (json_array J)"

definition nrm_msg_sensor_to_json :: "'j jansson \<Rightarrow> nrm_msg_sensor \<Rightarrow> 'j option" where
  "nrm_msg_sensor_to_json J msg = json_pack J [(''uuid'', Pack_s (Some (msn_uuid msg)))]"

definition nrm_msg_sensorlist_to_json :: "'j jansson \<Rightarrow> nrm_msg_sensor list \<Rightarrow> 'j option" where
  "nrm_msg_sensorlist_to_json J msgs = json_append_all J (map (nrm_msg_sensor_to_json J) msgs) (json_array J)"

definition nrm_msg_slice_to_json :: "'j jansson \<Rightarrow> nrm_msg_slice \<Rightarrow> 'j option" where
  "nrm_msg_slice_to_json J msg = json_pack J [(''uuid'', Pack_s (Some (msl_uuid msg)))]"

definition nrm_msg_slicelist_to_json :: "'j jansson \<Rightarrow> nrm_msg_slice list \<Rightarrow> 'j option" where
  "nrm_msg_slicelist_to_json J msgs = json_append_all J (map (nrm_msg_slice_to_json J) msgs) (json_array J)"

definition nrm_msg_event_to_json :: "'j jansson \<Rightarrow> nrm_msg_event \<Rightarrow> 'j option" where
  "nrm_msg_event_to_json J msg = json_pack J [(''time'', Pack_I (me_time msg)), (''value'', Pack_f (me_value msg))]"

definition nrm_msg_timeserie_to_json :: "'j jansson \<Rightarrow> nrm_msg_timeserie \<Rightarrow> 'j option exec" where
  "nrm_msg_timeserie_to_json J msg =
     (let events = json_append_all J (map (nrm_msg_event_to_json J) (mt_events msg)) (json_array J) in
      bindE (derefE (mt_scope msg)) (\<lambda>sc.
      Inr (json_pack J [(''sensor_uuid'', Pack_s (Some (mt_sensor_uuid msg))), (''scope_uuid'', Pack_o (nrm_msg_scope_to_json J sc)),
            (''start'', Pack_I (mt_start msg)), (''events'', Pack_o events)])))"

definition nrm_msg_timeserielist_to_json :: "'j jansson \<Rightarrow> nrm_msg_timeserie list option \<Rightarrow> 'j option exec" where
  "nrm_msg_timeserielist_to_json J msgs =
     bindE (derefE msgs) (\<lambda>ms.
     bindE (mapE (nrm_msg_timeserie_to_json J) ms) (\<lambda>js. Inr (json_append_all J js (json_array J))))"

definition nrm_msg_add_to_json :: "'j jansson \<Rightarrow> nrm_msg_add option \<Rightarrow> 'j option exec" where
  "nrm_msg_add_to_json J msg =
     bindE (derefE msg) (\<lambda>a.
     bindE (if add_type a = NRM_MSG_TARGET_TYPE_ACTUATOR
            then bindE (add_actuator a) (\<lambda>x. bindE (derefE x) (nrm_msg_actuator_to_json J))
            else if add_type a = NRM_MSG_TARGET_TYPE_SLICE
            then bindE (add_slice a) (\<lambda>x. bindE (derefE x) (\<lambda>x. Inr (nrm_msg_slice_to_json J x)))
            else if add_type a = NRM_MSG_TARGET_TYPE_SENSOR
            then bindE (add_sensor a) (\<lambda>x. bindE (derefE x) (\<lambda>x. Inr (nrm_msg_sensor_to_json J x)))
            else if add_type a = NRM_MSG_TARGET_TYPE_SCOPE
            then bindE (add_scope a) (\<lambda>x. bindE (derefE x) (\<lambda>x. Inr (nrm_msg_scope_to_json J x)))
            else Inr None) (\<lambda>sub.
     Inr (json_pack J [(''type'', Pack_s (Some (nrm_msg_type_t2s (add_type a) nrm_msg_target_table))), (''data'', Pack_o_opt sub)])))"

definition nrm_msg_list_to_json :: "'j jansson \<Rightarrow> nrm_msg_list option \<Rightarrow> 'j option exec" where
  "nrm_msg_list_to_json J msg =
     bindE (derefE msg) (\<lambda>l.
     bindE (if list_type l = NRM_MSG_TARGET_TYPE_ACTUATOR
            then bindE (list_actuators l) (\<lambda>x. bindE (derefE x) (nrm_msg_actuatorlist_to_json J))
            else if list_type l = NRM_MSG_TARGET_TYPE_SLICE
            then bindE (list_slices l) (\<lambda>x. bindE (derefE x) (\<lambda>x. Inr (nrm_msg_slicelist_to_json J x)))
            else if list_type l = NRM_MSG_TARGET_TYPE_SENSOR
            then bindE (list_sensors l) (\<lambda>x. bindE (derefE x) (\<lambda>x. Inr (nrm_msg_sensorlist_to_json J x)))
            else if list_type l = NRM_MSG_TARGET_TYPE_SCOPE
            then bindE (list_scopes l) (\<lambda>x. bindE (derefE x) (\<lambda>x. Inr (nrm_msg_scopelist_to_json J x)))
            else Inr None) (\<lambda>sub.
     Inr (json_pack J [(''type'', Pack_s (Some (nrm_msg_type_t2s (list_type l) nrm_msg_target_table))), (''data'', Pack_o_opt sub)])))"

definition nrm_msg_remove_to_json :: "'j jansson \<Rightarrow> nrm_msg_remove option \<Rightarrow> 'j option exec" where
  "nrm_msg_remove_to_json J msg =
     bindE (derefE msg) (\<lambda>r.
     Inr (json_pack J [(''type'', Pack_s (Some (nrm_msg_type_t2s (remove_type r) nrm_msg_target_table))),
           (''uuid'', Pack_s_opt (Some (remove_uuid r)))]))"

definition nrm_msg_actuate_to_json :: "'j jansson \<Rightarrow> nrm_msg_actuate option \<Rightarrow> 'j option exec" where
  "nrm_msg_actuate_to_json J msg =
     bindE (derefE msg) (\<lambda>a.
     Inr (json_pack J [(''uuid'', Pack_s (Some (actuate_uuid a))), (''value'', Pack_f (actuate_value a))]))"

definition nrm_msg_to_json :: "'j jansson \<Rightarrow> nrm_msg option \<Rightarrow> 'j option exec" where
  "nrm_msg_to_json J msg =
     bindE (derefE msg) (\<lambda>m.
     bindE (if msg_type m = NRM_MSG_TYPE_ACTUATE then bindE (msg_actuate m) (nrm_msg_actuate_to_json J)
            else if msg_type m = NRM_MSG_TYPE_ADD then bindE (msg_add m) (nrm_msg_add_to_json J)
            else if msg_type m = NRM_MSG_TYPE_LIST then bindE (msg_list m) (nrm_msg_list_to_json J)
            else if msg_type m = NRM_MSG_TYPE_EVENTS then bindE (msg_events m) (nrm_msg_timeserielist_to_json J)
            else if msg_type m = NRM_MSG_TYPE_REMOVE then bindE (msg_remove m) (nrm_msg_remove_to_json J)
            else Inr None) (\<lambda>sub.
     Inr (json_pack J [(''type'', Pack_s (Some (nrm_msg_type_t2s (msg_type m) nrm_msg_type_table))), (''data'', Pack_o_opt sub)])))"

text \<open>\<open>dumps\<close> is \<open>json_dumps\<close>: NULL for a NULL object, which \<open>fprintf\<close> prints as \<open>(null)\<close>.\<close>

definition nrm_msg_fprintf :: "'j jansson \<Rightarrow> ('j option \<Rightarrow> string option) \<Rightarrow> nrm_msg option \<Rightarrow> (int \<times> string) exec" where
  "nrm_msg_fprintf J dumps msg =
     bindE (nrm_msg_to_json J msg) (\<lambda>json.
     Inr (0, (case dumps json of None \<Rightarrow> ''(null)'' | Some s \<Rightarrow> s) @ [CHR 0x0A]))"


section \<open>Trees\<close>

text \<open>What a message prints as.\<close>

definition scope_msg_tree :: "nrm_msg_scope \<Rightarrow> json" where
  "scope_msg_tree m =
     JObject [(''uuid'', JString (ms_uuid m)), (''cpu'', JArray (map JInt (ms_cpus m))),
       (''numa'', JArray (map JInt (ms_numas m))), (''gpu'', JArray (map JInt (ms_gpus m)))]"

definition uuid_tree :: "string \<Rightarrow> json" where
  "uuid_tree u = JObject [(''uuid'', JString u)]"

definition string_tree :: "string option \<Rightarrow> json" where
  "string_tree u = (case u of None \<Rightarrow> JNull | Some s \<Rightarrow> JString s)"

definition actuator_data_tree :: "actuator_data \<Rightarrow> json" where
  "actuator_data_tree d =
     (case d of
        ActNone \<Rightarrow> JNull
      | ActDiscrete cs \<Rightarrow> JObject [(''choices'', JArray (map JReal cs))]
      | ActContinuous lo hi \<Rightarrow> JObject [(''min'', JReal lo), (''max'', JReal hi)])"

definition actuator_msg_tree :: "nrm_msg_actuator \<Rightarrow> json" where
  "actuator_msg_tree m =
     JObject [(''uuid'', JString (ma_uuid m)), (''clientid'', string_tree (ma_clientid m)), (''value'', JReal (ma_value m)),
       (''type'', JString (nrm_msg_type_t2s (ma_type m) nrm_msg_actuator_table)), (''data'', actuator_data_tree (ma_data m))]"

definition event_tree :: "nrm_msg_event \<Rightarrow> json" where
  "event_tree e = JObject [(''time'', JInt (me_time e)), (''value'', JReal (me_value e))]"

definition timeserie_tree :: "nrm_msg_timeserie \<Rightarrow> json" where
  "timeserie_tree t =
     JObject [(''sensor_uuid'', JString (mt_sensor_uuid t)),
       (''scope_uuid'', case mt_scope t of None \<Rightarrow> JNull | Some sc \<Rightarrow> scope_msg_tree sc),
       (''start'', JInt (mt_start t)), (''events'', JArray (map event_tree (mt_events t)))]"

definition typed_tree :: "string \<Rightarrow> json \<Rightarrow> json" where
  "typed_tree t d = JObject [(''type'', JString t), (''data'', d)]"

definition add_tree :: "nrm_msg_add \<Rightarrow> json" where
  "add_tree a = typed_tree (nrm_msg_type_t2s (add_type a) nrm_msg_target_table)
     (case add_data a of
        AddNone \<Rightarrow> JNull
      | AddSlice x \<Rightarrow> uuid_tree (msl_uuid x)
      | AddSensor x \<Rightarrow> uuid_tree (msn_uuid x)
      | AddScope x \<Rightarrow> scope_msg_tree x
      | AddActuator x \<Rightarrow> actuator_msg_tree x)"

definition list_tree :: "nrm_msg_list \<Rightarrow> json" where
  "list_tree l = typed_tree (nrm_msg_type_t2s (list_type l) nrm_msg_target_table)
     (case list_data l of
        ListNone \<Rightarrow> JNull
      | ListSlices xs \<Rightarrow> JArray (map (\<lambda>x. uuid_tree (msl_uuid x)) xs)
      | ListSensors xs \<Rightarrow> JArray (map (\<lambda>x. uuid_tree (msn_uuid x)) xs)
      | ListScopes xs \<Rightarrow> JArray (map scope_msg_tree xs)
      | ListActuators xs \<Rightarrow> JArray (map actuator_msg_tree xs))"

definition msg_tree :: "nrm_msg \<Rightarrow> json" where
  "msg_tree m = typed_tree (nrm_msg_type_t2s (msg_type m) nrm_msg_type_table)
     (case msg_data m of
        DataNone \<Rightarrow> JNull
      | DataList l \<Rightarrow> list_tree l
      | DataAdd a \<Rightarrow> add_tree a
      | DataRemove r \<Rightarrow> JObject [(''type'', JString (nrm_msg_type_t2s (remove_type r) nrm_msg_target_table)),
                          (''uuid'', JString (remove_uuid r))]
      | DataEvents ts \<Rightarrow> JArray (map timeserie_tree ts)
      | DataActuate a \<Rightarrow> JObject [(''uuid'', JString (actuate_uuid a)), (''value'', JReal (actuate_value a))])"

text \<open>Messages jansson can represent: text without bytes outside ASCII, finite numbers, a scope in every time series.\<close>

definition scope_msg_plain :: "nrm_msg_scope \<Rightarrow> bool" where
  "scope_msg_plain m \<longleftrightarrow> plain (ms_uuid m) \<and> list_all in_s64 (ms_cpus m) \<and> list_all in_s64 (ms_numas m) \<and> list_all in_s64 (ms_gpus m)"

definition actuator_msg_plain :: "nrm_msg_actuator \<Rightarrow> bool" where
  "actuator_msg_plain m \<longleftrightarrow> plain (ma_uuid m) \<and> pred_option plain (ma_clientid m) \<and> finite_double (ma_value m)
     \<and> ma_type m \<in> {NRM_ACTUATOR_TYPE_DISCRETE, NRM_ACTUATOR_TYPE_CONTINUOUS}
     \<and> (case ma_data m of ActNone \<Rightarrow> True | ActDiscrete cs \<Rightarrow> list_all finite_double cs
        | ActContinuous lo hi \<Rightarrow> finite_double lo \<and> finite_double hi)"

definition timeserie_plain :: "nrm_msg_timeserie \<Rightarrow> bool" where
  "timeserie_plain t \<longleftrightarrow> plain (mt_sensor_uuid t) \<and> list_all (\<lambda>e. finite_double (me_value e)) (mt_events t)
     \<and> (case mt_scope t of None \<Rightarrow> False | Some sc \<Rightarrow> scope_msg_plain sc)"

definition msg_plain :: "nrm_msg \<Rightarrow> bool" where
  "msg_plain m =
     (case msg_data m of
        DataNone \<Rightarrow> True
      | DataList l \<Rightarrow> (case list_data l of ListNone \<Rightarrow> True | ListSlices xs \<Rightarrow> list_all (\<lambda>x. plain (msl_uuid x)) xs
           | ListSensors xs \<Rightarrow> list_all (\<lambda>x. plain (msn_uuid x)) xs | ListScopes xs \<Rightarrow> list_all scope_msg_plain xs
           | ListActuators xs \<Rightarrow> list_all actuator_msg_plain xs)
      | DataAdd a \<Rightarrow> (case add_data a of AddNone \<Rightarrow> True | AddSlice x \<Rightarrow> plain (msl_uuid x) | AddSensor x \<Rightarrow> plain (msn_uuid x)
           | AddScope x \<Rightarrow> scope_msg_plain x | AddActuator x \<Rightarrow> actuator_msg_plain x)
      | DataRemove r \<Rightarrow> plain (remove_uuid r)
      | DataEvents ts \<Rightarrow> list_all timeserie_plain ts
      | DataActuate a \<Rightarrow> plain (actuate_uuid a) \<and> finite_double (actuate_value a))"


section \<open>What the library builds\<close>

definition yields :: "('j \<Rightarrow> json) \<Rightarrow> 'j option \<Rightarrow> json \<Rightarrow> bool" where
  "yields view r v \<longleftrightarrow> (\<exists>j. r = Some j \<and> view j = v)"

named_theorems json_intro \<open>introduction rules for \<open>yields\<close>\<close>

lemma yields_array [json_intro]: "jansson_ok J view \<Longrightarrow> yields view (json_array J) (JArray [])"
  unfolding jansson_ok_def yields_def by (elim conjE)

lemma yields_append:
  assumes "jansson_ok J view" and "yields view r (JArray xs)" and "yields view x v"
  shows "yields view (json_array_append_new J r x) (JArray (xs @ [v]))"
proof -
  have "\<forall>a x xs. view a = JArray xs \<longrightarrow>
      (\<exists>b. json_array_append_new J (Some a) (Some x) = Some b \<and> view b = JArray (xs @ [view x]))"
    using assms(1) unfolding jansson_ok_def by (elim conjE)
  then show ?thesis using assms(2,3) unfolding yields_def by blast
qed

lemma yields_integer [json_intro]: "jansson_ok J view \<Longrightarrow> in_s64 i \<Longrightarrow> yields view (json_integer J i) (JInt i)"
  unfolding jansson_ok_def yields_def by (elim conjE allE [of _ i] impE) assumption+

lemma yields_real [json_intro]: "jansson_ok J view \<Longrightarrow> finite_double d \<Longrightarrow> yields view (json_real J d) (JReal d)"
  unfolding jansson_ok_def yields_def by (elim conjE) blast

lemma yields_string [json_intro]: "jansson_ok J view \<Longrightarrow> plain s \<Longrightarrow> yields view (json_string J s) (JString s)"
  unfolding jansson_ok_def yields_def by (elim conjE) blast

lemma yields_append_all:
  assumes J: "jansson_ok J view"
  shows "list_all2 (yields view) rs vs \<Longrightarrow> yields view r (JArray xs) \<Longrightarrow> yields view (json_append_all J rs r) (JArray (xs @ vs))"
proof (induction rs vs arbitrary: r xs rule: list_all2_induct)
  case (Cons x rs v vs)
  have "yields view (json_array_append_new J r x) (JArray (xs @ [v]))" using Cons by (intro yields_append [OF J])
  then show ?case using Cons.IH [of "json_array_append_new J r x" "xs @ [v]"] by simp
qed simp

lemma yields_array_of:
  assumes "jansson_ok J view" and "list_all (\<lambda>x. yields view (f x) (g x)) xs"
  shows "yields view (json_append_all J (map f xs) (json_array J)) (JArray (map g xs))"
proof -
  have "list_all2 (yields view) (map f xs) (map g xs)"
    using assms(2) by (simp add: list_all2_map1 list_all2_map2 list_all2_same list_all_iff)
  then show ?thesis using yields_append_all [OF assms(1) _ yields_array [OF assms(1)]] by simp
qed

lemma pack_view_simps [simp]:
  "plain s \<Longrightarrow> pack_view view (Pack_s (Some s)) = Some (Some (JString s))"
  "plain s \<Longrightarrow> pack_view view (Pack_s_star (Some s)) = Some (Some (JString s))"
  "pred_option plain u \<Longrightarrow> pack_view view (Pack_s_opt u) = Some (Some (string_tree u))"
  "finite_double d \<Longrightarrow> pack_view view (Pack_f d) = Some (Some (JReal d))"
  "pack_view view (Pack_I i) = Some (Some (JInt i))"
  "pack_view view (Pack_o_opt None) = Some (Some JNull)"
  by (auto simp: pack_view_def string_tree_def split: option.split)

lemma pack_view_yields:
  "pack_view view (Pack_o r) = Some (Some v) \<longleftrightarrow> yields view r v"
  "pack_view view (Pack_o_opt r) = Some (Some v) \<longleftrightarrow> yields view r v \<or> (r = None \<and> v = JNull)"
  by (auto simp: pack_view_def yields_def split: option.split)

lemma pack_object_all:
  "list_all2 (\<lambda>ka kv. fst ka = fst kv \<and> pack_view view (snd ka) = Some (Some (snd kv))) kas kvs \<Longrightarrow> pack_object view kas = Some kvs"
  by (induction rule: list_all2_induct) auto

lemma yields_pack:
  assumes "jansson_ok J view" and "distinct (map fst kas)"
    and "list_all2 (\<lambda>ka kv. fst ka = fst kv \<and> pack_view view (snd ka) = Some (Some (snd kv))) kas kvs"
  shows "yields view (json_pack J kas) (JObject kvs)"
proof -
  have "\<forall>kas kvs. distinct (map fst kas) \<longrightarrow> pack_object view kas = Some kvs \<longrightarrow>
      (\<exists>j. json_pack J kas = Some j \<and> view j = JObject kvs)"
    using assms(1) unfolding jansson_ok_def by (elim conjE)
  then show ?thesis using assms(2) pack_object_all [OF assms(3)] unfolding yields_def by blast
qed

lemma plain_names [simp]:
  "plain (nrm_msg_type_t2s t nrm_msg_type_table)" "plain (nrm_msg_type_t2s t nrm_msg_target_table)"
  "plain (nrm_msg_type_t2s t nrm_msg_actuator_table)"
  by (simp_all add: nrm_msg_type_t2s_def nrm_msg_type_table_def nrm_msg_target_table_def nrm_msg_actuator_table_def plain_def)

lemma yields_uuid:
  assumes "jansson_ok J view"
  shows "plain u \<Longrightarrow> yields view (json_pack J [(''uuid'', Pack_s (Some u))]) (uuid_tree u)"
  unfolding uuid_tree_def by (rule yields_pack [OF assms]) simp_all

lemma yields_msg_scope:
  assumes J: "jansson_ok J view" and m: "scope_msg_plain m"
  shows "yields view (nrm_msg_scope_to_json J m) (scope_msg_tree m)"
proof -
  have "yields view (nrm_msg_bitmap_to_json J xs) (JArray (map JInt xs))" if "list_all in_s64 xs" for xs
    unfolding nrm_msg_bitmap_to_json_def using that yields_integer [OF J]
    by (intro yields_array_of [OF J]) (simp add: list_all_iff)
  then show ?thesis unfolding nrm_msg_scope_to_json_def scope_msg_tree_def using m
    by (intro yields_pack [OF J]) (simp_all add: scope_msg_plain_def pack_view_yields)
qed

lemma yields_msg_actuator:
  assumes J: "jansson_ok J view" and m: "actuator_msg_plain m" "actuator_msg_consistent m"
  shows "\<exists>r. nrm_msg_actuator_to_json J m = Inr r \<and> yields view r (actuator_msg_tree m)"
proof -
  have d: "yields view (nrm_msg_actuator_discrete_to_json J cs) (actuator_data_tree (ActDiscrete cs))"
    if "list_all finite_double cs" for cs
  proof -
    have "yields view (nrm_msg_darray_to_json J cs) (JArray (map JReal cs))"
      unfolding nrm_msg_darray_to_json_def using that yields_real [OF J]
      by (intro yields_array_of [OF J]) (simp add: list_all_iff)
    then show ?thesis unfolding nrm_msg_actuator_discrete_to_json_def actuator_data_tree_def actuator_data.case
      by (intro yields_pack [OF J]) (simp_all add: pack_view_yields)
  qed
  have c: "yields view (nrm_msg_actuator_continuous_to_json J (lo, hi)) (actuator_data_tree (ActContinuous lo hi))"
    if "finite_double lo" "finite_double hi" for lo hi
    unfolding nrm_msg_actuator_continuous_to_json_def actuator_data_tree_def actuator_data.case prod.case using that
    by (intro yields_pack [OF J]) simp_all
  have "yields view (json_pack J [(''uuid'', Pack_s (Some (ma_uuid m))), (''clientid'', Pack_s_opt (ma_clientid m)),
      (''value'', Pack_f (ma_value m)), (''type'', Pack_s (Some (nrm_msg_type_t2s (ma_type m) nrm_msg_actuator_table))),
      (''data'', Pack_o sub)]) (actuator_msg_tree m)" if "yields view sub (actuator_data_tree (ma_data m))" for sub
    unfolding actuator_msg_tree_def using that m(1)
    by (intro yields_pack [OF J]) (simp_all add: actuator_msg_plain_def pack_view_yields)
  then show ?thesis using m d c
    by (auto simp: nrm_msg_actuator_to_json_def actuator_msg_consistent_def actuator_msg_plain_def actuator_discrete_def
        actuator_continuous_def split: if_splits)
qed

lemma yields_timeserie:
  assumes J: "jansson_ok J view" and t: "timeserie_plain t"
  shows "\<exists>r. nrm_msg_timeserie_to_json J t = Inr r \<and> yields view r (timeserie_tree t)"
proof -
  obtain sc where sc: "mt_scope t = Some sc" "scope_msg_plain sc" using t by (auto simp: timeserie_plain_def split: option.splits)
  have "yields view (nrm_msg_event_to_json J e) (event_tree e)" if "finite_double (me_value e)" for e
    unfolding nrm_msg_event_to_json_def event_tree_def using that by (intro yields_pack [OF J]) simp_all
  then have "yields view (json_append_all J (map (nrm_msg_event_to_json J) (mt_events t)) (json_array J))
      (JArray (map event_tree (mt_events t)))"
    using t by (intro yields_array_of [OF J]) (simp add: timeserie_plain_def list_all_iff)
  then have "yields view (json_pack J [(''sensor_uuid'', Pack_s (Some (mt_sensor_uuid t))),
      (''scope_uuid'', Pack_o (nrm_msg_scope_to_json J sc)), (''start'', Pack_I (mt_start t)),
      (''events'', Pack_o (json_append_all J (map (nrm_msg_event_to_json J) (mt_events t)) (json_array J)))]) (timeserie_tree t)"
    unfolding timeserie_tree_def sc(1) option.case using t yields_msg_scope [OF J sc(2)]
    by (intro yields_pack [OF J]) (simp_all add: timeserie_plain_def pack_view_yields)
  then show ?thesis using sc(1) by (simp add: nrm_msg_timeserie_to_json_def)
qed

lemma yields_mapE:
  assumes J: "jansson_ok J view" and f: "list_all (\<lambda>x. \<exists>r. f x = Inr r \<and> yields view r (g x)) xs"
  shows "\<exists>js. mapE f xs = Inr js \<and> yields view (json_append_all J js (json_array J)) (JArray (map g xs))"
proof -
  have "\<exists>js. mapE f xs = Inr js \<and> list_all2 (yields view) js (map g xs)" using f by (induction xs) auto
  then show ?thesis using yields_append_all [OF J _ yields_array [OF J]] by fastforce
qed

lemma yields_typed:
  assumes J: "jansson_ok J view" and "plain t" and "yields view sub d \<or> sub = None \<and> d = JNull"
  shows "yields view (json_pack J [(''type'', Pack_s (Some t)), (''data'', Pack_o_opt sub)]) (typed_tree t d)"
  unfolding typed_tree_def using assms(2,3) by (intro yields_pack [OF J]) (auto simp: pack_view_yields)


lemmas yields_typed_data = yields_typed [OF _ _ disjI1]

lemma yields_add:
  assumes J: "jansson_ok J view" and a: "add_consistent a" and m: "msg_data m = DataAdd a" "msg_plain m"
  shows "\<exists>r. nrm_msg_add_to_json J (Some a) = Inr r \<and> yields view r (add_tree a)"
proof (cases "add_data a")
  case (AddActuator x)
  then obtain r where "nrm_msg_actuator_to_json J x = Inr r" "yields view r (actuator_msg_tree x)"
    using yields_msg_actuator [OF J] a m by (auto simp: add_consistent_def msg_plain_def)
  then show ?thesis using AddActuator a yields_typed [OF J, of _ r]
    by (auto simp: nrm_msg_add_to_json_def add_tree_def add_consistent_def add_actuator_def)
qed (use a m yields_uuid [OF J] yields_msg_scope [OF J] yields_typed [OF J] in
  \<open>auto simp: nrm_msg_add_to_json_def add_tree_def add_consistent_def msg_plain_def msg_targets
     nrm_msg_slice_to_json_def nrm_msg_sensor_to_json_def add_slice_def add_sensor_def add_scope_def\<close>)

lemma yields_list:
  assumes J: "jansson_ok J view" and l: "list_consistent l" and m: "msg_data m = DataList l" "msg_plain m"
  shows "\<exists>r. nrm_msg_list_to_json J (Some l) = Inr r \<and> yields view r (list_tree l)"
proof (cases "list_data l")
  case (ListActuators xs)
  then have "list_all (\<lambda>x. \<exists>r. nrm_msg_actuator_to_json J x = Inr r \<and> yields view r (actuator_msg_tree x)) xs"
    using yields_msg_actuator [OF J] l m by (auto simp: list_consistent_def msg_plain_def list_all_iff)
  from yields_mapE [OF J this] obtain js where "mapE (nrm_msg_actuator_to_json J) xs = Inr js"
    "yields view (json_append_all J js (json_array J)) (JArray (map actuator_msg_tree xs))" by blast
  then show ?thesis using ListActuators l yields_typed [OF J]
    by (auto simp: nrm_msg_list_to_json_def nrm_msg_actuatorlist_to_json_def list_tree_def list_consistent_def list_actuators_def)
qed (use l m yields_uuid [OF J] yields_msg_scope [OF J] in
  \<open>auto intro!: yields_typed_data [OF J] yields_array_of [OF J] simp: nrm_msg_list_to_json_def list_tree_def list_consistent_def msg_plain_def msg_targets list_all_iff
     nrm_msg_slicelist_to_json_def nrm_msg_sensorlist_to_json_def nrm_msg_scopelist_to_json_def
     nrm_msg_slice_to_json_def nrm_msg_sensor_to_json_def list_slices_def list_sensors_def list_scopes_def\<close>)

lemma yields_msg:
  assumes J: "jansson_ok J view" and m: "msg_consistent m" "msg_plain m"
  shows "\<exists>r. nrm_msg_to_json J (Some m) = Inr r \<and> yields view r (msg_tree m)"
proof (cases "msg_data m")
  case DataNone
  then show ?thesis using m yields_typed [OF J, of _ None JNull]
    by (auto simp: nrm_msg_to_json_def msg_consistent_def msg_types msg_tree_def)
next
  case (DataList l)
  then show ?thesis using m yields_list [OF J _ DataList] yields_typed [OF J]
    by (fastforce simp: nrm_msg_to_json_def msg_consistent_def msg_types msg_tree_def msg_list_def)
next
  case (DataAdd a)
  then show ?thesis using m yields_add [OF J _ DataAdd] yields_typed [OF J]
    by (fastforce simp: nrm_msg_to_json_def msg_consistent_def msg_types msg_tree_def msg_add_def)
next
  case (DataRemove r)
  then have "yields view (json_pack J [(''type'', Pack_s (Some (nrm_msg_type_t2s (remove_type r) nrm_msg_target_table))),
      (''uuid'', Pack_s_opt (Some (remove_uuid r)))]) (JObject [(''type'', JString (nrm_msg_type_t2s (remove_type r) nrm_msg_target_table)),
      (''uuid'', JString (remove_uuid r))])"
    using m(2) by (intro yields_pack [OF J]) (simp_all add: msg_plain_def string_tree_def)
  then show ?thesis using DataRemove m(1) yields_typed [OF J]
    by (auto simp: nrm_msg_to_json_def nrm_msg_remove_to_json_def msg_consistent_def msg_types msg_tree_def msg_remove_def)
next
  case (DataEvents ts)
  then have "list_all (\<lambda>t. \<exists>r. nrm_msg_timeserie_to_json J t = Inr r \<and> yields view r (timeserie_tree t)) ts"
    using m(2) yields_timeserie [OF J] by (simp add: msg_plain_def list_all_iff)
  from yields_mapE [OF J this] show ?thesis using DataEvents m(1) yields_typed [OF J]
    by (auto simp: nrm_msg_to_json_def nrm_msg_timeserielist_to_json_def msg_consistent_def msg_types msg_tree_def msg_events_def)
next
  case (DataActuate a)
  then have "yields view (json_pack J [(''uuid'', Pack_s (Some (actuate_uuid a))), (''value'', Pack_f (actuate_value a))])
      (JObject [(''uuid'', JString (actuate_uuid a)), (''value'', JReal (actuate_value a))])"
    using m(2) by (intro yields_pack [OF J]) (simp_all add: msg_plain_def)
  then show ?thesis using DataActuate m(1) yields_typed [OF J]
    by (auto simp: nrm_msg_to_json_def nrm_msg_actuate_to_json_def msg_consistent_def msg_types msg_tree_def msg_actuate_def)
qed


section \<open>Reading back\<close>

lemma in_s64_index: "i < NRM_BITMAP_MAX \<Longrightarrow> in_s64 (int i)"
  by (simp add: in_s64_def NRM_BITMAP_MAX_def)

lemma bitmap_json_loop_elems:
  assumes "jansson_ok J view" and "k + length (filter (bitmap_mem b) [i..<NRM_BITMAP_MAX]) = sz" and "yields view ret (JArray xs)"
  shows "yields view (bitmap_json_loop J (Some b) sz i k ret)
     (JArray (xs @ map (\<lambda>i. JInt (int i)) (filter (bitmap_mem b) [i..<NRM_BITMAP_MAX])))"
  using assms
proof (induction J "Some b" sz i k ret arbitrary: xs rule: bitmap_json_loop.induct)
  case (1 J sz i k ret)
  note J = 1(3) and len = 1(4) and ret = 1(5)
  show ?case
  proof (cases "i < NRM_BITMAP_MAX \<and> k < sz")
    case False
    then have "filter (bitmap_mem b) [i..<NRM_BITMAP_MAX] = []" using len by auto
    then show ?thesis using False ret by (subst bitmap_json_loop.simps) auto
  next
    case True
    then have upt: "[i..<NRM_BITMAP_MAX] = i # [i + 1..<NRM_BITMAP_MAX]" by (simp add: upt_conv_Cons)
    show ?thesis
    proof (cases "bitmap_mem b i")
      case mem: True
      have "yields view (json_array_append_new J ret (json_integer J (int i))) (JArray (xs @ [JInt (int i)]))"
        using True by (intro yields_append [OF J ret] yields_integer [OF J] in_s64_index) simp
      then have "yields view (bitmap_json_loop J (Some b) sz (i + 1) (k + 1) (json_array_append_new J ret (json_integer J (int i))))
          (JArray ((xs @ [JInt (int i)]) @ map (\<lambda>i. JInt (int i)) (filter (bitmap_mem b) [i + 1..<NRM_BITMAP_MAX])))"
        using True mem upt len by (intro 1(1) [OF _ _ J]) (simp_all add: nrm_bitmap_isset_Some)
      then show ?thesis
        using True mem upt by (subst bitmap_json_loop.simps) (simp add: nrm_bitmap_isset_Some)
    next
      case mem: False
      have "yields view (bitmap_json_loop J (Some b) sz (i + 1) k ret)
          (JArray (xs @ map (\<lambda>i. JInt (int i)) (filter (bitmap_mem b) [i + 1..<NRM_BITMAP_MAX])))"
        using True mem upt len by (intro 1(2) [OF _ _ J _ ret]) (simp_all add: nrm_bitmap_isset_Some)
      then show ?thesis
        using True mem upt by (subst bitmap_json_loop.simps) (simp add: nrm_bitmap_isset_Some)
    qed
  qed
qed

lemma yields_bitmap:
  assumes "jansson_ok J view" and "bitmap_wf b"
  shows "yields view (nrm_bitmap_to_json J (Some b)) (JArray (map (\<lambda>i. JInt (int i)) (bitmap_elems b)))"
  using bitmap_json_loop_elems [OF assms(1), of 0 b 0 _ "json_array J" "[]"] yields_array [OF assms(1)]
  by (simp add: nrm_bitmap_to_json_def nset_size_t [OF assms(2)] bitmap_elems_def)

lemma jansson_elements:
  assumes "jansson_ok J view" and "view a = JArray xs"
  shows "json_is_array J (Some a)" and "map view (json_array_elements J a) = xs"
proof -
  have "\<forall>j. json_is_array J j \<longleftrightarrow> (\<exists>a xs. j = Some a \<and> view a = JArray xs)"
    using assms(1) unfolding jansson_ok_def by (elim conjE)
  then show "json_is_array J (Some a)" using assms(2) by blast
  have "\<forall>a xs. view a = JArray xs \<longrightarrow> map view (json_array_elements J a) = xs"
    using assms(1) unfolding jansson_ok_def by (elim conjE)
  then show "map view (json_array_elements J a) = xs" using assms(2) by blast
qed

lemma jansson_integer_value: "jansson_ok J view \<Longrightarrow> view j = JInt i \<Longrightarrow> json_integer_value J j = i"
proof -
  assume "jansson_ok J view" and v: "view j = JInt i"
  then have "\<forall>j. json_integer_value J j = (case view j of JInt i \<Rightarrow> i | _ \<Rightarrow> 0)"
    unfolding jansson_ok_def by (elim conjE)
  then show ?thesis using v by simp
qed

lemma jansson_string_value: "jansson_ok J view \<Longrightarrow> view j = JString s \<Longrightarrow> json_string_value J (Some j) = Some s"
proof -
  assume "jansson_ok J view" and v: "view j = JString s"
  then have "\<forall>j. json_string_value J j = (case map_option view j of Some (JString s) \<Rightarrow> Some s | _ \<Rightarrow> None)"
    unfolding jansson_ok_def by (elim conjE)
  then show ?thesis using v by simp
qed

lemma jansson_unpack:
  assumes "jansson_ok J view" and "view j = JObject kvs" and "map (unpack_one kvs) spec = map Some us"
  obtains vs where "json_unpack_ex J (Some j) spec = (0, vs)" and "map (map_unpacked view) vs = us"
proof -
  have "\<forall>j kvs spec us. view j = JObject kvs \<longrightarrow> map (unpack_one kvs) spec = map Some us \<longrightarrow>
      (\<exists>vs. json_unpack_ex J (Some j) spec = (0, vs) \<and> map (map_unpacked view) vs = us)"
    using assms(1) unfolding jansson_ok_def by (elim conjE)
  then show thesis using assms(2,3) that by blast
qed

lemma bitmap_from_json_array:
  assumes J: "jansson_ok J view"
  shows "map view vs = map (\<lambda>i. JInt (int i)) is \<Longrightarrow> bitmap_from_json_loop J vs bm = from_array_loop (map int is) bm"
proof (induction vs arbitrary: "is" bm)
  case (Cons v vs)
  then obtain i js where "is = i # js" "view v = JInt (int i)" "map view vs = map (\<lambda>i. JInt (int i)) js" by auto
  then show ?case using Cons.IH jansson_integer_value [OF J] by simp
qed simp

lemma nrm_bitmap_json_back:
  assumes J: "jansson_ok J view" and wf: "bitmap_wf b" and a: "view a = JArray (map (\<lambda>i. JInt (int i)) (bitmap_elems b))"
  shows "nrm_bitmap_from_json J (Some b0) (Some a) = Inr (0, Some b)"
proof -
  obtain b1 where b1: "nrm_bitmap_reset (Some b0) = Inr (0, b1)" by (simp add: nrm_bitmap_reset_def)
  have "from_array_loop (map int (bitmap_elems b)) (Some b1) = Some b"
    using nrm_bitmap_from_array_elems [OF wf, of b0] b1 by (simp add: nrm_bitmap_from_array_def)
  then show ?thesis using b1 bitmap_from_json_array [OF J jansson_elements(2) [OF J a]] jansson_elements(1) [OF J a]
    by (simp add: nrm_bitmap_from_json_def)
qed


lemma unpacked_view:
  assumes "map (map_unpacked view) vs = us"
  shows "map_option view (unpacked_obj vs i) = unpacked_obj us i" and "unpacked_str vs i = unpacked_str us i"
    and "unpacked_real vs i = unpacked_real us i"
  unfolding assms [symmetric]
  by (auto simp: unpacked_obj_def unpacked_str_def unpacked_real_def split: unpacked.split)

definition scope_tree :: "nrm_scope \<Rightarrow> json" where
  "scope_tree s =
     JObject [(''uuid'', JString (scope_uuid s)), (''cpu'', JArray (map (\<lambda>i. JInt (int i)) (bitmap_elems (maps s ! 0)))),
       (''numa'', JArray (map (\<lambda>i. JInt (int i)) (bitmap_elems (maps s ! 1)))),
       (''gpu'', JArray (map (\<lambda>i. JInt (int i)) (bitmap_elems (maps s ! 2))))]"

lemma yields_scope:
  assumes J: "jansson_ok J view" and s: "scope_wf s" and u: "plain (scope_uuid s)"
  shows "\<exists>r. nrm_scope_to_json J (Some s) = Inr r \<and> yields view r (scope_tree s)"
proof -
  obtain a b c where m: "maps s = [a, b, c]" "bitmap_wf a" "bitmap_wf b" "bitmap_wf c"
    by (rule scope_cases [OF s])
  have "yields view (json_pack J [(''uuid'', Pack_s_star (Some (scope_uuid s))), (''cpu'', Pack_o (nrm_bitmap_to_json J (Some a))),
      (''numa'', Pack_o (nrm_bitmap_to_json J (Some b))), (''gpu'', Pack_o (nrm_bitmap_to_json J (Some c)))]) (scope_tree s)"
    unfolding scope_tree_def m(1) using u m yields_bitmap [OF J]
    by (intro yields_pack [OF J]) (simp_all add: pack_view_yields numeral_eq_Suc)
  then show ?thesis using m by (simp add: nrm_scope_to_json_def scope_map_def numeral_eq_Suc)
qed

lemma nrm_scope_json_back:
  assumes J: "jansson_ok J view" and s: "scope_wf s" and s0: "scope_wf s0" and j: "view j = scope_tree s"
  shows "nrm_scope_from_json J (Some s0) (Some j) = Inr (0, Some s)"
proof -
  obtain a b c where m: "maps s = [a, b, c]" "bitmap_wf a" "bitmap_wf b" "bitmap_wf c"
    by (rule scope_cases [OF s])
  obtain a0 b0 c0 where m0: "maps s0 = [a0, b0, c0]" by (rule scope_cases [OF s0])
  let ?arr = "\<lambda>b. JArray (map (\<lambda>i. JInt (int i)) (bitmap_elems b))"
  have us: "map (unpack_one [(''uuid'', JString (scope_uuid s)), (''cpu'', ?arr a), (''numa'', ?arr b), (''gpu'', ?arr c)]) scope_unpack_spec
      = map Some [UStr (scope_uuid s), UObj (?arr a), UObj (?arr b), UObj (?arr c)]"
    by (simp add: scope_unpack_spec_def unpack_one_def)
  have "view j = JObject [(''uuid'', JString (scope_uuid s)), (''cpu'', ?arr a), (''numa'', ?arr b), (''gpu'', ?arr c)]"
    using j by (simp add: scope_tree_def m(1) numeral_eq_Suc)
  from jansson_unpack [OF J this us] obtain vs where vs: "json_unpack_ex J (Some j) scope_unpack_spec = (0, vs)"
    "map (map_unpacked view) vs = [UStr (scope_uuid s), UObj (?arr a), UObj (?arr b), UObj (?arr c)]" by metis
  note v = unpacked_view [OF vs(2)]
  have str: "unpacked_str vs 0 = Some (scope_uuid s)" using v(2) [of 0] by (simp add: unpacked_str_def)
  obtain x y z where o: "unpacked_obj vs 1 = Some x" "view x = ?arr a" "unpacked_obj vs 2 = Some y" "view y = ?arr b"
    "unpacked_obj vs 3 = Some z" "view z = ?arr c"
    using v(1) [of 1] v(1) [of 2] v(1) [of 3] by (auto simp: unpacked_obj_def numeral_eq_Suc)
  show ?thesis using vs(1) str o m m0 nrm_bitmap_json_back [OF J]
    by (cases s; cases s0) (simp add: nrm_scope_from_json_def scope_map_from_json_def scope_map_def numeral_eq_Suc)
qed


definition tree_int :: "json \<Rightarrow> int" where
  "tree_int v = (case v of JInt i \<Rightarrow> i | _ \<Rightarrow> 0)"

lemma bitmap_from_json_loop_values:
  assumes J: "jansson_ok J view"
  shows "bitmap_from_json_loop J vs bm = from_array_loop (map (\<lambda>v. tree_int (view v)) vs) bm"
proof -
  have "\<forall>j. json_integer_value J j = (case view j of JInt i \<Rightarrow> i | _ \<Rightarrow> 0)" using J unfolding jansson_ok_def by (elim conjE)
  then show ?thesis by (induction vs arbitrary: bm) (simp_all add: tree_int_def)
qed

lemma yields_actuator:
  assumes J: "jansson_ok J view" and a: "plain (act_uuid a)" "pred_option plain (act_clientid a)" "finite_double (act_value a)"
    and u: "act_type a = NRM_ACTUATOR_TYPE_DISCRETE \<longrightarrow> (\<exists>cs. act_u a = Choices cs \<and> list_all finite_double cs)"
  shows "\<exists>r sub. nrm_actuator_to_json J (Some a) = Inr r \<and> yields view r
     (JObject [(''uuid'', JString (act_uuid a)), (''clientid'', string_tree (act_clientid a)), (''value'', JReal (act_value a)),
       (''type'', JString (nrm_actuator_type_t2s (act_type a))), (''subtype'', sub)])"
proof -
  have c: "pack_view view (Pack_o_opt (nrm_uuid_to_json J (act_clientid a))) = Some (Some (string_tree (act_clientid a)))"
    using a(2) yields_string [OF J] by (cases "act_clientid a") (auto simp: nrm_uuid_to_json_def string_tree_def pack_view_yields)
  have "plain (nrm_actuator_type_t2s (act_type a))"
    by (simp add: nrm_actuator_type_t2s_def nrm_actuator_type_table_def plain_def)
  then have pack: "yields view (json_pack J [(''uuid'', Pack_s (Some (act_uuid a))), (''clientid'', Pack_o_opt (nrm_uuid_to_json J (act_clientid a))),
      (''value'', Pack_f (act_value a)), (''type'', Pack_s (Some (nrm_actuator_type_t2s (act_type a)))), (''subtype'', Pack_o_opt sub)])
     (JObject [(''uuid'', JString (act_uuid a)), (''clientid'', string_tree (act_clientid a)), (''value'', JReal (act_value a)),
       (''type'', JString (nrm_actuator_type_t2s (act_type a))), (''subtype'', d)])"
    if "yields view sub d \<or> sub = None \<and> d = JNull" for sub d
    using a c that by (intro yields_pack [OF J]) (simp_all add: pack_view_yields(2) [of view sub])
  show ?thesis
  proof (cases "act_type a = NRM_ACTUATOR_TYPE_DISCRETE")
    case True
    then obtain cs where cs: "act_u a = Choices cs" "list_all finite_double cs" using u by blast
    have "yields view (nrm_vector_d_to_json J cs) (JArray (map JReal cs))"
      unfolding nrm_vector_d_to_json_def using cs(2) yields_real [OF J] by (intro yields_array_of [OF J]) (simp add: list_all_iff)
    then have "yields view (json_pack J [(''choices'', Pack_o_opt (nrm_vector_d_to_json J cs))]) (JObject [(''choices'', JArray (map JReal cs))])"
      by (intro yields_pack [OF J]) (simp_all add: pack_view_yields)
    then show ?thesis using pack True cs(1)
      by (fastforce simp: nrm_actuator_to_json_def nrm_actuator_discrete_to_json_def actuator_choices_def)
  next
    case False
    then show ?thesis using pack [of None JNull] by (auto simp: nrm_actuator_to_json_def)
  qed
qed


section \<open>Properties\<close>

text \<open>
  A library over the trees themselves: it has the documented behaviour, and the witnesses below run the
  conversions on it.
\<close>

definition tree_pack_value :: "json pack_arg \<Rightarrow> json option option" where
  "tree_pack_value a =
     (case a of
        Pack_s s \<Rightarrow> map_option (\<lambda>s. Some (JString s)) s
      | Pack_s_star s \<Rightarrow> Some (map_option JString s)
      | Pack_s_opt s \<Rightarrow> Some (Some (string_tree s))
      | Pack_o j \<Rightarrow> map_option Some j
      | Pack_o_opt j \<Rightarrow> Some (Some (case j of None \<Rightarrow> JNull | Some v \<Rightarrow> v))
      | Pack_f d \<Rightarrow> (case d of DFin _ \<Rightarrow> Some (Some (JReal d)) | _ \<Rightarrow> None)
      | Pack_I i \<Rightarrow> Some (Some (JInt i)))"

fun tree_pack :: "(string \<times> json pack_arg) list \<Rightarrow> (string \<times> json) list option" where
  "tree_pack [] = Some []"
| "tree_pack ((k, a) # kas) =
     (case (tree_pack_value a, tree_pack kas) of
        (Some None, Some kvs) \<Rightarrow> Some kvs
      | (Some (Some v), Some kvs) \<Rightarrow> Some ((k, v) # kvs)
      | _ \<Rightarrow> None)"

definition tree_unpack :: "json option \<Rightarrow> unpack_spec \<Rightarrow> int \<times> json unpacked list" where
  "tree_unpack j spec =
     (case j of
        Some (JObject kvs) \<Rightarrow>
          if list_all (\<lambda>e. unpack_one kvs e \<noteq> None) spec then (0, map (\<lambda>e. the (unpack_one kvs e)) spec) else (-1, [])
      | _ \<Rightarrow> (-1, []))"

definition tree_library :: "json jansson" where
  "tree_library =
     \<lparr>json_array = Some (JArray []),
      json_array_append_new = (\<lambda>r x. case (r, x) of (Some (JArray xs), Some v) \<Rightarrow> Some (JArray (xs @ [v])) | _ \<Rightarrow> r),
      json_integer = (\<lambda>i. Some (JInt i)),
      json_real = (\<lambda>d. case d of DFin _ \<Rightarrow> Some (JReal d) | _ \<Rightarrow> None),
      json_string = (\<lambda>s. Some (JString s)),
      json_is_array = (\<lambda>j. case j of Some (JArray _) \<Rightarrow> True | _ \<Rightarrow> False),
      json_array_elements = (\<lambda>j. case j of JArray xs \<Rightarrow> xs | _ \<Rightarrow> []),
      json_integer_value = tree_int,
      json_real_value = (\<lambda>j. case j of JReal d \<Rightarrow> d | _ \<Rightarrow> DFin 0),
      json_string_value = (\<lambda>j. case j of Some (JString s) \<Rightarrow> Some s | _ \<Rightarrow> None),
      json_pack = (\<lambda>kas. map_option JObject (tree_pack kas)),
      json_unpack_ex = tree_unpack\<rparr>"

lemma tree_pack_value_view: "pack_view (\<lambda>j. j) a = Some v \<Longrightarrow> tree_pack_value a = Some v"
  by (cases a) (auto simp: pack_view_def tree_pack_value_def string_tree_def finite_double_def split: option.splits if_splits)

lemma tree_pack_object: "pack_object (\<lambda>j. j) kas = Some kvs \<Longrightarrow> tree_pack kas = Some kvs"
proof (induction kas arbitrary: kvs)
  case (Cons ka kas)
  obtain k a where ka: "ka = (k, a)" by (cases ka)
  obtain v rest where v: "pack_view (\<lambda>j. j) a = Some v" "pack_object (\<lambda>j. j) kas = Some rest"
    using Cons.prems ka by (auto split: option.splits)
  then show ?case using Cons ka tree_pack_value_view [OF v(1)] by (auto split: option.splits)
qed simp

lemma tree_unpack_all:
  assumes "map (unpack_one kvs) spec = map Some us"
  shows "tree_unpack (Some (JObject kvs)) spec = (0, us)"
proof -
  have "list_all (\<lambda>e. unpack_one kvs e \<noteq> None) spec \<and> map (\<lambda>e. the (unpack_one kvs e)) spec = us"
    using assms by (induction spec arbitrary: us) auto
  then show ?thesis by (simp add: tree_unpack_def)
qed

lemma tree_library_ok: "jansson_ok tree_library (\<lambda>j. j)"
proof -
  have "fst (tree_unpack (Some j) spec) = -1" if "\<nexists>kvs. j = JObject kvs" for j spec
    using that by (cases j) (auto simp: tree_unpack_def)
  moreover have "fst (tree_unpack (Some (JObject kvs)) spec) = -1" if "None \<in> unpack_one kvs ` set spec" for kvs spec
    using that by (force simp: tree_unpack_def list_all_iff)
  ultimately show ?thesis
    unfolding jansson_ok_def
    using tree_pack_object tree_unpack_all
    by (auto simp: tree_library_def tree_int_def finite_double_def unpacked.map_id0 [unfolded id_def] tree_unpack_def split: option.splits json.splits)
qed


text \<open>
  C25. A scope survives its JSON form: \<open>nrm_scope_to_json\<close> packs the uuid and the three index lists, and
  \<open>nrm_scope_from_json\<close> on any scope makes it equal to the first.  On a value that is not an object it returns
  \<open>-NRM_EINVAL\<close> and leaves the scope as it was.
\<close>

theorem nrm_scope_json_roundtrip:
  assumes J: "jansson_ok J view" and s: "scope_wf s" "plain (scope_uuid s)" and s0: "scope_wf s0"
  shows "(\<exists>j. nrm_scope_to_json J (Some s) = Inr (Some j) \<and> nrm_scope_from_json J (Some s0) (Some j) = Inr (0, Some s))
     \<and> nrm_scope_from_json J (Some s0) None = Inr (- NRM_EINVAL, Some s0)
     \<and> (\<forall>j. (\<nexists>kvs. view j = JObject kvs) \<longrightarrow> nrm_scope_from_json J (Some s0) (Some j) = Inr (- NRM_EINVAL, Some s0))"
proof (intro conjI allI impI)
  show "\<exists>j. nrm_scope_to_json J (Some s) = Inr (Some j) \<and> nrm_scope_from_json J (Some s0) (Some j) = Inr (0, Some s)"
    using yields_scope [OF J s] nrm_scope_json_back [OF J s(1) s0] by (auto simp: yields_def)
  have "\<forall>spec. fst (json_unpack_ex J None spec) = -1" using J unfolding jansson_ok_def by (elim conjE)
  then have "fst (json_unpack_ex J None scope_unpack_spec) = -1" by blast
  then show "nrm_scope_from_json J (Some s0) None = Inr (- NRM_EINVAL, Some s0)"
    by (cases "json_unpack_ex J None scope_unpack_spec") (simp add: nrm_scope_from_json_def)
next
  fix j assume "\<nexists>kvs. view j = JObject kvs"
  moreover have "\<forall>j spec. (\<nexists>kvs. view j = JObject kvs) \<longrightarrow> fst (json_unpack_ex J (Some j) spec) = -1"
    using J unfolding jansson_ok_def by (elim conjE)
  ultimately have "fst (json_unpack_ex J (Some j) scope_unpack_spec) = -1" by blast
  then show "nrm_scope_from_json J (Some s0) (Some j) = Inr (- NRM_EINVAL, Some s0)"
    by (cases "json_unpack_ex J (Some j) scope_unpack_spec") (simp add: nrm_scope_from_json_def)
qed

theorem nrm_scope_json_roundtrip_witness:
  "\<exists>j. nrm_scope_to_json tree_library (Some (nrm_scope_create ''a'')) = Inr (Some j)
     \<and> nrm_scope_from_json tree_library (Some (nrm_scope_create ''b'')) (Some j) = Inr (0, Some (nrm_scope_create ''a''))"
proof -
  have "plain (scope_uuid (nrm_scope_create ''a''))" by (simp add: nrm_scope_create_def plain_def)
  then show ?thesis
    using nrm_scope_json_roundtrip [OF tree_library_ok scope_wf_create [of "''a''"] _ scope_wf_create [of "''b''"]] by blast
qed

text \<open>
  C24. Pretty-printing: a message whose data matches its type, with ASCII text and finite numbers, is packed
  without a fault into exactly one JSON tree, its type name over the object or list it carries, whichever of
  the message kinds and targets it is.
\<close>

theorem nrm_msg_to_json_prints:
  assumes "jansson_ok J view" and "msg_consistent m" and "msg_plain m"
  shows "\<exists>j. nrm_msg_to_json J (Some m) = Inr (Some j) \<and> view j = msg_tree m"
  using yields_msg [OF assms] by (auto simp: yields_def)

theorem nrm_msg_to_json_prints_witness:
  "\<exists>j. nrm_msg_to_json tree_library (Some \<lparr>msg_type = NRM_MSG_TYPE_REMOVE, msg_data = DataRemove (nrm_msg_remove_new NRM_MSG_TARGET_TYPE_SCOPE ''s'')\<rparr>) = Inr (Some j)
     \<and> j = JObject [(''type'', JString ''REMOVE''), (''data'', JObject [(''type'', JString ''SCOPE''), (''uuid'', JString ''s'')])]"
  using nrm_msg_to_json_prints [OF tree_library_ok, of "\<lparr>msg_type = NRM_MSG_TYPE_REMOVE, msg_data = DataRemove (nrm_msg_remove_new NRM_MSG_TARGET_TYPE_SCOPE ''s'')\<rparr>"]
  by (simp add: msg_consistent_def msg_plain_def nrm_msg_remove_new_def plain_def msg_tree_def typed_tree_def
      nrm_msg_type_t2s_def nrm_msg_type_table_def nrm_msg_target_table_def msg_types msg_targets)

text \<open>
  The number of nanoseconds is written in decimal and read back: a time stamp survives its JSON form.
\<close>

theorem nrm_time_json_roundtrip:
  assumes J: "jansson_ok J view" and t: "time_wf t"
  shows "\<exists>j. nrm_time_to_json J t = Inr j \<and> nrm_time_from_json J t0 (Some j) = Inr (0, t)"
proof -
  have ns: "in_s64 (nrm_time_tons t)" by (simp add: nrm_time_tons_def s64_range)
  have d: "plain (dec_nat n)" for n using set_dec_nat [of n] by (auto simp: plain_def list_all_iff)
  then have "plain (dec_int (nrm_time_tons t))" by (simp add: dec_int_def) (simp add: plain_def)
  from yields_string [OF J this] obtain j where j: "json_string J (dec_int (nrm_time_tons t)) = Some j" "view j = JString (dec_int (nrm_time_tons t))"
    by (auto simp: yields_def)
  have "dec_int (nrm_time_tons t) \<noteq> []" by (simp add: dec_int_def dec_nat_nonempty)
  moreover have "nrm_time_fromns (nrm_time_tons t) = t"
    using t by (cases t) (simp add: nrm_time_tons_wf nrm_time_fromns_def time_wf_def sdiv_nonneg smod_nonneg)
  ultimately show ?thesis using j jansson_string_value [OF J j(2)] strtol_dec_int [OF ns]
    by (simp add: nrm_time_to_json_def nrm_time_from_json_def sscanf_int64_def)
qed

text \<open>
  An actuator does not survive its JSON form: \<open>nrm_actuator_to_json\<close> always writes a \<open>clientid\<close> (null
  when there is none), and \<open>nrm_actuator_from_json\<close>, which stores the JSON object in a \<open>char *\<close>, reads
  the object as characters.
\<close>

theorem nrm_actuator_json_confuses:
  assumes J: "jansson_ok J view" and a: "plain (act_uuid a)" "pred_option plain (act_clientid a)" "finite_double (act_value a)"
    and u: "act_type a = NRM_ACTUATOR_TYPE_DISCRETE \<longrightarrow> (\<exists>cs. act_u a = Choices cs \<and> list_all finite_double cs)"
  shows "\<exists>j. nrm_actuator_to_json J (Some a) = Inr (Some j) \<and> nrm_actuator_from_json J (Some b) (Some j) = Inl WrongUnion"
proof -
  obtain j sub where j: "nrm_actuator_to_json J (Some a) = Inr (Some j)"
    "view j = JObject [(''uuid'', JString (act_uuid a)), (''clientid'', string_tree (act_clientid a)), (''value'', JReal (act_value a)),
       (''type'', JString (nrm_actuator_type_t2s (act_type a))), (''subtype'', sub)]"
    using yields_actuator [OF J a u] by (auto simp: yields_def)
  have "map (unpack_one [(''uuid'', JString (act_uuid a)), (''clientid'', string_tree (act_clientid a)), (''value'', JReal (act_value a)),
       (''type'', JString (nrm_actuator_type_t2s (act_type a))), (''subtype'', sub)]) actuator_unpack_spec
     = map Some [UStr (act_uuid a), UObj (string_tree (act_clientid a)), UStr (nrm_actuator_type_t2s (act_type a)), UReal (act_value a), UObj sub]"
    by (simp add: actuator_unpack_spec_def unpack_one_def)
  from jansson_unpack [OF J j(2) this] obtain vs where vs: "json_unpack_ex J (Some j) actuator_unpack_spec = (0, vs)"
    "map (map_unpacked view) vs = [UStr (act_uuid a), UObj (string_tree (act_clientid a)), UStr (nrm_actuator_type_t2s (act_type a)), UReal (act_value a), UObj sub]"
    by metis
  have "unpacked_obj vs 1 \<noteq> None" using unpacked_view(1) [OF vs(2), of 1]
    by (cases "unpacked_obj vs 1") (simp_all add: unpacked_obj_def [of "[_, _, _, _, _]"])
  moreover have "unpacked_str vs 0 = Some (act_uuid a)" using unpacked_view(2) [OF vs(2), of 0] by (simp add: unpacked_str_def)
  ultimately show ?thesis using j(1) vs(1) by (simp add: nrm_actuator_from_json_def Let_def)
qed

theorem nrm_actuator_json_confuses_witness:
  "\<exists>j. nrm_actuator_to_json tree_library (Some (nrm_actuator_discrete_create ''a'')) = Inr (Some j)
     \<and> nrm_actuator_from_json tree_library (Some (nrm_actuator_discrete_create ''b'')) (Some j) = Inl WrongUnion"
  by (rule nrm_actuator_json_confuses [OF tree_library_ok])
    (simp_all add: nrm_actuator_discrete_create_def plain_def finite_double_def is_double_def)

text \<open>
  \<open>nrm_bitmap_from_json\<close> keeps the low 32 bits of every element, and takes an element that is not an integer for 0:
  the bits set are those of the reduced values below 2048.
\<close>

theorem nrm_bitmap_from_json_truncates:
  assumes J: "jansson_ok J view" and a: "view a = JArray vs"
  shows "\<exists>b. nrm_bitmap_from_json J (Some b0) (Some a) = Inr (0, Some b) \<and> bitmap_wf b
     \<and> (\<forall>i. bitmap_mem b i \<longleftrightarrow> i < NRM_BITMAP_MAX \<and> int i \<in> u32 ` tree_int ` set vs)"
proof -
  have "map (\<lambda>v. tree_int (view v)) (json_array_elements J a) = map tree_int vs"
    unfolding jansson_elements(2) [OF J a, symmetric] by simp
  then have "bitmap_from_json_loop J (json_array_elements J a) bm = from_array_loop (map tree_int vs) bm" for bm
    by (simp add: bitmap_from_json_loop_values [OF J])
  then show ?thesis using jansson_elements(1) [OF J a] nrm_bitmap_from_array_mem [of b0 "map tree_int vs"]
    by (cases "nrm_bitmap_reset (Some b0)") (auto simp: nrm_bitmap_from_json_def nrm_bitmap_from_array_def)
qed

end
