(* ===== verification/NRM_Tools.thy ===== *)
theory NRM_Tools
  imports NRM_Json
begin

unbundle bit_operations_syntax

text \<open>
  What every program of the library starts with: the log of src/log.c, the environment variables and the
  globals of src/nrm.c, and the command line parser of src/tools.c with the option scanner of the C
  library under it.

  \<open>getopt_long\<close> is modelled as the sources use it.  The first scan of every program starts its option string
  with \<open>+\<close>, which makes the scanner stop at the first argument that is not an option; a later scan that
  sets \<open>optind\<close> to 1 and not to 0 does not initialise the scanner again, so the order stays (getopt(3)).
  Reading \<open>argv\<close> at \<open>argc\<close> gives NULL, reading past it leaves the array.
\<close>

section \<open>The log\<close>

definition NRM_LOG_QUIET :: int where "NRM_LOG_QUIET = 0"
definition NRM_LOG_ERROR :: int where "NRM_LOG_ERROR = 1"
definition NRM_LOG_WARNING :: int where "NRM_LOG_WARNING = 2"
definition NRM_LOG_NORMAL :: int where "NRM_LOG_NORMAL = 3"
definition NRM_LOG_INFO :: int where "NRM_LOG_INFO = 4"
definition NRM_LOG_DEBUG :: int where "NRM_LOG_DEBUG = 5"

lemmas log_consts = NRM_LOG_QUIET_def NRM_LOG_ERROR_def NRM_LOG_WARNING_def NRM_LOG_NORMAL_def NRM_LOG_INFO_def NRM_LOG_DEBUG_def

text \<open>The stream is its number.\<close>

record nrm_log =
  log_level :: int
  log_initialized :: int
  log_fd :: "nat option"
  log_namespace :: "string option"

definition nrm_log_start :: nrm_log where
  "nrm_log_start = \<lparr>log_level = NRM_LOG_NORMAL, log_initialized = 0, log_fd = None, log_namespace = None\<rparr>"

definition nrm_log_level_string :: "string list" where
  "nrm_log_level_string = [''quiet'', ''error'', ''warning'', ''normal'', ''info'', ''debug'']"

definition nrm_log_init :: "nat option \<Rightarrow> string option \<Rightarrow> nrm_log \<Rightarrow> int \<times> nrm_log" where
  "nrm_log_init f nm lg =
     (if f = None \<or> nm = None then (- NRM_EINVAL, lg)
      else (0, \<lparr>log_level = NRM_LOG_NORMAL, log_initialized = 1, log_fd = f, log_namespace = nm\<rparr>))"

definition nrm_log_setlevel :: "int \<Rightarrow> nrm_log \<Rightarrow> int \<times> nrm_log" where
  "nrm_log_setlevel level lg =
     (let level = (if level < 0 then 0 else level);
          level = (if level > NRM_LOG_DEBUG then NRM_LOG_DEBUG else level)
      in (0, lg\<lparr>log_level := level\<rparr>))"

text \<open>What is written to which stream; \<open>msg\<close> is the formatted text.  The level indexes the table of names.\<close>

definition nrm_log_printf :: "nrm_log \<Rightarrow> int \<Rightarrow> string \<Rightarrow> nat \<Rightarrow> string \<Rightarrow> (nat \<times> string) option exec" where
  "nrm_log_printf lg level file line msg =
     (if level > log_level lg then Inr None
      else if level < 0 \<or> level \<ge> int (length nrm_log_level_string) then Inl OutOfBounds
      else bindE (derefE (log_fd lg)) (\<lambda>f.
           bindE (derefE (log_namespace lg)) (\<lambda>nm.
           let tab = [CHR 0x3A, CHR 0x09]; lv = nrm_log_level_string ! nat level in
           Inr (Some (f,
             (if log_level lg = NRM_LOG_DEBUG then nm @ tab @ lv @ tab @ file @ tab @ dec_nat line @ tab
              else nm @ tab @ lv @ tab) @ msg)))))"

definition nrm_log_printmsg :: "'j jansson \<Rightarrow> ('j option \<Rightarrow> string option) \<Rightarrow> nrm_log \<Rightarrow> int \<Rightarrow> nrm_msg option \<Rightarrow> (nat \<times> string) option exec" where
  "nrm_log_printmsg J dumps lg level msg =
     (if level > log_level lg then Inr None
      else bindE (derefE (log_fd lg)) (\<lambda>f.
           case msg of
             None \<Rightarrow> Inr (Some (f, ''NULL'' @ [CHR 0x0A]))
           | Some m \<Rightarrow> bindE (nrm_msg_fprintf J dumps msg) (\<lambda>(_, s). Inr (Some (f, s)))))"


section \<open>Environment and globals\<close>

record nrm_globals =
  nrm_upstream_uri :: string
  nrm_upstream_rpc_port :: int
  nrm_upstream_pub_port :: int
  nrm_ratelimit :: int
  nrm_timeout :: int
  nrm_transmit :: int
  nrm_zsys_handler :: bool

definition NRM_DEFAULT_UPSTREAM_URI :: string where "NRM_DEFAULT_UPSTREAM_URI = ''tcp://127.0.0.1''"
definition NRM_DEFAULT_UPSTREAM_RPC_PORT :: int where "NRM_DEFAULT_UPSTREAM_RPC_PORT = 3456"
definition NRM_DEFAULT_UPSTREAM_PUB_PORT :: int where "NRM_DEFAULT_UPSTREAM_PUB_PORT = 2345"
definition NRM_DEFAULT_RATELIMIT :: int where "NRM_DEFAULT_RATELIMIT = 10000000"
definition NRM_DEFAULT_TRANSMIT :: int where "NRM_DEFAULT_TRANSMIT = 1"
definition NRM_DEFAULT_TIMEOUT :: int where "NRM_DEFAULT_TIMEOUT = 1000"

text \<open>The initial values; czmq handles signals until told otherwise.\<close>

definition nrm_globals_start :: nrm_globals where
  "nrm_globals_start =
     \<lparr>nrm_upstream_uri = NRM_DEFAULT_UPSTREAM_URI, nrm_upstream_rpc_port = NRM_DEFAULT_UPSTREAM_RPC_PORT,
      nrm_upstream_pub_port = NRM_DEFAULT_UPSTREAM_PUB_PORT, nrm_ratelimit = NRM_DEFAULT_RATELIMIT,
      nrm_timeout = NRM_DEFAULT_TIMEOUT, nrm_transmit = NRM_DEFAULT_TRANSMIT, nrm_zsys_handler = True\<rparr>"

text \<open>One variable of \<open>nrm_init\<close>: absent, it is skipped; otherwise it is parsed and stored, or its error ends the call.\<close>

definition init_variable ::
  "string option \<Rightarrow> (string \<Rightarrow> int \<times> int option) \<Rightarrow> (int \<Rightarrow> nrm_globals \<Rightarrow> nrm_globals) \<Rightarrow> nrm_globals \<Rightarrow> int \<times> nrm_globals" where
  "init_variable var parse store g =
     (case var of
        None \<Rightarrow> (0, g)
      | Some s \<Rightarrow> (case parse s of (err, v) \<Rightarrow> (err, case v of None \<Rightarrow> g | Some v \<Rightarrow> store v g)))"

definition nrm_init :: "(string \<Rightarrow> string option) \<Rightarrow> nrm_globals \<Rightarrow> nrm_log \<Rightarrow> int \<times> nrm_globals \<times> nrm_log" where
  "nrm_init getenv g lg =
     (let lg = (if log_initialized lg = 0 then snd (nrm_log_init (Some 2) (Some ''libnrm'') lg) else lg);
          g = (case getenv ''NRM_UPSTREAM_URI'' of None \<Rightarrow> g | Some uri \<Rightarrow> g\<lparr>nrm_upstream_uri := uri\<rparr>);
          (err, g) = init_variable (getenv ''NRM_UPSTREAM_RPC_PORT'') nrm_parse_uint (\<lambda>v g. g\<lparr>nrm_upstream_rpc_port := v\<rparr>) g
      in if err \<noteq> 0 then (err, g, lg) else
      let (err, g) = init_variable (getenv ''NRM_UPSTREAM_PUB_PORT'') nrm_parse_uint (\<lambda>v g. g\<lparr>nrm_upstream_pub_port := v\<rparr>) g
      in if err \<noteq> 0 then (err, g, lg) else
      let (err, g) = init_variable (getenv ''NRM_RATELIMIT'') nrm_parse_llu (\<lambda>v g. g\<lparr>nrm_ratelimit := v\<rparr>) g
      in if err \<noteq> 0 then (err, g, lg) else
      let (err, g) = init_variable (getenv ''NRM_TRANSMIT'') nrm_parse_int (\<lambda>v g. g\<lparr>nrm_transmit := v\<rparr>) g
      in if err \<noteq> 0 then (err, g, lg) else
      let (err, g) = init_variable (getenv ''NRM_TIMEOUT'') nrm_parse_uint (\<lambda>v g. g\<lparr>nrm_timeout := v\<rparr>) g
      in if err \<noteq> 0 then (err, g, lg) else
      (0, g\<lparr>nrm_zsys_handler := False\<rparr>, lg))"

definition nrm_finalize :: int where "nrm_finalize = 0"


section \<open>The option scanner\<close>

record long_option =
  lo_name :: string
  lo_has_arg :: bool
  lo_flag :: bool
  lo_val :: char

record getopt =
  go_optind :: nat
  go_nextchar :: string
  go_optarg :: "string option"

definition argv_at :: "string list \<Rightarrow> nat \<Rightarrow> string exec" where
  "argv_at argv i =
     (if i < length argv then Inr (argv ! i) else if i = length argv then Inl NullDeref else Inl OutOfBounds)"

text \<open>Whether a short option is known, and then whether a colon follows it.\<close>

definition short_lookup :: "string \<Rightarrow> char \<Rightarrow> bool option" where
  "short_lookup optstring c =
     (if c = CHR 0x3A \<or> c = CHR '';'' then None
      else case dropWhile (\<lambda>x. x \<noteq> c) optstring of
             [] \<Rightarrow> None
           | _ # rest \<Rightarrow> Some (rest \<noteq> [] \<and> hd rest = CHR 0x3A))"

text \<open>An exact name wins; otherwise a prefix of one name, or of several that mean the same.\<close>

definition long_lookup :: "string \<Rightarrow> long_option list \<Rightarrow> long_option option" where
  "long_lookup name opts =
     (case find (\<lambda>p. lo_name p = name) opts of
        Some p \<Rightarrow> Some p
      | None \<Rightarrow>
          (case filter (\<lambda>p. prefix name (lo_name p)) opts of
             [] \<Rightarrow> None
           | p # ps \<Rightarrow>
               if list_all (\<lambda>q. lo_has_arg q = lo_has_arg p \<and> lo_flag q = lo_flag p \<and> lo_val q = lo_val p) ps
               then Some p else None))"

definition missing :: "string \<Rightarrow> char" where
  "missing optstring = (if optstring \<noteq> [] \<and> hd optstring = CHR 0x3A then CHR 0x3A else CHR ''?'')"

definition process_long :: "string list \<Rightarrow> string \<Rightarrow> long_option list \<Rightarrow> string \<Rightarrow> getopt \<Rightarrow> getopt \<times> char" where
  "process_long argv optstring opts arg st =
     (let name = takeWhile (\<lambda>c. c \<noteq> CHR ''='') arg;
          rest = dropWhile (\<lambda>c. c \<noteq> CHR ''='') arg;
          st = st\<lparr>go_optind := go_optind st + 1, go_nextchar := []\<rparr>
      in case long_lookup name opts of
           None \<Rightarrow> (st, CHR ''?'')
         | Some p \<Rightarrow>
             let val = (if lo_flag p then CHR 0x00 else lo_val p) in
             if rest \<noteq> [] then
               (if lo_has_arg p then (st\<lparr>go_optarg := Some (tl rest)\<rparr>, val) else (st, CHR ''?''))
             else if lo_has_arg p then
               (if go_optind st < length argv
                then (st\<lparr>go_optarg := Some (argv ! go_optind st), go_optind := go_optind st + 1\<rparr>, val)
                else (st, missing optstring))
             else (st, val))"

definition process_short :: "string list \<Rightarrow> string \<Rightarrow> getopt \<Rightarrow> (getopt \<times> char) exec" where
  "process_short argv optstring st =
     (let c = hd (go_nextchar st); rest = tl (go_nextchar st);
          st = st\<lparr>go_nextchar := rest, go_optind := (if rest = [] then go_optind st + 1 else go_optind st)\<rparr>
      in case short_lookup optstring c of
           None \<Rightarrow> Inr (st, CHR ''?'')
         | Some False \<Rightarrow> Inr (st, c)
         | Some True \<Rightarrow>
             if rest \<noteq> [] then Inr (st\<lparr>go_optarg := Some rest, go_optind := go_optind st + 1, go_nextchar := []\<rparr>, c)
             else if go_optind st = length argv then Inr (st, missing optstring)
             else bindE (argv_at argv (go_optind st)) (\<lambda>arg.
                  Inr (st\<lparr>go_optarg := Some arg, go_optind := go_optind st + 1\<rparr>, c)))"

text \<open>\<open>None\<close> is the result -1.\<close>

definition getopt_long :: "string list \<Rightarrow> string \<Rightarrow> long_option list \<Rightarrow> getopt \<Rightarrow> (getopt \<times> char option) exec" where
  "getopt_long argv optstring opts st =
     (let optstring = (if optstring \<noteq> [] \<and> hd optstring = CHR ''+'' then tl optstring else optstring);
          some = (\<lambda>(st, c). Inr (st, Some c))
      in if argv = [] then Inr (st, None)
      else let st = st\<lparr>go_optarg := None\<rparr> in
      if go_nextchar st \<noteq> [] then bindE (process_short argv optstring st) some
      else if go_optind st = length argv then Inr (st, None)
      else bindE (argv_at argv (go_optind st)) (\<lambda>arg.
        if arg = ''--'' then Inr (st\<lparr>go_optind := go_optind st + 1\<rparr>, None)
        else if arg = [] \<or> hd arg \<noteq> CHR ''-'' \<or> tl arg = [] then Inr (st, None)
        else if hd (tl arg) = CHR ''-'' then some (process_long argv optstring opts (drop 2 arg) st)
        else bindE (process_short argv optstring (st\<lparr>go_nextchar := tl arg\<rparr>)) some))"

text \<open>The scan advances: what is left to scan shrinks with every option.\<close>

definition left_to_scan :: "string list \<Rightarrow> getopt \<Rightarrow> nat" where
  "left_to_scan argv st =
     (if go_nextchar st = [] then 0 else length (go_nextchar st))
     + sum_list (map (\<lambda>s. length s + 1) (drop (go_optind st + (if go_nextchar st = [] then 0 else 1)) argv))"


lemma sum_drop_Suc: "n < length xs \<Longrightarrow> sum_list (map f (drop n xs)) = f (xs ! n) + sum_list (map f (drop (Suc n) xs))"
  by (simp add: Cons_nth_drop_Suc [symmetric])

lemma sum_drop_le: "sum_list (map f (drop (Suc n) xs)) \<le> (sum_list (map f (drop n xs)) :: nat)"
  by (cases "n < length xs") (simp_all add: sum_drop_Suc)

lemma left_to_scan_optarg [simp]: "left_to_scan argv (st\<lparr>go_optarg := x\<rparr>) = left_to_scan argv st"
  by (simp add: left_to_scan_def)

lemma process_short_advances:
  assumes "process_short argv os st = Inr (st', c)" and "go_nextchar st \<noteq> []"
  shows "left_to_scan argv st' < left_to_scan argv st"
proof -
  obtain d rest where n: "go_nextchar st = d # rest" using assms(2) by (cases "go_nextchar st") auto
  show ?thesis
  proof (cases rest)
    case Nil
    then show ?thesis using assms(1) n sum_drop_le [of "\<lambda>s. length s + 1" "Suc (go_optind st)" argv]
      by (auto simp: process_short_def left_to_scan_def Let_def argv_at_def split: option.splits bool.splits if_splits)
  next
    case (Cons e es)
    then show ?thesis using assms(1) n
      by (auto simp: process_short_def left_to_scan_def Let_def split: option.splits bool.splits if_splits)
  qed
qed

lemma process_long_advances:
  assumes "process_long argv os opts arg st = (st', c)" and "go_nextchar st = []" and "go_optind st < length argv"
  shows "left_to_scan argv st' < left_to_scan argv st"
proof -
  have "go_nextchar st' = [] \<and> go_optind st' \<in> {go_optind st + 1, go_optind st + 2}"
    using assms(1) by (auto simp: process_long_def Let_def split: option.splits if_splits)
  then show ?thesis
    using assms(2,3) sum_drop_Suc [OF assms(3), of "\<lambda>s. length s + 1"]
      sum_drop_le [of "\<lambda>s. length s + 1" "Suc (go_optind st)" argv]
    by (auto simp: left_to_scan_def)
qed

lemma getopt_long_advances:
  assumes "getopt_long argv os opts st = Inr (st', Some c)"
  shows "left_to_scan argv st' < left_to_scan argv st"
proof (cases "go_nextchar st = []")
  case False
  let ?st = "st\<lparr>go_optarg := None\<rparr>"
  obtain os' where "process_short argv os' ?st = Inr (st', c)"
    using assms False by (auto simp: getopt_long_def Let_def bindE_eq_Inr split: if_splits)
  then show ?thesis using process_short_advances [of argv os' ?st st' c] False by simp
next
  case True
  let ?st = "st\<lparr>go_optarg := None\<rparr>"
  obtain arg where arg: "argv_at argv (go_optind st) = Inr arg" "arg \<noteq> []"
    and cs: "(\<exists>os'. process_long argv os' opts (drop 2 arg) ?st = (st', c))
       \<or> (tl arg \<noteq> [] \<and> (\<exists>os'. process_short argv os' (?st\<lparr>go_nextchar := tl arg\<rparr>) = Inr (st', c)))"
    using assms True by (auto simp: getopt_long_def Let_def bindE_eq_Inr split: if_splits prod.splits)
  have i: "go_optind st < length argv" "argv ! go_optind st = arg"
    using arg(1) by (auto simp: argv_at_def split: if_splits)
  have start: "left_to_scan argv st = length arg + 1 + sum_list (map (\<lambda>s. length s + 1) (drop (Suc (go_optind st)) argv))"
    using True i sum_drop_Suc [OF i(1), of "\<lambda>s. length s + 1"] by (simp add: left_to_scan_def)
  from cs show ?thesis
  proof
    assume "\<exists>os'. process_long argv os' opts (drop 2 arg) ?st = (st', c)"
    then have "left_to_scan argv st' < left_to_scan argv ?st"
      using process_long_advances [of argv _ opts "drop 2 arg" ?st st' c] True i by auto
    then show ?thesis by simp
  next
    assume tl: "tl arg \<noteq> [] \<and> (\<exists>os'. process_short argv os' (?st\<lparr>go_nextchar := tl arg\<rparr>) = Inr (st', c))"
    then have "left_to_scan argv st' < left_to_scan argv (?st\<lparr>go_nextchar := tl arg\<rparr>)"
      using process_short_advances [of argv _ "?st\<lparr>go_nextchar := tl arg\<rparr>" st' c] by auto
    also have "\<dots> < left_to_scan argv st" unfolding start using tl by (simp add: left_to_scan_def)
    finally show ?thesis .
  qed
qed


section \<open>Command lines\<close>

definition NRM_TOOLS_ARGS_FLAG_FREQ :: int where "NRM_TOOLS_ARGS_FLAG_FREQ = 1"
definition NRM_TOOLS_ARGS_FLAG_EVENT :: int where "NRM_TOOLS_ARGS_FLAG_EVENT = 2"
definition NRM_TOOLS_ARGS_FLAG_INHERIT :: int where "NRM_TOOLS_ARGS_FLAG_INHERIT = 4"
definition NRM_TOOLS_ARGS_FLAG_MAX :: nat where "NRM_TOOLS_ARGS_FLAG_MAX = 3"

definition NRM_TOOLS_FLAGS_ISSET :: "int \<Rightarrow> int \<Rightarrow> bool" where
  "NRM_TOOLS_FLAGS_ISSET f i \<longleftrightarrow> f AND i \<noteq> 0"

record nrm_tools_args =
  ta_progname :: string
  ta_flags :: int
  ta_upstream_uri :: "string option"
  ta_pub_port :: int
  ta_rpc_port :: int
  ta_log_level :: int
  ta_ask_help :: int
  ta_ask_version :: int
  ta_freq :: double
  ta_events :: "string list option"
  ta_inheritance :: int

definition common_shortopts :: string where
  "common_shortopts = ''+:vhqVl:u:r:p:''"

definition no_argument :: "string \<Rightarrow> char \<Rightarrow> long_option" where
  "no_argument name c = \<lparr>lo_name = name, lo_has_arg = False, lo_flag = False, lo_val = c\<rparr>"

definition required_argument :: "string \<Rightarrow> char \<Rightarrow> long_option" where
  "required_argument name c = \<lparr>lo_name = name, lo_has_arg = True, lo_flag = False, lo_val = c\<rparr>"

definition common_longopts :: "long_option option list" where
  "common_longopts =
     [Some (no_argument ''help'' CHR ''h''), Some (no_argument ''version'' CHR ''V''),
      Some (required_argument ''log-level'' CHR ''l''), Some (no_argument ''quiet'' CHR ''q''),
      Some (no_argument ''verbose'' CHR ''v''), Some (required_argument ''uri'' CHR ''u''),
      Some (required_argument ''rpc'' CHR ''r''), Some (required_argument ''pub'' CHR ''p''), None]"

text \<open>
  The option tables of one call: a byte buffer and an array of fixed sizes, the common entries copied first.
  The array is scanned up to the first empty entry.
\<close>

definition full_short_size :: nat where
  "full_short_size = (length common_shortopts + 1) + 2 * NRM_TOOLS_ARGS_FLAG_MAX"

definition full_long_size :: nat where
  "full_long_size = length common_longopts + NRM_TOOLS_ARGS_FLAG_MAX"

type_synonym opt_tables = "string \<times> long_option option list \<times> nat"

text \<open>\<open>strcat\<close> and the store at \<open>longopts_idx\<close> for one extra option.\<close>

definition add_option :: "string \<Rightarrow> long_option \<Rightarrow> opt_tables \<Rightarrow> opt_tables exec" where
  "add_option fs fl = (\<lambda>(shortopts, longopts, idx).
     if length shortopts + length fs + 1 \<le> full_short_size \<and> idx < length longopts
     then Inr (shortopts @ fs, longopts[idx := Some fl], idx + 1)
     else Inl OutOfBounds)"

definition option_tables :: "int \<Rightarrow> opt_tables exec" where
  "option_tables flags =
     bindE (Inr (common_shortopts, common_longopts @ replicate NRM_TOOLS_ARGS_FLAG_MAX None, length common_longopts - 1)) (\<lambda>t.
     bindE (if NRM_TOOLS_FLAGS_ISSET flags NRM_TOOLS_ARGS_FLAG_FREQ
            then add_option ''f:'' (required_argument ''freq'' CHR ''f'') t else Inr t) (\<lambda>t.
     bindE (if NRM_TOOLS_FLAGS_ISSET flags NRM_TOOLS_ARGS_FLAG_EVENT
            then add_option ''e:'' (required_argument ''event'' CHR ''e'') t else Inr t) (\<lambda>t.
     if NRM_TOOLS_FLAGS_ISSET flags NRM_TOOLS_ARGS_FLAG_INHERIT
     then add_option ''i'' (no_argument ''inherit'' CHR ''i'') t else Inr t)))"

fun longopts_list :: "long_option option list \<Rightarrow> long_option list exec" where
  "longopts_list [] = Inl OutOfBounds"
| "longopts_list (None # _) = Inr []"
| "longopts_list (Some p # ps) = bindE (longopts_list ps) (\<lambda>l. Inr (p # l))"

definition args_defaults :: "nrm_tools_args \<Rightarrow> nrm_tools_args" where
  "args_defaults args =
     (let fl = ta_flags args;
          args = (if NRM_TOOLS_FLAGS_ISSET fl NRM_TOOLS_ARGS_FLAG_FREQ then args\<lparr>ta_freq := DFin 1\<rparr> else args);
          args = (if NRM_TOOLS_FLAGS_ISSET fl NRM_TOOLS_ARGS_FLAG_EVENT then args\<lparr>ta_events := Some []\<rparr> else args);
          args = (if NRM_TOOLS_FLAGS_ISSET fl NRM_TOOLS_ARGS_FLAG_INHERIT then args\<lparr>ta_inheritance := 0\<rparr> else args)
      in args\<lparr>ta_ask_help := 0, ta_ask_version := 0, ta_log_level := NRM_LOG_NORMAL, ta_pub_port := NRM_DEFAULT_UPSTREAM_PUB_PORT,
           ta_rpc_port := NRM_DEFAULT_UPSTREAM_RPC_PORT, ta_upstream_uri := None\<rparr>)"

text \<open>A parsed number: the error code, and the value to store when there is none.\<close>

definition store_parsed :: "int \<times> 'a option \<Rightarrow> ('a \<Rightarrow> nrm_tools_args) \<Rightarrow> nrm_tools_args \<Rightarrow> int \<times> nrm_tools_args" where
  "store_parsed r store args = (case r of (err, v) \<Rightarrow> (err, case v of None \<Rightarrow> args | Some v \<Rightarrow> store v))"

text \<open>
  The \<open>switch\<close> of the loop: the code to return, 0 to go on, and the arguments.  The cases \<open>:\<close>, \<open>?\<close>
  and the default all return \<open>-NRM_EINVAL\<close>.
\<close>

definition parse_option ::
  "(string \<Rightarrow> double \<times> bool \<times> bool) \<Rightarrow> char \<Rightarrow> string option \<Rightarrow> nrm_tools_args \<Rightarrow> (int \<times> nrm_tools_args) exec" where
  "parse_option strtod c optarg args =
     (if c = CHR 0x00 then Inr (0, args)
      else if c = CHR ''h'' then Inr (0, args\<lparr>ta_ask_help := 1\<rparr>)
      else if c = CHR ''V'' then Inr (0, args\<lparr>ta_ask_version := 1\<rparr>)
      else if c = CHR ''p'' then bindE (derefE optarg) (\<lambda>s. Inr (store_parsed (nrm_parse_uint s) (\<lambda>v. args\<lparr>ta_pub_port := v\<rparr>) args))
      else if c = CHR ''r'' then bindE (derefE optarg) (\<lambda>s. Inr (store_parsed (nrm_parse_uint s) (\<lambda>v. args\<lparr>ta_rpc_port := v\<rparr>) args))
      else if c = CHR ''u'' then bindE (derefE optarg) (\<lambda>s. Inr (0, args\<lparr>ta_upstream_uri := Some s\<rparr>))
      else if c = CHR ''v'' then Inr (0, args\<lparr>ta_log_level := s32 (ta_log_level args + 1)\<rparr>)
      else if c = CHR ''q'' then Inr (0, args\<lparr>ta_log_level := NRM_LOG_QUIET\<rparr>)
      else if c = CHR ''l'' then bindE (derefE optarg) (\<lambda>s. Inr (store_parsed (nrm_parse_int s) (\<lambda>v. args\<lparr>ta_log_level := v\<rparr>) args))
      else if c = CHR ''f'' then
        bindE (assertE (NRM_TOOLS_FLAGS_ISSET (ta_flags args) NRM_TOOLS_ARGS_FLAG_FREQ)) (\<lambda>_.
        bindE (derefE optarg) (\<lambda>s. Inr (store_parsed (nrm_parse_double strtod s) (\<lambda>v. args\<lparr>ta_freq := v\<rparr>) args)))
      else if c = CHR ''e'' then
        bindE (assertE (NRM_TOOLS_FLAGS_ISSET (ta_flags args) NRM_TOOLS_ARGS_FLAG_EVENT)) (\<lambda>_.
        bindE (derefE optarg) (\<lambda>s. bindE (derefE (ta_events args)) (\<lambda>evs. Inr (0, args\<lparr>ta_events := Some (evs @ [s])\<rparr>))))
      else if c = CHR ''i'' then
        bindE (assertE (NRM_TOOLS_FLAGS_ISSET (ta_flags args) NRM_TOOLS_ARGS_FLAG_INHERIT)) (\<lambda>_.
        Inr (0, args\<lparr>ta_inheritance := 1\<rparr>))
      else Inr (- NRM_EINVAL, args))"

function parse_loop ::
  "(string \<Rightarrow> double \<times> bool \<times> bool) \<Rightarrow> string list \<Rightarrow> string \<Rightarrow> long_option list \<Rightarrow> getopt \<Rightarrow> nrm_tools_args
     \<Rightarrow> (int \<times> nrm_tools_args \<times> getopt) exec" where
  "parse_loop strtod argv os opts st args =
     (case getopt_long argv os opts st of
        Inl e \<Rightarrow> Inl e
      | Inr (st', None) \<Rightarrow> Inr (0, args, st')
      | Inr (st', Some c) \<Rightarrow>
          (case parse_option strtod c (go_optarg st') args of
             Inl e \<Rightarrow> Inl e
           | Inr (err, args) \<Rightarrow> if err \<noteq> 0 then Inr (err, args, st') else parse_loop strtod argv os opts st' args))"
  by pat_completeness auto
termination
  by (relation "measure (\<lambda>(strtod, argv, os, opts, st, args). left_to_scan argv st)") (auto simp: getopt_long_advances)

declare parse_loop.simps [simp del]

definition nrm_tools_parse_args ::
  "(string \<Rightarrow> double \<times> bool \<times> bool) \<Rightarrow> string list \<Rightarrow> nrm_tools_args \<Rightarrow> getopt \<Rightarrow> (int \<times> nrm_tools_args \<times> getopt) exec" where
  "nrm_tools_parse_args strtod argv args go =
     bindE (option_tables (ta_flags args)) (\<lambda>(shortopts, longopts, _).
     bindE (longopts_list longopts) (\<lambda>opts.
     bindE (parse_loop strtod argv shortopts opts (go\<lparr>go_optind := 1\<rparr>) (args_defaults args)) (\<lambda>(err, args, go).
     if err \<noteq> 0 then Inr (err, args, go)
     else Inr (int (go_optind go),
            (if ta_upstream_uri args = None then args\<lparr>ta_upstream_uri := Some NRM_DEFAULT_UPSTREAM_URI\<rparr> else args), go))))"


definition common_help :: "string list" where
  "common_help =
     [''Allowed options:'',
      ''--help, -h             : print this help message'',
      ''--version, -V          : print program version'',
      ''--verbose, -v          : increase verbosity'',
      ''--quiet, -q            : no log output'',
      ''--log-level, -l <int>  : set log level (0-5)'',
      ''--uri, -u <str>        : daemon socket uri to connect to'',
      ''--rpc, -r  <uint>      : daemon rpc port to use'',
      ''--pub, -p  <uint>      : daemon pub/sub port to use'']"

definition extra_help :: "string list" where
  "extra_help =
     [''--freq, -f <double>    : signal frequency (in Hz)'',
      ''--event, -e <string>   : event name(s)'',
      ''--inherit, -i          : enable event inheritance'']"

text \<open>The lines written to the standard output.\<close>

definition nrm_tools_print_help :: "nrm_tools_args \<Rightarrow> int \<times> string list" where
  "nrm_tools_print_help args =
     (0, [''Usage: '' @ ta_progname args @ '' [options]'', []] @ common_help
         @ map (\<lambda>i. extra_help ! i)
             (filter (\<lambda>i. NRM_TOOLS_FLAGS_ISSET (ta_flags args) (push_bit i 1)) [0..<length extra_help]))"

definition nrm_tools_print_version :: "string \<Rightarrow> nrm_tools_args \<Rightarrow> int \<times> string list" where
  "nrm_tools_print_version version args = (0, [ta_progname args @ '': version '' @ version])"

text \<open>The references of the strings are dropped and the vector is freed.\<close>

definition nrm_tools_args_destroy :: "nrm_tools_args \<Rightarrow> (int \<times> nrm_tools_args) exec" where
  "nrm_tools_args_destroy args =
     (if NRM_TOOLS_FLAGS_ISSET (ta_flags args) NRM_TOOLS_ARGS_FLAG_EVENT
      then bindE (derefE (ta_events args)) (\<lambda>_. Inr (0, args\<lparr>ta_events := None\<rparr>))
      else Inr (0, args))"


section \<open>The parser does not fail\<close>

definition scan_ok :: "string list \<Rightarrow> getopt \<Rightarrow> bool" where
  "scan_ok argv st \<longleftrightarrow> 1 \<le> go_optind st \<and> go_optind st \<le> length argv \<and> (go_nextchar st \<noteq> [] \<longrightarrow> go_optind st < length argv)"

text \<open>What the scanner promises about an option it returns: an argument comes with it where one is required.\<close>

definition scanned :: "string \<Rightarrow> long_option list \<Rightarrow> char \<Rightarrow> string option \<Rightarrow> bool" where
  "scanned os opts c optarg \<longleftrightarrow>
     c = CHR ''?'' \<or> c = CHR 0x3A
   \<or> (\<exists>b. short_lookup os c = Some b \<and> (b \<longrightarrow> optarg \<noteq> None))
   \<or> (\<exists>p \<in> set opts. c = (if lo_flag p then CHR 0x00 else lo_val p) \<and> (lo_has_arg p \<longrightarrow> optarg \<noteq> None))"

lemma long_lookup_mem: "long_lookup name opts = Some p \<Longrightarrow> p \<in> set opts"
proof (cases "find (\<lambda>p. lo_name p = name) opts")
  case None
  assume "long_lookup name opts = Some p"
  then obtain ps where "filter (\<lambda>p. prefix name (lo_name p)) opts = p # ps"
    using None by (auto simp: long_lookup_def split: list.splits if_splits)
  then show ?thesis by (metis filter_is_subset list.set_intros(1) subsetD)
next
  case (Some q)
  assume "long_lookup name opts = Some p"
  then show ?thesis using Some by (auto simp: long_lookup_def find_Some_iff)
qed

lemma missing_cases: "missing os = CHR ''?'' \<or> missing os = CHR 0x3A"
  by (simp add: missing_def)

lemma process_long_ok:
  assumes "scan_ok argv st" and "go_optind st < length argv" and "process_long argv os opts arg st = (st', c)"
  shows "scan_ok argv st' \<and> go_nextchar st' = [] \<and> scanned os opts c (go_optarg st')"
proof (cases "long_lookup (takeWhile (\<lambda>c. c \<noteq> CHR ''='') arg) opts")
  case None
  then show ?thesis using assms by (auto simp: process_long_def scan_ok_def scanned_def)
next
  case (Some p)
  from long_lookup_mem [OF this] show ?thesis using assms Some missing_cases [of os]
    by (auto simp: process_long_def scan_ok_def scanned_def Let_def split: if_splits)
qed

lemma process_short_ok:
  assumes "go_optind st < length argv" and "1 \<le> go_optind st" and "go_nextchar st \<noteq> []"
  shows "\<exists>st' c. process_short argv os st = Inr (st', c) \<and> scan_ok argv st' \<and> scanned os opts c (go_optarg st')"
  using assms missing_cases [of os]
  by (auto simp: process_short_def scan_ok_def scanned_def Let_def argv_at_def split: option.split bool.split)

lemma getopt_long_ok:
  assumes st: "scan_ok argv st" and os: "os = CHR ''+'' # os'"
  shows "\<exists>st' r. getopt_long argv os opts st = Inr (st', r) \<and> scan_ok argv st'
     \<and> (r = None \<longrightarrow> go_nextchar st' = []) \<and> (\<forall>c. r = Some c \<longrightarrow> scanned os' opts c (go_optarg st'))"
proof (cases "go_nextchar st = []")
  case False
  let ?st = "st\<lparr>go_optarg := None\<rparr>"
  have "argv \<noteq> []" using st by (auto simp: scan_ok_def)
  moreover have "\<exists>st' c. process_short argv os' ?st = Inr (st', c) \<and> scan_ok argv st' \<and> scanned os' opts c (go_optarg st')"
    using st False by (intro process_short_ok) (simp_all add: scan_ok_def)
  ultimately show ?thesis using False os by (auto simp: getopt_long_def Let_def)
next
  case True
  show ?thesis
  proof (cases "go_optind st = length argv")
    case stop: True
    then show ?thesis using True st os by (auto simp: getopt_long_def Let_def scan_ok_def)
  next
    case False
    then have i: "go_optind st < length argv" using st by (simp add: scan_ok_def)
    let ?a = "argv ! go_optind st" and ?st = "st\<lparr>go_optarg := None\<rparr>"
    have "\<exists>st' c. process_short argv os' (?st\<lparr>go_nextchar := tl ?a\<rparr>) = Inr (st', c) \<and> scan_ok argv st' \<and> scanned os' opts c (go_optarg st')"
      if "tl ?a \<noteq> []"
      using st i that by (intro process_short_ok) (simp_all add: scan_ok_def)
    moreover obtain st1 c1 where "process_long argv os' opts (drop 2 ?a) ?st = (st1, c1)" by fastforce
    moreover have "scan_ok argv ?st" using st by (simp add: scan_ok_def)
    ultimately show ?thesis using True i os st process_long_ok [of argv ?st os' opts "drop 2 ?a" st1 c1]
      by (auto simp: getopt_long_def argv_at_def Let_def scan_ok_def)
  qed
qed


definition option_fits :: "int \<Rightarrow> char \<Rightarrow> string option \<Rightarrow> bool" where
  "option_fits flags c optarg \<longleftrightarrow>
     (c \<in> set ''prulfe'' \<longrightarrow> optarg \<noteq> None)
   \<and> (c = CHR ''f'' \<longrightarrow> NRM_TOOLS_FLAGS_ISSET flags NRM_TOOLS_ARGS_FLAG_FREQ)
   \<and> (c = CHR ''e'' \<longrightarrow> NRM_TOOLS_FLAGS_ISSET flags NRM_TOOLS_ARGS_FLAG_EVENT)
   \<and> (c = CHR ''i'' \<longrightarrow> NRM_TOOLS_FLAGS_ISSET flags NRM_TOOLS_ARGS_FLAG_INHERIT)"

text \<open>The tables for each choice of extra options.\<close>

definition flag_shortopts :: "bool \<Rightarrow> bool \<Rightarrow> bool \<Rightarrow> string" where
  "flag_shortopts f e i = '':vhqVl:u:r:p:'' @ (if f then ''f:'' else []) @ (if e then ''e:'' else []) @ (if i then ''i'' else [])"

definition flag_longopts :: "bool \<Rightarrow> bool \<Rightarrow> bool \<Rightarrow> long_option list" where
  "flag_longopts f e i =
     map the (butlast common_longopts) @ (if f then [required_argument ''freq'' CHR ''f''] else [])
     @ (if e then [required_argument ''event'' CHR ''e''] else []) @ (if i then [no_argument ''inherit'' CHR ''i''] else [])"

lemma option_tables_eq:
  assumes "f = NRM_TOOLS_FLAGS_ISSET flags NRM_TOOLS_ARGS_FLAG_FREQ" and "e = NRM_TOOLS_FLAGS_ISSET flags NRM_TOOLS_ARGS_FLAG_EVENT"
    and "i = NRM_TOOLS_FLAGS_ISSET flags NRM_TOOLS_ARGS_FLAG_INHERIT"
  shows "\<exists>longs idx. option_tables flags = Inr (CHR ''+'' # flag_shortopts f e i, longs, idx)
     \<and> longopts_list longs = Inr (flag_longopts f e i)"
  unfolding option_tables_def assms [symmetric]
  by (cases f; cases e; cases i)
    (simp_all add: add_option_def common_shortopts_def common_longopts_def full_short_size_def
      NRM_TOOLS_ARGS_FLAG_MAX_def flag_shortopts_def flag_longopts_def numeral_eq_Suc)

definition char_fits :: "bool \<Rightarrow> bool \<Rightarrow> bool \<Rightarrow> char \<Rightarrow> bool \<Rightarrow> bool" where
  "char_fits f e i c b \<longleftrightarrow>
     (c \<in> set ''prulfe'' \<longrightarrow> b) \<and> (c = CHR ''f'' \<longrightarrow> f) \<and> (c = CHR ''e'' \<longrightarrow> e) \<and> (c = CHR ''i'' \<longrightarrow> i)"

definition table_fits :: "bool \<Rightarrow> bool \<Rightarrow> bool \<Rightarrow> bool" where
  "table_fits f e i \<longleftrightarrow>
     list_all (\<lambda>c. case short_lookup (flag_shortopts f e i) c of None \<Rightarrow> True | Some b \<Rightarrow> char_fits f e i c b) (flag_shortopts f e i)
   \<and> list_all (\<lambda>p. \<not> lo_flag p \<and> char_fits f e i (lo_val p) (lo_has_arg p)) (flag_longopts f e i)"

lemma table_fits_all: "table_fits f e i"
proof -
  have "table_fits True True True" "table_fits True True False" "table_fits True False True" "table_fits True False False"
    "table_fits False True True" "table_fits False True False" "table_fits False False True" "table_fits False False False"
    by code_simp+
  then show ?thesis by (cases f; cases e; cases i) simp_all
qed

lemma short_lookup_mem: "short_lookup os c = Some b \<Longrightarrow> c \<in> set os"
proof (rule ccontr)
  assume s: "short_lookup os c = Some b" and "c \<notin> set os"
  then have d: "dropWhile (\<lambda>x. x \<noteq> c) os = []" unfolding dropWhile_eq_Nil_conv by blast
  have "short_lookup os c = None" unfolding short_lookup_def d list.case by simp
  then show False using s by simp
qed

lemma option_tables_ok:
  "\<exists>os longs idx opts. option_tables flags = Inr (CHR ''+'' # os, longs, idx) \<and> longopts_list longs = Inr opts
     \<and> (\<forall>c optarg. scanned os opts c optarg \<longrightarrow> option_fits flags c optarg)"
proof -
  let ?f = "NRM_TOOLS_FLAGS_ISSET flags NRM_TOOLS_ARGS_FLAG_FREQ" and ?e = "NRM_TOOLS_FLAGS_ISSET flags NRM_TOOLS_ARGS_FLAG_EVENT"
    and ?i = "NRM_TOOLS_FLAGS_ISSET flags NRM_TOOLS_ARGS_FLAG_INHERIT"
  let ?os = "flag_shortopts ?f ?e ?i" and ?opts = "flag_longopts ?f ?e ?i"
  have fits: "table_fits ?f ?e ?i" by (rule table_fits_all)
  have "option_fits flags c optarg" if sc: "scanned ?os ?opts c optarg" for c optarg
  proof -
    consider "c = CHR ''?''" | "c = CHR 0x3A" | b where "short_lookup ?os c = Some b" "b \<longrightarrow> optarg \<noteq> None"
      | p where "p \<in> set ?opts" "c = (if lo_flag p then CHR 0x00 else lo_val p)" "lo_has_arg p \<longrightarrow> optarg \<noteq> None"
      using sc unfolding scanned_def by blast
    then have "c = CHR ''?'' \<or> c = CHR 0x3A \<or> (\<exists>b. char_fits ?f ?e ?i c b \<and> (b \<longrightarrow> optarg \<noteq> None))"
    proof cases
      case 3
      then have "char_fits ?f ?e ?i c b"
        using fits short_lookup_mem [OF 3(1)] unfolding table_fits_def list_all_iff by (metis option.case(2))
      then show ?thesis using 3(2) by blast
    next
      case 4
      then have "\<not> lo_flag p \<and> char_fits ?f ?e ?i (lo_val p) (lo_has_arg p)"
        using fits unfolding table_fits_def list_all_iff by blast
      then show ?thesis using 4 by auto
    qed simp_all
    then show ?thesis
    proof (elim disjE exE)
      fix b assume "char_fits ?f ?e ?i c b \<and> (b \<longrightarrow> optarg \<noteq> None)"
      then show ?thesis unfolding option_fits_def char_fits_def by blast
    qed (simp_all add: option_fits_def)
  qed
  then show ?thesis using option_tables_eq [of ?f flags ?e ?i] by blast
qed

lemma parse_codes: "fst (nrm_parse_uint s) \<le> 0" "fst (nrm_parse_int s) \<le> 0" "fst (nrm_parse_double strtod s) \<le> 0"
  by (auto simp: nrm_parse_uint_def nrm_parse_int_def nrm_parse_double_def split: prod.split)

definition args_ok :: "int \<Rightarrow> nrm_tools_args \<Rightarrow> bool" where
  "args_ok flags args \<longleftrightarrow> ta_flags args = flags \<and> (NRM_TOOLS_FLAGS_ISSET flags NRM_TOOLS_ARGS_FLAG_EVENT \<longrightarrow> ta_events args \<noteq> None)"

lemma args_ok_defaults: "args_ok (ta_flags args) (args_defaults args)"
  by (simp add: args_ok_def args_defaults_def Let_def)

lemma args_ok_store [simp]:
  "args_ok flags (args\<lparr>ta_ask_help := x\<rparr>) = args_ok flags args" "args_ok flags (args\<lparr>ta_ask_version := x\<rparr>) = args_ok flags args"
  "args_ok flags (args\<lparr>ta_pub_port := x\<rparr>) = args_ok flags args" "args_ok flags (args\<lparr>ta_rpc_port := x\<rparr>) = args_ok flags args"
  "args_ok flags (args\<lparr>ta_upstream_uri := u\<rparr>) = args_ok flags args" "args_ok flags (args\<lparr>ta_log_level := x\<rparr>) = args_ok flags args"
  "args_ok flags (args\<lparr>ta_freq := d\<rparr>) = args_ok flags args" "args_ok flags (args\<lparr>ta_inheritance := x\<rparr>) = args_ok flags args"
  "args_ok flags args \<Longrightarrow> args_ok flags (args\<lparr>ta_events := Some evs\<rparr>)"
  by (simp_all add: args_ok_def)

lemma store_parsed_ok:
  assumes "fst r \<le> 0" and "args_ok flags args" and "\<And>v. args_ok flags (store v)"
  shows "fst (store_parsed r store args) \<le> 0 \<and> args_ok flags (snd (store_parsed r store args))"
  using assms by (auto simp: store_parsed_def split: prod.split option.split)

lemma parse_option_ok:
  assumes fits: "option_fits flags c optarg" and args: "args_ok flags args"
  shows "\<exists>r. parse_option strtod c optarg args = Inr r \<and> fst r \<le> 0 \<and> args_ok flags (snd r)"
proof (cases "c \<in> set ''prulfe''")
  case True
  then obtain s where s: "optarg = Some s" using fits by (auto simp: option_fits_def)
  have flags: "ta_flags args = flags" using args by (simp add: args_ok_def)
  have ev: "c = CHR ''e'' \<Longrightarrow> \<exists>evs. ta_events args = Some evs" using fits args by (auto simp: option_fits_def args_ok_def)
  have "c = CHR ''p'' \<or> c = CHR ''r'' \<or> c = CHR ''u'' \<or> c = CHR ''l'' \<or> c = CHR ''f'' \<or> c = CHR ''e''" using True by simp
  then show ?thesis
    using args fits ev flags s
    by (elim disjE) (auto simp: parse_option_def option_fits_def intro!: store_parsed_ok [THEN conjunct1] store_parsed_ok [THEN conjunct2] parse_codes)
next
  case False
  then show ?thesis using fits args
    by (simp add: parse_option_def option_fits_def) (simp add: args_ok_def)
qed

lemma parse_loop_ok:
  assumes "\<And>c optarg. scanned os opts c optarg \<Longrightarrow> option_fits flags c optarg"
  shows "scan_ok argv st \<Longrightarrow> args_ok flags args \<Longrightarrow>
    \<exists>err args' st'. parse_loop strtod argv (CHR ''+'' # os) opts st args = Inr (err, args', st') \<and> err \<le> 0
      \<and> (err = 0 \<longrightarrow> scan_ok argv st' \<and> go_nextchar st' = [])"
proof (induction "left_to_scan argv st" arbitrary: st args rule: less_induct)
  case less
  obtain st' r where g: "getopt_long argv (CHR ''+'' # os) opts st = Inr (st', r)" "scan_ok argv st'"
    "r = None \<longrightarrow> go_nextchar st' = []" "\<forall>c. r = Some c \<longrightarrow> scanned os opts c (go_optarg st')"
    using getopt_long_ok [OF less.prems(1) refl] by blast
  show ?case
  proof (cases r)
    case None
    then show ?thesis using g by (subst parse_loop.simps) simp
  next
    case (Some c)
    then obtain err args' where p: "parse_option strtod c (go_optarg st') args = Inr (err, args')" "err \<le> 0" "args_ok flags args'"
      using parse_option_ok [OF assms less.prems(2), of c "go_optarg st'" strtod] g(4) by auto
    show ?thesis
    proof (cases "err = 0")
      case True
      have "left_to_scan argv st' < left_to_scan argv st" using getopt_long_advances g(1) Some by blast
      from less.hyps [OF this g(2) p(3)] show ?thesis using g(1) Some p True by (subst parse_loop.simps) simp
    next
      case False
      then show ?thesis using g(1) Some p by (subst parse_loop.simps) simp
    qed
  qed
qed

lemma parse_args_ok:
  assumes "argv \<noteq> []" and "go_nextchar go = []"
  shows "\<exists>err args' go'. nrm_tools_parse_args strtod argv args go = Inr (err, args', go')
     \<and> (err < 0 \<or> (1 \<le> err \<and> err \<le> int (length argv) \<and> go_optind go' = nat err \<and> go_nextchar go' = [] \<and> ta_upstream_uri args' \<noteq> None))"
proof -
  obtain os longs idx opts where t: "option_tables (ta_flags args) = Inr (CHR ''+'' # os, longs, idx)" "longopts_list longs = Inr opts"
    "\<And>c optarg. scanned os opts c optarg \<Longrightarrow> option_fits (ta_flags args) c optarg"
    using option_tables_ok [of "ta_flags args"] by blast
  have "scan_ok argv (go\<lparr>go_optind := 1\<rparr>)" using assms by (cases argv) (simp_all add: scan_ok_def)
  from parse_loop_ok [OF t(3) this args_ok_defaults] obtain err args' st' where
    "parse_loop strtod argv (CHR ''+'' # os) opts (go\<lparr>go_optind := 1\<rparr>) (args_defaults args) = Inr (err, args', st')"
    "err \<le> 0" "err = 0 \<longrightarrow> scan_ok argv st' \<and> go_nextchar st' = []" by blast
  then show ?thesis using t(1,2) by (auto simp: nrm_tools_parse_args_def scan_ok_def)
qed


section \<open>The command lines the help describes\<close>

text \<open>The argument of \<open>--freq\<close> is a text, with the number that \<open>strtod\<close> makes of it.\<close>

datatype tool_opt =
    OHelp | OVersion | OVerbose | OQuiet | OInherit
  | OLevel int | OUri string | ORpc int | OPub int | OEvent string | OFreq string double

text \<open>\<open>-l 3\<close>, \<open>-l3\<close>, \<open>--log-level 3\<close> and \<open>--log-level=3\<close>.\<close>

datatype opt_style = Apart | Glued | Long | LongEq

fun opt_char :: "tool_opt \<Rightarrow> char" where
  "opt_char OHelp = CHR ''h''" | "opt_char OVersion = CHR ''V''" | "opt_char OVerbose = CHR ''v''" | "opt_char OQuiet = CHR ''q''"
| "opt_char OInherit = CHR ''i''" | "opt_char (OLevel _) = CHR ''l''" | "opt_char (OUri _) = CHR ''u''"
| "opt_char (ORpc _) = CHR ''r''" | "opt_char (OPub _) = CHR ''p''" | "opt_char (OEvent _) = CHR ''e''"
| "opt_char (OFreq _ _) = CHR ''f''"

fun opt_name :: "tool_opt \<Rightarrow> string" where
  "opt_name OHelp = ''help''" | "opt_name OVersion = ''version''" | "opt_name OVerbose = ''verbose''" | "opt_name OQuiet = ''quiet''"
| "opt_name OInherit = ''inherit''" | "opt_name (OLevel _) = ''log-level''" | "opt_name (OUri _) = ''uri''"
| "opt_name (ORpc _) = ''rpc''" | "opt_name (OPub _) = ''pub''" | "opt_name (OEvent _) = ''event''"
| "opt_name (OFreq _ _) = ''freq''"

fun opt_arg :: "tool_opt \<Rightarrow> string option" where
  "opt_arg (OLevel v) = Some (dec_int v)" | "opt_arg (OUri u) = Some u" | "opt_arg (ORpc v) = Some (dec_int v)"
| "opt_arg (OPub v) = Some (dec_int v)" | "opt_arg (OEvent e) = Some e" | "opt_arg (OFreq f _) = Some f" | "opt_arg _ = None"

definition render_word :: "opt_style \<Rightarrow> char \<Rightarrow> string \<Rightarrow> string option \<Rightarrow> string list" where
  "render_word sty c name arg =
     (let short = [CHR ''-'', c]; long = ''--'' @ name in
      case (sty, arg) of
        (Apart, None) \<Rightarrow> [short] | (Glued, None) \<Rightarrow> [short] | (Long, None) \<Rightarrow> [long] | (LongEq, None) \<Rightarrow> [long]
      | (Apart, Some a) \<Rightarrow> [short, a] | (Glued, Some a) \<Rightarrow> [short @ a] | (Long, Some a) \<Rightarrow> [long, a]
      | (LongEq, Some a) \<Rightarrow> [long @ ''='' @ a])"

definition render :: "opt_style \<Rightarrow> tool_opt \<Rightarrow> string list" where
  "render sty x = render_word sty (opt_char x) (opt_name x) (opt_arg x)"

fun apply_opt :: "tool_opt \<Rightarrow> nrm_tools_args \<Rightarrow> nrm_tools_args" where
  "apply_opt OHelp args = args\<lparr>ta_ask_help := 1\<rparr>"
| "apply_opt OVersion args = args\<lparr>ta_ask_version := 1\<rparr>"
| "apply_opt OVerbose args = args\<lparr>ta_log_level := s32 (ta_log_level args + 1)\<rparr>"
| "apply_opt OQuiet args = args\<lparr>ta_log_level := 0\<rparr>"
| "apply_opt OInherit args = args\<lparr>ta_inheritance := 1\<rparr>"
| "apply_opt (OLevel v) args = args\<lparr>ta_log_level := v\<rparr>"
| "apply_opt (OUri u) args = args\<lparr>ta_upstream_uri := Some u\<rparr>"
| "apply_opt (ORpc v) args = args\<lparr>ta_rpc_port := v\<rparr>"
| "apply_opt (OPub v) args = args\<lparr>ta_pub_port := v\<rparr>"
| "apply_opt (OEvent e) args = args\<lparr>ta_events := Some (the (ta_events args) @ [e])\<rparr>"
| "apply_opt (OFreq f v) args = args\<lparr>ta_freq := v\<rparr>"

text \<open>
  An extra option is one the program asked for, a number fits, and the text of a frequency is one that \<open>strtod\<close> reads without a range error
  (the parser tells a text that is no number only when its value is zero); an argument glued to its
  letter is not empty.  \<open>nrm_parse_uint\<close> refuses a port from \<open>2 ^ 31\<close> on.
\<close>

definition opt_ok :: "(string \<Rightarrow> double \<times> bool \<times> bool) \<Rightarrow> int \<Rightarrow> opt_style \<times> tool_opt \<Rightarrow> bool" where
  "opt_ok strtod flags = (\<lambda>(sty, x).
     (case x of
        OLevel v \<Rightarrow> in_s32 v
      | ORpc v \<Rightarrow> 0 \<le> v \<and> v < 2 ^ 31
      | OPub v \<Rightarrow> 0 \<le> v \<and> v < 2 ^ 31
      | OEvent _ \<Rightarrow> NRM_TOOLS_FLAGS_ISSET flags NRM_TOOLS_ARGS_FLAG_EVENT
      | OInherit \<Rightarrow> NRM_TOOLS_FLAGS_ISSET flags NRM_TOOLS_ARGS_FLAG_INHERIT
      | OFreq f v \<Rightarrow> NRM_TOOLS_FLAGS_ISSET flags NRM_TOOLS_ARGS_FLAG_FREQ \<and> strtod f = (v, False, False)
      | _ \<Rightarrow> True)
     \<and> (sty = Glued \<longrightarrow> opt_arg x \<noteq> Some []))"

definition positional :: "string list \<Rightarrow> bool" where
  "positional rest \<longleftrightarrow> (case rest of [] \<Rightarrow> True | a # _ \<Rightarrow> a = [] \<or> hd a \<noteq> CHR ''-'' \<or> tl a = [])"

lemma short_lookup_opt:
  assumes "opt_ok strtod flags (sty, x)" and "f = NRM_TOOLS_FLAGS_ISSET flags NRM_TOOLS_ARGS_FLAG_FREQ" and "e = NRM_TOOLS_FLAGS_ISSET flags NRM_TOOLS_ARGS_FLAG_EVENT"
    and "i = NRM_TOOLS_FLAGS_ISSET flags NRM_TOOLS_ARGS_FLAG_INHERIT"
  shows "short_lookup (flag_shortopts f e i) (opt_char x) = Some (opt_arg x \<noteq> None)"
  using assms by (cases x) (auto simp: short_lookup_def flag_shortopts_def opt_ok_def)

lemma long_lookup_opt:
  assumes "opt_ok strtod flags (sty, x)" and "f = NRM_TOOLS_FLAGS_ISSET flags NRM_TOOLS_ARGS_FLAG_FREQ" and "e = NRM_TOOLS_FLAGS_ISSET flags NRM_TOOLS_ARGS_FLAG_EVENT"
    and "i = NRM_TOOLS_FLAGS_ISSET flags NRM_TOOLS_ARGS_FLAG_INHERIT"
  shows "long_lookup (opt_name x) (flag_longopts f e i)
     = Some \<lparr>lo_name = opt_name x, lo_has_arg = (opt_arg x \<noteq> None), lo_flag = False, lo_val = opt_char x\<rparr>"
  using assms
  by (cases x) (auto simp: long_lookup_def flag_longopts_def common_longopts_def no_argument_def required_argument_def opt_ok_def)

lemma opt_name_no_eq: "CHR ''='' \<notin> set (opt_name x)" "opt_name x \<noteq> []" "opt_char x \<noteq> CHR ''-''"
  by (cases x; simp)+

lemma split_at_eq:
  assumes "CHR ''='' \<notin> set name"
  shows "takeWhile (\<lambda>c. c \<noteq> CHR ''='') name = name" "dropWhile (\<lambda>c. c \<noteq> CHR ''='') name = []"
    "takeWhile (\<lambda>c. c \<noteq> CHR ''='') (name @ CHR ''='' # a) = name"
    "dropWhile (\<lambda>c. c \<noteq> CHR ''='') (name @ CHR ''='' # a) = CHR ''='' # a"
  using assms by (induction name) auto

text \<open>One option in any of its forms, with a table of options that has it.\<close>

lemma getopt_long_word:
  assumes os: "os = CHR ''+'' # os' \<or> (os = os' \<and> hd os \<noteq> CHR ''+'')"
    and short: "short_lookup os' c = Some (arg \<noteq> None)" and c: "c \<noteq> CHR ''-''"
    and long: "long_lookup name opts = Some \<lparr>lo_name = name, lo_has_arg = (arg \<noteq> None), lo_flag = False, lo_val = c\<rparr>"
    and name: "CHR ''='' \<notin> set name" "name \<noteq> []" and glued: "sty = Glued \<longrightarrow> arg \<noteq> Some []"
    and st: "go_nextchar st = []" "go_optind st = length pre"
  shows "getopt_long (pre @ render_word sty c name arg @ post) os opts st
     = Inr (st\<lparr>go_optind := length pre + length (render_word sty c name arg), go_optarg := arg\<rparr>, Some c)"
proof -
  have strip: "(if os \<noteq> [] \<and> hd os = CHR ''+'' then tl os else os) = os'" using os by auto
  show ?thesis
  proof (cases arg)
    case None
    then show ?thesis unfolding getopt_long_def strip
      using st short long c name
      by (cases sty; cases st)
        (auto simp: render_word_def argv_at_def process_short_def process_long_def split_at_eq Let_def nth_append)
  next
    case (Some a)
    then show ?thesis unfolding getopt_long_def strip
      using st short long c name glued
      by (cases sty; cases st)
        (auto simp: render_word_def argv_at_def process_short_def process_long_def split_at_eq Let_def nth_append)
  qed
qed

text \<open>The scan stops at the first word that is no option, and at the end.\<close>

lemma getopt_long_stops:
  assumes "positional rest" and "go_nextchar st = []" and "go_optind st = length pre" and "pre @ rest \<noteq> []"
  shows "getopt_long (pre @ rest) os opts st = Inr (st\<lparr>go_optarg := None\<rparr>, None)"
  using assms by (cases rest) (auto simp: getopt_long_def argv_at_def positional_def nth_append Let_def)

lemma getopt_long_render:
  assumes o: "opt_ok strtod flags (sty, x)" and f: "f = NRM_TOOLS_FLAGS_ISSET flags NRM_TOOLS_ARGS_FLAG_FREQ" and e: "e = NRM_TOOLS_FLAGS_ISSET flags NRM_TOOLS_ARGS_FLAG_EVENT"
    and i: "i = NRM_TOOLS_FLAGS_ISSET flags NRM_TOOLS_ARGS_FLAG_INHERIT"
    and st: "go_nextchar st = []" "go_optind st = length pre"
  shows "getopt_long (pre @ render sty x @ post) (CHR ''+'' # flag_shortopts f e i) (flag_longopts f e i) st
     = Inr (st\<lparr>go_optind := length pre + length (render sty x), go_optarg := opt_arg x\<rparr>, Some (opt_char x))"
  unfolding render_def
  by (rule getopt_long_word [OF _ short_lookup_opt [OF o f e i] _ long_lookup_opt [OF o f e i] _ _ _ st])
    (use o opt_name_no_eq [of x] in \<open>auto simp: opt_ok_def\<close>)

lemma parse_option_opt:
  assumes "opt_ok strtod flags (sty, x)" and "args_ok flags args"
  shows "parse_option strtod (opt_char x) (opt_arg x) args = Inr (0, apply_opt x args) \<and> args_ok flags (apply_opt x args)"
proof -
  have "nrm_parse_int (dec_int v) = (0, Some v)" if "in_s32 v" for v
    using that strtol_dec_int [of v] by (simp add: nrm_parse_int_def in_s32_def in_s64_def)
  moreover have "nrm_parse_uint (dec_int v) = (0, Some v)" if "0 \<le> v" "v < 2 ^ 31" for v
    using that strtol_dec_int [of v] by (simp add: nrm_parse_uint_def in_s64_def)
  ultimately show ?thesis using assms
    by (cases x) (auto simp: parse_option_def opt_ok_def store_parsed_def NRM_LOG_QUIET_def args_ok_def nrm_parse_double_def)
qed


definition rendered :: "(opt_style \<times> tool_opt) list \<Rightarrow> string list" where
  "rendered sos = concat (map (\<lambda>(sty, x). render sty x) sos)"

lemma parse_loop_rendered:
  assumes f: "f = NRM_TOOLS_FLAGS_ISSET flags NRM_TOOLS_ARGS_FLAG_FREQ" and e: "e = NRM_TOOLS_FLAGS_ISSET flags NRM_TOOLS_ARGS_FLAG_EVENT" and i: "i = NRM_TOOLS_FLAGS_ISSET flags NRM_TOOLS_ARGS_FLAG_INHERIT"
    and rest: "positional rest"
  shows "list_all (opt_ok strtod flags) sos \<Longrightarrow> args_ok flags args \<Longrightarrow> go_nextchar st = [] \<Longrightarrow> go_optind st = length pre \<Longrightarrow> pre \<noteq> [] \<Longrightarrow>
    \<exists>st'. parse_loop strtod (pre @ rendered sos @ rest) (CHR ''+'' # flag_shortopts f e i) (flag_longopts f e i) st args
      = Inr (0, fold (\<lambda>so. apply_opt (snd so)) sos args, st') \<and> go_nextchar st' = [] \<and> go_optind st' = length (pre @ rendered sos)"
proof (induction sos arbitrary: args st pre)
  case Nil
  have "getopt_long (pre @ rest) (CHR ''+'' # flag_shortopts f e i) (flag_longopts f e i) st = Inr (st\<lparr>go_optarg := None\<rparr>, None)"
    using Nil by (intro getopt_long_stops [OF rest]) simp_all
  then show ?case using Nil by (subst parse_loop.simps) (simp add: rendered_def)
next
  case (Cons so sos)
  obtain sty x where so: "so = (sty, x)" by (cases so)
  let ?st = "st\<lparr>go_optind := length pre + length (render sty x), go_optarg := opt_arg x\<rparr>"
  have ok: "opt_ok strtod flags (sty, x)" using Cons.prems(1) so by simp
  have r: "pre @ rendered (so # sos) @ rest = pre @ render sty x @ (rendered sos @ rest)" by (simp add: rendered_def so)
  have "getopt_long (pre @ rendered (so # sos) @ rest) (CHR ''+'' # flag_shortopts f e i) (flag_longopts f e i) st
      = Inr (?st, Some (opt_char x))"
    unfolding r by (rule getopt_long_render [OF ok f e i Cons.prems(3,4)])
  moreover have "parse_option strtod (opt_char x) (opt_arg x) args = Inr (0, apply_opt x args)"
    and args': "args_ok flags (apply_opt x args)"
    using parse_option_opt [OF ok Cons.prems(2)] by auto
  ultimately have step: "parse_loop strtod (pre @ rendered (so # sos) @ rest) (CHR ''+'' # flag_shortopts f e i) (flag_longopts f e i) st args
      = parse_loop strtod ((pre @ render sty x) @ rendered sos @ rest) (CHR ''+'' # flag_shortopts f e i) (flag_longopts f e i) ?st (apply_opt x args)"
    by (subst parse_loop.simps) (simp add: r)
  have "\<exists>st'. parse_loop strtod ((pre @ render sty x) @ rendered sos @ rest) (CHR ''+'' # flag_shortopts f e i) (flag_longopts f e i) ?st (apply_opt x args)
      = Inr (0, fold (\<lambda>so. apply_opt (snd so)) sos (apply_opt x args), st') \<and> go_nextchar st' = []
      \<and> go_optind st' = length ((pre @ render sty x) @ rendered sos)"
    using Cons.prems args' so by (intro Cons.IH) simp_all
  then show ?case unfolding step using so by (simp add: rendered_def)
qed


text \<open>What the options make of the arguments.\<close>

definition parsed_args :: "(opt_style \<times> tool_opt) list \<Rightarrow> nrm_tools_args \<Rightarrow> nrm_tools_args" where
  "parsed_args sos args =
     (let a = fold (\<lambda>so. apply_opt (snd so)) sos (args_defaults args) in
      a\<lparr>ta_upstream_uri := Some (case ta_upstream_uri a of None \<Rightarrow> NRM_DEFAULT_UPSTREAM_URI | Some u \<Rightarrow> u)\<rparr>)"

lemma parse_args_rendered:
  assumes ok: "list_all (opt_ok strtod (ta_flags args)) sos" and rest: "positional rest" and go: "go_nextchar go = []"
  shows "\<exists>go'. nrm_tools_parse_args strtod (prog # rendered sos @ rest) args go
      = Inr (int (1 + length (rendered sos)), parsed_args sos args, go')
    \<and> go_nextchar go' = [] \<and> go_optind go' = 1 + length (rendered sos)"
proof -
  let ?fl = "ta_flags args"
  let ?f = "NRM_TOOLS_FLAGS_ISSET ?fl NRM_TOOLS_ARGS_FLAG_FREQ" and ?e = "NRM_TOOLS_FLAGS_ISSET ?fl NRM_TOOLS_ARGS_FLAG_EVENT"
    and ?i = "NRM_TOOLS_FLAGS_ISSET ?fl NRM_TOOLS_ARGS_FLAG_INHERIT"
  obtain longs idx where t: "option_tables ?fl = Inr (CHR ''+'' # flag_shortopts ?f ?e ?i, longs, idx)"
    "longopts_list longs = Inr (flag_longopts ?f ?e ?i)"
    using option_tables_eq [of ?f ?fl ?e ?i] by blast
  obtain st' where loop: "parse_loop strtod ([prog] @ rendered sos @ rest) (CHR ''+'' # flag_shortopts ?f ?e ?i) (flag_longopts ?f ?e ?i)
      (go\<lparr>go_optind := 1\<rparr>) (args_defaults args) = Inr (0, fold (\<lambda>so. apply_opt (snd so)) sos (args_defaults args), st')"
    "go_nextchar st' = []" "go_optind st' = length ([prog] @ rendered sos)"
    using parse_loop_rendered [OF refl refl refl rest ok args_ok_defaults, of "go\<lparr>go_optind := 1\<rparr>" "[prog]"] go by auto
  then show ?thesis using t by (auto simp: nrm_tools_parse_args_def parsed_args_def Let_def split: option.split)
qed

lemma parsed_args_asks:
  "OHelp \<notin> snd ` set sos \<Longrightarrow> ta_ask_help (parsed_args sos args) = 0"
  "OVersion \<notin> snd ` set sos \<Longrightarrow> ta_ask_version (parsed_args sos args) = 0"
proof -
  have h: "OHelp \<notin> snd ` set sos \<Longrightarrow> ta_ask_help (fold (\<lambda>so. apply_opt (snd so)) sos a) = ta_ask_help a" for a
  proof (induction sos arbitrary: a)
    case (Cons so sos)
    have "ta_ask_help (apply_opt (snd so) a) = ta_ask_help a" using Cons.prems by (cases "snd so") auto
    then show ?case using Cons by simp
  qed simp
  have v: "OVersion \<notin> snd ` set sos \<Longrightarrow> ta_ask_version (fold (\<lambda>so. apply_opt (snd so)) sos a) = ta_ask_version a" for a
  proof (induction sos arbitrary: a)
    case (Cons so sos)
    have "ta_ask_version (apply_opt (snd so) a) = ta_ask_version a" using Cons.prems by (cases "snd so") auto
    then show ?case using Cons by simp
  qed simp
  show "OHelp \<notin> snd ` set sos \<Longrightarrow> ta_ask_help (parsed_args sos args) = 0"
    "OVersion \<notin> snd ` set sos \<Longrightarrow> ta_ask_version (parsed_args sos args) = 0"
    by (simp_all add: parsed_args_def Let_def h v args_defaults_def)
qed


section \<open>Properties\<close>

text \<open>
  C26. The parser reads what the help describes: a command line of any sequence of the common options and of the extra options
  the program asks for (\<open>--freq\<close>, \<open>--event\<close>, \<open>--inherit\<close>), each written in any
  of its forms (short with the argument apart or glued, long with the argument apart or after an equal sign),
  followed by nothing or by a first word that is no option, is read from left to right onto the defaults; the
  result is the index of that first word and a uri is always set.  A log level fits an \<open>int\<close>, a port is below \<open>2 ^ 31\<close> (the parser refuses
  the upper half of the range the help promises), a frequency is a text that \<open>strtod\<close> accepts, and an argument
  glued to its letter is not empty.
\<close>

theorem nrm_tools_parse_args_reads:
  assumes ok: "list_all (opt_ok strtod (ta_flags args)) sos" and rest: "positional rest" and go: "go_nextchar go = []"
  shows "\<exists>args' go'. nrm_tools_parse_args strtod (prog # rendered sos @ rest) args go = Inr (int (1 + length (rendered sos)), args', go')
     \<and> args' = (let a = fold (\<lambda>so. apply_opt (snd so)) sos (args_defaults args) in
          a\<lparr>ta_upstream_uri := Some (case ta_upstream_uri a of None \<Rightarrow> NRM_DEFAULT_UPSTREAM_URI | Some u \<Rightarrow> u)\<rparr>)
     \<and> go_optind go' = 1 + length (rendered sos)"
  using parse_args_rendered [OF assms, of prog] by (metis parsed_args_def)

definition args_blank :: "int \<Rightarrow> nrm_tools_args" where
  "args_blank flags =
     \<lparr>ta_progname = ''nrm'', ta_flags = flags, ta_upstream_uri = None, ta_pub_port = 0, ta_rpc_port = 0, ta_log_level = 0,
      ta_ask_help = 0, ta_ask_version = 0, ta_freq = DFin 0, ta_events = None, ta_inheritance = 0\<rparr>"

definition getopt_start :: getopt where
  "getopt_start = \<lparr>go_optind = 1, go_nextchar = [], go_optarg = None\<rparr>"

theorem nrm_tools_parse_args_reads_witness:
  "\<exists>args' go'. nrm_tools_parse_args (\<lambda>_. (DFin 2, False, False)) [''nrmc'', ''-v'', ''--event=x'', ''-eyz'', ''-f2'', ''run'', ''-v''] (args_blank 3) getopt_start
     = Inr (5, args', go') \<and> ta_events args' = Some [''x'', ''yz''] \<and> ta_log_level args' = 4
     \<and> ta_upstream_uri args' = Some ''tcp://127.0.0.1'' \<and> ta_freq args' = DFin 2"
proof -
  let ?sos = "[(Apart, OVerbose), (LongEq, OEvent ''x''), (Glued, OEvent ''yz''), (Glued, OFreq ''2'' (DFin 2))]"
  have flags: "NRM_TOOLS_FLAGS_ISSET 3 NRM_TOOLS_ARGS_FLAG_FREQ" "NRM_TOOLS_FLAGS_ISSET 3 NRM_TOOLS_ARGS_FLAG_EVENT"
    "\<not> NRM_TOOLS_FLAGS_ISSET 3 NRM_TOOLS_ARGS_FLAG_INHERIT"
    by (simp_all add: NRM_TOOLS_FLAGS_ISSET_def NRM_TOOLS_ARGS_FLAG_FREQ_def NRM_TOOLS_ARGS_FLAG_EVENT_def NRM_TOOLS_ARGS_FLAG_INHERIT_def)
  then have "list_all (opt_ok (\<lambda>_. (DFin 2, False, False)) (ta_flags (args_blank 3))) ?sos" by (simp add: opt_ok_def args_blank_def)
  moreover have "positional [''run'', ''-v'']" by (simp add: positional_def)
  moreover have "''nrmc'' # rendered ?sos @ [''run'', ''-v''] = [''nrmc'', ''-v'', ''--event=x'', ''-eyz'', ''-f2'', ''run'', ''-v'']"
    "length (rendered ?sos) = 4" by (simp_all add: rendered_def render_def render_word_def)
  ultimately show ?thesis
    using nrm_tools_parse_args_reads [of "\<lambda>_. (DFin 2, False, False)" "args_blank 3" ?sos "[''run'', ''-v'']" getopt_start "''nrmc''"] flags
    by (auto simp: getopt_start_def args_defaults_def args_blank_def Let_def NRM_LOG_NORMAL_def NRM_DEFAULT_UPSTREAM_URI_def s32_def)
qed

text \<open>
  C27. The parser is safe on every command line: whatever the arguments and the extra options asked for, the two
  tables of options stay inside their buffers, the scan ends, no assertion fails and no missing
  argument is read; the result is an error code below zero or the index, between 1 and \<open>argc\<close>, of the first
  word that was not consumed, and then a uri is set.
\<close>

theorem nrm_tools_parse_args_safe:
  assumes "argv \<noteq> []" and "go_nextchar go = []"
  shows "\<exists>err args' go'. nrm_tools_parse_args strtod argv args go = Inr (err, args', go')
     \<and> (err < 0 \<or> (1 \<le> err \<and> err \<le> int (length argv) \<and> go_optind go' = nat err \<and> ta_upstream_uri args' \<noteq> None))"
  using parse_args_ok [OF assms, of strtod args] by blast

theorem nrm_tools_parse_args_safe_witness:
  "\<exists>err args' go'. nrm_tools_parse_args (\<lambda>_. (DFin 0, False, True)) [''nrmc'', ''-l''] (args_blank 0) getopt_start = Inr (err, args', go')
     \<and> (err < 0 \<or> 1 \<le> err \<and> err \<le> 2)"
  using nrm_tools_parse_args_safe [of "[''nrmc'', ''-l'']" getopt_start "\<lambda>_. (DFin 0, False, True)" "args_blank 0"]
  by (auto simp: getopt_start_def)

text \<open>The value a variable gives: what was there when it is not set, otherwise what the parser says.\<close>

definition env_value :: "string option \<Rightarrow> (string \<Rightarrow> int \<times> int option) \<Rightarrow> int \<Rightarrow> int \<times> int option" where
  "env_value var parse old = (case var of None \<Rightarrow> (0, Some old) | Some s \<Rightarrow> parse s)"

lemma init_variable_value:
  assumes "\<And>s. fst (parse s) = 0 \<longleftrightarrow> snd (parse s) \<noteq> None" and "store old g = g"
  shows "init_variable var parse store g
     = (let r = env_value var parse old in (fst r, if fst r = 0 then store (the (snd r)) g else g))"
  using assms(1) [of "the var"] assms(2)
  by (auto simp: init_variable_def env_value_def Let_def split: option.split prod.split)

lemma parse_zero:
  "fst (nrm_parse_uint s) = 0 \<longleftrightarrow> snd (nrm_parse_uint s) \<noteq> None" "fst (nrm_parse_int s) = 0 \<longleftrightarrow> snd (nrm_parse_int s) \<noteq> None"
  "fst (nrm_parse_llu s) = 0 \<longleftrightarrow> snd (nrm_parse_llu s) \<noteq> None"
  by (auto simp: nrm_parse_uint_def nrm_parse_int_def nrm_parse_llu_def split: prod.split)

lemma env_value_zero:
  "fst (env_value v nrm_parse_uint d) = 0 \<Longrightarrow> Some (the (snd (env_value v nrm_parse_uint d))) = snd (env_value v nrm_parse_uint d)"
  "fst (env_value v nrm_parse_int d) = 0 \<Longrightarrow> Some (the (snd (env_value v nrm_parse_int d))) = snd (env_value v nrm_parse_int d)"
  "fst (env_value v nrm_parse_llu d) = 0 \<Longrightarrow> Some (the (snd (env_value v nrm_parse_llu d))) = snd (env_value v nrm_parse_llu d)"
  using parse_zero [of "the v"] by (cases v; simp add: env_value_def)+

lemma init_stages:
  "init_variable v nrm_parse_uint (\<lambda>x g. g\<lparr>nrm_upstream_rpc_port := x\<rparr>) g = (let r = env_value v nrm_parse_uint (nrm_upstream_rpc_port g)
     in (fst r, if fst r = 0 then g\<lparr>nrm_upstream_rpc_port := the (snd r)\<rparr> else g))"
  "init_variable v nrm_parse_uint (\<lambda>x g. g\<lparr>nrm_upstream_pub_port := x\<rparr>) g = (let r = env_value v nrm_parse_uint (nrm_upstream_pub_port g)
     in (fst r, if fst r = 0 then g\<lparr>nrm_upstream_pub_port := the (snd r)\<rparr> else g))"
  "init_variable v nrm_parse_llu (\<lambda>x g. g\<lparr>nrm_ratelimit := x\<rparr>) g = (let r = env_value v nrm_parse_llu (nrm_ratelimit g)
     in (fst r, if fst r = 0 then g\<lparr>nrm_ratelimit := the (snd r)\<rparr> else g))"
  "init_variable v nrm_parse_int (\<lambda>x g. g\<lparr>nrm_transmit := x\<rparr>) g = (let r = env_value v nrm_parse_int (nrm_transmit g)
     in (fst r, if fst r = 0 then g\<lparr>nrm_transmit := the (snd r)\<rparr> else g))"
  "init_variable v nrm_parse_uint (\<lambda>x g. g\<lparr>nrm_timeout := x\<rparr>) g = (let r = env_value v nrm_parse_uint (nrm_timeout g)
     in (fst r, if fst r = 0 then g\<lparr>nrm_timeout := the (snd r)\<rparr> else g))"
  by (rule init_variable_value; simp add: parse_zero)+

text \<open>
  C33. \<open>nrm_init\<close> takes the variables of the environment in the order uri, rpc port, pub port, rate limit,
  transmission, timeout, and returns the code of the first one that cannot be parsed, or 0.  A global holds the
  value of its variable, or what it held before when the variable is not set, if this variable and every earlier one can be
  parsed; from the first one that cannot on, every global is as before.  czmq no longer handles signals exactly
  when the call returns 0.  A log that was not initialised now writes to the standard error under the name libnrm; one
  that was is left as it is.
\<close>

theorem nrm_init_reads:
  "case nrm_init getenv g lg of (err, g', lg') \<Rightarrow>
     (let rpc = env_value (getenv ''NRM_UPSTREAM_RPC_PORT'') nrm_parse_uint (nrm_upstream_rpc_port g);
          pub = env_value (getenv ''NRM_UPSTREAM_PUB_PORT'') nrm_parse_uint (nrm_upstream_pub_port g);
          rate = env_value (getenv ''NRM_RATELIMIT'') nrm_parse_llu (nrm_ratelimit g);
          trans = env_value (getenv ''NRM_TRANSMIT'') nrm_parse_int (nrm_transmit g);
          tout = env_value (getenv ''NRM_TIMEOUT'') nrm_parse_uint (nrm_timeout g);
          ok = (\<lambda>rs. list_all (\<lambda>e. e = 0) rs);
          errs = filter (\<lambda>e. e \<noteq> 0) (map fst [rpc, pub, rate, trans, tout])
      in err = (if errs = [] then 0 else hd errs)
       \<and> nrm_upstream_uri g' = (case getenv ''NRM_UPSTREAM_URI'' of None \<Rightarrow> nrm_upstream_uri g | Some u \<Rightarrow> u)
       \<and> Some (nrm_upstream_rpc_port g') = (if ok [fst rpc] then snd rpc else Some (nrm_upstream_rpc_port g))
       \<and> Some (nrm_upstream_pub_port g') = (if ok [fst rpc, fst pub] then snd pub else Some (nrm_upstream_pub_port g))
       \<and> Some (nrm_ratelimit g') = (if ok [fst rpc, fst pub, fst rate] then snd rate else Some (nrm_ratelimit g))
       \<and> Some (nrm_transmit g') = (if ok [fst rpc, fst pub, fst rate, fst trans] then snd trans else Some (nrm_transmit g))
       \<and> Some (nrm_timeout g') = (if ok [fst rpc, fst pub, fst rate, fst trans, fst tout] then snd tout else Some (nrm_timeout g))
       \<and> nrm_zsys_handler g' = (if err = 0 then False else nrm_zsys_handler g)
       \<and> lg' = (if log_initialized lg = 0
                then \<lparr>log_level = NRM_LOG_NORMAL, log_initialized = 1, log_fd = Some 2, log_namespace = Some ''libnrm''\<rparr> else lg))"
proof -
  define g0 where "g0 = (case getenv ''NRM_UPSTREAM_URI'' of None \<Rightarrow> g | Some uri \<Rightarrow> g\<lparr>nrm_upstream_uri := uri\<rparr>)"
  have g0: "nrm_upstream_rpc_port g0 = nrm_upstream_rpc_port g" "nrm_upstream_pub_port g0 = nrm_upstream_pub_port g"
    "nrm_ratelimit g0 = nrm_ratelimit g" "nrm_transmit g0 = nrm_transmit g" "nrm_timeout g0 = nrm_timeout g"
    "nrm_zsys_handler g0 = nrm_zsys_handler g"
    "nrm_upstream_uri g0 = (case getenv ''NRM_UPSTREAM_URI'' of None \<Rightarrow> nrm_upstream_uri g | Some u \<Rightarrow> u)"
    by (simp_all add: g0_def split: option.split)
  define lg0 where "lg0 = (if log_initialized lg = 0 then snd (nrm_log_init (Some 2) (Some ''libnrm'') lg) else lg)"
  define rpc where "rpc = env_value (getenv ''NRM_UPSTREAM_RPC_PORT'') nrm_parse_uint (nrm_upstream_rpc_port g)"
  define pub where "pub = env_value (getenv ''NRM_UPSTREAM_PUB_PORT'') nrm_parse_uint (nrm_upstream_pub_port g)"
  define rate where "rate = env_value (getenv ''NRM_RATELIMIT'') nrm_parse_llu (nrm_ratelimit g)"
  define trans where "trans = env_value (getenv ''NRM_TRANSMIT'') nrm_parse_int (nrm_transmit g)"
  define tout where "tout = env_value (getenv ''NRM_TIMEOUT'') nrm_parse_uint (nrm_timeout g)"
  note r_def = rpc_def pub_def rate_def trans_def tout_def
  have z: "fst rpc = 0 \<Longrightarrow> Some (the (snd rpc)) = snd rpc" "fst pub = 0 \<Longrightarrow> Some (the (snd pub)) = snd pub"
    "fst rate = 0 \<Longrightarrow> Some (the (snd rate)) = snd rate" "fst trans = 0 \<Longrightarrow> Some (the (snd trans)) = snd trans"
    "fst tout = 0 \<Longrightarrow> Some (the (snd tout)) = snd tout"
    unfolding r_def by (rule env_value_zero; assumption)+
  have stage: "nrm_init getenv g lg =
     (if fst rpc \<noteq> 0 then (fst rpc, g0, lg0) else
      let g1 = g0\<lparr>nrm_upstream_rpc_port := the (snd rpc)\<rparr> in
      if fst pub \<noteq> 0 then (fst pub, g1, lg0) else
      let g2 = g1\<lparr>nrm_upstream_pub_port := the (snd pub)\<rparr> in
      if fst rate \<noteq> 0 then (fst rate, g2, lg0) else
      let g3 = g2\<lparr>nrm_ratelimit := the (snd rate)\<rparr> in
      if fst trans \<noteq> 0 then (fst trans, g3, lg0) else
      let g4 = g3\<lparr>nrm_transmit := the (snd trans)\<rparr> in
      if fst tout \<noteq> 0 then (fst tout, g4, lg0) else
      (0, g4\<lparr>nrm_timeout := the (snd tout), nrm_zsys_handler := False\<rparr>, lg0))"
    unfolding nrm_init_def init_stages g0_def [symmetric] lg0_def [symmetric] r_def by (simp add: Let_def g0)
  show ?thesis
    unfolding stage r_def [symmetric]
    using z g0
    by (cases "fst rpc = 0"; cases "fst pub = 0"; cases "fst rate = 0"; cases "fst trans = 0"; cases "fst tout = 0")
      (simp_all add: Let_def lg0_def nrm_log_init_def)
qed

theorem nrm_init_reads_witness:
  "case nrm_init (\<lambda>v. if v = ''NRM_TIMEOUT'' then Some ''250'' else if v = ''NRM_RATELIMIT'' then Some ''x'' else None) nrm_globals_start nrm_log_start
     of (err, g', lg') \<Rightarrow> err = - NRM_EINVAL \<and> nrm_timeout g' = 1000 \<and> nrm_upstream_rpc_port g' = 3456"
proof -
  have p: "nrm_parse_uint ''250'' = (0, Some 250)" "nrm_parse_llu ''x'' = (- NRM_EINVAL, None)" "- NRM_EINVAL \<noteq> 0" by code_simp+
  show ?thesis
    using nrm_init_reads [of "\<lambda>v. if v = ''NRM_TIMEOUT'' then Some ''250'' else if v = ''NRM_RATELIMIT'' then Some ''x'' else None"
        nrm_globals_start nrm_log_start]
    by (simp add: Let_def env_value_def p nrm_log_start_def nrm_globals_start_def NRM_DEFAULT_UPSTREAM_RPC_PORT_def
        NRM_DEFAULT_TIMEOUT_def split: prod.splits)
qed

end
