(* ===== verification/NRM_Reactor.thy ===== *)
theory NRM_Reactor
  imports NRM_Time
begin

text \<open>
  The signal and timer loop of the programs around the daemon (src/reactor.c).

  \<open>os_state\<close> counts what a reactor takes from its process: the blocked signals of the thread, the live
  loops of czmq, the live blocks of memory and the open descriptors.  Whether each call succeeds is an
  argument; a failing system call comes with its \<open>errno\<close>.  \<open>pthread_sigmask\<close> reports an error as its
  positive result (pthread_sigmask(3)); on an error it changes nothing and \<open>oldmask\<close> keeps the zeros of
  \<open>calloc\<close>, the empty set.  The callbacks of the user work on a state of their own, and the loop runs over an
  explicit list of what it is woken by.
\<close>

record os_state =
  os_mask :: "nat set"
  os_loops :: nat
  os_blocks :: nat
  os_fds :: nat

text \<open>The fields of \<open>signalfd_siginfo\<close> that are read.\<close>

record signalfd_siginfo =
  ssi_signo :: nat
  ssi_pid :: int
  ssi_code :: int

record 's reactor_callbacks =
  rx_signal :: "(signalfd_siginfo \<Rightarrow> 's \<Rightarrow> int \<times> 's) option"
  rx_timer :: "('s \<Rightarrow> int \<times> 's) option"

text \<open>A loop is the list of its timers, in milliseconds.\<close>

record 's nrm_reactor =
  rx_loop :: "int list"
  rx_oldmask :: "nat set"
  rx_callbacks :: "'s reactor_callbacks"

definition SIGINT :: nat where "SIGINT = 2"
definition SIGTERM :: nat where "SIGTERM = 15"

text \<open>What the calls of \<open>nrm_reactor_create\<close> do: whether memory is there, then \<open>errno\<close> or success of each.\<close>

record create_calls =
  cc_calloc :: bool
  cc_zloop :: "int option"
  cc_sigmask :: int
  cc_signalfd :: "int option"

definition nrm_reactor_create ::
  "create_calls \<Rightarrow> bool \<Rightarrow> nat set option \<Rightarrow> os_state \<Rightarrow> int \<times> 's nrm_reactor option \<times> os_state" where
  "nrm_reactor_create cc reactor_nonnull sigmask os =
     (if \<not> reactor_nonnull then (- NRM_EINVAL, None, os)
      else if \<not> cc_calloc cc then (- NRM_ENOMEM, None, os)
      else
        let os = os\<lparr>os_blocks := os_blocks os + 1\<rparr> in
        case cc_zloop cc of
          Some errno \<Rightarrow> (- errno, None, os\<lparr>os_blocks := os_blocks os - 1\<rparr>)
        | None \<Rightarrow>
            let os = os\<lparr>os_loops := os_loops os + 1\<rparr>;
                sigs = (case sigmask of None \<Rightarrow> {SIGINT, SIGTERM} | Some m \<Rightarrow> m);
                err = cc_sigmask cc;
                oldmask = (if err = 0 then os_mask os else {});
                os = (if err = 0 then os\<lparr>os_mask := os_mask os \<union> sigs\<rparr> else os)
            in if err = -1 then (-1, None, os\<lparr>os_loops := os_loops os - 1, os_blocks := os_blocks os - 1\<rparr>)
            else case cc_signalfd cc of
              Some errno \<Rightarrow> (- errno, None, os\<lparr>os_mask := oldmask, os_loops := os_loops os - 1, os_blocks := os_blocks os - 1\<rparr>)
            | None \<Rightarrow> (0, Some \<lparr>rx_loop = [], rx_oldmask = oldmask, rx_callbacks = \<lparr>rx_signal = None, rx_timer = None\<rparr>\<rparr>,
                         os\<lparr>os_fds := os_fds os + 1\<rparr>))"

definition nrm_reactor_setcallbacks :: "'s nrm_reactor option \<Rightarrow> 's reactor_callbacks \<Rightarrow> int \<times> 's nrm_reactor option" where
  "nrm_reactor_setcallbacks reactor callbacks =
     (case reactor of
        None \<Rightarrow> (- NRM_EINVAL, None)
      | Some r \<Rightarrow> (0, Some (r\<lparr>rx_callbacks := callbacks\<rparr>)))"

text \<open>The milliseconds are stored in an \<open>int\<close>.\<close>

definition nrm_reactor_settimer :: "'s nrm_reactor option \<Rightarrow> nrm_time \<Rightarrow> int \<times> 's nrm_reactor option" where
  "nrm_reactor_settimer reactor sleeptime =
     (case reactor of
        None \<Rightarrow> (- NRM_EINVAL, None)
      | Some r \<Rightarrow>
          let millisecs = s32 (s64 (s64 (tv_sec sleeptime * 1000) + tv_nsec sleeptime sdiv 1000000))
          in (0, Some (r\<lparr>rx_loop := rx_loop r @ [millisecs]\<rparr>)))"

text \<open>The handlers of the loop; without a callback a signal ends the loop and a timer does nothing.\<close>

definition nrm_reactor_signal_callback :: "'s nrm_reactor \<Rightarrow> signalfd_siginfo \<Rightarrow> 's \<Rightarrow> int \<times> 's" where
  "nrm_reactor_signal_callback self fdsi s =
     (case rx_signal (rx_callbacks self) of None \<Rightarrow> (-1, s) | Some f \<Rightarrow> f fdsi s)"

definition nrm_reactor_timer_callback :: "'s nrm_reactor \<Rightarrow> 's \<Rightarrow> int \<times> 's" where
  "nrm_reactor_timer_callback self s =
     (case rx_timer (rx_callbacks self) of None \<Rightarrow> (0, s) | Some f \<Rightarrow> f s)"

datatype wake = WSignal signalfd_siginfo | WTimer

definition reactor_handle :: "'s nrm_reactor \<Rightarrow> wake \<Rightarrow> 's \<Rightarrow> int \<times> 's" where
  "reactor_handle self w s =
     (case w of WSignal n \<Rightarrow> nrm_reactor_signal_callback self n s | WTimer \<Rightarrow> nrm_reactor_timer_callback self s)"

text \<open>\<open>zloop_start\<close> runs until a handler returns -1; the wakes it did not handle are left.\<close>

fun reactor_run :: "'s nrm_reactor \<Rightarrow> wake list \<Rightarrow> 's \<Rightarrow> int \<times> 's \<times> wake list" where
  "reactor_run self [] s = (0, s, [])"
| "reactor_run self (w # ws) s =
     (case reactor_handle self w s of (rc, s) \<Rightarrow> if rc = -1 then (-1, s, ws) else reactor_run self ws s)"

definition nrm_reactor_start :: "'s nrm_reactor option \<Rightarrow> wake list \<Rightarrow> 's \<Rightarrow> int \<times> 's \<times> wake list" where
  "nrm_reactor_start reactor ws s =
     (case reactor of None \<Rightarrow> (- NRM_EINVAL, s, ws) | Some r \<Rightarrow> reactor_run r ws s)"

text \<open>The descriptor of the signals is not closed.\<close>

definition nrm_reactor_destroy :: "'s nrm_reactor option option \<Rightarrow> os_state \<Rightarrow> 's nrm_reactor option option \<times> os_state" where
  "nrm_reactor_destroy reactor os =
     (case reactor of
        None \<Rightarrow> (None, os)
      | Some None \<Rightarrow> (Some None, os)
      | Some (Some r) \<Rightarrow>
          (Some None, os\<lparr>os_loops := os_loops os - 1, os_mask := rx_oldmask r, os_blocks := os_blocks os - 1\<rparr>))"


section \<open>Properties\<close>

text \<open>
  C34. A reactor takes nothing it does not give back, but one descriptor: when \<open>nrm_reactor_create\<close> returns
  an error (with a working \<open>pthread_sigmask\<close>), the signal mask, the loops, the memory and the descriptors are
  as before and no reactor is returned; when it returns 0 the signals asked for (SIGINT and SIGTERM by
  default) are blocked, and \<open>nrm_reactor_destroy\<close> brings everything back except the descriptor of
  \<open>signalfd\<close>, which stays open.
\<close>

theorem nrm_reactor_gives_back:
  assumes "cc_sigmask cc = 0" and errnos: "\<forall>e. cc_zloop cc = Some e \<longrightarrow> e > 0" "\<forall>e. cc_signalfd cc = Some e \<longrightarrow> e > 0"
  shows "case nrm_reactor_create cc nonnull sigmask os of (err, r, os') \<Rightarrow>
     (err \<noteq> 0 \<longrightarrow> r = None \<and> os' = os)
   \<and> (err = 0 \<longrightarrow> r \<noteq> None \<and> os_mask os' = os_mask os \<union> (case sigmask of None \<Rightarrow> {SIGINT, SIGTERM} | Some m \<Rightarrow> m)
        \<and> nrm_reactor_destroy (Some r) os' = (Some None, os\<lparr>os_fds := os_fds os + 1\<rparr>))"
  using assms
  by (cases os) (auto simp: nrm_reactor_create_def nrm_reactor_destroy_def Let_def split: option.split)

theorem nrm_reactor_gives_back_witness:
  "case nrm_reactor_create \<lparr>cc_calloc = True, cc_zloop = None, cc_sigmask = 0, cc_signalfd = Some 24\<rparr> True None
      \<lparr>os_mask = {1}, os_loops = 0, os_blocks = 5, os_fds = 3\<rparr> of (err, r, os') \<Rightarrow>
     err = -24 \<and> os' = \<lparr>os_mask = {1}, os_loops = 0, os_blocks = 5, os_fds = 3\<rparr>"
  using nrm_reactor_gives_back [where cc = "\<lparr>cc_calloc = True, cc_zloop = None, cc_sigmask = 0, cc_signalfd = Some 24\<rparr>"
      and nonnull = True and sigmask = None and os = "\<lparr>os_mask = {1}, os_loops = 0, os_blocks = 5, os_fds = 3\<rparr>"]
  by (simp add: nrm_reactor_create_def Let_def)

text \<open>
  The check of \<open>pthread_sigmask\<close> compares with -1, which it never returns.  When it fails and then
  \<open>signalfd\<close> fails too, the call unblocks every signal the thread had blocked.
\<close>

theorem nrm_reactor_create_loses_mask:
  assumes "cc_calloc cc" and "cc_zloop cc = None" and "cc_sigmask cc > 0" and "cc_signalfd cc = Some e"
  shows "snd (snd (nrm_reactor_create cc True sigmask os)) = os\<lparr>os_mask := {}\<rparr>"
  using assms by (simp add: nrm_reactor_create_def Let_def)

text \<open>
  The loop without a signal callback: any number of timer wakes runs the timer callback that often, and the
  first signal ends the loop.
\<close>

theorem nrm_reactor_runs_until_signal:
  assumes "rx_signal (rx_callbacks r) = None" and "rx_timer (rx_callbacks r) = Some f" and "\<And>s. fst (f s) \<noteq> -1"
  shows "nrm_reactor_start (Some r) (replicate n WTimer @ WSignal sg # ws) s = (-1, ((snd \<circ> f) ^^ n) s, ws)"
proof -
  have "reactor_run r (replicate n WTimer @ WSignal sg # ws) s = (-1, ((snd \<circ> f) ^^ n) s, ws)"
  proof (induction n arbitrary: s)
    case 0
    then show ?case using assms(1) by (simp add: reactor_handle_def nrm_reactor_signal_callback_def)
  next
    case (Suc n)
    have "reactor_handle r WTimer s = f s" using assms(2) by (simp add: reactor_handle_def nrm_reactor_timer_callback_def)
    then show ?case using Suc assms(3) [of s] by (cases "f s") (simp add: funpow_Suc_right del: funpow.simps)
  qed
  then show ?thesis by (simp add: nrm_reactor_start_def)
qed

text \<open>A timer of more than about 24.8 days does not fit its \<open>int\<close> and becomes another delay.\<close>

lemma nrm_reactor_settimer_wraps:
  "rx_loop (the (snd (nrm_reactor_settimer (Some r) \<lparr>tv_sec = 2147484, tv_nsec = 0\<rparr>))) = rx_loop r @ [- 2147483296]"
  by (simp add: nrm_reactor_settimer_def s32_def s64_def)

end
