(* ===== verification/NRM_String.thy ===== *)
theory NRM_String
  imports NRM_Vector
begin

text \<open>
  The reference-counted strings of src/utils/strings.c and the uuids of src/utils/uuids.c.

  A \<open>nrm_string_t\<close> points behind a header (length, allocated length, reference count).  The heap
  of live headers is a map from addresses to \<open>realstring\<close>; \<open>calloc\<close> hands out addresses
  that were never used, so an access to a freed string is recognised (\<open>UseAfterFree\<close>).  A NULL
  string is \<open>None\<close>: stepping back from NULL to its header is a NULL dereference.  The count is an
  \<open>unsigned int\<close> that wraps at 32 bits and is read back as a signed int.

  The contract \<open>refcount\<close> describes counting in the abstract, is interpreted on
  \<open>nrm_string_incref\<close> and \<open>nrm_string_decref\<close>, and gives the life-cycle theorem: a string
  lives, with its text unchanged, exactly until as many references were dropped as were held.
\<close>

record realstring =
  slen :: nat
  mlen :: nat
  rc :: nat
  buf :: "char list"

type_synonym saddr = nat

record sheap =
  cells :: "saddr \<Rightarrow> realstring option"
  fresh :: saddr

definition sheap_empty :: sheap where
  "sheap_empty = \<lparr>cells = (\<lambda>_. None), fresh = 1\<rparr>"

definition cstr :: "char list \<Rightarrow> string" where
  "cstr s = takeWhile (\<lambda>c. c \<noteq> char_of (0 :: nat)) s"


section \<open>Strings\<close>

text \<open>\<open>NRM_STRING_C2S\<close>: the header of a string, when the string is live.\<close>

definition NRM_STRING_C2S :: "saddr option \<Rightarrow> sheap \<Rightarrow> realstring exec" where
  "NRM_STRING_C2S s h =
     bindE (derefE s) (\<lambda>a. case cells h a of None \<Rightarrow> Inl UseAfterFree | Some r \<Rightarrow> Inr r)"

definition nrm_string_new :: "bool \<Rightarrow> nat \<Rightarrow> sheap \<Rightarrow> saddr option \<times> sheap" where
  "nrm_string_new calloc_ok n h =
     (if calloc_ok
      then (Some (fresh h),
            h\<lparr>cells := (cells h)(fresh h \<mapsto>
                  \<lparr>slen = n, mlen = n + 1, rc = 1, buf = replicate (n + 1) (char_of (0 :: nat))\<rparr>),
              fresh := fresh h + 1\<rparr>)
      else (None, h))"

text \<open>\<open>memcpy\<close> of \<open>src\<close> to offset \<open>off\<close> of the buffer behind a live header.\<close>

definition string_memcpy :: "saddr \<Rightarrow> nat \<Rightarrow> char list \<Rightarrow> sheap \<Rightarrow> sheap exec" where
  "string_memcpy a off src h =
     (case cells h a of
        None \<Rightarrow> Inl UseAfterFree
      | Some r \<Rightarrow>
          if off + length src \<le> length (buf r)
          then Inr (h\<lparr>cells := (cells h)(a \<mapsto> r\<lparr>buf := take off (buf r) @ src @ drop (off + length src) (buf r)\<rparr>)\<rparr>)
          else Inl OutOfBounds)"

definition nrm_string_fromchar :: "bool \<Rightarrow> string option \<Rightarrow> sheap \<Rightarrow> (saddr option \<times> sheap) exec" where
  "nrm_string_fromchar calloc_ok str h =
     (case str of
        None \<Rightarrow> Inr (None, h)
      | Some s \<Rightarrow>
          let n = length (cstr s) in
          (case nrm_string_new calloc_ok n h of
             (None, h) \<Rightarrow> Inr (None, h)
           | (Some a, h) \<Rightarrow> bindE (string_memcpy a 0 (take n s) h) (\<lambda>h. Inr (Some a, h))))"

definition nrm_string_frombuf :: "bool \<Rightarrow> char list option \<Rightarrow> nat \<Rightarrow> sheap \<Rightarrow> (saddr option \<times> sheap) exec" where
  "nrm_string_frombuf calloc_ok str len h =
     (case nrm_string_new calloc_ok len h of
        (None, h) \<Rightarrow> Inr (None, h)
      | (Some a, h) \<Rightarrow>
          bindE (derefE str) (\<lambda>s.
          bindE (if len \<le> length s then Inr (take len s) else Inl OutOfBounds) (\<lambda>bytes.
          bindE (string_memcpy a 0 bytes h) (\<lambda>h. Inr (Some a, h)))))"

text \<open>\<open>text\<close> is what the format and its arguments print.\<close>

definition nrm_string_fromprintf :: "bool \<Rightarrow> string \<Rightarrow> sheap \<Rightarrow> (saddr option \<times> sheap) exec" where
  "nrm_string_fromprintf calloc_ok txt h =
     (case nrm_string_new calloc_ok (length txt) h of
        (None, h) \<Rightarrow> Inr (None, h)
      | (Some a, h) \<Rightarrow>
          bindE (derefE (cells h a)) (\<lambda>r.
          bindE (string_memcpy a 0 (take (mlen r - 1) txt @ [char_of (0 :: nat)]) h) (\<lambda>h. Inr (Some a, h))))"

definition nrm_string_incref :: "saddr option \<Rightarrow> sheap \<Rightarrow> sheap exec" where
  "nrm_string_incref s h =
     bindE (NRM_STRING_C2S s h) (\<lambda>r.
     bindE (assertE (s32 (int (rc r)) > 0)) (\<lambda>_.
     Inr (h\<lparr>cells := (cells h)(the s \<mapsto> r\<lparr>rc := nat (u32 (int (rc r) + 1))\<rparr>)\<rparr>)))"

definition nrm_string_decref :: "saddr option \<Rightarrow> sheap \<Rightarrow> sheap exec" where
  "nrm_string_decref s h =
     bindE (NRM_STRING_C2S s h) (\<lambda>r.
       let n = u32 (int (rc r) - 1) in
       bindE (assertE (s32 n \<ge> 0)) (\<lambda>_.
       if s32 n = 0 then Inr (h\<lparr>cells := (cells h)(the s := None)\<rparr>)
       else Inr (h\<lparr>cells := (cells h)(the s \<mapsto> r\<lparr>rc := nat n\<rparr>)\<rparr>)))"

fun strncmp :: "char list \<Rightarrow> char list \<Rightarrow> nat \<Rightarrow> int exec" where
  "strncmp xs ys 0 = Inr 0"
| "strncmp (x # xs) (y # ys) (Suc n) =
     (if x \<noteq> y then Inr (if (of_char x :: nat) < of_char y then -1 else 1)
      else if x = char_of (0 :: nat) then Inr 0 else strncmp xs ys n)"
| "strncmp _ _ (Suc n) = Inl OutOfBounds"

definition nrm_string_cmp :: "saddr option \<Rightarrow> saddr option \<Rightarrow> sheap \<Rightarrow> int exec" where
  "nrm_string_cmp one two h =
     (if one = None \<and> two = None then Inr 0
      else if one = None \<or> two = None then Inr 1
      else bindE (NRM_STRING_C2S one h) (\<lambda>r1.
           bindE (NRM_STRING_C2S two h) (\<lambda>r2. strncmp (buf r1) (buf r2) (slen r1))))"

definition nrm_string_strlen :: "saddr option \<Rightarrow> sheap \<Rightarrow> nat exec" where
  "nrm_string_strlen s h =
     (if s = None then Inr 0 else bindE (NRM_STRING_C2S s h) (\<lambda>r. Inr (slen r)))"

text \<open>
  \<open>dest\<close> is a pointer to a string variable: \<open>None\<close> for NULL, else the variable's value.  The
  result carries its new value.
\<close>

definition nrm_string_join ::
  "bool \<Rightarrow> saddr option option \<Rightarrow> char \<Rightarrow> saddr option \<Rightarrow> sheap \<Rightarrow> (int \<times> saddr option option \<times> sheap) exec" where
  "nrm_string_join calloc_ok dest c src h =
     (case dest of
        None \<Rightarrow> Inr (- NRM_EINVAL, None, h)
      | Some d \<Rightarrow>
          if src = None then Inr (0, dest, h)
          else bindE (NRM_STRING_C2S d h) (\<lambda>r.
               bindE (NRM_STRING_C2S src h) (\<lambda>s.
               case nrm_string_new calloc_ok (slen r + slen s + 1) h of
                 (None, h) \<Rightarrow> Inl NullDeref
               | (Some t, h) \<Rightarrow>
                   bindE (string_memcpy t 0 (take (slen r) (buf r)) h) (\<lambda>h.
                   bindE (string_memcpy t (slen r) [c] h) (\<lambda>h.
                   bindE (string_memcpy t (slen r + 1) (take (slen s) (buf s)) h) (\<lambda>h.
                   bindE (nrm_string_decref d h) (\<lambda>h.
                   Inr (0, Some (Some t), h))))))))"

text \<open>The body of the loop of \<open>nrm_string_vjoin\<close>, on the running value of \<open>ret\<close>.\<close>

definition vjoin_step ::
  "char \<Rightarrow> saddr option \<Rightarrow> saddr option \<times> sheap \<Rightarrow> (saddr option \<times> sheap) exec" where
  "vjoin_step c s st =
     (case st of (ret, h) \<Rightarrow>
        bindE (nrm_string_strlen s h) (\<lambda>n.
        if n = 0 then Inr (ret, h)
        else bindE (nrm_string_strlen ret h) (\<lambda>m.
             if m \<noteq> 0
             then bindE (nrm_string_join True (Some ret) c s h) (\<lambda>(_, d, h).
                  bindE (derefE d) (\<lambda>ret. Inr (ret, h)))
             else bindE (nrm_string_incref s h) (\<lambda>h. Inr (s, h)))))"

definition nrm_string_vjoin :: "char \<Rightarrow> saddr option list \<Rightarrow> sheap \<Rightarrow> (saddr option \<times> sheap) exec" where
  "nrm_string_vjoin c vect_of_strings h =
     bindE (nrm_string_fromchar True (Some []) h) (foldE (vjoin_step c) vect_of_strings)"


section \<open>Uuids\<close>

text \<open>
  A \<open>nrm_uuid_t *\<close> is a cell that holds a string; a NULL cell is \<open>None\<close>.  The text of a new
  random uuid comes from czmq.
\<close>

definition nrm_uuid_create :: "bool \<Rightarrow> bool \<Rightarrow> string \<Rightarrow> sheap \<Rightarrow> (saddr option option \<times> sheap) exec" where
  "nrm_uuid_create calloc_ok string_ok zuuid_str h =
     (if \<not> calloc_ok then Inr (None, h)
      else bindE (nrm_string_fromchar string_ok (Some zuuid_str) h) (\<lambda>(s, h). Inr (Some s, h)))"

definition nrm_uuid_destroy :: "saddr option option option \<Rightarrow> sheap \<Rightarrow> (saddr option option option \<times> sheap) exec" where
  "nrm_uuid_destroy uuid h =
     (case uuid of
        None \<Rightarrow> Inr (None, h)
      | Some None \<Rightarrow> Inr (Some None, h)
      | Some (Some s) \<Rightarrow> bindE (nrm_string_decref s h) (\<lambda>h. Inr (Some None, h)))"

definition nrm_uuid_create_fromchar ::
  "bool \<Rightarrow> bool \<Rightarrow> string option \<Rightarrow> sheap \<Rightarrow> (saddr option option \<times> sheap) exec" where
  "nrm_uuid_create_fromchar calloc_ok string_ok s h =
     (if s = None then Inr (None, h)
      else if \<not> calloc_ok then Inr (None, h)
      else bindE (nrm_string_fromchar string_ok s h) (\<lambda>(u, h). Inr (Some u, h)))"

definition nrm_uuid_create_frombuf ::
  "bool \<Rightarrow> bool \<Rightarrow> char list option \<Rightarrow> nat \<Rightarrow> sheap \<Rightarrow> (saddr option option \<times> sheap) exec" where
  "nrm_uuid_create_frombuf calloc_ok string_ok s len h =
     (if s = None then Inr (None, h)
      else if \<not> calloc_ok then Inr (None, h)
      else bindE (nrm_string_frombuf string_ok s len h) (\<lambda>(u, h). Inr (Some u, h)))"

definition nrm_uuid_to_char :: "saddr option option \<Rightarrow> saddr option" where
  "nrm_uuid_to_char uuid = (case uuid of None \<Rightarrow> None | Some s \<Rightarrow> s)"

definition nrm_uuid_to_string :: "saddr option option \<Rightarrow> sheap \<Rightarrow> (saddr option \<times> sheap) exec" where
  "nrm_uuid_to_string uuid h =
     (case uuid of
        None \<Rightarrow> Inr (None, h)
      | Some s \<Rightarrow> bindE (nrm_string_incref s h) (\<lambda>h. Inr (s, h)))"

definition nrm_uuid_cmp :: "saddr option \<Rightarrow> saddr option \<Rightarrow> sheap \<Rightarrow> int exec" where
  "nrm_uuid_cmp one two h = nrm_string_cmp one two h"


section \<open>Live strings\<close>

definition realstring_wf :: "realstring \<Rightarrow> bool" where
  "realstring_wf r \<longleftrightarrow> mlen r = slen r + 1 \<and> length (buf r) = slen r + 1 \<and> buf r ! slen r = char_of (0 :: nat)
     \<and> 0 < rc r \<and> rc r < 2 ^ 31"

definition sheap_wf :: "sheap \<Rightarrow> bool" where
  "sheap_wf h \<longleftrightarrow> (\<forall>a r. cells h a = Some r \<longrightarrow> a < fresh h \<and> realstring_wf r)"

definition string_text :: "sheap \<Rightarrow> saddr \<Rightarrow> string option" where
  "string_text h a = map_option (\<lambda>r. take (slen r) (buf r)) (cells h a)"

definition refs :: "sheap \<Rightarrow> saddr \<Rightarrow> nat" where
  "refs h a = (case cells h a of None \<Rightarrow> 0 | Some r \<Rightarrow> rc r)"

lemma sheap_wf_empty: "sheap_wf sheap_empty"
  by (simp add: sheap_wf_def sheap_empty_def)

lemma sheap_wf_fresh: "sheap_wf h \<Longrightarrow> cells h (fresh h) = None"
  by (cases "cells h (fresh h)") (auto simp: sheap_wf_def)

text \<open>
  A sequence of reference operations on one object (\<open>True\<close> takes, \<open>False\<close> drops a reference)
  and the count it should leave; \<open>None\<close> when the sequence touches the object after its last
  reference was dropped, or exceeds the limit of the counter.
\<close>

fun run_refs :: "('p \<Rightarrow> 'h \<Rightarrow> 'h exec) \<Rightarrow> ('p \<Rightarrow> 'h \<Rightarrow> 'h exec) \<Rightarrow> 'p \<Rightarrow> bool list \<Rightarrow> 'h \<Rightarrow> 'h exec" where
  "run_refs inc dec p [] h = Inr h"
| "run_refs inc dec p (b # ops) h = bindE ((if b then inc else dec) p h) (run_refs inc dec p ops)"

fun track_refs :: "nat \<Rightarrow> nat \<Rightarrow> bool list \<Rightarrow> nat option" where
  "track_refs limit n [] = Some n"
| "track_refs limit n (b # ops) =
     (if n = 0 \<or> (b \<and> limit \<le> n) then None else track_refs limit (if b then n + 1 else n - 1) ops)"

locale refcount =
  fixes invar :: "'h \<Rightarrow> bool"
    and count :: "'h \<Rightarrow> 'p \<Rightarrow> nat"
    and payload :: "'h \<Rightarrow> 'p \<Rightarrow> 't option"
    and limit :: nat
    and inc :: "'p \<Rightarrow> 'h \<Rightarrow> 'h exec"
    and dec :: "'p \<Rightarrow> 'h \<Rightarrow> 'h exec"
  assumes inc_ok: "invar h \<Longrightarrow> 0 < count h p \<Longrightarrow> count h p < limit \<Longrightarrow>
      \<exists>h'. inc p h = Inr h' \<and> invar h' \<and> count h' = (count h)(p := count h p + 1) \<and> payload h' = payload h"
    and dec_ok: "invar h \<Longrightarrow> 0 < count h p \<Longrightarrow>
      \<exists>h'. dec p h = Inr h' \<and> invar h' \<and> count h' = (count h)(p := count h p - 1)
        \<and> payload h' = (if count h p = 1 then (payload h)(p := None) else payload h)"
    and inc_dead: "invar h \<Longrightarrow> count h p = 0 \<Longrightarrow> inc p h = Inl UseAfterFree"
    and dec_dead: "invar h \<Longrightarrow> count h p = 0 \<Longrightarrow> dec p h = Inl UseAfterFree"
begin

lemma run_track:
  assumes "invar h" and "0 < count h p" and "track_refs limit (count h p) ops = Some m"
  shows "\<exists>h'. run_refs inc dec p ops h = Inr h' \<and> invar h' \<and> count h' = (count h)(p := m)
     \<and> payload h' = (if m = 0 then (payload h)(p := None) else payload h)"
  using assms
proof (induction ops arbitrary: h)
  case Nil
  then show ?case by auto
next
  case (Cons b ops)
  show ?case
  proof (cases b)
    case True
    then have "count h p < limit" using Cons.prems(3) by (simp split: if_splits)
    from inc_ok [OF Cons.prems(1,2) this] obtain h1 where h1: "inc p h = Inr h1" "invar h1"
      "count h1 = (count h)(p := count h p + 1)" "payload h1 = payload h" by auto
    with Cons.IH [of h1] Cons.prems True show ?thesis
      by (auto simp: fun_upd_def split: if_splits cong: if_cong)
  next
    case False
    from dec_ok [OF Cons.prems(1,2)] obtain h1 where h1: "dec p h = Inr h1" "invar h1"
      "count h1 = (count h)(p := count h p - 1)"
      "payload h1 = (if count h p = 1 then (payload h)(p := None) else payload h)" by auto
    show ?thesis
    proof (cases "count h p = 1")
      case last: True
      have "ops = [] \<and> m = 0"
        using Cons.prems(3) False last by (cases ops) (auto split: if_splits bool.splits elim: track_refs.elims)
      then show ?thesis using h1 False last by (simp add: fun_upd_def)
    next
      case more: False
      with h1 Cons.IH [of h1] Cons.prems False show ?thesis
        by (auto simp: fun_upd_def split: if_splits cong: if_cong)
    qed
  qed
qed

lemma run_dead:
  assumes "invar h" and "count h p = 0" and "ops \<noteq> []"
  shows "run_refs inc dec p ops h = Inl UseAfterFree"
  using assms by (cases ops) (auto simp: inc_dead dec_dead)

end


lemma C2S_Some [simp]:
  "cells h a = Some r \<Longrightarrow> NRM_STRING_C2S (Some a) h = Inr r"
  "cells h a = None \<Longrightarrow> NRM_STRING_C2S (Some a) h = Inl UseAfterFree"
  by (simp_all add: NRM_STRING_C2S_def)

lemma s32_count: "n < 2 ^ 31 \<Longrightarrow> s32 (int n) = int n"
  by (rule s32_id) (simp add: in_s32_def)

lemma incref_ok:
  assumes wf: "sheap_wf h" and r: "cells h a = Some r" and lt: "rc r < 2 ^ 31 - 1"
  shows "nrm_string_incref (Some a) h = Inr (h\<lparr>cells := (cells h)(a \<mapsto> r\<lparr>rc := rc r + 1\<rparr>)\<rparr>)"
proof -
  have "0 < rc r" using wf r by (auto simp: sheap_wf_def realstring_wf_def)
  then show ?thesis using r lt by (simp add: nrm_string_incref_def s32_count u32_def nat_add_distrib)
qed

lemma decref_ok:
  assumes wf: "sheap_wf h" and r: "cells h a = Some r"
  shows "nrm_string_decref (Some a) h =
     Inr (h\<lparr>cells := (cells h)(a := if rc r = 1 then None else Some (r\<lparr>rc := rc r - 1\<rparr>))\<rparr>)"
proof -
  have bounds: "0 < rc r" "rc r < 2 ^ 31" using wf r by (auto simp: sheap_wf_def realstring_wf_def)
  then have u: "u32 (int (rc r) - 1) = int (rc r - 1)" by (simp add: u32_def of_nat_diff)
  have "s32 (int (rc r - 1)) = int (rc r - 1)" by (rule s32_count) (use bounds in simp)
  then show ?thesis using r bounds by (simp add: nrm_string_decref_def u Let_def nat_diff_distrib)
qed

lemma refs_eq_0: "sheap_wf h \<Longrightarrow> refs h a = 0 \<longleftrightarrow> cells h a = None"
  by (auto simp: refs_def sheap_wf_def realstring_wf_def split: option.splits)

interpretation str: refcount sheap_wf refs string_text "2 ^ 31 - 1"
  "\<lambda>a. nrm_string_incref (Some a)" "\<lambda>a. nrm_string_decref (Some a)"
proof unfold_locales
  fix h a
  assume wf: "sheap_wf h" and pos: "0 < refs h a" and lt: "refs h a < 2 ^ 31 - 1"
  then obtain r where r: "cells h a = Some r" and rc: "refs h a = rc r"
    by (auto simp: refs_def split: option.splits)
  have "sheap_wf (h\<lparr>cells := (cells h)(a \<mapsto> r\<lparr>rc := rc r + 1\<rparr>)\<rparr>)"
    using wf r lt rc by (auto simp: sheap_wf_def realstring_wf_def)
  then show "\<exists>h'. nrm_string_incref (Some a) h = Inr h' \<and> sheap_wf h'
      \<and> refs h' = (refs h)(a := refs h a + 1) \<and> string_text h' = string_text h"
    using incref_ok [OF wf r] lt rc r by (auto simp: refs_def string_text_def fun_eq_iff)
next
  fix h a
  assume wf: "sheap_wf h" and pos: "0 < refs h a"
  then obtain r where r: "cells h a = Some r" and rc: "refs h a = rc r"
    by (auto simp: refs_def split: option.splits)
  have "sheap_wf (h\<lparr>cells := (cells h)(a := if rc r = 1 then None else Some (r\<lparr>rc := rc r - 1\<rparr>))\<rparr>)"
    using wf r pos rc unfolding sheap_wf_def realstring_wf_def by (fastforce split: if_splits)
  then show "\<exists>h'. nrm_string_decref (Some a) h = Inr h' \<and> sheap_wf h'
      \<and> refs h' = (refs h)(a := refs h a - 1)
      \<and> string_text h' = (if refs h a = 1 then (string_text h)(a := None) else string_text h)"
    using decref_ok [OF wf r] rc r by (auto simp: refs_def string_text_def fun_eq_iff)
qed (simp_all add: refs_eq_0 nrm_string_incref_def nrm_string_decref_def)

lemma string_new_ok:
  assumes "sheap_wf h"
  obtains h' where "nrm_string_new True n h = (Some (fresh h), h')" and "sheap_wf h'"
    and "refs h' = (refs h)(fresh h := 1)"
    and "cells h' = (cells h)(fresh h \<mapsto>
      \<lparr>slen = n, mlen = n + 1, rc = 1, buf = replicate (n + 1) (char_of (0 :: nat))\<rparr>)"
proof -
  let ?r = "\<lparr>slen = n, mlen = n + 1, rc = 1, buf = replicate (n + 1) (char_of (0 :: nat))\<rparr>"
  let ?h = "h\<lparr>cells := (cells h)(fresh h \<mapsto> ?r), fresh := fresh h + 1\<rparr>"
  have "?r = \<lparr>slen = n, mlen = n + 1, rc = 1, buf = replicate (n + 1) (char_of (0 :: nat))\<rparr>" by simp
  moreover have "sheap_wf ?h"
    using assms by (auto simp: sheap_wf_def realstring_wf_def less_Suc_eq simp del: replicate_Suc)
  ultimately show ?thesis
    using that [of ?h] by (auto simp: nrm_string_new_def refs_def fun_eq_iff)
qed

lemma memcpy_ok:
  assumes wf: "sheap_wf h" and r: "cells h a = Some r" and fits: "off + length src \<le> slen r"
  obtains h' where "string_memcpy a off src h = Inr h'" and "sheap_wf h'" and "refs h' = refs h"
    and "fresh h' = fresh h"
    and "cells h' = (cells h)(a \<mapsto> r\<lparr>buf := take off (buf r) @ src @ drop (off + length src) (buf r)\<rparr>)"
proof -
  let ?b = "take off (buf r) @ src @ drop (off + length src) (buf r)"
  let ?h = "h\<lparr>cells := (cells h)(a \<mapsto> r\<lparr>buf := ?b\<rparr>)\<rparr>"
  have rw: "realstring_wf r" "a < fresh h" using wf r by (auto simp: sheap_wf_def)
  then have len: "length ?b = slen r + 1" using fits by (simp add: realstring_wf_def)
  have "?b ! slen r = buf r ! slen r"
    using rw fits by (auto simp: realstring_wf_def nth_append)
  then have "sheap_wf ?h"
    using wf rw len by (auto simp: sheap_wf_def realstring_wf_def)
  then show ?thesis
    using that [of ?h] r rw fits by (auto simp: string_memcpy_def refs_def fun_eq_iff realstring_wf_def)
qed

lemma fromchar_ok:
  assumes wf: "sheap_wf h"
  obtains h' where "nrm_string_fromchar True (Some s) h = Inr (Some (fresh h), h')" and "sheap_wf h'"
    and "refs h' = (refs h)(fresh h := 1)" and "string_text h' = (string_text h)(fresh h \<mapsto> cstr s)"
proof -
  let ?n = "length (cstr s)"
  obtain h1 where new: "nrm_string_new True ?n h = (Some (fresh h), h1)" "sheap_wf h1"
      "refs h1 = (refs h)(fresh h := 1)"
      "cells h1 = (cells h)(fresh h \<mapsto> \<lparr>slen = ?n, mlen = ?n + 1, rc = 1, buf = replicate (?n + 1) (char_of (0 :: nat))\<rparr>)"
    by (rule string_new_ok [OF wf])
  have take: "take ?n s = cstr s" by (simp add: cstr_def takeWhile_eq_take [symmetric])
  obtain h2 where cpy: "string_memcpy (fresh h) 0 (cstr s) h1 = Inr h2" "sheap_wf h2" "refs h2 = refs h1"
      "cells h2 = (cells h1)(fresh h \<mapsto> \<lparr>slen = ?n, mlen = ?n + 1, rc = 1,
         buf = cstr s @ drop ?n (replicate (?n + 1) (char_of (0 :: nat)))\<rparr>)"
    by (rule memcpy_ok [OF new(2), of "fresh h" _ 0 "cstr s"]) (use new(4) in auto)
  show ?thesis
    using that [of h2] new cpy
    by (simp add: nrm_string_fromchar_def Let_def take string_text_def fun_eq_iff)
qed


lemma join_ok:
  assumes wf: "sheap_wf h" and d: "string_text h d = Some t1" and s: "string_text h s = Some t2"
  obtains h' where "nrm_string_join True (Some (Some d)) c (Some s) h = Inr (0, Some (Some (fresh h)), h')"
    and "sheap_wf h'" and "refs h' = (refs h)(fresh h := 1, d := refs h d - 1)"
    and "string_text h' = (string_text h)(fresh h \<mapsto> t1 @ c # t2, d := if refs h d = 1 then None else Some t1)"
proof -
  obtain r1 where r1: "cells h d = Some r1" "t1 = take (slen r1) (buf r1)"
    using d by (auto simp: string_text_def)
  obtain r2 where r2: "cells h s = Some r2" "t2 = take (slen r2) (buf r2)"
    using s by (auto simp: string_text_def)
  have len: "length t1 = slen r1" "length t2 = slen r2"
    using wf r1 r2 by (auto simp: sheap_wf_def realstring_wf_def)
  let ?n = "slen r1 + slen r2 + 1" and ?t = "fresh h" and ?z = "char_of (0 :: nat)"
  let ?R = "\<lambda>b. \<lparr>slen = ?n, mlen = ?n + 1, rc = 1, buf = b\<rparr>"
  obtain h1 where n: "nrm_string_new True ?n h = (Some ?t, h1)" "sheap_wf h1" "refs h1 = (refs h)(?t := 1)"
      "cells h1 = (cells h)(?t \<mapsto> ?R (replicate (?n + 1) ?z))"
    by (rule string_new_ok [OF wf])
  obtain h2 where m2: "string_memcpy ?t 0 t1 h1 = Inr h2" "sheap_wf h2" "refs h2 = refs h1"
      "cells h2 = (cells h)(?t \<mapsto> ?R (t1 @ replicate (slen r2 + 2) ?z))"
    by (rule memcpy_ok [OF n(2), of ?t _ 0 t1]) (use n(4) len in \<open>auto simp del: replicate_Suc\<close>)
  obtain h3 where m3: "string_memcpy ?t (slen r1) [c] h2 = Inr h3" "sheap_wf h3" "refs h3 = refs h2"
      "cells h3 = (cells h)(?t \<mapsto> ?R (t1 @ c # replicate (slen r2 + 1) ?z))"
    by (rule memcpy_ok [OF m2(2), of ?t _ "slen r1" "[c]"]) (use m2(4) len in \<open>auto simp del: replicate_Suc\<close>)
  obtain h4 where m4: "string_memcpy ?t (slen r1 + 1) t2 h3 = Inr h4" "sheap_wf h4" "refs h4 = refs h3"
      "cells h4 = (cells h)(?t \<mapsto> ?R (t1 @ c # t2 @ replicate 1 ?z))"
    by (rule memcpy_ok [OF m3(2), of ?t _ "slen r1 + 1" t2]) (use m3(4) len in \<open>auto simp del: replicate_Suc\<close>)
  have dt: "d \<noteq> ?t" using r1 sheap_wf_fresh [OF wf] by auto
  have rd: "refs h4 d = refs h d" "0 < refs h d"
    using m4(3) m3(3) m2(3) n(3) dt r1 wf refs_eq_0 [OF wf, of d] by auto
  obtain h5 where m5: "nrm_string_decref (Some d) h4 = Inr h5" "sheap_wf h5"
      "refs h5 = (refs h4)(d := refs h4 d - 1)"
      "string_text h5 = (if refs h4 d = 1 then (string_text h4)(d := None) else string_text h4)"
    using str.dec_ok [OF m4(2), of d] rd by auto
  have t4: "string_text h4 = (string_text h)(?t \<mapsto> t1 @ c # t2)"
    using m4(4) len by (auto simp: string_text_def fun_eq_iff)
  have "nrm_string_join True (Some (Some d)) c (Some s) h = Inr (0, Some (Some ?t), h5)"
    using r1 r2 n(1) m2(1) m3(1) m4(1) m5(1) by (simp add: nrm_string_join_def)
  moreover have "refs h5 = (refs h)(?t := 1, d := refs h d - 1)"
    using m5(3) rd m4(3) m3(3) m2(3) n(3) dt by (simp add: fun_eq_iff)
  moreover have "string_text h5 = (string_text h)(?t \<mapsto> t1 @ c # t2, d := if refs h d = 1 then None else Some t1)"
    using m5(4) t4 rd d dt by (auto simp: fun_eq_iff)
  ultimately show ?thesis using that [of h5] m5(2) by blast
qed

lemma strncmp_prefix:
  "char_of (0 :: nat) \<notin> set xs \<Longrightarrow> char_of (0 :: nat) \<notin> set ys \<Longrightarrow>
     \<exists>r. strncmp (xs @ [char_of (0 :: nat)]) (ys @ [char_of (0 :: nat)]) (length xs) = Inr r
       \<and> (r = 0 \<longleftrightarrow> prefix xs ys)"
proof (induction xs arbitrary: ys)
  case (Cons x xs)
  then show ?case by (cases ys) (auto simp: Cons_prefix_Cons)
qed simp

lemma buf_text:
  assumes "sheap_wf h" and "cells h a = Some r" and "string_text h a = Some t"
  shows "buf r = t @ [char_of (0 :: nat)]" "slen r = length t"
proof -
  have r: "realstring_wf r" using assms(1,2) by (auto simp: sheap_wf_def)
  then have "buf r = take (slen r) (buf r) @ [buf r ! slen r]"
    using take_Suc_conv_app_nth [of "slen r" "buf r"] by (simp add: realstring_wf_def)
  then show "buf r = t @ [char_of (0 :: nat)]" "slen r = length t"
    using r assms(2,3) by (auto simp: string_text_def realstring_wf_def)
qed


section \<open>Joining a vector of strings\<close>

definition joined :: "char \<Rightarrow> string list \<Rightarrow> string" where
  "joined c ts =
     (case filter (\<lambda>t. t \<noteq> []) ts of [] \<Rightarrow> [] | t # us \<Rightarrow> t @ concat (map (\<lambda>u. c # u) us))"

lemma joined_snoc:
  "joined c (ts @ [t]) = (if t = [] then joined c ts else if joined c ts = [] then t else joined c ts @ c # t)"
proof (cases "filter (\<lambda>t. t \<noteq> []) ts")
  case (Cons u us)
  then have "u \<in> set (filter (\<lambda>t. t \<noteq> []) ts)" by (simp only: list.set_intros)
  then have "u \<noteq> []" by simp
  with Cons show ?thesis by (simp add: joined_def)
qed (simp add: joined_def)

text \<open>
  What holds after some of the strings were joined, seen from the heap \<open>h0\<close> before the call: the
  strings that were live keep their text and their counts, except for one more reference on the one
  \<open>ret\<close> aliases; the empty string allocated first, at \<open>fresh h0\<close>, is still there.
\<close>

definition vjoin_inv :: "char \<Rightarrow> sheap \<Rightarrow> string list \<Rightarrow> saddr \<Rightarrow> sheap \<Rightarrow> bool" where
  "vjoin_inv c h0 ts ret h \<longleftrightarrow> sheap_wf h \<and> string_text h ret = Some (joined c ts)
     \<and> (\<forall>a. 0 < refs h0 a \<longrightarrow> refs h a = refs h0 a + (if a = ret then 1 else 0) \<and> string_text h a = string_text h0 a)
     \<and> refs h (fresh h0) = 1 \<and> (joined c ts = [] \<longleftrightarrow> ret = fresh h0)"

lemma strlen_ok: "sheap_wf h \<Longrightarrow> string_text h a = Some t \<Longrightarrow> nrm_string_strlen (Some a) h = Inr (length t)"
proof -
  assume wf: "sheap_wf h" and t: "string_text h a = Some t"
  then obtain r where "cells h a = Some r" by (auto simp: string_text_def)
  with buf_text [OF wf this t] show ?thesis by (simp add: nrm_string_strlen_def)
qed

lemma text_refs: "sheap_wf h \<Longrightarrow> 0 < refs h a \<longleftrightarrow> string_text h a \<noteq> None"
  using refs_eq_0 [of h a] by (auto simp: string_text_def)

lemma vjoin_inv_live:
  assumes "vjoin_inv c h0 ts ret h" and "sheap_wf h0" and "string_text h0 s = Some t"
  shows "0 < refs h0 s" and "string_text h s = Some t"
proof -
  show live: "0 < refs h0 s" using assms(3) text_refs [OF assms(2), of s] by simp
  show "string_text h s = Some t" using assms(1,3) live by (simp add: vjoin_inv_def)
qed

text \<open>The first non-empty string becomes the result.\<close>

lemma vjoin_inv_first:
  assumes inv: "vjoin_inv c h0 ts ret h" and wf0: "sheap_wf h0"
    and s: "string_text h0 s = Some t" and lim: "refs h0 s < 2 ^ 31 - 1"
    and t: "t \<noteq> []" "joined c ts = []"
  obtains h' where "nrm_string_incref (Some s) h = Inr h'" and "vjoin_inv c h0 (ts @ [t]) s h'"
proof -
  note live = vjoin_inv_live [OF inv wf0 s]
  have wf: "sheap_wf h" using inv by (simp add: vjoin_inv_def)
  have dead: "refs h0 (fresh h0) = 0" using refs_eq_0 [OF wf0] sheap_wf_fresh [OF wf0] by simp
  have ret: "ret = fresh h0" using inv t by (simp add: vjoin_inv_def)
  then have "s \<noteq> ret" using dead live by auto
  then have rs: "refs h s = refs h0 s" using inv live by (simp add: vjoin_inv_def)
  then obtain h' where h': "nrm_string_incref (Some s) h = Inr h'" "sheap_wf h'"
      "refs h' = (refs h)(s := refs h s + 1)" "string_text h' = string_text h"
    using str.inc_ok [OF wf, of s] live lim by auto
  have "vjoin_inv c h0 (ts @ [t]) s h'"
    using inv h' rs t ret dead live by (auto simp: vjoin_inv_def joined_snoc)
  with h'(1) show ?thesis by (rule that)
qed

text \<open>A later one is joined to it, in a new string.\<close>

lemma vjoin_inv_more:
  assumes inv: "vjoin_inv c h0 ts ret h" and wf0: "sheap_wf h0"
    and s: "string_text h0 s = Some t" and t: "t \<noteq> []" "joined c ts \<noteq> []"
  obtains h' where "nrm_string_join True (Some (Some ret)) c (Some s) h = Inr (0, Some (Some (fresh h)), h')"
    and "vjoin_inv c h0 (ts @ [t]) (fresh h) h'"
proof -
  note live = vjoin_inv_live [OF inv wf0 s]
  have wf: "sheap_wf h" and rt: "string_text h ret = Some (joined c ts)" and ret: "ret \<noteq> fresh h0"
    using inv t by (auto simp: vjoin_inv_def)
  have f0: "refs h (fresh h) = 0" using sheap_wf_fresh [OF wf] refs_eq_0 [OF wf] by simp
  then have fr: "fresh h \<noteq> fresh h0" "refs h0 (fresh h) = 0"
    using inv by (auto simp: vjoin_inv_def)
  obtain h' where h': "nrm_string_join True (Some (Some ret)) c (Some s) h = Inr (0, Some (Some (fresh h)), h')"
      "sheap_wf h'" "refs h' = (refs h)(fresh h := 1, ret := refs h ret - 1)"
      "string_text h' = (string_text h)(fresh h \<mapsto> joined c ts @ c # t,
         ret := if refs h ret = 1 then None else Some (joined c ts))"
    by (rule join_ok [OF wf rt live(2)])
  have rf: "ret \<noteq> fresh h" using f0 rt text_refs [OF wf, of ret] by auto
  have "vjoin_inv c h0 (ts @ [t]) (fresh h) h'"
    unfolding vjoin_inv_def
  proof (intro conjI allI impI)
    fix a assume a: "0 < refs h0 a"
    then have af: "a \<noteq> fresh h" using fr by auto
    then show "refs h' a = refs h0 a + (if a = fresh h then 1 else 0)"
      using inv a h'(3) by (auto simp: vjoin_inv_def)
    show "string_text h' a = string_text h0 a"
      using inv a af h'(4) rt by (auto simp: vjoin_inv_def)
  qed (use h' t f0 fr rf ret inv in \<open>auto simp: joined_snoc vjoin_inv_def\<close>)
  with h'(1) show ?thesis by (rule that)
qed

lemma vjoin_step_inv:
  assumes inv: "vjoin_inv c h0 ts ret h" and wf0: "sheap_wf h0"
    and s: "string_text h0 s = Some t" and lim: "refs h0 s < 2 ^ 31 - 1"
  obtains ret' h' where "vjoin_step c (Some s) (Some ret, h) = Inr (Some ret', h')"
    and "vjoin_inv c h0 (ts @ [t]) ret' h'"
proof -
  have wf: "sheap_wf h" and rt: "string_text h ret = Some (joined c ts)"
    using inv by (auto simp: vjoin_inv_def)
  note len = strlen_ok [OF wf vjoin_inv_live(2) [OF inv wf0 s]] strlen_ok [OF wf rt]
  consider "t = []" | "t \<noteq> []" "joined c ts = []" | "t \<noteq> []" "joined c ts \<noteq> []" by blast
  then show ?thesis
  proof cases
    case 1
    then show ?thesis
      using that [of ret h] inv len by (simp add: vjoin_step_def vjoin_inv_def joined_snoc)
  next
    case 2
    then obtain h' where "nrm_string_incref (Some s) h = Inr h'" "vjoin_inv c h0 (ts @ [t]) s h'"
      by (rule vjoin_inv_first [OF inv wf0 s lim])
    then show ?thesis using that [of s h'] len 2 by (simp add: vjoin_step_def)
  next
    case 3
    then obtain h' where "nrm_string_join True (Some (Some ret)) c (Some s) h = Inr (0, Some (Some (fresh h)), h')"
      "vjoin_inv c h0 (ts @ [t]) (fresh h) h'"
      by (rule vjoin_inv_more [OF inv wf0 s])
    then show ?thesis using that [of "fresh h" h'] len 3 by (simp add: vjoin_step_def)
  qed
qed


lemma vjoin_loop:
  assumes "vjoin_inv c h0 ts ret h" and wf0: "sheap_wf h0"
    and "list_all2 (\<lambda>s t. string_text h0 s = Some t \<and> refs h0 s < 2 ^ 31 - 1) ss us"
  shows "\<exists>ret' h'. foldE (vjoin_step c) (map Some ss) (Some ret, h) = Inr (Some ret', h')
     \<and> vjoin_inv c h0 (ts @ us) ret' h'"
  using assms(3,1)
proof (induction ss us arbitrary: ts ret h rule: list_all2_induct)
  case Nil
  then show ?case by simp
next
  case (Cons s ss t us)
  obtain ret1 h1 where "vjoin_step c (Some s) (Some ret, h) = Inr (Some ret1, h1)"
      "vjoin_inv c h0 (ts @ [t]) ret1 h1"
    by (rule vjoin_step_inv [OF Cons.prems wf0]) (use Cons.hyps in auto)
  with Cons.IH show ?case by fastforce
qed


lemma vjoin_ok:
  assumes wf: "sheap_wf h"
    and live: "list_all2 (\<lambda>s t. string_text h s = Some t \<and> refs h s < 2 ^ 31 - 1) ss ts"
  obtains r h' where "nrm_string_vjoin c (map Some ss) h = Inr (Some r, h')" and "vjoin_inv c h ts r h'"
proof -
  obtain h1 where h1: "nrm_string_fromchar True (Some []) h = Inr (Some (fresh h), h1)" "sheap_wf h1"
      "refs h1 = (refs h)(fresh h := 1)" "string_text h1 = (string_text h)(fresh h \<mapsto> cstr [])"
    by (rule fromchar_ok [OF wf])
  have dead: "refs h (fresh h) = 0" using refs_eq_0 [OF wf] sheap_wf_fresh [OF wf] by simp
  have "vjoin_inv c h [] (fresh h) h1"
    using h1 dead by (auto simp: vjoin_inv_def joined_def cstr_def)
  from vjoin_loop [OF this wf live] obtain r h' where
    "foldE (vjoin_step c) (map Some ss) (Some (fresh h), h1) = Inr (Some r, h')" "vjoin_inv c h ts r h'" by auto
  then show ?thesis using that h1(1) by (simp add: nrm_string_vjoin_def)
qed


section \<open>Properties\<close>

text \<open>
  C39. Reference counting is sound: a string made by \<open>nrm_string_fromchar\<close> survives any sequence
  of \<open>nrm_string_incref\<close> and \<open>nrm_string_decref\<close> that never drops more references than
  are held (and stays below the 31-bit range of the assertion), with its text unchanged; it is freed by
  exactly the operation that drops the last reference, and every later operation on it is a use
  after free.
\<close>

theorem nrm_string_lifecycle:
  assumes wf: "sheap_wf h" and m: "track_refs (2 ^ 31 - 1) 1 ops = Some m" and later: "later \<noteq> []"
  shows "\<exists>a h1 h2. nrm_string_fromchar True (Some s) h = Inr (Some a, h1)
     \<and> run_refs (\<lambda>a. nrm_string_incref (Some a)) (\<lambda>a. nrm_string_decref (Some a)) a ops h1 = Inr h2
     \<and> refs h2 a = m \<and> string_text h2 a = (if m = 0 then None else Some (cstr s))
     \<and> (\<forall>b. b \<noteq> a \<longrightarrow> refs h2 b = refs h b \<and> string_text h2 b = string_text h b)
     \<and> (m = 0 \<longrightarrow> run_refs (\<lambda>a. nrm_string_incref (Some a)) (\<lambda>a. nrm_string_decref (Some a)) a later h2
          = Inl UseAfterFree)"
proof -
  obtain h1 where h1: "nrm_string_fromchar True (Some s) h = Inr (Some (fresh h), h1)" "sheap_wf h1"
      "refs h1 = (refs h)(fresh h := 1)" "string_text h1 = (string_text h)(fresh h \<mapsto> cstr s)"
    by (rule fromchar_ok [OF wf])
  then obtain h2 where h2: "run_refs (\<lambda>a. nrm_string_incref (Some a)) (\<lambda>a. nrm_string_decref (Some a)) (fresh h) ops h1 = Inr h2"
      "sheap_wf h2" "refs h2 = (refs h1)(fresh h := m)"
      "string_text h2 = (if m = 0 then (string_text h1)(fresh h := None) else string_text h1)"
    using str.run_track [OF h1(2), of "fresh h" ops m] m by auto
  then show ?thesis
    using h1 str.run_dead [OF h2(2), of "fresh h" later] later
    by (intro exI [of _ "fresh h"] exI [of _ h1] exI [of _ h2]) auto
qed

theorem nrm_string_lifecycle_witness:
  "\<exists>a h1 h2. nrm_string_fromchar True (Some ''uuid'') sheap_empty = Inr (Some a, h1)
     \<and> run_refs (\<lambda>a. nrm_string_incref (Some a)) (\<lambda>a. nrm_string_decref (Some a)) a [True, False, False] h1 = Inr h2
     \<and> string_text h2 a = None
     \<and> run_refs (\<lambda>a. nrm_string_incref (Some a)) (\<lambda>a. nrm_string_decref (Some a)) a [True] h2 = Inl UseAfterFree"
  using nrm_string_lifecycle [OF sheap_wf_empty, of "[True, False, False]" 0 "[True]" "''uuid''"] by auto

text \<open>
  \<open>nrm_string_cmp\<close> compares only the first string's length: for strings without embedded
  zero bytes it returns 0 exactly when the first is a prefix of the second, so the comparison is not
  symmetric.
\<close>

theorem nrm_string_cmp_prefix:
  assumes wf: "sheap_wf h" and "string_text h a = Some s" and "string_text h b = Some t"
    and "char_of (0 :: nat) \<notin> set s" and "char_of (0 :: nat) \<notin> set t"
  shows "\<exists>r. nrm_string_cmp (Some a) (Some b) h = Inr r \<and> (r = 0 \<longleftrightarrow> prefix s t)"
proof -
  obtain r1 r2 where r: "cells h a = Some r1" "cells h b = Some r2"
    using assms(2,3) by (auto simp: string_text_def)
  show ?thesis
    using strncmp_prefix [OF assms(4,5)] r buf_text [OF wf r(1) assms(2)] buf_text [OF wf r(2) assms(3)]
    by (simp add: nrm_string_cmp_def)
qed

text \<open>Two strings in one heap, for the witnesses.\<close>

definition two_strings :: sheap where
  "two_strings = \<lparr>cells = [1 \<mapsto> \<lparr>slen = 1, mlen = 2, rc = 1, buf = [CHR ''c'', char_of (0 :: nat)]\<rparr>,
     2 \<mapsto> \<lparr>slen = 2, mlen = 3, rc = 1, buf = [CHR ''c'', CHR ''d'', char_of (0 :: nat)]\<rparr>], fresh = 3\<rparr>"

lemma two_strings_wf: "sheap_wf two_strings"
  by (auto simp: sheap_wf_def two_strings_def realstring_wf_def split: if_splits)

lemma two_strings_text: "string_text two_strings 1 = Some ''c''" "string_text two_strings 2 = Some ''cd''"
  by (simp_all add: string_text_def two_strings_def)

theorem nrm_string_cmp_prefix_witness:
  "\<exists>r q. nrm_string_cmp (Some 1) (Some 2) two_strings = Inr r \<and> r = 0
     \<and> nrm_string_cmp (Some 2) (Some 1) two_strings = Inr q \<and> q \<noteq> 0"
proof -
  have nul: "char_of (0 :: nat) \<notin> set ''c''" "char_of (0 :: nat) \<notin> set ''cd''" by code_simp+
  show ?thesis
    using nrm_string_cmp_prefix [OF two_strings_wf two_strings_text nul]
      nrm_string_cmp_prefix [OF two_strings_wf two_strings_text(2,1) nul(2,1)] by simp
qed

text \<open>
  \<open>nrm_string_vjoin\<close> returns the non-empty strings of the vector joined by the separator,
  keeps every string of the vector live with its text, and, when any of them is non-empty, leaves the
  empty string it started from allocated with nobody holding it.
\<close>

theorem nrm_string_vjoin_joins:
  assumes wf: "sheap_wf h"
    and live: "list_all2 (\<lambda>s t. string_text h s = Some t \<and> refs h s < 2 ^ 31 - 1) ss ts"
  shows "\<exists>r h'. nrm_string_vjoin c (map Some ss) h = Inr (Some r, h')
     \<and> string_text h' r = Some (joined c ts)
     \<and> (\<forall>s \<in> set ss. string_text h' s = string_text h s)
     \<and> (joined c ts \<noteq> [] \<longrightarrow> r \<noteq> fresh h \<and> refs h' (fresh h) = 1)"
proof -
  obtain r h' where r: "nrm_string_vjoin c (map Some ss) h = Inr (Some r, h')" "vjoin_inv c h ts r h'"
    by (rule vjoin_ok [OF wf live])
  have "0 < refs h s" if "s \<in> set ss" for s
    using that live text_refs [OF wf, of s] by (auto simp: list_all2_conv_all_nth in_set_conv_nth)
  then show ?thesis using r by (auto simp: vjoin_inv_def)
qed

theorem nrm_string_vjoin_joins_witness:
  "\<exists>r h'. nrm_string_vjoin CHR ''.'' (map Some [1, 2]) two_strings = Inr (Some r, h')
     \<and> string_text h' r = Some ''c.cd''"
  using nrm_string_vjoin_joins [OF two_strings_wf, of "[1, 2]" "[''c'', ''cd'']" "CHR ''.''"] two_strings_text
  by (auto simp: joined_def refs_def two_strings_def)

end
