(* ===== verification/NRM_Nrmc.thy ===== *)
theory NRM_Nrmc
  imports NRM_System NRM_Tools NRM_Reactor NRM_String
begin

text \<open>
  The command line client (src/binaries/nrmc.c): its commands over the client API and its \<open>main\<close>.

  \<open>nrmc\<close> holds the client, the state of the option scanner, which the commands share with the parser of
  the common options, and what was written.  What the process is given is \<open>nrmc_env\<close>: jansson and
  \<open>json_loads\<close>, the conversions of the C library, the environment, the processor, the clock and \<open>rand\<close>.  A command
  returns its exit code; \<open>run\<close> may replace the process.  Log output is left out.

  The removal commands take a vector of pointers for a vector of objects: the slot that holds the pointer is read as the object
  itself.  What the bytes there read as depends on addresses: \<open>ne_slot_scope\<close>, \<open>ne_slot_sensor\<close> and \<open>ne_slot_slice\<close> give the object that is seen, or the
  fault when the access leaves the memory of the process.
\<close>

definition EXIT_SUCCESS :: int where [simp]: "EXIT_SUCCESS = 0"
definition EXIT_FAILURE :: int where [simp]: "EXIT_FAILURE = 1"

type_synonym listened = "(int \<times> string \<times> string \<times> double) list"

datatype 'j nrmc_out = OutJson "'j option" | OutLines "string list"

record ('d, 'j) nrmc =
  nc_client :: "('d, listened) nrm_client option"
  nc_getopt :: getopt
  nc_out :: "'j nrmc_out list"
  nc_globals :: nrm_globals
  nc_log :: nrm_log

record 'j nrmc_env =
  ne_json :: "'j jansson"
  ne_loads :: "string \<Rightarrow> 'j option"
  ne_strtod :: "string \<Rightarrow> double \<times> bool \<times> bool"
  ne_getenv :: "string \<Rightarrow> string option"
  ne_cpu :: nat
  ne_node :: nat
  ne_time :: nrm_time
  ne_rand :: int
  ne_version :: string
  ne_execvp :: "string list \<Rightarrow> bool"
  ne_slot_scope :: "nrm_scope option \<Rightarrow> nrm_scope exec"
  ne_slot_sensor :: "nrm_sensor option \<Rightarrow> nrm_sensor exec"
  ne_slot_slice :: "nrm_slice option \<Rightarrow> nrm_slice exec"

datatype nrmc_end = Returns int | Execs "string list" "string \<Rightarrow> string option"

type_synonym ('d, 'j) command = "string list \<Rightarrow> ('d, 'j) nrmc \<Rightarrow> (int \<times> ('d, 'j) nrmc) exec"

definition print_json :: "'j option \<Rightarrow> ('d, 'j) nrmc \<Rightarrow> ('d, 'j) nrmc" where
  "print_json j st = st\<lparr>nc_out := nc_out st @ [OutJson j]\<rparr>"


section \<open>connect\<close>

text \<open>\<open>roles i\<close> is what \<open>nrm_role_client_create_fromparams\<close> gives at the attempt \<open>i\<close>.\<close>

fun connect_loop ::
  "(nat \<Rightarrow> ('d, client_fn) nrm_role option) \<Rightarrow> string option \<Rightarrow> nat list \<Rightarrow> ('d, 'j) nrmc \<Rightarrow> int \<times> ('d, 'j) nrmc" where
  "connect_loop roles uri [] st = (EXIT_FAILURE, st)"
| "connect_loop roles uri (i # is) st =
     (case nrm_client_create True (roles i) True uri of (err, c) \<Rightarrow>
        if err = 0 then (0, st\<lparr>nc_client := c\<rparr>) else connect_loop roles uri is st)"

definition cmd_connect ::
  "(nat \<Rightarrow> ('d, client_fn) nrm_role option) \<Rightarrow> nrm_tools_args \<Rightarrow> string list \<Rightarrow> ('d, 'j) nrmc \<Rightarrow> (int \<times> ('d, 'j) nrmc) exec" where
  "cmd_connect roles args argv st =
     (if length argv > 3 then Inr (EXIT_FAILURE, st)
      else
        let (err, retries) = (if length argv = 2 then (case nrm_parse_uint (argv ! 1) of (err, v) \<Rightarrow> (err, case v of None \<Rightarrow> 5 | Some v \<Rightarrow> v))
                              else (0, 5))
        in bindE (assertE (err = 0)) (\<lambda>_.
           Inr (connect_loop roles (ta_upstream_uri args) [0..<nat retries] st)))"


section \<open>actuate, add, find, list\<close>

definition found_actuators :: "found option \<Rightarrow> nrm_actuator option list exec" where
  "found_actuators f = bindE (derefE f) (\<lambda>f. case f of FoundActuators xs \<Rightarrow> Inr xs | _ \<Rightarrow> Inl WrongUnion)"

definition found_scopes :: "found option \<Rightarrow> nrm_scope option list exec" where
  "found_scopes f = bindE (derefE f) (\<lambda>f. case f of FoundScopes xs \<Rightarrow> Inr xs | _ \<Rightarrow> Inl WrongUnion)"

definition found_sensors :: "found option \<Rightarrow> nrm_sensor option list exec" where
  "found_sensors f = bindE (derefE f) (\<lambda>f. case f of FoundSensors xs \<Rightarrow> Inr xs | _ \<Rightarrow> Inl WrongUnion)"

definition found_slices :: "found option \<Rightarrow> nrm_slice option list exec" where
  "found_slices f = bindE (derefE f) (\<lambda>f. case f of FoundSlices xs \<Rightarrow> Inr xs | _ \<Rightarrow> Inl WrongUnion)"

definition cmd_actuate :: "'j nrmc_env \<Rightarrow> ('d, 'j) command" where
  "cmd_actuate env argv st =
     (if length argv < 3 then Inr (EXIT_FAILURE, st)
      else
        bindE (nrm_client_find (nc_client st) NRM_MSG_TARGET_TYPE_ACTUATOR (Some (argv ! 1)) True) (\<lambda>(err, c, results).
        if err \<noteq> 0 then Inr (EXIT_FAILURE, st\<lparr>nc_client := c\<rparr>)
        else
          bindE (found_actuators results) (\<lambda>xs.
          bindE (assertE (length xs = 1)) (\<lambda>_.
          bindE (nrm_client_actuate c (xs ! 0) (fst (ne_strtod env (argv ! 2)))) (\<lambda>(_, c).
          bindE (nrm_actuator_destroy (Some (xs ! 0))) (\<lambda>_. Inr (0, st\<lparr>nc_client := c\<rparr>)))))))"

definition cmd_add_scope :: "'j nrmc_env \<Rightarrow> ('d, 'j) command" where
  "cmd_add_scope env argv st =
     (if length argv \<noteq> 3 then Inr (EXIT_FAILURE, st)
      else
        bindE (nrm_scope_from_json (ne_json env) (Some (nrm_scope_create (argv ! 1))) (ne_loads env (argv ! 2))) (\<lambda>(err, scope).
        if err \<noteq> 0 then Inr (EXIT_FAILURE, st)
        else
          bindE (nrm_client_add_scope (nc_client st) scope) (\<lambda>(err, c, scope).
          if err \<noteq> 0 then Inr (EXIT_FAILURE, st\<lparr>nc_client := c\<rparr>)
          else bindE (nrm_scope_to_json (ne_json env) scope) (\<lambda>json. Inr (0, print_json json (st\<lparr>nc_client := c\<rparr>))))))"

definition cmd_add_slice :: "'j nrmc_env \<Rightarrow> ('d, 'j) command" where
  "cmd_add_slice env argv st =
     (if length argv < 2 then Inr (EXIT_FAILURE, st)
      else
        bindE (nrm_client_add_slice (nc_client st) (Some (nrm_slice_create (argv ! 1)))) (\<lambda>(err, c, sl).
        if err \<noteq> 0 then Inr (EXIT_FAILURE, st\<lparr>nc_client := c\<rparr>)
        else bindE (nrm_slice_to_json (ne_json env) sl) (\<lambda>json. Inr (0, print_json json (st\<lparr>nc_client := c\<rparr>)))))"

definition cmd_add_sensor :: "'j nrmc_env \<Rightarrow> ('d, 'j) command" where
  "cmd_add_sensor env argv st =
     (if length argv < 2 then Inr (EXIT_FAILURE, st)
      else
        bindE (nrm_client_add_sensor (nc_client st) (Some (nrm_sensor_create (argv ! 1)))) (\<lambda>(err, c, sensor).
        if err \<noteq> 0 then Inr (EXIT_FAILURE, st\<lparr>nc_client := c\<rparr>)
        else bindE (nrm_sensor_to_json (ne_json env) sensor) (\<lambda>json. Inr (0, print_json json (st\<lparr>nc_client := c\<rparr>)))))"

text \<open>The loop of the find and list commands: convert, append, destroy.\<close>

definition dump_objects :: "'j jansson \<Rightarrow> ('a option \<Rightarrow> 'j option exec) \<Rightarrow> ('a option \<Rightarrow> unit exec) \<Rightarrow> 'a option list \<Rightarrow> 'j option exec" where
  "dump_objects J to_json destroy xs =
     foldE (\<lambda>x array. bindE (to_json x) (\<lambda>json. bindE (destroy x) (\<lambda>_. Inr (json_array_append_new J array json)))) xs (json_array J)"

definition destroy_actuator :: "nrm_actuator option \<Rightarrow> unit exec" where
  "destroy_actuator a = bindE (nrm_actuator_destroy (Some a)) (\<lambda>_. Inr ())"

definition destroy_scope :: "nrm_scope option \<Rightarrow> unit exec" where
  "destroy_scope s = bindE (nrm_scope_destroy s) (\<lambda>_. Inr ())"

definition cmd_find ::
  "int \<Rightarrow> (found option \<Rightarrow> 'a option list exec) \<Rightarrow> ('a option \<Rightarrow> 'j option exec) \<Rightarrow> ('a option \<Rightarrow> unit exec) \<Rightarrow> 'j nrmc_env \<Rightarrow> ('d, 'j) command" where
  "cmd_find target results_of to_json destroy env argv st =
     (if length argv < 2 then Inr (EXIT_FAILURE, st)
      else
        bindE (nrm_client_find (nc_client st) target (Some (argv ! 1)) True) (\<lambda>(err, c, results).
        if err \<noteq> 0 then Inr (EXIT_FAILURE, st\<lparr>nc_client := c\<rparr>)
        else
          bindE (results_of results) (\<lambda>xs.
          bindE (dump_objects (ne_json env) to_json destroy xs) (\<lambda>array. Inr (0, print_json array (st\<lparr>nc_client := c\<rparr>))))))"

definition cmd_find_actuator :: "'j nrmc_env \<Rightarrow> ('d, 'j) command" where
  "cmd_find_actuator env = cmd_find NRM_MSG_TARGET_TYPE_ACTUATOR found_actuators (nrm_actuator_to_json (ne_json env)) destroy_actuator env"

definition cmd_find_scope :: "'j nrmc_env \<Rightarrow> ('d, 'j) command" where
  "cmd_find_scope env = cmd_find NRM_MSG_TARGET_TYPE_SCOPE found_scopes (nrm_scope_to_json (ne_json env)) destroy_scope env"

definition cmd_find_sensor :: "'j nrmc_env \<Rightarrow> ('d, 'j) command" where
  "cmd_find_sensor env = cmd_find NRM_MSG_TARGET_TYPE_SENSOR found_sensors (nrm_sensor_to_json (ne_json env)) (\<lambda>_. Inr ()) env"

definition cmd_find_slice :: "'j nrmc_env \<Rightarrow> ('d, 'j) command" where
  "cmd_find_slice env = cmd_find NRM_MSG_TARGET_TYPE_SLICE found_slices (nrm_slice_to_json (ne_json env)) (\<lambda>_. Inr ()) env"

definition cmd_list ::
  "(('d, listened) nrm_client option \<Rightarrow> bool \<Rightarrow> (int \<times> ('d, listened) nrm_client option \<times> 'a option list option) exec)
     \<Rightarrow> ('a option \<Rightarrow> 'j option exec) \<Rightarrow> ('a option \<Rightarrow> unit exec) \<Rightarrow> 'j nrmc_env \<Rightarrow> ('d, 'j) command" where
  "cmd_list client_list to_json destroy env argv st =
     bindE (client_list (nc_client st) True) (\<lambda>(err, c, results).
     if err \<noteq> 0 then Inr (EXIT_FAILURE, st\<lparr>nc_client := c\<rparr>)
     else
       bindE (derefE results) (\<lambda>xs.
       bindE (dump_objects (ne_json env) to_json destroy xs) (\<lambda>array. Inr (0, print_json array (st\<lparr>nc_client := c\<rparr>)))))"

definition cmd_list_actuators :: "'j nrmc_env \<Rightarrow> ('d, 'j) command" where
  "cmd_list_actuators env = cmd_list nrm_client_list_actuators (nrm_actuator_to_json (ne_json env)) destroy_actuator env"

definition cmd_list_scopes :: "'j nrmc_env \<Rightarrow> ('d, 'j) command" where
  "cmd_list_scopes env = cmd_list nrm_client_list_scopes (nrm_scope_to_json (ne_json env)) destroy_scope env"

definition cmd_list_sensors :: "'j nrmc_env \<Rightarrow> ('d, 'j) command" where
  "cmd_list_sensors env = cmd_list nrm_client_list_sensors (nrm_sensor_to_json (ne_json env)) (\<lambda>_. Inr ()) env"

definition cmd_list_slices :: "'j nrmc_env \<Rightarrow> ('d, 'j) command" where
  "cmd_list_slices env = cmd_list nrm_client_list_slices (nrm_slice_to_json (ne_json env)) (\<lambda>_. Inr ()) env"


section \<open>listen, send-event, exit, tick\<close>

definition client_listen_callback :: "string \<Rightarrow> nrm_time \<Rightarrow> nrm_scope option \<Rightarrow> double \<Rightarrow> listened \<Rightarrow> listened exec" where
  "client_listen_callback uuid time scope value out =
     bindE (derefE scope) (\<lambda>s. Inr (out @ [(nrm_time_tons time, uuid, scope_uuid s, value)]))"

text \<open>
  The reactor only idles here.  Its creation is not checked: on a failure the uninitialised pointer is used.
\<close>

definition cmd_listen :: "create_calls \<Rightarrow> wake list \<Rightarrow> os_state \<Rightarrow> ('d, 'j) command" where
  "cmd_listen cc wakes os argv st =
     (if length argv > 2 then Inr (EXIT_FAILURE, st)
      else
        let topic = (if length argv = 2 then argv ! 1 else []);
            c = snd (nrm_client_set_event_listener (nc_client st) (Some client_listen_callback))
        in bindE (nrm_client_start_event_listener c topic) (\<lambda>(_, c).
           case nrm_reactor_create cc True None os of (err, r, os) \<Rightarrow>
             if r = None then Inl Uninit
             else let (_, u :: unit, _) = nrm_reactor_start r wakes () in Inr (0, st\<lparr>nc_client := c\<rparr>)))"

definition cmd_send_event :: "'j nrmc_env \<Rightarrow> ('d, 'j) command" where
  "cmd_send_event env argv st =
     (if length argv < 3 then Inr (EXIT_FAILURE, st)
      else
        bindE (nrm_client_find (nc_client st) NRM_MSG_TARGET_TYPE_SENSOR (Some (argv ! 1)) True) (\<lambda>(err, c, results).
        if err \<noteq> 0 then Inr (EXIT_FAILURE, st\<lparr>nc_client := c\<rparr>)
        else
          bindE (found_sensors results) (\<lambda>xs.
          bindE (assertE (length xs = 1)) (\<lambda>_.
          bindE (nrm_scope_threadprivate (ne_cpu env) (ne_node env) (Some (nrm_scope_create (argv ! 2)))) (\<lambda>(_, scope).
          bindE (nrm_client_send_event c (ne_time env) (xs ! 0) (Some scope) (DFin (of_int (ne_rand env)))) (\<lambda>(_, c).
          bindE (nrm_scope_destroy (Some scope)) (\<lambda>_. Inr (0, st\<lparr>nc_client := c\<rparr>))))))))"

definition cmd_exit :: "('d, 'j) command" where
  "cmd_exit argv st = bindE (nrm_client_send_exit (nc_client st)) (\<lambda>(_, c). Inr (0, st\<lparr>nc_client := c\<rparr>))"

definition cmd_tick :: "('d, 'j) command" where
  "cmd_tick argv st = bindE (nrm_client_send_tick (nc_client st)) (\<lambda>(_, c). Inr (0, st\<lparr>nc_client := c\<rparr>))"


section \<open>run\<close>

text \<open>The vectors hold string pointers into the heap \<open>h\<close>.\<close>

definition nrmc_string_getenv ::
  "(string \<Rightarrow> string option) \<Rightarrow> string \<Rightarrow> saddr option list \<Rightarrow> sheap \<Rightarrow> (saddr option list \<times> sheap) exec" where
  "nrmc_string_getenv getenv envname vec h =
     (case getenv envname of
        None \<Rightarrow> Inr (vec, h)
      | Some envstr \<Rightarrow> bindE (nrm_string_fromchar True (Some envstr) h) (\<lambda>(ret, h). Inr (vec @ [ret], h)))"

definition nrmc_string_setenv ::
  "string \<Rightarrow> saddr option list \<Rightarrow> (string \<Rightarrow> string option) \<Rightarrow> sheap \<Rightarrow> ((string \<Rightarrow> string option) \<times> sheap) exec" where
  "nrmc_string_setenv envname vec environ h =
     bindE (nrm_string_vjoin CHR 0x3A vec h) (\<lambda>(val, h).
     bindE (NRM_STRING_C2S val h) (\<lambda>r.
     bindE (nrm_string_decref val h) (\<lambda>h. Inr (environ(envname \<mapsto> cstr (buf r)), h))))"

definition cmd_run_long_options :: "long_option list" where
  "cmd_run_long_options = [required_argument ''preload'' CHR ''d'', required_argument ''ompt'' CHR ''t'']"

definition cmd_run_short_options :: string where
  "cmd_run_short_options = [CHR 0x3A, CHR ''d'', CHR 0x3A, CHR ''t'', CHR 0x3A]"

text \<open>The body of the option loop; \<open>None\<close> is the return with a failure.\<close>

definition run_option ::
  "char \<Rightarrow> string option \<Rightarrow> saddr option list \<times> saddr option list \<times> sheap \<Rightarrow> (saddr option list \<times> saddr option list \<times> sheap) option exec" where
  "run_option c optarg = (\<lambda>(preloads, ompt, h).
     if c = CHR 0x00 then Inr (Some (preloads, ompt, h))
     else if c = CHR ''d'' then
       bindE (nrm_string_fromchar True optarg h) (\<lambda>(path, h). Inr (Some (preloads @ [path], ompt, h)))
     else if c = CHR ''t'' then
       bindE (nrm_string_fromchar True optarg h) (\<lambda>(path, h). Inr (Some (preloads, ompt @ [path], h)))
     else Inr None)"

function run_loop ::
  "string list \<Rightarrow> getopt \<Rightarrow> saddr option list \<times> saddr option list \<times> sheap
     \<Rightarrow> ((saddr option list \<times> saddr option list \<times> sheap) option \<times> getopt) exec" where
  "run_loop argv go s =
     (case getopt_long argv cmd_run_short_options cmd_run_long_options go of
        Inl e \<Rightarrow> Inl e
      | Inr (go', None) \<Rightarrow> Inr (Some s, go')
      | Inr (go', Some c) \<Rightarrow>
          (case run_option c (go_optarg go') s of
             Inl e \<Rightarrow> Inl e
           | Inr None \<Rightarrow> Inr (None, go')
           | Inr (Some s) \<Rightarrow> run_loop argv go' s))"
  by pat_completeness auto
termination
  by (relation "measure (\<lambda>(argv, go, s). left_to_scan argv go)") (auto simp: getopt_long_advances)

declare run_loop.simps [simp del]

definition cmd_run :: "'j nrmc_env \<Rightarrow> sheap \<Rightarrow> string list \<Rightarrow> ('d, 'j) nrmc \<Rightarrow> (nrmc_end \<times> ('d, 'j) nrmc) exec" where
  "cmd_run env h argv st =
     bindE (nrmc_string_getenv (ne_getenv env) ''LD_PRELOAD'' [] h) (\<lambda>(preloads, h).
     bindE (nrmc_string_getenv (ne_getenv env) ''OMP_TOOL_LIBRARIES'' [] h) (\<lambda>(ompt, h).
     bindE (run_loop argv ((nc_getopt st)\<lparr>go_optind := 1\<rparr>) (preloads, ompt, h)) (\<lambda>(s, go).
     let st = st\<lparr>nc_getopt := go\<rparr> in
     case s of
       None \<Rightarrow> Inr (Returns EXIT_FAILURE, st)
     | Some (preloads, ompt, h) \<Rightarrow>
         if int (length argv) - int (go_optind go) < 1 then Inr (Returns EXIT_FAILURE, st)
         else
           bindE (nrmc_string_setenv ''LD_PRELOAD'' preloads (ne_getenv env) h) (\<lambda>(environ, h).
           bindE (foldE nrm_string_decref preloads h) (\<lambda>h.
           bindE (nrmc_string_setenv ''OMP_TOOL_LIBRARIES'' ompt environ h) (\<lambda>(environ, h).
           bindE (foldE nrm_string_decref ompt h) (\<lambda>h.
           let argv = drop (go_optind go) argv in
           if ne_execvp env argv then Inr (Execs argv environ, st) else Inr (Returns (-1), st))))))))"


section \<open>remove\<close>

definition cmd_remove_long_options :: "long_option list" where
  "cmd_remove_long_options = [\<lparr>lo_name = ''all'', lo_has_arg = False, lo_flag = True, lo_val = CHR 0x01\<rparr>]"

definition cmd_remove_short_options :: string where
  "cmd_remove_short_options = [CHR 0x3A, CHR ''a'']"

text \<open>
  The option loop of the removal commands: \<open>None\<close> is the return with a failure, otherwise \<open>ask_all\<close>.  The
  scanner stores through the flag and returns 0 for the long option.
\<close>

function remove_loop :: "string list \<Rightarrow> getopt \<Rightarrow> bool \<Rightarrow> (bool option \<times> getopt) exec" where
  "remove_loop argv go ask_all =
     (case getopt_long argv cmd_remove_short_options cmd_remove_long_options go of
        Inl e \<Rightarrow> Inl e
      | Inr (go', None) \<Rightarrow> Inr (Some ask_all, go')
      | Inr (go', Some c) \<Rightarrow>
          if c = CHR 0x00 \<or> c = CHR ''a'' then remove_loop argv go' True else Inr (None, go'))"
  by pat_completeness auto
termination
  by (relation "measure (\<lambda>(argv, go, ask_all). left_to_scan argv go)") (auto simp: getopt_long_advances)

declare remove_loop.simps [simp del]

text \<open>
  The loop over the results, or over the first one.  The address of the slot is taken for the address of the object: the object that is
  printed and whose uuid is sent is what the slot reads as.  The result of the request is not looked at.
\<close>

definition remove_found ::
  "'j jansson \<Rightarrow> ('a option \<Rightarrow> 'a exec) \<Rightarrow> ('a option \<Rightarrow> 'j option exec)
     \<Rightarrow> (('d, 'l) nrm_client option \<Rightarrow> 'a option \<Rightarrow> (int \<times> ('d, 'l) nrm_client option) exec)
     \<Rightarrow> bool \<Rightarrow> 'a option list \<Rightarrow> ('d, 'l) nrm_client option \<Rightarrow> ('j option \<times> ('d, 'l) nrm_client option) exec" where
  "remove_found J slot to_json client_remove_fn ask_all results client =
     (let len = (if ask_all then length results else if length results > 0 then 1 else 0)
      in foldE (\<lambda>x (array, client).
           bindE (slot x) (\<lambda>s.
           bindE (to_json (Some s)) (\<lambda>json.
           bindE (client_remove_fn client (Some s)) (\<lambda>(_, client).
           Inr (json_array_append_new J array json, client))))) (take len results) (json_array J, client))"

text \<open>\<open>arg\<close> is the index of the name among the words the loop left; at \<open>argc\<close> there is NULL.\<close>

definition cmd_remove ::
  "int \<Rightarrow> (found option \<Rightarrow> 'a option list exec) \<Rightarrow> ('a option \<Rightarrow> 'a exec) \<Rightarrow> ('a option \<Rightarrow> 'j option exec)
     \<Rightarrow> (('d, listened) nrm_client option \<Rightarrow> 'a option \<Rightarrow> (int \<times> ('d, listened) nrm_client option) exec)
     \<Rightarrow> nat \<Rightarrow> 'j nrmc_env \<Rightarrow> ('d, 'j) command" where
  "cmd_remove target results_of slot to_json client_remove_fn arg env argv st =
     bindE (remove_loop argv (nc_getopt st) False) (\<lambda>(ask_all, go).
     let st = st\<lparr>nc_getopt := go\<rparr> in
     case ask_all of
       None \<Rightarrow> Inr (EXIT_FAILURE, st)
     | Some ask_all \<Rightarrow>
         if int (length argv) - int (go_optind go) < 1 then Inr (EXIT_FAILURE, st)
         else
           let words = map Some (drop (go_optind go) argv) @ [None] in
           bindE (nrm_client_find (nc_client st) target (words ! arg) True) (\<lambda>(err, c, results).
           if err \<noteq> 0 then Inr (EXIT_FAILURE, st\<lparr>nc_client := c\<rparr>)
           else
             bindE (results_of results) (\<lambda>xs.
             bindE (remove_found (ne_json env) slot to_json client_remove_fn ask_all xs c) (\<lambda>(array, c).
             Inr (0, print_json array (st\<lparr>nc_client := c\<rparr>))))))"

definition cmd_remove_scope :: "'j nrmc_env \<Rightarrow> ('d, 'j) command" where
  "cmd_remove_scope env = cmd_remove NRM_MSG_TARGET_TYPE_SCOPE found_scopes (ne_slot_scope env) (nrm_scope_to_json (ne_json env))
     nrm_client_remove_scope 0 env"

definition cmd_remove_sensor :: "'j nrmc_env \<Rightarrow> ('d, 'j) command" where
  "cmd_remove_sensor env = cmd_remove NRM_MSG_TARGET_TYPE_SENSOR found_sensors (ne_slot_sensor env) (nrm_sensor_to_json (ne_json env))
     nrm_client_remove_sensor 0 env"

definition cmd_remove_slice :: "'j nrmc_env \<Rightarrow> ('d, 'j) command" where
  "cmd_remove_slice env = cmd_remove NRM_MSG_TARGET_TYPE_SLICE found_slices (ne_slot_slice env) (nrm_slice_to_json (ne_json env))
     nrm_client_remove_slice 1 env"


section \<open>main\<close>

type_synonym ('d, 'j) client_cmd = "string \<times> (string list \<Rightarrow> ('d, 'j) nrmc \<Rightarrow> (nrmc_end \<times> ('d, 'j) nrmc) exec)"

definition plain_cmd :: "('d, 'j) command \<Rightarrow> string list \<Rightarrow> ('d, 'j) nrmc \<Rightarrow> (nrmc_end \<times> ('d, 'j) nrmc) exec" where
  "plain_cmd cmd argv st = bindE (cmd argv st) (\<lambda>(err, st). Inr (Returns err, st))"

text \<open>What the reactor of \<open>listen\<close> and the strings of \<open>run\<close> start from.\<close>

record nrmc_world =
  nw_create :: create_calls
  nw_wakes :: "wake list"
  nw_os :: os_state
  nw_heap :: sheap

definition commands :: "'j nrmc_env \<Rightarrow> nrmc_world \<Rightarrow> ('d, 'j) client_cmd list" where
  "commands env w =
     [(''actuate'', plain_cmd (cmd_actuate env)),
      (''add-scope'', plain_cmd (cmd_add_scope env)),
      (''add-slice'', plain_cmd (cmd_add_slice env)),
      (''add-sensor'', plain_cmd (cmd_add_sensor env)),
      (''find-actuator'', plain_cmd (cmd_find_actuator env)),
      (''find-scope'', plain_cmd (cmd_find_scope env)),
      (''find-slice'', plain_cmd (cmd_find_slice env)),
      (''find-sensor'', plain_cmd (cmd_find_sensor env)),
      (''listen'', plain_cmd (cmd_listen (nw_create w) (nw_wakes w) (nw_os w))),
      (''list-actuators'', plain_cmd (cmd_list_actuators env)),
      (''list-scopes'', plain_cmd (cmd_list_scopes env)),
      (''list-slices'', plain_cmd (cmd_list_slices env)),
      (''list-sensors'', plain_cmd (cmd_list_sensors env)),
      (''send-event'', plain_cmd (cmd_send_event env)),
      (''remove-scope'', plain_cmd (cmd_remove_scope env)),
      (''remove-slice'', plain_cmd (cmd_remove_slice env)),
      (''remove-sensor'', plain_cmd (cmd_remove_sensor env)),
      (''run'', cmd_run env (nw_heap w)),
      (''exit'', plain_cmd cmd_exit),
      (''tick'', plain_cmd cmd_tick)]"

definition nrmc_print_help :: "nrm_tools_args \<Rightarrow> string list \<Rightarrow> ('d, 'j) nrmc \<Rightarrow> ('d, 'j) nrmc" where
  "nrmc_print_help args names st =
     st\<lparr>nc_out := nc_out st @ [OutLines (snd (nrm_tools_print_help args) @ [[], ''Available Commands:''] @ names)]\<rparr>"

text \<open>
  The labels of \<open>main\<close>: \<open>main_end\<close> destroys the client and goes on to the cleanup.  Before it, \<open>exit\<close> leaves the
  client as it is.
\<close>

definition main_end :: "nrmc_end \<times> ('d, 'j) nrmc \<Rightarrow> nrmc_end \<times> ('d, 'j) nrmc" where
  "main_end = (\<lambda>(e, st). case e of
     Execs argv environ \<Rightarrow> (e, st)
   | Returns err \<Rightarrow> (e, st\<lparr>nc_client := the (nrm_client_destroy (Some (nc_client st)))\<rparr>))"

definition main ::
  "'j nrmc_env \<Rightarrow> nrmc_world \<Rightarrow> (nat \<Rightarrow> ('d, client_fn) nrm_role option) \<Rightarrow> nrm_tools_args \<Rightarrow> string list \<Rightarrow> ('d, 'j) nrmc
     \<Rightarrow> (nrmc_end \<times> ('d, 'j) nrmc) exec" where
  "main env w roles args argv st =
     (let lg = snd (nrm_log_init (Some 2) (Some ''nrmc'') (nc_log st));
          (_, g, lg) = nrm_init (ne_getenv env) (nc_globals st) lg;
          st = st\<lparr>nc_globals := g, nc_log := lg\<rparr>;
          args = args\<lparr>ta_progname := ''nrmc'', ta_flags := 0\<rparr>;
          names = map fst (commands env w :: ('d, 'j) client_cmd list)
      in
      bindE (nrm_tools_parse_args (ne_strtod env) argv args (nc_getopt st)) (\<lambda>(err, args, go).
      let st = st\<lparr>nc_getopt := go\<rparr> in
      if err < 0 then Inr (Returns EXIT_FAILURE, nrmc_print_help args names st)
      else
        let argv = drop (nat err) argv in
        if ta_ask_help args \<noteq> 0 then Inr (Returns EXIT_SUCCESS, nrmc_print_help args names st)
        else if ta_ask_version args \<noteq> 0 then
          Inr (Returns EXIT_SUCCESS, st\<lparr>nc_out := nc_out st @ [OutLines (snd (nrm_tools_print_version (ne_version env) args))]\<rparr>)
        else if argv = [] then Inr (Returns EXIT_FAILURE, nrmc_print_help args names st)
        else
          let st = st\<lparr>nc_log := snd (nrm_log_setlevel (ta_log_level args) (nc_log st))\<rparr> in
          if hd argv = ''connect'' then bindE (plain_cmd (cmd_connect roles args) argv st) (\<lambda>r. Inr (main_end r))
          else
            (case nrm_client_create True (roles 0) True (ta_upstream_uri args) of (err, c) \<Rightarrow>
               if err \<noteq> 0 then Inr (Returns err, st)
               else
                 let st = st\<lparr>nc_client := c\<rparr> in
                 (case find (\<lambda>cmd. fst cmd = hd argv) (commands env w) of
                    Some cmd \<Rightarrow> bindE (snd cmd argv st) (\<lambda>r. Inr (main_end r))
                  | None \<Rightarrow> Inr (main_end (Returns EXIT_FAILURE, st))))))"

end
