(* ===== verification/NRM_Nrmc_Run.thy ===== *)
theory NRM_Nrmc_Run
  imports NRM_Nrmc
begin

text \<open>
  The commands of nrmc on the command lines its users write: \<open>run\<close> on any sequence of its options, the removal
  commands behind any global options, and what one command adds and another lists, over the connected system of
  NRM_System.
\<close>

section \<open>Strings of the run command\<close>

text \<open>Strings held by exactly one reference.\<close>

definition held :: "sheap \<Rightarrow> saddr list \<Rightarrow> string list \<Rightarrow> bool" where
  "held h = list_all2 (\<lambda>s t. string_text h s = Some t \<and> refs h s = 1)"

lemma held_frame:
  assumes "held h ss ts" and "\<And>s. s \<in> set ss \<Longrightarrow> refs h' s = refs h s \<and> string_text h' s = string_text h s"
  shows "held h' ss ts"
  using assms unfolding held_def list_all2_conv_all_nth by (metis nth_mem)

lemma held_refs: "held h ss ts \<Longrightarrow> s \<in> set ss \<Longrightarrow> refs h s = 1"
  by (auto simp: held_def list_all2_conv_all_nth in_set_conv_nth)

lemma fresh_refs: "sheap_wf h \<Longrightarrow> refs h (fresh h) = 0"
  using refs_eq_0 sheap_wf_fresh by blast

lemma held_fromchar:
  assumes "sheap_wf h" and "held h ps ts" and "held h os us" and "distinct (ps @ os)"
  obtains h' where "nrm_string_fromchar True (Some s) h = Inr (Some (fresh h), h')" and "sheap_wf h'"
    and "held h' ps ts" and "held h' os us" and "held h' [fresh h] [cstr s]" and "fresh h \<notin> set (ps @ os)"
proof -
  obtain h' where h': "nrm_string_fromchar True (Some s) h = Inr (Some (fresh h), h')" "sheap_wf h'"
    "refs h' = (refs h)(fresh h := 1)" "string_text h' = (string_text h)(fresh h \<mapsto> cstr s)"
    by (rule fromchar_ok [OF assms(1)])
  have new: "fresh h \<notin> set (ps @ os)" using fresh_refs [OF assms(1)] held_refs [OF assms(2)] held_refs [OF assms(3)] by auto
  then have "held h' ps ts" "held h' os us"
    using h'(3,4) by (auto intro: held_frame [OF assms(2)] held_frame [OF assms(3)])
  then show ?thesis using that h' new by (simp add: held_def)
qed

lemma decref_all:
  assumes "sheap_wf h" and "distinct ss" and "\<And>s. s \<in> set ss \<Longrightarrow> 0 < refs h s"
  shows "\<exists>h'. foldE nrm_string_decref (map Some ss) h = Inr h' \<and> sheap_wf h'
     \<and> (\<forall>a. a \<notin> set ss \<longrightarrow> refs h' a = refs h a \<and> string_text h' a = string_text h a)"
  using assms
proof (induction ss arbitrary: h)
  case (Cons s ss)
  obtain h1 where h1: "nrm_string_decref (Some s) h = Inr h1" "sheap_wf h1" "refs h1 = (refs h)(s := refs h s - 1)"
    "string_text h1 = (if refs h s = 1 then (string_text h)(s := None) else string_text h)"
    using str.dec_ok [OF Cons.prems(1), of s] Cons.prems(3) by auto
  obtain h2 where "foldE nrm_string_decref (map Some ss) h1 = Inr h2" "sheap_wf h2"
    "\<forall>a. a \<notin> set ss \<longrightarrow> refs h2 a = refs h1 a \<and> string_text h2 a = string_text h1 a"
    using Cons.IH [OF h1(2)] Cons.prems(2,3) h1(3) by (metis distinct.simps(2) fun_upd_apply list.set_intros(2))
  then show ?case using h1 by auto
qed simp

lemma cstr_plain: "char_of (0 :: nat) \<notin> set t \<Longrightarrow> cstr (t @ [char_of (0 :: nat)]) = t"
  by (induction t) (auto simp: cstr_def)

lemma joined_plain:
  assumes "c \<noteq> char_of (0 :: nat)" and "\<And>t. t \<in> set ts \<Longrightarrow> char_of (0 :: nat) \<notin> set t"
  shows "char_of (0 :: nat) \<notin> set (joined c ts)"
proof (cases "filter (\<lambda>t. t \<noteq> []) ts")
  case (Cons u us)
  then have "set (u # us) \<subseteq> set ts" by (metis filter_is_subset)
  then show ?thesis using assms Cons by (auto simp: joined_def)
qed (simp add: joined_def)

text \<open>Joining into the environment leaves the strings as they were.\<close>

lemma setenv_ok:
  assumes wf: "sheap_wf h" and held: "held h ss ts" and nul: "\<And>t. t \<in> set ts \<Longrightarrow> char_of (0 :: nat) \<notin> set t"
  obtains h' where "nrmc_string_setenv nm (map Some ss) environ h = Inr (environ(nm \<mapsto> joined CHR 0x3A ts), h')"
    and "sheap_wf h'" and "\<forall>a. 0 < refs h a \<longrightarrow> refs h' a = refs h a \<and> string_text h' a = string_text h a"
proof -
  have "list_all2 (\<lambda>s t. string_text h s = Some t \<and> refs h s < 2 ^ 31 - 1) ss ts"
    using held unfolding held_def by (rule list_all2_mono) simp
  then obtain r h1 where r: "nrm_string_vjoin CHR 0x3A (map Some ss) h = Inr (Some r, h1)" "vjoin_inv CHR 0x3A h ts r h1"
    by (rule vjoin_ok [OF wf])
  then have wf1: "sheap_wf h1" and t: "string_text h1 r = Some (joined CHR 0x3A ts)"
    and old: "\<And>a. 0 < refs h a \<Longrightarrow> refs h1 a = refs h a + (if a = r then 1 else 0) \<and> string_text h1 a = string_text h a"
    by (auto simp: vjoin_inv_def)
  obtain x where x: "cells h1 r = Some x" using t by (auto simp: string_text_def)
  have "CHR 0x3A \<noteq> (char_of (0 :: nat) :: char)" by (simp add: char_of_def)
  from cstr_plain [OF joined_plain [OF this nul]] have b: "cstr (buf x) = joined CHR 0x3A ts"
    using buf_text [OF wf1 x t] by simp
  have "0 < refs h1 r" using text_refs [OF wf1, of r] t by simp
  then obtain h2 where h2: "nrm_string_decref (Some r) h1 = Inr h2" "sheap_wf h2" "refs h2 = (refs h1)(r := refs h1 r - 1)"
    "string_text h2 = (if refs h1 r = 1 then (string_text h1)(r := None) else string_text h1)"
    using str.dec_ok [OF wf1, of r] by auto
  show ?thesis
  proof (rule that [of h2])
    show "nrmc_string_setenv nm (map Some ss) environ h = Inr (environ(nm \<mapsto> joined CHR 0x3A ts), h2)"
      using r(1) x b h2(1) by (simp add: nrmc_string_setenv_def)
    show "\<forall>a. 0 < refs h a \<longrightarrow> refs h2 a = refs h a \<and> string_text h2 a = string_text h a"
    proof (intro allI impI)
      fix a assume "0 < refs h a"
      from old [OF this] this show "refs h2 a = refs h a \<and> string_text h2 a = string_text h a" using h2(3,4) by auto
    qed
  qed (rule h2(2))
qed


section \<open>Options of the run command\<close>

text \<open>An option of \<open>run\<close>: how it is written, whether it is a preload or an OpenMP tool, and its library.\<close>

type_synonym run_opt = "opt_style \<times> bool \<times> string"

definition run_word :: "run_opt \<Rightarrow> string list" where
  "run_word = (\<lambda>(sty, pre, a). render_word sty (if pre then CHR ''d'' else CHR ''t'') (if pre then ''preload'' else ''ompt'') (Some a))"

definition run_words :: "run_opt list \<Rightarrow> string list" where
  "run_words ros = concat (map run_word ros)"

definition run_ok :: "run_opt \<Rightarrow> bool" where
  "run_ok = (\<lambda>(sty, pre, a). sty = Glued \<longrightarrow> a \<noteq> [])"

text \<open>The libraries of one kind.\<close>

definition libraries :: "bool \<Rightarrow> run_opt list \<Rightarrow> string list" where
  "libraries kind ros = map (\<lambda>(sty, pre, a). cstr a) (filter (\<lambda>(sty, pre, a). pre = kind) ros)"

lemma libraries_simps [simp]:
  "libraries kind [] = []"
  "libraries kind ((sty, pre, a) # ros) = (if pre = kind then cstr a # libraries kind ros else libraries kind ros)"
  by (simp_all add: libraries_def)

lemma getopt_run_word:
  assumes "run_ok (sty, pre, a)" and "go_nextchar st = []" and "go_optind st = length ws"
  shows "getopt_long (ws @ run_word (sty, pre, a) @ post) cmd_run_short_options cmd_run_long_options st
     = Inr (st\<lparr>go_optind := length ws + length (run_word (sty, pre, a)), go_optarg := Some a\<rparr>, Some (if pre then CHR ''d'' else CHR ''t''))"
  unfolding run_word_def prod.case
  by (rule getopt_long_word [where os' = cmd_run_short_options])
    (use assms in \<open>auto simp: run_ok_def cmd_run_short_options_def cmd_run_long_options_def short_lookup_def long_lookup_def required_argument_def\<close>)

lemma run_loop_words:
  assumes rest: "positional rest"
  shows "list_all run_ok ros \<Longrightarrow> sheap_wf h \<Longrightarrow> held h ps ts \<Longrightarrow> held h os us \<Longrightarrow> distinct (ps @ os) \<Longrightarrow>
    go_nextchar go = [] \<Longrightarrow> go_optind go = length ws \<Longrightarrow> ws \<noteq> [] \<Longrightarrow>
    \<exists>ps' os' h' go'. run_loop (ws @ run_words ros @ rest) go (map Some ps, map Some os, h)
        = Inr (Some (map Some ps', map Some os', h'), go')
      \<and> sheap_wf h' \<and> held h' ps' (ts @ libraries True ros) \<and> held h' os' (us @ libraries False ros) \<and> distinct (ps' @ os')
      \<and> go_optind go' = length ws + length (run_words ros)"
proof (induction ros arbitrary: h ps ts os us go ws)
  case Nil
  have "getopt_long (ws @ rest) cmd_run_short_options cmd_run_long_options go = Inr (go\<lparr>go_optarg := None\<rparr>, None)"
    using Nil by (intro getopt_long_stops [OF rest]) simp_all
  then show ?case using Nil by (subst run_loop.simps) (auto simp: run_words_def)
next
  case (Cons ro ros)
  obtain sty pre a where ro: "ro = (sty, pre, a)" by (cases ro)
  let ?ws = "ws @ run_word ro" and ?c = "if pre then CHR ''d'' else CHR ''t''"
  let ?go = "go\<lparr>go_optind := length ws + length (run_word ro), go_optarg := Some a\<rparr>"
  obtain h1 where h1: "nrm_string_fromchar True (Some a) h = Inr (Some (fresh h), h1)" "sheap_wf h1" "held h1 ps ts" "held h1 os us"
    "held h1 [fresh h] [cstr a]" "fresh h \<notin> set (ps @ os)"
    by (rule held_fromchar [OF Cons.prems(2-5)])
  define ps1 os1 where "ps1 = (if pre then ps @ [fresh h] else ps)" and "os1 = (if pre then os else os @ [fresh h])"
  define ts1 us1 where "ts1 = (if pre then ts @ [cstr a] else ts)" and "us1 = (if pre then us else us @ [cstr a])"
  note new = ps1_def os1_def ts1_def us1_def
  have "held h1 ps1 ts1" "held h1 os1 us1" "distinct (ps1 @ os1)"
    using h1(3-6) Cons.prems(5) by (auto simp: new held_def intro!: list_all2_appendI)
  then have "\<exists>ps' os' h' go'. run_loop (?ws @ run_words ros @ rest) ?go (map Some ps1, map Some os1, h1)
        = Inr (Some (map Some ps', map Some os', h'), go')
      \<and> sheap_wf h' \<and> held h' ps' (ts1 @ libraries True ros) \<and> held h' os' (us1 @ libraries False ros) \<and> distinct (ps' @ os')
      \<and> go_optind go' = length ?ws + length (run_words ros)"
    using Cons.prems h1(2) by (intro Cons.IH) simp_all
  moreover have "getopt_long (ws @ run_words (ro # ros) @ rest) cmd_run_short_options cmd_run_long_options go = Inr (?go, Some ?c)"
    using getopt_run_word [of sty pre a go ws "run_words ros @ rest"] Cons.prems ro by (simp add: run_words_def)
  moreover have "run_option ?c (Some a) (map Some ps, map Some os, h) = Inr (Some (map Some ps1, map Some os1, h1))"
    using h1(1) by (simp add: run_option_def new)
  ultimately have "\<exists>ps' os' h' go'. run_loop (ws @ run_words (ro # ros) @ rest) go (map Some ps, map Some os, h)
        = Inr (Some (map Some ps', map Some os', h'), go')
      \<and> sheap_wf h' \<and> held h' ps' (ts1 @ libraries True ros) \<and> held h' os' (us1 @ libraries False ros) \<and> distinct (ps' @ os')
      \<and> go_optind go' = length ?ws + length (run_words ros)"
    by (subst run_loop.simps) (simp add: run_words_def)
  then show ?case by (cases pre) (simp_all add: ro new run_words_def add.assoc)
qed


section \<open>The environment of the program that is run\<close>

definition env_strings :: "string option \<Rightarrow> string list" where
  "env_strings v = (case v of None \<Rightarrow> [] | Some s \<Rightarrow> [cstr s])"

lemma getenv_ok:
  assumes "sheap_wf h" and "held h ps ts" and "distinct ps"
  obtains ss h' where "nrmc_string_getenv getenv nm [] h = Inr (map Some ss, h')" and "sheap_wf h'"
    and "held h' ps ts" and "held h' ss (env_strings (getenv nm))" and "distinct (ps @ ss)"
proof (cases "getenv nm")
  case None
  then show ?thesis using that [of "[]" h] assms by (simp add: nrmc_string_getenv_def env_strings_def held_def)
next
  case (Some v)
  obtain h' where "nrm_string_fromchar True (Some v) h = Inr (Some (fresh h), h')" "sheap_wf h'" "held h' ps ts"
    "held h' [fresh h] [cstr v]" "fresh h \<notin> set (ps @ [])"
    by (rule held_fromchar [of h ps ts "[]" "[]" v]) (use assms in \<open>simp_all add: held_def\<close>)
  then show ?thesis using that [of "[fresh h]" h'] assms(3) Some by (simp add: nrmc_string_getenv_def env_strings_def)
qed

lemma cstr_no_nul: "char_of (0 :: nat) \<notin> set (cstr s)"
  by (auto simp: cstr_def dest: set_takeWhileD)

lemma strings_no_nul: "t \<in> set (env_strings v @ libraries kind ros) \<Longrightarrow> char_of (0 :: nat) \<notin> set t"
  by (auto simp: env_strings_def libraries_def cstr_no_nul split: option.splits)

text \<open>
  C28. \<open>nrmc run\<close> replaces the process by the program on its command line, with everything after the options as its
  arguments.  The program's environment is that of nrmc, except that LD_PRELOAD and OMP_TOOL_LIBRARIES hold
  their former value followed by the libraries given with each kind of option, in order, joined by colons, the empty ones left
  out.  The options may be written in any of their forms and order; no string is used after it is freed.
\<close>

theorem nrmc_run_environment:
  assumes wf: "sheap_wf h" and ok: "list_all run_ok ros" and rest: "rest \<noteq> []" "positional rest" and go: "go_nextchar (nc_getopt st) = []"
    and exec: "ne_execvp env rest"
  shows "\<exists>st'. cmd_run env h (''run'' # run_words ros @ rest) st = Inr (Execs rest ((ne_getenv env)
       (''LD_PRELOAD'' \<mapsto> joined CHR 0x3A (env_strings (ne_getenv env ''LD_PRELOAD'') @ libraries True ros),
        ''OMP_TOOL_LIBRARIES'' \<mapsto> joined CHR 0x3A (env_strings (ne_getenv env ''OMP_TOOL_LIBRARIES'') @ libraries False ros))), st')"
proof -
  let ?argv = "''run'' # run_words ros @ rest"
  let ?ts = "env_strings (ne_getenv env ''LD_PRELOAD'')" and ?us = "env_strings (ne_getenv env ''OMP_TOOL_LIBRARIES'')"
  obtain ps h1 where h1: "nrmc_string_getenv (ne_getenv env) ''LD_PRELOAD'' [] h = Inr (map Some ps, h1)" "sheap_wf h1" "held h1 ps ?ts" "distinct ps"
    by (rule getenv_ok [OF wf, of "[]" "[]"]) (auto simp: held_def)
  obtain os h2 where h2: "nrmc_string_getenv (ne_getenv env) ''OMP_TOOL_LIBRARIES'' [] h1 = Inr (map Some os, h2)" "sheap_wf h2"
    "held h2 ps ?ts" "held h2 os ?us" "distinct (ps @ os)"
    by (rule getenv_ok [OF h1(2-4)])
  obtain ps' os' h3 go' where h3: "run_loop ?argv ((nc_getopt st)\<lparr>go_optind := 1\<rparr>) (map Some ps, map Some os, h2)
      = Inr (Some (map Some ps', map Some os', h3), go')" "sheap_wf h3" "held h3 ps' (?ts @ libraries True ros)"
    "held h3 os' (?us @ libraries False ros)" "distinct (ps' @ os')" "go_optind go' = 1 + length (run_words ros)"
    using run_loop_words [OF rest(2) ok h2(2-5), of "(nc_getopt st)\<lparr>go_optind := 1\<rparr>" "[''run'']"] go by auto
  define e1 where "e1 = (ne_getenv env)(''LD_PRELOAD'' \<mapsto> joined CHR 0x3A (?ts @ libraries True ros))"
  obtain h4 where h4: "nrmc_string_setenv ''LD_PRELOAD'' (map Some ps') (ne_getenv env) h3 = Inr (e1, h4)" "sheap_wf h4"
    "\<forall>a. 0 < refs h3 a \<longrightarrow> refs h4 a = refs h3 a \<and> string_text h4 a = string_text h3 a"
    unfolding e1_def by (rule setenv_ok [where nm = "''LD_PRELOAD''" and environ = "ne_getenv env", OF h3(2,3) strings_no_nul])
  have live: "0 < refs h4 s" if "s \<in> set (ps' @ os')" for s
    using that held_refs [OF h3(3)] held_refs [OF h3(4)] h4(3) by auto
  obtain h5 where h5: "foldE nrm_string_decref (map Some ps') h4 = Inr h5" "sheap_wf h5"
    "\<And>a. a \<notin> set ps' \<Longrightarrow> refs h5 a = refs h4 a \<and> string_text h5 a = string_text h4 a"
    using decref_all [OF h4(2), of ps'] h3(5) live by auto
  have held5: "held h5 os' (?us @ libraries False ros)"
  proof (rule held_frame [OF h3(4)])
    fix s assume s: "s \<in> set os'"
    then have "s \<notin> set ps'" "0 < refs h3 s" using h3(5) held_refs [OF h3(4) s] by auto
    then show "refs h5 s = refs h3 s \<and> string_text h5 s = string_text h3 s" using h5(3) h4(3) by auto
  qed
  obtain h6 where h6: "nrmc_string_setenv ''OMP_TOOL_LIBRARIES'' (map Some os') e1 h5
      = Inr (e1(''OMP_TOOL_LIBRARIES'' \<mapsto> joined CHR 0x3A (?us @ libraries False ros)), h6)" "sheap_wf h6"
    "\<forall>a. 0 < refs h5 a \<longrightarrow> refs h6 a = refs h5 a \<and> string_text h6 a = string_text h5 a"
    by (rule setenv_ok [where nm = "''OMP_TOOL_LIBRARIES''" and environ = e1, OF h5(2) held5 strings_no_nul])
  have "0 < refs h6 s" if "s \<in> set os'" for s using held_refs [OF held5 that] h6(3) by simp
  then obtain h7 where "foldE nrm_string_decref (map Some os') h6 = Inr h7"
    using decref_all [OF h6(2), of os'] h3(5) by auto
  then show ?thesis
    using h1(1) h2(1) h3(1,6) h4(1) h5(1) h6(1) rest(1) exec by (simp add: cmd_run_def Let_def e1_def)
qed

text \<open>A process for the witnesses: nothing in the environment but one preload.\<close>

definition shell :: "json nrmc_env" where
  "shell = \<lparr>ne_json = tree_library, ne_loads = (\<lambda>_. None), ne_strtod = (\<lambda>_. (DFin 0, False, True)),
     ne_getenv = [''LD_PRELOAD'' \<mapsto> ''a.so''], ne_cpu = 0, ne_node = 0, ne_time = \<lparr>tv_sec = 0, tv_nsec = 0\<rparr>, ne_rand = 7,
     ne_version = ''0'', ne_execvp = (\<lambda>_. True),
     ne_slot_scope = (\<lambda>_. Inl OutOfBounds), ne_slot_sensor = (\<lambda>_. Inr \<lparr>sensor_uuid = ''@''\<rparr>), ne_slot_slice = (\<lambda>_. Inr \<lparr>slice_uuid = ''@''\<rparr>)\<rparr>"

definition nrmc_start :: "('d, json) nrmc" where
  "nrmc_start = \<lparr>nc_client = None, nc_getopt = getopt_start, nc_out = [], nc_globals = nrm_globals_start, nc_log = nrm_log_start\<rparr>"

theorem nrmc_run_environment_witness:
  "\<exists>environ st'. cmd_run shell sheap_empty [''run'', ''-d'', ''b.so'', ''--ompt=t.so'', ''-dc.so'', ''prog'', ''-d''] (nrmc_start :: (unit, json) nrmc)
     = Inr (Execs [''prog'', ''-d''] environ, st')
     \<and> environ ''LD_PRELOAD'' = Some ''a.so:b.so:c.so'' \<and> environ ''OMP_TOOL_LIBRARIES'' = Some ''t.so'' \<and> environ ''PATH'' = None"
proof -
  let ?ros = "[(Apart, True, ''b.so''), (LongEq, False, ''t.so''), (Glued, True, ''c.so'')]"
  have w: "''run'' # run_words ?ros @ [''prog'', ''-d''] = [''run'', ''-d'', ''b.so'', ''--ompt=t.so'', ''-dc.so'', ''prog'', ''-d'']"
    by (simp add: run_words_def run_word_def render_word_def)
  have nul: "cstr ''a.so'' = ''a.so''" "cstr ''b.so'' = ''b.so''" "cstr ''c.so'' = ''c.so''" "cstr ''t.so'' = ''t.so''" by code_simp+
  have j: "joined CHR 0x3A (env_strings (ne_getenv shell ''LD_PRELOAD'') @ libraries True ?ros) = ''a.so:b.so:c.so''"
    "joined CHR 0x3A (env_strings (ne_getenv shell ''OMP_TOOL_LIBRARIES'') @ libraries False ?ros) = ''t.so''"
    by (simp_all add: env_strings_def shell_def joined_def nul)
  show ?thesis
    using nrmc_run_environment [OF sheap_wf_empty, of ?ros "[''prog'', ''-d'']" "nrmc_start :: (unit, json) nrmc" shell]
    unfolding w j by (auto simp: run_ok_def positional_def nrmc_start_def getopt_start_def shell_def)
qed


section \<open>The removal commands\<close>

lemma remove_loop_stops:
  assumes "positional rest" and "go_nextchar go = []" and "go_optind go = length ws" and "ws @ rest \<noteq> []"
  shows "remove_loop (ws @ rest) go b = Inr (Some b, go\<lparr>go_optarg := None\<rparr>)"
  by (subst remove_loop.simps) (simp add: getopt_long_stops [OF assms])

lemma remove_loop_past:
  assumes "go_nextchar go = []" and "length argv < go_optind go" and "argv \<noteq> []"
  shows "remove_loop argv go b = Inl OutOfBounds"
  using assms by (subst remove_loop.simps) (simp add: getopt_long_def argv_at_def Let_def)

lemma find_sensor_connected:
  assumes sys: "quiet sys" "rc_up (sys_client sys) = []" "sys_running sys" "server_wf (sys_server sys)"
    and c: "cl_role c = connected env sys"
    and pb: "passes env (list_sensors_msg [])" "passes env (list_sensors_msg (map fst (st_sensors (srv_state (sys_server sys)))))"
  shows "\<exists>sys'. nrm_client_find (Some c) NRM_MSG_TARGET_TYPE_SENSOR (Some u) True = Inr (0, Some (c\<lparr>cl_role := connected env sys'\<rparr>),
     Some (FoundSensors (map (\<lambda>_. Some \<lparr>sensor_uuid = u\<rparr>) (filter (\<lambda>v. v = u) (map fst (st_sensors (srv_state (sys_server sys))))))))
     \<and> quiet sys' \<and> rc_up (sys_client sys') = [] \<and> sys_running sys' \<and> srv_state (sys_server sys') = srv_state (sys_server sys)
     \<and> srv_out (sys_server sys') = srv_out (sys_server sys)
         @ [OSend (list_sensors_msg (map fst (st_sensors (srv_state (sys_server sys))))) (Some (se_ident env))]"
proof -
  let ?us = "map fst (st_sensors (srv_state (sys_server sys)))"
  obtain s1 where s1: "respond env (list_sensors_msg []) sys = Some (list_sensors_msg ?us, s1)"
    "quiet s1" "sys_running s1" "sys_client s1 = sys_client sys" "srv_state (sys_server s1) = srv_state (sys_server sys)"
    "srv_out (sys_server s1) = srv_out (sys_server sys) @ [OSend (list_sensors_msg ?us) (Some (se_ident env))]"
    using respond_list_sensors [OF sys(1,3,4) pb] by blast
  then have "serve env (list_sensors_msg []) sys = Some (list_sensors_msg ?us, s1)" using sys(2) by (simp add: serve_def)
  then have "nrm_client_find (Some c) NRM_MSG_TARGET_TYPE_SENSOR (Some u) True = Inr (0, Some (c\<lparr>cl_role := connected env s1\<rparr>),
      Some (FoundSensors (map (\<lambda>x. Some \<lparr>sensor_uuid = u\<rparr>) (filter (\<lambda>x. msn_uuid x = u) (map (\<lambda>u. \<lparr>msn_uuid = u\<rparr>) ?us)))))"
    by (intro sysrr.find_sensor [OF c]) (simp add: list_sensors_msg_def)
  then show ?thesis using s1 sys(2) by (intro exI [of _ s1]) (simp add: filter_map comp_def)
qed

definition remove_sensor_msg :: "string \<Rightarrow> nrm_msg" where
  "remove_sensor_msg u = \<lparr>msg_type = NRM_MSG_TYPE_REMOVE, msg_data = DataRemove \<lparr>remove_type = NRM_MSG_TARGET_TYPE_SENSOR, remove_uuid = u\<rparr>\<rparr>"

text \<open>The daemon acknowledges the removal of a sensor and keeps it, unless the bytes it compares spell a key.\<close>

lemma remove_sensor_connected:
  assumes sys: "quiet sys" "rc_up (sys_client sys) = []" "sys_running sys" and c: "cl_role c = connected env sys"
    and pb: "passes env (remove_sensor_msg u)" "passes env ack_msg"
    and raw: "take (length u) (se_raw env) \<notin> fst ` set (st_sensors (srv_state (sys_server sys)))"
  shows "\<exists>sys'. nrm_client_remove_sensor (Some c) (Some \<lparr>sensor_uuid = u\<rparr>) = Inr (0, Some (c\<lparr>cl_role := connected env sys'\<rparr>))
     \<and> srv_state (sys_server sys') = srv_state (sys_server sys)
     \<and> srv_out (sys_server sys') = srv_out (sys_server sys) @ [OSend ack_msg (Some (se_ident env))]"
proof -
  let ?s = "sys_server sys" and ?i = "Some (se_ident env)"
  let ?srv = "?s\<lparr>srv_out := srv_out ?s @ [OSend ack_msg ?i]\<rparr>"
  have "map_of (st_sensors (srv_state ?s)) (take (length u) (se_raw env)) = None" using raw by (simp add: map_of_eq_None_iff)
  then have "nrm_state_remove_sensor (se_raw env) (srv_state ?s) u = Inr (0, srv_state ?s)"
    by (simp add: nrm_state_remove_sensor_def nrm_hash_remove_def HASH_FIND_map_of destroyed_def)
  then have "nrm_server_role_callback (se_cb env) (se_raw env) (Some (remove_sensor_msg u)) ?i ?s = Inr (0, ?srv)"
    by (simp add: remove_sensor_msg_def role_callback_dispatch nrm_server_remove_callback_def server_remove_def server_reply_def
        msg_targets ack_msg_def)
  then have "respond env (remove_sensor_msg u) sys = Some (ack_msg, sys\<lparr>sys_server := ?srv, sys_running := True\<rparr>)"
    using respondI [of sys env "remove_sensor_msg u" ack_msg 0 ?srv "[]"] sys pb by simp
  then have "serve env \<lparr>msg_type = NRM_MSG_TYPE_REMOVE, msg_data = DataRemove \<lparr>remove_type = NRM_MSG_TARGET_TYPE_SENSOR, remove_uuid = u\<rparr>\<rparr> sys
      = Some (\<lparr>msg_type = NRM_MSG_TYPE_ACK, msg_data = DataNone\<rparr>, sys\<lparr>sys_server := ?srv, sys_running := True\<rparr>)"
    using sys(2) by (simp add: serve_def remove_sensor_msg_def ack_msg_def)
  from sysrr.remove_ack [OF c this] show ?thesis
    by (intro exI [of _ "sys\<lparr>sys_server := ?srv, sys_running := True\<rparr>"]) (simp add: nrm_client_remove_sensor_def)
qed

text \<open>The words before the command decide what its own scan sees.\<close>

lemma cmd_remove_sensor_cases:
  assumes name: "positional [name]" and go: "go_nextchar (nc_getopt st) = []" and c: "nc_client st = Some c"
    and f: "nrm_client_find (Some c) NRM_MSG_TARGET_TYPE_SENSOR (Some name) True = Inr (0, Some c', Some (FoundSensors xs))"
  shows "go_optind (nc_getopt st) = 1 \<Longrightarrow> cmd_remove_sensor env [cmd, name] st
      = bindE (remove_found (ne_json env) (ne_slot_sensor env) (nrm_sensor_to_json (ne_json env)) nrm_client_remove_sensor False xs (Some c'))
          (\<lambda>(array, c). Inr (0, print_json array (st\<lparr>nc_getopt := (nc_getopt st)\<lparr>go_optarg := None\<rparr>, nc_client := c\<rparr>)))"
    and "go_optind (nc_getopt st) = 2 \<Longrightarrow> cmd_remove_sensor env [cmd, name] st
      = Inr (1, st\<lparr>nc_getopt := (nc_getopt st)\<lparr>go_optarg := None\<rparr>\<rparr>)"
    and "2 < go_optind (nc_getopt st) \<Longrightarrow> cmd_remove_sensor env [cmd, name] st = Inl OutOfBounds"
proof -
  show "go_optind (nc_getopt st) = 1 \<Longrightarrow> cmd_remove_sensor env [cmd, name] st
      = bindE (remove_found (ne_json env) (ne_slot_sensor env) (nrm_sensor_to_json (ne_json env)) nrm_client_remove_sensor False xs (Some c'))
          (\<lambda>(array, c). Inr (0, print_json array (st\<lparr>nc_getopt := (nc_getopt st)\<lparr>go_optarg := None\<rparr>, nc_client := c\<rparr>)))"
    using remove_loop_stops [OF name go, of "[cmd]" False] c f
    by (simp add: cmd_remove_sensor_def cmd_remove_def found_sensors_def Let_def)
  show "go_optind (nc_getopt st) = 2 \<Longrightarrow> cmd_remove_sensor env [cmd, name] st
      = Inr (1, st\<lparr>nc_getopt := (nc_getopt st)\<lparr>go_optarg := None\<rparr>\<rparr>)"
    using remove_loop_stops [of "[]" "nc_getopt st" "[cmd, name]" False] go
    by (simp add: cmd_remove_sensor_def cmd_remove_def Let_def positional_def)
  show "2 < go_optind (nc_getopt st) \<Longrightarrow> cmd_remove_sensor env [cmd, name] st = Inl OutOfBounds"
    using remove_loop_past [OF go, of "[cmd, name]" False] by (simp add: cmd_remove_sensor_def cmd_remove_def)
qed


section \<open>main\<close>

lemma find_fst: "distinct (map fst xs) \<Longrightarrow> (k, v) \<in> set xs \<Longrightarrow> find (\<lambda>x. fst x = k) xs = Some (k, v)"
  by (induction xs) (auto intro: rev_image_eqI)

text \<open>
  A command line of global options and a command, with a role to connect with: the command runs on the words after the options,
  with the scanner where the options left it, and then the client is destroyed.
\<close>

lemma main_dispatches:
  fixes st :: "('d, 'j) nrmc"
  assumes ok: "list_all (opt_ok (ne_strtod env) 0) sos" "snd ` set sos \<inter> {OHelp, OVersion} = {}" and go: "go_nextchar (nc_getopt st) = []"
    and role: "roles 0 = Some r" and cmd: "(cmd, fn) \<in> set (commands env w)" and words: "positional (cmd # words)"
  shows "\<exists>st'. main env w roles args (prog # rendered sos @ cmd # words) st = bindE (fn (cmd # words) st') (\<lambda>r. Inr (main_end r))
     \<and> nc_client st' = Some \<lparr>cl_role = Some r, cl_user_fn = None, cl_actuate_fn = None\<rparr> \<and> nc_out st' = nc_out st
     \<and> go_nextchar (nc_getopt st') = [] \<and> go_optind (nc_getopt st') = 1 + length (rendered sos)"
proof -
  let ?args = "args\<lparr>ta_progname := ''nrmc'', ta_flags := 0\<rparr>"
  have ok0: "list_all (opt_ok (ne_strtod env) (ta_flags ?args)) sos" using ok(1) by simp
  obtain go' where p: "nrm_tools_parse_args (ne_strtod env) (prog # rendered sos @ cmd # words) ?args (nc_getopt st)
      = Inr (int (1 + length (rendered sos)), parsed_args sos ?args, go')" "go_nextchar go' = []" "go_optind go' = 1 + length (rendered sos)"
    using parse_args_rendered [OF ok0 words go] by blast
  obtain e g lg where i: "nrm_init (ne_getenv env) (nc_globals st) (snd (nrm_log_init (Some 2) (Some ''nrmc'') (nc_log st))) = (e, g, lg)"
    by (metis prod_cases3)
  have asks: "ta_ask_help (parsed_args sos ?args) = 0" "ta_ask_version (parsed_args sos ?args) = 0"
    using ok(2) by (auto intro!: parsed_args_asks)
  have d: "distinct (map fst (commands env w :: ('d, 'j) client_cmd list))" "''connect'' \<notin> set (map fst (commands env w :: ('d, 'j) client_cmd list))"
    by (simp_all add: commands_def)
  have "cmd \<in> set (map fst (commands env w :: ('d, 'j) client_cmd list))" using imageI [OF cmd, of fst] by simp
  then have f: "cmd \<noteq> ''connect''" "find (\<lambda>c. fst c = cmd) (commands env w) = Some (cmd, fn)"
    using d(2) find_fst [OF d(1) cmd] by (blast, simp)
  have c: "nrm_client_create True (roles 0) True (ta_upstream_uri (parsed_args sos ?args)) 
      = (0, Some (\<lparr>cl_role = Some r, cl_user_fn = None, cl_actuate_fn = None\<rparr> :: ('d, listened) nrm_client))"
    by (simp add: nrm_client_create_def role parsed_args_def Let_def)
  show ?thesis
    using p i asks f c by (auto simp: main_def Let_def nat_add_distrib)
qed

text \<open>
  C35. The command \<open>remove-sensor NAME\<close> of \<open>nrmc\<close> removes nothing from the daemon it is connected to.  Without global options it asks for the
  sensors; when the name is among them, it takes the slot that holds the pointer to the sensor for the sensor, prints what that reads
  as and sends its uuid in the request to remove; the daemon acknowledges, and its
  state is the same as before, since \<open>nrm_hash_remove\<close> compares the keys with the bytes of its own parameter (which are supposed to spell no
  key); when the name is not among them, the command prints an empty list.  Both ways it succeeds.  With one word of global options
  before it the command fails without a request, since the scan of its own options starts where the common
  parser stopped; with more words the scan starts outside of the argument vector.
\<close>

theorem nrmc_remove_sensor_fails:
  fixes st :: "('u nrm_system, 'j) nrmc"
  assumes ok: "list_all (opt_ok (ne_strtod env) 0) sos" "snd ` set sos \<inter> {OHelp, OVersion} = {}" and go: "go_nextchar (nc_getopt st) = []"
    and role: "roles 0 = connected senv sys" and name: "positional [name]"
    and sys: "quiet sys" "rc_up (sys_client sys) = []" "sys_running sys" "server_wf (sys_server sys)"
    and slot: "ne_slot_sensor env (Some \<lparr>sensor_uuid = name\<rparr>) = Inr \<lparr>sensor_uuid = u\<rparr>"
    and raw: "take (length u) (se_raw senv) \<notin> fst ` set (st_sensors (srv_state (sys_server sys)))"
    and pb: "passes senv (list_sensors_msg [])" "passes senv (list_sensors_msg (map fst (st_sensors (srv_state (sys_server sys)))))"
      "passes senv (remove_sensor_msg u)" "passes senv ack_msg"
  shows "\<exists>st1. main env w roles args (prog # rendered sos @ [''remove-sensor'', name]) st
       = bindE (plain_cmd (cmd_remove_sensor env) [''remove-sensor'', name] st1) (\<lambda>r. Inr (main_end r))
     \<and> nc_client st1 = Some \<lparr>cl_role = connected senv sys, cl_user_fn = None, cl_actuate_fn = None\<rparr> \<and> nc_out st1 = nc_out st
     \<and> (case length (rendered sos) of
          0 \<Rightarrow> \<exists>st2 sys2. cmd_remove_sensor env [''remove-sensor'', name] st1 = Inr (0, st2)
             \<and> nc_client st2 = Some \<lparr>cl_role = connected senv sys2, cl_user_fn = None, cl_actuate_fn = None\<rparr>
             \<and> srv_state (sys_server sys2) = srv_state (sys_server sys)
             \<and> (if name \<in> fst ` set (st_sensors (srv_state (sys_server sys)))
                then nc_out st2 = nc_out st @ [OutJson (json_array_append_new (ne_json env) (json_array (ne_json env))
                        (json_pack (ne_json env) [(''uuid'', Pack_s (Some u))]))]
                  \<and> srv_out (sys_server sys2) = srv_out (sys_server sys)
                      @ [OSend (list_sensors_msg (map fst (st_sensors (srv_state (sys_server sys))))) (Some (se_ident senv)), OSend ack_msg (Some (se_ident senv))]
                else nc_out st2 = nc_out st @ [OutJson (json_array (ne_json env))]
                  \<and> srv_out (sys_server sys2) = srv_out (sys_server sys)
                      @ [OSend (list_sensors_msg (map fst (st_sensors (srv_state (sys_server sys))))) (Some (se_ident senv))])
        | Suc 0 \<Rightarrow> \<exists>st2. cmd_remove_sensor env [''remove-sensor'', name] st1 = Inr (1, st2) \<and> nc_client st2 = nc_client st1 \<and> nc_out st2 = nc_out st
        | Suc (Suc _) \<Rightarrow> cmd_remove_sensor env [''remove-sensor'', name] st1 = Inl OutOfBounds)"
proof -
  let ?us = "map fst (st_sensors (srv_state (sys_server sys)))" and ?i = "Some (se_ident senv)"
  have cmd: "(''remove-sensor'', plain_cmd (cmd_remove_sensor env)) \<in> set (commands env w :: ('u nrm_system, 'j) client_cmd list)"
    by (simp add: commands_def)
  obtain st1 where m: "main env w roles args (prog # rendered sos @ [''remove-sensor'', name]) st
      = bindE (plain_cmd (cmd_remove_sensor env) [''remove-sensor'', name] st1) (\<lambda>r. Inr (main_end r))"
    and c: "nc_client st1 = Some \<lparr>cl_role = connected senv sys, cl_user_fn = None, cl_actuate_fn = None\<rparr>"
    and out: "nc_out st1 = nc_out st"
    and go1: "go_nextchar (nc_getopt st1) = []" and ind: "go_optind (nc_getopt st1) = 1 + length (rendered sos)"
    using main_dispatches [where roles = roles and words = "[name]" and args = args and prog = prog, OF ok go role cmd] name by (auto simp: positional_def)
  let ?c = "\<lambda>s. \<lparr>cl_role = connected senv s, cl_user_fn = None, cl_actuate_fn = None\<rparr> :: ('u nrm_system, listened) nrm_client"
  obtain s1 where f: "nrm_client_find (Some (?c sys)) NRM_MSG_TARGET_TYPE_SENSOR (Some name) True = Inr (0, Some (?c s1),
      Some (FoundSensors (map (\<lambda>_. Some \<lparr>sensor_uuid = name\<rparr>) (filter (\<lambda>v. v = name) ?us))))"
    and s1: "quiet s1" "rc_up (sys_client s1) = []" "sys_running s1" "srv_state (sys_server s1) = srv_state (sys_server sys)"
      "srv_out (sys_server s1) = srv_out (sys_server sys) @ [OSend (list_sensors_msg ?us) ?i]"
    using find_sensor_connected [where c = "?c sys" and u = name, OF sys _ pb(1,2)] by auto
  obtain s2 where r: "nrm_client_remove_sensor (Some (?c s1)) (Some \<lparr>sensor_uuid = u\<rparr>) = Inr (0, Some (?c s2))"
    and s2: "srv_state (sys_server s2) = srv_state (sys_server sys)"
      "srv_out (sys_server s2) = srv_out (sys_server sys) @ [OSend (list_sensors_msg ?us) ?i, OSend ack_msg ?i]"
    using remove_sensor_connected [where c = "?c s1" and u = u, OF s1(1,2,3) _ pb(3,4)] raw s1(4,5) by auto
  let ?J = "ne_json env"
  let ?rf = "remove_found ?J (ne_slot_sensor env) (nrm_sensor_to_json ?J) nrm_client_remove_sensor False
      (map (\<lambda>_. Some \<lparr>sensor_uuid = name\<rparr>) (filter (\<lambda>v. v = name) ?us)) (Some (?c s1))"
  have found: "?rf = Inr (json_array_append_new ?J (json_array ?J) (json_pack ?J [(''uuid'', Pack_s (Some u))]), Some (?c s2))"
    if "name \<in> fst ` set (st_sensors (srv_state (sys_server sys)))"
  proof -
    have "filter (\<lambda>v. v = name) ?us \<noteq> []" using that by (auto simp: filter_empty_conv)
    then obtain xs where "filter (\<lambda>v. v = name) ?us = name # xs" by (cases "filter (\<lambda>v. v = name) ?us") (auto simp: filter_eq_Cons_iff)
    then show ?thesis using slot r by (simp add: remove_found_def nrm_sensor_to_json_def)
  qed
  have missing: "?rf = Inr (json_array ?J, Some (?c s1))" if "name \<notin> fst ` set (st_sensors (srv_state (sys_server sys)))"
    using that by (auto simp: remove_found_def filter_empty_conv)
  note cases = cmd_remove_sensor_cases [OF name go1 c f, of env "''remove-sensor''"]
  show ?thesis
  proof (cases "length (rendered sos)")
    case 0
    then have run: "cmd_remove_sensor env [''remove-sensor'', name] st1
        = bindE ?rf (\<lambda>(array, c). Inr (0, print_json array (st1\<lparr>nc_getopt := (nc_getopt st1)\<lparr>go_optarg := None\<rparr>, nc_client := c\<rparr>)))"
      using cases(1) ind by simp
    show ?thesis
    proof (cases "name \<in> fst ` set (st_sensors (srv_state (sys_server sys)))")
      case True
      show ?thesis
        by (rule exI [of _ st1]) (use m c out run found [OF True] s2 0 True in \<open>simp add: print_json_def\<close>)
    next
      case False
      show ?thesis
        by (rule exI [of _ st1]) (use m c out run missing [OF False] s1 0 False in \<open>simp add: print_json_def\<close>)
    qed
  next
    case (Suc n)
    then show ?thesis using cases(2,3) ind m c out by (intro exI [of _ st1]) (cases n; simp)
  qed
qed

theorem nrmc_remove_sensor_fails_witness:
  "\<exists>senv st1 st2 sys2. \<forall>w. main shell w (\<lambda>_. connected senv (fresh_system one_sensor)) (args_blank 0) [''nrmc'', ''remove-sensor'', ''s''] (nrmc_start :: (unit nrm_system, json) nrmc)
       = bindE (plain_cmd (cmd_remove_sensor shell) [''remove-sensor'', ''s''] (st1 w)) (\<lambda>r. Inr (main_end r))
     \<and> cmd_remove_sensor shell [''remove-sensor'', ''s''] (st1 w) = Inr (0, st2 w)
     \<and> nc_client (st2 w) = Some \<lparr>cl_role = connected senv (sys2 w), cl_user_fn = None, cl_actuate_fn = None\<rparr>
     \<and> map fst (st_sensors (srv_state (sys_server (sys2 w)))) = [''s'']"
proof -
  let ?env = "table_env [list_sensors_msg [], list_sensors_msg [''s''], remove_sensor_msg ''@'', ack_msg] no_callbacks :: unit sys_env"
  let ?sys = "fresh_system one_sensor" and ?st = "nrmc_start :: (unit nrm_system, json) nrmc"
  have wf: "server_wf one_sensor"
    by (simp add: server_wf_def one_sensor_def state_wf_def nrm_state_create_def table_wf_def hash_wf_def)
  have s: "map fst (st_sensors (srv_state (sys_server ?sys))) = [''s'']" "st_sensors (srv_state one_sensor) = [(''s'', \<lparr>sensor_uuid = ''s''\<rparr>)]"
    by (simp_all add: one_sensor_def)
  have consistent: "msg_consistent (remove_sensor_msg ''@'')" by (simp add: remove_sensor_msg_def msg_consistent_def)
  have pb: "passes ?env (list_sensors_msg [])" "passes ?env (list_sensors_msg (map fst (st_sensors (srv_state (sys_server ?sys)))))"
      "passes ?env (remove_sensor_msg ''@'')" "passes ?env ack_msg"
    unfolding s using consistent by (simp_all add: passes_def table_env_passes)
  have go: "go_nextchar (nc_getopt ?st) = []" by (simp add: nrmc_start_def getopt_start_def)
  have raw: "take (length ''@'') (se_raw ?env) \<notin> fst ` set (st_sensors (srv_state (sys_server ?sys)))"
    by (simp add: table_env_def s)
  have "\<exists>st1 st2 sys2. main shell w (\<lambda>_. connected ?env ?sys) (args_blank 0) [''nrmc'', ''remove-sensor'', ''s''] ?st
       = bindE (plain_cmd (cmd_remove_sensor shell) [''remove-sensor'', ''s''] st1) (\<lambda>r. Inr (main_end r))
     \<and> cmd_remove_sensor shell [''remove-sensor'', ''s''] st1 = Inr (0, st2)
     \<and> nc_client st2 = Some \<lparr>cl_role = connected ?env sys2, cl_user_fn = None, cl_actuate_fn = None\<rparr>
     \<and> map fst (st_sensors (srv_state (sys_server sys2))) = [''s'']" for w
    using nrmc_remove_sensor_fails [where sos = "[]" and env = shell and w = w and roles = "\<lambda>_. connected ?env ?sys" and name = "''s''" and u = "''@''"
        and args = "args_blank 0" and prog = "''nrmc''", OF _ _ go _ _ _ _ _ _ _ raw pb] wf s
    by (auto simp: rendered_def positional_def shell_def)
  then show ?thesis by metis
qed


section \<open>What one command adds another lists\<close>

lemma dump_sensors:
  assumes J: "jansson_ok J view" and us: "list_all plain us"
  shows "\<exists>j. dump_objects J (nrm_sensor_to_json J) (\<lambda>_. Inr ()) (map (\<lambda>u. Some \<lparr>sensor_uuid = u\<rparr>) us) = Inr (Some j)
     \<and> view j = JArray (map uuid_tree us)"
proof -
  have "yields view a (JArray vs) \<Longrightarrow> list_all plain us \<Longrightarrow>
      \<exists>r. foldE (\<lambda>x array. bindE (nrm_sensor_to_json J x) (\<lambda>json. bindE (Inr ()) (\<lambda>_. Inr (json_array_append_new J array json))))
        (map (\<lambda>u. Some \<lparr>sensor_uuid = u\<rparr>) us) a = Inr r \<and> yields view r (JArray (vs @ map uuid_tree us))" for a vs
  proof (induction us arbitrary: a vs)
    case (Cons u us)
    have "yields view (json_pack J [(''uuid'', Pack_s (Some u))]) (uuid_tree u)" using Cons.prems(2) by (simp add: yields_uuid [OF J])
    then have "yields view (json_array_append_new J a (json_pack J [(''uuid'', Pack_s (Some u))])) (JArray (vs @ [uuid_tree u]))"
      using Cons.prems(1) by (intro yields_append [OF J])
    then show ?case using Cons.IH Cons.prems(2) by (fastforce simp: nrm_sensor_to_json_def)
  qed simp
  from this [OF yields_array [OF J] us] show ?thesis by (auto simp: dump_objects_def yields_def)
qed

text \<open>
  C17. What \<open>nrmc add-sensor\<close> adds, \<open>nrmc list-sensors\<close> prints: on a connected, quiet daemon the first command prints the object
  of the new sensor and succeeds, and then a second client of that daemon prints the array of the sensors that were
  there, followed by the new one unless it was among them.
\<close>

theorem nrmc_lists_what_it_adds:
  assumes J: "jansson_ok (ne_json env) view"
    and sys: "quiet sys" "rc_up (sys_client sys) = []" "sys_running sys" "server_wf (sys_server sys)"
    and c: "nc_client st = Some c" "cl_role c = connected senv sys"
    and pl: "list_all plain (name # map fst (st_sensors (srv_state (sys_server sys))))"
    and pb: "\<forall>m \<in> {add_sensor_msg name, list_sensors_msg [], list_sensors_msg (sensors_with name (srv_state (sys_server sys)))}.
        se_unpack senv (se_pack senv m) = Some m"
  shows "\<exists>st1 c1 sys1 j. cmd_add_sensor env [cmd, name] st = Inr (0, st1) \<and> nc_out st1 = nc_out st @ [OutJson (Some j)] \<and> view j = uuid_tree name
     \<and> nc_client st1 = Some c1 \<and> cl_role c1 = connected senv sys1
     \<and> (\<forall>st2 c2 sys2. nc_client st2 = Some c2 \<longrightarrow> cl_role c2 = connected senv sys2 \<longrightarrow> sys_server sys2 = sys_server sys1 \<longrightarrow>
          quiet sys2 \<longrightarrow> rc_up (sys_client sys2) = [] \<longrightarrow> sys_running sys2 \<longrightarrow>
          (\<exists>st3 j'. cmd_list_sensors env argv st2 = Inr (0, st3) \<and> nc_out st3 = nc_out st2 @ [OutJson (Some j')]
             \<and> view j' = JArray (map uuid_tree (sensors_with name (srv_state (sys_server sys))))))"
proof -
  let ?us = "sensors_with name (srv_state (sys_server sys))"
  have p: "passes senv (add_sensor_msg name)" "passes senv (list_sensors_msg [])" "passes senv (list_sensors_msg ?us)"
    using pb by (simp_all add: passes_def)
  obtain s1 where s1: "respond senv (add_sensor_msg name) sys = Some (add_sensor_msg name, s1)" "server_wf (sys_server s1)"
    "map fst (st_sensors (srv_state (sys_server s1))) = ?us"
    using respond_add_sensor [OF sys(1,3) p(1)] sys(4) by blast
  let ?c1 = "c\<lparr>cl_role := connected senv s1\<rparr>"
  have add: "nrm_client_add_sensor (Some c) (Some (nrm_sensor_create name)) = Inr (0, Some ?c1, Some (nrm_sensor_create name))"
    using s1(1) sys(2) by (intro sysrr.add_sensor [OF c(2)]) (simp add: add_sensor_msg_def serve_def nrm_sensor_create_def)
  have "plain name" using pl by simp
  from yields_uuid [OF J this] obtain j where j: "json_pack (ne_json env) [(''uuid'', Pack_s (Some name))] = Some j" "view j = uuid_tree name"
    by (auto simp: yields_def)
  have cmd_add: "cmd_add_sensor env [cmd, name] st = Inr (0, print_json (Some j) (st\<lparr>nc_client := Some ?c1\<rparr>))"
    using add j(1) c(1) by (simp add: cmd_add_sensor_def nrm_sensor_to_json_def nrm_sensor_create_def)
  have us: "list_all plain ?us" using pl by (auto simp: sensors_with_def list_all_iff)
  have "\<exists>st3 j'. cmd_list_sensors env argv st2 = Inr (0, st3) \<and> nc_out st3 = nc_out st2 @ [OutJson (Some j')] \<and> view j' = JArray (map uuid_tree ?us)"
    if c2: "nc_client st2 = Some c2" "cl_role c2 = connected senv sys2" and srv: "sys_server sys2 = sys_server s1"
      and q: "quiet sys2" "rc_up (sys_client sys2) = []" "sys_running sys2" for st2 c2 sys2
  proof -
    obtain s3 where "respond senv (list_sensors_msg []) sys2 = Some (list_sensors_msg ?us, s3)"
      using respond_list_sensors [of sys2 senv "[]"] q p(2,3) s1(2,3) srv by auto
    then have "serve senv (list_sensors_msg []) sys2 = Some (list_sensors_msg ?us, s3)" using q by (simp add: serve_def)
    then have "nrm_client_list_sensors (Some c2) True = Inr (0, Some (c2\<lparr>cl_role := connected senv s3\<rparr>),
        Some (map (\<lambda>x. Some \<lparr>sensor_uuid = msn_uuid x\<rparr>) (map (\<lambda>u. \<lparr>msn_uuid = u\<rparr>) ?us)))"
      by (intro sysrr.list_sensors_all [OF c2(2)]) (simp add: list_sensors_msg_def)
    then show ?thesis using dump_sensors [OF J us] c2(1)
      by (auto simp: cmd_list_sensors_def cmd_list_def comp_def print_json_def)
  qed
  then show ?thesis using cmd_add j(2) by (fastforce simp: print_json_def)
qed

theorem nrmc_lists_what_it_adds_witness:
  "\<exists>senv st st1 c1 sys1. nc_client st = Some \<lparr>cl_role = connected senv (fresh_system one_sensor), cl_user_fn = None, cl_actuate_fn = None\<rparr>
     \<and> cmd_add_sensor shell [''add-sensor'', ''t''] (st :: (unit nrm_system, json) nrmc) = Inr (0, st1)
     \<and> nc_out st1 = [OutJson (Some (uuid_tree ''t''))] \<and> nc_client st1 = Some c1 \<and> cl_role c1 = connected senv sys1
     \<and> (\<forall>st2 c2 sys2. nc_client st2 = Some c2 \<longrightarrow> cl_role c2 = connected senv sys2 \<longrightarrow> sys_server sys2 = sys_server sys1 \<longrightarrow>
          quiet sys2 \<longrightarrow> rc_up (sys_client sys2) = [] \<longrightarrow> sys_running sys2 \<longrightarrow>
          (\<exists>st3. cmd_list_sensors shell [''list-sensors''] st2 = Inr (0, st3)
             \<and> nc_out st3 = nc_out st2 @ [OutJson (Some (JArray [uuid_tree ''s'', uuid_tree ''t'']))]))"
proof -
  let ?env = "table_env [add_sensor_msg ''t'', list_sensors_msg [], list_sensors_msg [''s'', ''t'']] no_callbacks :: unit sys_env"
  let ?c = "\<lparr>cl_role = connected ?env (fresh_system one_sensor), cl_user_fn = None, cl_actuate_fn = None\<rparr>"
  let ?st = "nrmc_start\<lparr>nc_client := Some ?c\<rparr> :: (unit nrm_system, json) nrmc"
  have u: "sensors_with ''t'' (srv_state one_sensor) = [''s'', ''t'']"
    by (simp add: sensors_with_def one_sensor_def nrm_state_create_def)
  have wf: "server_wf one_sensor"
    by (simp add: server_wf_def one_sensor_def state_wf_def nrm_state_create_def table_wf_def hash_wf_def)
  have pl: "list_all plain (''t'' # map fst (st_sensors (srv_state (sys_server (fresh_system one_sensor)))))"
    by (simp add: one_sensor_def) code_simp
  have pb: "\<forall>m \<in> {add_sensor_msg ''t'', list_sensors_msg [], list_sensors_msg (sensors_with ''t'' (srv_state (sys_server (fresh_system one_sensor))))}.
      se_unpack ?env (se_pack ?env m) = Some m"
    by (simp add: u table_env_passes)
  have J: "jansson_ok (ne_json shell) (\<lambda>j. j)" by (simp add: shell_def tree_library_ok)
  have c: "nc_client ?st = Some ?c" "cl_role ?c = connected ?env (fresh_system one_sensor)" and o: "nc_out ?st = []"
    by (simp_all add: nrmc_start_def)
  from nrmc_lists_what_it_adds [where cmd = "''add-sensor''" and argv = "[''list-sensors'']", OF J _ _ _ _ c pl pb] wf
  obtain st1 c1 sys1 where "cmd_add_sensor shell [''add-sensor'', ''t''] ?st = Inr (0, st1)" "nc_out st1 = [OutJson (Some (uuid_tree ''t''))]"
    "nc_client st1 = Some c1" "cl_role c1 = connected ?env sys1"
    "\<forall>st2 c2 sys2. nc_client st2 = Some c2 \<longrightarrow> cl_role c2 = connected ?env sys2 \<longrightarrow> sys_server sys2 = sys_server sys1 \<longrightarrow>
          quiet sys2 \<longrightarrow> rc_up (sys_client sys2) = [] \<longrightarrow> sys_running sys2 \<longrightarrow>
          (\<exists>st3. cmd_list_sensors shell [''list-sensors''] st2 = Inr (0, st3)
             \<and> nc_out st3 = nc_out st2 @ [OutJson (Some (JArray [uuid_tree ''s'', uuid_tree ''t'']))])"
    unfolding o by (auto simp: u)
  with c(1) show ?thesis by blast
qed

end
