(* ===== verification/NRM_Control.thy ===== *)
theory NRM_Control
  imports NRM_Eventbase NRM_Vector
begin

text \<open>
  The control loop (src/control/control.c, src/control/europar21.c).

  The arithmetic is that of doubles, operation by operation (NRM_Double); \<open>fexp\<close> and \<open>flog\<close>
  stand for the functions of libm.  The configuration is what jansson extracts from the file.  A member that is
  missing is \<open>None\<close>; where the code tells a missing member from one of another type (\<open>active\<close>, \<open>inputs\<close>,
  \<open>outputs\<close>), the latter is \<open>Some None\<close>.  The vectors of inputs and outputs are lists; the control hands out its own
  vectors, so the caller's changes to them are changes of the control's data.
\<close>

record nrm_control_input =
  in_sensor_uuid :: string
  in_scope_uuid :: string
  in_since :: nrm_time
  in_timeserie :: "nrm_timeserie option"

record nrm_control_output =
  out_actuator_uuid :: string
  out_value :: double

record europar21_data =
  ep_active :: bool
  ep_a :: double
  ep_b :: double
  ep_alpha :: double
  ep_beta :: double
  ep_Kl :: double
  ep_t :: double
  ep_e :: double
  ep_tobj :: double
  ep_pcap_max :: double
  ep_pcap_min_L :: double
  ep_pcap_max_L :: double
  ep_prev_e :: double
  ep_lastaction :: nrm_time
  ep_inputs :: "nrm_control_input list"
  ep_outputs :: "nrm_control_output list"


section \<open>The model of the controlled system\<close>

definition linearize :: "(double \<Rightarrow> double) \<Rightarrow> double \<Rightarrow> double \<Rightarrow> double \<Rightarrow> double \<Rightarrow> double \<Rightarrow> double" where
  "linearize fexp value a b alpha beta =
     dneg (fexp (dmul (dneg alpha) (dsub (dadd (dmul a value) b) beta)))"

definition control_error :: "double \<Rightarrow> double \<Rightarrow> double \<Rightarrow> double \<Rightarrow> double" where
  "control_error e Kl pcap_max_L prog = dsub (dmul (dmul e Kl) (dadd (DFin 1) pcap_max_L)) prog"

definition thresholding :: "double \<Rightarrow> double \<Rightarrow> double \<Rightarrow> double" where
  "thresholding val min' max' = dfmax (dfmin val max') min'"

definition actionL :: "double \<Rightarrow> double \<Rightarrow> double \<Rightarrow> double \<Rightarrow> double \<Rightarrow> double \<Rightarrow> double" where
  "actionL Ki deltaTi Kp e prev_e prev_pcapL =
     dadd (dsub (dmul (dadd (dmul Ki deltaTi) Kp) e) (dmul Kp prev_e)) prev_pcapL"

definition delinearize :: "(double \<Rightarrow> double) \<Rightarrow> double \<Rightarrow> double \<Rightarrow> double \<Rightarrow> double \<Rightarrow> double \<Rightarrow> double" where
  "delinearize flog value a b alpha beta =
     ddiv (dsub (dadd (ddiv (dneg (flog (dneg value))) alpha) beta) b) a"


section \<open>Creation\<close>

record europar21_config =
  cfg_name :: "string option"
  cfg_active :: "bool option option"
  cfg_inputs :: "(string \<times> string) option list option option"
  cfg_outputs :: "string option list option option"
  cfg_args :: "(double \<times> double \<times> double \<times> double \<times> double \<times> double \<times> double \<times> double \<times> double \<times> double) option"
  cfg_has_args :: bool

text \<open>
  A member that is missing fails an assertion, and so does an entry of the arrays or a set of arguments that
  does not have the expected form.  The result of unpacking \<open>active\<close> is not looked at: a value that is not a
  boolean leaves the 0 of the allocation.  A value that is not an array has no elements to visit.
\<close>

definition json_assert :: "'a option \<Rightarrow> 'a exec" where
  "json_assert x = (case x of None \<Rightarrow> Inl AssertFail | Some v \<Rightarrow> Inr v)"

definition json_unpack_active :: "bool option \<Rightarrow> bool" where
  "json_unpack_active object = (case object of None \<Rightarrow> False | Some b \<Rightarrow> b)"

definition json_array_elems :: "'a list option \<Rightarrow> 'a list" where
  "json_array_elems object = (case object of None \<Rightarrow> [] | Some xs \<Rightarrow> xs)"

definition nrm_control_europar21_create ::
  "(double \<Rightarrow> double) \<Rightarrow> nrm_time \<Rightarrow> bool \<Rightarrow> europar21_config \<Rightarrow> (int \<times> europar21_data option) exec" where
  "nrm_control_europar21_create fexp now calloc_ok config =
     (if \<not> calloc_ok then Inr (- NRM_ENOMEM, None)
      else
        bindE (json_assert (cfg_active config)) (\<lambda>active.
        bindE (json_assert (cfg_inputs config)) (\<lambda>ins.
        bindE (mapE json_assert (json_array_elems ins)) (\<lambda>ins.
        bindE (json_assert (cfg_outputs config)) (\<lambda>outs.
        bindE (mapE json_assert (json_array_elems outs)) (\<lambda>outs.
        bindE (assertE (cfg_has_args config)) (\<lambda>_.
        bindE (json_assert (cfg_args config)) (\<lambda>(a, b, alpha, beta, Kl, t, e, tobj, pmin, pmax).
        let creationtime = nrm_time_gettime now in
        Inr (0, Some \<lparr>ep_active = json_unpack_active active, ep_a = a, ep_b = b, ep_alpha = alpha, ep_beta = beta, ep_Kl = Kl, ep_t = t,
          ep_e = e, ep_tobj = tobj, ep_pcap_max = pmax, ep_pcap_min_L = linearize fexp pmin a b alpha beta,
          ep_pcap_max_L = linearize fexp pmax a b alpha beta, ep_prev_e = DFin 0, ep_lastaction = creationtime,
          ep_inputs = map (\<lambda>(sensor, scope). \<lparr>in_sensor_uuid = sensor, in_scope_uuid = scope, in_since = creationtime,
             in_timeserie = None\<rparr>) ins,
          ep_outputs = map (\<lambda>actuator. \<lparr>out_actuator_uuid = actuator, out_value = DFin 0\<rparr>) outs\<rparr>)))))))))"

text \<open>The table of methods has one entry; a name that is not a string fails an assertion.\<close>

definition nrm_control_create ::
  "(double \<Rightarrow> double) \<Rightarrow> nrm_time \<Rightarrow> bool \<Rightarrow> europar21_config \<Rightarrow> (int \<times> europar21_data option) exec" where
  "nrm_control_create fexp now calloc_ok config =
     bindE (json_assert (cfg_name config)) (\<lambda>name.
     if name = ''europar21'' then nrm_control_europar21_create fexp now calloc_ok config
     else Inr (- NRM_EINVAL, None))"

definition nrm_control_europar21_getargs :: "europar21_data \<Rightarrow> europar21_data" where
  "nrm_control_europar21_getargs d = d\<lparr>ep_inputs := map (\<lambda>i. i\<lparr>in_since := ep_lastaction d\<rparr>) (ep_inputs d)\<rparr>"

definition nrm_control_getargs ::
  "europar21_data option \<Rightarrow> (int \<times> europar21_data \<times> nrm_control_input list \<times> nrm_control_output list) exec" where
  "nrm_control_getargs control =
     bindE (derefE control) (\<lambda>d.
     let d = nrm_control_europar21_getargs d in Inr (0, d, ep_inputs d, ep_outputs d))"


section \<open>Progress\<close>

text \<open>\<open>val / (delta * 1e-9)\<close>, with the literal rounded to a double.\<close>

definition event_freq :: "nrm_event \<Rightarrow> nrm_event \<Rightarrow> double" where
  "event_freq prev e =
     ddiv (ev_value e) (dmul (d_of_int (nrm_time_diff (ev_time prev) (ev_time e))) (rnd (1 / 10 ^ 9)))"

fun freqs_loop :: "nrm_event \<Rightarrow> nrm_event list \<Rightarrow> double list" where
  "freqs_loop prev [] = []"
| "freqs_loop prev (e # es) = event_freq prev e # freqs_loop e es"

definition vector_nth :: "'a list \<Rightarrow> nat \<Rightarrow> 'a exec" where
  "vector_nth xs i = (if i < length xs then Inr (xs ! i) else Inl NullDeref)"

definition nrm_control_europar21_events2progress :: "nrm_event list \<Rightarrow> double exec" where
  "nrm_control_europar21_events2progress events =
     (case events of
        [] \<Rightarrow> Inl NullDeref
      | prev # es \<Rightarrow>
          (let n = length events - 1;
               diffs = qsort_list nrm_vector_sort_double_cmp (freqs_loop prev es) in
           if n mod 2 = 1 then vector_nth diffs (n div 2)
           else if n div 2 = 0 then Inl NullDeref
           else bindE (vector_nth diffs (n div 2 - 1)) (\<lambda>a.
                bindE (vector_nth diffs (n div 2)) (\<lambda>b. Inr (ddiv (dadd a b) (DFin 2))))))"


section \<open>The action\<close>

definition europar21_new_value ::
  "(double \<Rightarrow> double) \<Rightarrow> (double \<Rightarrow> double) \<Rightarrow> europar21_data \<Rightarrow> double \<Rightarrow> double \<Rightarrow> double \<times> double" where
  "europar21_new_value fexp flog d prog pcap =
     (if dlt prog (dmul (dsub (DFin 1) (ep_e d)) (ep_Kl d)) \<or> dlt (dmul (DFin 2) (ep_Kl d)) prog
      then (ep_pcap_max d, DFin 0)
      else
        let pcapL = linearize fexp pcap (ep_a d) (ep_b d) (ep_alpha d) (ep_beta d);
            newe = control_error (ep_e d) (ep_Kl d) (ep_pcap_max_L d) prog;
            actL = actionL (ddiv (DFin 1) (ddiv (dmul (ep_Kl d) (ep_tobj d)) (DFin 3))) (DFin 1)
                     (ddiv (ep_t d) (dmul (ep_Kl d) (ep_tobj d))) newe (ep_prev_e d) pcapL;
            threshold = thresholding actL (ep_pcap_min_L d) (ep_pcap_max_L d)
        in (delinearize flog threshold (ep_a d) (ep_b d) (ep_alpha d) (ep_beta d), newe))"

definition nrm_control_europar21_action ::
  "(double \<Rightarrow> double) \<Rightarrow> (double \<Rightarrow> double) \<Rightarrow> nrm_time \<Rightarrow> europar21_data \<Rightarrow> nrm_control_input list \<Rightarrow> nrm_control_output list \<Rightarrow>
   (int \<times> europar21_data \<times> nrm_control_output list) exec" where
  "nrm_control_europar21_action fexp flog now d inputs outputs =
     (case inputs of
        [] \<Rightarrow> Inr (- NRM_EINVAL, d, outputs)
      | i # _ \<Rightarrow>
          (case nrm_timeserie_get_events (in_timeserie i) of
             None \<Rightarrow> Inr (0, d, outputs)
           | Some events \<Rightarrow>
               if length events \<le> 1 then Inr (0, d, outputs)
               else
                 bindE (nrm_control_europar21_events2progress events) (\<lambda>prog.
                 case outputs of
                   [] \<Rightarrow> Inr (- NRM_EINVAL, d, outputs)
                 | out # rest \<Rightarrow>
                     let (d', out') =
                       (if ep_active d
                        then (case europar21_new_value fexp flog d prog (out_value out) of
                                (v, e) \<Rightarrow> (d\<lparr>ep_prev_e := e\<rparr>, out\<lparr>out_value := v\<rparr>))
                        else (d, out))
                     in Inr (0, d'\<lparr>ep_lastaction := nrm_time_gettime now\<rparr>, out' # rest))))"

definition nrm_control_action ::
  "(double \<Rightarrow> double) \<Rightarrow> (double \<Rightarrow> double) \<Rightarrow> nrm_time \<Rightarrow> europar21_data option \<Rightarrow> nrm_control_input list \<Rightarrow>
   nrm_control_output list \<Rightarrow> (int \<times> europar21_data \<times> nrm_control_output list) exec" where
  "nrm_control_action fexp flog now control inputs outputs =
     bindE (derefE control) (\<lambda>d. nrm_control_europar21_action fexp flog now d inputs outputs)"

definition nrm_control_europar21_destroy :: "europar21_data option option \<Rightarrow> int \<times> europar21_data option option" where
  "nrm_control_europar21_destroy control =
     (0, case control of None \<Rightarrow> None | Some None \<Rightarrow> Some None | Some (Some _) \<Rightarrow> Some None)"

definition nrm_control_destroy :: "europar21_data option option \<Rightarrow> (int \<times> europar21_data option option) exec" where
  "nrm_control_destroy control =
     bindE (derefE control) (\<lambda>c. bindE (derefE c) (\<lambda>_. Inr (nrm_control_europar21_destroy control)))"


section \<open>Lemmas\<close>

lemma thresholding_clamps:
  assumes "dle lo hi"
  shows "dle lo v \<Longrightarrow> dle v hi \<Longrightarrow> thresholding v lo hi = v"
    and "dlt v lo \<Longrightarrow> thresholding v lo hi = lo"
    and "dlt hi v \<Longrightarrow> thresholding v lo hi = hi"
    and "v = DNaN \<Longrightarrow> thresholding v lo hi = hi"
  using dle_not_NaN [OF assms] assms
  by (cases lo; cases hi; cases v; auto simp: thresholding_def dfmax_def dfmin_def dle_def deq_def)+

lemma thresholding_reversed: "dlt hi lo \<Longrightarrow> thresholding v lo hi = lo"
  by (cases lo; cases hi; cases v; auto simp: thresholding_def dfmax_def dfmin_def)

lemma length_freqs_loop [simp]: "length (freqs_loop prev es) = length es"
  by (induction es arbitrary: prev) auto

lemma progress_returns:
  assumes "length events \<ge> 2"
  shows "\<exists>m. nrm_control_europar21_events2progress events = Inr m"
proof -
  obtain p es where e: "events = p # es" "es \<noteq> []" using assms by (cases events; cases "tl events") auto
  then have "length es div 2 < length es" by simp
  moreover have "length es div 2 \<noteq> 0" if "length es mod 2 \<noteq> 1"
    using that e(2) by (cases es; cases "tl es") auto
  ultimately show ?thesis
    using e by (auto simp: nrm_control_europar21_events2progress_def Let_def vector_nth_def)
qed

lemma middle_counts:
  assumes s: "sorted_wrt dle xs" and k: "length xs = 2 * k + 1"
  shows "length (filter (\<lambda>x. dlt x (xs ! k)) xs) \<le> k \<and> length (filter (\<lambda>x. dlt (xs ! k) x) xs) \<le> k"
proof
  have le: "dle (xs ! i) (xs ! j)" if "i < j" "j < length xs" for i j
    using s that by (simp add: sorted_wrt_iff_nth_less)
  have "\<not> dlt x (xs ! k)" if x: "x \<in> set (drop k xs)" for x
  proof -
    obtain i where i: "k + i < length xs" "x = xs ! (k + i)" using x k by (auto simp: in_set_conv_nth)
    then show ?thesis using le [of k "k + i"] dlt_dle_trans [of x "xs ! k" x] by (cases "i = 0") (auto simp: dlt_irrefl)
  qed
  then have "filter (\<lambda>x. dlt x (xs ! k)) (drop k xs) = []" by (simp add: filter_empty_conv)
  then have "filter (\<lambda>x. dlt x (xs ! k)) xs = filter (\<lambda>x. dlt x (xs ! k)) (take k xs)"
    by (metis append_Nil2 append_take_drop_id filter_append)
  then show "length (filter (\<lambda>x. dlt x (xs ! k)) xs) \<le> k"
    by (metis length_filter_le length_take min.cobounded2 order_trans)
  have "\<not> dlt (xs ! k) x" if x: "x \<in> set (take (Suc k) xs)" for x
  proof -
    obtain i where i: "i < Suc k" "x = xs ! i" using x k by (auto simp: in_set_conv_nth)
    then show ?thesis using le [of i k] k dlt_dle_trans [of "xs ! k" x "xs ! k"] by (cases "i = k") (auto simp: dlt_irrefl)
  qed
  then have "filter (\<lambda>x. dlt (xs ! k) x) (take (Suc k) xs) = []" by (simp add: filter_empty_conv)
  then have "filter (\<lambda>x. dlt (xs ! k) x) xs = filter (\<lambda>x. dlt (xs ! k) x) (drop (Suc k) xs)"
    by (metis append_Nil append_take_drop_id filter_append)
  moreover have "length (drop (Suc k) xs) = k" using k by simp
  ultimately show "length (filter (\<lambda>x. dlt (xs ! k) x) xs) \<le> k" by (metis length_filter_le)
qed


section \<open>Properties\<close>

text \<open>
  C29. The control law and its saturation.  An active control that acts on at least two events and has
  an output returns 0, records the time of the action and changes nothing but the first output and its previous
  error.  When the progress is below (1 - e) Kl or above 2 Kl, the output becomes the maximal cap and the
  error 0.  Otherwise the error is \<open>control_error\<close> of the progress, and the output is the cap that corresponds to a
  linearised value x, obtained from the action of the controller: when the linearised bounds are in order, x is the action
  when it lies between them, the lower bound when the action is below it, the upper bound when the action is above it or
  is NaN.  Nothing in the code checks that the bounds are in order: when the upper one is below the lower
  one, x is the lower bound whatever the measurements.
\<close>

theorem nrm_control_action_bounded:
  assumes active: "ep_active d" and ev: "in_timeserie i = Some ts" "length (ts_events ts) \<ge> 2"
  shows "\<exists>prog. nrm_control_europar21_events2progress (ts_events ts) = Inr prog
     \<and> (let newe = control_error (ep_e d) (ep_Kl d) (ep_pcap_max_L d) prog;
            act = actionL (ddiv (DFin 1) (ddiv (dmul (ep_Kl d) (ep_tobj d)) (DFin 3))) (DFin 1)
                    (ddiv (ep_t d) (dmul (ep_Kl d) (ep_tobj d))) newe (ep_prev_e d)
                    (linearize fexp (out_value out) (ep_a d) (ep_b d) (ep_alpha d) (ep_beta d));
            lo = ep_pcap_min_L d; hi = ep_pcap_max_L d
        in if dlt prog (dmul (dsub (DFin 1) (ep_e d)) (ep_Kl d)) \<or> dlt (dmul (DFin 2) (ep_Kl d)) prog
           then nrm_control_europar21_action fexp flog now d (i # is) (out # outs)
              = Inr (0, d\<lparr>ep_prev_e := DFin 0, ep_lastaction := nrm_time_gettime now\<rparr>, out\<lparr>out_value := ep_pcap_max d\<rparr> # outs)
           else \<exists>x. nrm_control_europar21_action fexp flog now d (i # is) (out # outs)
              = Inr (0, d\<lparr>ep_prev_e := newe, ep_lastaction := nrm_time_gettime now\<rparr>,
                     out\<lparr>out_value := delinearize flog x (ep_a d) (ep_b d) (ep_alpha d) (ep_beta d)\<rparr> # outs)
            \<and> (dle lo hi \<longrightarrow> (dle lo act \<and> dle act hi \<longrightarrow> x = act) \<and> (dlt act lo \<longrightarrow> x = lo)
                 \<and> (dlt hi act \<or> act = DNaN \<longrightarrow> x = hi))
            \<and> (dlt hi lo \<longrightarrow> x = lo))"
proof -
  obtain prog where p: "nrm_control_europar21_events2progress (ts_events ts) = Inr prog"
    using progress_returns [OF ev(2)] by blast
  have clamp: "\<exists>x. thresholding v lo hi = x \<and> (dle lo hi \<longrightarrow> (dle lo v \<and> dle v hi \<longrightarrow> x = v) \<and> (dlt v lo \<longrightarrow> x = lo)
      \<and> (dlt hi v \<or> v = DNaN \<longrightarrow> x = hi)) \<and> (dlt hi lo \<longrightarrow> x = lo)" for v lo hi
    using thresholding_clamps thresholding_reversed by blast
  note run = nrm_control_europar21_action_def nrm_timeserie_get_events_def europar21_new_value_def
  show ?thesis
    unfolding Let_def using active ev
    by (intro exI [of _ prog] conjI p) (auto simp: p run Let_def intro!: ex_forward [OF clamp])
qed

definition sample_control :: europar21_data where
  "sample_control = \<lparr>ep_active = True, ep_a = DFin 1, ep_b = DFin 0, ep_alpha = DFin 1, ep_beta = DFin 0, ep_Kl = DFin 1, ep_t = DFin 1,
     ep_e = DFin 1, ep_tobj = DFin 3, ep_pcap_max = DFin 9, ep_pcap_min_L = DFin 1, ep_pcap_max_L = DFin 2, ep_prev_e = DFin 0,
     ep_lastaction = \<lparr>tv_sec = 0, tv_nsec = 0\<rparr>, ep_inputs = [], ep_outputs = []\<rparr>"

definition sample_input :: nrm_control_input where
  "sample_input = \<lparr>in_sensor_uuid = ''s'', in_scope_uuid = ''c'', in_since = \<lparr>tv_sec = 0, tv_nsec = 0\<rparr>, in_timeserie = Some
     \<lparr>ts_sensor_uuid = ''s'', ts_scope = nrm_scope_create ''c'',
      ts_events = [\<lparr>ev_time = \<lparr>tv_sec = 0, tv_nsec = 0\<rparr>, ev_value = DFin 1\<rparr>, \<lparr>ev_time = \<lparr>tv_sec = 1, tv_nsec = 0\<rparr>, ev_value = DNaN\<rparr>],
      ts_start = \<lparr>tv_sec = 0, tv_nsec = 0\<rparr>\<rparr>\<rparr>"

lemma sample_progress: "nrm_control_europar21_events2progress (ts_events (the (in_timeserie sample_input))) = Inr DNaN"
  by (simp add: nrm_control_europar21_events2progress_def sample_input_def event_freq_def vector_nth_def)

theorem nrm_control_action_bounded_witness:
  "\<exists>d'. nrm_control_europar21_action (\<lambda>x. x) (\<lambda>x. x) \<lparr>tv_sec = 2, tv_nsec = 0\<rparr> sample_control [sample_input]
       [\<lparr>out_actuator_uuid = ''a'', out_value = DFin 5\<rparr>]
     = Inr (0, d', [\<lparr>out_actuator_uuid = ''a'', out_value = delinearize (\<lambda>x. x) (DFin 2) (DFin 1) (DFin 0) (DFin 1) (DFin 0)\<rparr>])"
proof -
  have nan: "dadd x DNaN = DNaN" "dmul x DNaN = DNaN" for x by (cases x; simp)+
  have ev: "ep_active sample_control" "in_timeserie sample_input = Some (the (in_timeserie sample_input))"
    "2 \<le> length (ts_events (the (in_timeserie sample_input)))"
    by (simp_all add: sample_control_def sample_input_def)
  show ?thesis
    using nrm_control_action_bounded [OF ev, of "\<lambda>x. x" "\<lparr>out_actuator_uuid = ''a'', out_value = DFin 5\<rparr>" "\<lambda>x. x"
        "\<lparr>tv_sec = 2, tv_nsec = 0\<rparr>" "[]" "[]"]
    by (auto simp: Let_def nan sample_progress sample_control_def control_error_def actionL_def dsub_def dle_def)
qed

text \<open>
  C30. Progress is the median frequency: for an even number of events, at least two, whose
  frequencies are numbers, \<open>nrm_control_europar21_events2progress\<close> returns one of the frequencies of consecutive events, and at
  most half of the others lie strictly below it and at most half strictly above.
\<close>

theorem nrm_control_progress_is_median:
  assumes k: "length es = 2 * k + 1" and num: "\<forall>x \<in> set (freqs_loop p es). x \<noteq> DNaN"
  shows "\<exists>m \<in> set (freqs_loop p es). nrm_control_europar21_events2progress (p # es) = Inr m
     \<and> length (filter (\<lambda>x. dlt x m) (freqs_loop p es)) \<le> k \<and> length (filter (\<lambda>x. dlt m x) (freqs_loop p es)) \<le> k"
proof -
  let ?f = "freqs_loop p es"
  let ?s = "qsort_list nrm_vector_sort_double_cmp ?f"
  have "sorted_wrt dle ?s" using sorted_doubles [of ?f] num by simp
  then have c: "length (filter (\<lambda>x. dlt x (?s ! k)) ?s) \<le> k" "length (filter (\<lambda>x. dlt (?s ! k) x) ?s) \<le> k"
    using middle_counts [of ?s k] k by auto
  have same: "length (filter P ?s) = length (filter P ?f)" for P
    by (metis mset_filter mset_qsort_list size_mset)
  have "nrm_control_europar21_events2progress (p # es) = Inr (?s ! k)"
    using k by (simp add: nrm_control_europar21_events2progress_def vector_nth_def Let_def)
  moreover have "?s ! k \<in> set ?f" using k nth_mem [of k ?s] by simp
  ultimately show ?thesis using c same by auto
qed

lemma rnd_number: "rnd x \<noteq> DNaN"
  by (simp add: rnd_def Let_def)

theorem nrm_control_progress_is_median_witness:
  "\<exists>m. nrm_control_europar21_events2progress [\<lparr>ev_time = \<lparr>tv_sec = 0, tv_nsec = 0\<rparr>, ev_value = DFin 1\<rparr>,
     \<lparr>ev_time = \<lparr>tv_sec = 0, tv_nsec = 1\<rparr>, ev_value = DFin 1\<rparr>] = Inr m"
proof -
  let ?p = "\<lparr>ev_time = \<lparr>tv_sec = 0, tv_nsec = 0\<rparr>, ev_value = DFin 1\<rparr>" and ?e = "\<lparr>ev_time = \<lparr>tv_sec = 0, tv_nsec = 1\<rparr>, ev_value = DFin 1\<rparr>"
  have mul: "dmul (DFin 1) y \<noteq> DNaN" and quot: "ddiv (DFin 1) y \<noteq> DNaN" if "y \<noteq> DNaN" for y
    using that by (cases y; simp add: rnd_number dinf_def)+
  have "d_of_int (nrm_time_diff (ev_time ?p) (ev_time ?e)) = DFin 1"
    using rnd_representable [OF is_double_of_int [of 1]] by (simp add: nrm_time_diff_def s64_def d_of_int_def)
  then have "\<forall>x \<in> set (freqs_loop ?p [?e]). x \<noteq> DNaN"
    by (simp add: event_freq_def mul quot rnd_number)
  from nrm_control_progress_is_median [of "[?e]" 0 ?p, OF _ this] show ?thesis by auto
qed

end
