(* ===== verification/NRM_Hwloc.thy ===== *)
theory NRM_Hwloc
  imports NRM_State
begin

text \<open>
  Scopes from the hardware topology (src/hwloc.c).  hwloc itself is a library: the topology is an
  argument, with what its functions return of it.  The objects of the main hierarchy are at the depths from 0 (the
  machine) to the processing units, in levels by rank; since hwloc 2 the NUMA nodes, and the memory-side caches with them, are not in the
  hierarchy but at virtual depths, which are negative numbers; the operating-system devices are looked up by type.  Names are
  printed into buffers of 128 and 256 bytes and cut there.
\<close>

record hwloc_obj =
  ho_type_name :: string
  ho_is_pu :: bool
  ho_logical_index :: nat
  ho_nodeset :: "nat list"
  ho_cpuset :: "nat list"

record hwloc_osdev =
  hd_is_gpu :: bool
  hd_io_arity :: nat
  hd_name :: string
  hd_cpuset_null :: bool

record hwloc_topology =
  topo_levels :: "hwloc_obj list list"
  topo_virtual :: "(int \<times> hwloc_obj list) list"
  topo_osdevs :: "hwloc_osdev list"

definition hwloc_topology_get_depth :: "hwloc_topology \<Rightarrow> nat" where
  "hwloc_topology_get_depth topo = length (topo_levels topo)"

definition hwloc_objs_at :: "hwloc_topology \<Rightarrow> int \<Rightarrow> hwloc_obj list" where
  "hwloc_objs_at topo depth =
     (if 0 \<le> depth then (if nat depth < length (topo_levels topo) then topo_levels topo ! nat depth else [])
      else (case map_of (topo_virtual topo) depth of None \<Rightarrow> [] | Some objs \<Rightarrow> objs))"

definition hwloc_get_nbobjs_by_depth :: "hwloc_topology \<Rightarrow> int \<Rightarrow> nat" where
  "hwloc_get_nbobjs_by_depth topo depth = length (hwloc_objs_at topo depth)"

definition hwloc_get_obj_by_depth :: "hwloc_topology \<Rightarrow> int \<Rightarrow> nat \<Rightarrow> hwloc_obj option" where
  "hwloc_get_obj_by_depth topo depth rank =
     (if rank < length (hwloc_objs_at topo depth) then Some (hwloc_objs_at topo depth ! rank) else None)"

definition scope_add_all :: "nat \<Rightarrow> nat list \<Rightarrow> nrm_scope \<Rightarrow> nrm_scope exec" where
  "scope_add_all type bits s = foldE (\<lambda>nd s. bindE (nrm_scope_add (Some s) type nd) (\<lambda>(_, s). Inr s)) bits s"

definition hwloc_name :: "string list \<Rightarrow> string" where
  "hwloc_name parts = take 255 (''nrm.hwloc.'' @ concat parts)"

definition hwloc_add :: "nrm_scope \<Rightarrow> nrm_scope nrm_hash \<Rightarrow> nrm_scope nrm_hash exec" where
  "hwloc_add s scopes = bindE (nrm_scope_uuid (Some s)) (\<lambda>u. Inr (snd (nrm_hash_add True scopes u s)))"

text \<open>One object: its own scope and, for a processing unit with several NUMA nodes, one scope per node.\<close>

definition hwloc_pu_node :: "hwloc_obj \<Rightarrow> string \<Rightarrow> nat \<Rightarrow> nrm_scope nrm_hash \<Rightarrow> nrm_scope nrm_hash exec" where
  "hwloc_pu_node obj buffer nd scopes =
     bindE (scope_add_all NRM_SCOPE_TYPE_NUMA [nd]
       (nrm_scope_create (hwloc_name [buffer, ''.'', dec_nat (ho_logical_index obj), ''.'', dec_nat nd]))) (\<lambda>s.
     bindE (scope_add_all NRM_SCOPE_TYPE_CPU (ho_cpuset obj) s) (\<lambda>s. hwloc_add s scopes))"

definition hwloc_object :: "hwloc_obj \<Rightarrow> nrm_scope nrm_hash \<Rightarrow> nrm_scope nrm_hash exec" where
  "hwloc_object obj scopes =
     (let buffer = take 127 (ho_type_name obj) in
      if buffer = ''L2'' \<or> buffer = ''L1d'' then Inr scopes
      else
        bindE (scope_add_all NRM_SCOPE_TYPE_NUMA (ho_nodeset obj)
          (nrm_scope_create (hwloc_name [buffer, ''.'', dec_nat (ho_logical_index obj)]))) (\<lambda>s.
        bindE (scope_add_all NRM_SCOPE_TYPE_CPU (ho_cpuset obj) s) (\<lambda>s.
        bindE (hwloc_add s scopes) (\<lambda>scopes.
        if ho_is_pu obj \<and> length (ho_nodeset obj) > 1
        then foldE (hwloc_pu_node obj buffer) (ho_nodeset obj) scopes
        else Inr scopes))))"

text \<open>The devices: only GPUs count, and only those with subdevices if any has some.\<close>

definition hwloc_subdevices :: "hwloc_osdev list \<Rightarrow> bool" where
  "hwloc_subdevices devs = list_ex (\<lambda>d. hd_is_gpu d \<and> hd_io_arity d \<noteq> 0) devs"

fun hwloc_devices :: "bool \<Rightarrow> nat \<Rightarrow> hwloc_osdev list \<Rightarrow> nrm_scope nrm_hash \<Rightarrow> nrm_scope nrm_hash exec" where
  "hwloc_devices subdevices counter [] scopes = Inr scopes"
| "hwloc_devices subdevices counter (d # ds) scopes =
     bindE (assertE (hd_cpuset_null d)) (\<lambda>_.
     if \<not> hd_is_gpu d \<or> (subdevices \<and> hd_io_arity d = 0) then hwloc_devices subdevices counter ds scopes
     else
       bindE (scope_add_all NRM_SCOPE_TYPE_GPU [counter] (nrm_scope_create (hwloc_name [hd_name d]))) (\<lambda>s.
       bindE (hwloc_add s scopes) (\<lambda>scopes. hwloc_devices subdevices (counter + 1) ds scopes)))"

text \<open>The loop over the objects of one depth.\<close>

definition hwloc_level :: "hwloc_topology \<Rightarrow> nat \<Rightarrow> nrm_scope nrm_hash \<Rightarrow> nrm_scope nrm_hash exec" where
  "hwloc_level topo i =
     foldE (\<lambda>j scopes. bindE (derefE (hwloc_get_obj_by_depth topo (int i) j)) (\<lambda>object. hwloc_object object scopes))
       [0..<hwloc_get_nbobjs_by_depth topo (int i)]"

definition nrm_scope_hwloc_scopes :: "hwloc_topology \<Rightarrow> nrm_scope nrm_hash \<Rightarrow> (int \<times> nrm_scope nrm_hash) exec" where
  "nrm_scope_hwloc_scopes topo scopes =
     bindE (foldE (hwloc_level topo) [0..<hwloc_topology_get_depth topo] scopes) (\<lambda>scopes.
     bindE (hwloc_devices (hwloc_subdevices (topo_osdevs topo)) 0 (topo_osdevs topo) scopes) (\<lambda>scopes. Inr (0, scopes)))"

text \<open>
  The flags of the topology are combined with \<open>&\<close>, which gives 0 for three different bits, so the sets are those
  of the unrestricted topology.
\<close>

definition hwloc_allowed_flags :: "int \<Rightarrow> int \<Rightarrow> int \<Rightarrow> int" where
  "hwloc_allowed_flags thissystem cpubinding membinding = and (and thissystem cpubinding) membinding"

definition nrm_scope_create_hwloc_allowed :: "string \<Rightarrow> nat list \<Rightarrow> nat list \<Rightarrow> nrm_scope exec" where
  "nrm_scope_create_hwloc_allowed name cpuset nodeset =
     bindE (scope_add_all NRM_SCOPE_TYPE_CPU cpuset (nrm_scope_create name)) (\<lambda>s.
     scope_add_all NRM_SCOPE_TYPE_NUMA nodeset s)"


section \<open>What the topology should give\<close>

text \<open>
  The scopes in the order they are added, each as its name and its sets of cpus, NUMA nodes and GPUs.  A bit
  past the size of the bitmaps is not in the set.
\<close>

definition hwloc_bits :: "nat list \<Rightarrow> nat set" where
  "hwloc_bits bits = {b \<in> set bits. b < NRM_BITMAP_MAX}"

definition object_spec :: "hwloc_obj \<Rightarrow> (string \<times> nat set \<times> nat set \<times> nat set) list" where
  "object_spec obj =
     (let type = take 127 (ho_type_name obj); index = dec_nat (ho_logical_index obj) in
      if type \<in> {''L2'', ''L1d''} then []
      else (hwloc_name [type, ''.'', index], hwloc_bits (ho_cpuset obj), hwloc_bits (ho_nodeset obj), {})
        # (if ho_is_pu obj \<and> length (ho_nodeset obj) > 1
           then map (\<lambda>nd. (hwloc_name [type, ''.'', index, ''.'', dec_nat nd], hwloc_bits (ho_cpuset obj), hwloc_bits [nd], {})) (ho_nodeset obj)
           else []))"

text \<open>The GPUs are those with subdevices when some have, and all of them otherwise; they are numbered in order.\<close>

definition gpu_devices :: "bool \<Rightarrow> hwloc_osdev list \<Rightarrow> hwloc_osdev list" where
  "gpu_devices subdevices devs = filter (\<lambda>d. hd_is_gpu d \<and> (subdevices \<longrightarrow> hd_io_arity d \<noteq> 0)) devs"

definition devices_spec :: "bool \<Rightarrow> nat \<Rightarrow> hwloc_osdev list \<Rightarrow> (string \<times> nat set \<times> nat set \<times> nat set) list" where
  "devices_spec subdevices counter devs =
     map (\<lambda>(i, d). (hwloc_name [hd_name d], {}, {}, hwloc_bits [i])) (enumerate counter (gpu_devices subdevices devs))"

definition topology_spec :: "hwloc_topology \<Rightarrow> (string \<times> nat set \<times> nat set \<times> nat set) list" where
  "topology_spec topo =
     concat (map object_spec (concat (topo_levels topo)))
     @ devices_spec (\<exists>d \<in> set (topo_osdevs topo). hd_is_gpu d \<and> hd_io_arity d \<noteq> 0) 0 (topo_osdevs topo)"

definition scope_sets :: "nrm_scope \<Rightarrow> nat set \<times> nat set \<times> nat set" where
  "scope_sets s =
     ({i. bitmap_mem (maps s ! NRM_SCOPE_TYPE_CPU) i}, {i. bitmap_mem (maps s ! NRM_SCOPE_TYPE_NUMA) i},
      {i. bitmap_mem (maps s ! NRM_SCOPE_TYPE_GPU) i})"

text \<open>
  A table \<open>h'\<close> extends \<open>h\<close> by the scopes of a specification: what was there stays, of several scopes of one name
  the first one counts, and there is nothing else.
\<close>

definition scopes_added :: "nrm_scope nrm_hash \<Rightarrow> (string \<times> nat set \<times> nat set \<times> nat set) list \<Rightarrow> nrm_scope nrm_hash \<Rightarrow> bool" where
  "scopes_added h spec h' \<longleftrightarrow> table_wf scope_uuid scope_wf h' \<and>
     (\<forall>u. case map_of h u of
            Some v \<Rightarrow> map_of h' u = Some v
          | None \<Rightarrow> map_option scope_sets (map_of h' u) = map_of spec u)"


section \<open>Lemmas\<close>

lemma scope_add_all_ok:
  assumes "scope_wf s" and "type < NRM_SCOPE_TYPE_MAX"
  shows "\<exists>s'. scope_add_all type bits s = Inr s' \<and> scope_wf s' \<and> scope_uuid s' = scope_uuid s
     \<and> (\<forall>k i. k < NRM_SCOPE_TYPE_MAX \<longrightarrow>
          bitmap_mem (maps s' ! k) i \<longleftrightarrow> bitmap_mem (maps s ! k) i \<or> (k = type \<and> i \<in> hwloc_bits bits))"
  using assms(1)
proof (induction bits arbitrary: s)
  case (Cons b bs)
  let ?s1 = "s\<lparr>maps := (maps s)[type := bitmap_add (maps s ! type) b]\<rparr>"
  note s1 = nrm_scope_add_ok [OF Cons.prems assms(2), of b]
  have wf1: "scope_wf ?s1" by (rule scope_wf_add [OF Cons.prems s1])
  have len: "length (maps s) = NRM_SCOPE_TYPE_MAX" using Cons.prems by (simp add: scope_wf_def)
  have m: "bitmap_mem (maps ?s1 ! k) i \<longleftrightarrow> bitmap_mem (maps s ! k) i \<or> (k = type \<and> i = b \<and> b < NRM_BITMAP_MAX)"
    if "k < NRM_SCOPE_TYPE_MAX" for k i
    using that len assms(2) scope_map_wf [OF Cons.prems assms(2)] by (cases "k = type") (auto simp: bm.insert_mem)
  obtain s' where s': "scope_add_all type bs ?s1 = Inr s'" "scope_wf s'" "scope_uuid s' = scope_uuid ?s1"
    "\<And>k i. k < NRM_SCOPE_TYPE_MAX \<Longrightarrow>
       bitmap_mem (maps s' ! k) i \<longleftrightarrow> bitmap_mem (maps ?s1 ! k) i \<or> (k = type \<and> i \<in> hwloc_bits bs)"
    using Cons.IH [OF wf1] by blast
  have "bitmap_mem (maps s' ! k) i \<longleftrightarrow> bitmap_mem (maps s ! k) i \<or> (k = type \<and> i \<in> hwloc_bits (b # bs))"
    if "k < NRM_SCOPE_TYPE_MAX" for k i
    unfolding s'(4) [OF that] m [OF that] by (auto simp: hwloc_bits_def)
  then show ?case using s' s1 by (simp add: scope_add_all_def)
qed (simp add: scope_add_all_def hwloc_bits_def)

lemma scopes_added_wf: "scopes_added h spec h' \<Longrightarrow> table_wf scope_uuid scope_wf h'"
  by (simp add: scopes_added_def)

lemma scopes_added_Nil: "table_wf scope_uuid scope_wf h \<Longrightarrow> scopes_added h [] h"
  by (simp add: scopes_added_def split: option.split)

lemma scopes_added_append:
  assumes 1: "scopes_added h s1 h1" and 2: "scopes_added h1 s2 h2"
  shows "scopes_added h (s1 @ s2) h2"
proof -
  have "case map_of h u of Some v \<Rightarrow> map_of h2 u = Some v
      | None \<Rightarrow> map_option scope_sets (map_of h2 u) = map_of (s1 @ s2) u" for u
    using 1 2 unfolding scopes_added_def by (auto simp: map_add_def split: option.splits dest!: spec [where x = u])
  then show ?thesis using scopes_added_wf [OF 2] by (simp add: scopes_added_def)
qed

lemma hwloc_add_ok:
  assumes "table_wf scope_uuid scope_wf h" and "scope_wf s"
  shows "\<exists>h'. hwloc_add s h = Inr h' \<and> scopes_added h [(scope_uuid s, scope_sets s)] h'"
  using table_wf_add [OF assms]
  by (auto simp: hwloc_add_def nrm_scope_uuid_def scopes_added_def nrm_hash_add_map_of map_add_def split: option.splits)

lemma named_scope_ok:
  assumes h: "table_wf scope_uuid scope_wf h"
  shows "\<exists>h'. bindE (scope_add_all NRM_SCOPE_TYPE_NUMA xs (nrm_scope_create n))
      (\<lambda>s. bindE (scope_add_all NRM_SCOPE_TYPE_CPU ys s) (\<lambda>s. hwloc_add s h)) = Inr h'
    \<and> scopes_added h [(n, hwloc_bits ys, hwloc_bits xs, {})] h'"
proof -
  have t: "NRM_SCOPE_TYPE_NUMA < NRM_SCOPE_TYPE_MAX" "NRM_SCOPE_TYPE_CPU < NRM_SCOPE_TYPE_MAX" "NRM_SCOPE_TYPE_GPU < NRM_SCOPE_TYPE_MAX"
    by (simp_all add: scope_consts)
  have z: "\<not> bitmap_mem (maps (nrm_scope_create n) ! k) i" if "k < NRM_SCOPE_TYPE_MAX" for k i
    using that by (simp add: nrm_scope_create_def bm.empty_mem)
  obtain s1 where s1: "scope_add_all NRM_SCOPE_TYPE_NUMA xs (nrm_scope_create n) = Inr s1" "scope_wf s1" "scope_uuid s1 = n"
    "\<And>k i. k < NRM_SCOPE_TYPE_MAX \<Longrightarrow> bitmap_mem (maps s1 ! k) i \<longleftrightarrow> k = NRM_SCOPE_TYPE_NUMA \<and> i \<in> hwloc_bits xs"
    using scope_add_all_ok [OF scope_wf_create t(1), of xs n] z by (auto simp: nrm_scope_create_def)
  obtain s2 where s2: "scope_add_all NRM_SCOPE_TYPE_CPU ys s1 = Inr s2" "scope_wf s2" "scope_uuid s2 = n"
    "\<And>k i. k < NRM_SCOPE_TYPE_MAX \<Longrightarrow> bitmap_mem (maps s2 ! k) i \<longleftrightarrow> bitmap_mem (maps s1 ! k) i \<or> (k = NRM_SCOPE_TYPE_CPU \<and> i \<in> hwloc_bits ys)"
    using scope_add_all_ok [OF s1(2) t(2), of ys] s1(3) by auto
  have "scope_sets s2 = (hwloc_bits ys, hwloc_bits xs, {})"
    using s1(4) s2(4) t by (simp add: scope_sets_def) (simp add: scope_consts)
  with hwloc_add_ok [OF h s2(2)] s1 s2 show ?thesis by auto
qed

lemma named_gpu_ok:
  assumes h: "table_wf scope_uuid scope_wf h"
  shows "\<exists>h'. bindE (scope_add_all NRM_SCOPE_TYPE_GPU xs (nrm_scope_create n)) (\<lambda>s. hwloc_add s h) = Inr h'
    \<and> scopes_added h [(n, {}, {}, hwloc_bits xs)] h'"
proof -
  have t: "NRM_SCOPE_TYPE_NUMA < NRM_SCOPE_TYPE_MAX" "NRM_SCOPE_TYPE_CPU < NRM_SCOPE_TYPE_MAX" "NRM_SCOPE_TYPE_GPU < NRM_SCOPE_TYPE_MAX"
    by (simp_all add: scope_consts)
  obtain s1 where s1: "scope_add_all NRM_SCOPE_TYPE_GPU xs (nrm_scope_create n) = Inr s1" "scope_wf s1" "scope_uuid s1 = n"
    "\<And>k i. k < NRM_SCOPE_TYPE_MAX \<Longrightarrow> bitmap_mem (maps s1 ! k) i \<longleftrightarrow> k = NRM_SCOPE_TYPE_GPU \<and> i \<in> hwloc_bits xs"
    using scope_add_all_ok [OF scope_wf_create t(3), of xs n] by (auto simp: nrm_scope_create_def bm.empty_mem)
  have "scope_sets s1 = ({}, {}, hwloc_bits xs)" using s1(4) t by (simp add: scope_sets_def) (simp add: scope_consts)
  with hwloc_add_ok [OF h s1(2)] s1 show ?thesis by auto
qed

lemma foldE_adds:
  assumes "\<And>x h. x \<in> set xs \<Longrightarrow> table_wf scope_uuid scope_wf h \<Longrightarrow> \<exists>h'. f x h = Inr h' \<and> scopes_added h (spec x) h'"
    and "table_wf scope_uuid scope_wf h"
  shows "\<exists>h'. foldE f xs h = Inr h' \<and> scopes_added h (concat (map spec xs)) h'"
  using assms
proof (induction xs arbitrary: h)
  case (Cons x xs)
  obtain h1 where h1: "f x h = Inr h1" "scopes_added h (spec x) h1" using Cons.prems(1) [of x h] Cons.prems(2) by auto
  with Cons.IH [OF _ scopes_added_wf [OF h1(2)]] Cons.prems(1) obtain h2 where "foldE f xs h1 = Inr h2" "scopes_added h1 (concat (map spec xs)) h2" by auto
  with h1 scopes_added_append [OF h1(2)] show ?case by auto
qed (simp add: scopes_added_Nil)

lemma hwloc_object_ok:
  assumes h: "table_wf scope_uuid scope_wf h"
  shows "\<exists>h'. hwloc_object obj h = Inr h' \<and> scopes_added h (object_spec obj) h'"
proof (cases "take 127 (ho_type_name obj) \<in> {''L2'', ''L1d''}")
  case True
  then show ?thesis using h by (auto simp: hwloc_object_def object_spec_def Let_def scopes_added_Nil)
next
  case False
  let ?b = "take 127 (ho_type_name obj)" and ?i = "dec_nat (ho_logical_index obj)"
  let ?n = "hwloc_name [?b, ''.'', ?i]"
  obtain h1 where h1: "bindE (scope_add_all NRM_SCOPE_TYPE_NUMA (ho_nodeset obj) (nrm_scope_create ?n))
      (\<lambda>s. bindE (scope_add_all NRM_SCOPE_TYPE_CPU (ho_cpuset obj) s) (\<lambda>s. hwloc_add s h)) = Inr h1"
    "scopes_added h [(?n, hwloc_bits (ho_cpuset obj), hwloc_bits (ho_nodeset obj), {})] h1"
    using named_scope_ok [OF h] by blast
  let ?spec = "\<lambda>nd. [(hwloc_name [?b, ''.'', ?i, ''.'', dec_nat nd], hwloc_bits (ho_cpuset obj), hwloc_bits [nd], {} :: nat set)]"
  have "\<exists>h'. hwloc_pu_node obj ?b nd h = Inr h' \<and> scopes_added h (?spec nd) h'" if "table_wf scope_uuid scope_wf h" for nd h
    unfolding hwloc_pu_node_def by (rule named_scope_ok [OF that])
  from foldE_adds [of "ho_nodeset obj" "hwloc_pu_node obj ?b" ?spec, OF this scopes_added_wf [OF h1(2)]]
  obtain h2 where h2: "foldE (hwloc_pu_node obj ?b) (ho_nodeset obj) h1 = Inr h2" "scopes_added h1 (map (hd \<circ> ?spec) (ho_nodeset obj)) h2"
    by (auto simp: concat_map_singleton comp_def)
  show ?thesis
    using False h1 h2 scopes_added_append [OF h1(2) h2(2)]
    by (auto simp: hwloc_object_def object_spec_def Let_def comp_def bindE_assoc [symmetric] elim!: bindE_eq_InrE)
qed

lemma devices_spec_Cons:
  "devices_spec sub c (d # ds) = (if \<not> hd_is_gpu d \<or> (sub \<and> hd_io_arity d = 0) then devices_spec sub c ds
     else (hwloc_name [hd_name d], {}, {}, hwloc_bits [c]) # devices_spec sub (Suc c) ds)"
  by (cases sub) (auto simp: devices_spec_def gpu_devices_def)

lemma hwloc_devices_ok:
  assumes "table_wf scope_uuid scope_wf h" and "\<forall>d \<in> set ds. hd_cpuset_null d"
  shows "\<exists>h'. hwloc_devices sub c ds h = Inr h' \<and> scopes_added h (devices_spec sub c ds) h'"
  using assms
proof (induction ds arbitrary: c h)
  case Nil
  then show ?case by (simp add: devices_spec_def gpu_devices_def scopes_added_Nil)
next
  case (Cons d ds)
  show ?case
  proof (cases "\<not> hd_is_gpu d \<or> (sub \<and> hd_io_arity d = 0)")
    case True
    then show ?thesis using Cons by (auto simp: devices_spec_Cons)
  next
    case False
    obtain h1 where h1: "bindE (scope_add_all NRM_SCOPE_TYPE_GPU [c] (nrm_scope_create (hwloc_name [hd_name d]))) (\<lambda>s. hwloc_add s h) = Inr h1"
      "scopes_added h [(hwloc_name [hd_name d], {}, {}, hwloc_bits [c])] h1"
      using named_gpu_ok [OF Cons.prems(1)] by blast
    from Cons.IH [OF scopes_added_wf [OF h1(2)], of "Suc c"] Cons.prems(2) obtain h2 where
      "hwloc_devices sub (Suc c) ds h1 = Inr h2" "scopes_added h1 (devices_spec sub (Suc c) ds) h2" by auto
    with h1 scopes_added_append [OF h1(2)] False Cons.prems(2) show ?thesis
      by (auto simp: devices_spec_Cons bindE_assoc [symmetric] elim!: bindE_eq_InrE)
  qed
qed

lemma hwloc_subdevices_iff: "hwloc_subdevices devs \<longleftrightarrow> (\<exists>d \<in> set devs. hd_is_gpu d \<and> hd_io_arity d \<noteq> 0)"
  by (simp add: hwloc_subdevices_def list_ex_iff)

text \<open>The loops over depths and ranks visit the objects of the hierarchy, level by level.\<close>

lemma foldE_nth: "foldE (\<lambda>j. f (xs ! j)) [0..<length xs] s = foldE f xs s"
  using foldE_map [of f "\<lambda>j. xs ! j" "[0..<length xs]" s] by (simp add: map_nth)

lemma hwloc_level_objs:
  assumes "i < length (topo_levels topo)"
  shows "hwloc_level topo i h = foldE hwloc_object (topo_levels topo ! i) h"
proof -
  have o: "hwloc_objs_at topo (int i) = topo_levels topo ! i" using assms by (simp add: hwloc_objs_at_def)
  have "hwloc_level topo i h = foldE (\<lambda>j. hwloc_object (topo_levels topo ! i ! j)) [0..<length (topo_levels topo ! i)] h"
    unfolding hwloc_level_def hwloc_get_nbobjs_by_depth_def o by (rule foldE_cong) (simp add: hwloc_get_obj_by_depth_def o)
  then show ?thesis by (simp add: foldE_nth)
qed

lemma hwloc_levels_ok:
  assumes "table_wf scope_uuid scope_wf h"
  shows "\<exists>h'. foldE (hwloc_level topo) [0..<hwloc_topology_get_depth topo] h = Inr h'
    \<and> scopes_added h (concat (map object_spec (concat (topo_levels topo)))) h'"
proof -
  let ?spec = "\<lambda>objs. concat (map object_spec objs)"
  have "foldE (hwloc_level topo) [0..<hwloc_topology_get_depth topo] h = foldE (foldE hwloc_object) (topo_levels topo) h"
    unfolding hwloc_topology_get_depth_def foldE_nth [of "foldE hwloc_object" "topo_levels topo", symmetric]
    by (rule foldE_cong) (simp add: hwloc_level_objs)
  moreover have "\<exists>h'. foldE (foldE hwloc_object) (topo_levels topo) h = Inr h' \<and> scopes_added h (concat (map ?spec (topo_levels topo))) h'"
    using hwloc_object_ok assms by (intro foldE_adds) auto
  moreover have "concat (map ?spec xss) = ?spec (concat xss)" for xss by (induction xss) simp_all
  ultimately show ?thesis by simp
qed

lemma hwloc_devices_null: "hwloc_devices sub c ds h = Inr h' \<Longrightarrow> \<forall>d \<in> set ds. hd_cpuset_null d"
  by (induction sub c ds h rule: hwloc_devices.induct) (auto simp: bindE_eq_Inr split: if_splits)

lemma hwloc_scopes_ok:
  assumes "table_wf scope_uuid scope_wf h" and "\<forall>d \<in> set (topo_osdevs topo). hd_cpuset_null d"
  shows "\<exists>h'. nrm_scope_hwloc_scopes topo h = Inr (0, h') \<and> scopes_added h (topology_spec topo) h'"
proof -
  obtain h1 where h1: "foldE (hwloc_level topo) [0..<hwloc_topology_get_depth topo] h = Inr h1"
    "scopes_added h (concat (map object_spec (concat (topo_levels topo)))) h1"
    using hwloc_levels_ok [OF assms(1)] by blast
  from hwloc_devices_ok [OF scopes_added_wf [OF h1(2)] assms(2)] obtain h2 where
    "hwloc_devices (hwloc_subdevices (topo_osdevs topo)) 0 (topo_osdevs topo) h1 = Inr h2"
    "scopes_added h1 (devices_spec (hwloc_subdevices (topo_osdevs topo)) 0 (topo_osdevs topo)) h2" by blast
  then show ?thesis
    using h1 scopes_added_append [OF h1(2)] by (auto simp: nrm_scope_hwloc_scopes_def topology_spec_def hwloc_subdevices_iff)
qed

lemma hwloc_scopes_wf:
  assumes "table_wf scope_uuid scope_wf h" and "nrm_scope_hwloc_scopes topo h = Inr (rc, h')"
  shows "table_wf scope_uuid scope_wf h'"
proof -
  have "\<forall>d \<in> set (topo_osdevs topo). hd_cpuset_null d"
    using assms(2) hwloc_devices_null by (auto simp: nrm_scope_hwloc_scopes_def bindE_eq_Inr)
  from hwloc_scopes_ok [OF assms(1) this] assms(2) show ?thesis using scopes_added_wf by auto
qed

lemma hwloc_machine_name: "hwloc_name [''Machine'', ''.'', dec_nat 0] = ''nrm.hwloc.Machine.0''"
proof -
  have "char_of (48 :: nat) = CHR ''0''" by code_simp
  then have "dec_nat 0 = ''0''" by (simp add: dec_nat.simps [of 0])
  then show ?thesis by (simp add: hwloc_name_def)
qed


section \<open>Properties\<close>

text \<open>
  C32. The topology becomes exactly the scopes it should: for every topology whose devices have no cpuset,
  \<open>nrm_scope_hwloc_scopes\<close> returns 0, keeps the table's invariant and every scope that was there, and under a name that was free there is
  the first scope of that name in the list \<open>topology_spec\<close>, and nothing when the list has none.  The list has, by depth and
  rank, one scope for every object of the hierarchy except the L1d and L2 caches, with exactly the cpus and the NUMA
  nodes of the object below the size of the bitmaps; after it, for a processing unit near several nodes, one scope for each
  node, with the cpus of the unit and that node alone; then one scope for each GPU, numbered in order from 0, only
  those with subdevices counting when some have.  The objects at virtual depths (the NUMA nodes, since hwloc 2) are
  never visited: they make no difference.
\<close>

theorem nrm_scope_hwloc_scopes_complete:
  assumes h: "table_wf scope_uuid scope_wf h" and dev: "\<forall>d \<in> set (topo_osdevs topo). hd_cpuset_null d"
  shows "\<exists>h'. nrm_scope_hwloc_scopes topo h = Inr (0, h') \<and> table_wf scope_uuid scope_wf h'
     \<and> (\<forall>u. case map_of h u of
              Some v \<Rightarrow> map_of h' u = Some v
            | None \<Rightarrow> map_option scope_sets (map_of h' u) = map_of (topology_spec topo) u)
     \<and> nrm_scope_hwloc_scopes (topo\<lparr>topo_virtual := objs\<rparr>) h = Inr (0, h')"
proof -
  obtain h' where h': "nrm_scope_hwloc_scopes topo h = Inr (0, h')" "scopes_added h (topology_spec topo) h'"
    using hwloc_scopes_ok [OF assms] by blast
  have same: "hwloc_objs_at (topo\<lparr>topo_virtual := objs\<rparr>) (int i) = hwloc_objs_at topo (int i)" for i
    by (simp add: hwloc_objs_at_def)
  have "hwloc_level (topo\<lparr>topo_virtual := objs\<rparr>) i = hwloc_level topo i" for i
    unfolding hwloc_level_def hwloc_get_obj_by_depth_def hwloc_get_nbobjs_by_depth_def same by (rule refl)
  then have "hwloc_level (topo\<lparr>topo_virtual := objs\<rparr>) = hwloc_level topo" by (rule ext)
  then have "nrm_scope_hwloc_scopes (topo\<lparr>topo_virtual := objs\<rparr>) h = Inr (0, h')"
    using h'(1) by (simp add: nrm_scope_hwloc_scopes_def hwloc_topology_get_depth_def)
  then show ?thesis using h' by (auto simp: scopes_added_def)
qed

text \<open>A machine of two cpus at one node, one GPU and the node at its virtual depth.\<close>

definition sample_topology :: hwloc_topology where
  "sample_topology = \<lparr>topo_levels = [[\<lparr>ho_type_name = ''Machine'', ho_is_pu = False, ho_logical_index = 0,
       ho_nodeset = [0], ho_cpuset = [0, 1]\<rparr>]], topo_virtual = [(-3, [\<lparr>ho_type_name = ''NUMANode'', ho_is_pu = False, ho_logical_index = 0,
       ho_nodeset = [0], ho_cpuset = [0, 1]\<rparr>])],
     topo_osdevs = [\<lparr>hd_is_gpu = True, hd_io_arity = 0, hd_name = ''cuda0'', hd_cpuset_null = True\<rparr>]\<rparr>"

theorem nrm_scope_hwloc_scopes_complete_witness:
  "\<exists>h'. nrm_scope_hwloc_scopes sample_topology [] = Inr (0, h')
     \<and> map_option scope_sets (map_of h' ''nrm.hwloc.Machine.0'') = Some ({0, 1}, {0}, {})
     \<and> map_option scope_sets (map_of h' ''nrm.hwloc.cuda0'') = Some ({}, {}, {0})
     \<and> map_of h' ''nrm.hwloc.NUMANode.0'' = None"
proof -
  have spec: "topology_spec sample_topology = [(''nrm.hwloc.Machine.0'', {0, 1}, {0}, {}), (''nrm.hwloc.cuda0'', {}, {}, {0})]"
    by (auto simp: topology_spec_def sample_topology_def object_spec_def devices_spec_def gpu_devices_def hwloc_machine_name
        hwloc_bits_def NRM_BITMAP_MAX_def) (simp_all add: hwloc_name_def)
  have t: "table_wf scope_uuid scope_wf []" "\<forall>d \<in> set (topo_osdevs sample_topology). hd_cpuset_null d"
    by (simp_all add: table_wf_def hash_wf_def sample_topology_def)
  obtain h' where h': "nrm_scope_hwloc_scopes sample_topology [] = Inr (0, h')"
    "\<And>u. map_option scope_sets (map_of h' u) = map_of (topology_spec sample_topology) u"
    using nrm_scope_hwloc_scopes_complete [OF t] by auto
  have "map_option scope_sets (map_of h' ''nrm.hwloc.Machine.0'') = Some ({0, 1}, {0}, {})"
    "map_option scope_sets (map_of h' ''nrm.hwloc.cuda0'') = Some ({}, {}, {0})"
    "map_option scope_sets (map_of h' ''nrm.hwloc.NUMANode.0'') = None"
    unfolding h'(2) spec by simp_all
  then show ?thesis using h'(1) by (intro exI [of _ h'] conjI) simp_all
qed

end
