(* ===== verification/NRM_Daemon.thy ===== *)
theory NRM_Daemon
  imports NRM_Server NRM_Control NRM_Hwloc
begin

text \<open>
  The daemon (src/binaries/nrmd.c): the callbacks it installs in the server and its start.

  The global \<open>my_daemon\<close> is the user state of the server; its pointer to the state is the server's own.  Every
  call of \<open>nrm_time_gettime\<close> takes the next reading of \<open>dm_clock\<close>, an arbitrary sequence.  The scope
  variable of the control tick is not initialised, so reading it after a lookup that did not find anything
  is \<open>Uninit\<close>.
\<close>

record nrmd =
  dm_events :: nrm_eventbase
  dm_control :: "europar21_data option"
  dm_mysensor :: nrm_sensor
  dm_myscope :: nrm_scope
  dm_mytopic :: string
  dm_eventtopic :: string
  dm_clock :: "nat \<Rightarrow> nrm_time"
  dm_reads :: nat

type_synonym nrmd_server = "nrmd nrm_server"

definition nrmd_gettime :: "nrmd_server \<Rightarrow> nrm_time \<times> nrmd_server" where
  "nrmd_gettime s = (let d = srv_user s in
     (nrm_time_gettime (dm_clock d (dm_reads d)), s\<lparr>srv_user := d\<lparr>dm_reads := Suc (dm_reads d)\<rparr>\<rparr>))"


section \<open>The callbacks\<close>

definition nrmd_event_callback ::
  "nrmd_server \<Rightarrow> string \<Rightarrow> nrm_scope option \<Rightarrow> nrm_time \<Rightarrow> double \<Rightarrow> (int \<times> nrmd_server) exec" where
  "nrmd_event_callback s uuid scope time value =
     bindE (nrm_eventbase_push_event (Some (dm_events (srv_user s))) (Some uuid) scope time value) (\<lambda>(_, eb).
     bindE (derefE eb) (\<lambda>eb.
     let s = s\<lparr>srv_user := (srv_user s)\<lparr>dm_events := eb\<rparr>\<rparr> in
     bindE (nrm_server_publish (Some (dm_eventtopic (srv_user s))) time (Some uuid) scope value (Some s)) (\<lambda>(_, s).
     bindE (derefE s) (\<lambda>s. Inr (0, s)))))"

definition nrmd_actuate_callback :: "nrmd_server \<Rightarrow> nrm_actuator \<Rightarrow> double \<Rightarrow> (int \<times> nrmd_server) exec" where
  "nrmd_actuate_callback s a value = Inr (0, s)"

definition nrmd_actuator_value :: "nrmd_server \<Rightarrow> string \<Rightarrow> double exec" where
  "nrmd_actuator_value s uuid =
     (case snd (nrm_hash_find (st_actuators (srv_state s)) (Some uuid) True) of
        Some a \<Rightarrow> nrm_actuator_value (Some a)
      | None \<Rightarrow> Inr (DFin 0))"

text \<open>The first loop of the tick: the time series of every input.\<close>

fun nrmd_pull_inputs :: "nrm_control_input list \<Rightarrow> nrmd_server \<Rightarrow> (nrm_control_input list \<times> nrmd_server) exec" where
  "nrmd_pull_inputs [] s = Inr ([], s)"
| "nrmd_pull_inputs (i # is) s =
     bindE (case snd (nrm_hash_find (st_scopes (srv_state s)) (Some (in_scope_uuid i)) True) of
              None \<Rightarrow> Inl Uninit | Some sc \<Rightarrow> Inr sc) (\<lambda>scope.
     case nrmd_gettime s of (now, s) \<Rightarrow>
     bindE (nrm_eventbase_pull_timeserie now (Some (dm_events (srv_user s))) (Some (in_sensor_uuid i)) (Some scope) (in_since i)) (\<lambda>(_, ts).
     bindE (nrmd_pull_inputs is s) (\<lambda>(is, s). Inr (i\<lparr>in_timeserie := ts\<rparr> # is, s))))"

definition nrmd_fill_output :: "nrmd_server \<Rightarrow> nrm_control_output \<Rightarrow> nrm_control_output exec" where
  "nrmd_fill_output s out = bindE (nrmd_actuator_value s (out_actuator_uuid out)) (\<lambda>v. Inr (out\<lparr>out_value := v\<rparr>))"

definition nrmd_actuate_output :: "nrm_control_output \<Rightarrow> nrmd_server \<Rightarrow> nrmd_server exec" where
  "nrmd_actuate_output out s =
     bindE (nrm_server_actuate (Some (out_actuator_uuid out)) (out_value out) s) (\<lambda>(_, s). Inr s)"

definition nrmd_control_tick :: "(double \<Rightarrow> double) \<Rightarrow> (double \<Rightarrow> double) \<Rightarrow> nrmd_server \<Rightarrow> (int \<times> nrmd_server) exec" where
  "nrmd_control_tick fexp flog s =
     (case nrmd_gettime s of (now, s) \<Rightarrow>
      bindE (nrm_control_getargs (dm_control (srv_user s))) (\<lambda>(_, d, inputs, outputs).
      bindE (nrmd_pull_inputs inputs s) (\<lambda>(inputs, s).
      bindE (mapE (nrmd_fill_output s) outputs) (\<lambda>outputs.
      case nrmd_gettime s of (t, s) \<Rightarrow>
      bindE (nrm_control_action fexp flog t (Some (d\<lparr>ep_inputs := inputs\<rparr>)) inputs outputs) (\<lambda>(_, d, outputs).
      let s = s\<lparr>srv_user := (srv_user s)\<lparr>dm_control := Some (d\<lparr>ep_outputs := outputs\<rparr>)\<rparr>\<rparr> in
      bindE (foldE nrmd_actuate_output outputs s) (\<lambda>s.
      bindE (derefE (snd (nrm_eventbase_tick (Some (dm_events (srv_user s))) now))) (\<lambda>eb.
      Inr (0, s\<lparr>srv_user := (srv_user s)\<lparr>dm_events := eb\<rparr>\<rparr>))))))))"

definition nrmd_tick_callback :: "(double \<Rightarrow> double) \<Rightarrow> (double \<Rightarrow> double) \<Rightarrow> nrmd_server \<Rightarrow> (int \<times> nrmd_server) exec" where
  "nrmd_tick_callback fexp flog s =
     (if dm_control (srv_user s) = None then Inr (0, s)
      else bindE (nrmd_control_tick fexp flog s) (\<lambda>(_, s). Inr (0, s)))"

definition nrmd_timer_callback :: "(double \<Rightarrow> double) \<Rightarrow> (double \<Rightarrow> double) \<Rightarrow> nrmd_server \<Rightarrow> (int \<times> nrmd_server) exec" where
  "nrmd_timer_callback fexp flog s =
     (case nrmd_gettime s of (now, s) \<Rightarrow>
      bindE (nrm_server_publish (Some (dm_mytopic (srv_user s))) now (Some (sensor_uuid (dm_mysensor (srv_user s))))
               (Some (dm_myscope (srv_user s))) (DFin 1) (Some s)) (\<lambda>(_, s).
      bindE (derefE s) (\<lambda>s.
      if dm_control (srv_user s) = None then Inr (0, s)
      else bindE (nrmd_control_tick fexp flog s) (\<lambda>(_, s). Inr (0, s)))))"

definition nrmd_callbacks :: "(double \<Rightarrow> double) \<Rightarrow> (double \<Rightarrow> double) \<Rightarrow> nrmd nrm_server_user_callbacks" where
  "nrmd_callbacks fexp flog =
     all_callbacks nrmd_event_callback nrmd_actuate_callback None (nrmd_timer_callback fexp flog) (nrmd_tick_callback fexp flog)"


section \<open>The start of the daemon\<close>

text \<open>
  \<open>main\<close> after the arguments were parsed: \<open>config\<close> is \<open>None\<close> when no file was given; a file that
  cannot be loaded fails an assertion; a file without a control member leaves \<open>control_config\<close>
  unset before it is tested.  The result is the server ready to start and the period of its timer.
\<close>

datatype nrmd_config = Config_unreadable | Config_no_control | Config_control europar21_config

definition nrmd_load_control ::
  "(double \<Rightarrow> double) \<Rightarrow> nrm_time \<Rightarrow> nrmd_config option \<Rightarrow> europar21_data option exec" where
  "nrmd_load_control fexp now config =
     (case config of
        None \<Rightarrow> Inr None
      | Some Config_unreadable \<Rightarrow> Inl AssertFail
      | Some Config_no_control \<Rightarrow> Inl Uninit
      | Some (Config_control c) \<Rightarrow> bindE (nrm_control_create fexp now True c) (\<lambda>(_, d). Inr d))"

definition nrmd_main ::
  "(double \<Rightarrow> double) \<Rightarrow> hwloc_topology \<Rightarrow> (nat \<Rightarrow> nrm_time) \<Rightarrow> nrmd_config option \<Rightarrow> bool \<Rightarrow> string option \<Rightarrow> double \<Rightarrow>
   (nrmd_server \<times> int option) exec" where
  "nrmd_main fexp topo clock config role uri freq =
     bindE (nrm_scope_hwloc_scopes topo (st_scopes nrm_state_create)) (\<lambda>(_, scopes).
     let state = nrm_state_create\<lparr>st_scopes := scopes\<rparr> in
     case snd (nrm_hash_find (st_scopes state) (Some ''nrm.hwloc.Machine.0'') True) of
       None \<Rightarrow> Inl AssertFail
     | Some myscope \<Rightarrow>
         bindE (nrmd_load_control fexp (clock 0) config) (\<lambda>control.
         case nrm_server_create True role True (Some state) uri
                \<lparr>dm_events = nrm_eventbase_create 5, dm_control = control, dm_mysensor = nrm_sensor_create ''daemon.tick'',
                 dm_myscope = myscope, dm_mytopic = ''daemon'', dm_eventtopic = ''daemon.events.raw'',
                 dm_clock = clock, dm_reads = 1\<rparr> of (err, server) \<Rightarrow>
         bindE (assertE (err = 0)) (\<lambda>_.
         bindE (derefE server) (\<lambda>s.
         Inr (s, if freq \<noteq> DFin 0 then snd (nrm_server_settimer server (nrm_time_fromfreq freq)) else None)))))"


section \<open>The daemon keeps the server's contract\<close>

lemma publish_eq:
  assumes "scope_wf sc"
  shows "nrm_server_publish (Some topic) t (Some u) (Some sc) v (Some s)
    = Inr (0, Some (s\<lparr>srv_out := srv_out s @ [OPub topic (event_msg u sc t v)]\<rparr>))"
  using nrm_msg_scope_new_ok [OF assms]
  by (simp add: nrm_server_publish_def nrm_timeserie_create_def nrm_timeserie_add_event_def Let_def nrm_msg_set_events_def
      msg_set_def nrm_msg_timeserielist_new_def nrm_msg_timeserie_new_def nrm_msg_event_new_def srv_pub_def event_msg_def)

lemma publish_keeps:
  "nrm_server_publish topic t u sc v (Some s) = Inr (r, Some s') \<Longrightarrow> srv_state s' = srv_state s \<and> srv_user s' = srv_user s"
  by (auto simp: nrm_server_publish_def srv_pub_def bindE_eq_Inr split: option.splits)

lemma gettime_keeps [simp]:
  "srv_state (snd (nrmd_gettime s)) = srv_state s" "srv_out (snd (nrmd_gettime s)) = srv_out s"
  "dm_control (srv_user (snd (nrmd_gettime s))) = dm_control (srv_user s)"
  "dm_events (srv_user (snd (nrmd_gettime s))) = dm_events (srv_user s)"
  by (simp_all add: nrmd_gettime_def Let_def)

lemma pull_inputs_keeps: "nrmd_pull_inputs is s = Inr (is', s') \<Longrightarrow> srv_state s' = srv_state s \<and> srv_out s' = srv_out s"
proof (induction "is" arbitrary: s is' s')
  case (Cons i "is")
  obtain now s1 where g: "nrmd_gettime s = (now, s1)" by fastforce
  then have "srv_state s1 = srv_state s" "srv_out s1 = srv_out s" using gettime_keeps(1,2) [of s] by simp_all
  moreover obtain is1 where "nrmd_pull_inputs is s1 = Inr (is1, s')"
    using Cons.prems g by (auto simp: bindE_eq_Inr)
  ultimately show ?case using Cons.IH by simp
qed simp

lemma server_actuate_wf: "server_wf s \<Longrightarrow> nrm_server_actuate u v s = Inr (r, s') \<Longrightarrow> server_wf s'"
  by (auto simp: nrm_server_actuate_def bindE_eq_Inr do_actuate_wf split: option.splits)

lemma server_wf_user [simp]: "server_wf (s\<lparr>srv_user := u\<rparr>) \<longleftrightarrow> server_wf s"
  by (simp add: server_wf_def)

text \<open>A tick of the control changes the server only through its actuations.\<close>

lemma control_tick_actuates:
  assumes r: "nrmd_control_tick fexp flog s = Inr (rc, s')"
  obtains outs s3 s4 where "foldE nrmd_actuate_output outs s3 = Inr s4" and "srv_state s3 = srv_state s" and "srv_out s3 = srv_out s"
    and "srv_state s' = srv_state s4" and "srv_out s' = srv_out s4"
proof -
  obtain now s1 where g: "nrmd_gettime s = (now, s1)" by fastforce
  then have s1: "srv_state s1 = srv_state s" "srv_out s1 = srv_out s" using gettime_keeps(1,2) [of s] by simp_all
  from r g obtain d ins outs ins' s2 outs' where p: "nrmd_pull_inputs ins s1 = Inr (ins', s2)"
    and rest: "(case nrmd_gettime s2 of (t, s) \<Rightarrow>
      bindE (nrm_control_action fexp flog t (Some (d\<lparr>ep_inputs := ins'\<rparr>)) ins' outs') (\<lambda>(_, d, outputs).
      let s = s\<lparr>srv_user := (srv_user s)\<lparr>dm_control := Some (d\<lparr>ep_outputs := outputs\<rparr>)\<rparr>\<rparr> in
      bindE (foldE nrmd_actuate_output outputs s) (\<lambda>s.
      bindE (derefE (snd (nrm_eventbase_tick (Some (dm_events (srv_user s))) now))) (\<lambda>eb.
      Inr (0, s\<lparr>srv_user := (srv_user s)\<lparr>dm_events := eb\<rparr>\<rparr>))))) = Inr (rc, s')"
    by (auto simp: nrmd_control_tick_def bindE_eq_Inr)
  obtain t s3 where g2: "nrmd_gettime s2 = (t, s3)" by fastforce
  then have "srv_state s3 = srv_state s" "srv_out s3 = srv_out s"
    using gettime_keeps(1,2) [of s2] pull_inputs_keeps [OF p] s1 by simp_all
  moreover from rest g2 obtain d' outs2 s4 eb where f: "foldE nrmd_actuate_output outs2
      (s3\<lparr>srv_user := (srv_user s3)\<lparr>dm_control := Some (d'\<lparr>ep_outputs := outs2\<rparr>)\<rparr>\<rparr>) = Inr s4"
    and "s' = s4\<lparr>srv_user := (srv_user s4)\<lparr>dm_events := eb\<rparr>\<rparr>"
    by (auto simp: bindE_eq_Inr Let_def)
  ultimately show ?thesis using that [OF f] by simp
qed

lemma control_tick_wf:
  assumes wf: "server_wf s" and r: "nrmd_control_tick fexp flog s = Inr (rc, s')"
  shows "server_wf s'"
proof -
  obtain outs s3 s4 where f: "foldE nrmd_actuate_output outs s3 = Inr s4" "srv_state s3 = srv_state s" "srv_state s' = srv_state s4"
    by (rule control_tick_actuates [OF r])
  have "server_wf s4"
    by (rule foldE_invariant [OF f(1), where P = server_wf])
      (use wf f(2) in \<open>auto simp: server_wf_def nrmd_actuate_output_def bindE_eq_Inr dest: server_actuate_wf [unfolded server_wf_def]\<close>)
  then show ?thesis using f(3) by (simp add: server_wf_def)
qed

lemma publish_then_wf:
  assumes "server_wf s" and "nrm_server_publish topic t u sc v (Some s) = Inr (r, Some s')"
  shows "server_wf s'"
  using assms(1) publish_keeps [OF assms(2)] by (simp add: server_wf_def)

interpretation nrmd_user: server_user nrmd_event_callback nrmd_actuate_callback None
  "nrmd_timer_callback fexp flog" "nrmd_tick_callback fexp flog"
proof unfold_locales
  fix s u sc t v r s'
  assume "server_wf s" "nrmd_event_callback s u sc t v = Inr (r, s')"
  then show "server_wf s'"
    by (auto simp: nrmd_event_callback_def bindE_eq_Inr Let_def dest!: publish_then_wf [rotated])
next
  fix s r s'
  assume wf: "server_wf s" and r: "nrmd_timer_callback fexp flog s = Inr (r, s')"
  obtain now s1 where g: "nrmd_gettime s = (now, s1)" by fastforce
  then have "server_wf s1" using wf gettime_keeps(1) [of s] by (simp add: server_wf_def)
  with r g show "server_wf s'"
    by (auto simp: nrmd_timer_callback_def bindE_eq_Inr dest!: publish_then_wf [rotated] dest: control_tick_wf split: if_splits)
next
  fix s r s'
  assume "server_wf s" "nrmd_tick_callback fexp flog s = Inr (r, s')"
  then show "server_wf s'"
    by (auto simp: nrmd_tick_callback_def bindE_eq_Inr dest: control_tick_wf split: if_splits)
qed (auto simp: nrmd_actuate_callback_def)


lemma event_callback_ok:
  assumes eb: "eb_wf (dm_events (srv_user s))" and sc: "scope_wf sc"
  shows "\<exists>eb. nrmd_event_callback s u (Some sc) t v = Inr (0, s\<lparr>srv_user := (srv_user s)\<lparr>dm_events := eb\<rparr>,
        srv_out := srv_out s @ [OPub (dm_eventtopic (srv_user s)) (event_msg u sc t v)]\<rparr>)
    \<and> eb_wf eb \<and> (\<forall>key. eb_content eb key = eb_content (dm_events (srv_user s)) key +
        (if key = (u, scope_uuid sc) then {#\<lparr>ev_time = t, ev_value = v\<rparr>#} else {#}))"
  using push_event_ok [OF eb, of u sc t v]
  by (auto simp: nrmd_event_callback_def publish_eq [OF sc] Let_def)

text \<open>A received event, and what the daemon makes of it.\<close>

type_synonym received = "string \<times> nrm_scope \<times> nrm_msg_event"

definition stored_event :: "received \<Rightarrow> nrm_event" where
  "stored_event x = (case x of (u, sc, e) \<Rightarrow> \<lparr>ev_time = nrm_time_fromns (me_time e), ev_value = me_value e\<rparr>)"

definition published_event :: "string \<Rightarrow> received \<Rightarrow> server_out" where
  "published_event topic x = (case x of (u, sc, e) \<Rightarrow> OPub topic (event_msg u sc (nrm_time_fromns (me_time e)) (me_value e)))"

definition event_key :: "received \<Rightarrow> string \<times> string" where
  "event_key x = (case x of (u, sc, e) \<Rightarrow> (u, scope_uuid sc))"

lemma events_ok:
  assumes "\<forall>(u, sc, e) \<in> set evs. scope_wf sc" and "eb_wf (dm_events (srv_user s))"
  shows "\<exists>eb. foldE (\<lambda>(u, sc, e). server_event (nrmd_callbacks fexp flog) u (Some sc) e) evs s
      = Inr (s\<lparr>srv_user := (srv_user s)\<lparr>dm_events := eb\<rparr>, srv_out := srv_out s @ map (published_event (dm_eventtopic (srv_user s))) evs\<rparr>)
    \<and> eb_wf eb \<and> (\<forall>key. eb_content eb key = eb_content (dm_events (srv_user s)) key +
        mset (map stored_event (filter (\<lambda>x. event_key x = key) evs)))"
  using assms
proof (induction evs arbitrary: s)
  case Nil
  then show ?case by (intro exI [of _ "dm_events (srv_user s)"]) simp
next
  case (Cons x evs)
  obtain u sc e where x: "x = (u, sc, e)" by (cases x)
  let ?t = "nrm_time_fromns (me_time e)"
  obtain eb where eb: "nrmd_event_callback s u (Some sc) ?t (me_value e) = Inr (0, s\<lparr>srv_user := (srv_user s)\<lparr>dm_events := eb\<rparr>,
        srv_out := srv_out s @ [published_event (dm_eventtopic (srv_user s)) x]\<rparr>)"
    and wf: "eb_wf eb" and c: "\<And>key. eb_content eb key = eb_content (dm_events (srv_user s)) key +
        (if key = event_key x then {#stored_event x#} else {#})"
    using event_callback_ok [of s sc u ?t "me_value e"] Cons.prems x
    by (auto simp: published_event_def event_key_def stored_event_def)
  let ?s = "s\<lparr>srv_user := (srv_user s)\<lparr>dm_events := eb\<rparr>, srv_out := srv_out s @ [published_event (dm_eventtopic (srv_user s)) x]\<rparr>"
  have step: "server_event (nrmd_callbacks fexp flog) u (Some sc) e s = Inr ?s"
    using eb by (simp add: server_event_def nrmd_callbacks_def all_callbacks_def)
  obtain eb' where "foldE (\<lambda>(u, sc, e). server_event (nrmd_callbacks fexp flog) u (Some sc) e) evs ?s
      = Inr (?s\<lparr>srv_user := (srv_user ?s)\<lparr>dm_events := eb'\<rparr>, srv_out := srv_out ?s @ map (published_event (dm_eventtopic (srv_user ?s))) evs\<rparr>)"
    "eb_wf eb'" "\<And>key. eb_content eb' key = eb_content eb key + mset (map stored_event (filter (\<lambda>x. event_key x = key) evs))"
    using Cons.IH [of ?s] Cons.prems(1) wf by auto
  then show ?case using step c by (intro exI [of _ eb']) (auto simp: x)
qed

lemma main_wf:
  assumes "nrmd_main fexp topo clock config role uri freq = Inr (s, period)"
  shows "server_wf s \<and> eb_wf (dm_events (srv_user s))"
proof -
  obtain scopes rc where h: "nrm_scope_hwloc_scopes topo (st_scopes nrm_state_create) = Inr (rc, scopes)"
    and s: "srv_state s = nrm_state_create\<lparr>st_scopes := scopes\<rparr>" "dm_events (srv_user s) = nrm_eventbase_create 5"
    using assms
    by (auto simp: nrmd_main_def bindE_eq_Inr Let_def nrm_server_create_def split: option.splits prod.splits if_splits)
  have "table_wf scope_uuid scope_wf scopes"
    using hwloc_scopes_wf [OF _ h] by (simp add: nrm_state_create_def table_wf_def)
  then show ?thesis
    using s state_wf_create by (simp add: server_wf_def state_wf_def eb_wf_def nrm_eventbase_create_def)
qed


section \<open>Properties\<close>

text \<open>
  C9. The daemon's state is sound for as long as it runs: whatever the topology, the configuration,
  the messages, signals and timer events, the clock and the results of libm, in every state the daemon reaches
  from its start each table has distinct keys, every object is stored under its own uuid, every
  actuator's type agrees with its data and every scope's bitmaps are well formed.
\<close>

theorem nrmd_state_sound:
  assumes "nrmd_main fexp topo clock config role uri freq = Inr (s0, period)"
    and "server_reach (nrmd_callbacks fexp flog) raw s0 s"
  shows "state_wf (srv_state s)"
  using nrmd_user.reach_wf [OF assms(2) [unfolded nrmd_callbacks_def]] main_wf [OF assms(1)]
  by (simp add: server_wf_def)

definition one_machine :: hwloc_topology where
  "one_machine = \<lparr>topo_levels = [[\<lparr>ho_type_name = ''Machine'', ho_is_pu = False, ho_logical_index = 0, ho_nodeset = [],
     ho_cpuset = []\<rparr>]], topo_virtual = [], topo_osdevs = []\<rparr>"

lemma one_machine_known: "\<exists>err scopes. nrm_scope_hwloc_scopes one_machine [] = Inr (err, scopes) \<and> map_of scopes ''nrm.hwloc.Machine.0'' \<noteq> None"
proof -
  obtain h where h: "nrm_scope_hwloc_scopes one_machine [] = Inr (0, h)" "scopes_added [] (topology_spec one_machine) h"
    using hwloc_scopes_ok [of "[]" one_machine] by (auto simp: table_wf_def hash_wf_def one_machine_def)
  have "map_option scope_sets (map_of h ''nrm.hwloc.Machine.0'') = map_of (topology_spec one_machine) ''nrm.hwloc.Machine.0''"
    using h(2) by (simp add: scopes_added_def)
  also have "\<dots> \<noteq> None" by (simp add: topology_spec_def one_machine_def object_spec_def hwloc_machine_name)
  finally show ?thesis using h(1) by (simp only: option.map_disc_iff) blast
qed

lemma one_machine_starts:
  "\<exists>s0 period. nrmd_main (\<lambda>x. x) one_machine (\<lambda>_. \<lparr>tv_sec = 0, tv_nsec = 0\<rparr>) None True (Some ''tcp'') (DFin 0) = Inr (s0, period)"
proof -
  obtain err scopes where t: "nrm_scope_hwloc_scopes one_machine [] = Inr (err, scopes)" "map_of scopes ''nrm.hwloc.Machine.0'' \<noteq> None"
    using one_machine_known by blast
  then show ?thesis
    by (auto simp: nrmd_main_def nrm_state_create_def snd_nrm_hash_find nrmd_load_control_def nrm_server_create_def Let_def)
qed

theorem nrmd_state_sound_witness:
  "\<exists>s0 period. nrmd_main (\<lambda>x. x) one_machine (\<lambda>_. \<lparr>tv_sec = 0, tv_nsec = 0\<rparr>) None True (Some ''tcp'') (DFin 0) = Inr (s0, period)
     \<and> state_wf (srv_state s0)"
proof -
  obtain s0 period where s0: "nrmd_main (\<lambda>x. x) one_machine (\<lambda>_. \<lparr>tv_sec = 0, tv_nsec = 0\<rparr>) None True (Some ''tcp'') (DFin 0) = Inr (s0, period)"
    using one_machine_starts by blast
  from nrmd_state_sound [OF s0 server_reach.start] s0 show ?thesis by blast
qed

text \<open>
  C10. Every event a client sends is stored and published: handling an EVENTS message of any number of series, each
  with any start time and a scope whose bits fit the bitmaps, returns 0,
  adds to the event base exactly the events of the message, each under its sensor and scope, publishes
  each of them once, in order, under the topic of the raw events, and leaves the state alone.
\<close>

theorem nrmd_stores_and_publishes:
  assumes eb: "eb_wf (dm_events (srv_user s))" and sc: "\<forall>(u, c, start, es) \<in> set series. scope_wf c"
  shows "\<exists>s'. nrm_server_role_callback (nrmd_callbacks fexp flog) raw (Some \<lparr>msg_type = NRM_MSG_TYPE_EVENTS, msg_data = DataEvents
         (map (\<lambda>(u, c, start, es). \<lparr>mt_sensor_uuid = u, mt_scope = Some (scope_to_msg c), mt_start = start, mt_events = es\<rparr>) series)\<rparr>) uuid s
       = Inr (0, s')
     \<and> srv_state s' = srv_state s
     \<and> srv_out s' = srv_out s @ map (published_event (dm_eventtopic (srv_user s)))
         (concat (map (\<lambda>(u, c, start, es). map (\<lambda>e. (u, c, e)) es) series))
     \<and> eb_wf (dm_events (srv_user s'))
     \<and> (\<forall>key. eb_content (dm_events (srv_user s')) key = eb_content (dm_events (srv_user s)) key +
          mset (map stored_event (filter (\<lambda>x. event_key x = key) (concat (map (\<lambda>(u, c, start, es). map (\<lambda>e. (u, c, e)) es) series)))))"
proof -
  let ?cb = "nrmd_callbacks fexp flog"
  let ?evs = "concat (map (\<lambda>(u, c, start, es). map (\<lambda>e. (u, c, e)) es) series)"
  have "foldE (server_timeserie ?cb)
        (map (\<lambda>(u, c, start, es). \<lparr>mt_sensor_uuid = u, mt_scope = Some (scope_to_msg c), mt_start = start, mt_events = es\<rparr>) series) s
      = foldE (\<lambda>x. foldE (server_event ?cb (fst x) (Some (fst (snd x)))) (snd (snd (snd x)))) series s"
    unfolding foldE_map using sc by (intro foldE_cong) (auto simp: server_timeserie_def nrm_scope_create_frommsg_ok)
  also have "\<dots> = foldE (\<lambda>(u, c, e). server_event ?cb u (Some c) e) ?evs s"
  proof -
    have "?evs = map (\<lambda>(x, e). (fst x, fst (snd x), e)) (concat (map (\<lambda>x. map (Pair x) (snd (snd (snd x)))) series))"
      by (simp add: map_concat comp_def case_prod_unfold)
    then show ?thesis by (simp add: foldE_concat foldE_map case_prod_unfold)
  qed
  finally have flat: "foldE (server_timeserie ?cb)
        (map (\<lambda>(u, c, start, es). \<lparr>mt_sensor_uuid = u, mt_scope = Some (scope_to_msg c), mt_start = start, mt_events = es\<rparr>) series) s
      = foldE (\<lambda>(u, c, e). server_event ?cb u (Some c) e) ?evs s" .
  have "\<forall>(u, c, e) \<in> set ?evs. scope_wf c" using sc by fastforce
  from events_ok [OF this eb, of fexp flog] show ?thesis
    by (auto simp: role_callback_dispatch nrm_server_events_callback_def flat)
qed

definition plain_nrmd :: "europar21_data option \<Rightarrow> nrmd_server" where
  "plain_nrmd control = \<lparr>srv_state = nrm_state_create, srv_out = [], srv_user =
     \<lparr>dm_events = nrm_eventbase_create 5, dm_control = control, dm_mysensor = \<lparr>sensor_uuid = ''daemon.tick''\<rparr>,
      dm_myscope = nrm_scope_create ''m'', dm_mytopic = ''daemon'', dm_eventtopic = ''daemon.events.raw'',
      dm_clock = (\<lambda>_. \<lparr>tv_sec = 0, tv_nsec = 0\<rparr>), dm_reads = 0\<rparr>\<rparr>"

theorem nrmd_stores_and_publishes_witness:
  "\<exists>s'. nrm_server_role_callback (nrmd_callbacks (\<lambda>x. x) (\<lambda>x. x)) [] (Some \<lparr>msg_type = NRM_MSG_TYPE_EVENTS, msg_data = DataEvents
       [\<lparr>mt_sensor_uuid = ''s'', mt_scope = Some (scope_to_msg (nrm_scope_create ''c'')), mt_start = 7,
         mt_events = [\<lparr>me_time = 7, me_value = DFin 1\<rparr>]\<rparr>]\<rparr>) None (plain_nrmd None) = Inr (0, s')
     \<and> length (srv_out s') = 1 \<and> size (eb_content (dm_events (srv_user s')) (''s'', ''c'')) = 1"
proof -
  have "eb_wf (dm_events (srv_user (plain_nrmd None)))" by (simp add: plain_nrmd_def eb_wf_def nrm_eventbase_create_def)
  moreover have "\<forall>(u, c, start, es) \<in> set [(''s'', nrm_scope_create ''c'', 7, [\<lparr>me_time = 7, me_value = DFin 1\<rparr>])]. scope_wf c"
    by (simp add: scope_wf_create)
  ultimately obtain s' where s': "nrm_server_role_callback (nrmd_callbacks (\<lambda>x. x) (\<lambda>x. x)) [] (Some \<lparr>msg_type = NRM_MSG_TYPE_EVENTS, msg_data = DataEvents
       [\<lparr>mt_sensor_uuid = ''s'', mt_scope = Some (scope_to_msg (nrm_scope_create ''c'')), mt_start = 7,
         mt_events = [\<lparr>me_time = 7, me_value = DFin 1\<rparr>]\<rparr>]\<rparr>) None (plain_nrmd None) = Inr (0, s')"
    "length (srv_out s') = 1"
    "\<And>key. eb_content (dm_events (srv_user s')) key = eb_content (dm_events (srv_user (plain_nrmd None))) key
       + mset (map stored_event (filter (\<lambda>x. event_key x = key) [(''s'', nrm_scope_create ''c'', \<lparr>me_time = 7, me_value = DFin 1\<rparr>)]))"
    using nrmd_stores_and_publishes [of "plain_nrmd None" "[(''s'', nrm_scope_create ''c'', 7, [\<lparr>me_time = 7, me_value = DFin 1\<rparr>])]"
        "\<lambda>x. x" "\<lambda>x. x" "[]" None] by (auto simp: plain_nrmd_def)
  then have "size (eb_content (dm_events (srv_user s')) (''s'', ''c'')) = 1"
    by (simp add: event_key_def nrm_scope_create_def plain_nrmd_def nrm_eventbase_create_def eb_content_def)
  with s' show ?thesis by blast
qed

text \<open>
  A control input whose scope the daemon does not know makes the tick read an uninitialised
  variable: the lookup leaves the local \<open>scope\<close> unset, and the test for NULL that should skip the
  input reads it.
\<close>

theorem nrmd_control_unknown_scope:
  assumes "dm_control (srv_user s) = Some d" and "ep_inputs d = i # is"
    and "map_of (st_scopes (srv_state s)) (in_scope_uuid i) = None"
  shows "nrm_server_role_callback (nrmd_callbacks fexp flog) raw (Some \<lparr>msg_type = NRM_MSG_TYPE_TICK, msg_data = DataNone\<rparr>) uuid s
     = Inl Uninit"
proof -
  obtain now s1 where g: "nrmd_gettime s = (now, s1)" by fastforce
  then have "srv_state s1 = srv_state s" "dm_control (srv_user s1) = Some d"
    using gettime_keeps(1,3) [of s] assms(1) by simp_all
  with g assms show ?thesis
    by (simp add: role_callback_dispatch nrm_server_tick_callback_def nrmd_callbacks_def all_callbacks_def nrmd_tick_callback_def
        nrmd_control_tick_def nrm_control_getargs_def nrm_control_europar21_getargs_def Let_def snd_nrm_hash_find)
qed

theorem nrmd_control_unknown_scope_witness:
  "nrm_server_role_callback (nrmd_callbacks (\<lambda>x. x) (\<lambda>x. x)) [] (Some \<lparr>msg_type = NRM_MSG_TYPE_TICK, msg_data = DataNone\<rparr>) None
     (plain_nrmd (Some (sample_control\<lparr>ep_inputs := [sample_input]\<rparr>))) = Inl Uninit"
  by (rule nrmd_control_unknown_scope [of _ "sample_control\<lparr>ep_inputs := [sample_input]\<rparr>" sample_input "[]"])
    (simp_all add: plain_nrmd_def nrm_state_create_def)

end
