(* ===== verification/NRM_Preload.thy ===== *)
theory NRM_Preload
  imports NRM_System NRM_Tools NRM_Hwloc
begin

text \<open>
  The libraries that are loaded into applications: the OpenMP tool (src/preloads/ompt) and the MPI wrappers
  (src/preloads/pmpi).

  The tool counts the dispatch callbacks of the OpenMP runtime and reports the count at most once per rate limit;
  its globals are the record \<open>ompt\<close>.  The runtime is a parameter: whether a callback could be set, which entry points its lookup
  function knows, and the sequence of the callbacks, each with the time at which it runs.  The lock makes the callbacks atomic, so
  a sequence is enough.

  The wrappers forward to the MPI library, a parameter: \<open>dlsym\<close> says which symbols it has and \<open>call\<close>
  what they do to the state of MPI.  What both ask of the client is the locale \<open>event_sink\<close>.
\<close>

section \<open>Events through a role\<close>

text \<open>A role that takes every message; \<open>sent\<close> is what it took.\<close>

locale event_sink =
  fixes ops :: "('d, client_fn) nrm_role_ops" and sent :: "'d \<Rightarrow> nrm_msg list"
  assumes send: "\<exists>s d'. op_send ops = Some s \<and> s d (Some m) None = Inr (0, d') \<and> sent d' = sent d @ [m]"
begin

lemma send_event:
  assumes "cl_role c = Some \<lparr>role_ops = Some ops, role_data = d\<rparr>" and "scope_wf sc"
  shows "\<exists>d'. nrm_client_send_event (Some c) t (Some n) (Some sc) v
      = Inr (0, Some (c\<lparr>cl_role := Some \<lparr>role_ops = Some ops, role_data = d'\<rparr>\<rparr>))
    \<and> sent d' = sent d @ [event_msg (sensor_uuid n) sc t v]"
proof -
  let ?m = "event_msg (sensor_uuid n) sc t v"
  obtain s d' where "op_send ops = Some s" "s d (Some ?m) None = Inr (0, d')" "sent d' = sent d @ [?m]" using send by blast
  moreover have "nrm_time_tons (nrm_time_fromns 0) = 0" by (simp add: nrm_time_tons_def nrm_time_fromns_def s64_def)
  ultimately show ?thesis
    using assms
    by (auto simp: nrm_client_send_event_def nrm_timeserie_create_def nrm_timeserie_add_event_def nrm_msg_set_events_def
        nrm_msg_timeserielist_new_def nrm_msg_timeserie_new_def nrm_msg_scope_new_ok msg_set_def filled_eq event_msg_def
        nrm_msg_event_new_def client_send_def nrm_role_send_def role_op_def Let_def)
qed

end

text \<open>The client role hands its messages to the broker through a pipe.\<close>

definition piped :: "'f nrm_role_client \<Rightarrow> nrm_msg list" where
  "piped d = List.map_filter (\<lambda>(s, p, u). case p of PMsg m \<Rightarrow> Some m | _ \<Rightarrow> None) (rc_down d)"

interpretation piped_sink: event_sink nrm_role_client_ops piped
proof
  fix d :: "client_fn nrm_role_client" and m
  show "\<exists>s d'. op_send nrm_role_client_ops = Some s \<and> s d (Some m) None = Inr (0, d') \<and> piped d' = piped d @ [m]"
    by (simp add: nrm_role_client_ops_def client_send_eq piped_def map_filter_def)
qed


section \<open>Finding the scope of the daemon\<close>

text \<open>
  The loop of both libraries over the scopes of the daemon, taken from the back: a scope with the same resources replaces the
  one that was made for the comparison, or an earlier match.
\<close>

fun match_loop :: "nrm_scope option list \<Rightarrow> nrm_scope \<Rightarrow> bool \<Rightarrow> (nrm_scope \<times> bool) exec" where
  "match_loop [] ret newscope = Inr (ret, newscope)"
| "match_loop (s # ss) ret newscope =
     bindE (nrm_scope_cmp s (Some ret)) (\<lambda>r.
     if r = 0 then
       bindE (nrm_scope_destroy (Some ret)) (\<lambda>_. bindE (derefE s) (\<lambda>s. match_loop ss s True))
     else bindE (nrm_scope_destroy s) (\<lambda>_. match_loop ss ret newscope))"

text \<open>The result of the request is not checked: if it fails the vector was never set.\<close>

definition match_scope ::
  "nrm_scope \<Rightarrow> ('d, 'l) nrm_client option \<Rightarrow> (int \<times> ('d, 'l) nrm_client option \<times> nrm_scope option) exec" where
  "match_scope ret client =
     bindE (nrm_client_list_scopes client True) (\<lambda>(_, client, nrmd_scopes).
     bindE (case nrmd_scopes of None \<Rightarrow> Inl Uninit | Some xs \<Rightarrow> Inr xs) (\<lambda>xs.
     bindE (match_loop (rev xs) ret False) (\<lambda>(ret, newscope).
     if \<not> newscope then Inr (- NRM_EINVAL, client, None) else Inr (0, client, Some ret))))"


section \<open>The OpenMP tool\<close>

record 'd ompt =
  ot_client :: "('d, unit) nrm_client option"
  ot_scope :: "nrm_scope option"
  ot_sensor :: "nrm_sensor option"
  ot_count :: double
  ot_last_send :: nrm_time

definition ompt_start :: "'d ompt" where
  "ompt_start = \<lparr>ot_client = None, ot_scope = None, ot_sensor = None, ot_count = DFin 0, ot_last_send = \<lparr>tv_sec = 0, tv_nsec = 0\<rparr>\<rparr>"

definition nrm_ompt_send_event :: "nrm_globals \<Rightarrow> nrm_time \<Rightarrow> 'd ompt \<Rightarrow> 'd ompt exec" where
  "nrm_ompt_send_event g now st =
     (let diff = nrm_time_diff (ot_last_send st) now;
          st = st\<lparr>ot_count := dadd (ot_count st) (DFin 1)\<rparr>
      in if diff > s64 (nrm_ratelimit g) then
           bindE (nrm_client_send_event (ot_client st) now (ot_sensor st) (ot_scope st) (ot_count st)) (\<lambda>(_, c).
           Inr (st\<lparr>ot_client := c, ot_count := DFin 0, ot_last_send := now\<rparr>))
         else Inr st)"

datatype ompt_callbacks =
    Thread_begin | Thread_end | Parallel_begin | Parallel_end | Work | Masked | Dispatch | Task_create | Dependences
  | Task_dependence | Task_schedule | Implicit_task | Sync_region | Mutex_acquire | Nest_lock | Flush | Cancel
  | Device_initialize | Device_finalize | Device_load | Device_unload | Target_data_op | Target | Target_map
  | Target_submit | Control_tool

text \<open>
  The callbacks, without the arguments they cast to void.  All but one do nothing; the last also returns 0.
\<close>

definition nrm_ompt_callback_thread_begin_cb :: "'d ompt \<Rightarrow> 'd ompt exec" where
  "nrm_ompt_callback_thread_begin_cb st = Inr st"

definition nrm_ompt_callback_thread_end_cb :: "'d ompt \<Rightarrow> 'd ompt exec" where
  "nrm_ompt_callback_thread_end_cb st = Inr st"

definition nrm_ompt_callback_parallel_begin_cb :: "'d ompt \<Rightarrow> 'd ompt exec" where
  "nrm_ompt_callback_parallel_begin_cb st = Inr st"

definition nrm_ompt_callback_parallel_end_cb :: "'d ompt \<Rightarrow> 'd ompt exec" where
  "nrm_ompt_callback_parallel_end_cb st = Inr st"

definition nrm_ompt_callback_work_cb :: "'d ompt \<Rightarrow> 'd ompt exec" where
  "nrm_ompt_callback_work_cb st = Inr st"

definition nrm_ompt_callback_masked_cb :: "'d ompt \<Rightarrow> 'd ompt exec" where
  "nrm_ompt_callback_masked_cb st = Inr st"

definition nrm_ompt_callback_dispatch_cb :: "nrm_globals \<Rightarrow> nrm_time \<Rightarrow> 'd ompt \<Rightarrow> 'd ompt exec" where
  "nrm_ompt_callback_dispatch_cb g now st = nrm_ompt_send_event g now st"

definition nrm_ompt_callback_task_create_cb :: "'d ompt \<Rightarrow> 'd ompt exec" where
  "nrm_ompt_callback_task_create_cb st = Inr st"

definition nrm_ompt_callback_dependences_cb :: "'d ompt \<Rightarrow> 'd ompt exec" where
  "nrm_ompt_callback_dependences_cb st = Inr st"

definition nrm_ompt_callback_task_dependence_cb :: "'d ompt \<Rightarrow> 'd ompt exec" where
  "nrm_ompt_callback_task_dependence_cb st = Inr st"

definition nrm_ompt_callback_task_schedule_cb :: "'d ompt \<Rightarrow> 'd ompt exec" where
  "nrm_ompt_callback_task_schedule_cb st = Inr st"

definition nrm_ompt_callback_implicit_task_cb :: "'d ompt \<Rightarrow> 'd ompt exec" where
  "nrm_ompt_callback_implicit_task_cb st = Inr st"

definition nrm_ompt_callback_sync_region_cb :: "'d ompt \<Rightarrow> 'd ompt exec" where
  "nrm_ompt_callback_sync_region_cb st = Inr st"

definition nrm_ompt_callback_mutex_acquire_cb :: "'d ompt \<Rightarrow> 'd ompt exec" where
  "nrm_ompt_callback_mutex_acquire_cb st = Inr st"

definition nrm_ompt_callback_nest_lock_cb :: "'d ompt \<Rightarrow> 'd ompt exec" where
  "nrm_ompt_callback_nest_lock_cb st = Inr st"

definition nrm_ompt_callback_flush_cb :: "'d ompt \<Rightarrow> 'd ompt exec" where
  "nrm_ompt_callback_flush_cb st = Inr st"

definition nrm_ompt_callback_cancel_cb :: "'d ompt \<Rightarrow> 'd ompt exec" where
  "nrm_ompt_callback_cancel_cb st = Inr st"

definition nrm_ompt_callback_device_initialize_cb :: "'d ompt \<Rightarrow> 'd ompt exec" where
  "nrm_ompt_callback_device_initialize_cb st = Inr st"

definition nrm_ompt_callback_device_finalize_cb :: "'d ompt \<Rightarrow> 'd ompt exec" where
  "nrm_ompt_callback_device_finalize_cb st = Inr st"

definition nrm_ompt_callback_device_load_cb :: "'d ompt \<Rightarrow> 'd ompt exec" where
  "nrm_ompt_callback_device_load_cb st = Inr st"

definition nrm_ompt_callback_device_unload_cb :: "'d ompt \<Rightarrow> 'd ompt exec" where
  "nrm_ompt_callback_device_unload_cb st = Inr st"

definition nrm_ompt_callback_target_data_op_cb :: "'d ompt \<Rightarrow> 'd ompt exec" where
  "nrm_ompt_callback_target_data_op_cb st = Inr st"

definition nrm_ompt_callback_target_cb :: "'d ompt \<Rightarrow> 'd ompt exec" where
  "nrm_ompt_callback_target_cb st = Inr st"

definition nrm_ompt_callback_target_map_cb :: "'d ompt \<Rightarrow> 'd ompt exec" where
  "nrm_ompt_callback_target_map_cb st = Inr st"

definition nrm_ompt_callback_target_submit_cb :: "'d ompt \<Rightarrow> 'd ompt exec" where
  "nrm_ompt_callback_target_submit_cb st = Inr st"

definition nrm_ompt_callback_control_tool_cb :: "'d ompt \<Rightarrow> (int \<times> 'd ompt) exec" where
  "nrm_ompt_callback_control_tool_cb st = Inr (0, st)"

lemmas ompt_cb_defs =
  nrm_ompt_callback_thread_begin_cb_def nrm_ompt_callback_thread_end_cb_def nrm_ompt_callback_parallel_begin_cb_def
  nrm_ompt_callback_parallel_end_cb_def nrm_ompt_callback_work_cb_def nrm_ompt_callback_masked_cb_def
  nrm_ompt_callback_dispatch_cb_def nrm_ompt_callback_task_create_cb_def nrm_ompt_callback_dependences_cb_def
  nrm_ompt_callback_task_dependence_cb_def nrm_ompt_callback_task_schedule_cb_def nrm_ompt_callback_implicit_task_cb_def
  nrm_ompt_callback_sync_region_cb_def nrm_ompt_callback_mutex_acquire_cb_def nrm_ompt_callback_nest_lock_cb_def
  nrm_ompt_callback_flush_cb_def nrm_ompt_callback_cancel_cb_def nrm_ompt_callback_device_initialize_cb_def
  nrm_ompt_callback_device_finalize_cb_def nrm_ompt_callback_device_load_cb_def nrm_ompt_callback_device_unload_cb_def
  nrm_ompt_callback_target_data_op_cb_def nrm_ompt_callback_target_cb_def nrm_ompt_callback_target_map_cb_def
  nrm_ompt_callback_target_submit_cb_def nrm_ompt_callback_control_tool_cb_def

text \<open>The function that is registered for each callback.\<close>

definition nrm_ompt_callback :: "nrm_globals \<Rightarrow> ompt_callbacks \<Rightarrow> nrm_time \<Rightarrow> 'd ompt \<Rightarrow> 'd ompt exec" where
  "nrm_ompt_callback g k now st =
     (case k of
        Thread_begin \<Rightarrow> nrm_ompt_callback_thread_begin_cb st
      | Thread_end \<Rightarrow> nrm_ompt_callback_thread_end_cb st
      | Parallel_begin \<Rightarrow> nrm_ompt_callback_parallel_begin_cb st
      | Parallel_end \<Rightarrow> nrm_ompt_callback_parallel_end_cb st
      | Work \<Rightarrow> nrm_ompt_callback_work_cb st
      | Masked \<Rightarrow> nrm_ompt_callback_masked_cb st
      | Dispatch \<Rightarrow> nrm_ompt_callback_dispatch_cb g now st
      | Task_create \<Rightarrow> nrm_ompt_callback_task_create_cb st
      | Dependences \<Rightarrow> nrm_ompt_callback_dependences_cb st
      | Task_dependence \<Rightarrow> nrm_ompt_callback_task_dependence_cb st
      | Task_schedule \<Rightarrow> nrm_ompt_callback_task_schedule_cb st
      | Implicit_task \<Rightarrow> nrm_ompt_callback_implicit_task_cb st
      | Sync_region \<Rightarrow> nrm_ompt_callback_sync_region_cb st
      | Mutex_acquire \<Rightarrow> nrm_ompt_callback_mutex_acquire_cb st
      | Nest_lock \<Rightarrow> nrm_ompt_callback_nest_lock_cb st
      | Flush \<Rightarrow> nrm_ompt_callback_flush_cb st
      | Cancel \<Rightarrow> nrm_ompt_callback_cancel_cb st
      | Device_initialize \<Rightarrow> nrm_ompt_callback_device_initialize_cb st
      | Device_finalize \<Rightarrow> nrm_ompt_callback_device_finalize_cb st
      | Device_load \<Rightarrow> nrm_ompt_callback_device_load_cb st
      | Device_unload \<Rightarrow> nrm_ompt_callback_device_unload_cb st
      | Target_data_op \<Rightarrow> nrm_ompt_callback_target_data_op_cb st
      | Target \<Rightarrow> nrm_ompt_callback_target_cb st
      | Target_map \<Rightarrow> nrm_ompt_callback_target_map_cb st
      | Target_submit \<Rightarrow> nrm_ompt_callback_target_submit_cb st
      | Control_tool \<Rightarrow> bindE (nrm_ompt_callback_control_tool_cb st) (\<lambda>(_, st). Inr st))"

text \<open>The callbacks in the order they are registered, and whether the result is asserted.\<close>

definition ompt_registrations :: "(ompt_callbacks \<times> bool) list" where
  "ompt_registrations =
     [(Thread_begin, True), (Thread_end, True), (Parallel_begin, True), (Parallel_end, True), (Work, False), (Masked, False),
      (Dispatch, False), (Task_create, True), (Dependences, False), (Task_dependence, False), (Task_schedule, True),
      (Implicit_task, True), (Sync_region, False), (Mutex_acquire, False), (Nest_lock, False), (Flush, False), (Cancel, False),
      (Device_initialize, False), (Device_finalize, False), (Device_load, False), (Device_unload, False), (Target_data_op, False),
      (Target, False), (Target_map, False), (Target_submit, False), (Control_tool, True)]"

text \<open>\<open>always k\<close>: the runtime answers \<open>ompt_set_always\<close>.  The result lists the callbacks that were handed over.\<close>

definition nrm_ompt_register_cbs :: "(ompt_callbacks \<Rightarrow> bool) \<Rightarrow> ompt_callbacks list exec" where
  "nrm_ompt_register_cbs always =
     foldE (\<lambda>(k, asserted) ks. bindE (assertE (asserted \<longrightarrow> always k)) (\<lambda>_. Inr (ks @ [k]))) ompt_registrations []"

definition nrm_ompt_ratelimit_init :: "nrm_time \<Rightarrow> 'd ompt \<Rightarrow> int \<times> 'd ompt" where
  "nrm_ompt_ratelimit_init now st = (0, st\<lparr>ot_last_send := now\<rparr>)"

definition nrm_ompt_ratelimit_finalize :: "nrm_time \<Rightarrow> 'd ompt \<Rightarrow> (int \<times> 'd ompt) exec" where
  "nrm_ompt_ratelimit_finalize now st =
     (let st = st\<lparr>ot_last_send := now\<rparr>
      in if dlt (DFin 0) (ot_count st) then
           bindE (nrm_client_send_event (ot_client st) (ot_last_send st) (ot_sensor st) (ot_scope st) (ot_count st)) (\<lambda>(_, c).
           Inr (0, st\<lparr>ot_client := c\<rparr>))
         else Inr (0, st))"

record ompt_env =
  oe_getenv :: "string \<Rightarrow> string option"
  oe_pid :: nat
  oe_cpuset :: "nat list"
  oe_nodeset :: "nat list"
  oe_lookup :: "string \<Rightarrow> bool"
  oe_always :: "ompt_callbacks \<Rightarrow> bool"

definition find_allowed_scope ::
  "ompt_env \<Rightarrow> ('d, 'l) nrm_client option \<Rightarrow> (int \<times> ('d, 'l) nrm_client option \<times> nrm_scope option) exec" where
  "find_allowed_scope env client =
     bindE (nrm_scope_create_hwloc_allowed (''nrm.ompt.global.'' @ dec_nat (oe_pid env)) (oe_cpuset env) (oe_nodeset env)) (\<lambda>allowed.
     match_scope allowed client)"

text \<open>The results of the calls are not looked at.  \<open>role\<close> is what the client creation gets.\<close>

definition nrm_ompt_initialize ::
  "ompt_env \<Rightarrow> nrm_time \<Rightarrow> ('d, client_fn) nrm_role option \<Rightarrow> 'd ompt \<Rightarrow> nrm_globals \<Rightarrow> nrm_log
     \<Rightarrow> (int \<times> 'd ompt \<times> nrm_globals \<times> nrm_log \<times> ompt_callbacks list) exec" where
  "nrm_ompt_initialize env now role st g lg =
     (let (_, g, lg) = nrm_init (oe_getenv env) g lg;
          lg = snd (nrm_log_init (Some 2) (Some ''nrm-ompt'') lg);
          st = snd (nrm_ompt_ratelimit_init now st);
          c = snd (nrm_client_create True role True (Some (nrm_upstream_uri g)))
      in
      bindE (find_allowed_scope env c) (\<lambda>(_, c, scope).
      let st = st\<lparr>ot_scope := (if scope = None then ot_scope st else scope), ot_sensor := Some (nrm_sensor_create ''nrm-ompt'')\<rparr> in
      bindE (nrm_client_add_sensor c (ot_sensor st)) (\<lambda>(_, c, sensor).
      bindE (assertE (oe_lookup env ''ompt_set_callback'')) (\<lambda>_.
      bindE (nrm_ompt_register_cbs (oe_always env)) (\<lambda>ks.
      bindE (assertE (oe_lookup env ''ompt_finalize_tool'')) (\<lambda>_.
      Inr (1, st\<lparr>ot_client := c, ot_sensor := sensor\<rparr>, g, lg, ks)))))))"

definition nrm_ompt_finalize :: "nrm_time \<Rightarrow> 'd ompt \<Rightarrow> 'd ompt exec" where
  "nrm_ompt_finalize now st =
     bindE (nrm_ompt_ratelimit_finalize now st) (\<lambda>(_, st).
     bindE (nrm_scope_destroy (ot_scope st)) (\<lambda>_.
     bindE (nrm_client_remove_sensor (ot_client st) (ot_sensor st)) (\<lambda>(_, c).
     Inr (st\<lparr>ot_client := the (nrm_client_destroy (Some c)), ot_sensor := None\<rparr>))))"

text \<open>What the runtime is given when it starts, and what \<open>exit\<close> calls: \<open>nrm_finalizer\<close> is the runtime's function of the name \<open>ompt_finalize_tool\<close>.\<close>

definition ompt_start_tool ::
  "(ompt_env \<Rightarrow> nrm_time \<Rightarrow> ('d, client_fn) nrm_role option \<Rightarrow> 'd ompt \<Rightarrow> nrm_globals \<Rightarrow> nrm_log
     \<Rightarrow> (int \<times> 'd ompt \<times> nrm_globals \<times> nrm_log \<times> ompt_callbacks list) exec) \<times> (nrm_time \<Rightarrow> 'd ompt \<Rightarrow> 'd ompt exec)" where
  "ompt_start_tool = (nrm_ompt_initialize, nrm_ompt_finalize)"

definition nrm_ompt_atexit :: "('d ompt \<Rightarrow> 'd ompt exec) \<Rightarrow> 'd ompt \<Rightarrow> 'd ompt exec" where
  "nrm_ompt_atexit nrm_finalizer st = nrm_finalizer st"

text \<open>What the runtime does with the tool between the two.\<close>

definition ompt_run :: "nrm_globals \<Rightarrow> (ompt_callbacks \<times> nrm_time) list \<Rightarrow> 'd ompt \<Rightarrow> 'd ompt exec" where
  "ompt_run g = foldE (\<lambda>(k, now). nrm_ompt_callback g k now)"


section \<open>The MPI wrappers\<close>

record 'd pmpi =
  pm_client :: "('d, unit) nrm_client option"
  pm_scope :: "nrm_scope option"
  pm_sensor :: "nrm_sensor option"
  pm_real :: "string \<Rightarrow> string option"

text \<open>The MPI library: its symbols, and what a function of it does.\<close>

record ('a, 'm) mpi_lib =
  ml_dlsym :: "string \<Rightarrow> bool"
  ml_call :: "string \<Rightarrow> 'a \<Rightarrow> 'm \<Rightarrow> int \<times> 'm"

definition NRM_MPI_RESOLVE :: "('a, 'm) mpi_lib \<Rightarrow> string \<Rightarrow> 'd pmpi \<Rightarrow> 'd pmpi exec" where
  "NRM_MPI_RESOLVE lib fname st =
     (if pm_real st fname \<noteq> None then Inr st
      else if ml_dlsym lib (CHR ''P'' # fname) then Inr (st\<lparr>pm_real := (pm_real st)(fname \<mapsto> CHR ''P'' # fname)\<rparr>)
      else bindE (assertE (ml_dlsym lib fname)) (\<lambda>_. Inr (st\<lparr>pm_real := (pm_real st)(fname \<mapsto> fname)\<rparr>)))"

definition NRM_MPI_REALNAME :: "('a, 'm) mpi_lib \<Rightarrow> string \<Rightarrow> 'a \<Rightarrow> 'd pmpi \<Rightarrow> 'm \<Rightarrow> (int \<times> 'm) exec" where
  "NRM_MPI_REALNAME lib fname args st m = bindE (derefE (pm_real st fname)) (\<lambda>f. Inr (ml_call lib f args m))"

definition pmpi_event :: "nrm_time \<Rightarrow> 'd pmpi \<Rightarrow> 'd pmpi exec" where
  "pmpi_event now st =
     bindE (nrm_client_send_event (pm_client st) now (pm_sensor st) (pm_scope st) (DFin 1)) (\<lambda>(_, c). Inr (st\<lparr>pm_client := c\<rparr>))"

text \<open>The two functions that report: one time, taken before the call, for both events.\<close>

definition pmpi_traced :: "string \<Rightarrow> ('a, 'm) mpi_lib \<Rightarrow> nrm_time \<Rightarrow> 'a \<Rightarrow> 'd pmpi \<Rightarrow> 'm \<Rightarrow> (int \<times> 'd pmpi \<times> 'm) exec" where
  "pmpi_traced fname lib nrmtime args st m =
     bindE (NRM_MPI_RESOLVE lib fname st) (\<lambda>st.
     bindE (pmpi_event nrmtime st) (\<lambda>st.
     bindE (NRM_MPI_REALNAME lib fname args st m) (\<lambda>(ret, m).
     bindE (pmpi_event nrmtime st) (\<lambda>st. Inr (ret, st, m)))))"

definition pmpi_forward :: "string \<Rightarrow> ('a, 'm) mpi_lib \<Rightarrow> 'a \<Rightarrow> 'd pmpi \<Rightarrow> 'm \<Rightarrow> (int \<times> 'd pmpi \<times> 'm) exec" where
  "pmpi_forward fname lib args st m =
     bindE (NRM_MPI_RESOLVE lib fname st) (\<lambda>st.
     bindE (NRM_MPI_REALNAME lib fname args st m) (\<lambda>(ret, m). Inr (ret, st, m)))"

definition nrm_MPI_Allreduce :: "('a, 'm) mpi_lib \<Rightarrow> nrm_time \<Rightarrow> 'a \<Rightarrow> 'd pmpi \<Rightarrow> 'm \<Rightarrow> (int \<times> 'd pmpi \<times> 'm) exec" where
  "nrm_MPI_Allreduce = pmpi_traced ''MPI_Allreduce''"

definition nrm_MPI_Barrier :: "('a, 'm) mpi_lib \<Rightarrow> nrm_time \<Rightarrow> 'a \<Rightarrow> 'd pmpi \<Rightarrow> 'm \<Rightarrow> (int \<times> 'd pmpi \<times> 'm) exec" where
  "nrm_MPI_Barrier = pmpi_traced ''MPI_Barrier''"

definition nrm_MPI_Comm_size :: "('a, 'm) mpi_lib \<Rightarrow> 'a \<Rightarrow> 'd pmpi \<Rightarrow> 'm \<Rightarrow> (int \<times> 'd pmpi \<times> 'm) exec" where
  "nrm_MPI_Comm_size = pmpi_forward ''MPI_Comm_size''"

definition nrm_MPI_Comm_rank :: "('a, 'm) mpi_lib \<Rightarrow> 'a \<Rightarrow> 'd pmpi \<Rightarrow> 'm \<Rightarrow> (int \<times> 'd pmpi \<times> 'm) exec" where
  "nrm_MPI_Comm_rank = pmpi_forward ''MPI_Comm_rank''"

definition nrm_MPI_Finalize :: "('a, 'm) mpi_lib \<Rightarrow> 'a \<Rightarrow> 'd pmpi \<Rightarrow> 'm \<Rightarrow> (int \<times> 'd pmpi \<times> 'm) exec" where
  "nrm_MPI_Finalize lib args st m =
     bindE (NRM_MPI_RESOLVE lib ''MPI_Finalize'' st) (\<lambda>st.
     bindE (if pm_scope st \<noteq> None then bindE (nrm_scope_destroy (pm_scope st)) (\<lambda>_. Inr ()) else Inr ()) (\<lambda>_.
     let st = (if pm_client st \<noteq> None then st\<lparr>pm_client := the (nrm_client_destroy (Some (pm_client st)))\<rparr> else st) in
     bindE (NRM_MPI_REALNAME lib ''MPI_Finalize'' args st m) (\<lambda>(ret, m). Inr (ret, st, m))))"

definition find_scope :: "nat \<Rightarrow> nat \<Rightarrow> nat \<Rightarrow> ('d, 'l) nrm_client option \<Rightarrow> (int \<times> ('d, 'l) nrm_client option \<times> nrm_scope option) exec" where
  "find_scope cpu node rank client =
     bindE (nrm_scope_threadshared cpu node (Some (nrm_scope_create (''nrm.pmpi.'' @ dec_nat rank)))) (\<lambda>(_, ret). match_scope ret client)"

text \<open>\<open>rank_of\<close> reads what \<open>MPI_Comm_rank\<close> stored.\<close>

definition nrm_MPI_Init ::
  "('a, 'm) mpi_lib \<Rightarrow> (string \<Rightarrow> string option) \<Rightarrow> ('m \<Rightarrow> nat) \<Rightarrow> nat \<Rightarrow> nat \<Rightarrow> ('d, client_fn) nrm_role option \<Rightarrow> 'a \<Rightarrow> 'a
     \<Rightarrow> 'd pmpi \<Rightarrow> nrm_globals \<Rightarrow> nrm_log \<Rightarrow> 'm \<Rightarrow> (int \<times> 'd pmpi \<times> 'm) exec" where
  "nrm_MPI_Init lib getenv rank_of cpu node role args rank_args st g lg m =
     bindE (NRM_MPI_RESOLVE lib ''MPI_Init'' st) (\<lambda>st.
     bindE (NRM_MPI_REALNAME lib ''MPI_Init'' args st m) (\<lambda>(ret, m).
     if ret \<noteq> 0 then Inr (ret, st, m)
     else
       bindE (nrm_MPI_Comm_rank lib rank_args st m) (\<lambda>(_, st, m).
       let (ret, g, lg) = nrm_init getenv g lg in
       if ret \<noteq> 0 then Inr (ret, st, m)
       else
         (case nrm_client_create True role True (Some (nrm_upstream_uri g)) of (ret, c) \<Rightarrow>
            if ret \<noteq> 0 then Inr (ret, st, m)
            else
              bindE (find_scope cpu node (rank_of m) c) (\<lambda>(ret, c, scope).
              let st = st\<lparr>pm_client := c\<rparr> in
              if ret \<noteq> 0 then Inr (ret, st, m)
              else
                let sensor = nrm_sensor_create (''nrm.pmpi.'' @ dec_nat (rank_of m)) in
                bindE (nrm_client_add_sensor c (Some sensor)) (\<lambda>(_, c, sensor).
                Inr (ret, st\<lparr>pm_client := c, pm_scope := scope, pm_sensor := sensor\<rparr>, m)))))))"

text \<open>The functions the application calls (c_mpi_bindings.c) pass their arguments on.\<close>

definition MPI_Allreduce :: "('a, 'm) mpi_lib \<Rightarrow> nrm_time \<Rightarrow> 'a \<Rightarrow> 'd pmpi \<Rightarrow> 'm \<Rightarrow> (int \<times> 'd pmpi \<times> 'm) exec" where
  "MPI_Allreduce = nrm_MPI_Allreduce"

definition MPI_Barrier :: "('a, 'm) mpi_lib \<Rightarrow> nrm_time \<Rightarrow> 'a \<Rightarrow> 'd pmpi \<Rightarrow> 'm \<Rightarrow> (int \<times> 'd pmpi \<times> 'm) exec" where
  "MPI_Barrier = nrm_MPI_Barrier"

definition MPI_Comm_size :: "('a, 'm) mpi_lib \<Rightarrow> 'a \<Rightarrow> 'd pmpi \<Rightarrow> 'm \<Rightarrow> (int \<times> 'd pmpi \<times> 'm) exec" where
  "MPI_Comm_size = nrm_MPI_Comm_size"

definition MPI_Comm_rank :: "('a, 'm) mpi_lib \<Rightarrow> 'a \<Rightarrow> 'd pmpi \<Rightarrow> 'm \<Rightarrow> (int \<times> 'd pmpi \<times> 'm) exec" where
  "MPI_Comm_rank = nrm_MPI_Comm_rank"

definition MPI_Finalize :: "('a, 'm) mpi_lib \<Rightarrow> 'a \<Rightarrow> 'd pmpi \<Rightarrow> 'm \<Rightarrow> (int \<times> 'd pmpi \<times> 'm) exec" where
  "MPI_Finalize = nrm_MPI_Finalize"

definition MPI_Init ::
  "('a, 'm) mpi_lib \<Rightarrow> (string \<Rightarrow> string option) \<Rightarrow> ('m \<Rightarrow> nat) \<Rightarrow> nat \<Rightarrow> nat \<Rightarrow> ('d, client_fn) nrm_role option \<Rightarrow> 'a \<Rightarrow> 'a
     \<Rightarrow> 'd pmpi \<Rightarrow> nrm_globals \<Rightarrow> nrm_log \<Rightarrow> 'm \<Rightarrow> (int \<times> 'd pmpi \<times> 'm) exec" where
  "MPI_Init = nrm_MPI_Init"


section \<open>Counts are neither lost nor invented\<close>

definition dispatches :: "(ompt_callbacks \<times> nrm_time) list \<Rightarrow> nat" where
  "dispatches cbs = length (filter (\<lambda>(k, _). k = Dispatch) cbs)"

text \<open>Times with more than \<open>gap\<close> between each and the one before.\<close>

fun spaced :: "int \<Rightarrow> int \<Rightarrow> int list \<Rightarrow> bool" where
  "spaced gap prev [] = True"
| "spaced gap prev (t # ts) = (t - prev > gap \<and> spaced gap t ts)"

text \<open>A tool that is set up, with \<open>k\<close> dispatches not yet reported.\<close>

definition reporting :: "('d, client_fn) nrm_role_ops \<Rightarrow> nrm_sensor \<Rightarrow> nrm_scope \<Rightarrow> nat \<Rightarrow> 'd \<Rightarrow> 'd ompt \<Rightarrow> bool" where
  "reporting ops n sc k d st \<longleftrightarrow>
     (\<exists>c. ot_client st = Some c \<and> cl_role c = Some \<lparr>role_ops = Some ops, role_data = d\<rparr>)
   \<and> ot_sensor st = Some n \<and> ot_scope st = Some sc \<and> ot_count st = DFin (of_nat k) \<and> time_wf (ot_last_send st)"

definition reports :: "nrm_sensor \<Rightarrow> nrm_scope \<Rightarrow> (nrm_time \<times> nat) list \<Rightarrow> nrm_msg list" where
  "reports n sc evs = map (\<lambda>(t, k). event_msg (sensor_uuid n) sc t (DFin (of_nat k))) evs"

lemma dadd_count: "n + 1 < 2 ^ 53 \<Longrightarrow> dadd (DFin (of_nat n)) (DFin 1) = DFin (of_nat (n + 1))"
  using rnd_representable [OF is_double_of_int [of "int n + 1"]] by (simp add: add.commute)

context event_sink
begin

lemma send_event_step:
  assumes st: "reporting ops n sc k d st" and sc: "scope_wf sc" and t: "time_wf t" and g: "in_s64 (nrm_ratelimit g)" and k: "k + 1 < 2 ^ 53"
  shows "if nrm_time_tons t - nrm_time_tons (ot_last_send st) > nrm_ratelimit g
    then \<exists>st' d'. nrm_ompt_send_event g t st = Inr st' \<and> reporting ops n sc 0 d' st' \<and> ot_last_send st' = t
        \<and> sent d' = sent d @ reports n sc [(t, k + 1)]
    else \<exists>st'. nrm_ompt_send_event g t st = Inr st' \<and> reporting ops n sc (k + 1) d st' \<and> ot_last_send st' = ot_last_send st"
proof -
  obtain c where c: "ot_client st = Some c" "cl_role c = Some \<lparr>role_ops = Some ops, role_data = d\<rparr>"
    and r: "ot_sensor st = Some n" "ot_scope st = Some sc" "ot_count st = DFin (of_nat k)" "time_wf (ot_last_send st)"
    using st by (auto simp: reporting_def)
  obtain d' where "nrm_client_send_event (Some c) t (Some n) (Some sc) (DFin (of_nat (k + 1)))
      = Inr (0, Some (c\<lparr>cl_role := Some \<lparr>role_ops = Some ops, role_data = d'\<rparr>\<rparr>))"
    "sent d' = sent d @ [event_msg (sensor_uuid n) sc t (DFin (of_nat (k + 1)))]"
    using send_event [OF c(2) sc] by blast
  then show ?thesis
    using c r t dadd_count [OF k] time_diff_wf [OF r(4) t] s64_id [OF g]
    by (simp add: nrm_ompt_send_event_def reporting_def reports_def Let_def)
qed

lemma run_reports:
  assumes sc: "scope_wf sc" and g: "in_s64 (nrm_ratelimit g)"
  shows "reporting ops n sc k d st \<Longrightarrow> list_all (\<lambda>(_, t). time_wf t) cbs \<Longrightarrow> k + dispatches cbs < 2 ^ 53 \<Longrightarrow>
    \<exists>st' d' k' evs. ompt_run g cbs st = Inr st' \<and> reporting ops n sc k' d' st' \<and> sent d' = sent d @ reports n sc evs
      \<and> spaced (nrm_ratelimit g) (nrm_time_tons (ot_last_send st)) (map (\<lambda>(t, _). nrm_time_tons t) evs)
      \<and> sum_list (map snd evs) + k' = k + dispatches cbs \<and> list_all (\<lambda>(_, j). 0 < j) evs"
proof (induction cbs arbitrary: k d st)
  case Nil
  then show ?case
    by (intro exI [of _ st] exI [of _ d] exI [of _ k] exI [of _ "[]"]) (simp add: ompt_run_def reports_def dispatches_def)
next
  case (Cons cb cbs)
  obtain kind t where cb: "cb = (kind, t)" by (cases cb)
  show ?case
  proof (cases "kind = Dispatch")
    case False
    then have "nrm_ompt_callback g kind t st = Inr st" by (cases kind) (simp_all add: nrm_ompt_callback_def ompt_cb_defs)
    then show ?thesis using Cons.IH [OF Cons.prems(1)] Cons.prems False by (simp add: ompt_run_def cb dispatches_def)
  next
    case True
    have t: "time_wf t" and k: "k + 1 < 2 ^ 53" and more: "k + 1 + dispatches cbs < 2 ^ 53"
      using Cons.prems True by (simp_all add: cb dispatches_def)
    have run: "ompt_run g (cb # cbs) st = bindE (nrm_ompt_send_event g t st) (ompt_run g cbs)"
      using True by (simp add: ompt_run_def cb nrm_ompt_callback_def ompt_cb_defs)
    show ?thesis
    proof (cases "nrm_time_tons t - nrm_time_tons (ot_last_send st) > nrm_ratelimit g")
      case late: True
      then obtain st1 d1 where s1: "nrm_ompt_send_event g t st = Inr st1" "reporting ops n sc 0 d1 st1" "ot_last_send st1 = t"
        "sent d1 = sent d @ reports n sc [(t, k + 1)]"
        using send_event_step [OF Cons.prems(1) sc t g k] by auto
      obtain st' d' k' evs where r: "ompt_run g cbs st1 = Inr st'" "reporting ops n sc k' d' st'" "sent d' = sent d1 @ reports n sc evs"
        "spaced (nrm_ratelimit g) (nrm_time_tons t) (map (\<lambda>(t, _). nrm_time_tons t) evs)"
        "sum_list (map snd evs) + k' = dispatches cbs" "list_all (\<lambda>(_, j). 0 < j) evs"
        using Cons.IH [OF s1(2)] Cons.prems(2) more s1(3) by (auto simp: cb)
      show ?thesis
        by (intro exI [of _ st'] exI [of _ d'] exI [of _ k'] exI [of _ "(t, k + 1) # evs"])
          (use run s1 r late True in \<open>simp add: reports_def cb dispatches_def\<close>)
    next
      case early: False
      then obtain st1 where s1: "nrm_ompt_send_event g t st = Inr st1" "reporting ops n sc (k + 1) d st1" "ot_last_send st1 = ot_last_send st"
        using send_event_step [OF Cons.prems(1) sc t g k] by auto
      then show ?thesis using Cons.IH [OF s1(2)] Cons.prems(2) more run True by (simp add: cb dispatches_def)
    qed
  qed
qed

lemma finalize_reports:
  assumes st: "reporting ops n sc k d st" and sc: "scope_wf sc"
  shows "\<exists>st' c' d'. nrm_ompt_ratelimit_finalize t st = Inr (0, st') \<and> ot_client st' = Some c'
    \<and> cl_role c' = Some \<lparr>role_ops = Some ops, role_data = d'\<rparr> \<and> sent d' = sent d @ reports n sc (if k = 0 then [] else [(t, k)])"
proof -
  obtain c where c: "ot_client st = Some c" "cl_role c = Some \<lparr>role_ops = Some ops, role_data = d\<rparr>"
    and r: "ot_sensor st = Some n" "ot_scope st = Some sc" "ot_count st = DFin (of_nat k)"
    using st by (auto simp: reporting_def)
  obtain d' where "nrm_client_send_event (Some c) t (Some n) (Some sc) (DFin (of_nat k))
      = Inr (0, Some (c\<lparr>cl_role := Some \<lparr>role_ops = Some ops, role_data = d'\<rparr>\<rparr>))"
    "sent d' = sent d @ [event_msg (sensor_uuid n) sc t (DFin (of_nat k))]"
    using send_event [OF c(2) sc] by blast
  then show ?thesis using c r by (simp add: nrm_ompt_ratelimit_finalize_def reports_def Let_def)
qed

end


section \<open>Properties\<close>

text \<open>
  C18. The OpenMP tool reports every dispatch once, provided that its initialisation has given it a client, a sensor and the
  scope of the process (\<open>reporting\<close>; a tool that found no scope sends nothing at all, \<open>nrm_ompt_without_scope\<close>) and that the rate limit is
  below \<open>2 ^ 63\<close>.  Then, whatever callbacks the runtime makes, fewer than \<open>2 ^ 53\<close> of them dispatches, at whatever normalised times, the
  counts in the events that were sent, together with the one that \<open>nrm_ompt_ratelimit_finalize\<close> adds for what is
  left, sum up to the number of dispatch callbacks.  No event is empty, and every event but the last comes more than the
  rate limit after the event before it, the first one after the initialisation.
\<close>

theorem nrm_ompt_reports_all:
  assumes sc: "scope_wf sc" and g: "0 \<le> nrm_ratelimit g" "nrm_ratelimit g < 2 ^ 63"
    and st: "reporting nrm_role_client_ops n sc 0 d st" and t: "list_all (\<lambda>(_, t). time_wf t) cbs" and small: "dispatches cbs < 2 ^ 53"
  shows "\<exists>st1 st2 c d' evs rest. ompt_run g cbs st = Inr st1 \<and> nrm_ompt_ratelimit_finalize now st1 = Inr (0, st2)
     \<and> ot_client st2 = Some c \<and> cl_role c = Some \<lparr>role_ops = Some nrm_role_client_ops, role_data = d'\<rparr>
     \<and> piped d' = piped d @ map (\<lambda>(t, k). event_msg (sensor_uuid n) sc t (DFin (of_nat k))) (evs @ rest)
     \<and> sum_list (map snd (evs @ rest)) = dispatches cbs \<and> list_all (\<lambda>(_, k). 0 < k) (evs @ rest)
     \<and> (rest = [] \<or> (\<exists>k. rest = [(now, k)]))
     \<and> spaced (nrm_ratelimit g) (nrm_time_tons (ot_last_send st)) (map (\<lambda>(t, _). nrm_time_tons t) evs)"
proof -
  have "in_s64 (nrm_ratelimit g)" using g by (simp add: in_s64_def)
  from piped_sink.run_reports [OF sc this st t] small
  obtain st1 d1 k evs where r: "ompt_run g cbs st = Inr st1" "reporting nrm_role_client_ops n sc k d1 st1" "piped d1 = piped d @ reports n sc evs"
    "spaced (nrm_ratelimit g) (nrm_time_tons (ot_last_send st)) (map (\<lambda>(t, _). nrm_time_tons t) evs)"
    "sum_list (map snd evs) + k = dispatches cbs" "list_all (\<lambda>(_, j). 0 < j) evs"
    by auto
  obtain st2 c d2 where f: "nrm_ompt_ratelimit_finalize now st1 = Inr (0, st2)" "ot_client st2 = Some c"
    "cl_role c = Some \<lparr>role_ops = Some nrm_role_client_ops, role_data = d2\<rparr>"
    "piped d2 = piped d1 @ reports n sc (if k = 0 then [] else [(now, k)])"
    using piped_sink.finalize_reports [OF r(2) sc] by blast
  show ?thesis
    by (intro exI [of _ st1] exI [of _ st2] exI [of _ c] exI [of _ d2] exI [of _ evs] exI [of _ "if k = 0 then [] else [(now, k)]"])
      (use r f in \<open>auto simp: reports_def\<close>)
qed

theorem nrm_ompt_reports_all_witness:
  "\<exists>st1 st2 evs. ompt_run (nrm_globals_start\<lparr>nrm_ratelimit := 10\<rparr>)
       [(Dispatch, \<lparr>tv_sec = 0, tv_nsec = 5\<rparr>), (Work, \<lparr>tv_sec = 0, tv_nsec = 6\<rparr>), (Dispatch, \<lparr>tv_sec = 0, tv_nsec = 20\<rparr>)]
       (ompt_start\<lparr>ot_client := Some \<lparr>cl_role = Some \<lparr>role_ops = Some nrm_role_client_ops, role_data = nrm_role_client_new None\<rparr>,
          cl_user_fn = None, cl_actuate_fn = None\<rparr>, ot_sensor := Some \<lparr>sensor_uuid = ''nrm-ompt''\<rparr>, ot_scope := Some (nrm_scope_create ''s'')\<rparr>) = Inr st1
     \<and> nrm_ompt_ratelimit_finalize \<lparr>tv_sec = 1, tv_nsec = 0\<rparr> st1 = Inr (0, st2) \<and> sum_list (map snd evs) = (2 :: nat)
     \<and> (\<exists>c d. ot_client st2 = Some c \<and> cl_role c = Some \<lparr>role_ops = Some nrm_role_client_ops, role_data = d\<rparr>
          \<and> piped d = map (\<lambda>(t, k). event_msg ''nrm-ompt'' (nrm_scope_create ''s'') t (DFin (of_nat k))) evs)"
proof -
  let ?g = "nrm_globals_start\<lparr>nrm_ratelimit := 10\<rparr>" and ?sc = "nrm_scope_create ''s''"
  let ?cbs = "[(Dispatch, \<lparr>tv_sec = 0, tv_nsec = 5\<rparr>), (Work, \<lparr>tv_sec = 0, tv_nsec = 6\<rparr>), (Dispatch, \<lparr>tv_sec = 0, tv_nsec = 20\<rparr>)]"
  let ?st = "ompt_start\<lparr>ot_client := Some \<lparr>cl_role = Some \<lparr>role_ops = Some nrm_role_client_ops, role_data = nrm_role_client_new None\<rparr>,
          cl_user_fn = None, cl_actuate_fn = None\<rparr>, ot_sensor := Some \<lparr>sensor_uuid = ''nrm-ompt''\<rparr>, ot_scope := Some ?sc\<rparr>"
  have st: "reporting nrm_role_client_ops \<lparr>sensor_uuid = ''nrm-ompt''\<rparr> ?sc 0 (nrm_role_client_new None) ?st"
    by (simp add: reporting_def ompt_start_def time_wf_def in_s64_def)
  have t: "list_all (\<lambda>(_, t). time_wf t) ?cbs" by (simp add: time_wf_def in_s64_def)
  have n: "dispatches ?cbs = 2" by (simp add: dispatches_def)
  then have small: "dispatches ?cbs < 2 ^ 53" by simp
  have g: "0 \<le> nrm_ratelimit ?g" "nrm_ratelimit ?g < 2 ^ 63" by simp_all
  have new: "piped (nrm_role_client_new None :: client_fn nrm_role_client) = []" by (simp add: piped_def nrm_role_client_new_def map_filter_def)
  from nrm_ompt_reports_all [OF scope_wf_create g st t small, of "\<lparr>tv_sec = 1, tv_nsec = 0\<rparr>"]
  obtain st1 st2 c d evs rest where r: "ompt_run ?g ?cbs ?st = Inr st1" "nrm_ompt_ratelimit_finalize \<lparr>tv_sec = 1, tv_nsec = 0\<rparr> st1 = Inr (0, st2)"
    "ot_client st2 = Some c" "cl_role c = Some \<lparr>role_ops = Some nrm_role_client_ops, role_data = d\<rparr>"
    "piped d = piped (nrm_role_client_new None :: client_fn nrm_role_client)
       @ map (\<lambda>(t, k). event_msg (sensor_uuid \<lparr>sensor_uuid = ''nrm-ompt''\<rparr>) ?sc t (DFin (of_nat k))) (evs @ rest)"
    "sum_list (map snd (evs @ rest)) = dispatches ?cbs"
    by blast
  have p: "piped d = map (\<lambda>(t, k). event_msg ''nrm-ompt'' ?sc t (DFin (of_nat k))) (evs @ rest)" using r(5) by (simp add: new)
  have "sum_list (map snd (evs @ rest)) = 2" using r(6) n by (simp only:)
  with r(1-4) p show ?thesis by blast
qed


section \<open>The scope of the daemon\<close>

context request_reply
begin

lemma list_scopes_all:
  assumes "cl_role c = Some \<lparr>role_ops = Some ops, role_data = d\<rparr>" and "list_all scope_wf xs"
    and "serve \<lparr>msg_type = NRM_MSG_TYPE_LIST, msg_data = DataList \<lparr>list_type = NRM_MSG_TARGET_TYPE_SCOPE, list_data = ListScopes []\<rparr>\<rparr> d
      = Some (\<lparr>msg_type = NRM_MSG_TYPE_LIST, msg_data = DataList \<lparr>list_type = NRM_MSG_TARGET_TYPE_SCOPE,
          list_data = ListScopes (map scope_to_msg xs)\<rparr>\<rparr>, d')"
  shows "nrm_client_list_scopes (Some c) True
      = Inr (0, Some (c\<lparr>cl_role := Some \<lparr>role_ops = Some ops, role_data = d'\<rparr>\<rparr>), Some (map Some xs))"
proof -
  have "mapE (\<lambda>x. nrm_scope_create_frommsg (Some x)) (map scope_to_msg xs) = Inr (map Some xs)"
    using assms(2) by (induction xs) (simp_all add: nrm_scope_create_frommsg_ok)
  then show ?thesis
    using call [OF assms(1,3)]
    by (simp add: nrm_client_list_scopes_def nrm_msg_set_list_scopes_def msg_set_def nrm_msg_list_new_def nrm_msg_scopelist_new_def
        list_reply_def union_reads)
qed

end

definition list_scopes_msg :: "nrm_scope list \<Rightarrow> nrm_msg" where
  "list_scopes_msg ss = \<lparr>msg_type = NRM_MSG_TYPE_LIST, msg_data = DataList \<lparr>list_type = NRM_MSG_TARGET_TYPE_SCOPE,
     list_data = ListScopes (map scope_to_msg ss)\<rparr>\<rparr>"

definition daemon_scopes :: "'u nrm_system \<Rightarrow> nrm_scope list" where
  "daemon_scopes sys = map snd (st_scopes (srv_state (sys_server sys)))"

lemma respond_list_scopes:
  assumes "quiet sys" and "sys_running sys" and wf: "server_wf (sys_server sys)"
    and "se_unpack env (se_pack env (list_scopes_msg [])) = Some (list_scopes_msg [])"
    and "se_unpack env (se_pack env (list_scopes_msg (daemon_scopes sys))) = Some (list_scopes_msg (daemon_scopes sys))"
  shows "\<exists>sys'. respond env (list_scopes_msg []) sys = Some (list_scopes_msg (daemon_scopes sys), sys')
    \<and> quiet sys' \<and> sys_running sys' \<and> sys_client sys' = sys_client sys \<and> srv_state (sys_server sys') = srv_state (sys_server sys)"
proof -
  let ?s = "sys_server sys" and ?i = "Some (se_ident env)" and ?rep = "list_scopes_msg (daemon_scopes sys)"
  let ?req = "\<lparr>list_type = NRM_MSG_TARGET_TYPE_SCOPE, list_data = ListScopes []\<rparr>"
  obtain d where d: "nrm_server_list_callback ?i (Some ?req) ?s = Inr (0, ?s\<lparr>srv_out := srv_out ?s @
      [OSend \<lparr>msg_type = NRM_MSG_TYPE_LIST, msg_data = DataList \<lparr>list_type = NRM_MSG_TARGET_TYPE_SCOPE, list_data = d\<rparr>\<rparr> ?i]\<rparr>)"
    and l: "listing (srv_state ?s) NRM_MSG_TARGET_TYPE_SCOPE d"
    using list_callback_reply [OF wf, of ?req ?i] by auto
  have "\<lparr>msg_type = NRM_MSG_TYPE_LIST, msg_data = DataList \<lparr>list_type = NRM_MSG_TARGET_TYPE_SCOPE, list_data = d\<rparr>\<rparr> = ?rep"
    using l by (simp add: listing_def list_scopes_msg_def daemon_scopes_def case_prod_unfold comp_def msg_targets)
  with d have "nrm_server_role_callback (se_cb env) (se_raw env) (Some (list_scopes_msg [])) ?i ?s
      = Inr (0, ?s\<lparr>srv_out := srv_out ?s @ [OSend ?rep ?i]\<rparr>)"
    by (simp add: list_scopes_msg_def [of "[]"] role_callback_dispatch)
  moreover have "msg_consistent (list_scopes_msg ss)" "is_reply (list_scopes_msg ss)" for ss
    by (simp_all add: list_scopes_msg_def msg_consistent_def list_consistent_def is_reply_def msg_types)
  ultimately have "respond env (list_scopes_msg []) sys = Some (?rep, sys\<lparr>sys_server := ?s\<lparr>srv_out := srv_out ?s @ [OSend ?rep ?i]\<rparr>, sys_running := True\<rparr>)"
    using respondI [of sys env "list_scopes_msg []" ?rep 0 _ "[]"] assms by (simp add: passes_def)
  then show ?thesis using assms by (simp add: quiet_def)
qed

text \<open>The scopes are taken from the back, so the match that remains is the first in the daemon's order.\<close>

lemma match_loop_finds:
  assumes "scope_wf ret" and "list_all scope_wf xs"
  shows "match_loop (rev (map Some xs)) ret b
     = Inr (case find (\<lambda>s. maps s = maps ret) xs of None \<Rightarrow> (ret, b) | Some s \<Rightarrow> (s, True))"
  using assms(2)
proof (induction xs)
  case (Cons x xs)
  have app: "match_loop (ys @ zs) r b = bindE (match_loop ys r b) (\<lambda>(r, b). match_loop zs r b)" for ys zs r b
    by (induction ys arbitrary: r b) (auto simp: bindE_def split: sum.split)
  have m: "maps (case find (\<lambda>s. maps s = maps ret) xs of None \<Rightarrow> ret | Some s \<Rightarrow> s) = maps ret"
    and wf: "scope_wf (case find (\<lambda>s. maps s = maps ret) xs of None \<Rightarrow> ret | Some s \<Rightarrow> s)"
    using assms(1) Cons.prems by (auto simp: find_Some_iff list_all_iff split: option.split)
  obtain r b' where rb: "(case find (\<lambda>s. maps s = maps ret) xs of None \<Rightarrow> (ret, b) | Some s \<Rightarrow> (s, True)) = (r, b')" by fastforce
  then have r: "maps r = maps ret" "scope_wf r" using m wf by (auto split: option.splits)
  have "match_loop (rev (map Some xs)) ret b = Inr (r, b')" using Cons rb by simp
  then have "match_loop (rev (map Some (x # xs))) ret b = match_loop [Some x] r b'" by (simp add: app)
  also have "\<dots> = Inr (if maps x = maps ret then (x, True) else (r, b'))"
    using r Cons.prems by (simp add: nrm_scope_cmp_ok nrm_scope_destroy_def)
  finally show ?case using rb by (simp split: option.splits)
qed simp

lemma match_scope_connected:
  assumes sys: "quiet sys" "rc_up (sys_client sys) = []" "sys_running sys" "server_wf (sys_server sys)"
    and c: "cl_role c = connected senv sys" and ret: "scope_wf ret"
    and pb: "\<forall>m \<in> {list_scopes_msg [], list_scopes_msg (daemon_scopes sys)}. se_unpack senv (se_pack senv m) = Some m"
  shows "\<exists>sys'. match_scope ret (Some c)
      = Inr (case find (\<lambda>s. maps s = maps ret) (daemon_scopes sys) of
          None \<Rightarrow> (- NRM_EINVAL, Some (c\<lparr>cl_role := connected senv sys'\<rparr>), None)
        | Some s \<Rightarrow> (0, Some (c\<lparr>cl_role := connected senv sys'\<rparr>), Some s))
    \<and> quiet sys' \<and> sys_running sys' \<and> sys_client sys' = sys_client sys \<and> srv_state (sys_server sys') = srv_state (sys_server sys)"
proof -
  have wf: "list_all scope_wf (daemon_scopes sys)"
    using sys(4) by (auto simp: server_wf_def state_wf_def table_wf_def daemon_scopes_def list_all_iff hash_wf_def map_of_eq_Some_iff)
  obtain s1 where s1: "respond senv (list_scopes_msg []) sys = Some (list_scopes_msg (daemon_scopes sys), s1)"
    "quiet s1" "sys_running s1" "sys_client s1 = sys_client sys" "srv_state (sys_server s1) = srv_state (sys_server sys)"
    using respond_list_scopes [OF sys(1,3,4)] pb by blast
  then have "serve senv (list_scopes_msg []) sys = Some (list_scopes_msg (daemon_scopes sys), s1)" using sys(2) by (simp add: serve_def)
  then have "nrm_client_list_scopes (Some c) True = Inr (0, Some (c\<lparr>cl_role := connected senv s1\<rparr>), Some (map Some (daemon_scopes sys)))"
    by (intro sysrr.list_scopes_all [OF c wf]) (simp add: list_scopes_msg_def)
  then show ?thesis
    using match_loop_finds [OF ret wf, of False] s1(2-5)
    by (intro exI [of _ s1]) (auto simp: match_scope_def split: option.split)
qed

text \<open>The scope the tool makes for the comparison.\<close>

lemma hwloc_allowed_ok: "\<exists>s. nrm_scope_create_hwloc_allowed name cpuset nodeset = Inr s \<and> scope_wf s"
proof -
  obtain s1 where s1: "scope_add_all NRM_SCOPE_TYPE_CPU cpuset (nrm_scope_create name) = Inr s1" "scope_wf s1"
    using scope_add_all_ok [OF scope_wf_create, of NRM_SCOPE_TYPE_CPU cpuset name] by (auto simp: scope_consts)
  then show ?thesis
    using scope_add_all_ok [OF s1(2), of NRM_SCOPE_TYPE_NUMA nodeset] by (auto simp: nrm_scope_create_hwloc_allowed_def scope_consts)
qed

text \<open>Without a scope nothing is sent.\<close>

lemma ompt_run_no_scope:
  assumes "ot_scope st = None"
  shows "\<exists>st'. ompt_run g cbs st = Inr st' \<and> ot_client st' = ot_client st \<and> ot_scope st' = None"
  using assms
proof (induction cbs arbitrary: st)
  case (Cons cb cbs)
  obtain k t where cb: "cb = (k, t)" by (cases cb)
  have none: "nrm_client_send_event c t n None v = Inr (- NRM_EINVAL, c)" for c :: "('a, unit) nrm_client option" and n v
    by (simp add: nrm_client_send_event_def split: option.split)
  have "\<exists>st1. nrm_ompt_callback g k t st = Inr st1 \<and> ot_client st1 = ot_client st \<and> ot_scope st1 = None"
    using Cons.prems by (cases k) (simp_all add: nrm_ompt_callback_def ompt_cb_defs nrm_ompt_send_event_def none Let_def)
  then obtain st1 where st1: "nrm_ompt_callback g k t st = Inr st1" "ot_client st1 = ot_client st" "ot_scope st1 = None" by blast
  show ?case using Cons.IH [OF st1(3)] st1 by (simp add: ompt_run_def cb)
qed (simp add: ompt_run_def)

lemma finalize_no_scope:
  assumes "ot_scope st = None"
  shows "nrm_ompt_finalize now st = Inl NullDeref"
  using assms
  by (simp add: nrm_ompt_finalize_def nrm_ompt_ratelimit_finalize_def nrm_scope_destroy_def nrm_client_send_event_def Let_def split: option.split)

text \<open>
  The OpenMP tool on a daemon that has no scope with the resources the process is allowed to use: the initialisation still tells
  the runtime to keep the tool, no callback ever sends anything, and the end of the program dereferences NULL.
\<close>

theorem nrm_ompt_without_scope:
  assumes sys: "quiet sys" "rc_up (sys_client sys) = []" "sys_running sys" "server_wf (sys_server sys)"
    and allowed: "nrm_scope_create_hwloc_allowed (''nrm.ompt.global.'' @ dec_nat (oe_pid env)) (oe_cpuset env) (oe_nodeset env) = Inr a"
    and none: "maps a \<notin> maps ` set (daemon_scopes sys)"
    and pb: "\<forall>m \<in> {list_scopes_msg [], list_scopes_msg (daemon_scopes sys), add_sensor_msg ''nrm-ompt''}. se_unpack senv (se_pack senv m) = Some m"
    and rt: "oe_lookup env = (\<lambda>_. True)" "oe_always env = (\<lambda>_. True)"
  shows "\<exists>st g' lg' ks. nrm_ompt_initialize env now (connected senv sys) ompt_start g lg = Inr (1, st, g', lg', ks)
     \<and> (\<forall>cbs. \<exists>st'. ompt_run g' cbs st = Inr st' \<and> ot_client st' = ot_client st
          \<and> (\<forall>later. nrm_ompt_finalize later st' = Inl NullDeref))"
proof -
  let ?c = "\<lparr>cl_role = connected senv sys, cl_user_fn = None, cl_actuate_fn = None\<rparr> :: ('a nrm_system, unit) nrm_client"
  have wf: "scope_wf a" using hwloc_allowed_ok [of "''nrm.ompt.global.'' @ dec_nat (oe_pid env)" "oe_cpuset env" "oe_nodeset env"] allowed by auto
  have f: "find (\<lambda>s. maps s = maps a) (daemon_scopes sys) = None" using none unfolding find_None_iff image_iff by auto
  obtain s1 where s1: "match_scope a (Some ?c) = Inr (- NRM_EINVAL, Some (?c\<lparr>cl_role := connected senv s1\<rparr>), None)"
    "quiet s1" "sys_running s1" "sys_client s1 = sys_client sys"
    using match_scope_connected [where c = ?c, OF sys _ wf] pb f by (auto simp: daemon_scopes_def)
  let ?c1 = "?c\<lparr>cl_role := connected senv s1\<rparr>"
  have "passes senv (add_sensor_msg ''nrm-ompt'')" using pb by (simp add: passes_def)
  then obtain s2 where "respond senv (add_sensor_msg ''nrm-ompt'') s1 = Some (add_sensor_msg ''nrm-ompt'', s2)"
    using respond_add_sensor [OF s1(2,3)] by blast
  then have "serve senv (add_sensor_msg ''nrm-ompt'') s1 = Some (add_sensor_msg ''nrm-ompt'', s2)"
    unfolding serve_def s1(4) sys(2) by simp
  then have add: "nrm_client_add_sensor (Some ?c1) (Some (nrm_sensor_create ''nrm-ompt''))
      = Inr (0, Some (?c1\<lparr>cl_role := connected senv s2\<rparr>), Some (nrm_sensor_create ''nrm-ompt''))"
    by (intro sysrr.add_sensor [where c = ?c1 and x = "\<lparr>msn_uuid = ''nrm-ompt''\<rparr>"]) (simp_all add: add_sensor_msg_def nrm_sensor_create_def)
  obtain e g' lg' where i: "nrm_init (oe_getenv env) g lg = (e, g', lg')" by (metis prod_cases3)
  have reg: "nrm_ompt_register_cbs (oe_always env) = Inr (map fst ompt_registrations)"
    by (simp add: nrm_ompt_register_cbs_def ompt_registrations_def rt)
  let ?st = "(snd (nrm_ompt_ratelimit_init now ompt_start))\<lparr>ot_client := Some (?c1\<lparr>cl_role := connected senv s2\<rparr>), ot_sensor := Some (nrm_sensor_create ''nrm-ompt'')\<rparr>"
  have init: "\<exists>lg''. nrm_ompt_initialize env now (connected senv sys) ompt_start g lg = Inr (1, ?st, g', lg'', map fst ompt_registrations)"
    using i allowed s1(1) add reg rt
    by (simp add: nrm_ompt_initialize_def nrm_client_create_def find_allowed_scope_def nrm_ompt_ratelimit_init_def ompt_start_def Let_def)
  have "ot_scope ?st = None" by (simp add: nrm_ompt_ratelimit_init_def ompt_start_def)
  from ompt_run_no_scope [OF this] finalize_no_scope init show ?thesis by meson
qed

theorem nrm_ompt_without_scope_witness:
  "\<exists>env senv st g' lg' ks. nrm_ompt_initialize env \<lparr>tv_sec = 0, tv_nsec = 0\<rparr> (connected senv (fresh_system one_sensor)) ompt_start nrm_globals_start nrm_log_start
       = Inr (1, st :: unit nrm_system ompt, g', lg', ks)
     \<and> (\<exists>st'. ompt_run g' [(Dispatch, \<lparr>tv_sec = 5, tv_nsec = 0\<rparr>)] st = Inr st' \<and> ot_client st' = ot_client st
          \<and> nrm_ompt_finalize \<lparr>tv_sec = 9, tv_nsec = 0\<rparr> st' = Inl NullDeref)"
proof -
  let ?env = "\<lparr>oe_getenv = (\<lambda>_. None), oe_pid = 7, oe_cpuset = [0], oe_nodeset = [0], oe_lookup = (\<lambda>_. True), oe_always = (\<lambda>_. True)\<rparr>"
  let ?senv = "table_env [list_scopes_msg [], add_sensor_msg ''nrm-ompt''] no_callbacks :: unit sys_env"
  have d: "daemon_scopes (fresh_system one_sensor) = []" by (simp add: daemon_scopes_def one_sensor_def nrm_state_create_def)
  obtain a where a: "nrm_scope_create_hwloc_allowed (''nrm.ompt.global.'' @ dec_nat (oe_pid ?env)) (oe_cpuset ?env) (oe_nodeset ?env) = Inr a"
    using hwloc_allowed_ok by blast
  have wf: "server_wf (sys_server (fresh_system one_sensor))"
    by (simp add: server_wf_def one_sensor_def state_wf_def nrm_state_create_def table_wf_def hash_wf_def)
  have pb: "\<forall>m \<in> {list_scopes_msg [], list_scopes_msg (daemon_scopes (fresh_system one_sensor)), add_sensor_msg ''nrm-ompt''}.
      se_unpack ?senv (se_pack ?senv m) = Some m"
    unfolding d by (simp add: table_env_passes)
  have "maps a \<notin> maps ` set (daemon_scopes (fresh_system one_sensor))" by (simp add: d)
  from nrm_ompt_without_scope [OF _ _ _ wf a this pb, of "\<lparr>tv_sec = 0, tv_nsec = 0\<rparr>" nrm_globals_start nrm_log_start]
  obtain st g' lg' ks where i: "nrm_ompt_initialize ?env \<lparr>tv_sec = 0, tv_nsec = 0\<rparr> (connected ?senv (fresh_system one_sensor)) ompt_start nrm_globals_start nrm_log_start
       = Inr (1, st, g', lg', ks)"
    and r: "\<forall>cbs. \<exists>st'. ompt_run g' cbs st = Inr st' \<and> ot_client st' = ot_client st \<and> (\<forall>later. nrm_ompt_finalize later st' = Inl NullDeref)"
    by auto
  from r have "\<exists>st'. ompt_run g' [(Dispatch, \<lparr>tv_sec = 5, tv_nsec = 0\<rparr>)] st = Inr st' \<and> ot_client st' = ot_client st
      \<and> nrm_ompt_finalize \<lparr>tv_sec = 9, tv_nsec = 0\<rparr> st' = Inl NullDeref" by blast
  with i show ?thesis by blast
qed


section \<open>The MPI wrappers\<close>

text \<open>The function a wrapper ends up calling.\<close>

definition real_name :: "('a, 'm) mpi_lib \<Rightarrow> string \<Rightarrow> string" where
  "real_name lib fname = (if ml_dlsym lib (CHR ''P'' # fname) then CHR ''P'' # fname else fname)"

text \<open>What was resolved before was resolved by the same rule.\<close>

definition resolved_ok :: "('a, 'm) mpi_lib \<Rightarrow> 'd pmpi \<Rightarrow> bool" where
  "resolved_ok lib st \<longleftrightarrow> (\<forall>f g. pm_real st f = Some g \<longrightarrow> g = real_name lib f)"

lemma resolve_ok:
  assumes "resolved_ok lib st" and "ml_dlsym lib (CHR ''P'' # fname) \<or> ml_dlsym lib fname"
  shows "\<exists>r. NRM_MPI_RESOLVE lib fname st = Inr (st\<lparr>pm_real := r\<rparr>) \<and> r fname = Some (real_name lib fname)
    \<and> resolved_ok lib (st\<lparr>pm_real := r\<rparr>)"
proof (cases "pm_real st fname")
  case None
  let ?r = "(pm_real st)(fname \<mapsto> real_name lib fname)"
  have "NRM_MPI_RESOLVE lib fname st = Inr (st\<lparr>pm_real := ?r\<rparr>)" using None assms(2) by (auto simp: NRM_MPI_RESOLVE_def real_name_def)
  moreover have "resolved_ok lib (st\<lparr>pm_real := ?r\<rparr>)" using assms(1) by (auto simp: resolved_ok_def)
  ultimately show ?thesis by (intro exI [of _ ?r]) simp
next
  case (Some g)
  then show ?thesis using assms by (intro exI [of _ "pm_real st"]) (auto simp: NRM_MPI_RESOLVE_def resolved_ok_def)
qed

lemma pmpi_event_sends:
  assumes "pm_client st = Some c" and "cl_role c = Some \<lparr>role_ops = Some nrm_role_client_ops, role_data = d\<rparr>"
    and "pm_sensor st = Some n" and "pm_scope st = Some sc" and "scope_wf sc"
  shows "\<exists>d'. pmpi_event t st = Inr (st\<lparr>pm_client := Some (c\<lparr>cl_role := Some \<lparr>role_ops = Some nrm_role_client_ops, role_data = d'\<rparr>\<rparr>)\<rparr>)
    \<and> piped d' = piped d @ [event_msg (sensor_uuid n) sc t (DFin 1)]"
  using piped_sink.send_event [OF assms(2,5), of t n "DFin 1"] assms by (auto simp: pmpi_event_def)

lemma pmpi_calls:
  assumes lib: "resolved_ok lib st" "ml_dlsym lib (CHR ''P'' # fname) \<or> ml_dlsym lib fname"
    and c: "pm_client st = Some c" "cl_role c = Some \<lparr>role_ops = Some nrm_role_client_ops, role_data = d\<rparr>"
    and s: "pm_sensor st = Some n" "pm_scope st = Some sc" "scope_wf sc"
  shows "case ml_call lib (real_name lib fname) args m of (ret, m') \<Rightarrow>
     (\<exists>st'. pmpi_forward fname lib args st m = Inr (ret, st', m') \<and> pm_client st' = Some c \<and> resolved_ok lib st')
   \<and> (\<exists>st' c' d'. pmpi_traced fname lib now args st m = Inr (ret, st', m') \<and> resolved_ok lib st'
        \<and> pm_client st' = Some c' \<and> cl_role c' = Some \<lparr>role_ops = Some nrm_role_client_ops, role_data = d'\<rparr>
        \<and> piped d' = piped d @ [event_msg (sensor_uuid n) sc now (DFin 1), event_msg (sensor_uuid n) sc now (DFin 1)])"
proof -
  obtain ret m' where call: "ml_call lib (real_name lib fname) args m = (ret, m')" by fastforce
  obtain r where r: "NRM_MPI_RESOLVE lib fname st = Inr (st\<lparr>pm_real := r\<rparr>)" "r fname = Some (real_name lib fname)" "resolved_ok lib (st\<lparr>pm_real := r\<rparr>)"
    using resolve_ok [OF lib] by blast
  let ?st = "st\<lparr>pm_real := r\<rparr>" and ?c = "\<lambda>d. c\<lparr>cl_role := Some \<lparr>role_ops = Some nrm_role_client_ops, role_data = d\<rparr>\<rparr>"
  let ?e = "event_msg (sensor_uuid n) sc now (DFin 1)"
  obtain d1 where d1: "pmpi_event now ?st = Inr (?st\<lparr>pm_client := Some (?c d1)\<rparr>)" "piped d1 = piped d @ [?e]"
    using pmpi_event_sends [of ?st c d n sc now] c s by auto
  obtain d2 where d2: "pmpi_event now (?st\<lparr>pm_client := Some (?c d1)\<rparr>) = Inr (?st\<lparr>pm_client := Some (?c d2)\<rparr>)" "piped d2 = piped d1 @ [?e]"
    using pmpi_event_sends [of "?st\<lparr>pm_client := Some (?c d1)\<rparr>" "?c d1" d1 n sc now] s by auto
  have "pmpi_forward fname lib args st m = Inr (ret, ?st, m')"
    using r call by (simp add: pmpi_forward_def NRM_MPI_REALNAME_def)
  moreover have "pmpi_traced fname lib now args st m = Inr (ret, ?st\<lparr>pm_client := Some (?c d2)\<rparr>, m')"
    using r call d1 d2 by (simp add: pmpi_traced_def NRM_MPI_REALNAME_def)
  moreover have "resolved_ok lib (?st\<lparr>pm_client := Some (?c d2)\<rparr>)" using r(3) by (simp add: resolved_ok_def)
  ultimately show ?thesis using call r(3) c d1(2) d2(2) by simp
qed

lemma pmpi_finalize:
  assumes lib: "resolved_ok lib st" "ml_dlsym lib ''PMPI_Finalize'' \<or> ml_dlsym lib ''MPI_Finalize''"
  shows "case ml_call lib (real_name lib ''MPI_Finalize'') args m of (ret, m') \<Rightarrow>
     \<exists>st'. MPI_Finalize lib args st m = Inr (ret, st', m') \<and> pm_client st' = None"
proof -
  obtain r where "NRM_MPI_RESOLVE lib ''MPI_Finalize'' st = Inr (st\<lparr>pm_real := r\<rparr>)" "r ''MPI_Finalize'' = Some (real_name lib ''MPI_Finalize'')"
    using resolve_ok [OF lib(1), of "''MPI_Finalize''"] lib(2) by auto
  then show ?thesis
    by (cases "pm_client st"; cases "pm_scope st")
      (auto simp: MPI_Finalize_def nrm_MPI_Finalize_def NRM_MPI_REALNAME_def nrm_scope_destroy_def nrm_client_destroy_def Let_def
        split: prod.split)
qed

lemma pmpi_init:
  assumes lib: "resolved_ok lib st" "ml_dlsym lib ''PMPI_Init'' \<or> ml_dlsym lib ''MPI_Init''"
      "ml_dlsym lib ''PMPI_Comm_rank'' \<or> ml_dlsym lib ''MPI_Comm_rank''"
  shows "case ml_call lib (real_name lib ''MPI_Init'') args m of (ret, m1) \<Rightarrow>
     case ml_call lib (real_name lib ''MPI_Comm_rank'') rank_args m1 of (_, m2) \<Rightarrow>
     if ret \<noteq> 0 then \<exists>st'. MPI_Init lib getenv rank_of cpu node role args rank_args st g lg m = Inr (ret, st', m1) \<and> pm_client st' = pm_client st
     else if fst (nrm_init getenv g lg) \<noteq> 0
     then \<exists>st'. MPI_Init lib getenv rank_of cpu node role args rank_args st g lg m = Inr (fst (nrm_init getenv g lg), st', m2)
       \<and> pm_client st' = pm_client st
     else \<forall>ret' st' m'. MPI_Init lib getenv rank_of cpu node role args rank_args st g lg m = Inr (ret', st', m') \<longrightarrow> m' = m2"
proof -
  obtain ret m1 where c1: "ml_call lib (real_name lib ''MPI_Init'') args m = (ret, m1)" by fastforce
  obtain ret2 m2 where c2: "ml_call lib (real_name lib ''MPI_Comm_rank'') rank_args m1 = (ret2, m2)" by fastforce
  obtain r where r: "NRM_MPI_RESOLVE lib ''MPI_Init'' st = Inr (st\<lparr>pm_real := r\<rparr>)" "r ''MPI_Init'' = Some (real_name lib ''MPI_Init'')"
    "resolved_ok lib (st\<lparr>pm_real := r\<rparr>)"
    using resolve_ok [OF lib(1), of "''MPI_Init''"] lib(2) by auto
  obtain q where q: "NRM_MPI_RESOLVE lib ''MPI_Comm_rank'' (st\<lparr>pm_real := r\<rparr>) = Inr (st\<lparr>pm_real := q\<rparr>)"
    "q ''MPI_Comm_rank'' = Some (real_name lib ''MPI_Comm_rank'')"
    using resolve_ok [OF r(3), of "''MPI_Comm_rank''"] lib(3) by auto
  have rank: "nrm_MPI_Comm_rank lib rank_args (st\<lparr>pm_real := r\<rparr>) m1 = Inr (ret2, st\<lparr>pm_real := q\<rparr>, m2)"
    using q c2 by (simp add: nrm_MPI_Comm_rank_def pmpi_forward_def NRM_MPI_REALNAME_def)
  obtain e g' lg' where i: "nrm_init getenv g lg = (e, g', lg')" by (metis prod_cases3)
  show ?thesis
    using r c1 c2 rank i
    by (auto simp: MPI_Init_def nrm_MPI_Init_def NRM_MPI_REALNAME_def bindE_eq_Inr Let_def split: prod.splits if_splits)
qed

text \<open>
  C19. What the MPI wrappers do to MPI.  \<open>MPI_Allreduce\<close>, \<open>MPI_Barrier\<close>, \<open>MPI_Comm_size\<close>, \<open>MPI_Comm_rank\<close> and \<open>MPI_Finalize\<close> are transparent: each returns what the
  library's function returns and leaves MPI in the state it leaves
  it in, for the PMPI entry point where there is one and the MPI entry point otherwise.  Around an allreduce or a barrier a
  connected client sends exactly two events of value one; both carry the time before the call.  Sizes and ranks send nothing, and the
  end of MPI ends the client.  \<open>MPI_Init\<close> is not transparent.  It hands on the failure of the library's own function; once that
  function has succeeded it returns the error of \<open>nrm_init\<close> when there is one, although MPI is initialised, and otherwise, if the
  exchanges with the daemon that look for the scope and register the sensor end, it has made exactly two calls of MPI, the
  initialisation and a request for the rank.
\<close>

theorem nrm_pmpi_transparent:
  assumes lib: "resolved_ok lib st" "resolved_ok lib st0"
      "\<forall>f \<in> {''MPI_Allreduce'', ''MPI_Barrier'', ''MPI_Comm_size'', ''MPI_Comm_rank'', ''MPI_Finalize'', ''MPI_Init''}. ml_dlsym lib (CHR ''P'' # f) \<or> ml_dlsym lib f"
    and c: "pm_client st = Some c" "cl_role c = Some \<lparr>role_ops = Some nrm_role_client_ops, role_data = d\<rparr>"
    and s: "pm_sensor st = Some n" "pm_scope st = Some sc" "scope_wf sc"
  shows "(\<forall>(wrapper, f) \<in> {(MPI_Allreduce, ''MPI_Allreduce''), (MPI_Barrier, ''MPI_Barrier'')}.
      case ml_call lib (real_name lib f) args m of (ret, m') \<Rightarrow>
        \<exists>st' c' d'. wrapper lib now args st m = Inr (ret, st', m') \<and> resolved_ok lib st'
          \<and> pm_client st' = Some c' \<and> cl_role c' = Some \<lparr>role_ops = Some nrm_role_client_ops, role_data = d'\<rparr>
          \<and> piped d' = piped d @ [event_msg (sensor_uuid n) sc now (DFin 1), event_msg (sensor_uuid n) sc now (DFin 1)])
   \<and> (\<forall>(wrapper, f) \<in> {(MPI_Comm_size, ''MPI_Comm_size''), (MPI_Comm_rank, ''MPI_Comm_rank'')}.
      case ml_call lib (real_name lib f) args m of (ret, m') \<Rightarrow>
        \<exists>st'. wrapper lib args st m = Inr (ret, st', m') \<and> pm_client st' = Some c \<and> resolved_ok lib st')
   \<and> (case ml_call lib (real_name lib ''MPI_Finalize'') args m of (ret, m') \<Rightarrow>
        \<exists>st'. MPI_Finalize lib args st m = Inr (ret, st', m') \<and> pm_client st' = None)
   \<and> (case ml_call lib (real_name lib ''MPI_Init'') args m of (ret, m1) \<Rightarrow>
      case ml_call lib (real_name lib ''MPI_Comm_rank'') rank_args m1 of (_, m2) \<Rightarrow>
        if ret \<noteq> 0 then \<exists>st'. MPI_Init lib getenv rank_of cpu node role args rank_args st0 g lg m = Inr (ret, st', m1) \<and> pm_client st' = pm_client st0
        else if fst (nrm_init getenv g lg) \<noteq> 0
        then \<exists>st'. MPI_Init lib getenv rank_of cpu node role args rank_args st0 g lg m = Inr (fst (nrm_init getenv g lg), st', m2)
          \<and> pm_client st' = pm_client st0
        else \<forall>ret' st' m'. MPI_Init lib getenv rank_of cpu node role args rank_args st0 g lg m = Inr (ret', st', m') \<longrightarrow> m' = m2)"
proof -
  note calls = pmpi_calls [OF lib(1) _ c s, of _ args m now]
  have "(\<forall>(wrapper, f) \<in> {(MPI_Allreduce, ''MPI_Allreduce''), (MPI_Barrier, ''MPI_Barrier'')}.
      case ml_call lib (real_name lib f) args m of (ret, m') \<Rightarrow>
        \<exists>st' c' d'. wrapper lib now args st m = Inr (ret, st', m') \<and> resolved_ok lib st'
          \<and> pm_client st' = Some c' \<and> cl_role c' = Some \<lparr>role_ops = Some nrm_role_client_ops, role_data = d'\<rparr>
          \<and> piped d' = piped d @ [event_msg (sensor_uuid n) sc now (DFin 1), event_msg (sensor_uuid n) sc now (DFin 1)])
   \<and> (\<forall>(wrapper, f) \<in> {(MPI_Comm_size, ''MPI_Comm_size''), (MPI_Comm_rank, ''MPI_Comm_rank'')}.
      case ml_call lib (real_name lib f) args m of (ret, m') \<Rightarrow>
        \<exists>st'. wrapper lib args st m = Inr (ret, st', m') \<and> pm_client st' = Some c \<and> resolved_ok lib st')"
    using calls [of "''MPI_Allreduce''"] calls [of "''MPI_Barrier''"] calls [of "''MPI_Comm_size''"] calls [of "''MPI_Comm_rank''"] lib(3)
    by (simp add: MPI_Allreduce_def MPI_Barrier_def MPI_Comm_size_def MPI_Comm_rank_def nrm_MPI_Allreduce_def nrm_MPI_Barrier_def
        nrm_MPI_Comm_size_def nrm_MPI_Comm_rank_def split: prod.splits)
  moreover have syms: "ml_dlsym lib ''PMPI_Finalize'' \<or> ml_dlsym lib ''MPI_Finalize''" "ml_dlsym lib ''PMPI_Init'' \<or> ml_dlsym lib ''MPI_Init''"
      "ml_dlsym lib ''PMPI_Comm_rank'' \<or> ml_dlsym lib ''MPI_Comm_rank''" using lib(3) by auto
  note pmpi_finalize [OF lib(1) syms(1), of args m]
    pmpi_init [OF lib(2) syms(2,3), where args = args and m = m and rank_args = rank_args and getenv = getenv and g = g and lg = lg
        and rank_of = rank_of and cpu = cpu and node = node and role = role]
  ultimately show ?thesis by (intro conjI) simp_all
qed

theorem nrm_pmpi_transparent_witness:
  "\<exists>st c (d :: client_fn nrm_role_client). pm_client st = Some c \<and> cl_role c = Some \<lparr>role_ops = Some nrm_role_client_ops, role_data = d\<rparr>
     \<and> (\<exists>st' c' d'. MPI_Barrier \<lparr>ml_dlsym = (\<lambda>f. hd f = CHR ''P''), ml_call = (\<lambda>f a m. (3, m @ [f]))\<rparr> \<lparr>tv_sec = 4, tv_nsec = 0\<rparr> () st []
          = Inr (3, st', [''PMPI_Barrier'']) \<and> pm_client st' = Some c' \<and> cl_role c' = Some \<lparr>role_ops = Some nrm_role_client_ops, role_data = d'\<rparr>
          \<and> length (piped d') = length (piped d) + 2)"
proof -
  let ?lib = "\<lparr>ml_dlsym = (\<lambda>f. hd f = CHR ''P''), ml_call = (\<lambda>f a m. (3, m @ [f]))\<rparr> :: (unit, string list) mpi_lib"
  let ?d = "nrm_role_client_new None :: client_fn nrm_role_client"
  let ?c = "\<lparr>cl_role = Some \<lparr>role_ops = Some nrm_role_client_ops, role_data = ?d\<rparr>, cl_user_fn = None, cl_actuate_fn = None\<rparr> :: (client_fn nrm_role_client, unit) nrm_client"
  let ?st = "\<lparr>pm_client = Some ?c, pm_scope = Some (nrm_scope_create ''s''), pm_sensor = Some \<lparr>sensor_uuid = ''n''\<rparr>, pm_real = (\<lambda>_. None)\<rparr>"
  have ok: "resolved_ok ?lib ?st" by (simp add: resolved_ok_def)
  have syms: "\<forall>f \<in> {''MPI_Allreduce'', ''MPI_Barrier'', ''MPI_Comm_size'', ''MPI_Comm_rank'', ''MPI_Finalize'', ''MPI_Init''}.
      ml_dlsym ?lib (CHR ''P'' # f) \<or> ml_dlsym ?lib f" by simp
  have "\<exists>st' c' d'. MPI_Barrier ?lib \<lparr>tv_sec = 4, tv_nsec = 0\<rparr> () ?st [] = Inr (3, st', [''PMPI_Barrier''])
      \<and> pm_client st' = Some c' \<and> cl_role c' = Some \<lparr>role_ops = Some nrm_role_client_ops, role_data = d'\<rparr>
      \<and> length (piped d') = length (piped ?d) + 2"
    using nrm_pmpi_transparent [where c = ?c and d = ?d and n = "\<lparr>sensor_uuid = ''n''\<rparr>" and sc = "nrm_scope_create ''s''"
        and now = "\<lparr>tv_sec = 4, tv_nsec = 0\<rparr>" and args = "()" and m = "[]", OF ok ok syms, THEN conjunct1]
    by (fastforce simp: scope_wf_create real_name_def)
  then show ?thesis by (intro exI [of _ ?st] exI [of _ ?c] exI [of _ ?d]) simp
qed

end
