(* ===== verification/NRM_Extras.thy ===== *)
theory NRM_Extras
  imports NRM_Nrmc NRM_Preload
begin

text \<open>
  The programs that feed the daemon: the dummy sensor (src/binaries/nrm-dummy-extra.c), the wrapper around PAPI
  (src/binaries/nrm-papiwrapper.c) and the bridge to GEOPM (src/binaries/nrm-geopm.c).

  Each keeps its globals in a record.  PAPI, GEOPM, \<open>fork\<close> and \<open>ptrace\<close> are parameters, records of what the
  calls answer.  The reactor carries a state that may be a fault: a callback that faults ends the loop.  A reading of the clock is
  the next one of an arbitrary sequence.  The log and the globals of nrm.c are not read by these programs and left out.
\<close>

section \<open>The start of every program\<close>

record extra_env =
  xe_strtod :: "string \<Rightarrow> double \<times> bool \<times> bool"
  xe_args :: nrm_tools_args
  xe_version :: string
  xe_clock :: "nat \<Rightarrow> nrm_time"
  xe_create :: create_calls
  xe_wakes :: "wake list"
  xe_os :: os_state
  xe_hwloc :: ompt_env
  xe_cpu :: nat
  xe_node :: nat

datatype extra_parsed = Ends int "string list" | Goes nrm_tools_args nat

text \<open>The arguments are parsed; an error, a help or a version request ends the program.\<close>

definition extra_parse :: "extra_env \<Rightarrow> string \<Rightarrow> int \<Rightarrow> string list \<Rightarrow> getopt \<Rightarrow> extra_parsed exec" where
  "extra_parse env name flags argv go =
     bindE (nrm_tools_parse_args (xe_strtod env) argv ((xe_args env)\<lparr>ta_progname := name, ta_flags := flags\<rparr>) go) (\<lambda>(err, args, _).
     Inr (if err < 0 then Ends EXIT_FAILURE (snd (nrm_tools_print_help args))
          else if ta_ask_help args \<noteq> 0 then Ends EXIT_SUCCESS (snd (nrm_tools_print_help args))
          else if ta_ask_version args \<noteq> 0 then Ends EXIT_SUCCESS (snd (nrm_tools_print_version (xe_version env) args))
          else Goes args (nat err)))"

text \<open>A callback over a state that may have faulted.\<close>

definition guarded :: "('s \<Rightarrow> (int \<times> 's) exec) \<Rightarrow> 's exec \<Rightarrow> int \<times> 's exec" where
  "guarded f s = (case s of Inl e \<Rightarrow> (-1, Inl e) | Inr st \<Rightarrow> (case f st of Inl e \<Rightarrow> (-1, Inl e) | Inr (code, st) \<Rightarrow> (code, Inr st)))"

text \<open>A reactor with its callbacks and timer, run over the wakes of the environment.  Destroying it is up to the program.\<close>

definition reactor_over ::
  "extra_env \<Rightarrow> nat set option \<Rightarrow> (signalfd_siginfo \<Rightarrow> 's exec \<Rightarrow> int \<times> 's exec) option \<Rightarrow> ('s exec \<Rightarrow> int \<times> 's exec) \<Rightarrow> double \<Rightarrow> 's \<Rightarrow> 's exec option" where
  "reactor_over env sigmask signal timer freq st =
     (case nrm_reactor_create (xe_create env) True sigmask (xe_os env) of (err, r, os) \<Rightarrow>
        if err \<noteq> 0 then None
        else
          let r = snd (nrm_reactor_setcallbacks r \<lparr>rx_signal = signal, rx_timer = Some timer\<rparr>);
              r = snd (nrm_reactor_settimer r (nrm_time_fromfreq freq))
          in Some (fst (snd (nrm_reactor_start r (xe_wakes env) (Inr st)))))"

definition nth_ptr :: "'a list \<Rightarrow> nat \<Rightarrow> 'a exec" where
  "nth_ptr xs i = (if i < length xs then Inr (xs ! i) else Inl NullDeref)"


section \<open>nrm-dummy-extra\<close>

record 'd dummy_extra =
  dx_client :: "('d, unit) nrm_client option"
  dx_sensor :: "nrm_sensor option"
  dx_scope :: "nrm_scope option"
  dx_actuator :: "nrm_actuator option"
  dx_counter :: int
  dx_reads :: nat

definition dummy_start :: "'d dummy_extra" where
  "dummy_start = \<lparr>dx_client = None, dx_sensor = None, dx_scope = None, dx_actuator = None, dx_counter = 0, dx_reads = 0\<rparr>"

definition nrm_dummy_extra_action_callback :: "string \<Rightarrow> double \<Rightarrow> unit \<Rightarrow> unit exec" where
  "nrm_dummy_extra_action_callback uuid value l = Inr l"

definition nrm_dummy_extra_timer_callback :: "(nat \<Rightarrow> nrm_time) \<Rightarrow> 'd dummy_extra \<Rightarrow> (int \<times> 'd dummy_extra) exec" where
  "nrm_dummy_extra_timer_callback clock st =
     bindE (nrm_client_send_event (dx_client st) (clock (dx_reads st)) (dx_sensor st) (dx_scope st) (d_of_int (dx_counter st))) (\<lambda>(_, c).
     Inr (0, st\<lparr>dx_client := c, dx_counter := s32 (dx_counter st + 1), dx_reads := dx_reads st + 1\<rparr>))"

definition dummy_main ::
  "extra_env \<Rightarrow> ('d, client_fn) nrm_role option \<Rightarrow> string list \<Rightarrow> getopt \<Rightarrow> (int \<times> string list \<times> 'd dummy_extra) exec" where
  "dummy_main env role argv go =
     bindE (extra_parse env ''nrm-dummy-extra'' NRM_TOOLS_ARGS_FLAG_FREQ argv go) (\<lambda>p.
     case p of Ends code out \<Rightarrow> Inr (code, out, dummy_start)
     | Goes args _ \<Rightarrow>
       (case nrm_client_create True role True (ta_upstream_uri args) of (err, c) \<Rightarrow>
        if err \<noteq> 0 then Inr (EXIT_FAILURE, [], dummy_start\<lparr>dx_client := c\<rparr>)
        else
          bindE (nrm_client_add_sensor c (Some (nrm_sensor_create ''nrm-dummy-extra-sensor''))) (\<lambda>(err, c, sensor).
          let st = dummy_start\<lparr>dx_client := c, dx_sensor := sensor\<rparr> in
          if err \<noteq> 0 then Inr (EXIT_FAILURE, [], st)
          else
            bindE (nrm_scope_threadprivate (xe_cpu env) (xe_node env) (Some (nrm_scope_create ''nrm.scope.package.0''))) (\<lambda>(_, scope).
            bindE (nrm_client_add_scope c (Some scope)) (\<lambda>(err, c, scope).
            let st = st\<lparr>dx_client := c, dx_scope := scope\<rparr> in
            if err \<noteq> 0 then Inr (EXIT_FAILURE, [], st)
            else
              bindE (nrm_actuator_discrete_set_choices (Some (nrm_actuator_discrete_create ''nrm-dummy-extra-actuator''))
                       (Some [DFin 0, DFin 1])) (\<lambda>(_, a).
              bindE (nrm_actuator_set_value a (DFin 0)) (\<lambda>(_, a).
              bindE (nrm_client_add_actuator c (Some a)) (\<lambda>(err, c, a).
              let st = st\<lparr>dx_client := c, dx_actuator := a\<rparr> in
              if err \<noteq> 0 then Inr (EXIT_FAILURE, [], st)
              else
                let c = snd (nrm_client_set_actuate_listener c (Some nrm_dummy_extra_action_callback));
                    c = snd (nrm_client_start_actuate_listener c);
                    st = st\<lparr>dx_client := c\<rparr>
                in case reactor_over env None None (guarded (nrm_dummy_extra_timer_callback (xe_clock env))) (ta_freq args) st of
                     None \<Rightarrow> Inr (EXIT_FAILURE, [], st)
                   | Some r \<Rightarrow> bindE r (\<lambda>st. Inr (0, [], st\<lparr>dx_client := the (nrm_client_destroy (Some (dx_client st)))\<rparr>))))))))))"


section \<open>nrm-papiwrapper\<close>

definition SIGCHLD :: nat where "SIGCHLD = 17"
definition CLD_TRAPPED :: int where "CLD_TRAPPED = 4"
definition CLD_STOPPED :: int where "CLD_STOPPED = 5"
definition CLD_CONTINUED :: int where "CLD_CONTINUED = 6"

text \<open>
  The answers of PAPI and of the system.  \<open>pc_component\<close> says whether a child must be traced, NULL is \<open>None\<close>; \<open>pc_waitpid\<close>
  whether the child stopped; a failing read or stop writes no counters.
\<close>

record papi_calls =
  pc_library_init :: bool
  pc_component :: "bool option"
  pc_eventset :: bool
  pc_name_to_code :: "string \<Rightarrow> int option"
  pc_add_event :: "int \<Rightarrow> bool"
  pc_set_inherit :: bool
  pc_fork :: int
  pc_traceme :: bool
  pc_execvp :: bool
  pc_waitpid :: "bool option"
  pc_attach :: bool
  pc_start :: bool
  pc_malloc :: bool
  pc_cont :: bool
  pc_read :: "nat \<Rightarrow> int list option"
  pc_stop :: "int list option"

record 'd papi =
  px_client :: "('d, unit) nrm_client option"
  px_scope :: "nrm_scope option"
  px_sensors :: "nrm_sensor option list"
  px_counters :: "int list option"
  px_count :: nat
  px_cmdpid :: int
  px_reads :: nat

definition papi_start :: "'d papi" where
  "papi_start = \<lparr>px_client = None, px_scope = None, px_sensors = [], px_counters = None, px_count = 0, px_cmdpid = 0, px_reads = 0\<rparr>"

text \<open>The loop over the counters; the timer callback stops at the first error, the last report does not.\<close>

fun papi_send_all :: "bool \<Rightarrow> nrm_time \<Rightarrow> nat list \<Rightarrow> 'd papi \<Rightarrow> (int \<times> 'd papi) exec" where
  "papi_send_all stop time [] st = Inr (0, st)"
| "papi_send_all stop time (i # is) st =
     bindE (nth_ptr (px_sensors st) i) (\<lambda>sensor.
     bindE (case px_counters st of None \<Rightarrow> Inl Uninit | Some cs \<Rightarrow> if i < length cs then Inr (cs ! i) else Inl OutOfBounds) (\<lambda>v.
     bindE (nrm_client_send_event (px_client st) time sensor (px_scope st) (d_of_int v)) (\<lambda>(err, c).
     let st = st\<lparr>px_client := c\<rparr> in
     if stop \<and> err \<noteq> 0 then Inr (-1, st) else papi_send_all stop time is st)))"

definition nrm_papiwrapper_timer_callback :: "papi_calls \<Rightarrow> (nat \<Rightarrow> nrm_time) \<Rightarrow> 'd papi \<Rightarrow> (int \<times> 'd papi) exec" where
  "nrm_papiwrapper_timer_callback pc clock st =
     (case pc_read pc (px_reads st) of
        None \<Rightarrow> Inr (-1, st)
      | Some cs \<Rightarrow>
          papi_send_all True (clock (px_reads st)) [0..<px_count st] (st\<lparr>px_counters := Some cs, px_reads := px_reads st + 1\<rparr>))"

definition nrm_papiwrapper_signal_callback :: "signalfd_siginfo \<Rightarrow> 'd papi \<Rightarrow> (int \<times> 'd papi) exec" where
  "nrm_papiwrapper_signal_callback fdsi st =
     Inr (if ssi_signo fdsi \<noteq> SIGCHLD then -1
          else if ssi_pid fdsi \<noteq> px_cmdpid st then 0
          else if ssi_code fdsi = CLD_STOPPED \<or> ssi_code fdsi = CLD_CONTINUED \<or> ssi_code fdsi = CLD_TRAPPED then 0
          else -1, st)"

fun papi_add_sensors :: "nat \<Rightarrow> string list \<Rightarrow> 'd papi \<Rightarrow> (bool \<times> 'd papi) exec" where
  "papi_add_sensors pid [] st = Inr (True, st)"
| "papi_add_sensors pid (e # es) st =
     bindE (nrm_client_add_sensor (px_client st) (Some (nrm_sensor_create (''nrm.extra.perf.'' @ e @ ''.'' @ dec_nat pid)))) (\<lambda>(err, c, sensor).
     let st = st\<lparr>px_client := c\<rparr> in
     if err \<noteq> 0 then Inr (False, st) else papi_add_sensors pid es (st\<lparr>px_sensors := px_sensors st @ [sensor]\<rparr>))"

text \<open>The labels at the end of \<open>main\<close>, each going on to the next; the events of the arguments are dropped last.\<close>

definition papi_cleanup_client :: "int \<Rightarrow> 'd papi \<Rightarrow> (nrmc_end \<times> string list \<times> 'd papi) exec" where
  "papi_cleanup_client ret st = Inr (Returns ret, [], st\<lparr>px_client := the (nrm_client_destroy (Some (px_client st)))\<rparr>)"

definition papi_cleanup_scope :: "int \<Rightarrow> 'd papi \<Rightarrow> (nrmc_end \<times> string list \<times> 'd papi) exec" where
  "papi_cleanup_scope ret st = bindE (nrm_scope_destroy (px_scope st)) (\<lambda>_. papi_cleanup_client ret st)"

definition papi_cleanup_sensor :: "int \<Rightarrow> 'd papi \<Rightarrow> (nrmc_end \<times> string list \<times> 'd papi) exec" where
  "papi_cleanup_sensor ret st =
     bindE (foldE (\<lambda>i st. bindE (nth_ptr (px_sensors st) i) (\<lambda>_. Inr (st\<lparr>px_sensors := (px_sensors st)[i := None]\<rparr>))) [0..<px_count st] st) (\<lambda>st.
     papi_cleanup_scope ret (st\<lparr>px_sensors := []\<rparr>))"

definition papi_cleanup :: "int \<Rightarrow> 'd papi \<Rightarrow> (nrmc_end \<times> string list \<times> 'd papi) exec" where
  "papi_cleanup ret st = papi_cleanup_sensor ret (st\<lparr>px_counters := None\<rparr>)"

text \<open>From the initialisation of PAPI to its event set.\<close>

definition papi_setup :: "papi_calls \<Rightarrow> bool \<Rightarrow> string list \<Rightarrow> bool" where
  "papi_setup pc inherit events \<longleftrightarrow>
     pc_library_init pc \<and> pc_component pc \<noteq> None \<and> pc_eventset pc
     \<and> list_all (\<lambda>e. case pc_name_to_code pc e of None \<Rightarrow> False | Some code \<Rightarrow> pc_add_event pc code) events
     \<and> (inherit \<longrightarrow> pc_set_inherit pc)"

text \<open>Attaching to the child: \<open>pc_waitpid\<close> is only asked when the child is traced.\<close>

definition papi_attach :: "papi_calls \<Rightarrow> bool \<Rightarrow> bool" where
  "papi_attach pc ptrace \<longleftrightarrow> (ptrace \<longrightarrow> pc_waitpid pc = Some True) \<and> pc_attach pc \<and> pc_start pc \<and> pc_malloc pc"

definition papi_events :: "nrm_tools_args \<Rightarrow> string list exec" where
  "papi_events args = bindE (derefE (ta_events args)) (\<lambda>evs. Inr (if length evs = 0 then [''PAPI_TOT_INS''] else evs))"

text \<open>The part of the parent after the attachment; the reactor is not destroyed.\<close>

definition papi_loop :: "extra_env \<Rightarrow> papi_calls \<Rightarrow> bool \<Rightarrow> double \<Rightarrow> 'd papi \<Rightarrow> (nrmc_end \<times> string list \<times> 'd papi) exec" where
  "papi_loop env pc ptrace freq st =
     (case reactor_over env (Some {SIGINT, SIGTERM, SIGCHLD})
            (Some (\<lambda>fdsi. guarded (nrm_papiwrapper_signal_callback fdsi))) (guarded (nrm_papiwrapper_timer_callback pc (xe_clock env))) freq st of
        None \<Rightarrow> papi_cleanup EXIT_FAILURE st
      | Some r \<Rightarrow>
          if ptrace \<and> \<not> pc_cont pc then papi_cleanup EXIT_FAILURE st
          else
            bindE r (\<lambda>st.
            let st = (case pc_stop pc of None \<Rightarrow> st | Some cs \<Rightarrow> st\<lparr>px_counters := Some cs\<rparr>) in
            bindE (papi_send_all False (xe_clock env (px_reads st)) [0..<px_count st] st) (\<lambda>(_, st). papi_cleanup EXIT_SUCCESS st)))"

definition papi_find_allowed_scope ::
  "ompt_env \<Rightarrow> ('d, 'l) nrm_client option \<Rightarrow> (int \<times> ('d, 'l) nrm_client option \<times> nrm_scope option) exec" where
  "papi_find_allowed_scope env client =
     bindE (nrm_scope_create_hwloc_allowed (''nrm.extra.papi.'' @ dec_nat (oe_pid env)) (oe_cpuset env) (oe_nodeset env)) (\<lambda>allowed.
     match_scope allowed client)"

definition papi_main ::
  "extra_env \<Rightarrow> papi_calls \<Rightarrow> (string \<Rightarrow> string option) \<Rightarrow> ('d, client_fn) nrm_role option \<Rightarrow> string list \<Rightarrow> getopt
     \<Rightarrow> (nrmc_end \<times> string list \<times> 'd papi) exec" where
  "papi_main env pc environ role argv go =
     bindE (extra_parse env ''nrm-papiwrapper'' (NRM_TOOLS_ARGS_FLAG_FREQ + NRM_TOOLS_ARGS_FLAG_EVENT + NRM_TOOLS_ARGS_FLAG_INHERIT) argv go) (\<lambda>p.
     case p of Ends code out \<Rightarrow> Inr (Returns code, out, papi_start)
     | Goes args n \<Rightarrow>
       if n \<ge> length argv then Inr (Returns EXIT_FAILURE, [], papi_start)
       else
         let argv = drop n argv in
         bindE (papi_events args) (\<lambda>events.
         let st = papi_start\<lparr>px_count := length events\<rparr> in
         case nrm_client_create True role True (ta_upstream_uri args) of (err, c) \<Rightarrow>
         if err \<noteq> 0 \<or> c = None then Inr (Returns EXIT_FAILURE, [], st)
         else
           bindE (papi_find_allowed_scope (xe_hwloc env) c) (\<lambda>(err, c, scope).
           let st = st\<lparr>px_client := c, px_scope := scope\<rparr> in
           if err \<noteq> 0 then papi_cleanup_client EXIT_FAILURE st
           else
             bindE (papi_add_sensors (oe_pid (xe_hwloc env)) events st) (\<lambda>(ok, st).
             if \<not> ok then papi_cleanup_sensor EXIT_FAILURE st
             else if \<not> papi_setup pc (ta_inheritance args \<noteq> 0) events then papi_cleanup EXIT_FAILURE st
             else
               let ptrace = the (pc_component pc); st = st\<lparr>px_cmdpid := pc_fork pc\<rparr> in
               if pc_fork pc < 0 then papi_cleanup EXIT_FAILURE st
               else if pc_fork pc = 0 then
                 Inr (if (ptrace \<and> \<not> pc_traceme pc) \<or> \<not> pc_execvp pc then Returns EXIT_FAILURE else Execs argv environ, [], st)
               else if \<not> papi_attach pc ptrace then papi_cleanup EXIT_FAILURE st
               else papi_loop env pc ptrace (ta_freq args) st))))"


section \<open>nrm-geopm\<close>

text \<open>
  The answers of GEOPM: its numbers for packages and gpus, the domains of a type, whether a control could be written, the cpus of a
  package, the domain of a signal and its name, and the readings of a signal, \<open>None\<close> when the read fails.  What the bridge
  wrote is the state of its listener: the domains and the values.
\<close>

record geopm =
  gp_package :: int
  gp_gpu :: int
  gp_num_domain :: "int \<Rightarrow> int"
  gp_write_control :: "int \<Rightarrow> double \<Rightarrow> int"
  gp_domain_nested :: "nat \<Rightarrow> nat list"
  gp_signal_domain_type :: "string \<Rightarrow> int"
  gp_domain_name :: "int \<Rightarrow> string option"
  gp_read_signal :: "nat \<Rightarrow> string \<Rightarrow> int \<Rightarrow> nat \<Rightarrow> double option"
  gp_num_signal_name :: int

type_synonym geopm_writes = "(int \<times> double) list"

record nrm_geopm_eventinfo =
  ge_name :: string
  ge_domain_type :: int
  ge_num_domains :: nat
  ge_sensor :: "nrm_sensor option"
  ge_scopes :: "nrm_scope option list"

record 'd geopm_bridge =
  gx_client :: "('d, geopm_writes) nrm_client option"
  gx_events :: "nrm_geopm_eventinfo list"
  gx_actuator :: "nrm_actuator option"
  gx_reads :: nat

definition geopm_start :: "'d geopm_bridge" where
  "geopm_start = \<lparr>gx_client = None, gx_events = [], gx_actuator = None, gx_reads = 0\<rparr>"

fun geopm_write_loop :: "geopm \<Rightarrow> double \<Rightarrow> int list \<Rightarrow> geopm_writes \<Rightarrow> int \<times> geopm_writes" where
  "geopm_write_loop gp value [] w = (0, w)"
| "geopm_write_loop gp value (i # is) w =
     (let err = gp_write_control gp i value
      in if err \<noteq> 0 then (err, w) else geopm_write_loop gp value is (w @ [(i, value)]))"

definition nrm_geopm_cpu_act_callback :: "geopm \<Rightarrow> double \<Rightarrow> geopm_writes \<Rightarrow> int \<times> geopm_writes" where
  "nrm_geopm_cpu_act_callback gp value w = geopm_write_loop gp value [0..gp_num_domain gp (gp_package gp) - 1] w"

definition nrm_geopm_domain_to_scope :: "geopm \<Rightarrow> nrm_scope \<Rightarrow> int \<Rightarrow> nat \<Rightarrow> nrm_scope exec" where
  "nrm_geopm_domain_to_scope gp scope domain_type domain_idx =
     (if domain_type = gp_package gp then scope_add_all NRM_SCOPE_TYPE_CPU (gp_domain_nested gp domain_idx) scope
      else if domain_type = gp_gpu gp then scope_add_all NRM_SCOPE_TYPE_GPU [domain_idx] scope
      else Inr scope)"

text \<open>The third result is \<open>added\<close>; nothing is added.\<close>

definition nrm_geopm_find_scope ::
  "('d, 'l) nrm_client option \<Rightarrow> nrm_scope \<Rightarrow> (('d, 'l) nrm_client option \<times> nrm_scope \<times> bool) exec" where
  "nrm_geopm_find_scope client scope =
     bindE (nrm_client_list_scopes client True) (\<lambda>(_, client, nrmd_scopes).
     bindE (case nrmd_scopes of None \<Rightarrow> Inl Uninit | Some xs \<Rightarrow> Inr xs) (\<lambda>xs.
     bindE (match_loop (rev xs) scope False) (\<lambda>(scope, newscope). Inr (client, scope, \<not> newscope))))"

definition geopm_prepare_scope ::
  "geopm \<Rightarrow> string \<Rightarrow> string \<Rightarrow> int \<Rightarrow> nat \<Rightarrow> ('d, 'l) nrm_client option \<times> nrm_scope option list
     \<Rightarrow> (('d, 'l) nrm_client option \<times> nrm_scope option list) exec" where
  "geopm_prepare_scope gp name domain_name domain_type i = (\<lambda>(c, scopes).
     bindE (nrm_geopm_domain_to_scope gp (nrm_scope_create (''nrm.geopm.'' @ name @ ''.'' @ domain_name @ ''.'' @ dec_nat i)) domain_type i) (\<lambda>scope.
     bindE (nrm_geopm_find_scope c scope) (\<lambda>(c, scope, _). Inr (c, scopes @ [Some scope]))))"

definition nrm_geopm_prepare_event :: "geopm \<Rightarrow> string \<Rightarrow> 'd geopm_bridge \<Rightarrow> 'd geopm_bridge exec" where
  "nrm_geopm_prepare_event gp name st =
     (let domain_type = gp_signal_domain_type gp name in
      bindE (assertE (domain_type > 0)) (\<lambda>_.
      let num_domains = gp_num_domain gp domain_type in
      bindE (assertE (num_domains > 0)) (\<lambda>_.
      bindE (case gp_domain_name gp domain_type of None \<Rightarrow> Inl AssertFail | Some d \<Rightarrow> Inr d) (\<lambda>domain_name.
      bindE (nrm_client_add_sensor (gx_client st) (Some (nrm_sensor_create (''nrm.geopm.'' @ name)))) (\<lambda>(_, c, sensor).
      bindE (foldE (geopm_prepare_scope gp name domain_name domain_type) [0..<nat num_domains] (c, [])) (\<lambda>(c, scopes).
      Inr (st\<lparr>gx_client := c, gx_events := gx_events st @ [\<lparr>ge_name = name, ge_domain_type = domain_type,
             ge_num_domains = nat num_domains, ge_sensor = sensor, ge_scopes = scopes\<rparr>]\<rparr>)))))))"

text \<open>The two limits are used whether or not they could be read.\<close>

definition nrm_geopm_prepare_cpu_actuator :: "geopm \<Rightarrow> nrm_actuator \<Rightarrow> nrm_actuator exec" where
  "nrm_geopm_prepare_cpu_actuator gp a =
     bindE (case gp_read_signal gp 0 ''CPU_POWER_LIMIT_DEFAULT'' (gp_package gp) 0 of None \<Rightarrow> Inl Uninit | Some v \<Rightarrow> Inr v) (\<lambda>hi.
     bindE (case gp_read_signal gp 0 ''CPU_POWER_MIN_AVAIL'' (gp_package gp) 0 of None \<Rightarrow> Inl Uninit | Some v \<Rightarrow> Inr v) (\<lambda>lo.
     bindE (nrm_actuator_set_value (snd (nrm_actuator_continuous_set_limits (Some a) lo hi)) hi) (\<lambda>(_, a). Inr a)))"

definition geopm_report_domain ::
  "geopm \<Rightarrow> nat \<Rightarrow> nrm_time \<Rightarrow> nrm_geopm_eventinfo \<Rightarrow> nat \<Rightarrow> ('d, 'l) nrm_client option \<Rightarrow> ('d, 'l) nrm_client option exec" where
  "geopm_report_domain gp n time event i c =
     bindE (nth_ptr (ge_scopes event) i) (\<lambda>s.
     let value = (case gp_read_signal gp n (ge_name event) (ge_domain_type event) i of None \<Rightarrow> DFin 0 | Some v \<Rightarrow> v) in
     bindE (nrm_client_send_event c time (ge_sensor event) s value) (\<lambda>(_, c). Inr c))"

definition nrm_geopm_timer_callback :: "geopm \<Rightarrow> (nat \<Rightarrow> nrm_time) \<Rightarrow> 'd geopm_bridge \<Rightarrow> (int \<times> 'd geopm_bridge) exec" where
  "nrm_geopm_timer_callback gp clock st =
     bindE (foldE (\<lambda>event. foldE (geopm_report_domain gp (gx_reads st) (clock (gx_reads st)) event) [0..<ge_num_domains event])
       (gx_events st) (gx_client st)) (\<lambda>c. Inr (0, st\<lparr>gx_client := c, gx_reads := gx_reads st + 1\<rparr>))"

text \<open>The end of \<open>main\<close>, from the label \<open>cleanup_act\<close> on.\<close>

definition geopm_cleanup_event :: "nrm_geopm_eventinfo \<Rightarrow> ('d, 'l) nrm_client option \<Rightarrow> ('d, 'l) nrm_client option exec" where
  "geopm_cleanup_event e c =
     bindE (nrm_client_remove_sensor c (ge_sensor e)) (\<lambda>(_, c).
     foldE (\<lambda>i c. bindE (nth_ptr (ge_scopes e) i) (\<lambda>s. bindE (nrm_scope_destroy s) (\<lambda>_. Inr c))) [0..<ge_num_domains e] c)"

definition geopm_cleanup_act :: "int \<Rightarrow> 'd geopm_bridge \<Rightarrow> (int \<times> string list \<times> 'd geopm_bridge) exec" where
  "geopm_cleanup_act ret st =
     bindE (nrm_actuator_destroy (Some (gx_actuator st))) (\<lambda>a.
     bindE (foldE geopm_cleanup_event (gx_events st) (gx_client st)) (\<lambda>c.
     Inr (ret, [], st\<lparr>gx_client := the (nrm_client_destroy (Some c)), gx_events := [], gx_actuator := the a\<rparr>)))"

definition geopm_cleanup :: "int \<Rightarrow> 'd geopm_bridge \<Rightarrow> (int \<times> string list \<times> 'd geopm_bridge) exec" where
  "geopm_cleanup ret st =
     bindE (nrm_client_remove_actuator (gx_client st) (gx_actuator st)) (\<lambda>(_, c). geopm_cleanup_act ret (st\<lparr>gx_client := c\<rparr>))"

definition geopm_main ::
  "extra_env \<Rightarrow> geopm \<Rightarrow> ('d, client_fn) nrm_role option \<Rightarrow> string list \<Rightarrow> getopt \<Rightarrow> (int \<times> string list \<times> 'd geopm_bridge) exec" where
  "geopm_main env gp role argv go =
     bindE (extra_parse env ''nrm-geopm'' (NRM_TOOLS_ARGS_FLAG_FREQ + NRM_TOOLS_ARGS_FLAG_EVENT) argv go) (\<lambda>p.
     case p of Ends code out \<Rightarrow> Inr (code, out, geopm_start)
     | Goes args _ \<Rightarrow>
       bindE (derefE (ta_events args)) (\<lambda>evs.
       let evs = (if length evs = 0 then [''CPU_FREQUENCY_STATUS''] else evs) in
       case nrm_client_create True role True (ta_upstream_uri args) of (err, c) \<Rightarrow>
       if err \<noteq> 0 \<or> c = None then Inr (EXIT_FAILURE, [], geopm_start)
       else
         bindE (assertE (gp_num_signal_name gp > 0)) (\<lambda>_.
         bindE (foldE (nrm_geopm_prepare_event gp) evs (geopm_start\<lparr>gx_client := c\<rparr>)) (\<lambda>st.
         bindE (nrm_geopm_prepare_cpu_actuator gp (nrm_actuator_continuous_create ''nrm.geopm.cpu.power'')) (\<lambda>a.
         bindE (nrm_client_add_actuator (gx_client st) (Some a)) (\<lambda>(err, c, a).
         let st = st\<lparr>gx_client := c, gx_actuator := a\<rparr> in
         if err \<noteq> 0 then geopm_cleanup_act EXIT_FAILURE st
         else
           let c = snd (nrm_client_set_actuate_listener c (Some (\<lambda>uuid value w. Inr (snd (nrm_geopm_cpu_act_callback gp value w)))));
               c = snd (nrm_client_start_actuate_listener c);
               st = st\<lparr>gx_client := c\<rparr>
           in case reactor_over env None None (guarded (nrm_geopm_timer_callback gp (xe_clock env))) (ta_freq args) st of
                None \<Rightarrow> geopm_cleanup EXIT_FAILURE st
              | Some r \<Rightarrow> bindE r (geopm_cleanup EXIT_SUCCESS)))))))"


section \<open>Properties\<close>

text \<open>The counter of the dummy sensor, seen through the reactor.\<close>

definition dummy_ready :: "nrm_sensor \<Rightarrow> nrm_scope \<Rightarrow> client_fn nrm_role_client \<Rightarrow> client_fn nrm_role_client dummy_extra \<Rightarrow> bool" where
  "dummy_ready n sc d st \<longleftrightarrow>
     (\<exists>c. dx_client st = Some c \<and> cl_role c = Some \<lparr>role_ops = Some nrm_role_client_ops, role_data = d\<rparr>)
   \<and> dx_sensor st = Some n \<and> dx_scope st = Some sc"

lemma dummy_timer_sends:
  assumes st: "dummy_ready n sc d st" and sc: "scope_wf sc" and k: "0 \<le> dx_counter st" "dx_counter st < 2 ^ 31 - 1"
  shows "\<exists>st' d'. nrm_dummy_extra_timer_callback clock st = Inr (0, st') \<and> dummy_ready n sc d' st'
    \<and> dx_counter st' = dx_counter st + 1 \<and> dx_reads st' = dx_reads st + 1
    \<and> piped d' = piped d @ [event_msg (sensor_uuid n) sc (clock (dx_reads st)) (d_of_int (dx_counter st))]"
proof -
  obtain c where c: "dx_client st = Some c" "cl_role c = Some \<lparr>role_ops = Some nrm_role_client_ops, role_data = d\<rparr>"
    and s: "dx_sensor st = Some n" "dx_scope st = Some sc" using st by (auto simp: dummy_ready_def)
  have "s32 (dx_counter st + 1) = dx_counter st + 1" using k by (intro s32_id) (simp add: in_s32_def)
  then show ?thesis
    using piped_sink.send_event [OF c(2) sc, of "clock (dx_reads st)" n "d_of_int (dx_counter st)"] c(1) s
    by (auto simp: nrm_dummy_extra_timer_callback_def dummy_ready_def)
qed

text \<open>
  A program woken by its timer some number of times sends that many events, numbered from zero, each with the reading of
  the clock it took.
\<close>

theorem nrm_dummy_extra_counts:
  assumes "dummy_ready n sc d st" and sc: "scope_wf sc" and "dx_counter st = int (dx_reads st)" and "dx_reads st + k < 2 ^ 31"
  shows "\<exists>st' d'. ((snd \<circ> guarded (nrm_dummy_extra_timer_callback clock)) ^^ k) (Inr st) = Inr st' \<and> dummy_ready n sc d' st'
     \<and> piped d' = piped d @ map (\<lambda>i. event_msg (sensor_uuid n) sc (clock i) (d_of_int (int i))) [dx_reads st..<dx_reads st + k]"
  using assms(1,3,4)
proof (induction k arbitrary: d st)
  case (Suc k)
  obtain st1 d1 where s1: "nrm_dummy_extra_timer_callback clock st = Inr (0, st1)" "dummy_ready n sc d1 st1"
    "dx_counter st1 = int (dx_reads st1)" "dx_reads st1 = dx_reads st + 1"
    "piped d1 = piped d @ [event_msg (sensor_uuid n) sc (clock (dx_reads st)) (d_of_int (int (dx_reads st)))]"
    using dummy_timer_sends [OF Suc.prems(1) sc, of clock] Suc.prems(2,3) by auto
  have lt: "dx_reads st1 + k < 2 ^ 31" using s1(4) Suc.prems(3) by simp
  let ?f = "snd \<circ> guarded (nrm_dummy_extra_timer_callback clock)"
  from Suc.IH [OF s1(2,3) lt] obtain st' d' where r: "(?f ^^ k) (Inr st1) = Inr st'" "dummy_ready n sc d' st'"
    "piped d' = piped d1 @ map (\<lambda>i. event_msg (sensor_uuid n) sc (clock i) (d_of_int (int i))) [dx_reads st1..<dx_reads st1 + k]"
    by blast
  have "?f (Inr st) = Inr st1" by (simp add: guarded_def s1(1))
  then have "(?f ^^ Suc k) (Inr st) = Inr st'" using r(1) unfolding funpow_Suc_right by simp
  moreover have "[dx_reads st..<dx_reads st + Suc k] = dx_reads st # [dx_reads st1..<dx_reads st1 + k]"
    unfolding s1(4) by (simp add: upt_conv_Cons del: upt_Suc)
  then have "piped d' = piped d @ map (\<lambda>i. event_msg (sensor_uuid n) sc (clock i) (d_of_int (int i))) [dx_reads st..<dx_reads st + Suc k]"
    unfolding r(3) s1(5) by simp
  ultimately show ?case using r(2) by blast
qed auto

text \<open>
  The end of the wrapped command: the loop goes on exactly for a child signal about another process, or about the
  command when it only stopped, continued or was trapped.
\<close>

theorem nrm_papiwrapper_ends_with_command:
  "nrm_papiwrapper_signal_callback fdsi st = Inr (code, st') \<Longrightarrow>
     st' = st \<and> (code = 0 \<longleftrightarrow> ssi_signo fdsi = SIGCHLD
       \<and> (ssi_pid fdsi = px_cmdpid st \<longrightarrow> ssi_code fdsi \<in> {CLD_STOPPED, CLD_CONTINUED, CLD_TRAPPED}))"
  by (auto simp: nrm_papiwrapper_signal_callback_def split: if_splits)

text \<open>
  A power limit is written to the packages in order, with the same value, up to the first that refuses it, whose error is returned.
\<close>

theorem nrm_geopm_limit_reaches_packages:
  "nrm_geopm_cpu_act_callback gp value w
     = (let ps = [0..gp_num_domain gp (gp_package gp) - 1]; fails = filter (\<lambda>i. gp_write_control gp i value \<noteq> 0) ps
        in (if fails = [] then 0 else gp_write_control gp (hd fails) value,
            w @ map (\<lambda>i. (i, value)) (takeWhile (\<lambda>i. gp_write_control gp i value = 0) ps)))"
proof -
  have "geopm_write_loop gp value ps w
     = (if filter (\<lambda>i. gp_write_control gp i value \<noteq> 0) ps = [] then 0
        else gp_write_control gp (hd (filter (\<lambda>i. gp_write_control gp i value \<noteq> 0) ps)) value,
        w @ map (\<lambda>i. (i, value)) (takeWhile (\<lambda>i. gp_write_control gp i value = 0) ps))" for ps
    by (induction ps arbitrary: w) (simp_all add: Let_def)
  then show ?thesis by (simp add: nrm_geopm_cpu_act_callback_def Let_def)
qed

text \<open>An event that is ready: one scope for every domain.\<close>

definition eventinfo_ok :: "nrm_geopm_eventinfo \<Rightarrow> bool" where
  "eventinfo_ok e \<longleftrightarrow> ge_sensor e \<noteq> None \<and> length (ge_scopes e) = ge_num_domains e
     \<and> list_all (\<lambda>s. case s of None \<Rightarrow> False | Some s \<Rightarrow> scope_wf s) (ge_scopes e)"

definition domain_report :: "geopm \<Rightarrow> nat \<Rightarrow> nrm_time \<Rightarrow> nrm_geopm_eventinfo \<Rightarrow> nat \<Rightarrow> nrm_msg" where
  "domain_report gp n t e i = event_msg (sensor_uuid (the (ge_sensor e))) (the (ge_scopes e ! i)) t
     (case gp_read_signal gp n (ge_name e) (ge_domain_type e) i of None \<Rightarrow> DFin 0 | Some v \<Rightarrow> v)"

abbreviation on_pipe :: "client_fn nrm_role_client \<Rightarrow> (client_fn nrm_role_client, 'l) nrm_client \<Rightarrow> bool" where
  "on_pipe d c \<equiv> cl_role c = Some \<lparr>role_ops = Some nrm_role_client_ops, role_data = d\<rparr>"

lemma report_domains:
  assumes "eventinfo_ok e" and "on_pipe d c" and "\<And>i. i \<in> set is \<Longrightarrow> i < ge_num_domains e"
  shows "\<exists>c' d'. foldE (geopm_report_domain gp n t e) is (Some c) = Inr (Some c') \<and> on_pipe d' c'
     \<and> piped d' = piped d @ map (domain_report gp n t e) is"
  using assms(2,3)
proof (induction "is" arbitrary: c d)
  case (Cons i "is")
  have i: "i < length (ge_scopes e)" using Cons.prems(2) assms(1) by (simp add: eventinfo_ok_def)
  then obtain s where s: "ge_scopes e ! i = Some s" "scope_wf s"
    using assms(1) by (auto simp: eventinfo_ok_def list_all_length split: option.splits)
  obtain sn where sn: "ge_sensor e = Some sn" using assms(1) by (auto simp: eventinfo_ok_def)
  let ?v = "case gp_read_signal gp n (ge_name e) (ge_domain_type e) i of None \<Rightarrow> DFin 0 | Some v \<Rightarrow> v"
  obtain d1 where "nrm_client_send_event (Some c) t (Some sn) (Some s) ?v
      = Inr (0, Some (c\<lparr>cl_role := Some \<lparr>role_ops = Some nrm_role_client_ops, role_data = d1\<rparr>\<rparr>))"
    and d1: "piped d1 = piped d @ [event_msg (sensor_uuid sn) s t ?v]"
    using piped_sink.send_event [OF Cons.prems(1) s(2)] by blast
  then have "geopm_report_domain gp n t e i (Some c) = Inr (Some (c\<lparr>cl_role := Some \<lparr>role_ops = Some nrm_role_client_ops, role_data = d1\<rparr>\<rparr>))"
    using i s sn by (simp add: geopm_report_domain_def nth_ptr_def)
  moreover have "domain_report gp n t e i = event_msg (sensor_uuid sn) s t ?v" by (simp add: domain_report_def s sn)
  ultimately show ?case
    using Cons.IH [of "c\<lparr>cl_role := Some \<lparr>role_ops = Some nrm_role_client_ops, role_data = d1\<rparr>\<rparr>" d1] Cons.prems(2) d1 by auto
qed auto

text \<open>
  One turn of the GEOPM bridge sends one event for every domain of every signal it was asked for, in order, with the domain's own
  scope and the value that was read there (0 when the reading failed), all at the time the turn began.
\<close>

theorem nrm_geopm_reports_domains:
  assumes ok: "list_all eventinfo_ok (gx_events st)" and c: "gx_client st = Some c" "on_pipe d c"
  shows "\<exists>st' c' d'. nrm_geopm_timer_callback gp clock st = Inr (0, st') \<and> gx_client st' = Some c' \<and> on_pipe d' c'
     \<and> piped d' = piped d @ concat (map (\<lambda>e. map (\<lambda>i. event_msg (sensor_uuid (the (ge_sensor e))) (the (ge_scopes e ! i)) (clock (gx_reads st))
          (case gp_read_signal gp (gx_reads st) (ge_name e) (ge_domain_type e) i of None \<Rightarrow> DFin 0 | Some v \<Rightarrow> v))
          [0..<ge_num_domains e]) (gx_events st))"
proof -
  let ?n = "gx_reads st" and ?t = "clock (gx_reads st)"
  have "\<exists>c' d'. foldE (\<lambda>e. foldE (geopm_report_domain gp ?n ?t e) [0..<ge_num_domains e]) es (Some c) = Inr (Some c') \<and> on_pipe d' c'
      \<and> piped d' = piped d @ concat (map (\<lambda>e. map (domain_report gp ?n ?t e) [0..<ge_num_domains e]) es)"
    if "list_all eventinfo_ok es" for es
    using that c(2)
  proof (induction es arbitrary: c d)
    case (Cons e es)
    have ok: "eventinfo_ok e" "\<And>i. i \<in> set [0..<ge_num_domains e] \<Longrightarrow> i < ge_num_domains e" using Cons.prems(1) by simp_all
    obtain c1 d1 where s1: "foldE (geopm_report_domain gp ?n ?t e) [0..<ge_num_domains e] (Some c) = Inr (Some c1)" "on_pipe d1 c1"
      "piped d1 = piped d @ map (domain_report gp ?n ?t e) [0..<ge_num_domains e]"
      using report_domains [where gp = gp and n = ?n and t = ?t, OF ok(1) Cons.prems(2) ok(2)] by blast
    then show ?case using Cons.IH [of c1 d1] Cons.prems(1) by auto
  qed auto
  from this [OF ok] show ?thesis
    using c(1) unfolding domain_report_def by (auto simp: nrm_geopm_timer_callback_def)
qed

theorem nrm_geopm_reports_domains_witness:
  "\<exists>st st' c' d'. gx_reads st = 0
     \<and> nrm_geopm_timer_callback \<lparr>gp_package = 2, gp_gpu = 6, gp_num_domain = (\<lambda>_. 2), gp_write_control = (\<lambda>_ _. 0), gp_domain_nested = (\<lambda>_. []),
         gp_signal_domain_type = (\<lambda>_. 2), gp_domain_name = (\<lambda>_. Some ''package''),
         gp_read_signal = (\<lambda>_ _ _ i. if i = 0 then Some (DFin 4) else None), gp_num_signal_name = 1\<rparr> (\<lambda>_. \<lparr>tv_sec = 3, tv_nsec = 0\<rparr>) st = Inr (0, st')
     \<and> gx_client st' = Some c' \<and> on_pipe d' c'
     \<and> piped d' = [event_msg ''n'' (nrm_scope_create ''a'') \<lparr>tv_sec = 3, tv_nsec = 0\<rparr> (DFin 4), event_msg ''n'' (nrm_scope_create ''b'') \<lparr>tv_sec = 3, tv_nsec = 0\<rparr> (DFin 0)]"
proof -
  let ?gp = "\<lparr>gp_package = 2, gp_gpu = 6, gp_num_domain = (\<lambda>_. 2), gp_write_control = (\<lambda>_ _. 0), gp_domain_nested = (\<lambda>_. []),
         gp_signal_domain_type = (\<lambda>_. 2), gp_domain_name = (\<lambda>_. Some ''package''),
         gp_read_signal = (\<lambda>_ _ _ i. if i = 0 then Some (DFin 4) else None), gp_num_signal_name = 1\<rparr>"
  let ?d = "nrm_role_client_new None :: client_fn nrm_role_client"
  let ?c = "\<lparr>cl_role = Some \<lparr>role_ops = Some nrm_role_client_ops, role_data = ?d\<rparr>, cl_user_fn = None, cl_actuate_fn = None\<rparr> :: (client_fn nrm_role_client, geopm_writes) nrm_client"
  let ?e = "\<lparr>ge_name = ''CPU_POWER'', ge_domain_type = 2, ge_num_domains = 2, ge_sensor = Some \<lparr>sensor_uuid = ''n''\<rparr>,
     ge_scopes = [Some (nrm_scope_create ''a''), Some (nrm_scope_create ''b'')]\<rparr>"
  let ?st = "\<lparr>gx_client = Some ?c, gx_events = [?e], gx_actuator = None, gx_reads = 0\<rparr>"
  have ok: "list_all eventinfo_ok (gx_events ?st)" by (simp add: eventinfo_ok_def scope_wf_create)
  have "piped ?d = []" by (simp add: piped_def nrm_role_client_new_def map_filter_def)
  moreover have "[0..<ge_num_domains ?e] = [0, 1]" by (simp add: upt_rec)
  ultimately have "\<exists>st' c' d'. nrm_geopm_timer_callback ?gp (\<lambda>_. \<lparr>tv_sec = 3, tv_nsec = 0\<rparr>) ?st = Inr (0, st') \<and> gx_client st' = Some c' \<and> on_pipe d' c'
     \<and> piped d' = [event_msg ''n'' (nrm_scope_create ''a'') \<lparr>tv_sec = 3, tv_nsec = 0\<rparr> (DFin 4), event_msg ''n'' (nrm_scope_create ''b'') \<lparr>tv_sec = 3, tv_nsec = 0\<rparr> (DFin 0)]"
    using nrm_geopm_reports_domains [OF ok, of ?c ?d ?gp "\<lambda>_. \<lparr>tv_sec = 3, tv_nsec = 0\<rparr>"] by simp
  then show ?thesis by - (rule exI [of _ ?st], simp)
qed

end
