(* ===== verification/NRM_Nrmd.thy ===== *)
theory NRM_Nrmd
  imports NRM_Daemon NRM_Extras
begin

text \<open>
  The daemon as a program (\<open>main\<close> of src/binaries/nrmd.c): the command line, the set-up of NRM_Daemon, the reactor over
  the inputs it sees, and the tear-down.

  NRM_Daemon and NRM_Typing say what holds when a handler returns.  Here it is shown that the handlers do return: the locale
  \<open>sturdy_user\<close> is what the server needs of its callbacks for this, and the daemon is an instance as long as it knows the scopes of its control's
  inputs (otherwise the tick reads an uninitialised pointer, NRM_Daemon).  Requests to remove something are left out, since they can crash the server (NRM_Server).
\<close>

section \<open>The program\<close>

text \<open>
  What is left of the daemon's objects when the program ends: \<open>None\<close> is an object that was given back.  The tear-down releases the two topics and destroys
  the sensor, the event base, the state and the server, in this order.  It does not destroy the control, nor does \<open>main\<close> close the
  configuration file or release the tree read from it.
\<close>

record nrmd_left =
  left_mysensor :: "nrm_sensor option"
  left_events :: "nrm_eventbase option"
  left_state :: "nrm_state option"
  left_server :: "nrmd_server option"
  left_control :: "europar21_data option"
  left_config :: "nrmd_config option"

definition nrmd_teardown :: "nrmd_config option \<Rightarrow> nrmd_server \<Rightarrow> nrmd_left exec" where
  "nrmd_teardown config s =
     (let sensor = the (nrm_sensor_destroy (Some (Some (dm_mysensor (srv_user s)))));
          events = the (nrm_eventbase_destroy (Some (Some (dm_events (srv_user s)))))
      in bindE (nrm_state_destroy (Some (Some (srv_state s)))) (\<lambda>state.
         let server = the (nrm_server_destroy (Some (Some s))) in
         Inr \<lparr>left_mysensor = sensor, left_events = events, left_state = the state, left_server = server,
              left_control = dm_control (srv_user s), left_config = config\<rparr>))"

text \<open>
  \<open>config_of\<close> is what reading the file of that name gives, \<open>inputs\<close> what the reactor sees.  The result is the exit code, the lines
  printed and, when the server ran, the server before the tear-down and what the tear-down left.
\<close>

definition nrmd_program ::
  "extra_env \<Rightarrow> (double \<Rightarrow> double) \<Rightarrow> (double \<Rightarrow> double) \<Rightarrow> hwloc_topology \<Rightarrow> (string \<Rightarrow> nrmd_config) \<Rightarrow> bool \<Rightarrow> string \<Rightarrow> server_in list
     \<Rightarrow> string list \<Rightarrow> getopt \<Rightarrow> (int \<times> string list \<times> (nrmd_server \<times> nrmd_left) option) exec" where
  "nrmd_program env fexp flog topo config_of role raw inputs argv go =
     bindE (extra_parse env ''nrmd'' NRM_TOOLS_ARGS_FLAG_FREQ argv go) (\<lambda>p.
     case p of Ends code out \<Rightarrow> Inr (code, out, None)
     | Goes args n \<Rightarrow>
         let argv = drop n argv; config = (if argv = [] then None else Some (config_of (hd argv))) in
         bindE (nrmd_main fexp topo (xe_clock env) config role (ta_upstream_uri args) (ta_freq args)) (\<lambda>(s, _).
         bindE (nrm_server_start (nrmd_callbacks fexp flog) raw inputs s) (\<lambda>s.
         bindE (nrmd_teardown config s) (\<lambda>left. Inr (EXIT_SUCCESS, [], Some (s, left))))))"


section \<open>Requests and answers\<close>

text \<open>
  Messages of a client that keeps to the protocol: the data is of the type the tags say, and so is the kind of an actuator.
\<close>

definition benign :: "nrm_msg \<Rightarrow> bool" where
  "benign m \<longleftrightarrow> msg_consistent m \<and> msg_type m \<noteq> NRM_MSG_TYPE_REMOVE
     \<and> (case msg_data m of
          DataAdd a \<Rightarrow> (case add_data a of AddActuator x \<Rightarrow> ma_type x \<in> {NRM_ACTUATOR_TYPE_DISCRETE, NRM_ACTUATOR_TYPE_CONTINUOUS} | _ \<Rightarrow> True)
        | _ \<Rightarrow> True)"

fun admissible :: "server_in \<Rightarrow> bool" where
  "admissible (IMsg (Some m) (Some c)) = benign m"
| "admissible (IMsg _ _) = False"
| "admissible _ = True"

text \<open>
  The kind of a message is its type, what it is about and, when an actuator is added, the kind of the actuator; the answer to a list request or an addition is of the kind of the
  request, the others are acknowledged.  Then: who waits for which answer, who gets which, and which inputs are handled.
\<close>

definition added_kind :: "nrm_msg_add \<Rightarrow> int" where
  "added_kind a = (case add_data a of
       AddActuator x \<Rightarrow> if ma_type x \<in> {NRM_ACTUATOR_TYPE_DISCRETE, NRM_ACTUATOR_TYPE_CONTINUOUS} then ma_type x else -1
     | _ \<Rightarrow> 0)"

definition msg_kind :: "nrm_msg \<Rightarrow> int \<times> int \<times> int" where
  "msg_kind m = (msg_type m, case msg_data m of DataList l \<Rightarrow> (list_type l, 0) | DataAdd a \<Rightarrow> (add_type a, added_kind a) | _ \<Rightarrow> (0, 0))"

definition due :: "nrm_msg \<Rightarrow> int \<times> int \<times> int" where
  "due m = (if msg_type m \<in> {NRM_MSG_TYPE_LIST, NRM_MSG_TYPE_ADD} then msg_kind m else (NRM_MSG_TYPE_ACK, 0, 0))"

definition asks :: "nrm_msg \<Rightarrow> bool" where
  "asks m \<longleftrightarrow> msg_type m \<in> {NRM_MSG_TYPE_ACTUATE, NRM_MSG_TYPE_LIST, NRM_MSG_TYPE_ADD, NRM_MSG_TYPE_EXIT, NRM_MSG_TYPE_TICK}"

definition answering :: "nrm_msg \<Rightarrow> bool" where
  "answering m \<longleftrightarrow> msg_type m \<in> {NRM_MSG_TYPE_ACK, NRM_MSG_TYPE_LIST, NRM_MSG_TYPE_ADD}"

fun asked :: "server_in \<Rightarrow> (string option \<times> int \<times> int \<times> int) list" where
  "asked (IMsg (Some m) c) = (if asks m then [(c, due m)] else [])"
| "asked _ = []"

fun answer :: "server_out \<Rightarrow> (string option \<times> int \<times> int \<times> int) list" where
  "answer (OSend m c) = (if answering m then [(c, msg_kind m)] else [])"
| "answer (server_out.OPub _ _) = []"

definition answers :: "server_out list \<Rightarrow> (string option \<times> int \<times> int \<times> int) list" where
  "answers out = concat (map answer out)"

lemma answers_simps [simp]: "answers [] = []" "answers (x # xs) = answer x @ answers xs" "answers (xs @ ys) = answers xs @ answers ys"
  by (simp_all add: answers_def)

fun ends :: "server_in \<Rightarrow> bool" where
  "ends (IMsg (Some m) _) = (msg_type m = NRM_MSG_TYPE_EXIT)"
| "ends (IMsg None _) = False"
| "ends (ISignal _) = True"
| "ends ITimer = False"

fun served :: "server_in list \<Rightarrow> server_in list" where
  "served [] = []"
| "served (i # is) = i # (if ends i then [] else served is)"

lemma answering_ack [simp]:
  "answering \<lparr>msg_type = NRM_MSG_TYPE_ACK, msg_data = d\<rparr>" "msg_kind \<lparr>msg_type = t, msg_data = DataNone\<rparr> = (t, 0, 0)"
  "msg_kind \<lparr>msg_type = t, msg_data = DataList l\<rparr> = (t, list_type l, 0)"
  "msg_kind \<lparr>msg_type = t, msg_data = DataAdd a\<rparr> = (t, add_type a, added_kind a)"
  "\<not> answering \<lparr>msg_type = NRM_MSG_TYPE_ACTUATE, msg_data = d\<rparr>" "answering \<lparr>msg_type = NRM_MSG_TYPE_LIST, msg_data = d\<rparr>"
  by (simp_all add: answering_def msg_kind_def msg_types)

lemma foldE_total:
  assumes "P s" and "\<And>x s. x \<in> set xs \<Longrightarrow> P s \<Longrightarrow> \<exists>t. f x s = Inr t \<and> P t"
  shows "\<exists>t. foldE f xs s = Inr t \<and> P t"
  using assms
proof (induction xs arbitrary: s)
  case (Cons x xs)
  then obtain t where "f x s = Inr t" "P t" by (meson list.set_intros(1))
  then show ?case using Cons.IH [of t] Cons.prems(2) by auto
qed simp


section \<open>Servers that do not fail\<close>

text \<open>Every actuator belongs to a client.\<close>

definition owned :: "nrm_state \<Rightarrow> bool" where
  "owned st \<longleftrightarrow> (\<forall>(k, a) \<in> set (st_actuators st). act_clientid a \<noteq> None)"

lemma do_actuate_returns:
  assumes s: "server_wf s" "owned (srv_state s)" and a: "map_of (st_actuators (srv_state s)) u = Some a"
  shows "\<exists>s'. server_do_actuate u v s = Inr s' \<and> server_wf s' \<and> owned (srv_state s') \<and> srv_user s' = srv_user s
    \<and> st_scopes (srv_state s') = st_scopes (srv_state s) \<and> answers (srv_out s') = answers (srv_out s)"
proof -
  have "actuator_shape a" using s a table_wf_lookup by (fastforce simp: server_wf_def state_wf_def)
  then obtain rc w where w: "nrm_actuator_corrected_value (Some a) (Some v) = Inr (rc, Some w)"
    using actuator_corrected_returns by blast
  obtain c where c: "act_clientid a = Some c" using s a map_of_SomeD [OF a] by (fastforce simp: owned_def)
  note d = do_actuate_eq [OF a c w]
  have "owned ((srv_state s)\<lparr>st_actuators := alist_update u (\<lambda>_. a\<lparr>act_value := w\<rparr>) (st_actuators (srv_state s))\<rparr>)"
    using s c by (fastforce simp: owned_def dest: set_alist_update)
  then show ?thesis using d do_actuate_wf [OF s(1) d] by simp
qed

lemma server_actuate_returns:
  assumes s: "server_wf s" "owned (srv_state s)"
  shows "\<exists>s'. nrm_server_actuate (Some u) v s = Inr (0, s') \<and> server_wf s' \<and> owned (srv_state s') \<and> srv_user s' = srv_user s
    \<and> st_scopes (srv_state s') = st_scopes (srv_state s) \<and> answers (srv_out s') = answers (srv_out s)"
proof (cases "map_of (st_actuators (srv_state s)) u")
  case None
  then show ?thesis using s by (simp add: nrm_server_actuate_def snd_nrm_hash_find)
next
  case (Some a)
  then show ?thesis using do_actuate_returns [OF s Some, of v] by (auto simp: nrm_server_actuate_def snd_nrm_hash_find)
qed

locale sturdy_user =
  fixes event :: "'u nrm_server \<Rightarrow> string \<Rightarrow> nrm_scope option \<Rightarrow> nrm_time \<Rightarrow> double \<Rightarrow> (int \<times> 'u nrm_server) exec"
    and actuate :: "'u nrm_server \<Rightarrow> nrm_actuator \<Rightarrow> double \<Rightarrow> (int \<times> 'u nrm_server) exec"
    and timer :: "'u nrm_server \<Rightarrow> (int \<times> 'u nrm_server) exec"
    and tick :: "'u nrm_server \<Rightarrow> (int \<times> 'u nrm_server) exec"
    and ok :: "'u \<Rightarrow> nrm_state \<Rightarrow> bool"
  assumes ok_grows: "ok d st \<Longrightarrow> dom (map_of (st_scopes st)) \<subseteq> dom (map_of (st_scopes st')) \<Longrightarrow> ok d st'"
    and event_returns: "ok (srv_user s) (srv_state s) \<Longrightarrow> pred_option scope_wf sc \<Longrightarrow>
      \<exists>r s'. event s u sc t v = Inr (r, s') \<and> srv_state s' = srv_state s \<and> ok (srv_user s') (srv_state s') \<and> answers (srv_out s') = answers (srv_out s)"
    and actuate_returns: "ok (srv_user s) (srv_state s) \<Longrightarrow>
      \<exists>r s'. actuate s a v = Inr (r, s') \<and> srv_state s' = srv_state s \<and> ok (srv_user s') (srv_state s') \<and> answers (srv_out s') = answers (srv_out s)"
    and timer_returns: "server_wf s \<Longrightarrow> owned (srv_state s) \<Longrightarrow> ok (srv_user s) (srv_state s) \<Longrightarrow>
      \<exists>s'. timer s = Inr (0, s') \<and> server_wf s' \<and> owned (srv_state s') \<and> ok (srv_user s') (srv_state s') \<and> answers (srv_out s') = answers (srv_out s)"
    and tick_returns: "server_wf s \<Longrightarrow> owned (srv_state s) \<Longrightarrow> ok (srv_user s) (srv_state s) \<Longrightarrow>
      \<exists>s'. tick s = Inr (0, s') \<and> server_wf s' \<and> owned (srv_state s') \<and> ok (srv_user s') (srv_state s') \<and> answers (srv_out s') = answers (srv_out s)"
begin

abbreviation cbs :: "'u nrm_server_user_callbacks" where
  "cbs \<equiv> all_callbacks event actuate None timer tick"

abbreviation sturdy :: "'u nrm_server \<Rightarrow> bool" where
  "sturdy s \<equiv> server_wf s \<and> owned (srv_state s) \<and> ok (srv_user s) (srv_state s)"

lemma actuate_callback_returns:
  assumes s: "sturdy s"
  shows "\<exists>s'. nrm_server_actuate_callback cbs c (Some x) s = Inr (0, s') \<and> sturdy s'
    \<and> answers (srv_out s') = answers (srv_out s) @ [(c, NRM_MSG_TYPE_ACK, 0, 0)]"
proof (cases "map_of (st_actuators (srv_state s)) (actuate_uuid x)")
  case None
  then show ?thesis using s by (simp add: nrm_server_actuate_callback_def Let_def snd_nrm_hash_find)
next
  case (Some a)
  obtain r s1 where s1: "actuate s a (actuate_value x) = Inr (r, s1)" "srv_state s1 = srv_state s" "ok (srv_user s1) (srv_state s1)" "answers (srv_out s1) = answers (srv_out s)"
    using actuate_returns s by blast
  then have "sturdy s1" using s by (simp add: server_wf_def)
  with do_actuate_returns [of s1 "actuate_uuid x" a "actuate_value x"] Some s1(2) ok_grows [of "srv_user s1" "srv_state s1"]
  obtain s2 where "server_do_actuate (actuate_uuid x) (actuate_value x) s1 = Inr s2" "sturdy s2" "answers (srv_out s2) = answers (srv_out s1)"
    by auto
  then show ?thesis using Some s1 \<open>sturdy s1\<close>
    by (cases "r = 0") (auto simp: nrm_server_actuate_callback_def all_callbacks_def Let_def snd_nrm_hash_find)
qed

lemma events_callback_returns:
  assumes s: "sturdy s"
  shows "\<exists>s'. nrm_server_events_callback cbs (Some series) s = Inr (0, s') \<and> sturdy s' \<and> answers (srv_out s') = answers (srv_out s)"
proof -
  let ?P = "\<lambda>s'. sturdy s' \<and> answers (srv_out s') = answers (srv_out s)"
  have ev: "\<exists>t. server_event cbs u sc e s' = Inr t \<and> ?P t" if "?P s'" "pred_option scope_wf sc" for u sc e s'
    using event_returns [of s' sc u "nrm_time_fromns (me_time e)" "me_value e"] that
    by (auto simp: server_event_def all_callbacks_def server_wf_def)
  have "\<exists>t. server_timeserie cbs ts s' = Inr t \<and> ?P t" if "?P s'" for ts s'
  proof -
    obtain sc where sc: "nrm_scope_create_frommsg (mt_scope ts) = Inr sc" "pred_option scope_wf sc"
    proof (cases "mt_scope ts")
      case (Some m)
      then show ?thesis using that nrm_scope_create_frommsg_wf [of m] by auto
    qed (auto simp: nrm_scope_create_frommsg_def intro: that)
    have "\<exists>t. foldE (server_event cbs (mt_sensor_uuid ts) sc) (mt_events ts) s' = Inr t \<and> ?P t"
      by (rule foldE_total) (use that ev sc(2) in auto)
    then show ?thesis using sc(1) by (simp add: server_timeserie_def)
  qed
  then have "\<exists>t. foldE (server_timeserie cbs) series s = Inr t \<and> ?P t"
    by (intro foldE_total) (use s in auto)
  then show ?thesis by (auto simp: nrm_server_events_callback_def)
qed

lemma list_callback_returns:
  assumes s: "sturdy s" and l: "list_consistent l"
  shows "\<exists>s'. nrm_server_list_callback c (Some l) s = Inr (0, s') \<and> sturdy s'
    \<and> answers (srv_out s') = answers (srv_out s) @ [(c, NRM_MSG_TYPE_LIST, list_type l, 0)]"
proof -
  have "list_type l \<in> {NRM_MSG_TARGET_TYPE_SLICE, NRM_MSG_TARGET_TYPE_SENSOR, NRM_MSG_TARGET_TYPE_SCOPE, NRM_MSG_TARGET_TYPE_ACTUATOR}"
    using l by (auto simp: list_consistent_def split: list_data.splits)
  then show ?thesis using list_callback_reply [of s l c] s by auto
qed

lemma tick_callback_returns:
  assumes s: "sturdy s"
  shows "\<exists>s'. nrm_server_tick_callback cbs c s = Inr (0, s') \<and> sturdy s'
    \<and> answers (srv_out s') = answers (srv_out s) @ [(c, NRM_MSG_TYPE_ACK, 0, 0)]"
  using tick_returns [of s] s by (auto simp: nrm_server_tick_callback_def all_callbacks_def)

end

text \<open>Additions return whatever the callbacks are.\<close>

definition adds :: "int \<times> int \<Rightarrow> nrm_msg \<Rightarrow> bool" where
  "adds t m \<longleftrightarrow> answering m \<and> msg_kind m = (NRM_MSG_TYPE_ADD, t)"

lemma adds_add [simp]: "adds t \<lparr>msg_type = NRM_MSG_TYPE_ADD, msg_data = DataAdd a\<rparr> \<longleftrightarrow> (add_type a, added_kind a) = t"
  by (simp add: adds_def answering_def)

lemma added_kind_simps [simp]:
  "added_kind \<lparr>add_type = t, add_data = AddScope sc\<rparr> = 0" "added_kind \<lparr>add_type = t, add_data = AddSensor sn\<rparr> = 0"
  "added_kind \<lparr>add_type = t, add_data = AddSlice sl\<rparr> = 0"
  "ma_type x \<in> {NRM_ACTUATOR_TYPE_DISCRETE, NRM_ACTUATOR_TYPE_CONTINUOUS} \<Longrightarrow> added_kind \<lparr>add_type = t, add_data = AddActuator x\<rparr> = ma_type x"
  by (simp_all add: added_kind_def)

lemma create_frommsg_type: "nrm_actuator_create_frommsg (Some m) = Inr (Some a) \<Longrightarrow> act_type a = ma_type m"
  by (cases "ma_clientid m")
    (auto simp: nrm_actuator_create_frommsg_def nrm_actuator_discrete_create_frommsg_def nrm_actuator_continuous_create_frommsg_def Let_def
      nrm_actuator_discrete_set_choices_def nrm_actuator_continuous_set_limits_def nrm_actuator_discrete_create_def
      nrm_actuator_continuous_create_def bindE_eq_Inr split: if_splits)

lemma actuator_new_type: "nrm_msg_actuator_new (Some a) = Inr m \<Longrightarrow> ma_type m = act_type a"
  by (auto simp: nrm_msg_actuator_new_def Let_def bindE_eq_Inr split: if_splits)

lemma add_actuator_returns:
  assumes s: "server_wf s" "owned (srv_state s)" and a: "actuator_msg_consistent a" "ma_type a \<in> {NRM_ACTUATOR_TYPE_DISCRETE, NRM_ACTUATOR_TYPE_CONTINUOUS}"
  shows "\<exists>r s'. nrm_server_add_actuator (Some c) (Some a) s = Inr (Some r, s') \<and> adds (NRM_MSG_TARGET_TYPE_ACTUATOR, ma_type a) r \<and> dom (map_of (st_scopes (srv_state s))) \<subseteq> dom (map_of (st_scopes (srv_state s'))) \<and> owned (srv_state s') \<and> srv_out s' = srv_out s \<and> srv_user s' = srv_user s"
proof -
  obtain b where b: "nrm_actuator_create_frommsg (Some a) = Inr (Some b)" using create_frommsg_returns [OF a] by blast
  let ?b = "b\<lparr>act_clientid := Some c\<rparr>"
  obtain m where m: "nrm_msg_actuator_new (Some ?b) = Inr m"
    using actuator_new_returns actuator_shape_update(2) create_frommsg_shape [OF b] by blast
  have "ma_type m = ma_type a" using actuator_new_type [OF m] create_frommsg_type [OF b] by simp
  moreover have "owned ((srv_state s)\<lparr>st_actuators := snd (nrm_hash_add True (st_actuators (srv_state s)) (act_uuid b) ?b)\<rparr>)"
    using s(2) by (auto simp: owned_def nrm_hash_add_map_of)
  ultimately show ?thesis
    using b m a(2) by (simp add: nrm_server_add_actuator_def nrm_actuator_set_clientid_def nrm_state_add_actuator_def nrm_actuator_uuid_def Let_def
        nrm_msg_set_add_actuator_def nrm_msg_add_new_def msg_set_def)
qed

lemma add_others_return:
  "\<exists>r s'. nrm_server_add_scope (Some x) s = Inr (Some r, s') \<and> adds (NRM_MSG_TARGET_TYPE_SCOPE, 0) r \<and> dom (map_of (st_scopes (srv_state s))) \<subseteq> dom (map_of (st_scopes (srv_state s'))) \<and> st_actuators (srv_state s') = st_actuators (srv_state s) \<and> srv_out s' = srv_out s \<and> srv_user s' = srv_user s"
  "\<exists>r s'. nrm_server_add_sensor (Some n) s = Inr (Some r, s') \<and> adds (NRM_MSG_TARGET_TYPE_SENSOR, 0) r \<and> dom (map_of (st_scopes (srv_state s))) \<subseteq> dom (map_of (st_scopes (srv_state s'))) \<and> st_actuators (srv_state s') = st_actuators (srv_state s) \<and> srv_out s' = srv_out s \<and> srv_user s' = srv_user s"
  "\<exists>r s'. nrm_server_add_slice (Some l) s = Inr (Some r, s') \<and> adds (NRM_MSG_TARGET_TYPE_SLICE, 0) r \<and> dom (map_of (st_scopes (srv_state s))) \<subseteq> dom (map_of (st_scopes (srv_state s'))) \<and> st_actuators (srv_state s') = st_actuators (srv_state s) \<and> srv_out s' = srv_out s \<and> srv_user s' = srv_user s"
proof -
  obtain sc where sc: "nrm_scope_create_frommsg (Some x) = Inr (Some sc)" "scope_wf sc" using nrm_scope_create_frommsg_wf by blast
  then show "\<exists>r s'. nrm_server_add_scope (Some x) s = Inr (Some r, s') \<and> adds (NRM_MSG_TARGET_TYPE_SCOPE, 0) r \<and> dom (map_of (st_scopes (srv_state s))) \<subseteq> dom (map_of (st_scopes (srv_state s'))) \<and> st_actuators (srv_state s') = st_actuators (srv_state s) \<and> srv_out s' = srv_out s \<and> srv_user s' = srv_user s"
    using nrm_msg_scope_new_ok [OF sc(2)]
    by (auto simp: nrm_server_add_scope_def nrm_state_add_scope_def Let_def nrm_msg_set_add_scope_def nrm_msg_add_new_def msg_set_def
        nrm_hash_add_map_of)
qed (simp_all add: nrm_server_add_sensor_def nrm_server_add_slice_def nrm_sensor_create_frommsg_def nrm_slice_create_frommsg_def nrm_state_add_sensor_def
      nrm_state_add_slice_def Let_def nrm_msg_set_add_sensor_def nrm_msg_set_add_slice_def nrm_msg_add_new_def msg_set_def)

lemma add_callback_returns:
  assumes s: "server_wf s" "owned (srv_state s)" and a: "add_consistent a"
    and k: "\<And>x. add_data a = AddActuator x \<Longrightarrow> ma_type x \<in> {NRM_ACTUATOR_TYPE_DISCRETE, NRM_ACTUATOR_TYPE_CONTINUOUS}"
  shows "\<exists>s'. nrm_server_add_callback (Some c) (Some a) s = Inr (0, s') \<and> owned (srv_state s') \<and> srv_user s' = srv_user s
     \<and> dom (map_of (st_scopes (srv_state s))) \<subseteq> dom (map_of (st_scopes (srv_state s')))
     \<and> answers (srv_out s') = answers (srv_out s) @ [(Some c, NRM_MSG_TYPE_ADD, add_type a, added_kind a)]"
proof -
  have fin: ?thesis
    if r: "\<exists>r s'. x = Inr (Some r, s') \<and> adds (add_type a, added_kind a) r \<and> dom (map_of (st_scopes (srv_state s))) \<subseteq> dom (map_of (st_scopes (srv_state s'))) \<and> owned (srv_state s') \<and> srv_out s' = srv_out s \<and> srv_user s' = srv_user s"
      and e: "nrm_server_add_callback (Some c) (Some a) s = bindE x (server_reply (Some c))" for x
  proof -
    obtain r s' where "x = Inr (Some r, s')" "adds (add_type a, added_kind a) r" "dom (map_of (st_scopes (srv_state s))) \<subseteq> dom (map_of (st_scopes (srv_state s')))" "owned (srv_state s')" "srv_out s' = srv_out s" "srv_user s' = srv_user s" using r by blast
    then show ?thesis using e by (auto simp: server_reply_def adds_def)
  qed
  have keep: "owned (srv_state s')" if "st_actuators (srv_state s') = st_actuators (srv_state s)" for s' :: "'a nrm_server"
    using that s(2) by (simp add: owned_def)
  show ?thesis
  proof (cases "add_data a")
    case (AddActuator x)
    then have "actuator_msg_consistent x" using a by (simp add: add_consistent_def)
    from add_actuator_returns [OF s this k [OF AddActuator]] show ?thesis
      by (intro fin [where x = "nrm_server_add_actuator (Some c) (Some x) s"])
        (use AddActuator a k [OF AddActuator] in \<open>auto simp: nrm_server_add_callback_def add_consistent_def added_kind_def union_reads\<close>)
  next
    case (AddScope x)
    from add_others_return(1) [of x s] keep show ?thesis
      by (intro fin [where x = "nrm_server_add_scope (Some x) s"])
        (use AddScope a in \<open>auto simp: nrm_server_add_callback_def add_consistent_def added_kind_def union_reads msg_targets\<close>)
  next
    case (AddSensor x)
    from add_others_return(2) [of x s] keep show ?thesis
      by (intro fin [where x = "nrm_server_add_sensor (Some x) s"])
        (use AddSensor a in \<open>auto simp: nrm_server_add_callback_def add_consistent_def added_kind_def union_reads msg_targets\<close>)
  next
    case (AddSlice x)
    from add_others_return(3) [of x s] keep show ?thesis
      by (intro fin [where x = "nrm_server_add_slice (Some x) s"])
        (use AddSlice a in \<open>auto simp: nrm_server_add_callback_def add_consistent_def added_kind_def union_reads msg_targets\<close>)
  qed (use a in \<open>simp add: add_consistent_def\<close>)
qed

context sturdy_user
begin

lemma plain_message_returns:
  assumes s: "sturdy s" and t: "t \<in> {NRM_MSG_TYPE_ACK, NRM_MSG_TYPE_EXIT, NRM_MSG_TYPE_TICK}" and m: "m = \<lparr>msg_type = t, msg_data = DataNone\<rparr>"
  shows "\<exists>rc s'. nrm_server_role_callback cbs raw (Some m) (Some c) s = Inr (rc, s') \<and> sturdy s' \<and> (rc = -1 \<longleftrightarrow> msg_type m = NRM_MSG_TYPE_EXIT)
     \<and> answers (srv_out s') = answers (srv_out s) @ asked (IMsg (Some m) (Some c))"
proof -
  consider "t = NRM_MSG_TYPE_ACK" | "t = NRM_MSG_TYPE_EXIT" | "t = NRM_MSG_TYPE_TICK" using t by blast
  then show ?thesis
  proof cases
    case 1
    then show ?thesis using s m by (simp add: nrm_server_role_callback_def msg_types asks_def due_def msg_kind_def)
  next
    case 2
    then show ?thesis using s m by (simp add: role_callback_dispatch nrm_server_exit_callback_def) (simp add: asks_def due_def msg_types)
  next
    case 3
    then show ?thesis using tick_callback_returns [OF s, of "Some c"] m by (auto simp: nrm_server_role_callback_def msg_types asks_def due_def msg_kind_def)
  qed
qed

lemma add_message_returns:
  assumes s: "sturdy s" and m: "benign m" "m = \<lparr>msg_type = NRM_MSG_TYPE_ADD, msg_data = DataAdd a\<rparr>"
  shows "\<exists>rc s'. nrm_server_role_callback cbs raw (Some m) (Some c) s = Inr (rc, s') \<and> sturdy s' \<and> (rc = -1 \<longleftrightarrow> msg_type m = NRM_MSG_TYPE_EXIT)
     \<and> answers (srv_out s') = answers (srv_out s) @ asked (IMsg (Some m) (Some c))"
proof -
  have a: "add_consistent a" "\<And>x. add_data a = AddActuator x \<Longrightarrow> ma_type x \<in> {NRM_ACTUATOR_TYPE_DISCRETE, NRM_ACTUATOR_TYPE_CONTINUOUS}"
    using m by (auto simp: benign_def msg_consistent_def)
  obtain s' where s': "nrm_server_add_callback (Some c) (Some a) s = Inr (0, s')" "owned (srv_state s')" "srv_user s' = srv_user s"
    "dom (map_of (st_scopes (srv_state s))) \<subseteq> dom (map_of (st_scopes (srv_state s')))"
    "answers (srv_out s') = answers (srv_out s) @ [(Some c, NRM_MSG_TYPE_ADD, add_type a, added_kind a)]"
    using add_callback_returns [OF _ _ a] s by blast
  moreover have "server_wf s'" using add_callback_wf [OF s'(1)] s by blast
  moreover have "ok (srv_user s) (srv_state s')" using ok_grows [OF _ s'(4)] s by blast
  ultimately show ?thesis using s m(2) by (simp add: nrm_server_role_callback_def union_reads msg_types asks_def due_def msg_kind_def)
qed

lemma message_returns:
  assumes s: "sturdy s" and m: "benign m"
  shows "\<exists>rc s'. nrm_server_role_callback cbs raw (Some m) (Some c) s = Inr (rc, s') \<and> sturdy s' \<and> (rc = -1 \<longleftrightarrow> msg_type m = NRM_MSG_TYPE_EXIT)
     \<and> answers (srv_out s') = answers (srv_out s) @ asked (IMsg (Some m) (Some c))"
proof -
  obtain t d where md: "m = \<lparr>msg_type = t, msg_data = d\<rparr>" by (cases m)
  note defs = benign_def msg_consistent_def nrm_server_role_callback_def union_reads msg_types asks_def due_def msg_kind_def
  show ?thesis
  proof (cases d)
    case DataNone
    then show ?thesis using plain_message_returns [OF s] m md by (simp add: benign_def msg_consistent_def)
  next
    case (DataList l)
    then show ?thesis using m md list_callback_returns [OF s, of l "Some c"] by (auto simp: defs)
  next
    case (DataAdd a)
    then show ?thesis using add_message_returns [OF s m, of a] m md by (simp add: benign_def msg_consistent_def)
  next
    case (DataEvents e)
    then show ?thesis using m md events_callback_returns [OF s, of e] by (auto simp: defs)
  next
    case (DataActuate x)
    then show ?thesis using m md actuate_callback_returns [OF s, of "Some c" x] by (auto simp: defs)
  qed (use m md in \<open>auto simp: benign_def msg_consistent_def\<close>)
qed

lemma handle_returns:
  assumes s: "sturdy s" and i: "admissible i"
  shows "\<exists>rc s'. server_handle cbs raw i s = Inr (rc, s') \<and> sturdy s' \<and> (rc = -1 \<longleftrightarrow> ends i)
     \<and> answers (srv_out s') = answers (srv_out s) @ asked i"
proof (cases i)
  case (IMsg msg id)
  with i obtain m c where "msg = Some m" "id = Some c" "benign m" by (cases msg; cases id) auto
  then show ?thesis using message_returns [OF s, of m raw c] IMsg by (simp add: server_handle_def)
next
  case (ISignal n)
  then show ?thesis using s by (simp add: server_handle_def nrm_server_signal_callback_def all_callbacks_def)
next
  case ITimer
  then show ?thesis using s timer_returns [of s] by (auto simp: server_handle_def nrm_server_timer_callback_def all_callbacks_def)
qed

lemma start_returns:
  assumes "sturdy s" and "list_all admissible is"
  shows "\<exists>s'. nrm_server_start cbs raw is s = Inr s' \<and> sturdy s' \<and> answers (srv_out s') = answers (srv_out s) @ concat (map asked (served is))"
  using assms
proof (induction "is" arbitrary: s)
  case (Cons i "is")
  then obtain rc s1 where s1: "server_handle cbs raw i s = Inr (rc, s1)" "sturdy s1" "rc = -1 \<longleftrightarrow> ends i" "answers (srv_out s1) = answers (srv_out s) @ asked i"
    using handle_returns [of s i raw] by auto
  show ?case
  proof (cases "ends i")
    case False
    then show ?thesis using s1 Cons.IH [OF s1(2)] Cons.prems(2) by auto
  qed (use s1 in simp)
qed simp

end


section \<open>The daemon does not fail\<close>

text \<open>The scopes of the control's inputs have to be known; scopes are never removed here, so this stays true.\<close>

definition nrmd_ok :: "nrmd \<Rightarrow> nrm_state \<Rightarrow> bool" where
  "nrmd_ok d st \<longleftrightarrow> eb_wf (dm_events d) \<and> scope_wf (dm_myscope d)
     \<and> (\<forall>c. dm_control d = Some c \<longrightarrow> in_scope_uuid ` set (ep_inputs c) \<subseteq> dom (map_of (st_scopes st)))"

lemma pull_returns: "\<exists>ret ts. nrm_eventbase_pull_timeserie now (Some e) (Some u) (Some sc) since = Inr (ret, ts)"
  by (auto simp: nrm_eventbase_pull_timeserie_def nrm_timeserie_create_def split: option.split)

lemma pull_inputs_returns:
  assumes "eb_wf (dm_events (srv_user s))" and "in_scope_uuid ` set is \<subseteq> dom (map_of (st_scopes (srv_state s)))"
  shows "\<exists>is' n. nrmd_pull_inputs is s = Inr (is', s\<lparr>srv_user := (srv_user s)\<lparr>dm_reads := n\<rparr>\<rparr>) \<and> map in_scope_uuid is' = map in_scope_uuid is"
  using assms
proof (induction "is" arbitrary: s)
  case Nil
  then show ?case by (intro exI [of _ "[]"] exI [of _ "dm_reads (srv_user s)"]) simp
next
  case (Cons i "is")
  obtain sc where sc: "map_of (st_scopes (srv_state s)) (in_scope_uuid i) = Some sc" using Cons.prems by auto
  let ?s = "snd (nrmd_gettime s)"
  obtain ret ts where ts: "nrm_eventbase_pull_timeserie (fst (nrmd_gettime s)) (Some (dm_events (srv_user ?s))) (Some (in_sensor_uuid i)) (Some sc) (in_since i)
      = Inr (ret, ts)"
    using pull_returns by blast
  obtain is' n where "nrmd_pull_inputs is ?s = Inr (is', ?s\<lparr>srv_user := (srv_user ?s)\<lparr>dm_reads := n\<rparr>\<rparr>)" "map in_scope_uuid is' = map in_scope_uuid is"
    using Cons.IH [of ?s] Cons.prems by auto
  with sc ts show ?case
    by (auto simp: snd_nrm_hash_find nrmd_gettime_def Let_def)
qed

lemma control_action_returns:
  "\<exists>r d' outs'. nrm_control_action fexp flog now (Some d) ins outs = Inr (r, d', outs') \<and> ep_inputs d' = ep_inputs d"
proof (cases ins)
  case (Cons i "is")
  show ?thesis
  proof (cases "\<exists>ts. in_timeserie i = Some ts \<and> length (ts_events ts) \<ge> 2")
    case True
    then obtain ts where ts: "in_timeserie i = Some ts" "length (ts_events ts) \<ge> 2" by blast
    then obtain m where "nrm_control_europar21_events2progress (ts_events ts) = Inr m" using progress_returns by blast
    then show ?thesis using Cons ts
      by (cases outs) (auto simp: nrm_control_action_def nrm_control_europar21_action_def nrm_timeserie_get_events_def Let_def split: prod.split)
  next
    case False
    then show ?thesis using Cons
      by (auto simp: nrm_control_action_def nrm_control_europar21_action_def nrm_timeserie_get_events_def split: option.split)
  qed
qed (simp add: nrm_control_action_def nrm_control_europar21_action_def)

lemma actuate_outputs_return:
  assumes "server_wf s" "owned (srv_state s)"
  shows "\<exists>s'. foldE nrmd_actuate_output outs s = Inr s' \<and> server_wf s' \<and> owned (srv_state s') \<and> srv_user s' = srv_user s
    \<and> st_scopes (srv_state s') = st_scopes (srv_state s) \<and> answers (srv_out s') = answers (srv_out s)"
proof (rule foldE_total)
  fix out s' assume "server_wf s' \<and> owned (srv_state s') \<and> srv_user s' = srv_user s
    \<and> st_scopes (srv_state s') = st_scopes (srv_state s) \<and> answers (srv_out s') = answers (srv_out s)"
  then show "\<exists>t. nrmd_actuate_output out s' = Inr t \<and> server_wf t \<and> owned (srv_state t) \<and> srv_user t = srv_user s
    \<and> st_scopes (srv_state t) = st_scopes (srv_state s) \<and> answers (srv_out t) = answers (srv_out s)"
    using server_actuate_returns [of s' "out_actuator_uuid out" "out_value out"] by (auto simp: nrmd_actuate_output_def)
qed (use assms in auto)

lemma control_tick_returns:
  assumes s: "server_wf s" "owned (srv_state s)" "nrmd_ok (srv_user s) (srv_state s)" and c: "dm_control (srv_user s) = Some c"
  shows "\<exists>s'. nrmd_control_tick fexp flog s = Inr (0, s') \<and> server_wf s' \<and> owned (srv_state s') \<and> nrmd_ok (srv_user s') (srv_state s')
    \<and> answers (srv_out s') = answers (srv_out s)"
proof -
  let ?d = "nrm_control_europar21_getargs c"
  obtain now s1 where g1: "nrmd_gettime s = (now, s1)" by fastforce
  have u1: "dm_events (srv_user s1) = dm_events (srv_user s)" "dm_control (srv_user s1) = dm_control (srv_user s)" "dm_myscope (srv_user s1) = dm_myscope (srv_user s)"
    and s1: "srv_state s1 = srv_state s" "srv_out s1 = srv_out s"
    using g1 by (auto simp: nrmd_gettime_def Let_def)
  have inputs: "in_scope_uuid ` set (ep_inputs ?d) \<subseteq> dom (map_of (st_scopes (srv_state s1)))" "eb_wf (dm_events (srv_user s1))"
    "dm_control (srv_user s1) = Some c"
    using s(3) c s1 u1 by (auto simp: nrmd_ok_def nrm_control_europar21_getargs_def)
  from pull_inputs_returns [OF inputs(2,1)] obtain ins k where ins: "nrmd_pull_inputs (ep_inputs ?d) s1 = Inr (ins, s1\<lparr>srv_user := (srv_user s1)\<lparr>dm_reads := k\<rparr>\<rparr>)"
    and same: "map in_scope_uuid ins = map in_scope_uuid (ep_inputs ?d)" by blast
  have known: "in_scope_uuid ` set ins \<subseteq> dom (map_of (st_scopes (srv_state s)))" using inputs(1) same s1(1) by (metis list.set_map)
  let ?s2 = "s1\<lparr>srv_user := (srv_user s1)\<lparr>dm_reads := k\<rparr>\<rparr>"
  have fill: "mapE (nrmd_fill_output ?s2) (ep_outputs ?d)
      = Inr (map (\<lambda>out. out\<lparr>out_value := case map_of (st_actuators (srv_state s)) (out_actuator_uuid out) of None \<Rightarrow> DFin 0 | Some a \<Rightarrow> act_value a\<rparr>) (ep_outputs ?d))"
    (is "_ = Inr ?outs")
    by (rule mapE_pure) (auto simp: nrmd_fill_output_def nrmd_actuator_value_def snd_nrm_hash_find nrm_actuator_value_def s1 split: option.split)
  obtain t s3 where g2: "nrmd_gettime ?s2 = (t, s3)" by fastforce
  have u3: "dm_events (srv_user s3) = dm_events (srv_user s)" "dm_control (srv_user s3) = dm_control (srv_user s)" "dm_myscope (srv_user s3) = dm_myscope (srv_user s)"
    and s3: "srv_state s3 = srv_state s" "srv_out s3 = srv_out s"
    using g2 u1 s1 by (auto simp: nrmd_gettime_def Let_def)
  obtain r d' outs' where act: "nrm_control_action fexp flog t (Some (?d\<lparr>ep_inputs := ins\<rparr>)) ins ?outs = Inr (r, d', outs')"
    "ep_inputs d' = ins" using control_action_returns [of fexp flog t "?d\<lparr>ep_inputs := ins\<rparr>"] by fastforce
  let ?s4 = "s3\<lparr>srv_user := (srv_user s3)\<lparr>dm_control := Some (d'\<lparr>ep_outputs := outs'\<rparr>)\<rparr>\<rparr>"
  obtain s5 where s5: "foldE nrmd_actuate_output outs' ?s4 = Inr s5" "server_wf s5" "owned (srv_state s5)" "srv_user s5 = srv_user ?s4"
    "st_scopes (srv_state s5) = st_scopes (srv_state s)" "answers (srv_out s5) = answers (srv_out s)"
    using actuate_outputs_return [of ?s4 outs'] s(1,2) s3 by (auto simp: server_wf_def)
  have "nrmd_ok (srv_user s5) (srv_state s5)"
    using s(3) s5(4,5) known act(2) u3 by (simp add: nrmd_ok_def)
  moreover have "nrmd_control_tick fexp flog s = Inr (0, s5)"
    using g1 g2 inputs(3) ins fill act(1) s5(1) by (simp add: nrmd_control_tick_def nrm_control_getargs_def nrm_eventbase_tick_def Let_def)
  ultimately show ?thesis using s5 by blast
qed

interpretation nrmd_sturdy: sturdy_user nrmd_event_callback nrmd_actuate_callback "nrmd_timer_callback fexp flog" "nrmd_tick_callback fexp flog" nrmd_ok
proof unfold_locales
  fix s :: nrmd_server and u sc t v
  assume s: "nrmd_ok (srv_user s) (srv_state s)" and sc: "pred_option scope_wf sc"
  show "\<exists>r s'. nrmd_event_callback s u sc t v = Inr (r, s') \<and> srv_state s' = srv_state s \<and> nrmd_ok (srv_user s') (srv_state s')
     \<and> answers (srv_out s') = answers (srv_out s)"
  proof (cases sc)
    case None
    then show ?thesis using s by (simp add: nrmd_event_callback_def nrm_eventbase_push_event_def nrm_server_publish_def Let_def)
  next
    case (Some c)
    then show ?thesis using s sc event_callback_ok [of s c u t v] by (auto simp: nrmd_ok_def)
  qed
next
  fix s :: nrmd_server
  assume s: "server_wf s" "owned (srv_state s)" "nrmd_ok (srv_user s) (srv_state s)"
  let ?s = "(snd (nrmd_gettime s))\<lparr>srv_out := srv_out s @ [server_out.OPub (dm_mytopic (srv_user s))
      (event_msg (sensor_uuid (dm_mysensor (srv_user s))) (dm_myscope (srv_user s)) (fst (nrmd_gettime s)) (DFin 1))]\<rparr>"
  have "server_wf ?s" "owned (srv_state ?s)" "nrmd_ok (srv_user ?s) (srv_state ?s)" "answers (srv_out ?s) = answers (srv_out s)"
    using s by (simp_all add: server_wf_def nrmd_ok_def nrmd_gettime_def Let_def)
  moreover have "nrmd_timer_callback fexp flog s = (if dm_control (srv_user ?s) = None then Inr (0, ?s) else bindE (nrmd_control_tick fexp flog ?s) (\<lambda>(_, s). Inr (0, s)))"
    using s(3) by (simp add: nrmd_timer_callback_def publish_eq nrmd_ok_def nrmd_gettime_def Let_def)
  ultimately show "\<exists>s'. nrmd_timer_callback fexp flog s = Inr (0, s') \<and> server_wf s' \<and> owned (srv_state s') \<and> nrmd_ok (srv_user s') (srv_state s')
     \<and> answers (srv_out s') = answers (srv_out s)"
    using control_tick_returns [of ?s _ fexp flog] by (cases "dm_control (srv_user ?s)") (auto simp del: gettime_keeps)
next
  fix s :: nrmd_server
  assume "server_wf s" "owned (srv_state s)" "nrmd_ok (srv_user s) (srv_state s)"
  then show "\<exists>s'. nrmd_tick_callback fexp flog s = Inr (0, s') \<and> server_wf s' \<and> owned (srv_state s') \<and> nrmd_ok (srv_user s') (srv_state s')
     \<and> answers (srv_out s') = answers (srv_out s)"
    using control_tick_returns [of s _ fexp flog] by (cases "dm_control (srv_user s)") (auto simp: nrmd_tick_callback_def)
next
  fix d and st st' :: nrm_state
  assume "nrmd_ok d st" "dom (map_of (st_scopes st)) \<subseteq> dom (map_of (st_scopes st'))"
  then show "nrmd_ok d st'" unfolding nrmd_ok_def by (meson subset_trans)
qed (auto simp: nrmd_actuate_callback_def)

text \<open>
  The configurations the daemon starts with and whose scopes it knows; another method than europar21 means no control.  \<open>active\<close> may be
  anything, and inputs or outputs that are not arrays count as empty.
\<close>

fun config_fits :: "(string \<times> nrm_scope) list \<Rightarrow> nrmd_config option \<Rightarrow> bool" where
  "config_fits scopes None = True"
| "config_fits scopes (Some (Config_control c)) =
     (cfg_name c \<noteq> None \<and> (cfg_name c = Some ''europar21'' \<longrightarrow>
        cfg_active c \<noteq> None \<and> cfg_has_args c \<and> cfg_args c \<noteq> None
      \<and> pred_option (\<lambda>outs. list_all (\<lambda>out. out \<noteq> None) (json_array_elems outs)) (cfg_outputs c) \<and> cfg_outputs c \<noteq> None
      \<and> pred_option (\<lambda>ins. list_all (\<lambda>i. i \<noteq> None \<and> snd (the i) \<in> fst ` set scopes) (json_array_elems ins)) (cfg_inputs c)
      \<and> cfg_inputs c \<noteq> None))"
| "config_fits scopes (Some _) = False"

lemma json_assert_all: "list_all (\<lambda>x. x \<noteq> None) xs \<Longrightarrow> mapE json_assert xs = Inr (map the xs)"
  by (rule mapE_pure) (auto simp: list_all_iff json_assert_def split: option.split)

lemma load_control_returns:
  assumes "config_fits scopes config"
  shows "\<exists>control. nrmd_load_control fexp now config = Inr control
    \<and> (\<forall>c. control = Some c \<longrightarrow> in_scope_uuid ` set (ep_inputs c) \<subseteq> dom (map_of scopes))"
proof (cases config)
  case (Some cf)
  then obtain c where c: "cf = Config_control c" using assms by (cases cf) auto
  show ?thesis
  proof (cases "cfg_name c = Some ''europar21''")
    case True
    then obtain active args outs ins where "cfg_active c = Some active" "cfg_has_args c" "cfg_args c = Some args" "cfg_outputs c = Some outs"
      "cfg_inputs c = Some ins" and outs: "list_all (\<lambda>x. x \<noteq> None) (json_array_elems outs)"
      and ins: "list_all (\<lambda>i. i \<noteq> None \<and> snd (the i) \<in> fst ` set scopes) (json_array_elems ins)"
      using assms Some c by auto
    moreover have "list_all (\<lambda>x. x \<noteq> None) (json_array_elems ins)" using ins by (auto simp: list_all_iff)
    moreover have "(\<lambda>x. snd (the x)) ` set (json_array_elems ins) \<subseteq> dom (map_of scopes)"
      using ins by (auto simp: list_all_iff dom_map_of_conv_image_fst)
    ultimately show ?thesis using Some c True json_assert_all [OF outs] json_assert_all [of "json_array_elems ins"]
      by (cases args) (auto simp: nrmd_load_control_def nrm_control_create_def nrm_control_europar21_create_def json_assert_def Let_def split_def image_image)
  next
    case False
    then show ?thesis using Some c assms by (auto simp: nrmd_load_control_def nrm_control_create_def json_assert_def split: option.splits)
  qed
qed (simp add: nrmd_load_control_def)

lemma nrmd_main_starts:
  assumes h: "nrm_scope_hwloc_scopes topo [] = Inr (err, scopes)" and m: "map_of scopes ''nrm.hwloc.Machine.0'' = Some sc"
    and c: "config_fits scopes config"
  shows "\<exists>s period. nrmd_main fexp topo clock config True (Some uri) freq = Inr (s, period) \<and> server_wf s \<and> owned (srv_state s)
     \<and> nrmd_ok (srv_user s) (srv_state s) \<and> srv_out s = []"
proof -
  obtain control where control: "nrmd_load_control fexp (clock 0) config = Inr control"
    "\<And>c. control = Some c \<Longrightarrow> in_scope_uuid ` set (ep_inputs c) \<subseteq> dom (map_of scopes)" using load_control_returns [OF c] by blast
  obtain s period where s: "nrmd_main fexp topo clock config True (Some uri) freq = Inr (s, period)" "srv_out s = []" "st_actuators (srv_state s) = []"
    "dm_myscope (srv_user s) = sc" "dm_control (srv_user s) = control" "st_scopes (srv_state s) = scopes"
    using h m control(1) by (simp add: nrmd_main_def nrm_state_create_def snd_nrm_hash_find nrm_server_create_def Let_def)
  moreover have "table_wf scope_uuid scope_wf scopes" using hwloc_scopes_wf [OF _ h] by (simp add: table_wf_def)
  then have "scope_wf sc" using table_wf_lookup [OF _ m] by blast
  ultimately show ?thesis using main_wf [OF s(1)] control(2) by (auto simp: nrmd_ok_def owned_def)
qed


section \<open>Properties\<close>

text \<open>
  C8. The daemon serves: started with any sequence of the options of its help in any of their forms, \<open>--freq\<close> included (other than those for the help and the
  version), on a machine whose topology has the object \<open>Machine.0\<close>, and with no configuration file or one with a control
  that is complete and whose inputs lie in scopes of the machine (or whose method is not europar21, which means no control), it handles every
  sequence of timer events, signals and well-typed messages other than removals without a fault, the turns of the control loop included.
  Every request is answered once, to the client that sent it, in the order of the requests and with the
  kind of message that the request calls for (the list that was asked for, the addition, or an acknowledgement), up to the first EXIT or
  signal, which ends the program with the code 0.  The tear-down then has given back the sensor, the event base, the state and the server; the
  control, when there is one, and the configuration that was read are not given back.
\<close>

theorem nrmd_serves:
  assumes opts: "list_all (opt_ok (xe_strtod env) NRM_TOOLS_ARGS_FLAG_FREQ) sos" "snd ` set sos \<inter> {OHelp, OVersion} = {}" and go: "go_nextchar go = []"
    and topo: "nrm_scope_hwloc_scopes topo [] = Inr (err, scopes)" "map_of scopes ''nrm.hwloc.Machine.0'' \<noteq> None"
    and files: "positional files" "config_fits scopes (if files = [] then None else Some (config_of (hd files)))"
    and inputs: "list_all admissible inputs"
  shows "\<exists>s. nrmd_program env fexp flog topo config_of True raw inputs (prog # rendered sos @ files) go
       = Inr (EXIT_SUCCESS, [], Some (s, \<lparr>left_mysensor = None, left_events = None, left_state = None, left_server = None,
           left_control = dm_control (srv_user s), left_config = (if files = [] then None else Some (config_of (hd files)))\<rparr>))
     \<and> answers (srv_out s) = concat (map asked (served inputs))"
proof -
  let ?args = "(xe_args env)\<lparr>ta_progname := ''nrmd'', ta_flags := NRM_TOOLS_ARGS_FLAG_FREQ\<rparr>"
  obtain go' where p: "nrm_tools_parse_args (xe_strtod env) (prog # rendered sos @ files) ?args go
      = Inr (int (1 + length (rendered sos)), parsed_args sos ?args, go')"
    using parse_args_rendered [of "xe_strtod env" ?args sos files go prog] opts(1) go files(1) by auto
  obtain uri where uri: "ta_upstream_uri (parsed_args sos ?args) = Some uri" by (simp add: parsed_args_def Let_def)
  have asks: "ta_ask_help (parsed_args sos ?args) = 0" "ta_ask_version (parsed_args sos ?args) = 0"
    using opts(2) by (auto intro!: parsed_args_asks)
  let ?config = "if files = [] then None else Some (config_of (hd files))"
  obtain s period where s: "nrmd_main fexp topo (xe_clock env) ?config True (Some uri) (ta_freq (parsed_args sos ?args)) = Inr (s, period)"
    "server_wf s" "owned (srv_state s)" "nrmd_ok (srv_user s) (srv_state s)" "srv_out s = []"
    using nrmd_main_starts [OF topo(1) _ files(2)] topo(2) by blast
  obtain s' where s': "nrm_server_start (nrmd_callbacks fexp flog) raw inputs s = Inr s'" "server_wf s'"
    "answers (srv_out s') = concat (map asked (served inputs))"
    using nrmd_sturdy.start_returns [where s = s and raw = raw and fexp = fexp and flog = flog, OF _ inputs] s by (auto simp: nrmd_callbacks_def)
  have "nrm_state_destroy (Some (Some (srv_state s'))) = Inr (Some None)"
    using s'(2) by (intro nrm_state_destroy_ok) (simp add: server_wf_def)
  moreover have "nat (1 + int (length (rendered sos))) = Suc (length (rendered sos))" by simp
  ultimately show ?thesis
    using p uri asks s(1) s'
    by (cases "files = []") (simp_all add: nrmd_program_def extra_parse_def nrmd_teardown_def nrm_sensor_destroy_def nrm_eventbase_destroy_def
        nrm_server_destroy_def Let_def)
qed

text \<open>A machine without cores, one verbose daemon, and two clients.\<close>

definition quiet_env :: extra_env where
  "quiet_env = \<lparr>xe_strtod = (\<lambda>_. (DFin 2, False, False)), xe_args = args_blank 0, xe_version = [], xe_clock = (\<lambda>_. \<lparr>tv_sec = 0, tv_nsec = 0\<rparr>),
     xe_create = \<lparr>cc_calloc = True, cc_zloop = None, cc_sigmask = 0, cc_signalfd = None\<rparr>, xe_wakes = [],
     xe_os = \<lparr>os_mask = {}, os_loops = 0, os_blocks = 0, os_fds = 3\<rparr>,
     xe_hwloc = \<lparr>oe_getenv = (\<lambda>_. None), oe_pid = 1, oe_cpuset = [], oe_nodeset = [], oe_lookup = (\<lambda>_. True), oe_always = (\<lambda>_. True)\<rparr>,
     xe_cpu = 0, xe_node = 0\<rparr>"

definition sample_config :: europar21_config where
  "sample_config = \<lparr>cfg_name = Some ''europar21'', cfg_active = Some (Some True), cfg_inputs = Some (Some [Some (''s'', ''nrm.hwloc.Machine.0'')]),
     cfg_outputs = Some (Some [Some ''cap'']), cfg_args = Some (DFin 1, DFin 0, DFin 1, DFin 0, DFin 1, DFin 1, DFin 0, DFin 1, DFin 1, DFin 2),
     cfg_has_args = True\<rparr>"

theorem nrmd_serves_witness:
  "\<exists>s. nrmd_program quiet_env (\<lambda>x. x) (\<lambda>x. x) one_machine (\<lambda>_. Config_control sample_config) True []
        [IMsg (Some (add_sensor_msg ''s'')) (Some ''a''), ITimer, IMsg (Some tick_msg) (Some ''b''),
         IMsg (Some \<lparr>msg_type = NRM_MSG_TYPE_EXIT, msg_data = DataNone\<rparr>) (Some ''a''), ITimer] [''nrmd'', ''-v'', ''-f2'', ''conf''] getopt_start
      = Inr (EXIT_SUCCESS, [], Some (s, \<lparr>left_mysensor = None, left_events = None, left_state = None, left_server = None,
           left_control = dm_control (srv_user s), left_config = Some (Config_control sample_config)\<rparr>))
     \<and> answers (srv_out s) = [(Some ''a'', NRM_MSG_TYPE_ADD, NRM_MSG_TARGET_TYPE_SENSOR, 0),
       (Some ''b'', NRM_MSG_TYPE_ACK, 0, 0), (Some ''a'', NRM_MSG_TYPE_ACK, 0, 0)]"
proof -
  obtain err scopes where t: "nrm_scope_hwloc_scopes one_machine [] = Inr (err, scopes)" "map_of scopes ''nrm.hwloc.Machine.0'' \<noteq> None"
    using one_machine_known by blast
  let ?sos = "[(Apart, OVerbose), (Glued, OFreq ''2'' (DFin 2))]"
  have "''nrm.hwloc.Machine.0'' \<in> fst ` set scopes" using t(2) by (force dest: map_of_SomeD)
  then have "config_fits scopes (Some (Config_control sample_config))" by (simp add: sample_config_def json_array_elems_def)
  moreover have "rendered ?sos = [''-v'', ''-f2'']" by (simp add: rendered_def render_def render_word_def)
  moreover have "list_all (opt_ok (xe_strtod quiet_env) NRM_TOOLS_ARGS_FLAG_FREQ) ?sos" "go_nextchar getopt_start = []" "positional [''conf'']"
    by (simp_all add: opt_ok_def getopt_start_def positional_def quiet_env_def NRM_TOOLS_FLAGS_ISSET_def NRM_TOOLS_ARGS_FLAG_FREQ_def)
  ultimately show ?thesis
    using nrmd_serves [of quiet_env ?sos getopt_start, OF _ _ _ t, of "[''conf'']" "\<lambda>_. Config_control sample_config"
        "[IMsg (Some (add_sensor_msg ''s'')) (Some ''a''), ITimer, IMsg (Some tick_msg) (Some ''b''),
          IMsg (Some \<lparr>msg_type = NRM_MSG_TYPE_EXIT, msg_data = DataNone\<rparr>) (Some ''a''), ITimer]"
        "\<lambda>x. x" "\<lambda>x. x" "[]" "''nrmd''"]
    by (simp add: benign_def msg_consistent_def add_consistent_def add_sensor_msg_def tick_msg_def asks_def due_def msg_types msg_targets)
qed

text \<open>
  The restriction to known kinds of actuators is needed: the enumeration is open on the wire, and the message of an actuator of another
  kind makes the server pass the NULL that \<open>nrm_actuator_create_frommsg\<close> returns for it on, which fails an assertion.
\<close>

theorem nrmd_unknown_actuator_crashes:
  assumes "ma_type x \<notin> {NRM_ACTUATOR_TYPE_DISCRETE, NRM_ACTUATOR_TYPE_CONTINUOUS}"
  shows "nrm_server_role_callback cb raw (Some \<lparr>msg_type = NRM_MSG_TYPE_ADD, msg_data = DataAdd
      \<lparr>add_type = NRM_MSG_TARGET_TYPE_ACTUATOR, add_data = AddActuator x\<rparr>\<rparr>) c s = Inl AssertFail"
  using assms
  by (simp add: role_callback_dispatch nrm_server_add_callback_def union_reads nrm_server_add_actuator_def nrm_actuator_create_frommsg_def
      nrm_actuator_set_clientid_def)

end
