(* ===== verification/NRM_Typing.thy ===== *)
theory NRM_Typing
  imports NRM_Daemon
begin

text \<open>
  Messages carry a type tag and a union; reading the union through another member than the one that was written is
  undefined.  This theory shows that the server only ever sends messages whose data matches their tags
  (\<open>msg_consistent\<close> of NRM_Message), for any callbacks that keep to this, and that the callbacks of the daemon do.
  The interface is the locale \<open>typed_user\<close>.
\<close>

text \<open>
  What a server has sent since it had sent \<open>b\<close>: well-typed answers and actions, (unless \<open>n\<close>) none of them to nobody, and
  well-typed events for the subscribers.
\<close>

definition sent_types :: "int set" where
  "sent_types = {NRM_MSG_TYPE_ACK, NRM_MSG_TYPE_LIST, NRM_MSG_TYPE_ADD, NRM_MSG_TYPE_ACTUATE}"

definition out_typed :: "bool \<Rightarrow> server_out \<Rightarrow> bool" where
  "out_typed n x = (case x of
       OSend m to \<Rightarrow> msg_consistent m \<and> msg_type m \<in> sent_types \<and> (n \<or> to \<noteq> None)
     | OPub _ m \<Rightarrow> msg_consistent m \<and> msg_type m = NRM_MSG_TYPE_EVENTS)"

definition srv_typed :: "server_out list \<Rightarrow> bool \<Rightarrow> 'u nrm_server \<Rightarrow> bool" where
  "srv_typed b n s \<longleftrightarrow> (\<exists>out. srv_out s = b @ out \<and> list_all (out_typed n) out)"

lemma srv_typed_updates [simp]:
  "srv_typed b n (s\<lparr>srv_state := st\<rparr>) \<longleftrightarrow> srv_typed b n s" "srv_typed b n (s\<lparr>srv_user := u\<rparr>) \<longleftrightarrow> srv_typed b n s"
  "srv_typed b n s \<Longrightarrow> msg_consistent m \<Longrightarrow> msg_type m \<in> sent_types \<Longrightarrow> n \<or> to \<noteq> None \<Longrightarrow> srv_typed b n (s\<lparr>srv_out := srv_out s @ [OSend m to]\<rparr>)"
  "srv_typed b n s \<Longrightarrow> msg_consistent m \<Longrightarrow> msg_type m = NRM_MSG_TYPE_EVENTS \<Longrightarrow> srv_typed b n (s\<lparr>srv_out := srv_out s @ [OPub t m]\<rparr>)"
  by (auto simp: srv_typed_def out_typed_def)

text \<open>A message under construction, if there is one, is consistent and one of those the server sends, or an event.\<close>

abbreviation typed_msg :: "nrm_msg option \<Rightarrow> bool" where
  "typed_msg m \<equiv> pred_option (\<lambda>m. msg_consistent m \<and> msg_type m \<in> sent_types) m"

abbreviation typed_event :: "nrm_msg option \<Rightarrow> bool" where
  "typed_event m \<equiv> pred_option (\<lambda>m. msg_consistent m \<and> msg_type m = NRM_MSG_TYPE_EVENTS) m"

lemma typed_ack [simp]: "NRM_MSG_TYPE_ACK \<in> sent_types" "typed_msg (filled NRM_MSG_TYPE_ACK)" "msg_consistent \<lparr>msg_type = NRM_MSG_TYPE_ACK, msg_data = DataNone\<rparr>"
  by (simp_all add: filled_eq msg_consistent_def sent_types_def)

lemma set_typed:
  "nrm_msg_set_add_actuator (Some \<lparr>msg_type = NRM_MSG_TYPE_ADD, msg_data = DataNone\<rparr>) (Some a) = Inr (r, m) \<Longrightarrow> typed_msg m"
  "nrm_msg_set_add_scope (Some \<lparr>msg_type = NRM_MSG_TYPE_ADD, msg_data = DataNone\<rparr>) sc = Inr (r, m) \<Longrightarrow> typed_msg m"
  "nrm_msg_set_add_sensor (Some \<lparr>msg_type = NRM_MSG_TYPE_ADD, msg_data = DataNone\<rparr>) sn = Inr (r, m) \<Longrightarrow> typed_msg m"
  "nrm_msg_set_add_slice (Some \<lparr>msg_type = NRM_MSG_TYPE_ADD, msg_data = DataNone\<rparr>) sl = Inr (r, m) \<Longrightarrow> typed_msg m"
  "nrm_msg_set_list_actuators (Some \<lparr>msg_type = NRM_MSG_TYPE_LIST, msg_data = DataNone\<rparr>) (Some as) = Inr (r, m) \<Longrightarrow> typed_msg m"
  "nrm_msg_set_list_scopes (Some \<lparr>msg_type = NRM_MSG_TYPE_LIST, msg_data = DataNone\<rparr>) scs = Inr (r, m) \<Longrightarrow> typed_msg m"
  "nrm_msg_set_list_sensors (Some \<lparr>msg_type = NRM_MSG_TYPE_LIST, msg_data = DataNone\<rparr>) sns = Inr (r, m) \<Longrightarrow> typed_msg m"
  "nrm_msg_set_list_slices (Some \<lparr>msg_type = NRM_MSG_TYPE_LIST, msg_data = DataNone\<rparr>) sls = Inr (r, m) \<Longrightarrow> typed_msg m"
  "nrm_msg_set_actuate (Some \<lparr>msg_type = NRM_MSG_TYPE_ACTUATE, msg_data = DataNone\<rparr>) u v = Inr (r, m) \<Longrightarrow> typed_msg m"
  "nrm_msg_set_events (Some \<lparr>msg_type = NRM_MSG_TYPE_EVENTS, msg_data = DataNone\<rparr>) ts = Inr (r, m) \<Longrightarrow> typed_event m"
  by (auto simp: nrm_msg_set_add_actuator_def nrm_msg_set_add_scope_def nrm_msg_set_add_sensor_def nrm_msg_set_add_slice_def
      nrm_msg_set_list_actuators_def nrm_msg_set_list_scopes_def nrm_msg_set_list_sensors_def nrm_msg_set_list_slices_def
      nrm_msg_set_actuate_def nrm_msg_set_events_def msg_set_def filled_eq bindE_eq_Inr msg_consistent_def add_consistent_def
      list_consistent_def nrm_msg_add_new_def nrm_msg_list_new_def actuator_new_consistent nrm_msg_actuatorlist_new_def
      sent_types_def dest: actuatorlist_new_consistent)

lemma send_typed: "srv_send m to s = Inr s' \<Longrightarrow> typed_msg m \<Longrightarrow> n \<or> to \<noteq> None \<Longrightarrow> srv_typed b n s \<Longrightarrow> srv_typed b n s'"
  by (cases m) (auto simp: srv_send_def)

lemma reply_typed: "server_reply c (ret, s) = Inr (r, s') \<Longrightarrow> typed_msg ret \<Longrightarrow> n \<or> c \<noteq> None \<Longrightarrow> srv_typed b n s \<Longrightarrow> srv_typed b n s'"
  by (auto simp: server_reply_def bindE_eq_Inr dest: send_typed split: if_splits)


section \<open>The handlers\<close>

lemma do_actuate_typed: "server_do_actuate u v s = Inr s' \<Longrightarrow> srv_typed b n s \<Longrightarrow> srv_typed b n s'"
  by (auto simp: server_do_actuate_def bindE_eq_Inr Let_def dest!: send_typed [where b = b and n = n] set_typed(9) split: option.splits)

lemma add_typed:
  "nrm_server_add_actuator c a s = Inr (ret, s') \<Longrightarrow> srv_typed b n s \<Longrightarrow> typed_msg ret \<and> srv_typed b n s'"
  "nrm_server_add_scope sc s = Inr (ret, s') \<Longrightarrow> srv_typed b n s \<Longrightarrow> typed_msg ret \<and> srv_typed b n s'"
  "nrm_server_add_sensor sn s = Inr (ret, s') \<Longrightarrow> srv_typed b n s \<Longrightarrow> typed_msg ret \<and> srv_typed b n s'"
  "nrm_server_add_slice sl s = Inr (ret, s') \<Longrightarrow> srv_typed b n s \<Longrightarrow> typed_msg ret \<and> srv_typed b n s'"
  by (auto simp: nrm_server_add_actuator_def nrm_server_add_scope_def nrm_server_add_sensor_def nrm_server_add_slice_def
      bindE_eq_Inr Let_def dest: set_typed split: if_splits)

lemma list_typed:
  "nrm_server_list_actuators s = Inr ret \<Longrightarrow> typed_msg ret" "nrm_server_list_scopes s = Inr ret \<Longrightarrow> typed_msg ret"
  "nrm_server_list_sensors s = Inr ret \<Longrightarrow> typed_msg ret" "nrm_server_list_slices s = Inr ret \<Longrightarrow> typed_msg ret"
  by (auto simp: nrm_server_list_actuators_def nrm_server_list_scopes_def nrm_server_list_sensors_def nrm_server_list_slices_def
      bindE_eq_Inr dest: set_typed split: if_splits)

lemma requests_typed:
  "nrm_server_add_callback c m s = Inr (r, s') \<Longrightarrow> n \<or> c \<noteq> None \<Longrightarrow> srv_typed b n s \<Longrightarrow> srv_typed b n s'"
  "nrm_server_list_callback c l s = Inr (r, s') \<Longrightarrow> n \<or> c \<noteq> None \<Longrightarrow> srv_typed b n s \<Longrightarrow> srv_typed b n s'"
  "nrm_server_remove_callback raw c d s = Inr (r, s') \<Longrightarrow> n \<or> c \<noteq> None \<Longrightarrow> srv_typed b n s \<Longrightarrow> srv_typed b n s'"
proof -
  assume "nrm_server_add_callback c m s = Inr (r, s')" "n \<or> c \<noteq> None" "srv_typed b n s"
  then show "srv_typed b n s'"
    by (auto simp: nrm_server_add_callback_def bindE_eq_Inr dest!: add_typed [where b = b and n = n] reply_typed [where b = b and n = n] split: if_splits)
next
  assume "nrm_server_list_callback c l s = Inr (r, s')" "n \<or> c \<noteq> None" "srv_typed b n s"
  then show "srv_typed b n s'"
    by (auto simp: nrm_server_list_callback_def bindE_eq_Inr dest!: list_typed reply_typed [where b = b and n = n] split: if_splits)
next
  assume "nrm_server_remove_callback raw c d s = Inr (r, s')" "n \<or> c \<noteq> None" "srv_typed b n s"
  then show "srv_typed b n s'"
    by (auto simp: nrm_server_remove_callback_def server_remove_def bindE_eq_Inr dest!: reply_typed [where b = b and n = n] split: if_splits)
qed

lemma publish_typed: "nrm_server_publish topic t u sc v (Some s) = Inr (r, Some s') \<Longrightarrow> srv_typed b n s \<Longrightarrow> srv_typed b n s'"
  by (auto simp: nrm_server_publish_def srv_pub_def bindE_eq_Inr dest: set_typed(10) split: option.splits)

lemma actuate_typed: "nrm_server_actuate u v s = Inr (r, s') \<Longrightarrow> srv_typed b n s \<Longrightarrow> srv_typed b n s'"
  by (auto simp: nrm_server_actuate_def bindE_eq_Inr dest: do_actuate_typed split: option.splits)


section \<open>Users of the server\<close>

locale typed_user =
  fixes event :: "'u nrm_server \<Rightarrow> string \<Rightarrow> nrm_scope option \<Rightarrow> nrm_time \<Rightarrow> double \<Rightarrow> (int \<times> 'u nrm_server) exec"
    and actuate :: "'u nrm_server \<Rightarrow> nrm_actuator \<Rightarrow> double \<Rightarrow> (int \<times> 'u nrm_server) exec"
    and signal :: "('u nrm_server \<Rightarrow> int \<Rightarrow> (int \<times> 'u nrm_server) exec) option"
    and timer :: "'u nrm_server \<Rightarrow> (int \<times> 'u nrm_server) exec"
    and tick :: "'u nrm_server \<Rightarrow> (int \<times> 'u nrm_server) exec"
  assumes event_typed: "event s u sc t v = Inr (r, s') \<Longrightarrow> srv_typed b n s \<Longrightarrow> srv_typed b n s'"
    and actuate_typed: "actuate s a v = Inr (r, s') \<Longrightarrow> srv_typed b n s \<Longrightarrow> srv_typed b n s'"
    and signal_typed: "signal = Some f \<Longrightarrow> f s k = Inr (r, s') \<Longrightarrow> srv_typed b n s \<Longrightarrow> srv_typed b n s'"
    and timer_typed: "timer s = Inr (r, s') \<Longrightarrow> srv_typed b n s \<Longrightarrow> srv_typed b n s'"
    and tick_typed: "tick s = Inr (r, s') \<Longrightarrow> srv_typed b n s \<Longrightarrow> srv_typed b n s'"
begin

abbreviation cbs :: "'u nrm_server_user_callbacks" where
  "cbs \<equiv> all_callbacks event actuate signal timer tick"

lemma events_typed: "nrm_server_events_callback cbs m s = Inr (r, s') \<Longrightarrow> srv_typed b n s \<Longrightarrow> srv_typed b n s'"
proof -
  assume r: "nrm_server_events_callback cbs m s = Inr (r, s')" and s: "srv_typed b n s"
  then obtain series where f: "foldE (server_timeserie cbs) series s = Inr s'"
    by (auto simp: nrm_server_events_callback_def bindE_eq_Inr)
  show ?thesis
  proof (rule foldE_invariant [OF f, where P = "srv_typed b n"])
    fix ts s s' assume "srv_typed b n s" "server_timeserie cbs ts s = Inr s'"
    then obtain u scope where s: "srv_typed b n s" and f: "foldE (server_event cbs u scope) (mt_events ts) s = Inr s'"
      by (auto simp: server_timeserie_def bindE_eq_Inr)
    show "srv_typed b n s'"
      by (rule foldE_invariant [OF f, where P = "srv_typed b n"])
        (use s in \<open>auto simp: server_event_def all_callbacks_def bindE_eq_Inr dest: event_typed\<close>)
  qed (rule s)
qed

lemma handle_typed:
  assumes r: "server_handle cbs raw i s = Inr (r, s')" and s: "srv_typed b n s" and c: "\<And>m. i = IMsg m None \<Longrightarrow> n"
  shows "srv_typed b n s'"
proof -
  have act: "nrm_server_actuate_callback cbs c x s = Inr (r, s') \<Longrightarrow> n \<or> c \<noteq> None \<Longrightarrow> srv_typed b n s'" for c x
    using s by (fastforce simp: nrm_server_actuate_callback_def all_callbacks_def bindE_eq_Inr Let_def dest: actuate_typed
        do_actuate_typed split: option.splits if_splits)
  have tick: "nrm_server_tick_callback cbs c s = Inr (r, s') \<Longrightarrow> n \<or> c \<noteq> None \<Longrightarrow> srv_typed b n s'" for c
    using s by (auto simp: nrm_server_tick_callback_def all_callbacks_def bindE_eq_Inr dest: tick_typed)
  show ?thesis
  proof (cases i)
    case (IMsg m to)
    with c have "n \<or> to \<noteq> None" by auto
    then show ?thesis using r s IMsg
      by (auto simp: server_handle_def nrm_server_role_callback_def nrm_server_exit_callback_def bindE_eq_Inr
          dest: act tick requests_typed events_typed split: if_splits)
  next
    case (ISignal k)
    then show ?thesis using r s
      by (auto simp: server_handle_def nrm_server_signal_callback_def all_callbacks_def dest: signal_typed split: option.splits)
  next
    case ITimer
    then show ?thesis using r s
      by (auto simp: server_handle_def nrm_server_timer_callback_def all_callbacks_def dest: timer_typed)
  qed
qed

lemma reach_typed:
  assumes "server_reach cbs raw s0 s" and "srv_typed b True s0"
  shows "srv_typed b True s"
  using assms by (induction rule: server_reach.induct) (auto dest: handle_typed)

end

lemma control_tick_typed: "nrmd_control_tick fexp flog s = Inr (r, s') \<Longrightarrow> srv_typed b n s \<Longrightarrow> srv_typed b n s'"
proof -
  assume r: "nrmd_control_tick fexp flog s = Inr (r, s')" and s: "srv_typed b n s"
  obtain outs s3 s4 where f: "foldE nrmd_actuate_output outs s3 = Inr s4" "srv_out s3 = srv_out s" "srv_out s' = srv_out s4"
    by (rule control_tick_actuates [OF r])
  have "srv_typed b n s4"
    by (rule foldE_invariant [OF f(1), where P = "srv_typed b n"])
      (use s f(2) in \<open>auto simp: srv_typed_def nrmd_actuate_output_def bindE_eq_Inr dest: actuate_typed [unfolded srv_typed_def]\<close>)
  then show ?thesis using f(3) by (simp add: srv_typed_def)
qed

interpretation nrmd_typed: typed_user nrmd_event_callback nrmd_actuate_callback None
  "nrmd_timer_callback fexp flog" "nrmd_tick_callback fexp flog"
proof unfold_locales
  fix s u sc t v r s' b n
  assume "nrmd_event_callback s u sc t v = Inr (r, s')" "srv_typed b n s"
  then show "srv_typed b n s'"
    by (auto simp: nrmd_event_callback_def bindE_eq_Inr Let_def dest!: publish_typed [where b = b and n = n])
next
  fix s r s' b n
  assume r: "nrmd_timer_callback fexp flog s = Inr (r, s')" and s: "srv_typed b n s"
  obtain now s1 where g: "nrmd_gettime s = (now, s1)" by fastforce
  then have "srv_typed b n s1" using s gettime_keeps(2) [of s] by (simp add: srv_typed_def)
  with r g show "srv_typed b n s'"
    by (auto simp: nrmd_timer_callback_def bindE_eq_Inr dest!: publish_typed [where b = b and n = n] dest: control_tick_typed split: if_splits)
next
  fix s r s' b n
  assume "nrmd_tick_callback fexp flog s = Inr (r, s')" "srv_typed b n s"
  then show "srv_typed b n s'"
    by (auto simp: nrmd_tick_callback_def bindE_eq_Inr dest: control_tick_typed split: if_splits)
qed (auto simp: nrmd_actuate_callback_def)


section \<open>Properties\<close>

text \<open>
  C13. Everything the daemon sends is well typed: whatever the topology, the configuration and the messages, signals and timer events
  it gets (also ill-typed messages, as long as handling them does not fail), every message it has sent or published has the union member
  its type says, down to the actuators in it; what it sends to a client is an acknowledgement, a list, an addition or an action, what it
  publishes is an event.  So a client may read a message of the daemon by its tags.
\<close>

theorem nrmd_sends_typed:
  assumes "nrmd_main fexp topo clock config role uri freq = Inr (s0, period)"
    and "server_reach (nrmd_callbacks fexp flog) raw s0 s"
  shows "\<forall>x \<in> set (srv_out s). case x of OSend m _ \<Rightarrow> msg_consistent m \<and> msg_type m \<in> sent_types
      | OPub _ m \<Rightarrow> msg_consistent m \<and> msg_type m = NRM_MSG_TYPE_EVENTS"
proof -
  have "srv_out s0 = []"
    using assms(1) by (auto simp: nrmd_main_def nrm_server_create_def bindE_eq_Inr Let_def split: option.splits if_splits)
  then have "srv_typed [] True s0" by (simp add: srv_typed_def)
  from nrmd_typed.reach_typed [OF assms(2) [unfolded nrmd_callbacks_def] this] show ?thesis
    by (auto simp: srv_typed_def out_typed_def list_all_iff split: server_out.splits)
qed

theorem nrmd_sends_typed_witness:
  "\<exists>s0 period s. nrmd_main (\<lambda>x. x) one_machine (\<lambda>_. \<lparr>tv_sec = 0, tv_nsec = 0\<rparr>) None True (Some ''tcp'') (DFin 0) = Inr (s0, period)
     \<and> server_reach (nrmd_callbacks (\<lambda>x. x) (\<lambda>x. x)) [] s0 s \<and> length (srv_out s) = 1
     \<and> (\<forall>x \<in> set (srv_out s). case x of OSend m _ \<Rightarrow> msg_consistent m \<and> msg_type m \<in> sent_types
      | OPub _ m \<Rightarrow> msg_consistent m \<and> msg_type m = NRM_MSG_TYPE_EVENTS)"
proof -
  obtain s0 period where s0: "nrmd_main (\<lambda>x. x) one_machine (\<lambda>_. \<lparr>tv_sec = 0, tv_nsec = 0\<rparr>) None True (Some ''tcp'') (DFin 0) = Inr (s0, period)"
    using one_machine_starts by blast
  let ?cb = "nrmd_callbacks (\<lambda>x. x) (\<lambda>x. x)" and ?i = "IMsg (Some \<lparr>msg_type = NRM_MSG_TYPE_EXIT, msg_data = DataNone\<rparr>) (Some ''c'')"
  let ?s = "s0\<lparr>srv_out := srv_out s0 @ [OSend \<lparr>msg_type = NRM_MSG_TYPE_ACK, msg_data = DataNone\<rparr> (Some ''c'')]\<rparr>"
  have "srv_out s0 = []"
    using s0 by (auto simp: nrmd_main_def nrm_server_create_def bindE_eq_Inr Let_def split: option.splits if_splits)
  then have one: "length (srv_out ?s) = 1" by simp
  have "server_handle ?cb [] ?i s0 = Inr (-1, ?s)"
    by (simp add: server_handle_def nrm_server_role_callback_def nrm_server_exit_callback_def msg_types)
  then have reach: "server_reach ?cb [] s0 ?s" by (rule server_reach.turn [OF server_reach.start])
  from nrmd_sends_typed [OF s0 reach] s0 reach one show ?thesis by blast
qed

end
