(* ===== verification/NRM_Publish.thy ===== *)
theory NRM_Publish
  imports NRM_Daemon
begin

text \<open>
  What the daemon publishes, over all the messages it handles.

  The locale \<open>send_invariant\<close> is a property of the server that neither a change of the tables nor a message to a client can break; the
  handlers other than the one of EVENTS keep it when the callbacks of the user do.  The daemon's publications under each
  of its topics are such a property, so what it publishes as raw events is, in order, what the EVENTS messages told it.
\<close>

section \<open>Handlers that publish nothing\<close>

locale send_invariant =
  fixes P :: "'u nrm_server \<Rightarrow> bool"
  assumes state: "P s \<Longrightarrow> P (s\<lparr>srv_state := st\<rparr>)"
    and sends: "P s \<Longrightarrow> P (s\<lparr>srv_out := srv_out s @ [OSend m to]\<rparr>)"
begin

lemma send_keeps: "srv_send m to s = Inr s' \<Longrightarrow> P s \<Longrightarrow> P s'"
  by (cases m) (auto simp: srv_send_def sends)

lemma reply_keeps: "server_reply c (ret, s) = Inr (r, s') \<Longrightarrow> P s \<Longrightarrow> P s'"
  by (auto simp: server_reply_def bindE_eq_Inr dest: send_keeps split: if_splits)

lemma do_actuate_keeps: "server_do_actuate u v s = Inr s' \<Longrightarrow> P s \<Longrightarrow> P s'"
  by (auto simp: server_do_actuate_def bindE_eq_Inr Let_def state dest!: send_keeps split: option.splits)

lemma actuate_keeps: "nrm_server_actuate u v s = Inr (r, s') \<Longrightarrow> P s \<Longrightarrow> P s'"
  by (auto simp: nrm_server_actuate_def bindE_eq_Inr dest: do_actuate_keeps split: option.splits)

lemma add_keeps:
  "nrm_server_add_actuator c a s = Inr (ret, s') \<Longrightarrow> P s \<Longrightarrow> P s'"
  "nrm_server_add_scope sc s = Inr (ret, s') \<Longrightarrow> P s \<Longrightarrow> P s'"
  "nrm_server_add_sensor sn s = Inr (ret, s') \<Longrightarrow> P s \<Longrightarrow> P s'"
  "nrm_server_add_slice sl s = Inr (ret, s') \<Longrightarrow> P s \<Longrightarrow> P s'"
  by (auto simp: nrm_server_add_actuator_def nrm_server_add_scope_def nrm_server_add_sensor_def nrm_server_add_slice_def
      bindE_eq_Inr Let_def state split: if_splits)

lemma add_callback_keeps: "nrm_server_add_callback c m s = Inr (r, s') \<Longrightarrow> P s \<Longrightarrow> P s'"
  by (auto simp: nrm_server_add_callback_def bindE_eq_Inr dest!: add_keeps reply_keeps split: if_splits)

lemma list_callback_keeps: "nrm_server_list_callback c l s = Inr (r, s') \<Longrightarrow> P s \<Longrightarrow> P s'"
  by (auto simp: nrm_server_list_callback_def bindE_eq_Inr dest!: reply_keeps split: if_splits)

lemma remove_callback_keeps: "nrm_server_remove_callback raw c d s = Inr (r, s') \<Longrightarrow> P s \<Longrightarrow> P s'"
  by (auto simp: nrm_server_remove_callback_def server_remove_def bindE_eq_Inr state dest!: reply_keeps split: if_splits)

end

locale send_invariant_user = send_invariant P
  for P :: "'u nrm_server \<Rightarrow> bool" +
  fixes event :: "'u nrm_server \<Rightarrow> string \<Rightarrow> nrm_scope option \<Rightarrow> nrm_time \<Rightarrow> double \<Rightarrow> (int \<times> 'u nrm_server) exec"
    and actuate :: "'u nrm_server \<Rightarrow> nrm_actuator \<Rightarrow> double \<Rightarrow> (int \<times> 'u nrm_server) exec"
    and timer :: "'u nrm_server \<Rightarrow> (int \<times> 'u nrm_server) exec"
    and tick :: "'u nrm_server \<Rightarrow> (int \<times> 'u nrm_server) exec"
  assumes user_actuate: "actuate s a v = Inr (r, s') \<Longrightarrow> P s \<Longrightarrow> P s'"
    and user_timer: "timer s = Inr (r, s') \<Longrightarrow> P s \<Longrightarrow> P s'"
    and user_tick: "tick s = Inr (r, s') \<Longrightarrow> P s \<Longrightarrow> P s'"
begin

lemma handle_keeps:
  assumes r: "server_handle (all_callbacks event actuate None timer tick) raw i s = Inr (r, s')" and s: "P s"
    and i: "\<And>m c. i = IMsg (Some m) c \<Longrightarrow> msg_type m \<noteq> NRM_MSG_TYPE_EVENTS"
  shows "P s'"
proof -
  let ?cb = "all_callbacks event actuate None timer tick"
  have act: "nrm_server_actuate_callback ?cb c x s = Inr (r, s') \<Longrightarrow> P s'" for c x
    using s by (fastforce simp: nrm_server_actuate_callback_def all_callbacks_def bindE_eq_Inr Let_def
        intro: sends dest: user_actuate do_actuate_keeps split: option.splits if_splits)
  have tick: "nrm_server_tick_callback ?cb c s = Inr (r, s') \<Longrightarrow> P s'" for c
    using s by (auto simp: nrm_server_tick_callback_def all_callbacks_def bindE_eq_Inr intro: sends dest: user_tick)
  have exit: "nrm_server_exit_callback c s = Inr (r, s') \<Longrightarrow> P s'" for c
    using s by (auto simp: nrm_server_exit_callback_def bindE_eq_Inr intro: sends)
  show ?thesis
  proof (cases i)
    case (IMsg m c)
    then show ?thesis using r s i
      by (cases m) (auto simp: server_handle_def nrm_server_role_callback_def bindE_eq_Inr
          dest: act tick exit add_callback_keeps list_callback_keeps remove_callback_keeps split: if_splits)
  next
    case (ISignal k)
    then show ?thesis using r s by (auto simp: server_handle_def nrm_server_signal_callback_def all_callbacks_def)
  next
    case ITimer
    then show ?thesis using r s by (auto simp: server_handle_def nrm_server_timer_callback_def all_callbacks_def dest: user_timer)
  qed
qed

end


section \<open>The daemon's topics\<close>

definition pubs_of :: "server_out list \<Rightarrow> (string \<times> nrm_msg) list" where
  "pubs_of out = concat (map (\<lambda>x. case x of server_out.OPub t m \<Rightarrow> [(t, m)] | _ \<Rightarrow> []) out)"

lemma pubs_of_simps [simp]:
  "pubs_of [] = []" "pubs_of (x @ y) = pubs_of x @ pubs_of y" "pubs_of (OSend m to # xs) = pubs_of xs"
  "pubs_of (server_out.OPub t m # xs) = (t, m) # pubs_of xs"
  by (simp_all add: pubs_of_def)

abbreviation raw_topic :: string where
  "raw_topic \<equiv> ''daemon.events.raw''"

definition raw_pubs :: "(string \<times> nrm_msg) list \<Rightarrow> nrm_msg list" where
  "raw_pubs ps = map snd (filter (\<lambda>(t, _). t = raw_topic) ps)"

lemma raw_pubs_simps [simp]:
  "raw_pubs [] = []" "raw_pubs (ps @ ps') = raw_pubs ps @ raw_pubs ps'"
  "raw_pubs ((t, m) # ps) = (if t = raw_topic then m # raw_pubs ps else raw_pubs ps)"
  by (simp_all add: raw_pubs_def)

text \<open>The daemon has published \<open>ms\<close> as raw events, and besides only its own ticks.\<close>

definition publishes :: "nrm_msg list \<Rightarrow> nrmd_server \<Rightarrow> bool" where
  "publishes ms s \<longleftrightarrow> dm_eventtopic (srv_user s) = raw_topic \<and> dm_mytopic (srv_user s) = ''daemon''
     \<and> list_all (\<lambda>(t, _). t = raw_topic \<or> t = ''daemon'') (pubs_of (srv_out s)) \<and> raw_pubs (pubs_of (srv_out s)) = ms"

text \<open>What an input tells the daemon: the events of a message, with their series' sensors and scopes.\<close>

definition told_series :: "nrm_msg_timeserie \<Rightarrow> nrm_msg list" where
  "told_series ts = (case nrm_scope_create_frommsg (mt_scope ts) of
       Inr (Some sc) \<Rightarrow> map (\<lambda>e. event_msg (mt_sensor_uuid ts) sc (nrm_time_fromns (me_time e)) (me_value e)) (mt_events ts)
     | _ \<Rightarrow> [])"

fun told :: "server_in \<Rightarrow> nrm_msg list" where
  "told (IMsg (Some m) _) = (if msg_type m = NRM_MSG_TYPE_EVENTS then
       (case msg_data m of DataEvents series \<Rightarrow> concat (map told_series series) | _ \<Rightarrow> []) else [])"
| "told _ = []"

lemma publishes_user:
  "publishes ms s \<Longrightarrow> dm_eventtopic u = dm_eventtopic (srv_user s) \<Longrightarrow> dm_mytopic u = dm_mytopic (srv_user s) \<Longrightarrow> publishes ms (s\<lparr>srv_user := u\<rparr>)"
  by (simp add: publishes_def)

lemma publishes_gettime: "publishes ms s \<Longrightarrow> publishes ms (snd (nrmd_gettime s))"
  by (simp add: nrmd_gettime_def Let_def publishes_def)

interpretation nrmd_sends: send_invariant "publishes ms" for ms
  by unfold_locales (simp_all add: publishes_def)

lemma publishes_pull: "nrmd_pull_inputs is s = Inr (is', s') \<Longrightarrow> publishes ms s \<Longrightarrow> publishes ms s'"
proof (induction "is" arbitrary: s is' s')
  case (Cons i "is")
  obtain now s1 where g: "nrmd_gettime s = (now, s1)" by fastforce
  then have "publishes ms s1" using publishes_gettime [OF Cons.prems(2)] by simp
  moreover obtain is1 where "nrmd_pull_inputs is s1 = Inr (is1, s')" using Cons.prems g by (auto simp: bindE_eq_Inr)
  ultimately show ?case using Cons.IH by blast
qed simp

lemma publishes_control_tick:
  assumes r: "nrmd_control_tick fexp flog s = Inr (ret, s')" and s: "publishes ms s"
  shows "publishes ms s'"
proof -
  obtain now s1 where g: "nrmd_gettime s = (now, s1)" by fastforce
  then have s1: "publishes ms s1" using publishes_gettime [OF s] by simp
  from r g obtain d ins outs ins' s2 outs' where p: "nrmd_pull_inputs ins s1 = Inr (ins', s2)"
    and rest: "(case nrmd_gettime s2 of (t, s) \<Rightarrow>
      bindE (nrm_control_action fexp flog t (Some (d\<lparr>ep_inputs := ins'\<rparr>)) ins' outs') (\<lambda>(_, d, outputs).
      let s = s\<lparr>srv_user := (srv_user s)\<lparr>dm_control := Some (d\<lparr>ep_outputs := outputs\<rparr>)\<rparr>\<rparr> in
      bindE (foldE nrmd_actuate_output outputs s) (\<lambda>s.
      bindE (derefE (snd (nrm_eventbase_tick (Some (dm_events (srv_user s))) now))) (\<lambda>eb.
      Inr (0, s\<lparr>srv_user := (srv_user s)\<lparr>dm_events := eb\<rparr>\<rparr>))))) = Inr (ret, s')"
    by (auto simp: nrmd_control_tick_def bindE_eq_Inr)
  obtain t s3 where g2: "nrmd_gettime s2 = (t, s3)" by fastforce
  have s3: "publishes ms s3" using publishes_gettime [OF publishes_pull [OF p s1]] g2 by simp
  from rest g2 obtain d' outs2 s4 eb where f: "foldE nrmd_actuate_output outs2
      (s3\<lparr>srv_user := (srv_user s3)\<lparr>dm_control := Some (d'\<lparr>ep_outputs := outs2\<rparr>)\<rparr>\<rparr>) = Inr s4"
    and s': "s' = s4\<lparr>srv_user := (srv_user s4)\<lparr>dm_events := eb\<rparr>\<rparr>"
    by (auto simp: bindE_eq_Inr Let_def)
  have "publishes ms s4"
    by (rule foldE_invariant [OF f, where P = "publishes ms"])
      (use s3 in \<open>auto simp: nrmd_actuate_output_def bindE_eq_Inr intro: publishes_user dest: nrmd_sends.actuate_keeps\<close>)
  then show ?thesis using s' by (simp add: publishes_user)
qed

lemma publishes_publish:
  assumes "nrm_server_publish (Some ''daemon'') t u sc v (Some s) = Inr (r, Some s')" "publishes ms s"
  shows "publishes ms s'"
  using assms by (auto simp: nrm_server_publish_def srv_pub_def publishes_def bindE_eq_Inr split: option.splits)

interpretation nrmd_quiet: send_invariant_user "publishes ms" nrmd_event_callback nrmd_actuate_callback
  "nrmd_timer_callback fexp flog" "nrmd_tick_callback fexp flog" for ms fexp flog
proof unfold_locales
  fix s r s'
  assume r: "nrmd_timer_callback fexp flog s = Inr (r, s')" and s: "publishes ms s"
  obtain now s1 where g: "nrmd_gettime s = (now, s1)" by fastforce
  then have s1: "publishes ms s1" using publishes_gettime [OF s] by simp
  then have "dm_mytopic (srv_user s1) = ''daemon''" by (simp add: publishes_def)
  with r g s1 show "publishes ms s'"
    by (auto simp: nrmd_timer_callback_def bindE_eq_Inr dest!: publishes_publish dest: publishes_control_tick split: if_splits)
next
  fix s r s'
  assume "nrmd_tick_callback fexp flog s = Inr (r, s')" "publishes ms s"
  then show "publishes ms s'"
    by (auto simp: nrmd_tick_callback_def bindE_eq_Inr dest: publishes_control_tick split: if_splits)
qed (auto simp: nrmd_actuate_callback_def)


section \<open>Events\<close>

lemma event_publishes:
  assumes r: "nrmd_event_callback s u sc t v = Inr (r, s')" and s: "publishes ms s" and sc: "pred_option scope_wf sc"
  shows "publishes (ms @ (case sc of None \<Rightarrow> [] | Some c \<Rightarrow> [event_msg u c t v])) s'"
proof (cases sc)
  case None
  then show ?thesis using r s
    by (auto simp: nrmd_event_callback_def bindE_eq_Inr Let_def nrm_server_publish_def publishes_def)
next
  case (Some c)
  then show ?thesis using r s sc by (auto simp: nrmd_event_callback_def bindE_eq_Inr Let_def publish_eq publishes_def)
qed

lemma series_publishes:
  assumes r: "server_timeserie (nrmd_callbacks fexp flog) ts s = Inr s'" and s: "publishes ms s"
  shows "publishes (ms @ told_series ts) s'"
proof -
  obtain sc where sc: "nrm_scope_create_frommsg (mt_scope ts) = Inr sc" "pred_option scope_wf sc"
  proof (cases "mt_scope ts")
    case (Some m)
    then show ?thesis using that nrm_scope_create_frommsg_wf [of m] by auto
  qed (auto simp: nrm_scope_create_frommsg_def intro: that)
  let ?m = "\<lambda>e. case sc of None \<Rightarrow> [] | Some c \<Rightarrow> [event_msg (mt_sensor_uuid ts) c (nrm_time_fromns (me_time e)) (me_value e)]"
  have "publishes (ms @ concat (map ?m es)) s'"
    if "foldE (server_event (nrmd_callbacks fexp flog) (mt_sensor_uuid ts) sc) es s = Inr s'" "publishes ms s" for es ms s
    using that
  proof (induction es arbitrary: s ms)
    case (Cons e es)
    then obtain s1 where s1: "server_event (nrmd_callbacks fexp flog) (mt_sensor_uuid ts) sc e s = Inr s1"
      "foldE (server_event (nrmd_callbacks fexp flog) (mt_sensor_uuid ts) sc) es s1 = Inr s'"
      by (auto simp: bindE_eq_Inr)
    then obtain r where "nrmd_event_callback s (mt_sensor_uuid ts) sc (nrm_time_fromns (me_time e)) (me_value e) = Inr (r, s1)"
      by (auto simp: server_event_def nrmd_callbacks_def all_callbacks_def bindE_eq_Inr)
    with s1(2) show ?case using Cons.IH [of s1 "ms @ ?m e"] event_publishes [OF _ Cons.prems(2) sc(2)] by simp
  qed simp
  then have "publishes (ms @ concat (map ?m (mt_events ts))) s'" using r s sc(1) by (simp add: server_timeserie_def)
  moreover have "concat (map ?m (mt_events ts)) = told_series ts" using sc(1) by (cases sc) (simp_all add: told_series_def concat_map_singleton)
  ultimately show ?thesis by simp
qed

lemma all_series_publish:
  "foldE (server_timeserie (nrmd_callbacks fexp flog)) series s = Inr s' \<Longrightarrow> publishes ms s \<Longrightarrow> publishes (ms @ concat (map told_series series)) s'"
proof (induction series arbitrary: s ms)
  case (Cons ts series)
  then obtain s1 where "server_timeserie (nrmd_callbacks fexp flog) ts s = Inr s1"
    "foldE (server_timeserie (nrmd_callbacks fexp flog)) series s1 = Inr s'" by (auto simp: bindE_eq_Inr)
  then show ?case using Cons.IH [of s1 "ms @ told_series ts"] series_publishes Cons.prems(2) by fastforce
qed simp

text \<open>One input adds to the raw events what it told.\<close>

lemma handle_publishes:
  assumes r: "server_handle (nrmd_callbacks fexp flog) raw i s = Inr (r, s')" and s: "publishes ms s"
  shows "publishes (ms @ told i) s'"
proof (cases "\<exists>m c. i = IMsg (Some m) c \<and> msg_type m = NRM_MSG_TYPE_EVENTS")
  case True
  then obtain m c where m: "i = IMsg (Some m) c" "msg_type m = NRM_MSG_TYPE_EVENTS" by blast
  with r obtain series where "msg_data m = DataEvents series" "foldE (server_timeserie (nrmd_callbacks fexp flog)) series s = Inr s'"
    by (auto simp: server_handle_def nrm_server_role_callback_def nrm_server_events_callback_def msg_events_def bindE_eq_Inr msg_types
        split: msg_data.splits)
  then show ?thesis using m all_series_publish s by simp
next
  case False
  then have "told i = []" by (cases i rule: told.cases) auto
  then show ?thesis using nrmd_quiet.handle_keeps [of fexp flog raw i s r s' ms] r s False by (auto simp: nrmd_callbacks_def)
qed

lemma main_publishes: "nrmd_main fexp topo clock config role uri freq = Inr (s, period) \<Longrightarrow> publishes [] s"
  by (auto simp: nrmd_main_def nrm_server_create_def publishes_def bindE_eq_Inr Let_def split: option.splits if_splits)

end
