(* ===== verification/NRM_Network.thy ===== *)
theory NRM_Network
  imports NRM_Nrmd NRM_Typing NRM_Publish
begin

text \<open>
  Any number of clients and the daemon, interleaved in any order.

  Each program of the system has two threads, the API's and the broker's, joined by a pipe; the sockets join the brokers.  An action
  is one turn of one thread or one message on the network: the API of a client sends, receives or subscribes, a client's broker takes a
  message from its pipe or its socket, the controller's broker does, the server handles a message, its timer or a signal, the
  router takes a message from a client or passes one on, the publisher passes one to its subscribers or learns of their subscriptions.  A ROUTER socket keeps the order of
  each peer's messages, puts the peer's identity in front, routes what is sent by its first frame and drops what it cannot route; a PUB
  socket passes a message to the SUB sockets with a subscription that it knows of and that is a prefix of its first frame, as zmq documents; a subscription takes effect when it has
  reached the publisher, some time after it was made.

  \<open>network\<close> holds the threads and the queues between them, the subscriptions the publisher knows of, and histories that no action reads: what each client sent and
  received, what the server handled, and what the publisher passed on and to whom.  The result is that the daemon behaves as if it ran alone: whatever the interleaving, it is in
  the state that \<open>nrm_server_start\<close> reaches on some merge of the requests, nothing faults, and each client gets
  the answers to its own requests, in order; all of them, once every thread has done its work.  The same holds for what the daemon
  publishes and for the actions it asks the owners of the actuators to take.
\<close>

section \<open>Actions\<close>

record 'u net_env =
  ne_pack :: "nrm_msg \<Rightarrow> string"
  ne_unpack :: "string \<Rightarrow> nrm_msg option"
  ne_cb :: "'u nrm_server_user_callbacks"
  ne_raw :: string
  ne_ids :: "string list"
  ne_topics :: "string \<Rightarrow> string list"
  ne_behind :: string

record 'u network =
  net_client :: "string \<Rightarrow> client_fn nrm_role_client"
  net_back :: "string \<Rightarrow> zmsg list"
  net_feed :: "string \<Rightarrow> zmsg list"
  net_subs :: "string \<Rightarrow> string list"
  net_ctrl :: nrm_role_controller
  net_server :: "'u nrm_server"
  net_running :: bool
  net_sent :: "string \<Rightarrow> nrm_msg list"
  net_got :: "string \<Rightarrow> nrm_msg list"
  net_inputs :: "server_in list"
  net_pubd :: "zmsg list"
  net_fed :: "string \<Rightarrow> zmsg list"

datatype net_action =
    ASend string nrm_msg
  | ARecv string
  | AClientPipe string
  | AWire string
  | AServe
  | ATimer
  | ASignal int
  | AControllerPipe
  | ARoute
  | AClientRpc string
  | APublish
  | AClientSub string
  | ASub string string
  | ASync string

text \<open>The subscriptions of a socket, and the topics under them.\<close>

definition subscribed :: "string list \<Rightarrow> string \<Rightarrow> bool" where
  "subscribed topics topic = list_ex (\<lambda>p. prefix p topic) topics"

definition socket_topics :: "client_fn nrm_role_client \<Rightarrow> string list" where
  "socket_topics d = (case rc_sub d of None \<Rightarrow> [] | Some s \<Rightarrow> zs_subscribe s)"

lemma socket_topics_updates [simp]:
  "socket_topics (d\<lparr>rc_up := x\<rparr>) = socket_topics d" "socket_topics (d\<lparr>rc_down := y\<rparr>) = socket_topics d" "socket_topics (d\<lparr>rc_rpc := z\<rparr>) = socket_topics d"
  "socket_topics (d\<lparr>rc_calls := w\<rparr>) = socket_topics d" "socket_topics (d\<lparr>rc_sub_cb := f\<rparr>) = socket_topics d"
  "socket_topics (d\<lparr>rc_sub := Some s\<rparr>) = zs_subscribe s"
  by (simp_all add: socket_topics_def)

text \<open>The server handles an input; what it sends goes to the controller's pipe.\<close>

definition net_serve :: "'u net_env \<Rightarrow> server_in \<Rightarrow> nrm_role_controller \<Rightarrow> 'u network \<Rightarrow> 'u network exec" where
  "net_serve env i ct n =
     bindE (server_handle (ne_cb env) (ne_raw env) i (net_server n)) (\<lambda>(rc, srv).
     bindE (controller_out (drop (length (srv_out (net_server n))) (srv_out srv)) ct) (\<lambda>ct.
     Inr (n\<lparr>net_ctrl := ct, net_server := srv, net_running := (rc \<noteq> -1), net_inputs := net_inputs n @ [i]\<rparr>)))"

fun net_do :: "'u net_env \<Rightarrow> net_action \<Rightarrow> 'u network \<Rightarrow> 'u network exec" where
  "net_do env (ASend i m) n =
     bindE (nrm_role_client_send (net_client n i) (Some m) None) (\<lambda>(_, cl).
     Inr (n\<lparr>net_client := (net_client n)(i := cl), net_sent := (net_sent n)(i := net_sent n i @ [m])\<rparr>))"
| "net_do env (ARecv i) n =
     bindE (nrm_role_client_recv (net_client n i)) (\<lambda>(msg, _, cl).
     bindE (derefE msg) (\<lambda>m.
     Inr (n\<lparr>net_client := (net_client n)(i := cl), net_got := (net_got n)(i := net_got n i @ [m])\<rparr>)))"
| "net_do env (AClientPipe i) n =
     (case rc_down (net_client n i) of
        [] \<Rightarrow> Inl Diverges
      | c # cs \<Rightarrow> bindE (nrm_client_broker_pipe_handler (ne_pack env) c ((net_client n i)\<lparr>rc_down := cs\<rparr>)) (\<lambda>(_, cl).
          Inr (n\<lparr>net_client := (net_client n)(i := cl)\<rparr>)))"
| "net_do env (AWire i) n =
     (case rc_rpc (net_client n i) of
        [] \<Rightarrow> Inl Diverges
      | zm # zms \<Rightarrow> bindE (nrm_controller_broker_rpc_handler (ne_unpack env) (i # zm) (net_ctrl n)) (\<lambda>(_, ct).
          Inr (n\<lparr>net_client := (net_client n)(i := (net_client n i)\<lparr>rc_rpc := zms\<rparr>), net_ctrl := ct\<rparr>)))"
| "net_do env AServe n =
     bindE (nrm_role_controller_recv (net_ctrl n)) (\<lambda>(msg, from, ct). net_serve env (IMsg msg from) ct n)"
| "net_do env ATimer n = net_serve env ITimer (net_ctrl n) n"
| "net_do env (ASignal k) n = net_serve env (ISignal k) (net_ctrl n) n"
| "net_do env AControllerPipe n =
     (case ct_down (net_ctrl n) of
        [] \<Rightarrow> Inl Diverges
      | c # cs \<Rightarrow> bindE (nrm_controller_broker_pipe_handler (ne_pack env) c ((net_ctrl n)\<lparr>ct_down := cs\<rparr>)) (\<lambda>(_, ct).
          Inr (n\<lparr>net_ctrl := ct\<rparr>)))"
| "net_do env ARoute n =
     (case ct_rpc (net_ctrl n) of
        (to # frames) # zms \<Rightarrow>
          Inr (n\<lparr>net_ctrl := (net_ctrl n)\<lparr>ct_rpc := zms\<rparr>,
                 net_back := (if to \<in> set (ne_ids env) then (net_back n)(to := net_back n to @ [frames]) else net_back n)\<rparr>)
      | _ \<Rightarrow> Inl Diverges)"
| "net_do env (AClientRpc i) n =
     (case net_back n i of
        [] \<Rightarrow> Inl Diverges
      | zm # zms \<Rightarrow> bindE (nrm_client_broker_rpc_handler (ne_unpack env) zm (net_client n i)) (\<lambda>(_, cl).
          Inr (n\<lparr>net_client := (net_client n)(i := cl), net_back := (net_back n)(i := zms)\<rparr>)))"
| "net_do env APublish n =
     (case ct_pub (net_ctrl n) of
        (topic # frames) # zms \<Rightarrow>
          Inr (n\<lparr>net_ctrl := (net_ctrl n)\<lparr>ct_pub := zms\<rparr>,
                 net_feed := (\<lambda>i. net_feed n i @ (if i \<in> set (ne_ids env) \<and> subscribed (net_subs n i) topic then [topic # frames] else [])),
                 net_pubd := net_pubd n @ [topic # frames],
                 net_fed := (\<lambda>i. net_fed n i @ (if i \<in> set (ne_ids env) \<and> subscribed (net_subs n i) topic then [topic # frames] else []))\<rparr>)
      | _ \<Rightarrow> Inl Diverges)"
| "net_do env (AClientSub i) n =
     (case net_feed n i of
        [] \<Rightarrow> Inl Diverges
      | zm # zms \<Rightarrow> bindE (nrm_client_broker_sub_handler (ne_unpack env) (ne_behind env) zm (net_client n i)) (\<lambda>(_, cl).
          Inr (n\<lparr>net_client := (net_client n)(i := cl), net_feed := (net_feed n)(i := zms)\<rparr>)))"
| "net_do env (ASub i topic) n =
     (case nrm_role_client_register_sub_cb (net_client n i) (Some Client_sub_callback) of (_, cl) \<Rightarrow>
      bindE (nrm_role_client_sub cl topic) (\<lambda>(_, cl). Inr (n\<lparr>net_client := (net_client n)(i := cl)\<rparr>)))"
| "net_do env (ASync i) n = Inr (n\<lparr>net_subs := (net_subs n)(i := socket_topics (net_client n i))\<rparr>)"

lemma net_do_ASub [simp]:
  "net_do env (ASub i topic) n = Inr (n\<lparr>net_client := (net_client n)(i := (net_client n i)
     \<lparr>rc_sub_cb := Some Client_sub_callback, rc_down := rc_down (net_client n i) @ [(''SUB'', PStr topic, PNull)]\<rparr>)\<rparr>)"
  by (simp add: nrm_role_client_register_sub_cb_def nrm_role_client_sub_def nrm_ctrlmsg_sub_def nrm_ctrlmsg_send_def ctrl_strings)

declare net_do.simps(13) [simp del]

text \<open>
  A thread that waits for a message is not at work.  Clients keep to the protocol.  A server that returned -1 handles nothing more.
\<close>

fun enabled :: "'u net_env \<Rightarrow> net_action \<Rightarrow> 'u network \<Rightarrow> bool" where
  "enabled env (ASend i m) n = (i \<in> set (ne_ids env) \<and> benign m)"
| "enabled env (ARecv i) n = (i \<in> set (ne_ids env) \<and> rc_up (net_client n i) \<noteq> [])"
| "enabled env (AClientPipe i) n = (i \<in> set (ne_ids env) \<and> rc_down (net_client n i) \<noteq> [])"
| "enabled env (AWire i) n = (i \<in> set (ne_ids env) \<and> rc_rpc (net_client n i) \<noteq> [])"
| "enabled env AServe n = (net_running n \<and> ct_up (net_ctrl n) \<noteq> [])"
| "enabled env ATimer n = net_running n"
| "enabled env (ASignal k) n = net_running n"
| "enabled env AControllerPipe n = (ct_down (net_ctrl n) \<noteq> [])"
| "enabled env ARoute n = (ct_rpc (net_ctrl n) \<noteq> [])"
| "enabled env (AClientRpc i) n = (i \<in> set (ne_ids env) \<and> net_back n i \<noteq> [])"
| "enabled env APublish n = (ct_pub (net_ctrl n) \<noteq> [])"
| "enabled env (AClientSub i) n = (i \<in> set (ne_ids env) \<and> net_feed n i \<noteq> [])"
| "enabled env (ASub i topic) n = (i \<in> set (ne_ids env))"
| "enabled env (ASync i) n = (i \<in> set (ne_ids env) \<and> net_subs n i \<noteq> socket_topics (net_client n i))"

text \<open>
  A client has registered both its callbacks when the run starts, and the topics it has subscribed to by then are known to the publisher.
\<close>

definition client_start :: "string list \<Rightarrow> client_fn nrm_role_client" where
  "client_start topics = (nrm_role_client_new (Some ((zsock_new ZMQ_SUB)\<lparr>zs_rcvhwm := Some 0, zs_subscribe := ''null'' # topics\<rparr>)))
     \<lparr>rc_sub_cb := Some Client_sub_callback, rc_cmd_cb := Some Client_actuate_callback\<rparr>"

definition net_start :: "'u net_env \<Rightarrow> 'u nrm_server \<Rightarrow> 'u network" where
  "net_start env s = \<lparr>net_client = (\<lambda>i. client_start (ne_topics env i)), net_back = (\<lambda>_. []), net_feed = (\<lambda>_. []),
     net_subs = (\<lambda>i. socket_topics (client_start (ne_topics env i))), net_ctrl = \<lparr>ct_down = [], ct_up = [], ct_rpc = [], ct_pub = []\<rparr>, net_server = s, net_running = True,
     net_sent = (\<lambda>_. []), net_got = (\<lambda>_. []), net_inputs = [], net_pubd = [], net_fed = (\<lambda>_. [])\<rparr>"

inductive net_reach :: "'u net_env \<Rightarrow> 'u network \<Rightarrow> 'u network \<Rightarrow> bool" for env n0 where
  start: "net_reach env n0 n0"
| act: "net_reach env n0 n \<Longrightarrow> enabled env a n \<Longrightarrow> net_do env a n = Inr n' \<Longrightarrow> net_reach env n0 n'"

text \<open>The actions that move what is under way, without new requests and subscriptions, timer events or signals.\<close>

fun moves :: "net_action \<Rightarrow> bool" where
  "moves (ASend _ _) = False"
| "moves ATimer = False"
| "moves (ASignal _) = False"
| "moves (ASub _ _) = False"
| "moves _ = True"

definition net_move :: "'u net_env \<Rightarrow> 'u network \<Rightarrow> 'u network \<Rightarrow> bool" where
  "net_move env n n' \<longleftrightarrow> (\<exists>a. moves a \<and> enabled env a n \<and> net_do env a n = Inr n')"

definition net_done :: "'u net_env \<Rightarrow> 'u network \<Rightarrow> bool" where
  "net_done env n \<longleftrightarrow> (\<forall>a. moves a \<longrightarrow> \<not> enabled env a n)"


text \<open>The start of a client is what the library makes of it: the role is created, the listeners are started and the broker takes what they asked for.\<close>

lemma client_run_subs:
  "zloop_run (nrm_client_broker_pipe_handler pack) (map (\<lambda>t. (''SUB'', PStr t, PNull)) ts) (d\<lparr>rc_sub := Some s\<rparr>)
     = Inr (d\<lparr>rc_sub := Some (s\<lparr>zs_subscribe := zs_subscribe s @ ts\<rparr>)\<rparr>)"
proof (induction ts arbitrary: s)
  case (Cons t ts)
  have "nrm_client_broker_pipe_handler pack (''SUB'', PStr t, PNull) (d\<lparr>rc_sub := Some s\<rparr>)
      = Inr (0, d\<lparr>rc_sub := Some (s\<lparr>zs_subscribe := zs_subscribe s @ [t]\<rparr>)\<rparr>)"
    by (simp add: nrm_client_broker_pipe_handler_def nrm_ctrlmsg_recv_def ctrl_strings ctrlmsg_types str_of_ptr_def nrm_net_sub_set_topic_def)
  then show ?case using Cons [of "s\<lparr>zs_subscribe := zs_subscribe s @ [t]\<rparr>"] by simp
qed (cases s; simp)

lemma listen_fold:
  assumes "cl_role c = Some \<lparr>role_ops = Some nrm_role_client_ops, role_data = d\<rparr>" and "topics \<noteq> [] \<or> rc_sub_cb d = Some Client_sub_callback"
  shows "\<exists>c'. foldE (\<lambda>t c. bindE (nrm_client_start_event_listener c t) (\<lambda>(_, c). Inr c)) topics (Some c) = Inr (Some c')
     \<and> cl_role c' = Some \<lparr>role_ops = Some nrm_role_client_ops,
         role_data = d\<lparr>rc_down := rc_down d @ map (\<lambda>t. (''SUB'', PStr t, PNull)) topics, rc_sub_cb := Some Client_sub_callback\<rparr>\<rparr>"
  using assms
proof (induction topics arbitrary: c d)
  case Nil
  then show ?case by (cases d) simp
next
  case (Cons t ts)
  let ?d = "d\<lparr>rc_down := rc_down d @ [(''SUB'', PStr t, PNull)], rc_sub_cb := Some Client_sub_callback\<rparr>"
  let ?c = "c\<lparr>cl_role := Some \<lparr>role_ops = Some nrm_role_client_ops, role_data = ?d\<rparr>\<rparr>"
  have "nrm_client_start_event_listener (Some c) t = Inr (0, Some ?c)"
    using Cons.prems(1) by (simp add: nrm_client_start_event_listener_def nrm_role_register_sub_cb_def nrm_role_sub_def role_op_def nrm_role_client_ops_def
        nrm_role_client_register_sub_cb_def nrm_role_client_sub_def nrm_ctrlmsg_sub_def nrm_ctrlmsg_send_def ctrl_strings)
  then show ?case using Cons.IH [of ?c ?d] by simp
qed

lemma client_start_listens:
  assumes role: "nrm_role_client_create_fromparams True True be = Inr (Some r)" and up: "nrm_client_broker_fn be = Inr ([0, 0], Some (snd (nrm_net_sub_init True True)))"
    and c: "nrm_client_create True (Some r) True (Some uri) = (0, Some c)" and t: "topics \<noteq> []"
  shows "\<exists>c' d. foldE (\<lambda>t c. bindE (nrm_client_start_event_listener c t) (\<lambda>(_, c). Inr c)) topics (snd (nrm_client_start_actuate_listener (Some c))) = Inr (Some c')
     \<and> cl_role c' = Some \<lparr>role_ops = Some nrm_role_client_ops, role_data = d\<rparr> \<and> client_broker_run pack d = Inr (client_start topics)"
proof -
  let ?s = "(zsock_new ZMQ_SUB)\<lparr>zs_rcvhwm := Some 0, zs_subscribe := [''null'']\<rparr>"
  let ?d = "(nrm_role_client_new (Some ?s))\<lparr>rc_cmd_cb := Some Client_actuate_callback\<rparr>"
  have "r = \<lparr>role_ops = Some nrm_role_client_ops, role_data = nrm_role_client_new (Some ?s)\<rparr>"
    using role up by (simp add: nrm_role_client_create_fromparams_def nrm_net_sub_init_def)
  then have "snd (nrm_client_start_actuate_listener (Some c)) = Some (c\<lparr>cl_role := Some \<lparr>role_ops = Some nrm_role_client_ops, role_data = ?d\<rparr>\<rparr>)"
    using c by (auto simp: nrm_client_create_def nrm_client_start_actuate_listener_def nrm_role_register_cmd_cb_def role_op_def nrm_role_client_ops_def
        nrm_role_client_register_cmd_cb_def)
  moreover have "client_broker_run pack (?d\<lparr>rc_down := map (\<lambda>t. (''SUB'', PStr t, PNull)) topics, rc_sub_cb := Some Client_sub_callback\<rparr>) = Inr (client_start topics)"
    using client_run_subs [of pack topics ?s "?d\<lparr>rc_sub_cb := Some Client_sub_callback\<rparr>"]
    by (simp add: client_broker_run_def client_start_def nrm_role_client_new_def)
  ultimately show ?thesis
    using listen_fold [of "c\<lparr>cl_role := Some \<lparr>role_ops = Some nrm_role_client_ops, role_data = ?d\<rparr>\<rparr>" ?d topics] t
    by (auto simp: nrm_role_client_new_def)
qed


section \<open>What is under way\<close>

text \<open>
  The queues by the messages in them, instead of the control messages and frames, and whether a client has a subscription that
  the publisher does not know of.  A client's pipe holds messages and topics.
\<close>

record queues =
  q_down :: "string \<Rightarrow> (nrm_msg + string) list"
  q_wire :: "string \<Rightarrow> nrm_msg list"
  q_up :: "(nrm_msg \<times> string) list"
  q_out :: "server_out list"
  q_rpc :: "(nrm_msg \<times> string) list"
  q_back :: "string \<Rightarrow> nrm_msg list"
  q_reply :: "string \<Rightarrow> nrm_msg list"
  q_pub :: "(string \<times> nrm_msg) list"
  q_feed :: "string \<Rightarrow> (string \<times> nrm_msg) list"
  q_stale :: "string \<Rightarrow> bool"

definition ctrl_of_out :: "server_out \<Rightarrow> ctrlmsg" where
  "ctrl_of_out x = (case x of OSend m to \<Rightarrow> (''SEND'', PMsg m, ptr_of_uuid to) | server_out.OPub t m \<Rightarrow> (''PUB'', PStr t, PMsg m))"

definition ctrl_of_down :: "nrm_msg + string \<Rightarrow> ctrlmsg" where
  "ctrl_of_down x = (case x of Inl m \<Rightarrow> (''SEND'', PMsg m, PNull) | Inr t \<Rightarrow> (''SUB'', PStr t, PNull))"

definition sends_in :: "(nrm_msg + string) list \<Rightarrow> nrm_msg list" where
  "sends_in xs = concat (map (case_sum (\<lambda>m. [m]) (\<lambda>_. [])) xs)"

lemma sends_in_simps [simp]:
  "sends_in [] = []" "sends_in (Inl m # xs) = m # sends_in xs" "sends_in (Inr t # xs) = sends_in xs" "sends_in (xs @ ys) = sends_in xs @ sends_in ys"
  by (simp_all add: sends_in_def)

definition queued :: "'u net_env \<Rightarrow> 'u network \<Rightarrow> queues \<Rightarrow> bool" where
  "queued env n q \<longleftrightarrow>
     (\<forall>i. rc_down (net_client n i) = map ctrl_of_down (q_down q i)
        \<and> q_stale q i = (net_subs n i \<noteq> socket_topics (net_client n i))
        \<and> rc_rpc (net_client n i) = map (\<lambda>m. [[], ne_pack env m]) (q_wire q i)
        \<and> net_back n i = map (\<lambda>m. [[], ne_pack env m]) (q_back q i)
        \<and> rc_up (net_client n i) = map (\<lambda>m. (''RECV'', PMsg m, PNull)) (q_reply q i)
        \<and> net_feed n i = map (\<lambda>(t, m). [t, [], ne_pack env m]) (q_feed q i))
   \<and> ct_up (net_ctrl n) = map (\<lambda>(m, i). (''RECV'', PMsg m, PUuid i)) (q_up q)
   \<and> ct_down (net_ctrl n) = map ctrl_of_out (q_out q)
   \<and> ct_rpc (net_ctrl n) = map (\<lambda>(m, to). [to, [], ne_pack env m]) (q_rpc q)
   \<and> ct_pub (net_ctrl n) = map (\<lambda>(t, m). [t, [], ne_pack env m]) (q_pub q)"

definition contents :: "queues \<Rightarrow> bool" where
  "contents q \<longleftrightarrow> (\<forall>i. list_all benign (sends_in (q_down q i)) \<and> list_all benign (q_wire q i) \<and> list_all msg_consistent (q_back q i)
        \<and> list_all (\<lambda>(_, m). msg_consistent m) (q_feed q i))
   \<and> list_all (\<lambda>(m, _). benign m) (q_up q) \<and> list_all (\<lambda>(m, _). msg_consistent m) (q_rpc q) \<and> list_all (out_typed False) (q_out q)
   \<and> list_all (\<lambda>(_, m). msg_consistent m) (q_pub q)"

text \<open>What one client has to do with a queue.\<close>

definition own :: "string \<Rightarrow> (nrm_msg \<times> string) list \<Rightarrow> nrm_msg list" where
  "own i xs = map fst (filter (\<lambda>(_, j). j = i) xs)"

definition msgs_from :: "string \<Rightarrow> server_in list \<Rightarrow> nrm_msg list" where
  "msgs_from i is = concat (map (\<lambda>x. case x of IMsg (Some m) (Some j) \<Rightarrow> if j = i then [m] else [] | _ \<Rightarrow> []) is)"

definition sends_to :: "string \<Rightarrow> server_out list \<Rightarrow> nrm_msg list" where
  "sends_to i out = concat (map (\<lambda>x. case x of OSend m (Some j) \<Rightarrow> if j = i then [m] else [] | _ \<Rightarrow> []) out)"

definition opened :: "'u net_env \<Rightarrow> zmsg \<Rightarrow> nrm_msg" where
  "opened env zm = the (ne_unpack env (zm ! 2))"

definition calls_of :: "client_fn \<Rightarrow> (client_fn \<times> nrm_msg option) list \<Rightarrow> nrm_msg list" where
  "calls_of f cs = concat (map (\<lambda>(g, m). case m of Some m \<Rightarrow> if g = f then [m] else [] | None \<Rightarrow> []) cs)"

lemma calls_of_simps [simp]:
  "calls_of f [] = []" "calls_of f (cs @ cs') = calls_of f cs @ calls_of f cs'" "calls_of f [(g, Some m)] = (if g = f then [m] else [])"
  by (simp_all add: calls_of_def)

lemma own_simps [simp]:
  "own i [] = []" "own i ((m, j) # xs) = (if j = i then m # own i xs else own i xs)" "own i (xs @ ys) = own i xs @ own i ys"
  by (simp_all add: own_def)

lemma msgs_from_simps [simp]:
  "msgs_from i [] = []" "msgs_from i (is @ js) = msgs_from i is @ msgs_from i js"
  "msgs_from i [IMsg (Some m) (Some j)] = (if j = i then [m] else [])" "msgs_from i [ITimer] = []" "msgs_from i [ISignal k] = []"
  by (simp_all add: msgs_from_def)

lemma sends_to_simps [simp]:
  "sends_to i [] = []" "sends_to i (x @ y) = sends_to i x @ sends_to i y"
  "sends_to i (OSend m (Some j) # xs) = (if j = i then m # sends_to i xs else sends_to i xs)" "sends_to i (server_out.OPub t m # xs) = sends_to i xs"
  by (simp_all add: sends_to_def)

text \<open>
  What the protocol buffers have to do: a well-typed message comes out as a well-typed message of the same kind.
\<close>

definition wire_ok :: "'u net_env \<Rightarrow> bool" where
  "wire_ok env \<longleftrightarrow> (\<forall>m. msg_consistent m \<longrightarrow>
     (\<exists>m'. ne_unpack env (ne_pack env m) = Some m' \<and> msg_consistent m' \<and> msg_kind m' = msg_kind m))"

definition received :: "'u net_env \<Rightarrow> nrm_msg \<Rightarrow> nrm_msg" where
  "received env m = the (ne_unpack env (ne_pack env m))"

lemma opened_frames [simp]:
  "opened env [t, [], ne_pack env m] = received env m" "opened env \<circ> (\<lambda>(t, m). [t, [], ne_pack env m]) = received env \<circ> snd"
  by (auto simp: opened_def received_def)

lemma benign_consistent [simp]: "benign m \<Longrightarrow> msg_consistent m"
  by (simp add: benign_def)

lemma actuator_kind_ok: "snd (snd (msg_kind m)) \<noteq> -1 \<longleftrightarrow> (case msg_data m of
     DataAdd a \<Rightarrow> (case add_data a of AddActuator x \<Rightarrow> ma_type x \<in> {NRM_ACTUATOR_TYPE_DISCRETE, NRM_ACTUATOR_TYPE_CONTINUOUS} | _ \<Rightarrow> True)
   | _ \<Rightarrow> True)"
proof (cases "msg_data m")
  case (DataAdd a)
  then show ?thesis by (cases "add_data a") (simp_all add: msg_kind_def added_kind_def actuator_consts)
qed (simp_all add: msg_kind_def)

lemma benign_kind: "benign m \<longleftrightarrow> msg_consistent m \<and> msg_type m \<noteq> NRM_MSG_TYPE_REMOVE \<and> snd (snd (msg_kind m)) \<noteq> -1"
  unfolding benign_def actuator_kind_ok by (rule refl)

lemma wire:
  assumes "wire_ok env" "msg_consistent m"
  shows "ne_unpack env (ne_pack env m) = Some (received env m)" "msg_consistent (received env m)" "msg_kind (received env m) = msg_kind m"
    "msg_type (received env m) = msg_type m" "benign m \<Longrightarrow> benign (received env m)" "is_reply (received env m) = is_reply m"
proof -
  obtain m' where m': "ne_unpack env (ne_pack env m) = Some m'" "msg_consistent m'" "msg_kind m' = msg_kind m"
    using assms by (auto simp: wire_ok_def)
  then have r: "received env m = m'" and t: "msg_type m' = msg_type m" by (simp_all add: received_def msg_kind_def)
  show "ne_unpack env (ne_pack env m) = Some (received env m)" "msg_consistent (received env m)" "msg_kind (received env m) = msg_kind m"
    "msg_type (received env m) = msg_type m" "benign m \<Longrightarrow> benign (received env m)" "is_reply (received env m) = is_reply m"
    using m' t by (simp_all add: r benign_kind is_reply_def)
qed

text \<open>
  Every request is handled or on its way, in order, and so is every reply; \<open>s0\<close> is the server at the start and \<open>good\<close>
  its invariant.
\<close>

definition accounted :: "('u nrm_server \<Rightarrow> bool) \<Rightarrow> 'u net_env \<Rightarrow> 'u nrm_server \<Rightarrow> 'u network \<Rightarrow> queues \<Rightarrow> bool" where
  "accounted good env s0 n q \<longleftrightarrow>
     (\<forall>i \<in> set (ne_ids env).
        map (received env) (net_sent n i) = msgs_from i (net_inputs n) @ own i (q_up q) @ map (received env) (q_wire q i @ sends_in (q_down q i))
      \<and> filter is_reply (map (received env) (sends_to i (srv_out (net_server n))))
          = net_got n i @ q_reply q i @ filter is_reply (map (received env) (q_back q i @ own i (q_rpc q) @ sends_to i (q_out q))))
   \<and> list_all (\<lambda>(_, i). i \<in> set (ne_ids env)) (q_up q)
   \<and> list_all (\<lambda>x. case x of IMsg _ c \<Rightarrow> c \<in> Some ` set (ne_ids env) | _ \<Rightarrow> True) (net_inputs n)
   \<and> list_all (out_typed False) (srv_out (net_server n))
   \<and> good (net_server n) \<and> list_all admissible (net_inputs n) \<and> (net_running n \<longleftrightarrow> \<not> list_ex ends (net_inputs n))
   \<and> nrm_server_start (ne_cb env) (ne_raw env) (net_inputs n) s0 = Inr (net_server n)
   \<and> good s0 \<and> srv_out s0 = [] \<and> answers (srv_out (net_server n)) = concat (map asked (net_inputs n))"

text \<open>So is everything that was published or asked of a client; the callbacks stay.\<close>

definition delivered :: "'u net_env \<Rightarrow> 'u network \<Rightarrow> queues \<Rightarrow> bool" where
  "delivered env n q \<longleftrightarrow>
     (\<forall>i. rc_sub (net_client n i) \<noteq> None \<and> rc_sub_cb (net_client n i) = Some Client_sub_callback
        \<and> rc_cmd_cb (net_client n i) = Some Client_actuate_callback)
   \<and> map (\<lambda>(t, m). [t, [], ne_pack env m]) (pubs_of (srv_out (net_server n)))
       = net_pubd n @ ct_pub (net_ctrl n) @ map (\<lambda>(t, m). [t, [], ne_pack env m]) (pubs_of (q_out q))
   \<and> (\<forall>i \<in> set (ne_ids env).
        map (opened env) (net_fed n i) = calls_of Client_sub_callback (rc_calls (net_client n i)) @ map (opened env) (net_feed n i)
      \<and> filter (\<lambda>m. \<not> is_reply m) (map (received env) (sends_to i (srv_out (net_server n))))
          = calls_of Client_actuate_callback (rc_calls (net_client n i))
            @ filter (\<lambda>m. \<not> is_reply m) (map (received env) (q_back q i @ own i (q_rpc q) @ sends_to i (q_out q))))"

definition net_inv :: "('u nrm_server \<Rightarrow> bool) \<Rightarrow> 'u net_env \<Rightarrow> 'u nrm_server \<Rightarrow> 'u network \<Rightarrow> queues \<Rightarrow> bool" where
  "net_inv good env s0 n q \<longleftrightarrow> queued env n q \<and> contents q \<and> accounted good env s0 n q \<and> delivered env n q"

lemmas net_inv_defs = net_inv_def queued_def contents_def accounted_def delivered_def

lemma queues_of_inv:
  assumes "net_inv good env s0 n q"
  shows "rc_down (net_client n i) = map ctrl_of_down (q_down q i)"
    "rc_rpc (net_client n i) = map (\<lambda>m. [[], ne_pack env m]) (q_wire q i)"
    "net_back n i = map (\<lambda>m. [[], ne_pack env m]) (q_back q i)"
    "rc_up (net_client n i) = map (\<lambda>m. (''RECV'', PMsg m, PNull)) (q_reply q i)"
    "ct_up (net_ctrl n) = map (\<lambda>(m, i). (''RECV'', PMsg m, PUuid i)) (q_up q)"
    "ct_down (net_ctrl n) = map ctrl_of_out (q_out q)"
    "ct_rpc (net_ctrl n) = map (\<lambda>(m, to). [to, [], ne_pack env m]) (q_rpc q)"
    "ct_pub (net_ctrl n) = map (\<lambda>(t, m). [t, [], ne_pack env m]) (q_pub q)"
    "net_feed n i = map (\<lambda>(t, m). [t, [], ne_pack env m]) (q_feed q i)"
  using assms by (simp_all add: net_inv_def queued_def)

lemma contents_of_inv:
  assumes "net_inv good env s0 n q"
  shows "list_all benign (sends_in (q_down q i))" "list_all benign (q_wire q i)" "list_all msg_consistent (q_back q i)"
    "list_all (\<lambda>(m, _). benign m) (q_up q)" "list_all (\<lambda>(m, _). msg_consistent m) (q_rpc q)" "list_all (out_typed False) (q_out q)"
    "list_all (\<lambda>(_, i). i \<in> set (ne_ids env)) (q_up q)" "list_all (\<lambda>(_, m). msg_consistent m) (q_feed q i)"
  using assms by (auto simp: net_inv_def contents_def accounted_def)

lemma callbacks_of_inv:
  assumes "net_inv good env s0 n q"
  shows "\<exists>s. rc_sub (net_client n i) = Some s" "rc_sub_cb (net_client n i) = Some Client_sub_callback"
    "rc_cmd_cb (net_client n i) = Some Client_actuate_callback"
  using assms by (auto simp: net_inv_def delivered_def)


section \<open>The threads keep the account\<close>

lemma send_step:
  assumes "net_inv good env s0 n q" "enabled env (ASend i m) n"
  shows "\<exists>n'. net_do env (ASend i m) n = Inr n' \<and> net_inv good env s0 n' (q\<lparr>q_down := (q_down q)(i := q_down q i @ [Inl m])\<rparr>)"
  using assms by (auto simp: client_send_eq ptr_of_uuid_def ctrl_of_down_def net_inv_defs)

lemma subscribe_step:
  assumes inv: "net_inv good env s0 n q" and en: "enabled env (ASub i t) n"
  shows "\<exists>n'. net_do env (ASub i t) n = Inr n' \<and> net_inv good env s0 n' (q\<lparr>q_down := (q_down q)(i := q_down q i @ [Inr t])\<rparr>)"
  using assms by (auto simp: ctrl_of_down_def net_inv_defs)

lemma sync_step:
  assumes "net_inv good env s0 n q" "enabled env (ASync i) n"
  shows "\<exists>n'. net_do env (ASync i) n = Inr n' \<and> net_inv good env s0 n' (q\<lparr>q_stale := (q_stale q)(i := False)\<rparr>)"
  using assms by (auto simp: net_inv_defs)

lemma recv_step:
  assumes inv: "net_inv good env s0 n q" and en: "enabled env (ARecv i) n"
  shows "\<exists>n'. net_do env (ARecv i) n = Inr n' \<and> net_inv good env s0 n' (q\<lparr>q_reply := (q_reply q)(i := tl (q_reply q i))\<rparr>)"
proof -
  obtain m ms where m: "q_reply q i = m # ms" using en queues_of_inv(4) [OF inv, of i] by (cases "q_reply q i") auto
  then show ?thesis using inv queues_of_inv(4) [OF inv, of i] by (auto simp: client_recv_eq net_inv_defs)
qed

lemma client_pipe_step:
  assumes inv: "net_inv good env s0 n q" and m: "q_down q i = Inl m # ms"
  shows "\<exists>n'. net_do env (AClientPipe i) n = Inr n'
     \<and> net_inv good env s0 n' (q\<lparr>q_down := (q_down q)(i := ms), q_wire := (q_wire q)(i := q_wire q i @ [m])\<rparr>)"
proof -
  have "benign m" "list_all benign (sends_in ms)" using contents_of_inv(1) [OF inv, of i] m by simp_all
  then show ?thesis using inv m queues_of_inv(1) [OF inv, of i] by (auto simp: client_pipe_send_eq ctrl_of_down_def net_inv_defs)
qed

lemma client_pipe_sub_eq:
  assumes "rc_sub d = Some s"
  shows "nrm_client_broker_pipe_handler pack (''SUB'', PStr t, PNull) d = Inr (0, d\<lparr>rc_sub := Some (s\<lparr>zs_subscribe := zs_subscribe s @ [t]\<rparr>)\<rparr>)"
  using assms by (simp add: nrm_client_broker_pipe_handler_def nrm_ctrlmsg_recv_def ctrl_strings ctrlmsg_types str_of_ptr_def nrm_net_sub_set_topic_def)

lemma client_pipe_sub_step:
  assumes inv: "net_inv good env s0 n q" and m: "q_down q i = Inr t # ms"
  shows "\<exists>n' b. net_do env (AClientPipe i) n = Inr n' \<and> net_inv good env s0 n' (q\<lparr>q_down := (q_down q)(i := ms), q_stale := (q_stale q)(i := b)\<rparr>)"
proof -
  obtain s where s: "rc_sub (net_client n i) = Some s" using callbacks_of_inv(1) [OF inv, of i] by blast
  have e: "nrm_client_broker_pipe_handler (ne_pack env) (''SUB'', PStr t, PNull) ((net_client n i)\<lparr>rc_down := map ctrl_of_down ms\<rparr>)
      = Inr (0, (net_client n i)\<lparr>rc_down := map ctrl_of_down ms, rc_sub := Some (s\<lparr>zs_subscribe := zs_subscribe s @ [t]\<rparr>)\<rparr>)"
    using client_pipe_sub_eq [of "(net_client n i)\<lparr>rc_down := map ctrl_of_down ms\<rparr>" s "ne_pack env" t] s by simp
  have "list_all benign (sends_in ms)" using contents_of_inv(1) [OF inv, of i] m by simp
  then show ?thesis using inv m e queues_of_inv(1) [OF inv, of i]
    by (intro exI [of _ "n\<lparr>net_client := (net_client n)(i := (net_client n i)\<lparr>rc_down := map ctrl_of_down ms, rc_sub := Some (s\<lparr>zs_subscribe := zs_subscribe s @ [t]\<rparr>)\<rparr>)\<rparr>"]
        exI [of _ "net_subs n i \<noteq> zs_subscribe s @ [t]"]) (auto simp: ctrl_of_down_def net_inv_defs)
qed

lemma wire_step:
  assumes inv: "net_inv good env s0 n q" and en: "enabled env (AWire i) n" and w: "wire_ok env"
  shows "\<exists>n'. net_do env (AWire i) n = Inr n'
     \<and> net_inv good env s0 n' (q\<lparr>q_wire := (q_wire q)(i := tl (q_wire q i)), q_up := q_up q @ [(received env (hd (q_wire q i)), i)]\<rparr>)"
proof -
  obtain m ms where m: "q_wire q i = m # ms" using en queues_of_inv(2) [OF inv, of i] by (cases "q_wire q i") auto
  then have b: "benign m" "list_all benign ms" using contents_of_inv(2) [OF inv, of i] by simp_all
  note u = wire(1) [OF w benign_consistent [OF b(1)]] wire(5) [OF w benign_consistent [OF b(1)] b(1)]
  show ?thesis
    using inv en m b(2) u queues_of_inv(2) [OF inv, of i] controller_rpc_eq [of "ne_unpack env" "ne_pack env" m "received env m" i "net_ctrl n"]
    by (auto simp: net_inv_defs)
qed

lemma controller_pipe_pub_eq:
  assumes "msg_consistent m"
  shows "nrm_controller_broker_pipe_handler pack (''PUB'', PStr t, PMsg m) d = Inr (0, d\<lparr>ct_pub := ct_pub d @ [[t, [], pack m]]\<rparr>)"
  using destroy_created_ok [OF assms]
  by (simp add: nrm_controller_broker_pipe_handler_def nrm_ctrlmsg_recv_def ctrl_strings msg_of_ptr_def str_of_ptr_def
      nrm_msg_pub_def nrm_msg_push_topic_def nrm_msg_push_packed_frames_def ctrlmsg_types)

lemma controller_pipe_step:
  assumes inv: "net_inv good env s0 n q" and en: "enabled env AControllerPipe n"
  shows "\<exists>n'. net_do env AControllerPipe n = Inr n'
     \<and> net_inv good env s0 n' (q\<lparr>q_out := tl (q_out q), q_rpc := q_rpc q @ (case hd (q_out q) of OSend m (Some to) \<Rightarrow> [(m, to)] | _ \<Rightarrow> []),
         q_pub := q_pub q @ pubs_of [hd (q_out q)]\<rparr>)"
proof -
  obtain x xs where x: "q_out q = x # xs" using en queues_of_inv(6) [OF inv] by (cases "q_out q") auto
  then have t: "out_typed False x" "list_all (out_typed False) xs" using contents_of_inv(6) [OF inv] by simp_all
  show ?thesis
  proof (cases x)
    case (OSend m to)
    with t(1) obtain j where j: "to = Some j" "msg_consistent m" by (auto simp: out_typed_def)
    then show ?thesis using inv x t OSend queues_of_inv(6) [OF inv]
      by (auto simp: controller_pipe_send_eq ctrl_of_out_def ptr_of_uuid_def net_inv_defs)
  next
    case (OPub topic m)
    then have "msg_consistent m" using t(1) by (simp add: out_typed_def)
    then show ?thesis using inv x t OPub queues_of_inv(6) [OF inv] by (auto simp: controller_pipe_pub_eq ctrl_of_out_def net_inv_defs)
  qed
qed

lemma route_step:
  assumes inv: "net_inv good env s0 n q" and en: "enabled env ARoute n"
  shows "\<exists>n'. net_do env ARoute n = Inr n' \<and> net_inv good env s0 n' (q\<lparr>q_rpc := tl (q_rpc q),
     q_back := (case hd (q_rpc q) of (m, to) \<Rightarrow> if to \<in> set (ne_ids env) then (q_back q)(to := q_back q to @ [m]) else q_back q)\<rparr>)"
proof -
  obtain m to ms where m: "q_rpc q = (m, to) # ms" using en queues_of_inv(7) [OF inv] by (cases "q_rpc q") auto
  then show ?thesis using inv queues_of_inv(7) [OF inv] by (auto simp: net_inv_defs)
qed

lemma client_rpc_step:
  assumes inv: "net_inv good env s0 n q" and en: "enabled env (AClientRpc i) n" and w: "wire_ok env"
  shows "\<exists>n'. net_do env (AClientRpc i) n = Inr n' \<and> net_inv good env s0 n' (q\<lparr>q_back := (q_back q)(i := tl (q_back q i)),
     q_reply := (q_reply q)(i := q_reply q i @ (if is_reply (hd (q_back q i)) then [received env (hd (q_back q i))] else []))\<rparr>)"
proof -
  obtain m ms where m: "q_back q i = m # ms" using en queues_of_inv(3) [OF inv, of i] by (cases "q_back q i") auto
  then have c: "msg_consistent m" "list_all msg_consistent ms" using contents_of_inv(3) [OF inv, of i] by simp_all
  note u = wire(1,6) [OF w c(1)]
  show ?thesis
    using inv m c(2) u queues_of_inv(3) [OF inv, of i] client_rpc_eq [of "ne_unpack env" "ne_pack env" m "received env m" "net_client n i"]
    by (auto simp: net_inv_defs)
qed

lemma publish_step:
  assumes inv: "net_inv good env s0 n q" and en: "enabled env APublish n"
  shows "\<exists>n'. net_do env APublish n = Inr n' \<and> net_inv good env s0 n' (q\<lparr>q_pub := tl (q_pub q),
     q_feed := (\<lambda>i. q_feed q i @ (if i \<in> set (ne_ids env) \<and> subscribed (net_subs n i) (fst (hd (q_pub q)))
                                then [hd (q_pub q)] else []))\<rparr>)"
proof -
  obtain t m ms where m: "q_pub q = (t, m) # ms" using en queues_of_inv(8) [OF inv] by (cases "q_pub q") auto
  then show ?thesis using inv queues_of_inv(8) [OF inv] by (auto simp: net_inv_defs)
qed

lemma client_sub_eq:
  assumes "unpack (pack m) = Some m'" "rc_sub_cb d = Some f"
  shows "nrm_client_broker_sub_handler unpack behind [t, [], pack m] d = Inr (0, d\<lparr>rc_calls := rc_calls d @ [(f, Some m')]\<rparr>)"
  using assms by (simp add: nrm_client_broker_sub_handler_def nrm_msg_sub_def nrm_msg_pop_topic_def nrm_msg_pop_packed_frames_def zmsg_pop_def)

lemma sub_step:
  assumes inv: "net_inv good env s0 n q" and en: "enabled env (AClientSub i) n" and w: "wire_ok env"
  shows "\<exists>n'. net_do env (AClientSub i) n = Inr n' \<and> net_inv good env s0 n' (q\<lparr>q_feed := (q_feed q)(i := tl (q_feed q i))\<rparr>)"
proof -
  obtain t m ms where m: "q_feed q i = (t, m) # ms" using en queues_of_inv(9) [OF inv, of i] by (cases "q_feed q i") auto
  then have c: "msg_consistent m" "list_all (\<lambda>(_, m). msg_consistent m) ms" using contents_of_inv(8) [OF inv, of i] by simp_all
  note e = client_sub_eq [of "ne_unpack env" "ne_pack env", OF wire(1) [OF w c(1)] callbacks_of_inv(2) [OF inv, of i]]
  show ?thesis using inv m c(2) e queues_of_inv(9) [OF inv, of i] by (auto simp: net_inv_defs)
qed

lemma controller_out_any:
  "list_all (out_typed False) xs \<Longrightarrow> controller_out xs d = Inr (d\<lparr>ct_down := ct_down d @ map ctrl_of_out xs\<rparr>)"
proof (induction xs arbitrary: d)
  case (Cons x xs)
  show ?case
  proof (cases x)
    case (OSend m to)
    then obtain j where "to = Some j" using Cons.prems by (auto simp: out_typed_def)
    then show ?thesis using Cons OSend by (simp add: controller_out_def controller_send_eq ctrl_of_out_def ptr_of_uuid_def)
  next
    case (OPub t m)
    then show ?thesis using Cons
      by (simp add: controller_out_def nrm_role_controller_pub_def nrm_ctrlmsg_pub_def nrm_ctrlmsg_send_def ctrl_strings ptr_of_msg_def
          ctrl_of_out_def)
  qed
qed (simp add: controller_out_def)


section \<open>Servers that answer\<close>

text \<open>
  The interface of the server to the network: on any input that keeps to the protocol it returns, sends well-typed messages to
  somebody, and answers what was asked.  A user of the server whose callbacks return and send well-typed messages gives one.
\<close>

locale answering_server =
  fixes cb :: "'u nrm_server_user_callbacks" and raw :: string and good :: "'u nrm_server \<Rightarrow> bool"
  assumes handled: "good s \<Longrightarrow> admissible i \<Longrightarrow>
    \<exists>ret s' out. server_handle cb raw i s = Inr (ret, s') \<and> good s' \<and> (ret = -1 \<longleftrightarrow> ends i)
      \<and> srv_out s' = srv_out s @ out \<and> list_all (out_typed False) out \<and> answers out = asked i"
begin

lemma start_snoc:
  assumes "nrm_server_start cb raw is s0 = Inr s" "good s0" "list_all admissible is" "\<not> list_ex ends is"
    "server_handle cb raw i s = Inr (ret, s')"
  shows "nrm_server_start cb raw (is @ [i]) s0 = Inr s'"
  using assms
proof (induction "is" arbitrary: s0)
  case (Cons j js)
  obtain ret s1 where "server_handle cb raw j s0 = Inr (ret, s1)" "good s1" "ret \<noteq> -1" using handled [of s0 j] Cons.prems by auto
  then show ?case using Cons by auto
qed simp

lemma serve_step:
  assumes inv: "net_inv good env s0 n q" and env: "ne_cb env = cb" "ne_raw env = raw" and run: "net_running n" and i: "admissible i"
    and ct: "ct_down ct = ct_down (net_ctrl n)" "ct_rpc ct = ct_rpc (net_ctrl n)" "ct_pub ct = ct_pub (net_ctrl n)"
      "ct_up ct = map (\<lambda>(m, i). (''RECV'', PMsg m, PUuid i)) us"
    and us: "list_all (\<lambda>(m, _). benign m) us" "\<And>j. own j (q_up q) = msgs_from j [i] @ own j us"
      "list_all (\<lambda>(_, i). i \<in> set (ne_ids env)) us" and ids: "case i of IMsg _ c \<Rightarrow> c \<in> Some ` set (ne_ids env) | _ \<Rightarrow> True"
  shows "\<exists>n' out. net_serve env i ct n = Inr n' \<and> net_inv good env s0 n' (q\<lparr>q_up := us, q_out := q_out q @ out\<rparr>)"
proof -
  have g: "good (net_server n)" using inv by (simp add: net_inv_defs)
  obtain ret srv out where h: "server_handle cb raw i (net_server n) = Inr (ret, srv)" "good srv" "ret = -1 \<longleftrightarrow> ends i"
    "srv_out srv = srv_out (net_server n) @ out" "list_all (out_typed False) out" "answers out = asked i"
    using handled [OF g i] by blast
  have "nrm_server_start cb raw (net_inputs n @ [i]) s0 = Inr srv"
    by (rule start_snoc [OF _ _ _ _ h(1)]) (use inv env run in \<open>auto simp: net_inv_defs\<close>)
  moreover have "net_serve env i ct n = Inr (n\<lparr>net_ctrl := ct\<lparr>ct_down := ct_down ct @ map ctrl_of_out out\<rparr>, net_server := srv,
      net_running := (ret \<noteq> -1), net_inputs := net_inputs n @ [i]\<rparr>)" (is "_ = Inr ?n")
    using h env controller_out_any [OF h(5)] by (simp add: net_serve_def)
  ultimately have "net_inv good env s0 ?n (q\<lparr>q_up := us, q_out := q_out q @ out\<rparr>)"
    using inv env run i ct us ids h by (auto simp: net_inv_defs)
  with \<open>net_serve env i ct n = Inr ?n\<close> show ?thesis by blast
qed

end


section \<open>What is left to do\<close>

text \<open>
  The requests weigh by how far they are from the server, the replies by how far they are from the API; the server turns a
  request into any number of replies, so the two are compared lexicographically.
\<close>

definition load_in :: "'u net_env \<Rightarrow> queues \<Rightarrow> nat" where
  "load_in env q = 3 * (\<Sum>i \<in> set (ne_ids env). length (q_down q i)) + 2 * (\<Sum>i \<in> set (ne_ids env). length (q_wire q i)) + length (q_up q)"

definition load_out :: "'u net_env \<Rightarrow> queues \<Rightarrow> nat" where
  "load_out env q = (4 + card (set (ne_ids env))) * length (q_out q) + (1 + card (set (ne_ids env))) * length (q_pub q)
     + (\<Sum>i \<in> set (ne_ids env). length (q_feed q i)) + 3 * length (q_rpc q) + 2 * (\<Sum>i \<in> set (ne_ids env). length (q_back q i))
     + (\<Sum>i \<in> set (ne_ids env). length (q_reply q i)) + card {i \<in> set (ne_ids env). q_stale q i}"

definition lighter :: "'u net_env \<Rightarrow> (queues \<times> queues) set" where
  "lighter env = measures [load_in env, load_out env]"

lemma sum_at:
  assumes "i \<in> S" "finite S"
  shows "(\<Sum>j \<in> S. length (f j)) = length (f i) + (\<Sum>j \<in> S - {i}. length (f j))"
  using assms by (simp add: sum.remove)

lemma sum_elsewhere: "(\<Sum>j \<in> S - {i}. length ((f(i := xs)) j)) = (\<Sum>j \<in> S - {i}. length (f j))"
  by (rule sum.cong) auto

lemma sum_spread: "(\<Sum>j \<in> S. length (f j @ (if P j then [x] else []))) \<le> (\<Sum>j \<in> S. length (f j)) + card S"
proof -
  have "(\<Sum>j \<in> S. length (f j @ (if P j then [x] else []))) \<le> (\<Sum>j \<in> S. length (f j) + 1)" by (rule sum_mono) simp
  then show ?thesis by (simp add: sum_Suc)
qed

lemma publish_lighter:
  assumes "q_pub q = x # ms"
  shows "(q\<lparr>q_pub := ms, q_feed := (\<lambda>i. q_feed q i @ (if P i then [x] else []))\<rparr>, q) \<in> lighter env"
  using sum_spread [of "q_feed q" P x "set (ne_ids env)"] assms
  by (simp add: lighter_def load_in_def load_out_def del: length_append)

lemma sync_lighter:
  assumes "q_stale q i" "i \<in> set (ne_ids env)"
  shows "(q\<lparr>q_stale := (q_stale q)(i := False)\<rparr>, q) \<in> lighter env"
proof -
  have "{j \<in> set (ne_ids env). ((q_stale q)(i := False)) j} = {j \<in> set (ne_ids env). q_stale q j} - {i}" by auto
  moreover have "card ({j \<in> set (ne_ids env). q_stale q j} - {i}) < card {j \<in> set (ne_ids env). q_stale q j}"
    using assms by (intro card_Diff1_less) simp_all
  ultimately have "card {j \<in> set (ne_ids env). ((q_stale q)(i := False)) j} < card {j \<in> set (ne_ids env). q_stale q j}" by (simp only:)
  then show ?thesis by (simp add: lighter_def load_in_def load_out_def)
qed

lemmas loads = lighter_def load_in_def load_out_def sum_elsewhere

lemma publish_moves:
  assumes inv: "net_inv good env s0 n q" and en: "enabled env APublish n"
  shows "\<exists>n' q'. net_do env APublish n = Inr n' \<and> net_inv good env s0 n' q' \<and> (q', q) \<in> lighter env"
proof -
  obtain x ms where x: "q_pub q = x # ms" using en queues_of_inv(8) [OF inv] by (cases "q_pub q") auto
  note l = publish_lighter [OF x, of "\<lambda>i. i \<in> set (ne_ids env) \<and> subscribed (net_subs n i) (fst x)" env]
  obtain n' where "net_do env APublish n = Inr n'" "net_inv good env s0 n' (q\<lparr>q_pub := ms, q_feed := (\<lambda>i. q_feed q i @
      (if i \<in> set (ne_ids env) \<and> subscribed (net_subs n i) (fst x) then [x] else []))\<rparr>)"
    using publish_step [OF inv, unfolded x list.sel] en by blast
  with l show ?thesis by blast
qed

text \<open>Every action but those of the server: the client's API, the brokers and the sockets.\<close>

lemma broker_step:
  assumes inv: "net_inv good env s0 n q" and w: "wire_ok env" and en: "enabled env a n" and a: "a \<noteq> AServe" "a \<noteq> ATimer" "\<forall>k. a \<noteq> ASignal k"
  shows "\<exists>n' q'. net_do env a n = Inr n' \<and> net_inv good env s0 n' q' \<and> (moves a \<longrightarrow> (q', q) \<in> lighter env)"
proof (cases a)
  case (ASend i m)
  then show ?thesis using send_step [OF inv] en by fastforce
next
  case (ARecv i)
  have "q_reply q i \<noteq> []" "i \<in> set (ne_ids env)" using en ARecv queues_of_inv(4) [OF inv, of i] by auto
  then show ?thesis using recv_step [OF inv, of i] en ARecv by (fastforce simp: loads sum_at [of i] neq_Nil_conv)
next
  case (AClientPipe i)
  then have i: "i \<in> set (ne_ids env)" "q_down q i \<noteq> []" using en queues_of_inv(1) [OF inv, of i] by auto
  then obtain x xs where x: "q_down q i = x # xs" by (auto simp: neq_Nil_conv)
  then show ?thesis using client_pipe_step [OF inv, of i] client_pipe_sub_step [OF inv, of i] i(1) AClientPipe
    by (cases x) (fastforce simp: loads sum_at [of i])+
next
  case (AWire i)
  have "q_wire q i \<noteq> []" "i \<in> set (ne_ids env)" using en AWire queues_of_inv(2) [OF inv, of i] by auto
  then show ?thesis using wire_step [OF inv _ w, of i] en AWire by (fastforce simp: loads sum_at [of i] neq_Nil_conv)
next
  case AControllerPipe
  have "q_out q \<noteq> []" using en AControllerPipe queues_of_inv(6) [OF inv] by auto
  then show ?thesis using controller_pipe_step [OF inv] en AControllerPipe
    by (fastforce simp: loads neq_Nil_conv split: server_out.split option.split)
next
  case ARoute
  obtain m i ms where "q_rpc q = (m, i) # ms" using en ARoute queues_of_inv(7) [OF inv] by (cases "q_rpc q") auto
  then show ?thesis using route_step [OF inv] en ARoute
    by (cases "i \<in> set (ne_ids env)") (fastforce simp: loads sum_at [of i])+
next
  case (AClientRpc i)
  have "q_back q i \<noteq> []" "i \<in> set (ne_ids env)" using en AClientRpc queues_of_inv(3) [OF inv, of i] by auto
  then show ?thesis using client_rpc_step [OF inv _ w, of i] en AClientRpc by (fastforce simp: loads sum_at [of i] neq_Nil_conv)
next
  case APublish
  then show ?thesis using publish_moves [OF inv] en by blast
next
  case (AClientSub i)
  have "q_feed q i \<noteq> []" "i \<in> set (ne_ids env)" using en AClientSub queues_of_inv(9) [OF inv, of i] by auto
  then show ?thesis using sub_step [OF inv _ w, of i] en AClientSub by (fastforce simp: loads sum_at [of i] neq_Nil_conv)
next
  case (ASub i t)
  then show ?thesis using subscribe_step [OF inv] en by fastforce
next
  case (ASync i)
  then have "q_stale q i" "i \<in> set (ne_ids env)" using en inv by (simp_all add: net_inv_def queued_def)
  then show ?thesis using sync_step [OF inv] sync_lighter en ASync by blast
qed (use a in simp_all)

context answering_server
begin

lemma step:
  assumes inv: "net_inv good env s0 n q" and env: "ne_cb env = cb" "ne_raw env = raw" and w: "wire_ok env" and en: "enabled env a n"
  shows "\<exists>n' q'. net_do env a n = Inr n' \<and> net_inv good env s0 n' q' \<and> (moves a \<longrightarrow> (q', q) \<in> lighter env)"
proof (cases "a \<noteq> AServe \<and> a \<noteq> ATimer \<and> (\<forall>k. a \<noteq> ASignal k)")
  case False
  then consider "a = AServe" | "a = ATimer" | k where "a = ASignal k" by blast
  then show ?thesis
  proof cases
    case 1
    obtain m i us where u: "q_up q = (m, i) # us" using en 1 queues_of_inv(5) [OF inv] by (cases "q_up q") auto
    then have "benign m" "list_all (\<lambda>(m, _). benign m) us" "i \<in> set (ne_ids env)" "list_all (\<lambda>(_, i). i \<in> set (ne_ids env)) us"
      using contents_of_inv(4,7) [OF inv] by simp_all
    then show ?thesis
      using serve_step [OF inv env, of "IMsg (Some m) (Some i)" "(net_ctrl n)\<lparr>ct_up := map (\<lambda>(m, i). (''RECV'', PMsg m, PUuid i)) us\<rparr>" us]
        en 1 u queues_of_inv(5) [OF inv] by (fastforce simp: controller_recv_eq loads)
  next
    case 2
    then show ?thesis using serve_step [OF inv env, of ITimer "net_ctrl n" "q_up q"] en queues_of_inv(5) [OF inv] contents_of_inv(4,7) [OF inv] by auto
  next
    case 3
    then show ?thesis using serve_step [OF inv env, of "ISignal k" "net_ctrl n" "q_up q"] en queues_of_inv(5) [OF inv] contents_of_inv(4,7) [OF inv] by auto
  qed
qed (use broker_step [OF inv w en] in blast)

lemma reach_inv:
  assumes "net_reach env (net_start env s0) n" and "ne_cb env = cb" "ne_raw env = raw" "wire_ok env" and "good s0" "srv_out s0 = []"
  shows "\<exists>q. net_inv good env s0 n q"
  using assms
proof (induction rule: net_reach.induct)
  case start
  then have "net_inv good env s0 (net_start env s0)
      \<lparr>q_down = \<lambda>_. [], q_wire = \<lambda>_. [], q_up = [], q_out = [], q_rpc = [], q_back = \<lambda>_. [], q_reply = \<lambda>_. [],
       q_pub = [], q_feed = \<lambda>_. [], q_stale = \<lambda>_. False\<rparr>"
    by (simp add: net_inv_defs net_start_def client_start_def nrm_role_client_new_def)
  then show ?case by blast
next
  case (act n a n')
  then show ?case using step by fastforce
qed

lemma moves_end:
  assumes "net_inv good env s0 n q" and "ne_cb env = cb" "ne_raw env = raw" "wire_ok env"
  shows "\<not> (\<exists>f. f 0 = n \<and> (\<forall>k. net_move env (f k) (f (Suc k))))" and "\<exists>n'. (net_move env)\<^sup>*\<^sup>* n n' \<and> net_done env n'"
proof -
  have wf: "wf (lighter env)" by (simp add: lighter_def)
  show "\<not> (\<exists>f. f 0 = n \<and> (\<forall>k. net_move env (f k) (f (Suc k))))"
    using assms
  proof (induction q arbitrary: n rule: wf_induct_rule [OF wf])
    case (1 q)
    show ?case
    proof
      assume "\<exists>f. f 0 = n \<and> (\<forall>k. net_move env (f k) (f (Suc k)))"
      then obtain f where f: "f 0 = n" "\<And>k. net_move env (f k) (f (Suc k))" by blast
      from f(1) f(2) [of 0] obtain a where a: "moves a" "enabled env a n" "net_do env a n = Inr (f 1)" by (auto simp: net_move_def)
      from step [OF 1(2-5) a(2)] a obtain q' where q': "net_inv good env s0 (f 1) q'" "(q', q) \<in> lighter env" by auto
      have "\<exists>g. g 0 = f 1 \<and> (\<forall>k. net_move env (g k) (g (Suc k)))" by (intro exI [of _ "\<lambda>k. f (Suc k)"]) (use f in simp)
      then show False using 1(1) [OF q'(2,1) 1(3-5)] by blast
    qed
  qed
  show "\<exists>n'. (net_move env)\<^sup>*\<^sup>* n n' \<and> net_done env n'"
    using assms
  proof (induction q arbitrary: n rule: wf_induct_rule [OF wf])
    case (1 q)
    show ?case
    proof (cases "net_done env n")
      case False
      then obtain a where a: "moves a" "enabled env a n" by (auto simp: net_done_def)
      from step [OF 1(2-5) a(2)] a obtain n1 q1 where n1: "net_do env a n = Inr n1" "net_inv good env s0 n1 q1" "(q1, q) \<in> lighter env" by auto
      from 1(1) [OF n1(3,2) 1(3-5)] a n1(1) show ?thesis by (metis converse_rtranclp_into_rtranclp net_move_def)
    qed blast
  qed
qed

end

lemma move_keeps:
  assumes "net_move env n n'"
  shows "net_sent n' = net_sent n" "ISignal k \<in> set (net_inputs n') \<longleftrightarrow> ISignal k \<in> set (net_inputs n)"
proof -
  obtain a where a: "moves a" "net_do env a n = Inr n'" using assms by (auto simp: net_move_def)
  show "net_sent n' = net_sent n"
    using a by (cases a) (auto simp: bindE_eq_Inr net_serve_def split: list.splits)
  show "ISignal k \<in> set (net_inputs n') \<longleftrightarrow> ISignal k \<in> set (net_inputs n)"
    using a by (cases a) (auto simp: bindE_eq_Inr net_serve_def split: list.splits)
qed

lemma moves_keep:
  assumes "(net_move env)\<^sup>*\<^sup>* n n'"
  shows "net_sent n' = net_sent n" "ISignal k \<in> set (net_inputs n') \<longleftrightarrow> ISignal k \<in> set (net_inputs n)"
  using assms by (induction rule: rtranclp_induct) (simp_all add: move_keeps)

lemma net_do_extends:
  assumes "net_do env a n = Inr n'"
  shows "prefix (net_inputs n) (net_inputs n')" "prefix (net_sent n i) (net_sent n' i)" "prefix (net_got n i) (net_got n' i)"
  using assms by (cases a; auto simp: bindE_eq_Inr net_serve_def split: list.splits)+

lemma reach_extends:
  assumes "net_reach env n n'"
  shows "prefix (net_inputs n) (net_inputs n')" "prefix (net_sent n i) (net_sent n' i)" "prefix (net_got n i) (net_got n' i)"
  using assms by (induction rule: net_reach.induct) (auto intro: prefix_order.trans net_do_extends)

lemma reach_trans:
  assumes "net_reach env n1 n2" "net_reach env n0 n1"
  shows "net_reach env n0 n2"
  using assms by (induction rule: net_reach.induct) (auto intro: net_reach.act)

lemma reach_moves: "(net_move env)\<^sup>*\<^sup>* n n' \<Longrightarrow> net_reach env n0 n \<Longrightarrow> net_reach env n0 n'"
  by (induction rule: rtranclp_induct) (auto simp: net_move_def intro: net_reach.act)


section \<open>What the clients see\<close>

text \<open>The answers and the questions of one client among those of all.\<close>

lemma own_answers:
  "map snd (filter (\<lambda>(c, _). c = Some i) (answers out)) = map msg_kind (filter answering (sends_to i out))"
proof (induction out)
  case (Cons x out)
  show ?case
  proof (cases x)
    case (OSend m to)
    then show ?thesis using Cons by (cases to) (auto simp: sends_to_def)
  qed (use Cons in simp)
qed simp

lemma own_questions:
  "map snd (filter (\<lambda>(c, _). c = Some i) (concat (map asked is))) = map due (filter asks (msgs_from i is))"
proof (induction "is")
  case (Cons x "is")
  show ?case
  proof (cases x)
    case (IMsg m c)
    then show ?thesis using Cons by (cases m; cases c) (auto simp: msgs_from_def)
  qed (use Cons in \<open>simp_all add: msgs_from_def\<close>)
qed simp

lemma sent_replies:
  "list_all (out_typed False) out \<Longrightarrow> filter is_reply (sends_to i out) = filter answering (sends_to i out)"
proof (induction out)
  case (Cons x out)
  show ?case
  proof (cases x)
    case (OSend m to)
    then show ?thesis using Cons by (cases to) (auto simp: out_typed_def sent_types_def is_reply_def answering_def msg_types)
  qed (use Cons in simp)
qed simp

lemma sent_consistent: "list_all (out_typed False) out \<Longrightarrow> list_all msg_consistent (sends_to i out)"
proof (induction out)
  case (Cons x out)
  then show ?case by (cases x) (auto simp: out_typed_def)
qed simp

lemma received_filter:
  assumes "wire_ok env" "list_all msg_consistent ms"
  shows "filter is_reply (map (received env) ms) = map (received env) (filter is_reply ms)"
    "map msg_kind (map (received env) ms) = map msg_kind ms" "map due (filter asks (map (received env) ms)) = map due (filter asks ms)"
proof -
  have "due (received env m) = due m" "asks (received env m) = asks m" if "msg_consistent m" for m
    using wire(3,4) [OF assms(1) that] by (simp_all add: due_def asks_def)
  then show "filter is_reply (map (received env) ms) = map (received env) (filter is_reply ms)"
    "map msg_kind (map (received env) ms) = map msg_kind ms" "map due (filter asks (map (received env) ms)) = map due (filter asks ms)"
    using assms(2) wire(3,6) [OF assms(1)] by (induction ms) simp_all
qed

text \<open>The kinds of the replies that the server has sent a client are those that its handled requests called for.\<close>

lemma replies_due:
  assumes inv: "net_inv good env s0 n q" and w: "wire_ok env"
  shows "map msg_kind (filter is_reply (map (received env) (sends_to i (srv_out (net_server n))))) = map due (filter asks (msgs_from i (net_inputs n)))"
proof -
  let ?out = "srv_out (net_server n)"
  have typed: "list_all (out_typed False) ?out" and ans: "answers ?out = concat (map asked (net_inputs n))"
    using inv by (simp_all add: net_inv_def accounted_def)
  note c = sent_consistent [OF typed, of i]
  have "list_all msg_consistent (filter is_reply (sends_to i ?out))" using c by (auto simp: list_all_iff)
  then have "map msg_kind (filter is_reply (map (received env) (sends_to i ?out))) = map msg_kind (filter answering (sends_to i ?out))"
    using received_filter(1) [OF w c] received_filter(2) [OF w] sent_replies [OF typed] by simp
  also have "\<dots> = map due (filter asks (msgs_from i (net_inputs n)))" using own_answers [of i ?out] own_questions [of i "net_inputs n"] ans by simp
  finally show ?thesis .
qed

lemma sent_benign:
  assumes "net_reach env (net_start env s0) n"
  shows "list_all benign (net_sent n i)"
  using assms
proof (induction rule: net_reach.induct)
  case (act n a n')
  then show ?case by (cases a) (auto simp: bindE_eq_Inr net_serve_def split: list.splits)
qed (simp add: net_start_def)

lemma inv_safe:
  assumes inv: "net_inv good env s0 n q" and w: "wire_ok env" and r: "net_reach env (net_start env s0) n" and i: "i \<in> set (ne_ids env)"
  shows "prefix (msgs_from i (net_inputs n)) (map (received env) (net_sent n i))"
    "prefix (net_got n i) (filter is_reply (map (received env) (sends_to i (srv_out (net_server n)))))"
    "prefix (map msg_kind (net_got n i)) (map due (filter asks (net_sent n i)))"
proof -
  show p: "prefix (msgs_from i (net_inputs n)) (map (received env) (net_sent n i))"
    and g: "prefix (net_got n i) (filter is_reply (map (received env) (sends_to i (srv_out (net_server n)))))"
    using inv i by (auto simp: net_inv_def accounted_def)
  have "list_all msg_consistent (net_sent n i)" using sent_benign [OF r, of i] by (simp add: list_all_iff)
  note eq = received_filter(3) [OF w this]
  have "prefix (map msg_kind (net_got n i)) (map due (filter asks (msgs_from i (net_inputs n))))"
    using map_mono_prefix [OF g, of msg_kind] replies_due [OF inv w, of i] by simp
  also have "prefix \<dots> (map due (filter asks (map (received env) (net_sent n i))))" by (intro map_mono_prefix filter_mono_prefix p)
  finally show "prefix (map msg_kind (net_got n i)) (map due (filter asks (net_sent n i)))" unfolding eq .
qed

text \<open>When nothing is left to do, the queues are empty.\<close>

lemma done_queues:
  assumes inv: "net_inv good env s0 n q" and d: "net_done env n" and i: "i \<in> set (ne_ids env)"
  shows "q_down q i = []" "q_wire q i = []" "q_back q i = []" "q_reply q i = []" "q_out q = []" "q_rpc q = []" "q_pub q = []" "q_feed q i = []"
    "net_running n \<Longrightarrow> q_up q = []"
proof -
  have no: "\<not> enabled env a n" if "moves a" for a using d that by (simp add: net_done_def)
  show "q_down q i = []" "q_wire q i = []" "q_back q i = []" "q_reply q i = []"
    using no [of "AClientPipe i"] no [of "AWire i"] no [of "AClientRpc i"] no [of "ARecv i"] queues_of_inv(1-4) [OF inv, of i] i by simp_all
  show "q_out q = []" "q_rpc q = []" "q_pub q = []" "q_feed q i = []" "net_running n \<Longrightarrow> q_up q = []"
    using no [of AControllerPipe] no [of ARoute] no [of APublish] no [of "AClientSub i"] no [of AServe] queues_of_inv(5-9) [OF inv] i by simp_all
qed

lemma done_answered:
  assumes inv: "net_inv good env s0 n q" and w: "wire_ok env" and r: "net_reach env (net_start env s0) n"
    and d: "net_done env n" and run: "net_running n" and i: "i \<in> set (ne_ids env)"
  shows "msgs_from i (net_inputs n) = map (received env) (net_sent n i)" "map msg_kind (net_got n i) = map due (filter asks (net_sent n i))"
proof -
  note qs = done_queues [OF inv d i] done_queues(9) [OF inv d i run]
  show m: "msgs_from i (net_inputs n) = map (received env) (net_sent n i)" using inv i qs by (simp add: net_inv_def accounted_def)
  have "net_got n i = filter is_reply (map (received env) (sends_to i (srv_out (net_server n))))"
    using inv i qs by (simp add: net_inv_def accounted_def)
  moreover have "list_all msg_consistent (net_sent n i)" using sent_benign [OF r, of i] by (simp add: list_all_iff)
  ultimately show "map msg_kind (net_got n i) = map due (filter asks (net_sent n i))"
    using replies_due [OF inv w, of i] m received_filter(3) [OF w, of "net_sent n i"] by simp
qed

lemma inv_delivers:
  assumes inv: "net_inv good env s0 n q" and i: "i \<in> set (ne_ids env)"
  shows "prefix (calls_of Client_sub_callback (rc_calls (net_client n i))) (map (opened env) (net_fed n i))"
    "prefix (net_pubd n) (map (\<lambda>(t, m). [t, [], ne_pack env m]) (pubs_of (srv_out (net_server n))))"
    "prefix (calls_of Client_actuate_callback (rc_calls (net_client n i))) (filter (\<lambda>m. \<not> is_reply m) (map (received env) (sends_to i (srv_out (net_server n)))))"
    "net_done env n \<Longrightarrow> calls_of Client_sub_callback (rc_calls (net_client n i)) = map (opened env) (net_fed n i)"
    "net_done env n \<Longrightarrow> net_pubd n = map (\<lambda>(t, m). [t, [], ne_pack env m]) (pubs_of (srv_out (net_server n)))"
    "net_done env n \<Longrightarrow> calls_of Client_actuate_callback (rc_calls (net_client n i)) = filter (\<lambda>m. \<not> is_reply m) (map (received env) (sends_to i (srv_out (net_server n))))"
    "net_done env n \<Longrightarrow> net_subs n i = socket_topics (net_client n i)"
proof -
  show "net_done env n \<Longrightarrow> net_subs n i = socket_topics (net_client n i)" using i by (auto simp: net_done_def dest: spec [of _ "ASync i"])
  show "prefix (net_pubd n) (map (\<lambda>(t, m). [t, [], ne_pack env m]) (pubs_of (srv_out (net_server n))))" using inv by (simp add: net_inv_def delivered_def)
qed (use inv i done_queues [OF inv _ i] queues_of_inv(8,9) [OF inv] in \<open>auto simp: net_inv_def delivered_def\<close>)

text \<open>The subscriptions of a client grow, and so do those that the publisher knows of.\<close>

lemma client_topics:
  "nrm_role_client_send d m to = Inr (r, d') \<Longrightarrow> socket_topics d' = socket_topics d"
  "nrm_role_client_recv d = Inr (msg, from, d') \<Longrightarrow> socket_topics d' = socket_topics d"
  "nrm_client_broker_pipe_handler pack c d = Inr (r, d') \<Longrightarrow> set (socket_topics d) \<subseteq> set (socket_topics d')"
  "nrm_client_broker_rpc_handler unpack zm d = Inr (r, d') \<Longrightarrow> socket_topics d' = socket_topics d"
  "nrm_client_broker_sub_handler unpack behind zm d = Inr (r, d') \<Longrightarrow> socket_topics d' = socket_topics d"
proof -
  show "nrm_role_client_send d m to = Inr (r, d') \<Longrightarrow> socket_topics d' = socket_topics d"
    by (auto simp: nrm_role_client_send_def bindE_eq_Inr)
  show "nrm_role_client_recv d = Inr (msg, from, d') \<Longrightarrow> socket_topics d' = socket_topics d"
    by (auto simp: nrm_role_client_recv_def bindE_eq_Inr split: list.splits)
  show "nrm_client_broker_pipe_handler pack c d = Inr (r, d') \<Longrightarrow> set (socket_topics d) \<subseteq> set (socket_topics d')"
    by (auto simp: nrm_client_broker_pipe_handler_def nrm_net_sub_set_topic_def socket_topics_def derefE_def bindE_eq_Inr split: prod.splits if_splits option.splits)
  show "nrm_client_broker_rpc_handler unpack zm d = Inr (r, d') \<Longrightarrow> socket_topics d' = socket_topics d"
    by (auto simp: nrm_client_broker_rpc_handler_def bindE_eq_Inr split: if_splits option.splits)
  show "nrm_client_broker_sub_handler unpack behind zm d = Inr (r, d') \<Longrightarrow> socket_topics d' = socket_topics d"
    by (auto simp: nrm_client_broker_sub_handler_def bindE_eq_Inr split: if_splits option.splits)
qed

lemma net_do_topics:
  assumes "net_do env a n = Inr n'"
  shows "set (socket_topics (net_client n i)) \<subseteq> set (socket_topics (net_client n' i))"
proof (cases a)
  case (AClientPipe j)
  then obtain c cs r cl where "nrm_client_broker_pipe_handler (ne_pack env) c ((net_client n j)\<lparr>rc_down := cs\<rparr>) = Inr (r, cl)"
      "n' = n\<lparr>net_client := (net_client n)(j := cl)\<rparr>"
    using assms by (auto simp: bindE_eq_Inr split: list.splits)
  then show ?thesis using client_topics(3) by fastforce
qed (use assms in \<open>auto simp: bindE_eq_Inr net_serve_def client_topics(1,2,4,5) split: list.splits\<close>)

lemma net_do_feeds:
  assumes "net_do env a n = Inr n'" "i \<in> set (ne_ids env)" "set (net_subs n i) \<subseteq> set (socket_topics (net_client n i))"
  shows "\<exists>ps. net_pubd n' = net_pubd n @ ps \<and> net_fed n' i = net_fed n i @ filter (\<lambda>zm. subscribed (net_subs n i) (hd zm)) ps
     \<and> set (net_subs n i) \<subseteq> set (net_subs n' i)"
  using assms by (cases a) (auto simp: bindE_eq_Inr net_serve_def split: list.splits)

lemma reach_subs:
  assumes "net_reach env (net_start env s0) n" "i \<in> set (ne_ids env)"
  shows "set (net_subs n i) \<subseteq> set (socket_topics (net_client n i))"
  using assms
proof (induction rule: net_reach.induct)
  case (act n a n')
  have "net_subs n' i = net_subs n i \<or> net_subs n' i = socket_topics (net_client n' i)"
    using act.hyps(3) by (cases a) (auto simp: bindE_eq_Inr net_serve_def split: list.splits)
  then show ?case using act.IH act.prems net_do_topics [OF act.hyps(3), of i] by auto
qed (simp add: net_start_def)

text \<open>
  From any moment on, a client is passed everything under the topics that the publisher knew it to listen to at that moment, in order, and
  nothing but what is under the topics it listens to.
\<close>

definition published :: "'u net_env \<Rightarrow> string list \<Rightarrow> (string \<times> nrm_msg) list \<Rightarrow> nrm_msg list" where
  "published env topics ps = map (received env) (map snd (filter (\<lambda>(t, _). subscribed topics t) ps))"

lemma opened_published:
  "map (opened env) (filter (\<lambda>zm. subscribed topics (hd zm)) (map (\<lambda>(t, m). [t, [], ne_pack env m]) ps)) = published env topics ps"
  by (induction ps) (auto simp: published_def)

lemma subscribed_mono: "set topics \<subseteq> set topics' \<Longrightarrow> subscribed topics t \<Longrightarrow> subscribed topics' t"
  by (auto simp: subscribed_def list_ex_iff)

lemma subseq_filter_mono: "(\<And>x. P x \<Longrightarrow> Q x) \<Longrightarrow> subseq (filter P xs) (filter Q xs)"
  by (induction xs) auto

lemma fed_since:
  assumes "net_reach env n n2" "net_reach env (net_start env s0) n" and i: "i \<in> set (ne_ids env)"
  shows "\<exists>ps fs. net_pubd n2 = net_pubd n @ ps \<and> net_fed n2 i = net_fed n i @ fs \<and> set (net_subs n i) \<subseteq> set (net_subs n2 i)
     \<and> subseq (filter (\<lambda>zm. subscribed (net_subs n i) (hd zm)) ps) fs \<and> subseq fs (filter (\<lambda>zm. subscribed (net_subs n2 i) (hd zm)) ps)"
  using assms
proof (induction rule: net_reach.induct)
  case (act n1 a n2)
  obtain ps fs where 1: "net_pubd n1 = net_pubd n @ ps" "net_fed n1 i = net_fed n i @ fs" "set (net_subs n i) \<subseteq> set (net_subs n1 i)"
    "subseq (filter (\<lambda>zm. subscribed (net_subs n i) (hd zm)) ps) fs" "subseq fs (filter (\<lambda>zm. subscribed (net_subs n1 i) (hd zm)) ps)"
    using act.IH act.prems by blast
  have "set (net_subs n1 i) \<subseteq> set (socket_topics (net_client n1 i))" by (rule reach_subs [OF reach_trans [OF act.hyps(1) act.prems(1)] i])
  then obtain qs where 2: "net_pubd n2 = net_pubd n1 @ qs" "net_fed n2 i = net_fed n1 i @ filter (\<lambda>zm. subscribed (net_subs n1 i) (hd zm)) qs"
    "set (net_subs n1 i) \<subseteq> set (net_subs n2 i)"
    using net_do_feeds [OF act.hyps(3) i] by blast
  have le: "subseq (filter (\<lambda>zm. subscribed (net_subs n i) (hd zm)) qs) (filter (\<lambda>zm. subscribed (net_subs n1 i) (hd zm)) qs)"
    "subseq (filter (\<lambda>zm. subscribed (net_subs n1 i) (hd zm)) zs) (filter (\<lambda>zm. subscribed (net_subs n2 i) (hd zm)) zs)" for zs
    using 1(3) 2(3) by (auto intro!: subseq_filter_mono elim: subscribed_mono)
  show ?case
    using 1 2 le(1) le(2) [of ps] le(2) [of qs] by (intro exI [of _ "ps @ qs"] exI [of _ "fs @ filter (\<lambda>zm. subscribed (net_subs n1 i) (hd zm)) qs"])
      (auto intro: list_emb_append_mono subseq_order.trans)
qed auto

lemma fed_all:
  assumes "net_reach env (net_start env s0) n" "i \<in> set (ne_ids env)"
  shows "subseq (net_fed n i) (filter (\<lambda>zm. subscribed (net_subs n i) (hd zm)) (net_pubd n))"
  using fed_since [OF assms(1) net_reach.start assms(2)] by (auto simp: net_start_def)

lemma calls_published:
  assumes inv: "net_inv good env s0 n q" and r: "net_reach env (net_start env s0) n" and i: "i \<in> set (ne_ids env)"
  shows "subseq (calls_of Client_sub_callback (rc_calls (net_client n i))) (published env (net_subs n i) (pubs_of (srv_out (net_server n))))"
proof -
  let ?sub = "\<lambda>zm. subscribed (net_subs n i) (hd zm)"
  have "subseq (map (opened env) (net_fed n i)) (map (opened env) (filter ?sub (net_pubd n)))" by (rule subseq_map [OF fed_all [OF r i]])
  also have "subseq \<dots> (published env (net_subs n i) (pubs_of (srv_out (net_server n))))"
    unfolding opened_published [symmetric]
    using inv_delivers(2) [OF inv i] by (intro subseq_map prefix_imp_subseq filter_mono_prefix)
  finally show ?thesis using prefix_imp_subseq [OF inv_delivers(1) [OF inv i]] subseq_order.trans by blast
qed

lemma published_called:
  assumes inv: "net_inv good env s0 n2 q" and r: "net_reach env (net_start env s0) n" "net_reach env n n2" and d: "net_done env n2" and i: "i \<in> set (ne_ids env)"
  shows "subseq (published env (net_subs n i) (drop (length (net_pubd n)) (pubs_of (srv_out (net_server n2)))))
     (calls_of Client_sub_callback (rc_calls (net_client n2 i)))"
proof -
  obtain ps fs where 1: "net_pubd n2 = net_pubd n @ ps" "net_fed n2 i = net_fed n i @ fs" "subseq (filter (\<lambda>zm. subscribed (net_subs n i) (hd zm)) ps) fs"
    using fed_since [OF r(2,1) i] by blast
  have "ps = map (\<lambda>(t, m). [t, [], ne_pack env m]) (drop (length (net_pubd n)) (pubs_of (srv_out (net_server n2))))"
    using arg_cong [OF inv_delivers(5) [OF inv i d], of "drop (length (net_pubd n))"] 1(1) by (simp add: drop_map)
  then have "subseq (published env (net_subs n i) (drop (length (net_pubd n)) (pubs_of (srv_out (net_server n2))))) (map (opened env) fs)"
    using subseq_map [OF 1(3), of "opened env"] by (simp only: opened_published)
  then show ?thesis using inv_delivers(4) [OF inv i d] 1(2) by (simp add: list_emb_append2)
qed

text \<open>Without a signal, the server only stops when a client asks for it.\<close>

lemma stopped_by_client:
  assumes inv: "net_inv good env s0 n q" and w: "wire_ok env" and r: "net_reach env (net_start env s0) n" and stop: "\<not> net_running n"
    and sig: "\<And>k. ISignal k \<notin> set (net_inputs n)"
  shows "\<exists>i \<in> set (ne_ids env). \<exists>m \<in> set (net_sent n i). msg_type m = NRM_MSG_TYPE_EXIT"
proof -
  obtain x where x: "x \<in> set (net_inputs n)" "ends x" using inv stop by (auto simp: net_inv_def accounted_def list_ex_iff)
  then obtain m c where xm: "x = IMsg (Some m) c" "msg_type m = NRM_MSG_TYPE_EXIT" using sig by (cases x rule: ends.cases) auto
  then obtain i where i: "c = Some i" "i \<in> set (ne_ids env)" using inv x(1) by (fastforce simp: net_inv_def accounted_def list_all_iff)
  have "m \<in> set (msgs_from i (net_inputs n))" using x(1) xm i by (force simp: msgs_from_def)
  then have "m \<in> set (map (received env) (net_sent n i))" using set_mono_prefix [OF inv_safe(1) [OF inv w r i(2)]] by blast
  then obtain m' where m': "m' \<in> set (net_sent n i)" "m = received env m'" by auto
  moreover have "msg_consistent m'" using sent_benign [OF r, of i] m'(1) by (simp add: list_all_iff)
  ultimately show ?thesis using xm(2) wire(4) [OF w] i(2) by force
qed


section \<open>The daemon in the network\<close>

locale serving_user = sturdy_user event actuate timer tick ok + typed: typed_user event actuate None timer tick
  for event :: "'u nrm_server \<Rightarrow> string \<Rightarrow> nrm_scope option \<Rightarrow> nrm_time \<Rightarrow> double \<Rightarrow> (int \<times> 'u nrm_server) exec"
    and actuate :: "'u nrm_server \<Rightarrow> nrm_actuator \<Rightarrow> double \<Rightarrow> (int \<times> 'u nrm_server) exec"
    and timer :: "'u nrm_server \<Rightarrow> (int \<times> 'u nrm_server) exec"
    and tick :: "'u nrm_server \<Rightarrow> (int \<times> 'u nrm_server) exec"
    and ok :: "'u \<Rightarrow> nrm_state \<Rightarrow> bool"

sublocale serving_user \<subseteq> net: answering_server "all_callbacks event actuate None timer tick" raw
  "\<lambda>s. server_wf s \<and> owned (srv_state s) \<and> ok (srv_user s) (srv_state s)" for raw
proof
  fix s :: "'u nrm_server" and i
  assume s: "server_wf s \<and> owned (srv_state s) \<and> ok (srv_user s) (srv_state s)" and i: "admissible i"
  obtain ret s' where h: "server_handle (all_callbacks event actuate None timer tick) raw i s = Inr (ret, s')"
    "server_wf s' \<and> owned (srv_state s') \<and> ok (srv_user s') (srv_state s')" "ret = -1 \<longleftrightarrow> ends i" "answers (srv_out s') = answers (srv_out s) @ asked i"
    using handle_returns [OF s i, of raw] by blast
  have "srv_typed (srv_out s) False s'"
  proof (rule typed.handle_typed [OF h(1)])
    show "srv_typed (srv_out s) False s" by (simp add: srv_typed_def)
    show "False" if "i = IMsg m None" for m using i that by (cases m) auto
  qed
  then obtain out where "srv_out s' = srv_out s @ out" "list_all (out_typed False) out" by (auto simp: srv_typed_def)
  then show "\<exists>ret s' out. server_handle (all_callbacks event actuate None timer tick) raw i s = Inr (ret, s')
      \<and> (server_wf s' \<and> owned (srv_state s') \<and> ok (srv_user s') (srv_state s')) \<and> (ret = -1 \<longleftrightarrow> ends i)
      \<and> srv_out s' = srv_out s @ out \<and> list_all (out_typed False) out \<and> answers out = asked i"
    using h by auto
qed

interpretation nrmd_net: serving_user nrmd_event_callback nrmd_actuate_callback "nrmd_timer_callback fexp flog" "nrmd_tick_callback fexp flog" nrmd_ok
  for fexp flog
  by unfold_locales

abbreviation nrmd_good :: "nrmd_server \<Rightarrow> bool" where
  "nrmd_good s \<equiv> server_wf s \<and> owned (srv_state s) \<and> nrmd_ok (srv_user s) (srv_state s)"

lemma nrmd_reach_inv:
  assumes "net_reach env (net_start env s0) n" "ne_cb env = nrmd_callbacks fexp flog" "wire_ok env" "nrmd_good s0" "srv_out s0 = []"
  shows "\<exists>q. net_inv nrmd_good env s0 n q"
  using nrmd_net.net.reach_inv [of env s0 n fexp flog "ne_raw env"] assms by (simp add: nrmd_callbacks_def)


lemma nrmd_reach_publishes:
  assumes "net_reach env (net_start env s0) n" "ne_cb env = nrmd_callbacks fexp flog" "publishes [] s0"
  shows "publishes (concat (map told (net_inputs n))) (net_server n)"
  using assms
proof (induction rule: net_reach.induct)
  case (act n a n')
  have "net_server n' = net_server n \<and> net_inputs n' = net_inputs n \<or> (\<exists>i ret. server_handle (ne_cb env) (ne_raw env) i (net_server n) = Inr (ret, net_server n')
      \<and> net_inputs n' = net_inputs n @ [i])"
    using act.hyps(3) by (cases a) (auto simp: bindE_eq_Inr net_serve_def split: list.splits)
  then show ?case using act.IH act.prems handle_publishes by fastforce
qed (simp add: net_start_def)

lemma published_raw:
  assumes "publishes ms s" "raw_topic \<in> set topics"
  shows "subseq (map (received env) ms) (published env topics (pubs_of (srv_out s)))"
proof -
  have "subseq (filter (\<lambda>(t, _). t = raw_topic) (pubs_of (srv_out s))) (filter (\<lambda>(t, _). subscribed topics t) (pubs_of (srv_out s)))"
    using assms(2) by (intro subseq_filter_mono) (auto simp: subscribed_def list_ex_iff)
  then have "subseq (map (received env) (raw_pubs (pubs_of (srv_out s)))) (published env topics (pubs_of (srv_out s)))"
    unfolding published_def raw_pubs_def by (intro subseq_map)
  then show ?thesis using assms(1) by (simp add: publishes_def)
qed

text \<open>A wire for the witnesses: of a message it keeps the kind.\<close>

definition bare_actuator :: "int \<Rightarrow> actuator_data \<Rightarrow> nrm_msg_actuator" where
  "bare_actuator t d = \<lparr>ma_uuid = [], ma_clientid = None, ma_value = DFin 0, ma_type = t, ma_data = d\<rparr>"

definition bare_msgs :: "nrm_msg list" where
  "bare_msgs = map (\<lambda>(t, d). \<lparr>msg_type = t, msg_data = d\<rparr>)
     [(NRM_MSG_TYPE_ACK, DataNone), (NRM_MSG_TYPE_EXIT, DataNone), (NRM_MSG_TYPE_TICK, DataNone),
      (NRM_MSG_TYPE_LIST, DataList \<lparr>list_type = NRM_MSG_TARGET_TYPE_SLICE, list_data = ListSlices []\<rparr>),
      (NRM_MSG_TYPE_LIST, DataList \<lparr>list_type = NRM_MSG_TARGET_TYPE_SENSOR, list_data = ListSensors []\<rparr>),
      (NRM_MSG_TYPE_LIST, DataList \<lparr>list_type = NRM_MSG_TARGET_TYPE_SCOPE, list_data = ListScopes []\<rparr>),
      (NRM_MSG_TYPE_LIST, DataList \<lparr>list_type = NRM_MSG_TARGET_TYPE_ACTUATOR, list_data = ListActuators []\<rparr>),
      (NRM_MSG_TYPE_ADD, DataAdd \<lparr>add_type = NRM_MSG_TARGET_TYPE_SLICE, add_data = AddSlice \<lparr>msl_uuid = []\<rparr>\<rparr>),
      (NRM_MSG_TYPE_ADD, DataAdd \<lparr>add_type = NRM_MSG_TARGET_TYPE_SENSOR, add_data = AddSensor \<lparr>msn_uuid = []\<rparr>\<rparr>),
      (NRM_MSG_TYPE_ADD, DataAdd \<lparr>add_type = NRM_MSG_TARGET_TYPE_SCOPE,
         add_data = AddScope \<lparr>ms_uuid = [], ms_cpus = [], ms_numas = [], ms_gpus = []\<rparr>\<rparr>),
      (NRM_MSG_TYPE_ADD, DataAdd \<lparr>add_type = NRM_MSG_TARGET_TYPE_ACTUATOR,
         add_data = AddActuator (bare_actuator NRM_ACTUATOR_TYPE_DISCRETE (ActDiscrete []))\<rparr>),
      (NRM_MSG_TYPE_ADD, DataAdd \<lparr>add_type = NRM_MSG_TARGET_TYPE_ACTUATOR,
         add_data = AddActuator (bare_actuator NRM_ACTUATOR_TYPE_CONTINUOUS (ActContinuous (DFin 0) (DFin 0)))\<rparr>),
      (NRM_MSG_TYPE_ADD, DataAdd \<lparr>add_type = NRM_MSG_TARGET_TYPE_ACTUATOR, add_data = AddActuator (bare_actuator (-1) ActNone)\<rparr>),
      (NRM_MSG_TYPE_REMOVE, DataRemove \<lparr>remove_type = 0, remove_uuid = []\<rparr>), (NRM_MSG_TYPE_EVENTS, DataEvents []),
      (NRM_MSG_TYPE_ACTUATE, DataActuate \<lparr>actuate_uuid = [], actuate_value = DFin 0\<rparr>)]"

definition bare_env :: "string list \<Rightarrow> nrmd net_env" where
  "bare_env ids = \<lparr>ne_pack = \<lambda>m. replicate (length (takeWhile (\<lambda>x. msg_kind x \<noteq> msg_kind m) bare_msgs)) CHR ''x'',
     ne_unpack = \<lambda>f. Some (bare_msgs ! length f), ne_cb = nrmd_callbacks (\<lambda>x. x) (\<lambda>x. x), ne_raw = [], ne_ids = ids,
     ne_topics = \<lambda>_. [''daemon''], ne_behind = []\<rparr>"

lemma bare_kinds: "map msg_kind bare_msgs = [(NRM_MSG_TYPE_ACK, 0, 0), (NRM_MSG_TYPE_EXIT, 0, 0), (NRM_MSG_TYPE_TICK, 0, 0),
    (NRM_MSG_TYPE_LIST, NRM_MSG_TARGET_TYPE_SLICE, 0), (NRM_MSG_TYPE_LIST, NRM_MSG_TARGET_TYPE_SENSOR, 0),
    (NRM_MSG_TYPE_LIST, NRM_MSG_TARGET_TYPE_SCOPE, 0), (NRM_MSG_TYPE_LIST, NRM_MSG_TARGET_TYPE_ACTUATOR, 0),
    (NRM_MSG_TYPE_ADD, NRM_MSG_TARGET_TYPE_SLICE, 0), (NRM_MSG_TYPE_ADD, NRM_MSG_TARGET_TYPE_SENSOR, 0),
    (NRM_MSG_TYPE_ADD, NRM_MSG_TARGET_TYPE_SCOPE, 0), (NRM_MSG_TYPE_ADD, NRM_MSG_TARGET_TYPE_ACTUATOR, NRM_ACTUATOR_TYPE_DISCRETE),
    (NRM_MSG_TYPE_ADD, NRM_MSG_TARGET_TYPE_ACTUATOR, NRM_ACTUATOR_TYPE_CONTINUOUS), (NRM_MSG_TYPE_ADD, NRM_MSG_TARGET_TYPE_ACTUATOR, -1),
    (NRM_MSG_TYPE_REMOVE, 0, 0), (NRM_MSG_TYPE_EVENTS, 0, 0), (NRM_MSG_TYPE_ACTUATE, 0, 0)]"
  by (simp add: bare_msgs_def bare_actuator_def msg_kind_def added_kind_def actuator_consts)

lemma consistent_kinds: "msg_consistent m \<Longrightarrow> msg_kind m \<in> set (map msg_kind bare_msgs)"
  unfolding bare_kinds by (cases "msg_data m")
    (auto simp: msg_consistent_def list_consistent_def add_consistent_def msg_kind_def added_kind_def split: list_data.splits add_data.splits)

lemma bare_consistent: "list_all msg_consistent bare_msgs"
  by (simp add: bare_msgs_def bare_actuator_def msg_consistent_def list_consistent_def add_consistent_def
      actuator_msg_consistent_def actuator_consts)

lemma bare_wire: "wire_ok (bare_env ids)"
proof -
  have "\<exists>m'. ne_unpack (bare_env ids) (ne_pack (bare_env ids) m) = Some m' \<and> msg_consistent m' \<and> msg_kind m' = msg_kind m"
    if "msg_consistent m" for m
  proof -
    have "\<exists>x \<in> set bare_msgs. msg_kind x = msg_kind m" using consistent_kinds [OF that] by fastforce
    then have "takeWhile (\<lambda>x. msg_kind x \<noteq> msg_kind m) bare_msgs \<noteq> bare_msgs" by (simp add: takeWhile_eq_all_conv)
    then have "length (takeWhile (\<lambda>x. msg_kind x \<noteq> msg_kind m) bare_msgs) < length bare_msgs"
      by (metis le_neq_implies_less length_takeWhile_le order_refl takeWhile_eq_take take_all)
    from nth_length_takeWhile [OF this] nth_mem [OF this] show ?thesis
      using bare_consistent by (auto simp: bare_env_def list_all_iff)
  qed
  then show ?thesis by (simp add: wire_ok_def)
qed


section \<open>Properties\<close>

text \<open>
  C1. Interleavings do not matter: let any number of clients with their brokers, the network and the daemon run in any order,
  the daemon with a configuration that fits its machine and messages that the protocol buffers deliver with their kind.  Then no thread
  ever faults, and the daemon is in the state it would have reached alone, on one sequence of inputs.  This sequence has each
  client's messages, as they are received, in the order that client sent them; what a client has received are the first of the replies
  that the daemon sends it in that run, and they are, one by one and in order, of the kinds that the client's own requests call for.
\<close>

theorem nrm_network_linearizable:
  assumes topo: "nrm_scope_hwloc_scopes topo [] = Inr (err, scopes)" "map_of scopes ''nrm.hwloc.Machine.0'' \<noteq> None" "config_fits scopes config"
    and env: "ne_cb env = nrmd_callbacks fexp flog" "wire_ok env"
  shows "\<exists>s0 period. nrmd_main fexp topo clock config True (Some uri) freq = Inr (s0, period)
     \<and> (\<forall>n. net_reach env (net_start env s0) n \<longrightarrow>
          nrm_server_start (ne_cb env) (ne_raw env) (net_inputs n) s0 = Inr (net_server n)
        \<and> (\<forall>i \<in> set (ne_ids env).
             prefix (msgs_from i (net_inputs n)) (map (received env) (net_sent n i))
           \<and> prefix (net_got n i) (filter is_reply (map (received env) (sends_to i (srv_out (net_server n)))))
           \<and> prefix (map msg_kind (net_got n i)) (map due (filter asks (net_sent n i))))
        \<and> (\<forall>a. enabled env a n \<longrightarrow> (\<exists>n'. net_do env a n = Inr n')))"
proof -
  obtain s0 period where s0: "nrmd_main fexp topo clock config True (Some uri) freq = Inr (s0, period)" "nrmd_good s0" "srv_out s0 = []"
    using nrmd_main_starts [OF topo(1) _ topo(3)] topo(2) by blast
  have "nrm_server_start (ne_cb env) (ne_raw env) (net_inputs n) s0 = Inr (net_server n)
      \<and> (\<forall>i \<in> set (ne_ids env). prefix (msgs_from i (net_inputs n)) (map (received env) (net_sent n i))
         \<and> prefix (net_got n i) (filter is_reply (map (received env) (sends_to i (srv_out (net_server n)))))
         \<and> prefix (map msg_kind (net_got n i)) (map due (filter asks (net_sent n i))))
      \<and> (\<forall>a. enabled env a n \<longrightarrow> (\<exists>n'. net_do env a n = Inr n'))" if r: "net_reach env (net_start env s0) n" for n
  proof -
    obtain q where q: "net_inv nrmd_good env s0 n q" using nrmd_reach_inv [OF r env s0(2,3)] by blast
    have "\<exists>n'. net_do env a n = Inr n'" if "enabled env a n" for a
      using nrmd_net.net.step [of env s0 n q fexp flog "ne_raw env" a] q env that by (auto simp: nrmd_callbacks_def)
    then show ?thesis using q inv_safe [OF q env(2) r] by (simp add: net_inv_def accounted_def)
  qed
  with s0(1) show ?thesis by blast
qed

text \<open>Two clients of which one has sent a tick.\<close>

definition one_tick :: "nrmd_server \<Rightarrow> nrmd network" where
  "one_tick s0 = (net_start (bare_env [''a'', ''b'']) s0)
     \<lparr>net_client := (\<lambda>_. client_start [''daemon''])(''a'' := (client_start [''daemon''])\<lparr>rc_down := [(''SEND'', PMsg tick_msg, PNull)]\<rparr>),
      net_sent := (\<lambda>_. [])(''a'' := [tick_msg])\<rparr>"

lemma one_tick_reached: "net_reach (bare_env [''a'', ''b'']) (net_start (bare_env [''a'', ''b'']) s0) (one_tick s0)"
proof (rule net_reach.act [OF net_reach.start])
  show "enabled (bare_env [''a'', ''b'']) (ASend ''a'' tick_msg) (net_start (bare_env [''a'', ''b'']) s0)"
    by (simp add: bare_env_def benign_def tick_msg_def msg_consistent_def msg_types)
  show "net_do (bare_env [''a'', ''b'']) (ASend ''a'' tick_msg) (net_start (bare_env [''a'', ''b'']) s0) = Inr (one_tick s0)"
    by (simp add: client_send_eq ptr_of_uuid_def net_start_def client_start_def nrm_role_client_new_def one_tick_def bare_env_def)
qed

theorem nrm_network_linearizable_witness:
  "\<exists>s0 period. nrmd_main (\<lambda>x. x) one_machine (\<lambda>_. \<lparr>tv_sec = 0, tv_nsec = 0\<rparr>) None True (Some ''tcp'') (DFin 0) = Inr (s0, period)
     \<and> prefix (map msg_kind (net_got (one_tick s0) ''a'')) [(NRM_MSG_TYPE_ACK, 0, 0)]
     \<and> (\<exists>n'. net_do (bare_env [''a'', ''b'']) (AClientPipe ''a'') (one_tick s0) = Inr n')"
proof -
  obtain err scopes where t: "nrm_scope_hwloc_scopes one_machine [] = Inr (err, scopes)" "map_of scopes ''nrm.hwloc.Machine.0'' \<noteq> None"
    using one_machine_known by blast
  have "map due (filter asks (net_sent (one_tick s0) ''a'')) = [(NRM_MSG_TYPE_ACK, 0, 0)]" for s0
    by (simp add: one_tick_def tick_msg_def asks_def due_def msg_types)
  moreover have "enabled (bare_env [''a'', ''b'']) (AClientPipe ''a'') (one_tick s0)" for s0 by (simp add: bare_env_def one_tick_def)
  moreover have "''a'' \<in> set (ne_ids (bare_env [''a'', ''b'']))" and cb: "ne_cb (bare_env [''a'', ''b'']) = nrmd_callbacks (\<lambda>x. x) (\<lambda>x. x)"
    by (simp_all add: bare_env_def)
  ultimately show ?thesis
    using nrm_network_linearizable [OF t config_fits.simps(1) [THEN iffD2, OF TrueI] cb bare_wire, of "\<lambda>_. \<lparr>tv_sec = 0, tv_nsec = 0\<rparr>" "''tcp''" "DFin 0"] one_tick_reached
    by metis
qed

text \<open>
  C4. Every client is served: take any moment of any run in which the daemon is up, no signal has arrived and nobody has asked it to exit.
  If nothing new happens, the threads come to rest after finitely many turns, in whatever order they
  take them.  When they have, the daemon is still up, it has handled every message of every client, and each client has received exactly one
  answer for each of its requests, in order and of the kind that the request calls for.
\<close>

theorem nrm_network_serves_all:
  assumes topo: "nrm_scope_hwloc_scopes topo [] = Inr (err, scopes)" "map_of scopes ''nrm.hwloc.Machine.0'' \<noteq> None" "config_fits scopes config"
    and env: "ne_cb env = nrmd_callbacks fexp flog" "wire_ok env"
    and main: "nrmd_main fexp topo clock config True (Some uri) freq = Inr (s0, period)"
    and run: "net_reach env (net_start env s0) n"
    and calm: "\<forall>k. ISignal k \<notin> set (net_inputs n)" "\<forall>i \<in> set (ne_ids env). \<forall>m \<in> set (net_sent n i). msg_type m \<noteq> NRM_MSG_TYPE_EXIT"
  shows "\<not> (\<exists>f. f 0 = n \<and> (\<forall>k. net_move env (f k) (f (Suc k)))) \<and> (\<exists>n'. (net_move env)\<^sup>*\<^sup>* n n' \<and> net_done env n')
     \<and> (\<forall>n'. (net_move env)\<^sup>*\<^sup>* n n' \<and> net_done env n' \<longrightarrow> net_running n'
          \<and> (\<forall>i \<in> set (ne_ids env). msgs_from i (net_inputs n') = map (received env) (net_sent n i)
               \<and> map msg_kind (net_got n' i) = map due (filter asks (net_sent n i))))"
proof -
  obtain sc where "map_of scopes ''nrm.hwloc.Machine.0'' = Some sc" using topo(2) by blast
  then have s0: "nrmd_good s0" "srv_out s0 = []" using nrmd_main_starts [OF topo(1) _ topo(3), of sc fexp clock uri freq] main by auto
  obtain q where q: "net_inv nrmd_good env s0 n q" using nrmd_reach_inv [OF run env s0] by blast
  note ends = nrmd_net.net.moves_end [of env s0 n q fexp flog "ne_raw env"]
  have "net_running n' \<and> (\<forall>i \<in> set (ne_ids env). msgs_from i (net_inputs n') = map (received env) (net_sent n i)
      \<and> map msg_kind (net_got n' i) = map due (filter asks (net_sent n i)))" if m: "(net_move env)\<^sup>*\<^sup>* n n'" and d: "net_done env n'" for n'
  proof -
    have r: "net_reach env (net_start env s0) n'" by (rule reach_moves [OF m run])
    obtain q' where q': "net_inv nrmd_good env s0 n' q'" using nrmd_reach_inv [OF r env s0] by blast
    have "net_running n'" using stopped_by_client [OF q' env(2) r] moves_keep [OF m] calm by auto
    then show ?thesis using done_answered [OF q' env(2) r d] moves_keep(1) [OF m] by simp
  qed
  then show ?thesis using ends q env by (simp add: nrmd_callbacks_def)
qed

theorem nrm_network_serves_all_witness:
  "\<exists>s0 period n'. nrmd_main (\<lambda>x. x) one_machine (\<lambda>_. \<lparr>tv_sec = 0, tv_nsec = 0\<rparr>) None True (Some ''tcp'') (DFin 0) = Inr (s0, period)
     \<and> (net_move (bare_env [''a'', ''b'']))\<^sup>*\<^sup>* (one_tick s0) n' \<and> net_done (bare_env [''a'', ''b'']) n'
     \<and> map msg_kind (net_got n' ''a'') = [(NRM_MSG_TYPE_ACK, 0, 0)] \<and> net_got n' ''b'' = []"
proof -
  let ?env = "bare_env [''a'', ''b'']"
  obtain err scopes where t: "nrm_scope_hwloc_scopes one_machine [] = Inr (err, scopes)" "map_of scopes ''nrm.hwloc.Machine.0'' \<noteq> None"
    using one_machine_known by blast
  obtain s0 period where s0: "nrmd_main (\<lambda>x. x) one_machine (\<lambda>_. \<lparr>tv_sec = 0, tv_nsec = 0\<rparr>) None True (Some ''tcp'') (DFin 0) = Inr (s0, period)"
    using one_machine_starts by blast
  have env: "ne_cb ?env = nrmd_callbacks (\<lambda>x. x) (\<lambda>x. x)" "ne_ids ?env = [''a'', ''b'']" by (simp_all add: bare_env_def)
  have due: "map due (filter asks (net_sent (one_tick s0) ''a'')) = [(NRM_MSG_TYPE_ACK, 0, 0)]" "net_sent (one_tick s0) ''b'' = []"
    by (simp_all add: one_tick_def tick_msg_def asks_def due_def msg_types net_start_def)
  have calm: "\<forall>k. ISignal k \<notin> set (net_inputs (one_tick s0))"
    "\<forall>i \<in> set (ne_ids ?env). \<forall>m \<in> set (net_sent (one_tick s0) i). msg_type m \<noteq> NRM_MSG_TYPE_EXIT"
    by (auto simp: one_tick_def net_start_def tick_msg_def msg_types split: if_splits)
  note all = nrm_network_serves_all [OF t config_fits.simps(1) [THEN iffD2, OF TrueI] env(1) bare_wire s0 one_tick_reached calm]
  then obtain n' where n': "(net_move ?env)\<^sup>*\<^sup>* (one_tick s0) n'" "net_done ?env n'" by blast
  then have "map msg_kind (net_got n' ''a'') = [(NRM_MSG_TYPE_ACK, 0, 0)]" "map msg_kind (net_got n' ''b'') = []"
    using all env(2) due by auto
  with s0 n' show ?thesis by auto
qed

text \<open>
  C5. What the daemon publishes arrives, and what it asks for too: in any run of the clients, their brokers, the network and the
  daemon, in any order and with clients that subscribe at any time, each client's event callback has been called only with messages that the daemon published
  under the topics the client listens to, each once and in order, and its actuation callback with the first of the actions the daemon asked of it.  The threads come to rest
  when nothing new happens.  At every later moment at which they are at rest, all subscriptions are known to the publisher, the client has been told every action, and it has been told, in
  order, everything that was not yet passed on at the first moment under the topics the publisher knew then.  The raw events the
  daemon publishes are, one by one and in order, the events of the messages it handled; so a client that listens to
  them from the start has then seen every event the daemon was told by any client.
\<close>

theorem nrm_network_delivers:
  assumes topo: "nrm_scope_hwloc_scopes topo [] = Inr (err, scopes)" "map_of scopes ''nrm.hwloc.Machine.0'' \<noteq> None" "config_fits scopes config"
    and env: "ne_cb env = nrmd_callbacks fexp flog" "wire_ok env"
    and main: "nrmd_main fexp topo clock config True (Some uri) freq = Inr (s0, period)"
    and run: "net_reach env (net_start env s0) n"
  shows "(\<forall>i \<in> set (ne_ids env).
        subseq (calls_of Client_sub_callback (rc_calls (net_client n i))) (published env (net_subs n i) (pubs_of (srv_out (net_server n))))
      \<and> prefix (calls_of Client_actuate_callback (rc_calls (net_client n i)))
          (filter (\<lambda>m. \<not> is_reply m) (map (received env) (sends_to i (srv_out (net_server n))))))
     \<and> raw_pubs (pubs_of (srv_out (net_server n))) = concat (map told (net_inputs n))
     \<and> (\<exists>n2. (net_move env)\<^sup>*\<^sup>* n n2 \<and> net_done env n2)
     \<and> (\<forall>n2. net_reach env n n2 \<and> net_done env n2 \<longrightarrow> (\<forall>i \<in> set (ne_ids env).
          net_subs n2 i = socket_topics (net_client n2 i)
        \<and> calls_of Client_actuate_callback (rc_calls (net_client n2 i))
            = filter (\<lambda>m. \<not> is_reply m) (map (received env) (sends_to i (srv_out (net_server n2))))
        \<and> subseq (published env (net_subs n i) (drop (length (net_pubd n)) (pubs_of (srv_out (net_server n2)))))
            (calls_of Client_sub_callback (rc_calls (net_client n2 i)))
        \<and> (''daemon.events.raw'' \<in> set (net_subs n i) \<and> net_pubd n = [] \<longrightarrow>
             subseq (map (received env) (concat (map told (net_inputs n2)))) (calls_of Client_sub_callback (rc_calls (net_client n2 i))))))"
proof -
  obtain sc where "map_of scopes ''nrm.hwloc.Machine.0'' = Some sc" using topo(2) by blast
  then have s0: "nrmd_good s0" "srv_out s0 = []" using nrmd_main_starts [OF topo(1) _ topo(3), of sc fexp clock uri freq] main by auto
  obtain q where q: "net_inv nrmd_good env s0 n q" using nrmd_reach_inv [OF run env s0] by blast
  note told = nrmd_reach_publishes [OF _ env(1) main_publishes [OF main]]
  have "net_subs n2 i = socket_topics (net_client n2 i)
      \<and> calls_of Client_actuate_callback (rc_calls (net_client n2 i)) = filter (\<lambda>m. \<not> is_reply m) (map (received env) (sends_to i (srv_out (net_server n2))))
      \<and> subseq (published env (net_subs n i) (drop (length (net_pubd n)) (pubs_of (srv_out (net_server n2))))) (calls_of Client_sub_callback (rc_calls (net_client n2 i)))
      \<and> (raw_topic \<in> set (net_subs n i) \<and> net_pubd n = [] \<longrightarrow>
           subseq (map (received env) (concat (map told (net_inputs n2)))) (calls_of Client_sub_callback (rc_calls (net_client n2 i))))"
    if n2: "net_reach env n n2" "net_done env n2" and i: "i \<in> set (ne_ids env)" for n2 i
  proof -
    have r2: "net_reach env (net_start env s0) n2" by (rule reach_trans [OF n2(1) run])
    obtain q2 where q2: "net_inv nrmd_good env s0 n2 q2" using nrmd_reach_inv [OF r2 env s0] by blast
    note c = published_called [OF q2 run n2 i]
    have "subseq (map (received env) (concat (map told (net_inputs n2)))) (published env (net_subs n i) (pubs_of (srv_out (net_server n2))))"
      if "raw_topic \<in> set (net_subs n i)"
      by (rule published_raw [OF told [OF r2] that])
    then show ?thesis using inv_delivers(6,7) [OF q2 i n2(2)] c by (auto intro: subseq_order.trans)
  qed
  moreover have "\<exists>n2. (net_move env)\<^sup>*\<^sup>* n n2 \<and> net_done env n2"
    using nrmd_net.net.moves_end(2) [of env s0 n q fexp flog "ne_raw env"] q env by (simp add: nrmd_callbacks_def)
  moreover have "raw_pubs (pubs_of (srv_out (net_server n))) = concat (map told (net_inputs n))" using told [OF run] by (simp add: publishes_def)
  ultimately show ?thesis using inv_delivers(3) [OF q] calls_published [OF q run] by blast
qed

theorem nrm_network_delivers_witness:
  "\<exists>s0 period n2. nrmd_main (\<lambda>x. x) one_machine (\<lambda>_. \<lparr>tv_sec = 0, tv_nsec = 0\<rparr>) None True (Some ''tcp'') (DFin 0) = Inr (s0, period)
     \<and> (net_move (bare_env [''a'', ''b'']))\<^sup>*\<^sup>* (one_tick s0) n2 \<and> net_done (bare_env [''a'', ''b'']) n2
     \<and> subseq (published (bare_env [''a'', ''b'']) [''null'', ''daemon''] (pubs_of (srv_out (net_server n2)))) (calls_of Client_sub_callback (rc_calls (net_client n2 ''a'')))"
proof -
  let ?env = "bare_env [''a'', ''b'']"
  obtain err scopes where t: "nrm_scope_hwloc_scopes one_machine [] = Inr (err, scopes)" "map_of scopes ''nrm.hwloc.Machine.0'' \<noteq> None"
    using one_machine_known by blast
  obtain s0 period where s0: "nrmd_main (\<lambda>x. x) one_machine (\<lambda>_. \<lparr>tv_sec = 0, tv_nsec = 0\<rparr>) None True (Some ''tcp'') (DFin 0) = Inr (s0, period)"
    using one_machine_starts by blast
  have env: "ne_cb ?env = nrmd_callbacks (\<lambda>x. x) (\<lambda>x. x)" "''a'' \<in> set (ne_ids ?env)" by (simp_all add: bare_env_def)
  have n: "net_subs (one_tick s0) ''a'' = [''null'', ''daemon'']" "net_pubd (one_tick s0) = []"
    by (simp_all add: one_tick_def net_start_def bare_env_def client_start_def nrm_role_client_new_def socket_topics_def)
  note all = nrm_network_delivers [OF t config_fits.simps(1) [THEN iffD2, OF TrueI] env(1) bare_wire s0 one_tick_reached]
  then obtain n2 where n2: "(net_move ?env)\<^sup>*\<^sup>* (one_tick s0) n2" "net_done ?env n2" by blast
  have "net_reach ?env (one_tick s0) n2" by (rule reach_moves [OF n2(1) net_reach.start])
  with all n2(2) env(2) n have "subseq (published ?env [''null'', ''daemon''] (pubs_of (srv_out (net_server n2)))) (calls_of Client_sub_callback (rc_calls (net_client n2 ''a'')))"
    by fastforce
  with s0 n2 show ?thesis by blast
qed

end
