(* ===== verification/NRM_Session.thy ===== *)
theory NRM_Session
  imports NRM_Network
begin

text \<open>
  The calls of the client API (src/client.c) while the whole system runs.

  A call is a request under the lock of the client, then a reply under the lock again, and in between every other thread
  may run.  \<open>api_run\<close> is the library's function, \<open>api_request\<close> the message that it sends and \<open>api_finish\<close> what it does with the
  message that it receives; \<open>api_run_split\<close> takes the one apart into the others for any role.  In the network the request is an
  \<open>ASend\<close> and the reply an \<open>ARecv\<close>, with any actions of the other clients, the brokers and the daemon between them.  The results are
  that a call of a client that has no other reply to wait for gets the reply to its own request, that the assertions of client.c on this reply hold, and
  that the reply is the one that the daemon gives at one moment between the call and its return.
\<close>

section \<open>Calls\<close>

text \<open>
  The functions of the API that send a request and wait for its reply, except for the four removals: these are not among the requests of
  NRM_Network, since the daemon does not survive the removal of a scope (\<open>nrm_server_stops\<close>).  \<open>nrm_client_send_event\<close> and \<open>nrm_client_send_exit\<close> wait for nothing.
\<close>

datatype api_call =
    CallActuate nrm_actuator double
  | CallAddActuator nrm_actuator
  | CallAddScope nrm_scope
  | CallAddSensor nrm_sensor
  | CallAddSlice nrm_slice
  | CallListActuators
  | CallListScopes
  | CallListSensors
  | CallListSlices
  | CallFind int string
  | CallTick

datatype api_result =
    ResNone
  | ResActuator "nrm_actuator option"
  | ResScope "nrm_scope option"
  | ResSensor "nrm_sensor option"
  | ResSlice "nrm_slice option"
  | ResFound found

fun api_run :: "api_call \<Rightarrow> ('d, 'l) nrm_client \<Rightarrow> (int \<times> ('d, 'l) nrm_client option \<times> api_result) exec" where
  "api_run (CallActuate a v) c = bindE (nrm_client_actuate (Some c) (Some a) v) (\<lambda>(err, c). Inr (err, c, ResNone))"
| "api_run (CallAddActuator a) c = bindE (nrm_client_add_actuator (Some c) (Some a)) (\<lambda>(err, c, a). Inr (err, c, ResActuator a))"
| "api_run (CallAddScope s) c = bindE (nrm_client_add_scope (Some c) (Some s)) (\<lambda>(err, c, s). Inr (err, c, ResScope s))"
| "api_run (CallAddSensor n) c = bindE (nrm_client_add_sensor (Some c) (Some n)) (\<lambda>(err, c, n). Inr (err, c, ResSensor n))"
| "api_run (CallAddSlice l) c = bindE (nrm_client_add_slice (Some c) (Some l)) (\<lambda>(err, c, l). Inr (err, c, ResSlice l))"
| "api_run CallListActuators c =
     bindE (nrm_client_list_actuators (Some c) True) (\<lambda>(err, c, xs). bindE (derefE xs) (\<lambda>xs. Inr (err, c, ResFound (FoundActuators xs))))"
| "api_run CallListScopes c =
     bindE (nrm_client_list_scopes (Some c) True) (\<lambda>(err, c, xs). bindE (derefE xs) (\<lambda>xs. Inr (err, c, ResFound (FoundScopes xs))))"
| "api_run CallListSensors c =
     bindE (nrm_client_list_sensors (Some c) True) (\<lambda>(err, c, xs). bindE (derefE xs) (\<lambda>xs. Inr (err, c, ResFound (FoundSensors xs))))"
| "api_run CallListSlices c =
     bindE (nrm_client_list_slices (Some c) True) (\<lambda>(err, c, xs). bindE (derefE xs) (\<lambda>xs. Inr (err, c, ResFound (FoundSlices xs))))"
| "api_run (CallFind t u) c = bindE (nrm_client_find (Some c) t (Some u) True) (\<lambda>(err, c, r). bindE (derefE r) (\<lambda>r. Inr (err, c, ResFound r)))"
| "api_run CallTick c = bindE (nrm_client_send_tick (Some c)) (\<lambda>(err, c). Inr (err, c, ResNone))"

fun api_request :: "api_call \<Rightarrow> nrm_msg option exec" where
  "api_request (CallActuate a v) =
     bindE (nrm_actuator_uuid (Some a)) (\<lambda>uuid. bindE (nrm_msg_set_actuate (filled NRM_MSG_TYPE_ACTUATE) uuid v) (\<lambda>(_, m). Inr m))"
| "api_request (CallAddActuator a) = bindE (nrm_msg_set_add_actuator (filled NRM_MSG_TYPE_ADD) (Some a)) (\<lambda>(_, m). Inr m)"
| "api_request (CallAddScope s) = bindE (nrm_msg_set_add_scope (filled NRM_MSG_TYPE_ADD) (Some s)) (\<lambda>(_, m). Inr m)"
| "api_request (CallAddSensor n) = bindE (nrm_msg_set_add_sensor (filled NRM_MSG_TYPE_ADD) (Some n)) (\<lambda>(_, m). Inr m)"
| "api_request (CallAddSlice l) = bindE (nrm_msg_set_add_slice (filled NRM_MSG_TYPE_ADD) (Some l)) (\<lambda>(_, m). Inr m)"
| "api_request CallListActuators = find_request NRM_MSG_TARGET_TYPE_ACTUATOR"
| "api_request CallListScopes = find_request NRM_MSG_TARGET_TYPE_SCOPE"
| "api_request CallListSensors = find_request NRM_MSG_TARGET_TYPE_SENSOR"
| "api_request CallListSlices = find_request NRM_MSG_TARGET_TYPE_SLICE"
| "api_request (CallFind t u) = find_request t"
| "api_request CallTick = Inr (filled NRM_MSG_TYPE_TICK)"

fun api_finish :: "api_call \<Rightarrow> nrm_msg option \<Rightarrow> api_result exec" where
  "api_finish (CallActuate a v) reply = bindE (ack_reply reply) (\<lambda>_. Inr ResNone)"
| "api_finish (CallAddActuator a) reply =
     bindE (add_reply NRM_MSG_TARGET_TYPE_ACTUATOR reply) (\<lambda>add. bindE (add_actuator add) (\<lambda>x.
     bindE (nrm_actuator_update_frommsg (Some a) x) (\<lambda>(_, a). Inr (ResActuator a))))"
| "api_finish (CallAddScope s) reply =
     bindE (add_reply NRM_MSG_TARGET_TYPE_SCOPE reply) (\<lambda>add. bindE (add_scope add) (\<lambda>x.
     bindE (nrm_scope_update_frommsg (Some s) x) (\<lambda>(_, s). Inr (ResScope s))))"
| "api_finish (CallAddSensor n) reply =
     bindE (add_reply NRM_MSG_TARGET_TYPE_SENSOR reply) (\<lambda>add. bindE (add_sensor add) (\<lambda>x.
     Inr (ResSensor (snd (nrm_sensor_update_frommsg (Some n) x)))))"
| "api_finish (CallAddSlice l) reply =
     bindE (add_reply NRM_MSG_TARGET_TYPE_SLICE reply) (\<lambda>add. bindE (add_slice add) (\<lambda>x.
     Inr (ResSlice (snd (nrm_slice_update_frommsg (Some l) x)))))"
| "api_finish CallListActuators reply =
     bindE (list_reply NRM_MSG_TARGET_TYPE_ACTUATOR reply) (\<lambda>l. bindE (list_actuators l) (\<lambda>xs. bindE (derefE xs) (\<lambda>xs.
     bindE (mapE (\<lambda>x. nrm_actuator_create_frommsg (Some x)) xs) (\<lambda>ret. Inr (ResFound (FoundActuators ret))))))"
| "api_finish CallListScopes reply =
     bindE (list_reply NRM_MSG_TARGET_TYPE_SCOPE reply) (\<lambda>l. bindE (list_scopes l) (\<lambda>xs. bindE (derefE xs) (\<lambda>xs.
     bindE (mapE (\<lambda>x. nrm_scope_create_frommsg (Some x)) xs) (\<lambda>ret. Inr (ResFound (FoundScopes ret))))))"
| "api_finish CallListSensors reply =
     bindE (list_reply NRM_MSG_TARGET_TYPE_SENSOR reply) (\<lambda>l. bindE (list_sensors l) (\<lambda>xs. bindE (derefE xs) (\<lambda>xs.
     Inr (ResFound (FoundSensors (map (\<lambda>x. nrm_sensor_create_frommsg (Some x)) xs))))))"
| "api_finish CallListSlices reply =
     bindE (list_reply NRM_MSG_TARGET_TYPE_SLICE reply) (\<lambda>l. bindE (list_slices l) (\<lambda>xs. bindE (derefE xs) (\<lambda>xs.
     Inr (ResFound (FoundSlices (map (\<lambda>x. nrm_slice_create_frommsg (Some x)) xs))))))"
| "api_finish (CallFind t u) reply = bindE (list_reply t reply) (\<lambda>l. bindE (find_results t u l) (\<lambda>r. Inr (ResFound r)))"
| "api_finish CallTick reply = bindE (ack_reply reply) (\<lambda>_. Inr ResNone)"

text \<open>Calls that get as far as to send: an action the actuator accepts, objects as the constructors make them, a known target.\<close>

fun api_sends :: "api_call \<Rightarrow> bool" where
  "api_sends (CallActuate a v) = act_valid a v"
| "api_sends (CallAddActuator a) = actuator_shape a"
| "api_sends (CallAddScope s) = scope_wf s"
| "api_sends (CallFind t u) = (0 \<le> t \<and> t < NRM_MSG_TARGET_TYPE_MAX)"
| "api_sends _ = True"

lemma find_request_eq:
  "find_request NRM_MSG_TARGET_TYPE_ACTUATOR = bindE (nrm_msg_set_list_actuators (filled NRM_MSG_TYPE_LIST) None) (\<lambda>(_, m). Inr m)"
  "find_request NRM_MSG_TARGET_TYPE_SCOPE = bindE (nrm_msg_set_list_scopes (filled NRM_MSG_TYPE_LIST) None) (\<lambda>(_, m). Inr m)"
  "find_request NRM_MSG_TARGET_TYPE_SENSOR = bindE (nrm_msg_set_list_sensors (filled NRM_MSG_TYPE_LIST) None) (\<lambda>(_, m). Inr m)"
  "find_request NRM_MSG_TARGET_TYPE_SLICE = bindE (nrm_msg_set_list_slices (filled NRM_MSG_TYPE_LIST) None) (\<lambda>(_, m). Inr m)"
  by (simp_all add: find_request_def Let_def msg_targets)

lemma target_cases:
  assumes "0 \<le> t" "t < NRM_MSG_TARGET_TYPE_MAX"
  shows "t = NRM_MSG_TARGET_TYPE_SLICE \<or> t = NRM_MSG_TARGET_TYPE_SENSOR \<or> t = NRM_MSG_TARGET_TYPE_SCOPE \<or> t = NRM_MSG_TARGET_TYPE_ACTUATOR"
  using assms by (auto simp: msg_targets NRM_MSG_TARGET_TYPE_MAX_def)

lemma targets_range [simp]:
  "0 \<le> NRM_MSG_TARGET_TYPE_ACTUATOR" "NRM_MSG_TARGET_TYPE_ACTUATOR < NRM_MSG_TARGET_TYPE_MAX"
  "0 \<le> NRM_MSG_TARGET_TYPE_SCOPE" "NRM_MSG_TARGET_TYPE_SCOPE < NRM_MSG_TARGET_TYPE_MAX"
  "0 \<le> NRM_MSG_TARGET_TYPE_SENSOR" "NRM_MSG_TARGET_TYPE_SENSOR < NRM_MSG_TARGET_TYPE_MAX"
  "0 \<le> NRM_MSG_TARGET_TYPE_SLICE" "NRM_MSG_TARGET_TYPE_SLICE < NRM_MSG_TARGET_TYPE_MAX"
  by (simp_all add: msg_targets NRM_MSG_TARGET_TYPE_MAX_def)

lemma find_request_ok:
  assumes "0 \<le> t" "t < NRM_MSG_TARGET_TYPE_MAX"
  shows "\<exists>l. find_request t = Inr (Some \<lparr>msg_type = NRM_MSG_TYPE_LIST, msg_data = DataList l\<rparr>) \<and> list_type l = t \<and> list_consistent l"
  using target_cases [OF assms]
  by (auto simp: find_request_eq nrm_msg_set_list_actuators_def nrm_msg_set_list_scopes_def nrm_msg_set_list_sensors_def nrm_msg_set_list_slices_def
      msg_set_def nrm_msg_list_new_def nrm_msg_actuatorlist_new_def nrm_msg_scopelist_new_def nrm_msg_sensorlist_new_def nrm_msg_slicelist_new_def
      list_consistent_def)

lemma api_run_split:
  assumes "api_sends a"
  shows "api_run a c = bindE (api_request a) (\<lambda>m. bindE (client_call m c) (\<lambda>(reply, c).
     bindE (api_finish a reply) (\<lambda>res. Inr (0, Some c, res))))"
proof (cases a)
  case (CallActuate x v)
  then show ?thesis using assms by (simp add: nrm_client_actuate_def act_valid_def bindE_assoc case_prod_unfold)
next
  case (CallFind t u)
  then obtain l where "find_request t = Inr (Some \<lparr>msg_type = NRM_MSG_TYPE_LIST, msg_data = DataList l\<rparr>)" "list_type l = t"
    using assms find_request_ok by auto
  then show ?thesis using assms CallFind
    by (simp add: nrm_client_find_def list_reply_def union_reads bindE_assoc case_prod_unfold)
qed (simp_all add: nrm_client_add_actuator_def nrm_client_add_scope_def nrm_client_add_sensor_def nrm_client_add_slice_def
    nrm_client_list_actuators_def nrm_client_list_scopes_def nrm_client_list_sensors_def nrm_client_list_slices_def
    nrm_client_send_tick_def find_request_eq bindE_assoc case_prod_unfold)

text \<open>The requests keep to the protocol and are answered.\<close>

lemma list_benign: "list_consistent l \<Longrightarrow> benign \<lparr>msg_type = NRM_MSG_TYPE_LIST, msg_data = DataList l\<rparr>"
  by (simp add: benign_def msg_consistent_def msg_types)

lemma request_ok:
  assumes "api_sends a"
  shows "\<exists>m. api_request a = Inr (Some m) \<and> benign m \<and> asks m"
proof -
  have find: "\<exists>m. find_request t = Inr (Some m) \<and> benign m \<and> asks m" if "0 \<le> t" "t < NRM_MSG_TARGET_TYPE_MAX" for t
    using find_request_ok [OF that] by (auto simp: list_benign asks_def)
  note b = benign_def msg_consistent_def add_consistent_def asks_def msg_types msg_set_def nrm_msg_add_new_def filled_eq
  show ?thesis
  proof (cases a)
    case (CallActuate x v)
    then show ?thesis by (simp add: b nrm_actuator_uuid_def nrm_msg_set_actuate_def nrm_msg_actuate_new_def)
  next
    case (CallAddActuator x)
    have "\<exists>m. nrm_msg_actuator_new (Some x) = Inr m"
      using assms CallAddActuator by (auto simp: actuator_shape_def nrm_msg_actuator_new_def nrm_msg_actuator_discrete_new_def nrm_msg_actuator_continuous_new_def
          actuator_choices_def actuator_limits_def actuator_consts Let_def)
    then obtain m where "nrm_msg_actuator_new (Some x) = Inr m" ..
    then show ?thesis using assms CallAddActuator actuator_new_consistent actuator_new_type
      by (auto simp: b nrm_msg_set_add_actuator_def actuator_shape_def)
  next
    case (CallAddScope x)
    then show ?thesis using assms nrm_msg_scope_new_ok [of x] by (auto simp: b nrm_msg_set_add_scope_def)
  next
    case (CallAddSensor x)
    then show ?thesis by (simp add: b nrm_msg_set_add_sensor_def)
  next
    case (CallAddSlice x)
    then show ?thesis by (simp add: b nrm_msg_set_add_slice_def)
  next
    case CallTick
    then show ?thesis by (simp add: b)
  qed (use assms find in simp_all)
qed

text \<open>A reply of the kind that is due passes the assertions, and the objects in it are fit to be read.\<close>

lemma kind_ack: "msg_kind r = (NRM_MSG_TYPE_ACK, 0, 0) \<Longrightarrow> ack_reply (Some r) = Inr ()"
  by (simp add: msg_kind_def ack_reply_def)

lemma kind_add:
  assumes "msg_kind r = (NRM_MSG_TYPE_ADD, t, k)" "msg_consistent r"
  shows "\<exists>x. add_reply t (Some r) = Inr x \<and> add_type x = t \<and> added_kind x = k \<and> add_consistent x"
  using assms by (cases "msg_data r") (auto simp: msg_kind_def msg_consistent_def add_reply_def union_reads msg_types)

lemma kind_list:
  assumes "msg_kind r = (NRM_MSG_TYPE_LIST, t, 0)" "msg_consistent r"
  shows "\<exists>l. list_reply t (Some r) = Inr l \<and> list_type l = t \<and> list_consistent l"
  using assms by (cases "msg_data r") (auto simp: msg_kind_def msg_consistent_def list_reply_def union_reads msg_types)

lemma update_same_type:
  assumes "actuator_shape a" "actuator_msg_consistent x" "ma_type x = act_type a"
  shows "\<exists>a'. nrm_actuator_update_frommsg (Some a) (Some x) = Inr (0, Some a')"
  using assms by (auto simp: actuator_shape_def actuator_msg_consistent_def nrm_actuator_update_frommsg_def actuator_consts Let_def
      actuator_discrete_def actuator_continuous_def nrm_actuator_discrete_set_choices_def actuator_choices_def
      nrm_actuator_continuous_set_limits_def)

lemma create_consistent: "actuator_msg_consistent x \<Longrightarrow> \<exists>a. nrm_actuator_create_frommsg (Some x) = Inr a"
  by (auto simp: actuator_msg_consistent_def nrm_actuator_create_frommsg_def nrm_actuator_discrete_create_frommsg_def
      nrm_actuator_continuous_create_frommsg_def actuator_discrete_def actuator_continuous_def nrm_actuator_discrete_set_choices_def
      nrm_actuator_discrete_create_def actuator_choices_def nrm_actuator_continuous_set_limits_def Let_def)

lemma mapE_total: "(\<And>x. x \<in> set xs \<Longrightarrow> \<exists>y. f x = Inr y) \<Longrightarrow> \<exists>ys. mapE f xs = Inr ys"
proof (induction xs)
  case (Cons x xs)
  then obtain y ys where "f x = Inr y" "mapE f xs = Inr ys" by force
  then show ?case by simp
qed simp

lemma list_objects:
  assumes "list_consistent l" and t: "list_type l = t" "0 \<le> t" "t < NRM_MSG_TARGET_TYPE_MAX"
  shows "\<exists>r. find_results t u l = Inr r"
    and "t = NRM_MSG_TARGET_TYPE_ACTUATOR \<Longrightarrow> \<exists>xs ys. list_actuators l = Inr (Some xs) \<and> mapE (\<lambda>x. nrm_actuator_create_frommsg (Some x)) xs = Inr ys"
    and "t = NRM_MSG_TARGET_TYPE_SCOPE \<Longrightarrow> \<exists>xs ys. list_scopes l = Inr (Some xs) \<and> mapE (\<lambda>x. nrm_scope_create_frommsg (Some x)) xs = Inr ys"
    and "t = NRM_MSG_TARGET_TYPE_SENSOR \<Longrightarrow> \<exists>xs. list_sensors l = Inr (Some xs)"
    and "t = NRM_MSG_TARGET_TYPE_SLICE \<Longrightarrow> \<exists>xs. list_slices l = Inr (Some xs)"
proof -
  have scopes: "\<exists>ys. mapE (\<lambda>x. nrm_scope_create_frommsg (Some x)) xs = Inr ys" for xs
    using nrm_scope_create_frommsg_wf by (intro mapE_total) blast
  have acts: "\<exists>ys. mapE (\<lambda>x. nrm_actuator_create_frommsg (Some x)) xs = Inr ys" if "\<forall>a \<in> set xs. actuator_msg_consistent a" for xs
    using that create_consistent by (intro mapE_total) blast
  show "t = NRM_MSG_TARGET_TYPE_ACTUATOR \<Longrightarrow> \<exists>xs ys. list_actuators l = Inr (Some xs) \<and> mapE (\<lambda>x. nrm_actuator_create_frommsg (Some x)) xs = Inr ys"
    using assms acts by (auto simp: list_consistent_def list_actuators_def msg_targets split: list_data.splits)
  show "t = NRM_MSG_TARGET_TYPE_SCOPE \<Longrightarrow> \<exists>xs ys. list_scopes l = Inr (Some xs) \<and> mapE (\<lambda>x. nrm_scope_create_frommsg (Some x)) xs = Inr ys"
    using assms scopes by (auto simp: list_consistent_def list_scopes_def msg_targets split: list_data.splits)
  show "t = NRM_MSG_TARGET_TYPE_SENSOR \<Longrightarrow> \<exists>xs. list_sensors l = Inr (Some xs)"
    and "t = NRM_MSG_TARGET_TYPE_SLICE \<Longrightarrow> \<exists>xs. list_slices l = Inr (Some xs)"
    using assms by (auto simp: list_consistent_def list_sensors_def list_slices_def msg_targets split: list_data.splits)
  show "\<exists>r. find_results t u l = Inr r"
  proof (cases "list_data l")
    case (ListActuators xs)
    then have "\<exists>ys. mapE (\<lambda>x. nrm_actuator_create_frommsg (Some x)) (filter (\<lambda>x. ma_uuid x = u) xs) = Inr ys"
      using assms(1) by (intro acts) (simp add: list_consistent_def)
    then show ?thesis using assms ListActuators by (auto simp: list_consistent_def find_results_def list_actuators_def)
  next
    case (ListScopes xs)
    then show ?thesis using assms scopes [of "filter (\<lambda>x. ms_uuid x = u) xs"]
      by (auto simp: list_consistent_def find_results_def list_scopes_def msg_targets)
  qed (use assms in \<open>auto simp: list_consistent_def find_results_def list_sensors_def list_slices_def msg_targets\<close>)
qed

lemma added_object:
  assumes "add_consistent x"
  shows "add_type x = NRM_MSG_TARGET_TYPE_ACTUATOR \<Longrightarrow> \<exists>y. add_actuator x = Inr (Some y) \<and> actuator_msg_consistent y \<and> (added_kind x \<noteq> -1 \<longrightarrow> ma_type y = added_kind x)"
    and "add_type x = NRM_MSG_TARGET_TYPE_SCOPE \<Longrightarrow> \<exists>y. add_scope x = Inr (Some y)"
    and "add_type x = NRM_MSG_TARGET_TYPE_SENSOR \<Longrightarrow> \<exists>y. add_sensor x = Inr (Some y)"
    and "add_type x = NRM_MSG_TARGET_TYPE_SLICE \<Longrightarrow> \<exists>y. add_slice x = Inr (Some y)"
  using assms by (cases "add_data x"; simp add: add_consistent_def union_reads msg_targets added_kind_def)+

lemma finish_add_actuator:
  assumes a: "actuator_shape a" and r: "msg_consistent r" "msg_kind r = (NRM_MSG_TYPE_ADD, NRM_MSG_TARGET_TYPE_ACTUATOR, act_type a)"
  shows "\<exists>res. api_finish (CallAddActuator a) (Some r) = Inr res"
proof -
  obtain x where x: "add_reply NRM_MSG_TARGET_TYPE_ACTUATOR (Some r) = Inr x" "add_type x = NRM_MSG_TARGET_TYPE_ACTUATOR" "added_kind x = act_type a" "add_consistent x"
    using kind_add [OF r(2,1)] by blast
  have "act_type a \<noteq> -1" using a by (auto simp: actuator_shape_def actuator_consts)
  then obtain y where y: "add_actuator x = Inr (Some y)" "actuator_msg_consistent y" "ma_type y = act_type a"
    using added_object(1) [OF x(4,2)] x(3) by auto
  then show ?thesis using update_same_type [OF a y(2,3)] x(1) by auto
qed

lemma finish_add:
  assumes "msg_consistent r"
  shows "msg_kind r = (NRM_MSG_TYPE_ADD, NRM_MSG_TARGET_TYPE_SCOPE, 0) \<Longrightarrow> scope_wf s \<Longrightarrow> \<exists>res. api_finish (CallAddScope s) (Some r) = Inr res"
    and "msg_kind r = (NRM_MSG_TYPE_ADD, NRM_MSG_TARGET_TYPE_SENSOR, 0) \<Longrightarrow> \<exists>res. api_finish (CallAddSensor n) (Some r) = Inr res"
    and "msg_kind r = (NRM_MSG_TYPE_ADD, NRM_MSG_TARGET_TYPE_SLICE, 0) \<Longrightarrow> \<exists>res. api_finish (CallAddSlice l) (Some r) = Inr res"
proof -
  show "\<exists>res. api_finish (CallAddScope s) (Some r) = Inr res" if k: "msg_kind r = (NRM_MSG_TYPE_ADD, NRM_MSG_TARGET_TYPE_SCOPE, 0)" and s: "scope_wf s"
  proof -
    obtain x y where "add_reply NRM_MSG_TARGET_TYPE_SCOPE (Some r) = Inr x" "add_scope x = Inr (Some y)"
      using kind_add [OF k assms] added_object(2) by blast
    then show ?thesis using scope_wf_set_arrays [OF s, of y] by (auto simp: nrm_scope_update_frommsg_def)
  qed
  show "\<exists>res. api_finish (CallAddSensor n) (Some r) = Inr res" if k: "msg_kind r = (NRM_MSG_TYPE_ADD, NRM_MSG_TARGET_TYPE_SENSOR, 0)"
    using kind_add [OF k assms] added_object(3) by fastforce
  show "\<exists>res. api_finish (CallAddSlice l) (Some r) = Inr res" if k: "msg_kind r = (NRM_MSG_TYPE_ADD, NRM_MSG_TARGET_TYPE_SLICE, 0)"
    using kind_add [OF k assms] added_object(4) by fastforce
qed

lemma finish_list:
  assumes r: "msg_consistent r" "msg_kind r = (NRM_MSG_TYPE_LIST, t, 0)" and t: "0 \<le> t" "t < NRM_MSG_TARGET_TYPE_MAX"
  shows "\<exists>res. api_finish (CallFind t u) (Some r) = Inr res"
    "t = NRM_MSG_TARGET_TYPE_ACTUATOR \<Longrightarrow> \<exists>res. api_finish CallListActuators (Some r) = Inr res"
    "t = NRM_MSG_TARGET_TYPE_SCOPE \<Longrightarrow> \<exists>res. api_finish CallListScopes (Some r) = Inr res"
    "t = NRM_MSG_TARGET_TYPE_SENSOR \<Longrightarrow> \<exists>res. api_finish CallListSensors (Some r) = Inr res"
    "t = NRM_MSG_TARGET_TYPE_SLICE \<Longrightarrow> \<exists>res. api_finish CallListSlices (Some r) = Inr res"
proof -
  obtain l where l: "list_reply t (Some r) = Inr l" "list_type l = t" "list_consistent l" using kind_list [OF r(2,1)] by blast
  note o = list_objects [OF l(3,2) t]
  show "\<exists>res. api_finish (CallFind t u) (Some r) = Inr res" using l(1) o(1) [of u] by auto
  show "t = NRM_MSG_TARGET_TYPE_ACTUATOR \<Longrightarrow> \<exists>res. api_finish CallListActuators (Some r) = Inr res" using l(1) o(2) by fastforce
  show "t = NRM_MSG_TARGET_TYPE_SCOPE \<Longrightarrow> \<exists>res. api_finish CallListScopes (Some r) = Inr res" using l(1) o(3) by fastforce
  show "t = NRM_MSG_TARGET_TYPE_SENSOR \<Longrightarrow> \<exists>res. api_finish CallListSensors (Some r) = Inr res" using l(1) o(4) by fastforce
  show "t = NRM_MSG_TARGET_TYPE_SLICE \<Longrightarrow> \<exists>res. api_finish CallListSlices (Some r) = Inr res" using l(1) o(5) by fastforce
qed

lemma request_due:
  assumes "api_sends a" "api_request a = Inr (Some m)"
  shows "due m = (case a of
       CallActuate _ _ \<Rightarrow> (NRM_MSG_TYPE_ACK, 0, 0) | CallTick \<Rightarrow> (NRM_MSG_TYPE_ACK, 0, 0)
     | CallAddActuator x \<Rightarrow> (NRM_MSG_TYPE_ADD, NRM_MSG_TARGET_TYPE_ACTUATOR, act_type x)
     | CallAddScope _ \<Rightarrow> (NRM_MSG_TYPE_ADD, NRM_MSG_TARGET_TYPE_SCOPE, 0)
     | CallAddSensor _ \<Rightarrow> (NRM_MSG_TYPE_ADD, NRM_MSG_TARGET_TYPE_SENSOR, 0)
     | CallAddSlice _ \<Rightarrow> (NRM_MSG_TYPE_ADD, NRM_MSG_TARGET_TYPE_SLICE, 0)
     | CallListActuators \<Rightarrow> (NRM_MSG_TYPE_LIST, NRM_MSG_TARGET_TYPE_ACTUATOR, 0)
     | CallListScopes \<Rightarrow> (NRM_MSG_TYPE_LIST, NRM_MSG_TARGET_TYPE_SCOPE, 0)
     | CallListSensors \<Rightarrow> (NRM_MSG_TYPE_LIST, NRM_MSG_TARGET_TYPE_SENSOR, 0)
     | CallListSlices \<Rightarrow> (NRM_MSG_TYPE_LIST, NRM_MSG_TARGET_TYPE_SLICE, 0)
     | CallFind t _ \<Rightarrow> (NRM_MSG_TYPE_LIST, t, 0))"
proof -
  have find: "due m = (NRM_MSG_TYPE_LIST, t, 0)" if "find_request t = Inr (Some m)" "0 \<le> t" "t < NRM_MSG_TARGET_TYPE_MAX" for t
    using find_request_ok [OF that(2,3)] that(1) by (auto simp: due_def)
  note b = msg_set_def nrm_msg_add_new_def filled_eq bindE_eq_Inr due_def msg_types
  show ?thesis
  proof (cases a)
    case (CallAddActuator x)
    then obtain y where "nrm_msg_actuator_new (Some x) = Inr y" "m = \<lparr>msg_type = NRM_MSG_TYPE_ADD, msg_data = DataAdd \<lparr>add_type = NRM_MSG_TARGET_TYPE_ACTUATOR, add_data = AddActuator y\<rparr>\<rparr>"
      using assms by (auto simp: b nrm_msg_set_add_actuator_def)
    then show ?thesis using assms CallAddActuator actuator_new_type [of x y] by (auto simp: due_def actuator_shape_def)
  qed (use assms find in \<open>auto simp: b msg_targets NRM_MSG_TARGET_TYPE_MAX_def nrm_msg_set_actuate_def nrm_msg_actuate_new_def
      nrm_msg_set_add_scope_def nrm_msg_set_add_sensor_def nrm_msg_set_add_slice_def\<close>)
qed

lemma finish_ok:
  assumes a: "api_sends a" "api_request a = Inr (Some m)" and r: "msg_consistent r" "msg_kind r = due m"
  shows "\<exists>res. api_finish a (Some r) = Inr res"
proof (cases a)
  case (CallActuate x v)
  then show ?thesis using request_due [OF a] r(2) kind_ack [of r] by simp
next
  case CallTick
  then show ?thesis using request_due [OF a] r(2) kind_ack [of r] by simp
next
  case (CallAddActuator x)
  then show ?thesis using request_due [OF a] r a(1) finish_add_actuator [of x r] by simp
next
  case (CallAddScope x)
  then show ?thesis using request_due [OF a] r a(1) finish_add(1) [OF r(1)] by simp
next
  case (CallFind t u)
  then show ?thesis using request_due [OF a] r a(1) finish_list(1) [OF r(1)] by simp
qed (use request_due [OF a] r(2) finish_add(2,3) [OF r(1)] finish_list(2-5) [OF r(1)] in simp_all)


section \<open>What a run has handled\<close>

text \<open>The last message of a client, and what was handled before it.\<close>

lemma msgs_from_last:
  assumes "msgs_from i is = ms @ [m]"
  shows "\<exists>is1 is2. is = is1 @ IMsg (Some m) (Some i) # is2 \<and> msgs_from i is1 = ms \<and> msgs_from i is2 = []"
  using assms
proof (induction "is" rule: rev_induct)
  case (snoc x xs)
  show ?case
  proof (cases "x = IMsg (Some m) (Some i)")
    case True
    then show ?thesis using snoc.prems by (intro exI [of _ xs] exI [of _ "[]"]) simp
  next
    case False
    then have "msgs_from i [x] = [] \<or> (\<exists>m'. m' \<noteq> m \<and> msgs_from i [x] = [m'])"
      by (cases x) (auto simp: msgs_from_def split: option.splits)
    then have "msgs_from i [x] = []" "msgs_from i xs = ms @ [m]" using snoc.prems by auto
    then obtain is1 is2 where "xs = is1 @ IMsg (Some m) (Some i) # is2" "msgs_from i is1 = ms" "msgs_from i is2 = []" using snoc.IH by blast
    then show ?thesis using \<open>msgs_from i [x] = []\<close> by (intro exI [of _ is1] exI [of _ "is2 @ [x]"]) simp
  qed
qed simp

lemma prefix_around: "prefix xs (ys @ y # zs) \<Longrightarrow> prefix xs ys \<or> prefix (ys @ [y]) xs"
  using prefix_same_cases [of xs "ys @ y # zs" "ys @ [y]"] by (auto simp: prefix_snoc)

lemma reply_count:
  assumes "list_all (out_typed False) out" "answers out = concat (map asked is)"
  shows "length (filter is_reply (sends_to i out)) = length (filter asks (msgs_from i is))"
  using arg_cong [OF own_answers [of i out], of length] arg_cong [OF own_questions [of i "is"], of length] sent_replies [OF assms(1), of i] assms(2)
  by simp

context answering_server
begin

lemma start_extends:
  assumes "nrm_server_start cb raw is s = Inr s'" "good s" "list_all admissible is"
  shows "\<exists>rest. srv_out s' = srv_out s @ rest"
  using assms
proof (induction "is" arbitrary: s)
  case (Cons j js)
  obtain ret s1 out where h: "server_handle cb raw j s = Inr (ret, s1)" "good s1" "srv_out s1 = srv_out s @ out" using handled [of s j] Cons.prems by auto
  then show ?case using Cons.IH [of s1] Cons.prems by (auto split: if_splits)
qed simp

lemma start_split:
  assumes "nrm_server_start cb raw (is1 @ x # is2) s = Inr s2" "good s" "list_all admissible (is1 @ x # is2)" "\<not> list_ex ends is1"
  shows "\<exists>s1 ret s1' out0 out rest. nrm_server_start cb raw is1 s = Inr s1 \<and> good s1 \<and> server_handle cb raw x s1 = Inr (ret, s1')
     \<and> srv_out s1 = srv_out s @ out0 \<and> list_all (out_typed False) out0 \<and> answers out0 = concat (map asked is1)
     \<and> srv_out s1' = srv_out s1 @ out \<and> list_all (out_typed False) out \<and> answers out = asked x \<and> srv_out s2 = srv_out s1' @ rest"
  using assms
proof (induction is1 arbitrary: s)
  case Nil
  obtain ret s1 out where h: "server_handle cb raw x s = Inr (ret, s1)" "good s1" "srv_out s1 = srv_out s @ out" "list_all (out_typed False) out" "answers out = asked x"
    using handled [of s x] Nil.prems by auto
  moreover have "\<exists>rest. srv_out s2 = srv_out s1 @ rest"
    using start_extends [of is2 s1 s2] h(1,2) Nil.prems(1,3) by (auto split: if_splits)
  ultimately show ?case using Nil.prems(2) by auto
next
  case (Cons j js)
  obtain ret t out where h: "server_handle cb raw j s = Inr (ret, t)" "good t" "ret \<noteq> -1" "srv_out t = srv_out s @ out" "list_all (out_typed False) out" "answers out = asked j"
    using handled [of s j] Cons.prems by auto
  then show ?case using Cons.IH [of t] Cons.prems by (auto simp: answers_def)
qed

lemma ends_last:
  assumes "net_reach env (net_start env s0) n" and "ne_cb env = cb" "ne_raw env = raw" "wire_ok env" "good s0" "srv_out s0 = []"
  shows "\<not> list_ex ends (butlast (net_inputs n))"
  using assms
proof (induction rule: net_reach.induct)
  case (act n a n')
  obtain q where "net_inv good env s0 n q" using reach_inv [OF act.hyps(1)] act.prems by blast
  then have "net_running n \<longleftrightarrow> \<not> list_ex ends (net_inputs n)" by (simp add: net_inv_def accounted_def)
  then show ?case using act.hyps(2,3) act.IH [OF act.prems] by (cases a) (auto simp: bindE_eq_Inr net_serve_def butlast_append split: list.splits)
qed (simp add: net_start_def)

end


section \<open>One call among all\<close>

definition idle :: "'u network \<Rightarrow> string \<Rightarrow> bool" where
  "idle n i \<longleftrightarrow> length (net_got n i) = length (filter asks (net_sent n i))"

text \<open>The moment at which a request takes effect: what was handled before it, and the one reply that the server sends because of it.\<close>

definition takes_effect :: "'u net_env \<Rightarrow> 'u nrm_server \<Rightarrow> server_in list \<Rightarrow> server_in list \<Rightarrow> string \<Rightarrow> nrm_msg \<Rightarrow> nrm_msg \<Rightarrow> bool" where
  "takes_effect env s0 before inputs i m r \<longleftrightarrow>
     (\<exists>is1 is2 s1 ret s1' r0. inputs = is1 @ IMsg (Some (received env m)) (Some i) # is2 \<and> prefix before is1
        \<and> nrm_server_start (ne_cb env) (ne_raw env) is1 s0 = Inr s1
        \<and> server_handle (ne_cb env) (ne_raw env) (IMsg (Some (received env m)) (Some i)) s1 = Inr (ret, s1')
        \<and> filter is_reply (sends_to i (drop (length (srv_out s1)) (srv_out s1'))) = [r0] \<and> msg_consistent r0 \<and> r = received env r0)"

lemma got_consistent:
  assumes inv: "net_inv good env s0 n q" and w: "wire_ok env" and r: "net_reach env (net_start env s0) n" and i: "i \<in> set (ne_ids env)"
  shows "list_all msg_consistent (net_got n i)"
proof -
  have "list_all (out_typed False) (srv_out (net_server n))" using inv by (simp add: net_inv_def accounted_def)
  from sent_consistent [OF this] have "list_all msg_consistent (filter is_reply (map (received env) (sends_to i (srv_out (net_server n)))))"
    using wire(2) [OF w] by (auto simp: list_all_iff)
  then show ?thesis using set_mono_prefix [OF inv_safe(2) [OF inv w r i]] by (auto simp: list_all_iff)
qed

lemma idle_reply:
  assumes inv: "net_inv good env s0 n2 q" and w: "wire_ok env" and r: "net_reach env (net_start env s0) n2" and i: "i \<in> set (ne_ids env)"
    and n: "idle n i" "net_sent n2 i = net_sent n i @ [m]" "asks m" and got: "net_got n2 i = net_got n i @ x # xs"
  shows "xs = []" "msg_consistent x" "msg_kind x = due m"
proof -
  have p: "prefix (map msg_kind (net_got n i @ x # xs)) (map due (filter asks (net_sent n i)) @ [due m])"
    using inv_safe(3) [OF inv w r i] n got by simp
  from prefix_length_le [OF this] have "length xs = 0" using n(1) by (simp add: idle_def)
  then show xs: "xs = []" by simp
  show "msg_consistent x" using got_consistent [OF inv w r i] got by simp
  have "map msg_kind (net_got n i) @ [msg_kind x] = map due (filter asks (net_sent n i)) @ [due m]"
    using p xs n(1) by (auto simp: idle_def prefix_def)
  then show "msg_kind x = due m" by simp
qed

text \<open>A request whose reply has arrived was handled, as the last of its client and after everything that had been handled when it was sent.\<close>

lemma reply_handled:
  assumes inv: "net_inv good env s0 n2 q" "net_inv good env s0 n q0" and w: "wire_ok env"
    and r: "net_reach env (net_start env s0) n2" "net_reach env (net_start env s0) n" and i: "i \<in> set (ne_ids env)"
    and n: "idle n i" "net_sent n2 i = net_sent n i @ [m]" "asks m" "prefix (net_inputs n) (net_inputs n2)"
    and got: "length (net_got n2 i) = length (net_got n i) + 1"
  shows "\<exists>is1 is2. net_inputs n2 = is1 @ IMsg (Some (received env m)) (Some i) # is2 \<and> prefix (net_inputs n) is1
     \<and> msgs_from i is1 = map (received env) (net_sent n i)"
proof -
  let ?A = "map (received env) (net_sent n i)"
  have c: "list_all msg_consistent (net_sent n i)" using sent_benign [OF r(2), of i] by (simp add: list_all_iff)
  have "length (net_got n2 i) \<le> length (filter asks (msgs_from i (net_inputs n2)))"
    using prefix_length_le [OF inv_safe(2) [OF inv(1) w r(1) i]] arg_cong [OF replies_due [OF inv(1) w, of i], of length] by simp
  moreover have "length (filter asks ?A) = length (net_got n i)"
    using arg_cong [OF received_filter(3) [OF w c], of length] n(1) by (simp add: idle_def)
  moreover have "length (filter asks (msgs_from i (net_inputs n2))) \<le> length (filter asks ?A)" if "prefix (msgs_from i (net_inputs n2)) ?A"
    using filter_mono_prefix [OF that, of asks] by (rule prefix_length_le)
  ultimately have "\<not> prefix (msgs_from i (net_inputs n2)) ?A" using got by linarith
  then have "msgs_from i (net_inputs n2) = ?A @ [received env m]" using inv_safe(1) [OF inv(1) w r(1) i] n(2) by simp
  then obtain is1 is2 where s: "net_inputs n2 = is1 @ IMsg (Some (received env m)) (Some i) # is2" "msgs_from i is1 = ?A" by (blast dest: msgs_from_last)
  have "prefix (net_inputs n) is1"
  proof (rule ccontr)
    assume "\<not> prefix (net_inputs n) is1"
    then have "prefix (is1 @ [IMsg (Some (received env m)) (Some i)]) (net_inputs n)"
      using prefix_around [of "net_inputs n" is1] n(4) s(1) by auto
    then obtain js where "net_inputs n = is1 @ IMsg (Some (received env m)) (Some i) # js" by (auto simp: prefix_def)
    then have "msgs_from i (net_inputs n) = ?A @ [received env m] @ msgs_from i js" using s(2) by (simp add: msgs_from_def)
    then show False using prefix_length_le [OF inv_safe(1) [OF inv(2) w r(2) i]] by simp
  qed
  with s show ?thesis by blast
qed

lemma reply_moment:
  assumes start: "nrm_server_start (ne_cb env) (ne_raw env) is1 s0 = Inr s1" "server_handle (ne_cb env) (ne_raw env) x s1 = Inr (ret, s1')"
    and out: "srv_out s1 = out0" "list_all (out_typed False) out0" "answers out0 = concat (map asked is1)"
      "srv_out s1' = srv_out s1 @ out" "list_all (out_typed False) out" "answers out = asked x" "srv_out s2 = srv_out s1' @ rest"
    and x: "x = IMsg (Some (received env m)) (Some i)" "asks (received env m)" and w: "wire_ok env"
    and pre: "prefix (gs @ [r]) (filter is_reply (map (received env) (sends_to i (srv_out s2))))" "length (filter asks (msgs_from i is1)) = length gs"
  shows "\<exists>r0. filter is_reply (sends_to i (drop (length (srv_out s1)) (srv_out s1'))) = [r0] \<and> msg_consistent r0 \<and> r = received env r0"
proof -
  have l0: "length (filter is_reply (map (received env) (sends_to i out0))) = length gs"
    using reply_count [OF out(2,3), of i] pre(2) received_filter(1) [OF w sent_consistent [OF out(2), of i]] by simp
  have "length (filter is_reply (sends_to i out)) = 1" using reply_count [OF out(5), of "[x]" i] out(6) x by simp
  then obtain r0 where r0: "filter is_reply (sends_to i out) = [r0]" by (auto simp: length_Suc_conv)
  then have "r0 \<in> set (sends_to i out)" by (metis filter_is_subset list.set_intros(1) subsetD)
  then have "msg_consistent r0" using sent_consistent [OF out(5), of i] by (simp add: list_all_iff)
  have "filter is_reply (map (received env) (sends_to i (srv_out s2))) = filter is_reply (map (received env) (sends_to i out0)) @ received env r0
      # filter is_reply (map (received env) (sends_to i rest))"
    using out(1,4,7) r0 received_filter(1) [OF w sent_consistent [OF out(5), of i]] by simp
  then have "r = received env r0" using pre(1) l0 by (auto simp: prefix_def)
  then show ?thesis using r0 out(4) \<open>msg_consistent r0\<close> by simp
qed

context answering_server
begin

lemma call_takes_effect:
  assumes env: "ne_cb env = cb" "ne_raw env = raw" "wire_ok env" and s0: "good s0" "srv_out s0 = []"
    and r: "net_reach env (net_start env s0) n" "net_reach env (net_start env s0) n2" and i: "i \<in> set (ne_ids env)"
    and n: "idle n i" "net_sent n2 i = net_sent n i @ [m]" "asks m" "msg_consistent m" "prefix (net_inputs n) (net_inputs n2)"
    and got: "net_got n2 i = net_got n i @ [x]"
  shows "takes_effect env s0 (net_inputs n) (net_inputs n2) i m x"
proof -
  obtain q where q: "net_inv good env s0 n q" using reach_inv [OF r(1) env s0] by blast
  obtain q2 where q2: "net_inv good env s0 n2 q2" using reach_inv [OF r(2) env s0] by blast
  obtain is1 is2 where s: "net_inputs n2 = is1 @ IMsg (Some (received env m)) (Some i) # is2" "prefix (net_inputs n) is1"
      "msgs_from i is1 = map (received env) (net_sent n i)"
    using reply_handled [OF q2 q env(3) r(2,1) i n(1-3,5)] got by auto
  have "\<not> list_ex ends is1" using ends_last [OF r(2) env s0] s(1) by (simp add: butlast_append)
  moreover have "nrm_server_start cb raw (net_inputs n2) s0 = Inr (net_server n2)" "list_all admissible (net_inputs n2)"
    using q2 env by (simp_all add: net_inv_def accounted_def)
  ultimately obtain s1 ret s1' out0 out rest where h: "nrm_server_start cb raw is1 s0 = Inr s1"
      "server_handle cb raw (IMsg (Some (received env m)) (Some i)) s1 = Inr (ret, s1')" "srv_out s1 = out0" "list_all (out_typed False) out0"
      "answers out0 = concat (map asked is1)" "srv_out s1' = srv_out s1 @ out" "list_all (out_typed False) out"
      "answers out = asked (IMsg (Some (received env m)) (Some i))" "srv_out (net_server n2) = srv_out s1' @ rest"
    using start_split [of is1 "IMsg (Some (received env m)) (Some i)" is2 s0 "net_server n2"] s(1) s0 by auto
  have c: "list_all msg_consistent (net_sent n i)" using sent_benign [OF r(1), of i] by (simp add: list_all_iff)
  have "length (filter asks (msgs_from i is1)) = length (net_got n i)"
    using arg_cong [OF received_filter(3) [OF env(3) c], of length] n(1) s(3) by (simp add: idle_def)
  moreover have "asks (received env m)" using n(3,4) wire(4) [OF env(3)] by (simp add: asks_def)
  moreover have "prefix (net_got n i @ [x]) (filter is_reply (map (received env) (sends_to i (srv_out (net_server n2)))))"
    using inv_safe(2) [OF q2 env(3) r(2) i] got by simp
  ultimately have "\<exists>r0. filter is_reply (sends_to i (drop (length (srv_out s1)) (srv_out s1'))) = [r0] \<and> msg_consistent r0 \<and> x = received env r0"
    using reply_moment [OF h(1,2) [folded env(1,2)] h(3-9) refl _ env(3)] by blast
  then show ?thesis unfolding takes_effect_def env(1,2) using s(1,2) h(1,2) by blast
qed

end

lemma send_ok:
  assumes "i \<in> set (ne_ids env)" "benign m"
  shows "\<exists>n1. net_do env (ASend i m) n = Inr n1 \<and> enabled env (ASend i m) n \<and> net_sent n1 i = net_sent n i @ [m] \<and> net_got n1 = net_got n
     \<and> net_inputs n1 = net_inputs n"
  using assms by (simp add: client_send_eq)

lemma api_run_reply:
  assumes "api_sends a" "api_request a = Inr (Some m)" "api_finish a (Some r) = Inr res" "client_send (Some m) c = Inr c1" "client_recv c1 = Inr (Some r, c2)"
  shows "api_run a c = Inr (0, Some c2, res)"
  using assms by (simp add: api_run_split client_call_def)

lemma nrmd_main_good:
  assumes "nrm_scope_hwloc_scopes topo [] = Inr (err, scopes)" "map_of scopes ''nrm.hwloc.Machine.0'' \<noteq> None" "config_fits scopes config"
    and "nrmd_main fexp topo clock config True (Some uri) freq = Inr (s0, period)"
  shows "nrmd_good s0" "srv_out s0 = []"
proof -
  obtain sc where "map_of scopes ''nrm.hwloc.Machine.0'' = Some sc" using assms(2) by blast
  then show "nrmd_good s0" "srv_out s0 = []" using nrmd_main_starts [OF assms(1) _ assms(3), of sc fexp clock uri freq] assms(4) by auto
qed

lemma nrmd_call_reply:
  assumes env: "ne_cb env = nrmd_callbacks fexp flog" "wire_ok env" and s0: "nrmd_good s0" "srv_out s0 = []"
    and run: "net_reach env (net_start env s0) n" and i: "i \<in> set (ne_ids env)" "idle n i" and a: "api_sends a" "api_request a = Inr (Some m)"
    and n1: "net_do env (ASend i m) n = Inr n1" and n2: "net_reach env n1 n2" "net_sent n2 i = net_sent n1 i"
  shows "net_reach env (net_start env s0) n2" "\<exists>rs. net_got n2 i = net_got n i @ rs" "net_done env n2 \<Longrightarrow> net_running n2 \<Longrightarrow> net_got n2 i \<noteq> net_got n i"
    and "net_got n2 i = net_got n i @ x # xs \<Longrightarrow> xs = [] \<and> takes_effect env s0 (net_inputs n) (net_inputs n2) i m x
      \<and> msg_consistent x \<and> msg_kind x = due m \<and> (\<exists>res. api_finish a (Some x) = Inr res)"
proof -
  have m: "benign m" "asks m" using request_ok [OF a(1)] a(2) by auto
  have n1': "enabled env (ASend i m) n" "net_sent n1 i = net_sent n i @ [m]" "net_got n1 = net_got n" "net_inputs n1 = net_inputs n"
    using send_ok [OF i(1) m(1), of n] n1 by auto
  show r: "net_reach env (net_start env s0) n2" by (rule reach_trans [OF n2(1) net_reach.act [OF run n1'(1) n1]])
  show "\<exists>rs. net_got n2 i = net_got n i @ rs" using reach_extends(3) [OF n2(1), of i] n1'(3) by (auto simp: prefix_def)
  obtain q where q: "net_inv nrmd_good env s0 n2 q" using nrmd_reach_inv [OF r env s0] by blast
  have sent: "net_sent n2 i = net_sent n i @ [m]" using n2(2) n1'(2) by simp
  show "net_got n2 i \<noteq> net_got n i" if "net_done env n2" "net_running n2"
    using arg_cong [OF done_answered(2) [OF q env(2) r that i(1)], of length] sent m(2) i(2) by (auto simp: idle_def)
  assume g: "net_got n2 i = net_got n i @ x # xs"
  note x = idle_reply [OF q env(2) r i sent m(2) g]
  moreover have "takes_effect env s0 (net_inputs n) (net_inputs n2) i m x"
    using nrmd_net.net.call_takes_effect [of env fexp flog "ne_raw env" s0 n n2 i m x] env s0 run r i sent m x(1) g reach_extends(1) [OF n2(1)] n1'(4)
    by (simp add: nrmd_callbacks_def)
  ultimately show "xs = [] \<and> takes_effect env s0 (net_inputs n) (net_inputs n2) i m x
      \<and> msg_consistent x \<and> msg_kind x = due m \<and> (\<exists>res. api_finish a (Some x) = Inr res)"
    using finish_ok [OF a x(2,3)] by blast
qed

text \<open>As long as nobody asks the daemon to stop, a call is answered when the threads have come to rest, and then everybody is idle.\<close>

definition calm :: "'u net_env \<Rightarrow> 'u network \<Rightarrow> bool" where
  "calm env n \<longleftrightarrow> (\<forall>k. ISignal k \<notin> set (net_inputs n)) \<and> (\<forall>i \<in> set (ne_ids env). \<forall>m \<in> set (net_sent n i). msg_type m \<noteq> NRM_MSG_TYPE_EXIT)"

lemma nrmd_call_completes:
  assumes env: "ne_cb env = nrmd_callbacks fexp flog" "wire_ok env" and s0: "nrmd_good s0" "srv_out s0 = []"
    and run: "net_reach env (net_start env s0) n" "calm env n" and i: "i \<in> set (ne_ids env)" "idle n i" and a: "api_sends a"
  shows "\<exists>m n1 n2 r. api_request a = Inr (Some m) \<and> net_do env (ASend i m) n = Inr n1 \<and> net_reach env n1 n2 \<and> net_sent n2 i = net_sent n1 i
     \<and> net_got n2 i = net_got n i @ [r] \<and> net_reach env (net_start env s0) n2 \<and> calm env n2 \<and> (\<forall>j \<in> set (ne_ids env). idle n2 j)"
proof -
  obtain m where m: "api_request a = Inr (Some m)" "benign m" "asks m" using request_ok [OF a] by blast
  obtain n1 where n1: "net_do env (ASend i m) n = Inr n1" "enabled env (ASend i m) n" using send_ok [OF i(1) m(2), of n] by blast
  have r1: "net_reach env (net_start env s0) n1" by (rule net_reach.act [OF run(1) n1(2,1)])
  obtain q where "net_inv nrmd_good env s0 n1 q" using nrmd_reach_inv [OF r1 env s0] by blast
  then obtain n2 where n2: "(net_move env)\<^sup>*\<^sup>* n1 n2" "net_done env n2"
    using nrmd_net.net.moves_end(2) [of env s0 n1 q fexp flog "ne_raw env"] env by (auto simp: nrmd_callbacks_def)
  note kept = moves_keep [OF n2(1)]
  have reach: "net_reach env n1 n2" by (rule reach_moves [OF n2(1) net_reach.start])
  have r2: "net_reach env (net_start env s0) n2" by (rule reach_trans [OF reach r1])
  have "msg_type m \<noteq> NRM_MSG_TYPE_EXIT" using m(1) a request_due [OF a m(1)] by (cases a)
      (auto simp: due_def msg_types filled_eq nrm_actuator_uuid_def nrm_msg_set_actuate_def nrm_msg_actuate_new_def msg_set_def split: if_splits)
  then have calm: "calm env n2" using run(2) kept n1(1) i(1) by (auto simp: calm_def client_send_eq split: if_splits)
  obtain q2 where q2: "net_inv nrmd_good env s0 n2 q2" using nrmd_reach_inv [OF r2 env s0] by blast
  have running: "net_running n2" using stopped_by_client [OF q2 env(2) r2] calm by (auto simp: calm_def)
  have idle: "idle n2 j" if "j \<in> set (ne_ids env)" for j
    using arg_cong [OF done_answered(2) [OF q2 env(2) r2 n2(2) running that], of length] by (simp add: idle_def)
  note call = nrmd_call_reply [OF env s0 run(1) i a m(1) n1(1) reach]
  obtain rs where rs: "net_got n2 i = net_got n i @ rs" using call(2) kept(1) by auto
  moreover have "rs \<noteq> []" using call(3) n2(2) running rs kept(1) by auto
  ultimately obtain r where "net_got n2 i = net_got n i @ [r]" using call(4) kept(1) by (cases rs) auto
  moreover have "net_sent n2 i = net_sent n1 i" using kept(1) by simp
  ultimately show ?thesis using m(1) n1(1) reach r2 calm idle by blast
qed


section \<open>Properties\<close>

text \<open>
  C2. A call of the client API returns, and as if it had happened at once: let any number of clients run against the daemon, in any
  interleaving and without removals, and let one of them that waits for no other reply make a call of \<open>nrm_client_actuate\<close>, of one of the four functions that
  add, of the four that list, of \<open>nrm_client_find\<close> or of \<open>nrm_client_send_tick\<close> (all those that wait for a reply, but for the
  removals), with a value the actuator accepts and arguments as the constructors make them.  The request is sent.  From then on, whatever the other threads do, the client gets no message
  but the reply to this request, on which the function passes all its assertions and returns 0; and the reply is the one that the daemon
  gives from the state it is in at one moment after the call was made and before it returns, having handled everything that was handled when the call
  was made.  When all threads have come to rest and the daemon runs, the reply is there.
\<close>

theorem nrm_client_call_linearizable:
  assumes topo: "nrm_scope_hwloc_scopes topo [] = Inr (err, scopes)" "map_of scopes ''nrm.hwloc.Machine.0'' \<noteq> None" "config_fits scopes config"
    and env: "ne_cb env = nrmd_callbacks fexp flog" "wire_ok env"
    and main: "nrmd_main fexp topo clock config True (Some uri) freq = Inr (s0, period)"
    and run: "net_reach env (net_start env s0) n" and i: "i \<in> set (ne_ids env)" "idle n i" and a: "api_sends a"
  shows "\<exists>m n1. api_request a = Inr (Some m) \<and> enabled env (ASend i m) n \<and> net_do env (ASend i m) n = Inr n1
     \<and> (\<forall>n2. net_reach env n1 n2 \<and> net_sent n2 i = net_sent n1 i \<longrightarrow>
          (net_got n2 i = net_got n i
           \<or> (\<exists>r res. net_got n2 i = net_got n i @ [r] \<and> takes_effect env s0 (net_inputs n) (net_inputs n2) i m r
                \<and> (\<forall>c c1 c2. client_send (Some m) c = Inr c1 \<and> client_recv c1 = Inr (Some r, c2) \<longrightarrow> api_run a c = Inr (0, Some c2, res))))
        \<and> (net_done env n2 \<and> net_running n2 \<longrightarrow> net_got n2 i \<noteq> net_got n i))"
proof -
  note s0 = nrmd_main_good [OF topo main]
  obtain m where m: "api_request a = Inr (Some m)" "benign m" using request_ok [OF a] by blast
  obtain n1 where n1: "net_do env (ASend i m) n = Inr n1" "enabled env (ASend i m) n" using send_ok [OF i(1) m(2), of n] by blast
  have "(net_got n2 i = net_got n i \<or> (\<exists>r res. net_got n2 i = net_got n i @ [r] \<and> takes_effect env s0 (net_inputs n) (net_inputs n2) i m r
        \<and> (\<forall>c c1 c2. client_send (Some m) c = Inr c1 \<and> client_recv c1 = Inr (Some r, c2) \<longrightarrow> api_run a c = Inr (0, Some c2, res))))
      \<and> (net_done env n2 \<and> net_running n2 \<longrightarrow> net_got n2 i \<noteq> net_got n i)" if n2: "net_reach env n1 n2" "net_sent n2 i = net_sent n1 i" for n2
  proof -
    note call = nrmd_call_reply [OF env s0 run i a m(1) n1(1) n2]
    obtain rs where rs: "net_got n2 i = net_got n i @ rs" using call(2) by blast
    show ?thesis
    proof (cases rs)
      case (Cons x xs)
      with rs call(4) have x: "xs = []" "takes_effect env s0 (net_inputs n) (net_inputs n2) i m x" "\<exists>res. api_finish a (Some x) = Inr res" by blast+
      then obtain res where "api_finish a (Some x) = Inr res" by blast
      moreover have "net_got n2 i = net_got n i @ [x]" "net_got n2 i \<noteq> net_got n i" using rs Cons x(1) by simp_all
      ultimately show ?thesis using x(2) api_run_reply [OF a m(1)] by blast
    qed (use rs call(3) in auto)
  qed
  then show ?thesis using m(1) n1 by blast
qed

theorem nrm_client_call_linearizable_witness:
  "\<exists>s0 period m n1 n2 r res. nrmd_main (\<lambda>x. x) one_machine (\<lambda>_. \<lparr>tv_sec = 0, tv_nsec = 0\<rparr>) None True (Some ''tcp'') (DFin 0) = Inr (s0, period)
     \<and> api_request CallListSensors = Inr (Some m)
     \<and> net_do (bare_env [''a'', ''b'']) (ASend ''a'' m) (net_start (bare_env [''a'', ''b'']) s0) = Inr n1 \<and> net_reach (bare_env [''a'', ''b'']) n1 n2
     \<and> net_got n2 ''a'' = [r] \<and> takes_effect (bare_env [''a'', ''b'']) s0 [] (net_inputs n2) ''a'' m r
     \<and> (\<forall>(c :: (unit, unit) nrm_client) c1 c2. client_send (Some m) c = Inr c1 \<and> client_recv c1 = Inr (Some r, c2) \<longrightarrow>
          api_run CallListSensors c = Inr (0, Some c2, res))"
proof -
  let ?env = "bare_env [''a'', ''b'']"
  obtain err scopes where t: "nrm_scope_hwloc_scopes one_machine [] = Inr (err, scopes)" "map_of scopes ''nrm.hwloc.Machine.0'' \<noteq> None"
    using one_machine_known by blast
  have c: "config_fits scopes None" by simp
  obtain s0 period where main: "nrmd_main (\<lambda>x. x) one_machine (\<lambda>_. \<lparr>tv_sec = 0, tv_nsec = 0\<rparr>) None True (Some ''tcp'') (DFin 0) = Inr (s0, period)"
    using one_machine_starts by blast
  have env: "ne_cb ?env = nrmd_callbacks (\<lambda>x. x) (\<lambda>x. x)" "''a'' \<in> set (ne_ids ?env)" by (simp_all add: bare_env_def)
  have n: "net_reach ?env (net_start ?env s0) (net_start ?env s0)" "idle (net_start ?env s0) ''a''" "calm ?env (net_start ?env s0)"
    by (simp_all add: net_reach.start idle_def calm_def net_start_def)
  have a: "api_sends CallListSensors" by simp
  obtain m n1 n2 r where call: "api_request CallListSensors = Inr (Some m)" "net_do ?env (ASend ''a'' m) (net_start ?env s0) = Inr n1" "net_reach ?env n1 n2"
      "net_sent n2 ''a'' = net_sent n1 ''a''" "net_got n2 ''a'' = net_got (net_start ?env s0) ''a'' @ [r]"
    using nrmd_call_completes [OF env(1) bare_wire nrmd_main_good [OF t c main] n(1,3) env(2) n(2) a] by blast
  from nrm_client_call_linearizable [OF t c env(1) bare_wire main n(1) env(2) n(2) a] call
  have "\<exists>res. takes_effect ?env s0 (net_inputs (net_start ?env s0)) (net_inputs n2) ''a'' m r
      \<and> (\<forall>(c :: (unit, unit) nrm_client) c1 c2. client_send (Some m) c = Inr c1 \<and> client_recv c1 = Inr (Some r, c2) \<longrightarrow> api_run CallListSensors c = Inr (0, Some c2, res))"
    by fastforce
  moreover have "net_inputs (net_start ?env s0) = []" "net_got (net_start ?env s0) ''a'' = []" by (simp_all add: net_start_def)
  ultimately show ?thesis using main call by auto
qed

end
