(* ===== verification/NRM_Lookup.thy ===== *)
theory NRM_Lookup
  imports NRM_Session
begin

text \<open>
  What one client adds, every client finds.

  \<open>names\<close> are the uuids of one table of the daemon (src/state.c), \<open>msg_names\<close> those in a message and \<open>found_names\<close> those in what a call of
  the API gives back.  Without a REMOVE, which no client that keeps to the protocol can send, no handler of the server takes a name away, and the
  daemon's callbacks touch the tables only to store the values of actuators; so the names in the tables grow along every run.  With the moments at which the calls take
  effect, from the theory of the calls, it follows that an addition that has returned is seen by every later list and search of any client.
\<close>

section \<open>Names\<close>

definition names :: "int \<Rightarrow> nrm_state \<Rightarrow> string set" where
  "names t st =
     (if t = NRM_MSG_TARGET_TYPE_ACTUATOR then fst ` set (st_actuators st)
      else if t = NRM_MSG_TARGET_TYPE_SCOPE then fst ` set (st_scopes st)
      else if t = NRM_MSG_TARGET_TYPE_SENSOR then fst ` set (st_sensors st)
      else if t = NRM_MSG_TARGET_TYPE_SLICE then fst ` set (st_slices st)
      else {})"

definition known_kind :: "nrm_msg_actuator \<Rightarrow> bool" where
  "known_kind x \<longleftrightarrow> ma_type x \<in> {NRM_ACTUATOR_TYPE_DISCRETE, NRM_ACTUATOR_TYPE_CONTINUOUS}"

definition list_names :: "nrm_msg_list \<Rightarrow> string list" where
  "list_names l = (case list_data l of
       ListNone \<Rightarrow> [] | ListSlices xs \<Rightarrow> map msl_uuid xs | ListSensors xs \<Rightarrow> map msn_uuid xs
     | ListScopes xs \<Rightarrow> map ms_uuid xs | ListActuators xs \<Rightarrow> map ma_uuid (filter known_kind xs))"

definition add_names :: "nrm_msg_add \<Rightarrow> string list" where
  "add_names a = (case add_data a of
       AddNone \<Rightarrow> [] | AddSlice x \<Rightarrow> [msl_uuid x] | AddSensor x \<Rightarrow> [msn_uuid x] | AddScope x \<Rightarrow> [ms_uuid x] | AddActuator x \<Rightarrow> [ma_uuid x])"

definition msg_names :: "nrm_msg \<Rightarrow> string list" where
  "msg_names m = (case msg_data m of DataList l \<Rightarrow> list_names l | DataAdd a \<Rightarrow> add_names a | _ \<Rightarrow> [])"

definition option_names :: "('a \<Rightarrow> string) \<Rightarrow> 'a option list \<Rightarrow> string set" where
  "option_names f xs = {f x |x. Some x \<in> set xs}"

fun found_names :: "found \<Rightarrow> string set" where
  "found_names (FoundActuators xs) = option_names act_uuid xs"
| "found_names (FoundScopes xs) = option_names scope_uuid xs"
| "found_names (FoundSensors xs) = option_names sensor_uuid xs"
| "found_names (FoundSlices xs) = option_names slice_uuid xs"

lemma option_names_simps [simp]:
  "option_names f [] = {}" "option_names f (Some x # xs) = insert (f x) (option_names f xs)" "option_names f (None # xs) = option_names f xs"
  by (auto simp: option_names_def)


section \<open>The tables only grow\<close>

definition knows :: "int \<Rightarrow> string \<Rightarrow> 'u nrm_server \<Rightarrow> bool" where
  "knows t u s \<longleftrightarrow> u \<in> names t (srv_state s)"

lemma knows_updates [simp]:
  "knows t u (s\<lparr>srv_out := out\<rparr>) = knows t u s" "knows t u (s\<lparr>srv_user := usr\<rparr>) = knows t u s"
  "knows t u (s\<lparr>srv_state := st\<rparr>) \<longleftrightarrow> u \<in> names t st"
  by (simp_all add: knows_def)

lemma hash_add_names: "fst ` set (snd (nrm_hash_add True h u v)) = insert u (fst ` set h)"
  by (force simp: nrm_hash_add_map_of map_of_eq_None_iff)

lemma alist_update_names [simp]: "fst ` set (alist_update k f h) = fst ` set h"
  by (metis list.set_map map_fst_alist_update)

lemma names_updates [simp]:
  "names t (st\<lparr>st_actuators := snd (nrm_hash_add True (st_actuators st) u a)\<rparr>) = names t st \<union> {x. x = u \<and> t = NRM_MSG_TARGET_TYPE_ACTUATOR}"
  "names t (st\<lparr>st_scopes := snd (nrm_hash_add True (st_scopes st) u sc)\<rparr>) = names t st \<union> {x. x = u \<and> t = NRM_MSG_TARGET_TYPE_SCOPE}"
  "names t (st\<lparr>st_sensors := snd (nrm_hash_add True (st_sensors st) u sn)\<rparr>) = names t st \<union> {x. x = u \<and> t = NRM_MSG_TARGET_TYPE_SENSOR}"
  "names t (st\<lparr>st_slices := snd (nrm_hash_add True (st_slices st) u sl)\<rparr>) = names t st \<union> {x. x = u \<and> t = NRM_MSG_TARGET_TYPE_SLICE}"
  "names t (st\<lparr>st_actuators := alist_update u f (st_actuators st)\<rparr>) = names t st"
  by (auto simp: names_def hash_add_names msg_targets)

lemma send_knows: "srv_send m to s = Inr s' \<Longrightarrow> knows t u s' = knows t u s"
  by (cases m) (auto simp: srv_send_def)

lemma reply_knows: "server_reply c (ret, s) = Inr (r, s') \<Longrightarrow> knows t u s' = knows t u s"
  by (auto simp: server_reply_def bindE_eq_Inr dest: send_knows split: if_splits)

lemma do_actuate_knows: "server_do_actuate uuid v s = Inr s' \<Longrightarrow> knows t u s' = knows t u s"
  by (auto simp: server_do_actuate_def bindE_eq_Inr Let_def knows_def [of _ _ s] dest!: send_knows [where t = t and u = u] split: option.splits)

lemma actuate_knows: "nrm_server_actuate uuid v s = Inr (r, s') \<Longrightarrow> knows t u s' = knows t u s"
  by (auto simp: nrm_server_actuate_def bindE_eq_Inr dest: do_actuate_knows split: option.splits)

lemma publish_knows: "nrm_server_publish topic now n sc v (Some s) = Inr (r, Some s') \<Longrightarrow> knows t u s' = knows t u s"
  by (auto simp: nrm_server_publish_def srv_pub_def bindE_eq_Inr split: option.splits)

lemma actuator_set_clientid_uuid: "nrm_actuator_set_clientid a c = Inr (r, a') \<Longrightarrow> act_uuid a' = act_uuid (the a)"
  by (auto simp: nrm_actuator_set_clientid_def bindE_eq_Inr split: option.splits)

lemma create_frommsg_uuid: "nrm_actuator_create_frommsg (Some m) = Inr (Some a) \<Longrightarrow> act_uuid a = ma_uuid m"
  using create_frommsg_shape by blast

lemma add_knows:
  "nrm_server_add_actuator c (Some x) s = Inr (ret, s') \<Longrightarrow> knows t u s' \<longleftrightarrow> knows t u s \<or> t = NRM_MSG_TARGET_TYPE_ACTUATOR \<and> u = ma_uuid x"
  "nrm_server_add_scope (Some sc) s = Inr (ret, s') \<Longrightarrow> knows t u s' \<longleftrightarrow> knows t u s \<or> t = NRM_MSG_TARGET_TYPE_SCOPE \<and> u = ms_uuid sc"
  "nrm_server_add_sensor (Some sn) s = Inr (ret, s') \<Longrightarrow> knows t u s' \<longleftrightarrow> knows t u s \<or> t = NRM_MSG_TARGET_TYPE_SENSOR \<and> u = msn_uuid sn"
  "nrm_server_add_slice (Some sl) s = Inr (ret, s') \<Longrightarrow> knows t u s' \<longleftrightarrow> knows t u s \<or> t = NRM_MSG_TARGET_TYPE_SLICE \<and> u = msl_uuid sl"
proof -
  assume "nrm_server_add_actuator c (Some x) s = Inr (ret, s')"
  then obtain a where "nrm_actuator_create_frommsg (Some x) = Inr (Some a)"
    "srv_state s' = (srv_state s)\<lparr>st_actuators := snd (nrm_hash_add True (st_actuators (srv_state s)) (act_uuid a) (a\<lparr>act_clientid := c\<rparr>))\<rparr>"
    by (auto simp: nrm_server_add_actuator_def nrm_actuator_set_clientid_def nrm_state_add_actuator_def nrm_actuator_uuid_def bindE_eq_Inr Let_def
        split: if_splits option.splits)
  then show "knows t u s' \<longleftrightarrow> knows t u s \<or> t = NRM_MSG_TARGET_TYPE_ACTUATOR \<and> u = ma_uuid x"
    using create_frommsg_uuid [of x a] by (auto simp: knows_def)
next
  assume r: "nrm_server_add_scope (Some sc) s = Inr (ret, s')"
  obtain b where "nrm_scope_create_frommsg (Some sc) = Inr (Some b)" "scope_uuid b = ms_uuid sc" using nrm_scope_create_frommsg_wf by blast
  with r show "knows t u s' \<longleftrightarrow> knows t u s \<or> t = NRM_MSG_TARGET_TYPE_SCOPE \<and> u = ms_uuid sc"
    by (auto simp: nrm_server_add_scope_def nrm_state_add_scope_def bindE_eq_Inr Let_def knows_def [of _ _ s])
next
  assume "nrm_server_add_sensor (Some sn) s = Inr (ret, s')"
  then show "knows t u s' \<longleftrightarrow> knows t u s \<or> t = NRM_MSG_TARGET_TYPE_SENSOR \<and> u = msn_uuid sn"
    by (auto simp: nrm_server_add_sensor_def nrm_state_add_sensor_def nrm_sensor_create_frommsg_def nrm_sensor_create_def bindE_eq_Inr Let_def knows_def [of _ _ s])
next
  assume "nrm_server_add_slice (Some sl) s = Inr (ret, s')"
  then show "knows t u s' \<longleftrightarrow> knows t u s \<or> t = NRM_MSG_TARGET_TYPE_SLICE \<and> u = msl_uuid sl"
    by (auto simp: nrm_server_add_slice_def nrm_state_add_slice_def nrm_slice_create_frommsg_def nrm_slice_create_def bindE_eq_Inr Let_def knows_def [of _ _ s])
qed

lemma add_callback_knows:
  assumes r: "nrm_server_add_callback c (Some a) s = Inr (r, s')" and a: "add_consistent a"
  shows "knows t u s' \<longleftrightarrow> knows t u s \<or> t = add_type a \<and> u \<in> set (add_names a)"
proof (cases "add_data a")
  case (AddActuator x)
  then obtain ret s1 where "nrm_server_add_actuator c (Some x) s = Inr (ret, s1)" "server_reply c (ret, s1) = Inr (r, s')"
    using r a by (auto simp: nrm_server_add_callback_def add_consistent_def union_reads bindE_eq_Inr)
  then show ?thesis using AddActuator a add_knows(1) reply_knows by (fastforce simp: add_consistent_def add_names_def)
next
  case (AddScope x)
  then obtain ret s1 where "nrm_server_add_scope (Some x) s = Inr (ret, s1)" "server_reply c (ret, s1) = Inr (r, s')"
    using r a by (auto simp: nrm_server_add_callback_def add_consistent_def union_reads msg_targets bindE_eq_Inr)
  then show ?thesis using AddScope a add_knows(2) reply_knows by (fastforce simp: add_consistent_def add_names_def)
next
  case (AddSensor x)
  then obtain ret s1 where "nrm_server_add_sensor (Some x) s = Inr (ret, s1)" "server_reply c (ret, s1) = Inr (r, s')"
    using r a by (auto simp: nrm_server_add_callback_def add_consistent_def union_reads msg_targets bindE_eq_Inr)
  then show ?thesis using AddSensor a add_knows(3) reply_knows by (fastforce simp: add_consistent_def add_names_def)
next
  case (AddSlice x)
  then obtain ret s1 where "nrm_server_add_slice (Some x) s = Inr (ret, s1)" "server_reply c (ret, s1) = Inr (r, s')"
    using r a by (auto simp: nrm_server_add_callback_def add_consistent_def union_reads msg_targets bindE_eq_Inr)
  then show ?thesis using AddSlice a add_knows(4) reply_knows by (fastforce simp: add_consistent_def add_names_def)
qed (use a in \<open>simp add: add_consistent_def\<close>)

lemma list_callback_knows: "nrm_server_list_callback c l s = Inr (r, s') \<Longrightarrow> knows t u s' = knows t u s"
  by (auto simp: nrm_server_list_callback_def bindE_eq_Inr dest: reply_knows split: if_splits)

text \<open>Users of the server whose callbacks take no name away.\<close>

locale naming_user =
  fixes event :: "'u nrm_server \<Rightarrow> string \<Rightarrow> nrm_scope option \<Rightarrow> nrm_time \<Rightarrow> double \<Rightarrow> (int \<times> 'u nrm_server) exec"
    and actuate :: "'u nrm_server \<Rightarrow> nrm_actuator \<Rightarrow> double \<Rightarrow> (int \<times> 'u nrm_server) exec"
    and timer :: "'u nrm_server \<Rightarrow> (int \<times> 'u nrm_server) exec"
    and tick :: "'u nrm_server \<Rightarrow> (int \<times> 'u nrm_server) exec"
  assumes event_knows: "event s n sc w v = Inr (r, s') \<Longrightarrow> knows t u s \<Longrightarrow> knows t u s'"
    and user_actuate_knows: "actuate s a v = Inr (r, s') \<Longrightarrow> knows t u s \<Longrightarrow> knows t u s'"
    and timer_knows: "timer s = Inr (r, s') \<Longrightarrow> knows t u s \<Longrightarrow> knows t u s'"
    and tick_knows: "tick s = Inr (r, s') \<Longrightarrow> knows t u s \<Longrightarrow> knows t u s'"
begin

abbreviation cbs :: "'u nrm_server_user_callbacks" where
  "cbs \<equiv> all_callbacks event actuate None timer tick"

lemma events_knows:
  assumes r: "nrm_server_events_callback cbs m s = Inr (r, s')" and s: "knows t u s"
  shows "knows t u s'"
proof -
  from r obtain series where f: "foldE (server_timeserie cbs) series s = Inr s'" by (auto simp: nrm_server_events_callback_def bindE_eq_Inr)
  show ?thesis
  proof (rule foldE_invariant [OF f, where P = "knows t u"])
    fix ts s s' assume s: "knows t u s" and "server_timeserie cbs ts s = Inr s'"
    then obtain n scope where f: "foldE (server_event cbs n scope) (mt_events ts) s = Inr s'" by (auto simp: server_timeserie_def bindE_eq_Inr)
    show "knows t u s'"
      by (rule foldE_invariant [OF f, where P = "knows t u"]) (use s in \<open>auto simp: server_event_def all_callbacks_def bindE_eq_Inr dest: event_knows\<close>)
  qed (rule s)
qed

lemma handle_knows:
  assumes r: "server_handle cbs raw i s = Inr (r, s')" and s: "knows t u s" and i: "admissible i"
  shows "knows t u s'"
proof (cases i)
  case (IMsg x c)
  then obtain m where m: "x = Some m" "benign m" using i by (cases x; cases c) auto
  have act: "nrm_server_actuate_callback cbs c y s = Inr (r, s') \<Longrightarrow> knows t u s'" for y
    using s by (fastforce simp: nrm_server_actuate_callback_def all_callbacks_def bindE_eq_Inr Let_def dest: user_actuate_knows
        do_actuate_knows [where t = t and u = u] split: option.splits if_splits)
  have tick: "nrm_server_tick_callback cbs c s = Inr (r, s') \<Longrightarrow> knows t u s'"
    using s by (auto simp: nrm_server_tick_callback_def all_callbacks_def bindE_eq_Inr dest: tick_knows)
  have add: "nrm_server_add_callback c (Some a) s = Inr (r, s') \<Longrightarrow> add_consistent a \<Longrightarrow> knows t u s'" for a
    using s add_callback_knows by blast
  show ?thesis
    using r s IMsg m by (cases "msg_data m")
      (auto simp: server_handle_def nrm_server_role_callback_def nrm_server_exit_callback_def benign_def msg_consistent_def union_reads msg_types bindE_eq_Inr
        list_callback_knows dest: act tick add events_knows split: if_splits)
next
  case (ISignal k)
  then show ?thesis using r s by (auto simp: server_handle_def nrm_server_signal_callback_def all_callbacks_def)
next
  case ITimer
  then show ?thesis using r s by (auto simp: server_handle_def nrm_server_timer_callback_def all_callbacks_def dest: timer_knows)
qed

lemma start_knows:
  assumes "nrm_server_start cbs raw is s = Inr s'" "knows t u s" "list_all admissible is"
  shows "knows t u s'"
  using assms by (induction "is" arbitrary: s) (auto simp: bindE_eq_Inr dest: handle_knows split: if_splits)

end

lemma control_tick_knows:
  assumes r: "nrmd_control_tick fexp flog s = Inr (r, s')" and s: "knows t u s"
  shows "knows t u s'"
proof -
  obtain outs s3 s4 where f: "foldE nrmd_actuate_output outs s3 = Inr s4" "srv_state s3 = srv_state s" "srv_state s' = srv_state s4"
    by (rule control_tick_actuates [OF r])
  have "knows t u s4"
    by (rule foldE_invariant [OF f(1), where P = "knows t u"])
      (use s f(2) in \<open>auto simp: knows_def nrmd_actuate_output_def bindE_eq_Inr dest: actuate_knows [unfolded knows_def]\<close>)
  then show ?thesis using f(3) by (simp add: knows_def)
qed

interpretation nrmd_names: naming_user nrmd_event_callback nrmd_actuate_callback "nrmd_timer_callback fexp flog" "nrmd_tick_callback fexp flog"
  for fexp flog
proof unfold_locales
  fix s n sc w v r s' t u
  assume "nrmd_event_callback s n sc w v = Inr (r, s')" "knows t u s"
  then show "knows t u s'" by (auto simp: nrmd_event_callback_def bindE_eq_Inr Let_def dest!: publish_knows [where t = t and u = u])
next
  fix s :: nrmd_server and r s' t u
  assume r: "nrmd_timer_callback fexp flog s = Inr (r, s')" and s: "knows t u s"
  obtain now s1 where g: "nrmd_gettime s = (now, s1)" by fastforce
  then have "knows t u s1" using s gettime_keeps(1) [of s] by (simp add: knows_def)
  with r g show "knows t u s'"
    by (auto simp: nrmd_timer_callback_def bindE_eq_Inr dest!: publish_knows [where t = t and u = u] dest: control_tick_knows split: if_splits)
next
  fix s r s' t u
  assume "nrmd_tick_callback fexp flog s = Inr (r, s')" "knows t u s"
  then show "knows t u s'" by (auto simp: nrmd_tick_callback_def bindE_eq_Inr dest: control_tick_knows split: if_splits)
qed (simp add: nrmd_actuate_callback_def)


section \<open>Additions, lists and searches\<close>

fun adds_name :: "api_call \<Rightarrow> int \<Rightarrow> string \<Rightarrow> bool" where
  "adds_name (CallAddActuator a) t u = (t = NRM_MSG_TARGET_TYPE_ACTUATOR \<and> u = act_uuid a)"
| "adds_name (CallAddScope s) t u = (t = NRM_MSG_TARGET_TYPE_SCOPE \<and> u = scope_uuid s)"
| "adds_name (CallAddSensor n) t u = (t = NRM_MSG_TARGET_TYPE_SENSOR \<and> u = sensor_uuid n)"
| "adds_name (CallAddSlice l) t u = (t = NRM_MSG_TARGET_TYPE_SLICE \<and> u = slice_uuid l)"
| "adds_name _ t u = False"

fun looks_up :: "api_call \<Rightarrow> int \<Rightarrow> string \<Rightarrow> bool" where
  "looks_up CallListActuators t u = (t = NRM_MSG_TARGET_TYPE_ACTUATOR)"
| "looks_up CallListScopes t u = (t = NRM_MSG_TARGET_TYPE_SCOPE)"
| "looks_up CallListSensors t u = (t = NRM_MSG_TARGET_TYPE_SENSOR)"
| "looks_up CallListSlices t u = (t = NRM_MSG_TARGET_TYPE_SLICE)"
| "looks_up (CallFind t' u') t u = (t' = t \<and> u' = u)"
| "looks_up _ t u = False"

text \<open>The protocol buffers keep the names too.\<close>

definition wire_names :: "'u net_env \<Rightarrow> bool" where
  "wire_names env \<longleftrightarrow> (\<forall>m. msg_consistent m \<longrightarrow> msg_names (received env m) = msg_names m)"

lemma actuator_new_uuid: "nrm_msg_actuator_new (Some a) = Inr m \<Longrightarrow> ma_uuid m = act_uuid a"
  by (auto simp: nrm_msg_actuator_new_def Let_def bindE_eq_Inr split: if_splits)

lemma adds_request:
  assumes "adds_name a t u" "api_sends a" "api_request a = Inr (Some m)"
  shows "\<exists>k. msg_kind m = (NRM_MSG_TYPE_ADD, t, k)" "msg_names m = [u]"
proof -
  note b = msg_set_def nrm_msg_add_new_def filled_eq bindE_eq_Inr msg_names_def add_names_def
  have "(\<exists>k. msg_kind m = (NRM_MSG_TYPE_ADD, t, k)) \<and> msg_names m = [u]"
  proof (cases a)
    case (CallAddActuator x)
    then show ?thesis using assms by (auto simp: b nrm_msg_set_add_actuator_def dest: actuator_new_uuid)
  next
    case (CallAddScope x)
    then show ?thesis using assms nrm_msg_scope_new_ok [of x] by (auto simp: b nrm_msg_set_add_scope_def scope_to_msg_def)
  next
    case (CallAddSensor x)
    then show ?thesis using assms by (auto simp: b nrm_msg_set_add_sensor_def nrm_msg_sensor_new_def)
  next
    case (CallAddSlice x)
    then show ?thesis using assms by (auto simp: b nrm_msg_set_add_slice_def nrm_msg_slice_new_def)
  qed (use assms in simp_all)
  then show "\<exists>k. msg_kind m = (NRM_MSG_TYPE_ADD, t, k)" "msg_names m = [u]" by blast+
qed

lemma add_handled:
  assumes m: "msg_kind m = (NRM_MSG_TYPE_ADD, t, k)" "u \<in> set (msg_names m)" "msg_consistent m"
    and h: "server_handle cb raw (IMsg (Some m) c) s = Inr (ret, s')"
  shows "knows t u s'"
proof -
  obtain a where a: "msg_type m = NRM_MSG_TYPE_ADD" "msg_data m = DataAdd a" "add_type a = t" "add_consistent a"
    using m by (cases "msg_data m") (auto simp: msg_kind_def msg_consistent_def msg_types)
  then have "nrm_server_add_callback c (Some a) s = Inr (ret, s')"
    using h by (simp add: server_handle_def nrm_server_role_callback_def union_reads msg_types)
  from add_callback_knows [OF this a(4), of t u] show ?thesis using a m(2) by (simp add: msg_names_def)
qed

lemma listing_names:
  assumes st: "state_wf st" and l: "listing st t d" and t: "0 \<le> t" "t < NRM_MSG_TARGET_TYPE_MAX"
  shows "set (list_names \<lparr>list_type = t, list_data = d\<rparr>) = names t st"
proof (cases "t = NRM_MSG_TARGET_TYPE_ACTUATOR")
  case True
  then obtain ms where d: "d = ListActuators ms" and ms: "list_all2 (\<lambda>(_, a) m. nrm_msg_actuator_new (Some a) = Inr m) (st_actuators st) ms"
    using l by (auto simp: listing_def msg_targets)
  have ok: "\<forall>(k, a) \<in> set (st_actuators st). act_uuid a = k \<and> actuator_shape a" using st by (simp add: state_wf_def table_wf_def)
  have "map ma_uuid (filter known_kind ms) = map fst (st_actuators st)"
    using ms ok by (induction rule: list_all2_induct) (auto simp: known_kind_def actuator_shape_def dest: actuator_new_uuid actuator_new_type)
  from arg_cong [OF this, of set] show ?thesis using True d by (simp add: list_names_def names_def)
next
  case False
  have "\<forall>x \<in> set (st_scopes st). scope_uuid (snd x) = fst x" using st by (auto simp: state_wf_def table_wf_def)
  then have "(\<lambda>x. ms_uuid (scope_to_msg (snd x))) ` set (st_scopes st) = fst ` set (st_scopes st)"
    by (intro image_cong) (simp_all add: scope_to_msg_def)
  then show ?thesis using target_cases [OF t] l False
    by (elim disjE) (simp_all add: listing_def list_names_def names_def msg_targets image_image case_prod_unfold)
qed

lemma list_handled:
  assumes m: "msg_kind m = (NRM_MSG_TYPE_LIST, t, 0)" "msg_consistent m" and t: "0 \<le> t" "t < NRM_MSG_TARGET_TYPE_MAX" and s: "server_wf s"
    and h: "server_handle cb raw (IMsg (Some m) (Some i)) s = Inr (ret, s')"
    and r: "filter is_reply (sends_to i (drop (length (srv_out s)) (srv_out s'))) = [r]"
  shows "set (msg_names r) = names t (srv_state s)"
proof -
  obtain l where l: "msg_type m = NRM_MSG_TYPE_LIST" "msg_data m = DataList l" "list_type l = t"
    using m by (cases "msg_data m") (auto simp: msg_kind_def msg_consistent_def msg_types)
  then have "m = \<lparr>msg_type = NRM_MSG_TYPE_LIST, msg_data = DataList l\<rparr>" by simp
  moreover have "list_type l \<in> {NRM_MSG_TARGET_TYPE_SLICE, NRM_MSG_TARGET_TYPE_SENSOR, NRM_MSG_TARGET_TYPE_SCOPE, NRM_MSG_TARGET_TYPE_ACTUATOR}"
    using target_cases [OF t] l(3) by auto
  ultimately obtain d where d: "s' = s\<lparr>srv_out := srv_out s @ [OSend \<lparr>msg_type = NRM_MSG_TYPE_LIST, msg_data = DataList \<lparr>list_type = t, list_data = d\<rparr>\<rparr> (Some i)]\<rparr>"
      "listing (srv_state s) t d"
    using list_callback_reply [OF s, of l "Some i"] h l(3) by (auto simp: server_handle_def role_callback_dispatch)
  then have "r = \<lparr>msg_type = NRM_MSG_TYPE_LIST, msg_data = DataList \<lparr>list_type = t, list_data = d\<rparr>\<rparr>" using r by (simp split: if_splits)
  then show ?thesis using listing_names [OF _ d(2) t] s by (simp add: msg_names_def server_wf_def)
qed

text \<open>What a call gives back has the names in the reply.\<close>

lemma created_names:
  assumes "mapE (\<lambda>x. nrm_actuator_create_frommsg (Some x)) xs = Inr ys"
  shows "option_names act_uuid ys = set (map ma_uuid (filter known_kind xs))"
  using assms
proof (induction xs arbitrary: ys)
  case (Cons x xs)
  then obtain y zs where y: "nrm_actuator_create_frommsg (Some x) = Inr y" and zs: "mapE (\<lambda>x. nrm_actuator_create_frommsg (Some x)) xs = Inr zs" "ys = y # zs"
    by (auto simp: bindE_eq_Inr)
  show ?case
  proof (cases y)
    case None
    then have "\<not> known_kind x" using y by (auto simp: nrm_actuator_create_frommsg_def known_kind_def bindE_eq_Inr split: if_splits)
    then show ?thesis using None zs Cons.IH by simp
  next
    case (Some a)
    then have "known_kind x" using y by (auto simp: nrm_actuator_create_frommsg_def known_kind_def split: if_splits)
    then show ?thesis using Some zs Cons.IH y create_frommsg_uuid [of x a] by simp
  qed
qed simp

lemma created_scope_names:
  assumes "mapE (\<lambda>x. nrm_scope_create_frommsg (Some x)) xs = Inr ys"
  shows "option_names scope_uuid ys = set (map ms_uuid xs)"
  using assms
proof (induction xs arbitrary: ys)
  case (Cons x xs)
  obtain a where "nrm_scope_create_frommsg (Some x) = Inr (Some a)" "scope_uuid a = ms_uuid x" using nrm_scope_create_frommsg_wf by blast
  then show ?case using Cons by (auto simp: bindE_eq_Inr)
qed simp

lemma simple_names:
  "option_names sensor_uuid (map (\<lambda>x. nrm_sensor_create_frommsg (Some x)) xs) = set (map msn_uuid xs)"
  "option_names slice_uuid (map (\<lambda>x. nrm_slice_create_frommsg (Some x)) ys) = set (map msl_uuid ys)"
proof -
  show "option_names sensor_uuid (map (\<lambda>x. nrm_sensor_create_frommsg (Some x)) xs) = set (map msn_uuid xs)"
    by (induction xs) (simp_all add: nrm_sensor_create_frommsg_def nrm_sensor_create_def)
  show "option_names slice_uuid (map (\<lambda>x. nrm_slice_create_frommsg (Some x)) ys) = set (map msl_uuid ys)"
    by (induction ys) (simp_all add: nrm_slice_create_frommsg_def nrm_slice_create_def)
qed

lemma finish_finds:
  assumes l: "looks_up l t u" "api_sends l" and r: "msg_consistent r" "msg_kind r = (NRM_MSG_TYPE_LIST, t, 0)" "u \<in> set (msg_names r)"
    and f: "api_finish l (Some r) = Inr res"
  shows "\<exists>f. res = ResFound f \<and> u \<in> found_names f"
proof -
  obtain x where x: "msg_type r = NRM_MSG_TYPE_LIST" "msg_data r = DataList x" "list_type x = t" "list_consistent x"
    using r by (cases "msg_data r") (auto simp: msg_kind_def msg_consistent_def msg_types)
  then have reply: "list_reply t (Some r) = Inr x" by (simp add: list_reply_def union_reads)
  have u: "u \<in> set (list_names x)" using r(3) x(2) by (simp add: msg_names_def)
  note c = list_consistent_def list_names_def msg_targets union_reads find_results_def bindE_eq_Inr
  show ?thesis
  proof (cases "list_data x")
    case (ListActuators xs)
    then have t: "t = NRM_MSG_TARGET_TYPE_ACTUATOR" using x by (simp add: list_consistent_def)
    then show ?thesis using l f reply u ListActuators
      by (cases l) (auto simp: c created_names dest!: created_names)
  next
    case (ListScopes xs)
    then have t: "t = NRM_MSG_TARGET_TYPE_SCOPE" using x by (simp add: list_consistent_def)
    then show ?thesis using l f reply u ListScopes
      by (cases l) (auto simp: c dest!: created_scope_names)
  next
    case (ListSensors xs)
    then have t: "t = NRM_MSG_TARGET_TYPE_SENSOR" using x by (simp add: list_consistent_def)
    then show ?thesis using l f reply u ListSensors
      by (cases l) (auto simp: c simple_names)
  next
    case (ListSlices xs)
    then have t: "t = NRM_MSG_TARGET_TYPE_SLICE" using x by (simp add: list_consistent_def)
    then show ?thesis using l f reply u ListSlices
      by (cases l) (auto simp: c simple_names)
  qed (use x in \<open>simp add: list_consistent_def\<close>)
qed

context answering_server
begin

lemma start_good:
  assumes "nrm_server_start cb raw is s = Inr s'" "good s" "list_all admissible is"
  shows "good s'"
  using assms
proof (induction "is" arbitrary: s)
  case (Cons j js)
  obtain ret s1 where h: "server_handle cb raw j s = Inr (ret, s1)" "good s1" using handled [of s j] Cons.prems by auto
  then show ?case using Cons.IH [of s1] Cons.prems by (auto split: if_splits)
qed simp

lemma start_append:
  assumes "good s" "list_all admissible is" "\<not> list_ex ends is"
  shows "nrm_server_start cb raw (is @ js) s = bindE (nrm_server_start cb raw is s) (nrm_server_start cb raw js)"
  using assms
proof (induction "is" arbitrary: s)
  case (Cons j js)
  obtain ret s1 where h: "server_handle cb raw j s = Inr (ret, s1)" "good s1" "ret \<noteq> -1" using handled [of s j] Cons.prems by auto
  then show ?case using Cons.IH [of s1] Cons.prems by simp
qed simp

end

text \<open>Once a call that adds a name has taken effect, the server knows the name at every later moment.\<close>

lemma effect_kept:
  assumes env: "ne_cb env = nrmd_callbacks fexp flog" "wire_ok env" "wire_names env" and s0: "nrmd_good s0"
    and m: "adds_name a t u" "api_sends a" "api_request a = Inr (Some m)" and e: "takes_effect env s0 before inputs i m r"
    and js: "prefix inputs js" "list_all admissible js" "\<not> list_ex ends js" and s: "nrm_server_start (ne_cb env) (ne_raw env) js s0 = Inr s"
  shows "knows t u s"
proof -
  obtain is1 is2 s1 ret s1' where h: "inputs = is1 @ IMsg (Some (received env m)) (Some i) # is2" "nrm_server_start (ne_cb env) (ne_raw env) is1 s0 = Inr s1"
      "server_handle (ne_cb env) (ne_raw env) (IMsg (Some (received env m)) (Some i)) s1 = Inr (ret, s1')"
    using e by (auto simp: takes_effect_def)
  obtain ks where ks: "js = is1 @ IMsg (Some (received env m)) (Some i) # ks" using js(1) h(1) by (auto simp: prefix_def)
  have c: "msg_consistent m" using request_ok [OF m(2)] m(3) by auto
  obtain k where k: "msg_kind (received env m) = (NRM_MSG_TYPE_ADD, t, k)" using adds_request(1) [OF m] wire(3) [OF env(2) c] by auto
  have "knows t u s1'"
    using add_handled [OF k _ wire(2) [OF env(2) c] h(3)] adds_request(2) [OF m] env(3) c by (simp add: wire_names_def)
  moreover have "nrm_server_start (ne_cb env) (ne_raw env) (IMsg (Some (received env m)) (Some i) # ks) s1 = Inr s"
    using nrmd_net.net.start_append [of s0 is1 fexp flog "ne_raw env" "IMsg (Some (received env m)) (Some i) # ks"] s0 js s h(2) ks env(1)
    by (simp add: nrmd_callbacks_def)
  ultimately show ?thesis
    using nrmd_names.start_knows [of fexp flog "ne_raw env" ks s1' s t u] h(3) js(2) ks env(1) by (auto simp: nrmd_callbacks_def split: if_splits)
qed

lemma effect_listed:
  assumes env: "ne_cb env = nrmd_callbacks fexp flog" "wire_ok env" "wire_names env" and s0: "nrmd_good s0"
    and l: "looks_up l t u" "api_sends l" "api_request l = Inr (Some k)" and e: "takes_effect env s0 before inputs j k r"
    and js: "list_all admissible inputs"
    and known: "\<And>js s. prefix before js \<Longrightarrow> strict_prefix js inputs \<Longrightarrow> nrm_server_start (ne_cb env) (ne_raw env) js s0 = Inr s \<Longrightarrow> knows t u s"
  shows "u \<in> set (msg_names r)"
proof -
  obtain is1 is2 s1 ret s1' r0 where h: "inputs = is1 @ IMsg (Some (received env k)) (Some j) # is2" "prefix before is1"
      "nrm_server_start (ne_cb env) (ne_raw env) is1 s0 = Inr s1"
      "server_handle (ne_cb env) (ne_raw env) (IMsg (Some (received env k)) (Some j)) s1 = Inr (ret, s1')"
      "filter is_reply (sends_to j (drop (length (srv_out s1)) (srv_out s1'))) = [r0]" "msg_consistent r0" "r = received env r0"
    using e by (auto simp: takes_effect_def)
  have "knows t u s1" by (rule known [OF h(2) _ h(3)]) (simp add: h(1) strict_prefix_def)
  have wf: "server_wf s1"
    using nrmd_net.net.start_good [of fexp flog "ne_raw env" is1 s0 s1] h(1,3) s0 js env(1) by (simp add: nrmd_callbacks_def)
  have c: "msg_consistent k" using request_ok [OF l(2)] l(3) by auto
  have t: "0 \<le> t" "t < NRM_MSG_TARGET_TYPE_MAX" and d: "due k = (NRM_MSG_TYPE_LIST, t, 0)"
    using l(1,2) request_due [OF l(2,3)] by (cases l; simp)+
  then have kind: "msg_kind (received env k) = (NRM_MSG_TYPE_LIST, t, 0)" using wire(3) [OF env(2) c] by (simp add: due_def msg_types split: if_splits)
  have "set (msg_names r0) = names t (srv_state s1)" by (rule list_handled [OF kind wire(2) [OF env(2) c] t wf h(4,5)])
  then show ?thesis using \<open>knows t u s1\<close> env(3) h(6,7) by (simp add: wire_names_def knows_def)
qed


section \<open>A wire that keeps the names\<close>

text \<open>For the witness: a message is sent as its place among the messages of all kinds and its names.\<close>

definition encode_names :: "string list \<Rightarrow> string" where
  "encode_names us = concat (map (\<lambda>u. concat (map (\<lambda>c. [CHR ''x'', c]) u) @ [CHR ''y'']) us)"

fun decode_names :: "string \<Rightarrow> string \<Rightarrow> string list" where
  "decode_names u [] = []"
| "decode_names u [c] = [u]"
| "decode_names u (c # d # cs) = (if c = CHR ''x'' then decode_names (u @ [d]) cs else u # decode_names [] (d # cs))"

lemma decode_name: "decode_names v (concat (map (\<lambda>c. [CHR ''x'', c]) u) @ CHR ''y'' # cs) = (v @ u) # decode_names [] cs"
proof (induction u arbitrary: v)
  case Nil
  then show ?case by (cases cs) simp_all
qed simp

lemma decode_encode: "decode_names [] (encode_names us) = us"
  by (induction us) (simp_all add: encode_names_def decode_name)

definition rename :: "string list \<Rightarrow> nrm_msg \<Rightarrow> nrm_msg" where
  "rename us m = m\<lparr>msg_data := (case msg_data m of
       DataList l \<Rightarrow> DataList (l\<lparr>list_data := (case list_data l of
           ListSlices _ \<Rightarrow> ListSlices (map (\<lambda>u. \<lparr>msl_uuid = u\<rparr>) us) | ListSensors _ \<Rightarrow> ListSensors (map (\<lambda>u. \<lparr>msn_uuid = u\<rparr>) us)
         | ListScopes _ \<Rightarrow> ListScopes (map (\<lambda>u. \<lparr>ms_uuid = u, ms_cpus = [], ms_numas = [], ms_gpus = []\<rparr>) us)
         | ListActuators _ \<Rightarrow> ListActuators (map (\<lambda>u. (bare_actuator NRM_ACTUATOR_TYPE_DISCRETE (ActDiscrete []))\<lparr>ma_uuid := u\<rparr>) us)
         | ListNone \<Rightarrow> ListNone)\<rparr>)
     | DataAdd a \<Rightarrow> DataAdd (a\<lparr>add_data := (case add_data a of
           AddSlice x \<Rightarrow> AddSlice (x\<lparr>msl_uuid := hd us\<rparr>) | AddSensor x \<Rightarrow> AddSensor (x\<lparr>msn_uuid := hd us\<rparr>) | AddScope x \<Rightarrow> AddScope (x\<lparr>ms_uuid := hd us\<rparr>)
         | AddActuator x \<Rightarrow> AddActuator (x\<lparr>ma_uuid := hd us\<rparr>) | AddNone \<Rightarrow> AddNone)\<rparr>)
     | d \<Rightarrow> d)\<rparr>"

lemma rename_kind: "msg_kind (rename us m) = msg_kind m"
  by (auto simp: rename_def msg_kind_def added_kind_def split: msg_data.splits add_data.splits)

lemma rename_consistent: "msg_consistent m \<Longrightarrow> msg_consistent (rename us m)"
  by (auto simp: rename_def msg_consistent_def list_consistent_def add_consistent_def bare_actuator_def actuator_msg_consistent_def
      split: msg_data.splits list_data.splits add_data.splits if_splits)

lemma rename_names:
  assumes "msg_kind m' = msg_kind m" "msg_consistent m" "msg_consistent m'"
  shows "msg_names (rename (msg_names m) m') = msg_names m"
proof (cases "msg_data m'")
  case (DataList l)
  then show ?thesis using assms
    by (cases "list_data l") (auto simp: rename_def msg_names_def list_names_def msg_kind_def msg_consistent_def list_consistent_def bare_actuator_def known_kind_def
        comp_def msg_types split: msg_data.splits)
next
  case (DataAdd a)
  then obtain b where "msg_data m = DataAdd b" "add_consistent b" using assms by (cases "msg_data m") (auto simp: msg_kind_def msg_consistent_def msg_types)
  then have "length (msg_names m) = 1" by (cases "add_data b") (simp_all add: msg_names_def add_names_def add_consistent_def)
  then obtain u where "msg_names m = [u]" by (auto simp: length_Suc_conv)
  then show ?thesis using DataAdd assms(3) by (cases "add_data a") (simp_all add: rename_def msg_names_def add_names_def msg_consistent_def add_consistent_def)
next
  case DataNone
  then show ?thesis using assms by (cases "msg_data m") (auto simp: rename_def msg_names_def msg_kind_def msg_consistent_def msg_types)
next
  case (DataRemove x)
  then show ?thesis using assms by (cases "msg_data m") (auto simp: rename_def msg_names_def msg_kind_def msg_consistent_def msg_types)
next
  case (DataEvents x)
  then show ?thesis using assms by (cases "msg_data m") (auto simp: rename_def msg_names_def msg_kind_def msg_consistent_def msg_types)
next
  case (DataActuate x)
  then show ?thesis using assms by (cases "msg_data m") (auto simp: rename_def msg_names_def msg_kind_def msg_consistent_def msg_types)
qed

definition names_env :: "string list \<Rightarrow> nrmd net_env" where
  "names_env ids = (bare_env ids)
     \<lparr>ne_pack := \<lambda>m. ne_pack (bare_env ids) m @ CHR ''y'' # encode_names (msg_names m),
      ne_unpack := \<lambda>f. map_option (rename (decode_names [] (tl (dropWhile (\<lambda>c. c = CHR ''x'') f)))) (ne_unpack (bare_env ids) (takeWhile (\<lambda>c. c = CHR ''x'') f))\<rparr>"

lemma names_env_unpack:
  "ne_unpack (names_env ids) (ne_pack (names_env ids) m) = map_option (rename (msg_names m)) (ne_unpack (bare_env ids) (ne_pack (bare_env ids) m))"
proof -
  have "takeWhile (\<lambda>c. c = CHR ''x'') (replicate k CHR ''x'' @ CHR ''y'' # cs) = replicate k CHR ''x''"
    "tl (dropWhile (\<lambda>c. c = CHR ''x'') (replicate k CHR ''x'' @ CHR ''y'' # cs)) = cs" for k cs
    by (induction k) simp_all
  then show ?thesis by (simp add: names_env_def bare_env_def decode_encode)
qed

lemma names_env_wire: "wire_ok (names_env ids)" "wire_names (names_env ids)"
proof -
  have *: "ne_unpack (names_env ids) (ne_pack (names_env ids) m) = Some (rename (msg_names m) (received (bare_env ids) m))"
    if "msg_consistent m" for m
    using wire(1) [OF bare_wire that, of ids] by (simp add: names_env_unpack)
  note b = wire(2,3) [OF bare_wire, of _ ids]
  show "wire_ok (names_env ids)" unfolding wire_ok_def using * b rename_kind rename_consistent by metis
  show "wire_names (names_env ids)" unfolding wire_names_def received_def using * b rename_names by (metis option.sel)
qed


section \<open>Properties\<close>

text \<open>
  C3. What one client adds, every client finds: while any number of clients run against the daemon in any interleaving, one client adds an actuator,
  a scope, a sensor or a slice, and its call has got its reply.  Then every later call of any client that lists the objects of that kind, or looks for one by this uuid,
  returns 0 with an object of this uuid in its result, however its request and its reply are interleaved with what the others do.  Here the protocol buffers keep, with the
  kind of a message, the uuids in it.
\<close>

theorem nrm_added_is_found:
  assumes topo: "nrm_scope_hwloc_scopes topo [] = Inr (err, scopes)" "map_of scopes ''nrm.hwloc.Machine.0'' \<noteq> None" "config_fits scopes config"
    and env: "ne_cb env = nrmd_callbacks fexp flog" "wire_ok env" "wire_names env"
    and main: "nrmd_main fexp topo clock config True (Some uri) freq = Inr (s0, period)"
    and run: "net_reach env (net_start env s0) n" and i: "i \<in> set (ne_ids env)" "idle n i"
    and add: "adds_name a t u" "api_sends a" "api_request a = Inr (Some m)" "net_do env (ASend i m) n = Inr n1"
    and added: "net_reach env n1 n2" "net_sent n2 i = net_sent n1 i" "net_got n2 i = net_got n i @ [r]"
    and later: "net_reach env n2 n3" and j: "j \<in> set (ne_ids env)" "idle n3 j"
    and look: "looks_up l t u" "api_sends l" "api_request l = Inr (Some k)" "net_do env (ASend j k) n3 = Inr n4"
    and looked: "net_reach env n4 n5" "net_sent n5 j = net_sent n4 j" "net_got n5 j = net_got n3 j @ [r']"
  shows "\<exists>f. u \<in> found_names f \<and> (\<forall>c c1 c2. client_send (Some k) c = Inr c1 \<and> client_recv c1 = Inr (Some r', c2) \<longrightarrow>
     api_run l c = Inr (0, Some c2, ResFound f))"
proof -
  note s0 = nrmd_main_good [OF topo main]
  note one = nrmd_call_reply [OF env(1,2) s0 run i add(2,3,4) added(1,2)]
  have e1: "takes_effect env s0 (net_inputs n) (net_inputs n2) i m r" using one(4) [of r "[]"] added(3) by simp
  have run3: "net_reach env (net_start env s0) n3" by (rule reach_trans [OF later one(1)])
  note two = nrmd_call_reply [OF env(1,2) s0 run3 j look(2,3,4) looked(1,2)]
  obtain res where e2: "takes_effect env s0 (net_inputs n3) (net_inputs n5) j k r'" and r': "msg_consistent r'" "msg_kind r' = due k"
      "api_finish l (Some r') = Inr res"
    using two(4) [of r' "[]"] looked(3) by auto
  obtain q where "net_inv nrmd_good env s0 n5 q" using nrmd_reach_inv [OF two(1) env(1,2) s0] by blast
  then have adm: "list_all admissible (net_inputs n5)" by (simp add: net_inv_def accounted_def)
  have ends: "\<not> list_ex ends (butlast (net_inputs n5))"
    using nrmd_net.net.ends_last [OF two(1), of fexp flog "ne_raw env"] env s0 by (simp add: nrmd_callbacks_def)
  have "knows t u s" if "prefix (net_inputs n3) js" "strict_prefix js (net_inputs n5)" "nrm_server_start (ne_cb env) (ne_raw env) js s0 = Inr s" for js s
  proof (rule effect_kept [OF env s0(1) add(1-3) e1 _ _ _ that(3)])
    show "prefix (net_inputs n2) js" using reach_extends(1) [OF later] that(1) by (rule prefix_order.trans)
    show "list_all admissible js" using adm that(2) by (auto simp: strict_prefix_def prefix_def)
    show "\<not> list_ex ends js" using ends that(2) by (auto simp: strict_prefix_def prefix_def butlast_append split: if_splits)
  qed
  from effect_listed [OF env s0(1) look(1-3) e2 adm this] have "u \<in> set (msg_names r')" .
  moreover have "due k = (NRM_MSG_TYPE_LIST, t, 0)" using look(1) request_due [OF look(2,3)] by (cases l) auto
  ultimately obtain f where "res = ResFound f" "u \<in> found_names f" using finish_finds [OF look(1,2) r'(1) _ _ r'(3)] r'(2) by auto
  then show ?thesis using api_run_reply [OF look(2,3)] r'(3) by blast
qed

theorem nrm_added_is_found_witness:
  "\<exists>s0 period n2 n3 k n4 n5 r' f. nrmd_main (\<lambda>x. x) one_machine (\<lambda>_. \<lparr>tv_sec = 0, tv_nsec = 0\<rparr>) None True (Some ''tcp'') (DFin 0) = Inr (s0, period)
     \<and> net_reach (names_env [''a'', ''b'']) (net_start (names_env [''a'', ''b'']) s0) n2 \<and> net_reach (names_env [''a'', ''b'']) n2 n3
     \<and> api_request CallListSensors = Inr (Some k) \<and> net_do (names_env [''a'', ''b'']) (ASend ''b'' k) n3 = Inr n4
     \<and> net_reach (names_env [''a'', ''b'']) n4 n5 \<and> net_got n5 ''b'' = net_got n3 ''b'' @ [r'] \<and> ''power'' \<in> found_names f
     \<and> (\<forall>(c :: (unit, unit) nrm_client) c1 c2. client_send (Some k) c = Inr c1 \<and> client_recv c1 = Inr (Some r', c2) \<longrightarrow>
          api_run CallListSensors c = Inr (0, Some c2, ResFound f))"
proof -
  let ?env = "names_env [''a'', ''b'']" and ?a = "CallAddSensor \<lparr>sensor_uuid = ''power''\<rparr>"
  obtain err scopes where t: "nrm_scope_hwloc_scopes one_machine [] = Inr (err, scopes)" "map_of scopes ''nrm.hwloc.Machine.0'' \<noteq> None"
    using one_machine_known by blast
  have c: "config_fits scopes None" by simp
  obtain s0 period where main: "nrmd_main (\<lambda>x. x) one_machine (\<lambda>_. \<lparr>tv_sec = 0, tv_nsec = 0\<rparr>) None True (Some ''tcp'') (DFin 0) = Inr (s0, period)"
    using one_machine_starts by blast
  note s0 = nrmd_main_good [OF t c main]
  have env: "ne_cb ?env = nrmd_callbacks (\<lambda>x. x) (\<lambda>x. x)" "''a'' \<in> set (ne_ids ?env)" "''b'' \<in> set (ne_ids ?env)"
    by (simp_all add: names_env_def bare_env_def)
  have n: "net_reach ?env (net_start ?env s0) (net_start ?env s0)" "idle (net_start ?env s0) ''a''" "calm ?env (net_start ?env s0)"
    by (simp_all add: net_reach.start idle_def calm_def net_start_def)
  have a: "api_sends ?a" "adds_name ?a NRM_MSG_TARGET_TYPE_SENSOR ''power''" "api_sends CallListSensors" "looks_up CallListSensors NRM_MSG_TARGET_TYPE_SENSOR ''power''"
    by simp_all
  obtain m n1 n2 r where one: "api_request ?a = Inr (Some m)" "net_do ?env (ASend ''a'' m) (net_start ?env s0) = Inr n1" "net_reach ?env n1 n2"
      "net_sent n2 ''a'' = net_sent n1 ''a''" "net_got n2 ''a'' = net_got (net_start ?env s0) ''a'' @ [r]"
      and n2: "net_reach ?env (net_start ?env s0) n2" "calm ?env n2" "idle n2 ''b''"
    using nrmd_call_completes [OF env(1) names_env_wire(1) s0 n(1,3) env(2) n(2) a(1)] env(3) by blast
  obtain k n4 n5 r' where two: "api_request CallListSensors = Inr (Some k)" "net_do ?env (ASend ''b'' k) n2 = Inr n4" "net_reach ?env n4 n5"
      "net_sent n5 ''b'' = net_sent n4 ''b''" "net_got n5 ''b'' = net_got n2 ''b'' @ [r']"
    using nrmd_call_completes [OF env(1) names_env_wire(1) s0 n2(1,2) env(3) n2(3) a(3)] by blast
  obtain f where "''power'' \<in> found_names f" "\<forall>(c :: (unit, unit) nrm_client) c1 c2. client_send (Some k) c = Inr c1 \<and> client_recv c1 = Inr (Some r', c2) \<longrightarrow>
      api_run CallListSensors c = Inr (0, Some c2, ResFound f)"
    using nrm_added_is_found [OF t c env(1) names_env_wire main n(1) env(2) n(2) a(2,1) one net_reach.start env(3) n2(3) a(4,3) two] by blast
  with main n2(1) two show ?thesis using net_reach.start [of ?env n2] by blast
qed

end
