(* ===== verification/Spec2Isabelle.thy ===== *)
theory Spec2Isabelle
  imports NRM_Ringbuffer NRM_Uthash NRM_Alloc NRM_Nrmc_Run NRM_Lookup
begin

text \<open>
  \<^bold>\<open>libnrm: the Node Resource Manager library and its daemon.\<close>

  \<^bold>\<open>The program.\<close>  A daemon (src/binaries/nrmd.c) keeps a table of actuators, scopes, sensors and
  slices, receives sensor events from clients, stores and republishes them, runs a control loop on them and
  sends actuation orders back.  Applications link the client library (src/client.c).  Both sides talk
  through a role (src/roles): a broker thread that owns the sockets and is reached over a pipe of
  control messages.  Messages are protobuf messages (src/messages.c, src/msg.proto).  The clients in the
  repository are the command-line program nrmc, an OpenMP tool and MPI wrappers that are loaded into an
  application (src/preloads), and programs that report counters of PAPI and GEOPM (src/binaries).
  Underneath are the library's own containers (src/utils) on vendored macros (include/internal).

  \<^bold>\<open>How C is modelled.\<close>  A pure function is a HOL function.  A function that updates an object takes it and
  returns it; a pointer argument that may be NULL is an option, an out parameter is part of the result.
  A run that does not return normally is a \<open>fault\<close>: \<open>'a exec\<close> is \<open>fault + 'a\<close>, with NULL
  dereference, out-of-bounds access, use after free, use of an uninitialised variable, read of the
  wrong union member, failed assertion and divergence as values, so that a theorem with \<open>Inr\<close> on the
  right says that the code returns and that none of them happens.  Error codes are the integers the code
  returns.  Machine integers are words or integers with the wrap-around written out where the code can
  overflow; doubles are the data type of NRM_Double, exact rationals rounded to nearest even after each
  operation, with infinities and NaN.

  \<^bold>\<open>The theories\<close>, in the order of their dependencies:

  \<^item> NRM_Prelude: faults and the \<open>exec\<close> sequencing operators, error codes (src/utils/error.c), integer
    ranges, lemmas on lists and association lists.
  \<^item> NRM_Double: IEEE-754 double arithmetic: rounding is monotone and exact on doubles.
  \<^item> NRM_Alloc: the macros of include/nrm/utils/alloc.h, by which an object and the data behind it share one allocation.
  \<^item> NRM_Vector: src/utils/vectors.c on the UT_array macros (include/internal/utarray.h).  The locale
    \<open>comparator\<close> is the contract of a comparison function, \<open>growable_array\<close> that of a vector, which
    refines a list.
  \<^item> NRM_Ringbuffer: src/utils/ringbuffer.c on UT_ringbuffer; the locale \<open>bounded_log\<close>.
  \<^item> NRM_Bitmap: src/utils/bitmaps.c, 32 words of 64 bits; the locale \<open>index_set\<close>.
  \<^item> NRM_String: src/utils/strings.c and src/utils/uuids.c on a heap of counted headers; the locale
    \<open>refcount\<close>.
  \<^item> NRM_Hash: src/utils/hashes.c over an insertion-ordered list; the locale \<open>keyed_store\<close>.
  \<^item> NRM_Uthash: the macros of include/internal/uthash.h that hashes.c expands: the Jenkins hash, chained
    buckets and their doubling, and hashes.c again on top of them.
  \<^item> NRM_Time: src/utils/timers.c and src/utils/parsers.c; time stamps are a linear order, which is the order the code compares by.
  \<^item> NRM_Scope: src/utils/scopes.c, src/sensor.c, src/slices.c.
  \<^item> NRM_Actuator: src/actuator.c and src/actuators; the locale \<open>value_corrector\<close> relates correcting and
    validating a value.
  \<^item> NRM_Eventbase: src/timeserie.c and src/eventbase.c; the locale \<open>event_store\<close> specifies the store as
    a multiset of events per sensor and scope.
  \<^item> NRM_State: src/state.c, with the well-formedness of the four tables.
  \<^item> NRM_Message: src/messages.c over the records of src/msg.proto.  The destructors return the blocks they free, so that they can
    be compared with the blocks of a message.
  \<^item> NRM_Server: src/server.c.  Each handler of the dispatcher is a definition, the reactor is a fold over
    its inputs, and \<open>server_reach\<close> is the relation of the reachable states.  The locale
    \<open>server_user\<close> is what the server needs of the callbacks its user registers.
  \<^item> NRM_Role: src/net.c and src/roles: both brokers, with a list of frames for each socket.
  \<^item> NRM_Client: src/client.c over any role.  The locale \<open>request_reply\<close> is what a client needs of the
    connection: each request gets its reply.
  \<^item> NRM_System: a client and a server connected through both brokers.  The interpretation \<open>sysrr\<close>
    proves that this connection satisfies \<open>request_reply\<close>.
  \<^item> NRM_Control: src/control/control.c and src/control/europar21.c.  The configuration is what jansson reads from it, where a key
    may be missing or have a value of another type.
  \<^item> NRM_Hwloc: src/hwloc.c.  A topology has its objects by depth and rank, objects at virtual depths and devices; the loops of the
    code run over the depths from 0.  \<open>topology_spec\<close> is the list of scopes that should come out.
  \<^item> NRM_Daemon: src/binaries/nrmd.c.  The interpretation \<open>nrmd_user\<close> proves that the daemon's callbacks
    satisfy \<open>server_user\<close>, which gives the invariant of every state the daemon reaches.
  \<^item> NRM_Typing: the daemon only sends messages whose data matches their tags; the locale \<open>typed_user\<close>.
  \<^item> NRM_Json: the conversions to and from jansson in src/utils, src/actuator.c, src/sensor.c, src/slices.c and
    src/messages.c.
  \<^item> NRM_Tools: src/log.c, src/nrm.c, src/tools.c, and the option scanner \<open>getopt_long\<close> of the C library.
  \<^item> NRM_Reactor: src/reactor.c.
  \<^item> NRM_Nrmc and NRM_Nrmc_Run: src/binaries/nrmc.c, its definitions and its properties.  What the remove commands read when they take
    the slot of a pointer for the object is the parameter \<open>ne_slot_sensor\<close> (and one for each other kind of object).
  \<^item> NRM_Preload: src/preloads/ompt and src/preloads/pmpi; the locale \<open>event_sink\<close> is a role that takes events.
  \<^item> NRM_Extras: src/binaries/nrm-dummy-extra.c, nrm-papiwrapper.c and nrm-geopm.c.
  \<^item> NRM_Nrmd: the daemon as a program, from its command line to its tear-down, with what is left allocated at the end (\<open>nrmd_left\<close>); the locale \<open>sturdy_user\<close> is what the
    server needs of its callbacks in order not to fail.
  \<^item> NRM_Publish: what the daemon publishes over all its inputs; the locale \<open>send_invariant\<close> is what the handlers without
    publications cannot break.
  \<^item> NRM_Network: any number of clients, their brokers, the sockets and the daemon as one transition system, with an action for
    each turn of a thread.  The locale \<open>answering_server\<close> is what the network needs of the server; the daemon provides it through
    \<open>serving_user\<close>.
  \<^item> NRM_Session: the calls of the client API in that network.  \<open>api_run_split\<close> takes each function of src/client.c apart into its request and
    what it does with the reply; \<open>takes_effect\<close> is the moment at which the daemon handles the request.
    The calls are those that wait for a reply, except the four removals.
  \<^item> NRM_Lookup: the names in the daemon's tables only grow; the locale \<open>naming_user\<close> is what the server needs of its callbacks for that.
  \<^item> this theory: properties that run through client, brokers, server and state together.

  \<^bold>\<open>What is shown.\<close>  C1 to C5 are about the whole system under every interleaving of its threads: the daemon is where it would be if it
  served the clients one by one (C1), every call of the client API that waits for a reply and removes nothing returns as if it had happened at one moment (C2), what one client adds every client finds (C3),
  every request is answered (C4), and publications and actions reach the clients they are for (C5).  C6
  and C7 follow a request of one client from its call to the daemon's tables and back; C8 to C10 and C13 are about the daemon as a
  program: it serves every well-typed request and runs its control loop without a fault, its state is sound, it keeps and
  publishes events, and what it sends is well typed.  C11, C12 and C15 are about the server's handlers, C14 about two threads sharing a
  client.  C16 refines the event base to multisets and C20 the hash tables to lists.  C17, C28 and C35 are about nrmc, C18 and
  C19 about the preloaded libraries.  C21 is about the actuators, C22 is the round trip of the objects in messages, C23 is about the memory of messages, C24
  and C25 are about the JSON forms, C26, C27 and C33 about the command lines and the environment, C29 and C30 about the controller, C31 about
  the client's subscriptions, C32 about the topology, C34 about the reactor, C36 to C39 about the containers and C40 about the shared allocations.  C14, C15, C23,
  C35, C36 and C38, and parts of C8, C19, C21, C29 and C32, describe behaviour of the code that its comments or its callers do not expect.
  Each theory has further theorems without a number, among them the behaviour of removals and of string comparison, binary search, the round trip of frames, the brokers as
  ordered channels, the OpenMP tool without a scope and the reports of the GEOPM bridge.

  \<^bold>\<open>Parameters.\<close>  Code outside the repository is an argument: packing and unpacking of protobuf-c (with the
  hypothesis that a message used in a property survives the trip), jansson (a record of its functions, with its
  documented behaviour as the predicate \<open>jansson_ok\<close>, which the trees of NRM_Json satisfy), \<open>exp\<close> and
  \<open>log\<close> of libm (no hypothesis), \<open>strtod\<close> (C8 and C26 are about the frequencies it accepts), the clock, the hwloc topology, the results of czmq's socket
  calls and of \<open>malloc\<close>, what jansson reads from the JSON configuration, the environment, the MPI library,
  the OpenMP runtime, PAPI, GEOPM, \<open>fork\<close>, \<open>ptrace\<close> and \<open>execvp\<close>.  \<open>raw\<close> in the server and the state
  is the memory at the address of a local variable, which \<open>nrm_hash_remove\<close> reads by mistake.

  \<^bold>\<open>Loops and fuel.\<close>  Loops over lists and bits are structural recursions.  The doubling loop of
  \<open>utarray_reserve\<close> and the vector iteration may run forever and are \<open>partial_function (option)\<close>;
  NRM_Vector shows that the first ends below \<open>2 ^ 31\<close> elements and C36 that it does not beyond.  Iterating a
  hash table takes the number of elements as fuel, which is enough because each step follows one link of
  the list.  \<open>settle\<close> of NRM_System gives the server as many turns as messages are waiting.  The option loops of
  NRM_Tools and NRM_Nrmc terminate because every step of the scanner shortens what is left to scan.  The reactors of
  the daemon and of the programs are folds over the wake-ups they see.

  \<^bold>\<open>Not modelled.\<close>  include/internal/utlist.h, which is included and never expanded; the macros of uthash.h that the
  library does not expand (other hash functions, sorting, selection, Bloom filters); the declarations of the public headers; the text
  that log messages format.  Allocation failure is modelled in the containers, strings, roles and the reactor
  and not in the message constructors.  Threads interleave at the granularity of the lock and of the
  sockets' messages.  In NRM_Network clients keep to the protocol and do not send removals (which can crash the daemon, C15);
  high-water marks and time-outs of zmq are not reached, and no connection is lost.

  \<^bold>\<open>Next.\<close>  A bound on the latency of the control loop in events; PAPI's wrapper over the network; clients that leave the network.
\<close>

section \<open>Properties that span the components\<close>

text \<open>
  C6. What is added is listed: a client on an idle connection that adds a sensor and then lists
  the sensors gets 0 from both calls, keeps its sensor as it is, and receives every sensor the daemon had, in
  order, with the new one at the end when its uuid was not taken.  The messages of the two
  exchanges are assumed to survive protobuf-c.
\<close>

theorem nrm_add_sensor_then_list:
  assumes sys: "quiet sys" "rc_up (sys_client sys) = []" "sys_running sys" "server_wf (sys_server sys)"
    and c: "cl_role c = connected env sys"
    and pb: "\<forall>m \<in> {add_sensor_msg (sensor_uuid n), list_sensors_msg [],
        list_sensors_msg (sensors_with (sensor_uuid n) (srv_state (sys_server sys)))}. se_unpack env (se_pack env m) = Some m"
  shows "\<exists>c' c''. nrm_client_add_sensor (Some c) (Some n) = Inr (0, Some c', Some n)
     \<and> nrm_client_list_sensors (Some c') True = Inr (0, Some c'',
         Some (map (\<lambda>u. Some \<lparr>sensor_uuid = u\<rparr>) (sensors_with (sensor_uuid n) (srv_state (sys_server sys)))))"
proof -
  let ?u = "sensor_uuid n"
  have p: "passes env (add_sensor_msg ?u)" "passes env (list_sensors_msg [])"
    "passes env (list_sensors_msg (sensors_with ?u (srv_state (sys_server sys))))"
    using pb by (simp_all add: passes_def)
  obtain s1 where s1: "respond env (add_sensor_msg ?u) sys = Some (add_sensor_msg ?u, s1)" "quiet s1" "sys_running s1"
    "sys_client s1 = sys_client sys" "server_wf (sys_server s1)"
    "map fst (st_sensors (srv_state (sys_server s1))) = sensors_with ?u (srv_state (sys_server sys))"
    using respond_add_sensor [OF sys(1,3) p(1)] sys(4) by blast
  obtain s2 where s2: "respond env (list_sensors_msg []) s1
      = Some (list_sensors_msg (sensors_with ?u (srv_state (sys_server sys))), s2)"
    using respond_list_sensors [OF s1(2,3,5) p(2)] p(3) s1(6) by auto
  let ?c = "c\<lparr>cl_role := connected env s1\<rparr>"
  have add: "nrm_client_add_sensor (Some c) (Some n) = Inr (0, Some ?c, Some n)"
    using s1(1) sys(2) by (intro sysrr.add_sensor [OF c]) (simp add: add_sensor_msg_def serve_def)
  have "serve env (list_sensors_msg []) s1 = Some (list_sensors_msg (sensors_with ?u (srv_state (sys_server sys))), s2)"
    using s2 s1(4) sys(2) by (simp add: serve_def)
  then have "nrm_client_list_sensors (Some ?c) True = Inr (0, Some (?c\<lparr>cl_role := connected env s2\<rparr>),
      Some (map (\<lambda>x. Some \<lparr>sensor_uuid = msn_uuid x\<rparr>) (map (\<lambda>u. \<lparr>msn_uuid = u\<rparr>) (sensors_with ?u (srv_state (sys_server sys))))))"
    by (intro sysrr.list_sensors_all) (simp_all add: list_sensors_msg_def)
  with add show ?thesis by (auto simp: comp_def)
qed

theorem nrm_add_sensor_then_list_witness:
  "\<exists>env c c' c''. cl_role c = connected env (fresh_system one_sensor)
     \<and> nrm_client_add_sensor (Some c) (Some \<lparr>sensor_uuid = ''t''\<rparr>) = Inr (0, Some c', Some \<lparr>sensor_uuid = ''t''\<rparr>)
     \<and> nrm_client_list_sensors (Some c') True = Inr (0, Some (c'' :: (unit nrm_system, unit) nrm_client),
         Some [Some \<lparr>sensor_uuid = ''s''\<rparr>, Some \<lparr>sensor_uuid = ''t''\<rparr>])"
proof -
  let ?ms = "[add_sensor_msg ''t'', list_sensors_msg [], list_sensors_msg [''s'', ''t'']]"
  let ?env = "table_env ?ms no_callbacks :: unit sys_env"
  let ?c = "\<lparr>cl_role = connected ?env (fresh_system one_sensor), cl_user_fn = None, cl_actuate_fn = None\<rparr> :: (unit nrm_system, unit) nrm_client"
  have u: "sensors_with ''t'' (srv_state one_sensor) = [''s'', ''t'']"
    by (simp add: sensors_with_def one_sensor_def nrm_state_create_def)
  have wf: "server_wf one_sensor"
    by (simp add: server_wf_def one_sensor_def state_wf_def nrm_state_create_def table_wf_def hash_wf_def)
  have "\<forall>m \<in> {add_sensor_msg (sensor_uuid \<lparr>sensor_uuid = ''t''\<rparr>), list_sensors_msg [],
      list_sensors_msg (sensors_with (sensor_uuid \<lparr>sensor_uuid = ''t''\<rparr>) (srv_state (sys_server (fresh_system one_sensor))))}.
      se_unpack ?env (se_pack ?env m) = Some m"
    by (simp add: u table_env_passes)
  from nrm_add_sensor_then_list [OF _ _ _ _ _ this, of ?c] wf
  have "\<exists>c' c''. nrm_client_add_sensor (Some ?c) (Some \<lparr>sensor_uuid = ''t''\<rparr>) = Inr (0, Some c', Some \<lparr>sensor_uuid = ''t''\<rparr>)
     \<and> nrm_client_list_sensors (Some c') True = Inr (0, Some c'', Some [Some \<lparr>sensor_uuid = ''s''\<rparr>, Some \<lparr>sensor_uuid = ''t''\<rparr>])"
    by (simp add: u)
  moreover have "cl_role ?c = connected ?env (fresh_system one_sensor)" by simp
  ultimately show ?thesis by blast
qed


text \<open>
  C7. A legal action arrives unchanged: when a client actuates an actuator of the daemon with a
  value the actuator accepts, the actuator belongs to another client and the daemon's callback allows it, the call returns 0, the daemon has stored
  exactly that value, and exactly that value was sent to the client owning the actuator before the
  acknowledgement.  The correction of the server leaves a value alone that the client has validated.
\<close>

theorem nrm_actuate_arrives:
  assumes sys: "quiet sys" "rc_up (sys_client sys) = []" "sys_running sys"
    and c: "cl_role c = connected env sys"
    and a: "map_of (st_actuators (srv_state (sys_server sys))) (act_uuid a) = Some a" "act_clientid a = Some owner" "owner \<noteq> se_ident env"
    and v: "correctable a v" "nrm_actuator_validate_value (Some a) v = Inr 0"
    and cb: "cb_actuate (se_cb env) = Some f" "f (sys_server sys) a v = Inr (0, sys_server sys)"
    and pb: "\<forall>m \<in> {actuate_msg (act_uuid a) v, ack_msg}. se_unpack env (se_pack env m) = Some m"
  shows "\<exists>c' sys'. nrm_client_actuate (Some c) (Some a) v = Inr (0, Some c') \<and> cl_role c' = connected env sys'
     \<and> map_of (st_actuators (srv_state (sys_server sys'))) (act_uuid a) = Some (a\<lparr>act_value := v\<rparr>)
     \<and> srv_out (sys_server sys') = srv_out (sys_server sys) @
         [OSend (actuate_msg (act_uuid a) v) (Some owner), OSend ack_msg (Some (se_ident env))]"
proof -
  have p: "passes env (actuate_msg (act_uuid a) v)" "passes env ack_msg" using pb by (simp_all add: passes_def)
  have valid: "act_valid a v" using v(2) by (simp add: act_valid_def)
  obtain s1 where s1: "respond env (actuate_msg (act_uuid a) v) sys = Some (ack_msg, s1)"
    "map_of (st_actuators (srv_state (sys_server s1))) (act_uuid a) = Some (a\<lparr>act_value := v\<rparr>)"
    "srv_out (sys_server s1) = srv_out (sys_server sys) @
       [OSend (actuate_msg (act_uuid a) v) (Some owner), OSend ack_msg (Some (se_ident env))]"
    using respond_actuate [OF sys(1,3) a v(1) valid cb p] by blast
  have "serve env (actuate_msg (act_uuid a) v) sys = Some (ack_msg, s1)" using s1(1) sys(2) by (simp add: serve_def)
  then have "nrm_client_actuate (Some c) (Some a) v = Inr (0, Some (c\<lparr>cl_role := connected env s1\<rparr>))"
    by (intro sysrr.actuate_ack [OF c v(2)]) (simp add: actuate_msg_def ack_msg_def)
  then show ?thesis using s1(2,3) by auto
qed

theorem nrm_actuate_arrives_witness:
  "\<exists>env sys c c'. cl_role c = connected env sys \<and>
     nrm_client_actuate (Some c) (Some (two_choices\<lparr>act_clientid := Some ''o''\<rparr>)) (DFin 1) = Inr (0, Some (c' :: (unit nrm_system, unit) nrm_client))"
proof -
  let ?a = "two_choices\<lparr>act_clientid := Some ''o''\<rparr>"
  let ?env = "table_env [actuate_msg (act_uuid ?a) (DFin 1), ack_msg] allow_all :: unit sys_env"
  let ?c = "\<lparr>cl_role = connected ?env (fresh_system one_actuator), cl_user_fn = None, cl_actuate_fn = None\<rparr> :: (unit nrm_system, unit) nrm_client"
  have "act_uuid two_choices = ''a''" by (simp add: two_choices_def nrm_actuator_discrete_create_def)
  then have a: "map_of (st_actuators (srv_state one_actuator)) (act_uuid ?a) = Some ?a" by (simp add: one_actuator_def)
  have v: "nrm_actuator_validate_value (Some ?a) (DFin 1) = Inr 0"
    using act_valid_discrete [of ?a "[DFin 1, DFin 3]" "DFin 1"]
    by (simp add: two_choices_def act_valid_def nrm_actuator_discrete_create_def)
  have pb: "\<forall>m \<in> {actuate_msg (act_uuid ?a) (DFin 1), ack_msg}. se_unpack ?env (se_pack ?env m) = Some m"
    by (simp add: table_env_passes)
  have "\<exists>c' sys'. nrm_client_actuate (Some ?c) (Some ?a) (DFin 1) = Inr (0, Some c') \<and> cl_role c' = connected ?env sys'
     \<and> map_of (st_actuators (srv_state (sys_server sys'))) (act_uuid ?a) = Some (?a\<lparr>act_value := DFin 1\<rparr>)
     \<and> srv_out (sys_server sys') = srv_out (sys_server (fresh_system one_actuator)) @
         [OSend (actuate_msg (act_uuid ?a) (DFin 1)) (Some ''o''), OSend ack_msg (Some (se_ident ?env))]"
    by (rule nrm_actuate_arrives [where f = "\<lambda>s a v. Inr (0, s)"])
      (use a v pb two_choices_correctable [of "Some ''o''"] in \<open>simp_all add: table_env_def allow_all_def\<close>)
  then obtain c' where "nrm_client_actuate (Some ?c) (Some ?a) (DFin 1) = Inr (0, Some c')" by blast
  moreover have "cl_role ?c = connected ?env (fresh_system one_actuator)" by simp
  ultimately show ?thesis by blast
qed

text \<open>
  C14. The lock does not keep a reply with its request: it is released between the two halves of a
  call.  If one thread has sent a request to list the sensors and another thread sends a tick and receives
  first, the second thread gets the list, and its assertion on the reply fails, although each call alone
  would succeed.
\<close>

theorem nrm_client_threads_swap_replies:
  assumes sys: "quiet sys" "rc_up (sys_client sys) = []" "sys_running sys" "server_wf (sys_server sys)"
    and c: "cl_role c = connected env sys" and cb: "cb_tick (se_cb env) = None"
    and pb: "\<forall>m \<in> {list_sensors_msg [], list_sensors_msg (map fst (st_sensors (srv_state (sys_server sys)))), tick_msg, ack_msg}.
        se_unpack env (se_pack env m) = Some m"
  shows "bindE (client_send (Some (list_sensors_msg [])) c) (\<lambda>c.
         bindE (client_send (Some tick_msg) c) (\<lambda>c.
         bindE (client_recv c) (\<lambda>(reply, _). ack_reply reply))) = Inl AssertFail
     \<and> (\<exists>c'. nrm_client_send_tick (Some c) = Inr (0, Some c'))"
proof -
  have p: "passes env (list_sensors_msg [])" "passes env (list_sensors_msg (map fst (st_sensors (srv_state (sys_server sys)))))"
    "passes env tick_msg" "passes env ack_msg"
    using pb by (simp_all add: passes_def)
  let ?up = "\<lambda>m. (''RECV'', PMsg m, PNull)"
  let ?l = "list_sensors_msg (map fst (st_sensors (srv_state (sys_server sys))))"
  obtain s1 where s1: "respond env (list_sensors_msg []) sys = Some (?l, s1)" "quiet s1" "sys_running s1" "sys_client s1 = sys_client sys"
    using respond_list_sensors [OF sys(1,3,4) p(1,2)] by blast
  let ?s1 = "s1\<lparr>sys_client := (sys_client sys)\<lparr>rc_up := [?up ?l]\<rparr>\<rparr>"
  have "quiet ?s1" "sys_running ?s1" using s1 by (simp_all add: quiet_def)
  then obtain s2 where s2: "respond env tick_msg ?s1 = Some (ack_msg, s2)" "sys_client s2 = sys_client ?s1"
    using respond_tick [OF _ _ cb p(3,4)] by blast
  have "client_send (Some (list_sensors_msg [])) c = Inr (c\<lparr>cl_role := connected env ?s1\<rparr>)"
    using c system_send_responds [OF s1(1)] sys(2) by (simp add: client_send_def nrm_role_send_def role_op_def system_ops_def)
  moreover have "client_send (Some tick_msg) (c\<lparr>cl_role := connected env ?s1\<rparr>)
      = Inr (c\<lparr>cl_role := connected env (s2\<lparr>sys_client := (sys_client sys)\<lparr>rc_up := [?up ?l, ?up ack_msg]\<rparr>\<rparr>)\<rparr>)"
    using system_send_responds [OF s2(1)] by (simp add: client_send_def nrm_role_send_def role_op_def system_ops_def)
  moreover have "\<exists>c'. client_recv (c\<lparr>cl_role := connected env (s2\<lparr>sys_client := (sys_client sys)\<lparr>rc_up := [?up ?l, ?up ack_msg]\<rparr>\<rparr>)\<rparr>)
      = Inr (Some ?l, c')"
    by (simp add: client_recv_def nrm_role_recv_def role_op_def system_ops_def system_recv_def client_recv_eq)
  moreover have "ack_reply (Some ?l) = Inl AssertFail" by (simp add: ack_reply_def list_sensors_msg_def msg_types)
  moreover obtain s3 where "serve env tick_msg sys = Some (ack_msg, s3)"
    using respond_tick [OF sys(1,3) cb p(3,4)] sys(2) by (auto simp: serve_def)
  then have "nrm_client_send_tick (Some c) = Inr (0, Some (c\<lparr>cl_role := connected env s3\<rparr>))"
    using sysrr.call [OF c] by (simp add: nrm_client_send_tick_def tick_msg_def ack_msg_def ack_reply_def)
  ultimately show ?thesis by auto
qed

theorem nrm_client_threads_swap_replies_witness:
  "\<exists>(c :: (unit nrm_system, unit) nrm_client). bindE (client_send (Some (list_sensors_msg [])) c) (\<lambda>c.
         bindE (client_send (Some tick_msg) c) (\<lambda>c.
         bindE (client_recv c) (\<lambda>(reply, _). ack_reply reply))) = Inl AssertFail"
proof -
  let ?env = "table_env [list_sensors_msg [], list_sensors_msg [''s''], tick_msg, ack_msg] no_callbacks :: unit sys_env"
  let ?c = "\<lparr>cl_role = connected ?env (fresh_system one_sensor), cl_user_fn = None, cl_actuate_fn = None\<rparr> :: (unit nrm_system, unit) nrm_client"
  have wf: "server_wf one_sensor"
    by (simp add: server_wf_def one_sensor_def state_wf_def nrm_state_create_def table_wf_def hash_wf_def)
  have "map fst (st_sensors (srv_state (sys_server (fresh_system one_sensor)))) = [''s'']"
    by (simp add: one_sensor_def)
  then have "\<forall>m \<in> {list_sensors_msg [], list_sensors_msg (map fst (st_sensors (srv_state (sys_server (fresh_system one_sensor))))), tick_msg, ack_msg}.
      se_unpack ?env (se_pack ?env m) = Some m"
    by (simp only: ball_simps table_env_passes list.set insert_iff simp_thms)
  from nrm_client_threads_swap_replies [OF _ _ _ _ _ _ this, of ?c] wf
  show ?thesis by (auto simp: table_env_def no_callbacks_def)
qed

end
